(* ===== verification/Prelude.thy ===== *)
theory Prelude
  imports Complex_Main "HOL-Library.AList" "HOL-Library.Char_ord" "HOL-Library.List_Lexorder"
    "HOL-Library.Multiset"
begin

text \<open>
  Shared vocabulary of the development: the Python values the modelled code inspects, the
  operations of Python's built-in types it uses (dictionaries, text, decimal integers), the
  result type that carries a raised exception, and the generic lemmas the component
  theories rely on.

  A Python \<open>dict\<close> is an association list with distinct keys, in insertion order;
  \<open>d[k] = v\<close> is \<^const>\<open>AList.update\<close>, which overwrites in place and appends a new key.
  Text is a list of code points below 256.  A float is its exact rational value, an
  infinity or not-a-number.
\<close>

section \<open>Proof automation shared by the components\<close>

named_theorems py_simps \<open>unfolding of the models of Python built-ins\<close>
named_theorems inv_intros \<open>an operation keeps the invariant of its component\<close>

section \<open>Results: a value or the exception that was raised\<close>

type_synonym ('e, 'a) result = "'e + 'a"

abbreviation Raise :: "'e \<Rightarrow> ('e, 'a) result" where
  "Raise \<equiv> Inl"

abbreviation Return :: "'a \<Rightarrow> ('e, 'a) result" where
  "Return \<equiv> Inr"

definition res_bind :: "('e, 'a) result \<Rightarrow> ('a \<Rightarrow> ('e, 'b) result) \<Rightarrow> ('e, 'b) result" where
  "res_bind r f = (case r of Inl e \<Rightarrow> Inl e | Inr x \<Rightarrow> f x)"

lemma res_bind_simps [simp]:
  "res_bind (Inl e) f = Inl e"
  "res_bind (Inr x) f = f x"
  by (simp_all add: res_bind_def)

lemma res_bind_Inr_iff: "res_bind r f = Inr y \<longleftrightarrow> (\<exists>x. r = Inr x \<and> f x = Inr y)"
  by (cases r) auto

lemma res_bind_Inl_iff: "res_bind r f = Inl e \<longleftrightarrow> r = Inl e \<or> (\<exists>x. r = Inr x \<and> f x = Inl e)"
  by (cases r) auto

text \<open>Mapping a function that may raise over a list stops at the first exception.\<close>

fun res_map :: "('a \<Rightarrow> ('e, 'b) result) \<Rightarrow> 'a list \<Rightarrow> ('e, 'b list) result" where
  "res_map f [] = Inr []"
| "res_map f (x # xs) = res_bind (f x) (\<lambda>y. res_bind (res_map f xs) (\<lambda>ys. Inr (y # ys)))"

lemma res_map_Inr_iff: "res_map f xs = Inr ys \<longleftrightarrow> list_all2 (\<lambda>x y. f x = Inr y) xs ys"
  by (induction xs arbitrary: ys) (auto simp: res_bind_Inr_iff list_all2_Cons1)

text \<open>A loop whose body may raise.\<close>

fun res_fold :: "('a \<Rightarrow> 's \<Rightarrow> ('e, 's) result) \<Rightarrow> 'a list \<Rightarrow> 's \<Rightarrow> ('e, 's) result" where
  "res_fold f [] s = Inr s"
| "res_fold f (x # xs) s = res_bind (f x s) (res_fold f xs)"

lemma res_fold_keeps:
  assumes "res_fold f xs s = Inr t" "P s" "\<And>x a b. x \<in> set xs \<Longrightarrow> P a \<Longrightarrow> f x a = Inr b \<Longrightarrow> P b"
  shows "P t"
  using assms
proof (induction xs arbitrary: s)
  case (Cons x xs)
  then obtain u where u: "f x s = Inr u" "res_fold f xs u = Inr t" by (auto simp: res_bind_Inr_iff)
  with Cons.prems have "P u" by auto
  with Cons.IH [OF u(2)] Cons.prems(3) show ?case by auto
qed simp

section \<open>Python values\<close>

datatype pyfloat = FNaN | FInf bool | FFin rat

datatype pyval =
    PNone
  | PBool bool
  | PInt int
  | PFloat pyfloat
  | PStr string
  | PList "pyval list"
  | PDict "(pyval \<times> pyval) list"

fun is_str :: "pyval \<Rightarrow> bool" where
  "is_str (PStr _) = True"
| "is_str _ = False"

fun is_mapping :: "pyval \<Rightarrow> bool" where
  "is_mapping (PDict _) = True"
| "is_mapping _ = False"

text \<open>\<open>isinstance(v, int) and not isinstance(v, bool) and v > 0\<close>: a boolean is an
  \<open>int\<close> to Python but never counts as a number in this code.\<close>

fun is_pos_int :: "pyval \<Rightarrow> bool" where
  "is_pos_int (PInt n) = (0 < n)"
| "is_pos_int _ = False"

lemma is_pos_intE: "is_pos_int v \<Longrightarrow> (\<And>n. v = PInt n \<Longrightarrow> 0 < n \<Longrightarrow> P) \<Longrightarrow> P"
  by (cases v) auto

lemma is_strE: "is_str v \<Longrightarrow> (\<And>s. v = PStr s \<Longrightarrow> P) \<Longrightarrow> P"
  by (cases v) auto

lemma is_mappingE: "is_mapping v \<Longrightarrow> (\<And>d. v = PDict d \<Longrightarrow> P) \<Longrightarrow> P"
  by (cases v) auto

section \<open>Dictionaries\<close>

abbreviation dict_set :: "'k \<Rightarrow> 'v \<Rightarrow> ('k \<times> 'v) list \<Rightarrow> ('k \<times> 'v) list" where
  "dict_set \<equiv> AList.update"

abbreviation dict_ok :: "('k \<times> 'v) list \<Rightarrow> bool" where
  "dict_ok d \<equiv> distinct (map fst d)"

text \<open>\<open>k in d\<close>\<close>

definition has_key :: "('k \<times> 'v) list \<Rightarrow> 'k \<Rightarrow> bool" where
  "has_key d k = (map_of d k \<noteq> None)"

lemma has_key_iff: "has_key d k \<longleftrightarrow> k \<in> fst ` set d"
  by (metis has_key_def map_of_eq_None_iff)

lemma has_key_code [code]: "has_key d k = list_ex (\<lambda>p. fst p = k) d"
  by (auto simp: has_key_iff list_ex_iff)

lemma map_of_dict_set [simp]: "map_of (dict_set k v d) = (map_of d)(k \<mapsto> v)"
  by (simp add: update_conv')

lemma dict_ok_set [simp]: "dict_ok d \<Longrightarrow> dict_ok (dict_set k v d)"
  by (rule distinct_update)

lemma map_of_SomeI: "dict_ok d \<Longrightarrow> (k, v) \<in> set d \<Longrightarrow> map_of d k = Some v"
  by (rule map_of_is_SomeI)

text \<open>A dictionary read in sorted key order.\<close>

definition sorted_items :: "('k::linorder \<times> 'v) list \<Rightarrow> ('k \<times> 'v) list" where
  "sorted_items d = sort_key fst d"

lemma set_sorted_items [simp]: "set (sorted_items d) = set d"
  by (simp add: sorted_items_def)

lemma length_sorted_items [simp]: "length (sorted_items d) = length d"
  by (simp add: sorted_items_def)

lemma sorted_items_Nil [simp]: "sorted_items d = [] \<longleftrightarrow> d = []"
  by (metis length_0_conv length_sorted_items)

lemma mset_sorted_items [simp]: "mset (sorted_items d) = mset d"
  by (simp add: sorted_items_def)

lemma dict_ok_sorted_items [simp]: "dict_ok (sorted_items d) = dict_ok d"
proof -
  have "mset (map fst (sorted_items d)) = mset (map fst d)"
    by (simp add: mset_map)
  then show ?thesis by (rule mset_eq_imp_distinct_iff)
qed

lemma map_of_sorted_items:
  assumes "dict_ok d"
  shows "map_of (sorted_items d) = map_of d"
  using assms by (simp add: map_of_inject_set)

text \<open>Two dictionaries with the same content have the same sorted items.\<close>

lemma sorted_items_unique:
  assumes "dict_ok d" "dict_ok e" "set d = set e"
  shows "sorted_items d = sorted_items e"
proof -
  have "mset d = mset e"
    using assms by (metis distinct_map set_eq_iff_mset_eq_distinct)
  moreover have "inj_on fst (set e)"
    using assms by (simp add: distinct_map)
  ultimately show ?thesis
    unfolding sorted_items_def
    by (metis mset_sort properties_for_sort_key sort_key_inj_key_eq sorted_sort_key)
qed

lemma dict_set_absent: "k \<notin> fst ` set d \<Longrightarrow> dict_set k v d = d @ [(k, v)]"
  by (induction d) auto

lemma fold_dict_set_append:
  "distinct (map fst (d @ xs)) \<Longrightarrow> fold (\<lambda>(k, v). dict_set k v) xs d = d @ xs"
proof (induction xs arbitrary: d)
  case Nil
  then show ?case by simp
next
  case (Cons x xs)
  obtain k v where x: "x = (k, v)" by (cases x)
  with Cons.prems have "k \<notin> fst ` set d" by auto
  then have "dict_set k v d = d @ [(k, v)]" by (rule dict_set_absent)
  with Cons.IH [of "d @ [(k, v)]"] Cons.prems x show ?case by auto
qed

lemma mem_map_filter: "y \<in> set (List.map_filter f xs) \<longleftrightarrow> (\<exists>x \<in> set xs. f x = Some y)"
  by (induction xs) (auto simp: map_filter_simps split: option.splits)

lemma set_dict_set: "set (dict_set k v d) \<subseteq> insert (k, v) (set d)"
  by (induction d) auto

section \<open>Text\<close>

text \<open>\<open>str.isspace\<close> on code points below 256.\<close>

definition py_isspace :: "char \<Rightarrow> bool" where
  "py_isspace c = (let n = (of_char c :: nat) in
     (9 \<le> n \<and> n \<le> 13) \<or> (28 \<le> n \<and> n \<le> 32) \<or> n = 133 \<or> n = 160)"

text \<open>\<open>str.strip()\<close>\<close>

definition py_strip :: "string \<Rightarrow> string" where
  "py_strip s = rev (dropWhile py_isspace (rev (dropWhile py_isspace s)))"

lemma py_strip_eq_Nil: "py_strip s = [] \<longleftrightarrow> (\<forall>c \<in> set s. py_isspace c)"
proof -
  have "set (dropWhile py_isspace s) \<subseteq> set s" by (auto dest: set_dropWhileD)
  moreover have "dropWhile py_isspace s = [] \<longleftrightarrow> (\<forall>c \<in> set s. py_isspace c)"
    by (simp add: dropWhile_eq_Nil_conv)
  moreover have "dropWhile py_isspace s \<noteq> [] \<Longrightarrow> \<not> py_isspace (hd (dropWhile py_isspace s))"
    by (rule hd_dropWhile)
  ultimately show ?thesis
    by (auto simp: py_strip_def dropWhile_eq_Nil_conv)
      (metis dropWhile_eq_Nil_conv hd_in_set)+
qed

text \<open>\<open>s.partition(c)\<close> without the separator: what precedes the first \<open>c\<close> and what follows it,
  the latter empty when \<open>c\<close> does not occur.\<close>

definition py_partition :: "char \<Rightarrow> string \<Rightarrow> string \<times> string" where
  "py_partition c s = (takeWhile (\<lambda>x. x \<noteq> c) s, drop 1 (dropWhile (\<lambda>x. x \<noteq> c) s))"

lemma py_partition_append: "c \<notin> set a \<Longrightarrow> py_partition c (a @ c # b) = (a, b)"
  by (induction a) (auto simp: py_partition_def)

lemma py_partition_absent: "c \<notin> set a \<Longrightarrow> py_partition c a = (a, [])"
  by (induction a) (auto simp: py_partition_def)

section \<open>Decimal numerals\<close>

definition digit_char :: "nat \<Rightarrow> char" where
  "digit_char d = char_of (48 + d)"

definition digit_val :: "char \<Rightarrow> nat" where
  "digit_val c = of_char c - 48"

text \<open>The class \<open>[0-9]\<close> of a regular expression.\<close>

definition is_digit :: "char \<Rightarrow> bool" where
  "is_digit c = (48 \<le> (of_char c :: nat) \<and> (of_char c :: nat) \<le> 57)"

lemma is_digit_char [simp]: "d < 10 \<Longrightarrow> is_digit (digit_char d)"
  by (simp add: is_digit_def digit_char_def)

lemma digit_val_char [simp]: "d < 10 \<Longrightarrow> digit_val (digit_char d) = d"
  by (simp add: digit_val_def digit_char_def)

lemma digit_val_less: "is_digit c \<Longrightarrow> digit_val c < 10"
  by (auto simp: is_digit_def digit_val_def)

lemma digit_char_val: "is_digit c \<Longrightarrow> digit_char (digit_val c) = c"
  by (auto simp: is_digit_def digit_val_def digit_char_def)

lemma digit_char_0: "digit_char 0 = CHR ''0''"
  by code_simp

text \<open>\<open>int(s)\<close> on text made of decimal digits.\<close>

definition digits_val :: "string \<Rightarrow> nat" where
  "digits_val s = fold (\<lambda>c n. 10 * n + digit_val c) s 0"

lemma fold_digits: "fold (\<lambda>c n. 10 * n + digit_val c) s a = a * 10 ^ length s + digits_val s"
proof (induction s arbitrary: a)
  case (Cons c s)
  show ?case using Cons.IH [of "10 * a + digit_val c"] Cons.IH [of "digit_val c"]
    by (simp add: digits_val_def algebra_simps)
qed (simp add: digits_val_def)

lemma digits_val_Nil [simp]: "digits_val [] = 0"
  by (simp add: digits_val_def)

lemma digits_val_append: "digits_val (a @ b) = digits_val a * 10 ^ length b + digits_val b"
  using fold_digits [of b "digits_val a"] by (simp add: digits_val_def)

lemma digits_val_single [simp]: "digits_val [c] = digit_val c"
  by (simp add: digits_val_def)

lemma digits_val_Cons: "digits_val (c # s) = digit_val c * 10 ^ length s + digits_val s"
  using digits_val_append [of "[c]" s] by simp

lemma digits_val_replicate_0 [simp]: "digits_val (replicate n (CHR ''0'')) = 0"
  by (induction n) (simp_all add: digits_val_Cons digit_val_def)

lemma digits_val_bound: "list_all is_digit s \<Longrightarrow> digits_val s < 10 ^ length s"
proof (induction s)
  case (Cons c s)
  then have "digit_val c < 10" by (simp add: digit_val_less)
  then have "digit_val c + 1 \<le> 10" by simp
  have "digits_val (c # s) < (digit_val c + 1) * 10 ^ length s"
    using Cons by (simp add: digits_val_Cons algebra_simps)
  also have "\<dots> \<le> 10 * 10 ^ length s"
    by (rule mult_right_mono) (use \<open>digit_val c + 1 \<le> 10\<close> in simp_all)
  finally show ?case by simp
qed simp

text \<open>\<open>str(n)\<close> of a non-negative integer.\<close>

fun nat_str :: "nat \<Rightarrow> string" where
  "nat_str n = (if n < 10 then [digit_char n] else nat_str (n div 10) @ [digit_char (n mod 10)])"

declare nat_str.simps [simp del]

definition int_str :: "int \<Rightarrow> string" where
  "int_str z = (if z < 0 then CHR ''-'' # nat_str (nat (- z)) else nat_str (nat z))"

lemma nat_str_digits: "list_all is_digit (nat_str n)"
  by (induction n rule: nat_str.induct) (subst nat_str.simps, simp)

lemma nat_str_ne [simp]: "nat_str n \<noteq> []"
  by (subst nat_str.simps) simp

lemma digits_val_nat_str [simp]: "digits_val (nat_str n) = n"
proof (induction n rule: nat_str.induct)
  case (1 n)
  show ?case
    by (subst nat_str.simps) (use 1 in \<open>auto simp: digits_val_append\<close>)
qed

lemma nat_str_inj: "nat_str m = nat_str n \<longleftrightarrow> m = n"
  by (metis digits_val_nat_str)

lemma hd_nat_str: "n \<noteq> 0 \<Longrightarrow> hd (nat_str n) \<noteq> CHR ''0''"
proof (induction n rule: nat_str.induct)
  case (1 n)
  show ?case
  proof (cases "n < 10")
    case True
    with 1 have "digit_char n \<noteq> CHR ''0''"
      using digit_val_char [of n] by (auto simp: digit_val_def)
    with True show ?thesis by (subst nat_str.simps) simp
  next
    case False
    with 1 show ?thesis by (subst nat_str.simps) simp
  qed
qed

lemma nat_str_0: "nat_str 0 = ''0''"
  by (subst nat_str.simps) (simp add: digit_char_def, code_simp)

text \<open>A numeral without a redundant leading zero is the text of its value.\<close>

lemma nat_str_digits_val:
  assumes "s \<noteq> []" "list_all is_digit s" "s = ''0'' \<or> hd s \<noteq> CHR ''0''"
  shows "nat_str (digits_val s) = s"
  using assms
proof (induction s rule: rev_induct)
  case (snoc c s)
  then have c: "is_digit c" by simp
  show ?case
  proof (cases "s = []")
    case True
    with c digit_val_less [OF c] show ?thesis
      by (subst nat_str.simps) (simp add: digit_char_val)
  next
    case False
    with snoc.prems have h: "hd s \<noteq> CHR ''0''" by (cases s) auto
    with snoc False have IH: "nat_str (digits_val s) = s" by simp
    have "digits_val s \<noteq> 0"
    proof
      assume "digits_val s = 0"
      with IH have "s = nat_str 0" by simp
      then have "s = ''0''" by (simp add: nat_str_0)
      with h show False by simp
    qed
    then have "\<not> digits_val (s @ [c]) < 10" by (simp add: digits_val_append)
    moreover have "digits_val (s @ [c]) div 10 = digits_val s" "digits_val (s @ [c]) mod 10 = digit_val c"
      using digit_val_less [OF c] by (simp_all add: digits_val_append)
    ultimately show ?thesis using IH c by (subst nat_str.simps) (simp add: digit_char_val)
  qed
qed simp

section \<open>Text of a value, integers from text, equality\<close>

text \<open>\<open>repr\<close>; \<open>frepr\<close> is the text of a finite float.\<close>

definition hex_digit :: "nat \<Rightarrow> char" where
  "hex_digit n = (''0123456789abcdef'') ! n"

definition repr_char :: "char \<Rightarrow> char \<Rightarrow> string" where
  "repr_char quote c = (let n = (of_char c :: nat); bs = char_of (92 :: nat) in
     if c = quote \<or> c = bs then [bs, c]
     else if n = 9 then [bs, CHR ''t''] else if n = 10 then [bs, CHR ''n''] else if n = 13 then [bs, CHR ''r'']
     else if n < 32 \<or> (127 \<le> n \<and> n \<le> 160) \<or> n = 173 then [bs, CHR ''x'', hex_digit (n div 16), hex_digit (n mod 16)]
     else [c])"

definition repr_str :: "string \<Rightarrow> string" where
  "repr_str s = (let sq = char_of (39 :: nat); dq = char_of (34 :: nat);
       quote = (if sq \<in> set s \<and> dq \<notin> set s then dq else sq)
     in quote # concat (map (repr_char quote) s) @ [quote])"

fun join_comma :: "string list \<Rightarrow> string" where
  "join_comma [] = []"
| "join_comma [x] = x"
| "join_comma (x # y # xs) = x @ '', '' @ join_comma (y # xs)"

fun py_repr :: "(rat \<Rightarrow> string) \<Rightarrow> pyval \<Rightarrow> string" where
  "py_repr frepr PNone = ''None''"
| "py_repr frepr (PBool b) = (if b then ''True'' else ''False'')"
| "py_repr frepr (PInt n) = int_str n"
| "py_repr frepr (PFloat f) = (case f of FNaN \<Rightarrow> ''nan'' | FInf neg \<Rightarrow> (if neg then ''-inf'' else ''inf'') | FFin q \<Rightarrow> frepr q)"
| "py_repr frepr (PStr s) = repr_str s"
| "py_repr frepr (PList xs) = ''['' @ join_comma (map (py_repr frepr) xs) @ '']''"
| "py_repr frepr (PDict d) = ''{'' @ join_comma (map (\<lambda>(k, v). py_repr frepr k @ '': '' @ py_repr frepr v) d) @ ''}''"

text \<open>\<open>str(v)\<close>\<close>

definition py_str :: "(rat \<Rightarrow> string) \<Rightarrow> pyval \<Rightarrow> string" where
  "py_str frepr v = (case v of PStr s \<Rightarrow> s | _ \<Rightarrow> py_repr frepr v)"

text \<open>\<open>bool(v)\<close>\<close>

fun py_truthy :: "pyval \<Rightarrow> bool" where
  "py_truthy PNone = False"
| "py_truthy (PBool b) = b"
| "py_truthy (PInt n) = (n \<noteq> 0)"
| "py_truthy (PFloat f) = (f \<noteq> FFin 0)"
| "py_truthy (PStr s) = (s \<noteq> [])"
| "py_truthy (PList xs) = (xs \<noteq> [])"
| "py_truthy (PDict d) = (d \<noteq> [])"

text \<open>Digits of \<open>int(text)\<close>: at least one, with single underscores only between digits.\<close>

fun int_digits :: "bool \<Rightarrow> string \<Rightarrow> string option" where
  "int_digits after [] = (if after then Some [] else None)"
| "int_digits after (c # cs) =
     (if is_digit c then map_option (Cons c) (int_digits True cs)
      else if c = CHR ''_'' \<and> after then (case cs of d # _ \<Rightarrow> if is_digit d then int_digits False cs else None | [] \<Rightarrow> None)
      else None)"

text \<open>\<open>int(text)\<close>; \<open>None\<close> is the \<open>ValueError\<close>.\<close>

definition py_int_text :: "string \<Rightarrow> int option" where
  "py_int_text s = (case py_strip s of
     [] \<Rightarrow> None
   | c # cs \<Rightarrow>
       if c = CHR ''-'' then map_option (\<lambda>d. - int (digits_val d)) (int_digits False cs)
       else if c = CHR ''+'' then map_option (\<lambda>d. int (digits_val d)) (int_digits False cs)
       else map_option (\<lambda>d. int (digits_val d)) (int_digits False (c # cs)))"

text \<open>Python's \<open>==\<close>: a boolean is a number, numbers compare by value across \<open>int\<close> and
  \<open>float\<close>, and dictionaries compare as mappings.\<close>

fun as_number :: "pyval \<Rightarrow> pyfloat option" where
  "as_number (PBool b) = Some (FFin (if b then 1 else 0))"
| "as_number (PInt n) = Some (FFin (of_int n))"
| "as_number (PFloat f) = Some f"
| "as_number _ = None"

definition number_eq :: "pyfloat \<Rightarrow> pyfloat \<Rightarrow> bool" where
  "number_eq a b = (a \<noteq> FNaN \<and> a = b)"

definition eq_number :: "pyfloat \<Rightarrow> pyval \<Rightarrow> bool" where
  "eq_number x b = (case as_number b of Some y \<Rightarrow> number_eq x y | None \<Rightarrow> False)"

function (sequential) py_eq :: "pyval \<Rightarrow> pyval \<Rightarrow> bool"
  and py_eq_list :: "pyval list \<Rightarrow> pyval list \<Rightarrow> bool"
  and py_sub_dict :: "(pyval \<times> pyval) list \<Rightarrow> (pyval \<times> pyval) list \<Rightarrow> bool" where
  "py_eq PNone b = (b = PNone)"
| "py_eq (PStr s) b = (b = PStr s)"
| "py_eq (PBool x) b = eq_number (FFin (if x then 1 else 0)) b"
| "py_eq (PInt n) b = eq_number (FFin (of_int n)) b"
| "py_eq (PFloat f) b = eq_number f b"
| "py_eq (PList xs) b = (case b of PList ys \<Rightarrow> py_eq_list xs ys | _ \<Rightarrow> False)"
| "py_eq (PDict d) b = (case b of PDict e \<Rightarrow> length d = length e \<and> py_sub_dict d e | _ \<Rightarrow> False)"
| "py_eq_list [] ys = (ys = [])"
| "py_eq_list (x # xs) ys = (case ys of [] \<Rightarrow> False | y # ys' \<Rightarrow> py_eq x y \<and> py_eq_list xs ys')"
| "py_sub_dict [] d = True"
| "py_sub_dict ((k, v) # xs) d = (list_ex (\<lambda>(k', v'). py_eq k k' \<and> py_eq v v') d \<and> py_sub_dict xs d)"
  by pat_completeness auto

termination
  by (relation "measure (case_sum (\<lambda>p. size (fst p)) (case_sum (\<lambda>p. size_list size (fst p))
        (\<lambda>p. size_list (size_prod size size) (fst p))))") auto

section \<open>Machines run over a sequence of operations\<close>

primrec run_ops :: "('op \<Rightarrow> 's \<Rightarrow> 's) \<Rightarrow> 'op list \<Rightarrow> 's \<Rightarrow> 's" where
  "run_ops step [] s = s"
| "run_ops step (p # ps) s = run_ops step ps (step p s)"

text \<open>Every operation of a sequence is allowed in the state it meets.\<close>

primrec all_along :: "('op \<Rightarrow> 's \<Rightarrow> 's) \<Rightarrow> ('op \<Rightarrow> 's \<Rightarrow> bool) \<Rightarrow> 'op list \<Rightarrow> 's \<Rightarrow> bool" where
  "all_along step allowed [] s = True"
| "all_along step allowed (p # ps) s = (allowed p s \<and> all_along step allowed ps (step p s))"

lemma all_along_True [simp]: "all_along step (\<lambda>_ _. True) ps s"
  by (induction ps arbitrary: s) auto

text \<open>A component that is driven by operations: an invariant every allowed operation keeps, and
  a preorder every allowed operation moves along.  Both then hold for every sequence.\<close>

locale op_machine =
  fixes step :: "'op \<Rightarrow> 's \<Rightarrow> 's" and allowed :: "'op \<Rightarrow> 's \<Rightarrow> bool" and inv :: "'s \<Rightarrow> bool" and moves :: "'s \<Rightarrow> 's \<Rightarrow> bool"
  assumes keeps: "inv s \<Longrightarrow> allowed p s \<Longrightarrow> inv (step p s)"
    and advances: "inv s \<Longrightarrow> allowed p s \<Longrightarrow> moves s (step p s)"
    and moves_refl: "moves s s"
    and moves_trans: "moves s t \<Longrightarrow> moves t u \<Longrightarrow> moves s u"
begin

lemma run_keeps: "inv s \<Longrightarrow> all_along step allowed ps s \<Longrightarrow> inv (run_ops step ps s)"
  by (induction ps arbitrary: s) (auto intro: keeps)

lemma run_moves: "inv s \<Longrightarrow> all_along step allowed ps s \<Longrightarrow> moves s (run_ops step ps s)"
proof (induction ps arbitrary: s)
  case (Cons p ps)
  then have "inv (step p s)" "moves s (step p s)" by (auto intro: keeps advances)
  with Cons.IH [of "step p s"] Cons.prems show ?case by (auto intro: moves_trans)
qed (simp add: moves_refl)

end

end
