(* ===== verification/Capability_Shape.thy ===== *)
theory Capability_Shape
  imports Prelude
begin

text \<open>
  Model of \<^verbatim>\<open>kit/capability-shape\<close> (\<^verbatim>\<open>market_capability_shape/__init__.py\<close>):
  family-grouped capability shapes, their validation with and without a schema, flattening
  through a schema and back, and the canonical form the digest is taken over.

  Problems carry the source's location and a constructor per message, with the offending
  value where the message prints it; the English text is not modelled.
\<close>

section \<open>Schemas\<close>

datatype field_kind = QUANTITY | ATTRIBUTE

record shape_field =
  sf_family :: string
  sf_field :: string
  sf_kind :: field_kind
  sf_flat_name :: string
  sf_required :: bool

definition dotted :: "string \<Rightarrow> string \<Rightarrow> string" where
  "dotted family field = family @ ''.'' @ field"

definition sf_path :: "shape_field \<Rightarrow> string" where
  "sf_path f = dotted (sf_family f) (sf_field f)"

record capability_schema =
  schema_fields :: "shape_field list"

datatype schema_error =
    RepeatsFamilyField "string list"
  | RepeatsFlatName "string list"
  | IncompletelyNamed shape_field

text \<open>\<open>CapabilitySchema.__post_init__\<close>: the checks a schema passes to be constructed.\<close>

definition mk_schema :: "shape_field list \<Rightarrow> (schema_error, capability_schema) result" where
  "mk_schema fs =
     (if \<not> distinct (map sf_path fs) then Raise (RepeatsFamilyField (map sf_path fs))
      else if \<not> distinct (map sf_flat_name fs) then Raise (RepeatsFlatName (map sf_flat_name fs))
      else case find (\<lambda>f. \<not> (sf_family f \<noteq> [] \<and> sf_field f \<noteq> [] \<and> sf_flat_name f \<noteq> [])) fs of
        Some f \<Rightarrow> Raise (IncompletelyNamed f)
      | None \<Rightarrow> Return \<lparr>schema_fields = fs\<rparr>)"

text \<open>A schema value exists only when its construction succeeded.\<close>

definition schema_ok :: "capability_schema \<Rightarrow> bool" where
  "schema_ok s = (mk_schema (schema_fields s) = Return s)"

definition schema_lookup :: "capability_schema \<Rightarrow> string \<Rightarrow> string \<Rightarrow> shape_field option" where
  "schema_lookup s family field =
     find (\<lambda>c. sf_family c = family \<and> sf_field c = field) (schema_fields s)"

definition schema_families :: "capability_schema \<Rightarrow> string set" where
  "schema_families s = set (map sf_family (schema_fields s))"

definition schema_flat_names :: "capability_schema \<Rightarrow> field_kind \<Rightarrow> string list" where
  "schema_flat_names s kind = map sf_flat_name (filter (\<lambda>f. sf_kind f = kind) (schema_fields s))"

section \<open>Problems\<close>

datatype shape_path =
    PathText string
  | PathRepr pyval
  | PathFieldRepr string pyval

datatype shape_message =
    ShapeNotMapping
  | ShapeEmpty
  | FamilyNotName
  | FamilyNotMapping
  | FamilyEmpty
  | FieldNotName
  | FieldNotScalar pyval
  | NotInSchema
  | NotPositiveInteger pyval
  | NotNonEmptyText pyval
  | FieldRequired
  | WrongKind field_kind field_kind

datatype shape_problem = ShapeProblem (problem_path: shape_path) (problem_message: shape_message)

record flat_shape =
  quantities :: "(string \<times> pyval) list"
  attributes :: "(string \<times> pyval) list"

section \<open>Structure\<close>

fun is_scalar :: "pyval \<Rightarrow> bool" where
  "is_scalar (PFloat f) = (case f of FFin _ \<Rightarrow> True | _ \<Rightarrow> False)"
| "is_scalar (PStr _) = True"
| "is_scalar (PInt _) = True"
| "is_scalar (PBool _) = True"
| "is_scalar _ = False"

definition field_structure_problems :: "string \<Rightarrow> pyval \<times> pyval \<Rightarrow> shape_problem list" where
  "field_structure_problems family item = (case item of (field, value) \<Rightarrow>
     (case field of
        PStr name \<Rightarrow>
          (if name = [] then [ShapeProblem (PathFieldRepr family field) FieldNotName]
           else if \<not> is_scalar value
             then [ShapeProblem (PathText (dotted family name)) (FieldNotScalar value)]
           else [])
      | _ \<Rightarrow> [ShapeProblem (PathFieldRepr family field) FieldNotName]))"

definition family_structure_problems :: "pyval \<times> pyval \<Rightarrow> shape_problem list" where
  "family_structure_problems entry = (case entry of (family, members) \<Rightarrow>
     (case family of
        PStr name \<Rightarrow>
          (if name = [] then [ShapeProblem (PathRepr family) FamilyNotName]
           else case members of
             PDict fs \<Rightarrow>
               (if fs = [] then [ShapeProblem (PathText name) FamilyEmpty]
                else concat (map (field_structure_problems name) fs))
           | _ \<Rightarrow> [ShapeProblem (PathText name) FamilyNotMapping])
      | _ \<Rightarrow> [ShapeProblem (PathRepr family) FamilyNotName]))"

definition shape_structure_problems :: "pyval \<Rightarrow> shape_problem list" where
  "shape_structure_problems shape = (case shape of
     PDict entries \<Rightarrow>
       (if entries = [] then [ShapeProblem (PathText []) ShapeEmpty]
        else concat (map family_structure_problems entries))
   | _ \<Rightarrow> [ShapeProblem (PathText []) ShapeNotMapping])"

text \<open>
  Once a shape has no structural problem it is a mapping of names to mappings of names to
  scalars.  \<open>shape_families\<close> reads it as such, in iteration order, and \<open>shape_of\<close> is the
  value with that content.
\<close>

type_synonym family_fields = "(string \<times> (string \<times> pyval) list) list"

fun named_items :: "(pyval \<times> pyval) list \<Rightarrow> (string \<times> pyval) list" where
  "named_items [] = []"
| "named_items ((PStr n, v) # xs) = (n, v) # named_items xs"
| "named_items (_ # xs) = named_items xs"

fun mapping_items :: "pyval \<Rightarrow> (string \<times> pyval) list" where
  "mapping_items (PDict fs) = named_items fs"
| "mapping_items _ = []"

definition shape_families :: "pyval \<Rightarrow> family_fields" where
  "shape_families shape = map (\<lambda>(f, fs). (f, mapping_items fs)) (mapping_items shape)"

definition dict_of :: "(string \<times> pyval) list \<Rightarrow> pyval" where
  "dict_of xs = PDict (map (\<lambda>(n, v). (PStr n, v)) xs)"

definition shape_of :: "family_fields \<Rightarrow> pyval" where
  "shape_of fams = dict_of (map (\<lambda>(f, fs). (f, dict_of fs)) fams)"

section \<open>Validation under a schema\<close>

definition value_problems :: "capability_schema \<Rightarrow> string \<Rightarrow> string \<times> pyval \<Rightarrow> shape_problem list" where
  "value_problems schema family item = (case item of (field, value) \<Rightarrow>
     (let path = PathText (dotted family field) in
      case schema_lookup schema family field of
        None \<Rightarrow> [ShapeProblem path NotInSchema]
      | Some definition \<Rightarrow>
          (if sf_kind definition = QUANTITY
           then (if is_pos_int value then [] else [ShapeProblem path (NotPositiveInteger value)])
           else (case value of
                   PStr s \<Rightarrow> (if py_strip s = [] then [ShapeProblem path (NotNonEmptyText value)] else [])
                 | _ \<Rightarrow> [ShapeProblem path (NotNonEmptyText value)]))))"

definition required_problems :: "capability_schema \<Rightarrow> family_fields \<Rightarrow> shape_problem list" where
  "required_problems schema fams =
     map (\<lambda>d. ShapeProblem (PathText (sf_path d)) FieldRequired)
       (filter (\<lambda>d. sf_required d \<and>
            (case map_of fams (sf_family d) of
               None \<Rightarrow> False
             | Some fs \<Rightarrow> \<not> has_key fs (sf_field d)))
          (schema_fields schema))"

definition shape_problems :: "pyval \<Rightarrow> capability_schema \<Rightarrow> shape_problem list" where
  "shape_problems shape schema =
     (let structural = shape_structure_problems shape in
      if structural \<noteq> [] then structural
      else concat (map (\<lambda>(family, members). concat (map (value_problems schema family) members))
             (shape_families shape))
           @ required_problems schema (shape_families shape))"

section \<open>Flattening and its inverse\<close>

definition shape_items :: "family_fields \<Rightarrow> (string \<times> string \<times> pyval) list" where
  "shape_items fams = concat (map (\<lambda>(family, members). map (\<lambda>(field, value). (family, field, value)) members) fams)"

text \<open>One turn of the loop of \<open>flatten_shape\<close>; the source asserts that the lookup succeeds,
  which \<open>shape_problems\<close> guarantees.\<close>

definition flatten_item :: "capability_schema \<Rightarrow> string \<times> string \<times> pyval \<Rightarrow> flat_shape \<Rightarrow> flat_shape" where
  "flatten_item schema item flat = (case item of (family, field, value) \<Rightarrow>
     (case schema_lookup schema family field of
        None \<Rightarrow> flat
      | Some definition \<Rightarrow>
          (if sf_kind definition = QUANTITY
           then flat\<lparr>quantities := dict_set (sf_flat_name definition) value (quantities flat)\<rparr>
           else flat\<lparr>attributes := dict_set (sf_flat_name definition) value (attributes flat)\<rparr>)))"

definition flatten_shape :: "pyval \<Rightarrow> capability_schema \<Rightarrow> (shape_problem list, flat_shape) result" where
  "flatten_shape shape schema =
     (let problems = shape_problems shape schema in
      if problems \<noteq> [] then Raise problems
      else Return (fold (flatten_item schema) (shape_items (shape_families shape))
                     \<lparr>quantities = [], attributes = []\<rparr>))"

definition canonical_families :: "family_fields \<Rightarrow> family_fields" where
  "canonical_families fams = sorted_items (map (\<lambda>(f, fs). (f, sorted_items fs)) fams)"

definition canonical_shape :: "pyval \<Rightarrow> (shape_problem list, pyval) result" where
  "canonical_shape shape =
     (let problems = shape_structure_problems shape in
      if problems \<noteq> [] then Raise problems
      else Return (shape_of (canonical_families (shape_families shape))))"

definition SHAPE_DIGEST_PREFIX :: string where
  "SHAPE_DIGEST_PREFIX = ''capability-shape.v1:''"

text \<open>\<open>json_sha256\<close> stands for the hexadecimal SHA-256 of a value's canonical JSON text.\<close>

definition shape_digest :: "(pyval \<Rightarrow> string) \<Rightarrow> pyval \<Rightarrow> (shape_problem list, string) result" where
  "shape_digest json_sha256 shape =
     res_bind (canonical_shape shape) (\<lambda>c. Return (SHAPE_DIGEST_PREFIX @ json_sha256 c))"

text \<open>\<open>unflatten_shape\<close>: the loop over one of the two flat mappings, collecting problems and
  placing each value under its family and field.\<close>

definition unflatten_item ::
  "capability_schema \<Rightarrow> field_kind \<Rightarrow> string \<times> pyval \<Rightarrow> shape_problem list \<times> family_fields \<Rightarrow>
     shape_problem list \<times> family_fields" where
  "unflatten_item schema kind item st = (case item of (flat_name, value) \<Rightarrow>
     (case st of (problems, shape) \<Rightarrow>
        (case map_of (rev (map (\<lambda>f. (sf_flat_name f, f)) (schema_fields schema))) flat_name of
           None \<Rightarrow> (problems @ [ShapeProblem (PathText flat_name) NotInSchema], shape)
         | Some d \<Rightarrow>
             (if sf_kind d \<noteq> kind
              then (problems @ [ShapeProblem (PathText flat_name) (WrongKind (sf_kind d) kind)], shape)
              else (problems,
                    dict_set (sf_family d)
                      (dict_set (sf_field d) value
                         (case map_of shape (sf_family d) of None \<Rightarrow> [] | Some fs \<Rightarrow> fs)) shape)))))"

definition unflatten_shape ::
  "(string \<times> pyval) list \<Rightarrow> (string \<times> pyval) list \<Rightarrow> capability_schema \<Rightarrow>
     (shape_problem list, pyval) result" where
  "unflatten_shape quants attrs schema =
     (case fold (unflatten_item schema ATTRIBUTE) attrs
             (fold (unflatten_item schema QUANTITY) quants ([], [])) of
        (problems, shape) \<Rightarrow>
          (if problems \<noteq> [] then Raise problems
           else let found = shape_problems (shape_of shape) schema in
             if found \<noteq> [] then Raise found
             else canonical_shape (shape_of shape)))"

section \<open>Schema lemmas\<close>

lemma schema_ok_distinct:
  assumes "schema_ok s"
  shows "distinct (map sf_path (schema_fields s))" "distinct (map sf_flat_name (schema_fields s))"
    "\<forall>f \<in> set (schema_fields s). sf_family f \<noteq> [] \<and> sf_field f \<noteq> [] \<and> sf_flat_name f \<noteq> []"
  using assms
  by (auto simp: schema_ok_def mk_schema_def find_None_iff split: if_splits option.splits)

lemma schema_ok_iff:
  "schema_ok s \<longleftrightarrow> distinct (map sf_path (schema_fields s)) \<and> distinct (map sf_flat_name (schema_fields s)) \<and>
     (\<forall>f \<in> set (schema_fields s). sf_family f \<noteq> [] \<and> sf_field f \<noteq> [] \<and> sf_flat_name f \<noteq> [])"
proof (cases "find (\<lambda>f. sf_family f = [] \<or> sf_field f = [] \<or> sf_flat_name f = []) (schema_fields s)")
  case None
  moreover from None have "\<forall>f \<in> set (schema_fields s). sf_family f \<noteq> [] \<and> sf_field f \<noteq> [] \<and> sf_flat_name f \<noteq> []"
    by (auto simp: find_None_iff)
  ultimately show ?thesis by (simp add: schema_ok_def mk_schema_def)
next
  case (Some f)
  then have "\<exists>f \<in> set (schema_fields s). sf_family f = [] \<or> sf_field f = [] \<or> sf_flat_name f = []"
    by (auto simp: find_Some_iff)
  with Some show ?thesis by (auto simp: schema_ok_def mk_schema_def)
qed

lemma schema_lookup_SomeD:
  "schema_lookup s a b = Some d \<Longrightarrow> d \<in> set (schema_fields s) \<and> sf_family d = a \<and> sf_field d = b"
  by (auto simp: schema_lookup_def find_Some_iff)

lemma schema_lookup_self:
  assumes "schema_ok s" "d \<in> set (schema_fields s)"
  shows "schema_lookup s (sf_family d) (sf_field d) = Some d"
proof (cases "schema_lookup s (sf_family d) (sf_field d)")
  case None
  with assms(2) show ?thesis by (auto simp: schema_lookup_def find_None_iff)
next
  case (Some e)
  then have "e \<in> set (schema_fields s)" "sf_path e = sf_path d"
    by (auto dest: schema_lookup_SomeD simp: sf_path_def)
  with assms schema_ok_distinct(1) have "e = d"
    by (metis distinct_map inj_onD)
  with Some show ?thesis by simp
qed

lemma flat_name_inj:
  "schema_ok s \<Longrightarrow> d \<in> set (schema_fields s) \<Longrightarrow> e \<in> set (schema_fields s) \<Longrightarrow>
     sf_flat_name d = sf_flat_name e \<Longrightarrow> d = e"
  using schema_ok_distinct(2) by (metis distinct_map inj_onD)

lemma by_flat_name_eq:
  assumes "schema_ok s"
  shows "map_of (rev (map (\<lambda>f. (sf_flat_name f, f)) (schema_fields s))) n = Some d
     \<longleftrightarrow> d \<in> set (schema_fields s) \<and> sf_flat_name d = n"
proof -
  let ?l = "rev (map (\<lambda>f. (sf_flat_name f, f)) (schema_fields s))"
  have "map fst ?l = rev (map sf_flat_name (schema_fields s))"
    by (simp add: rev_map comp_def)
  with assms have "dict_ok ?l" by (metis distinct_rev schema_ok_distinct(2))
  then show ?thesis by (auto simp: map_of_eq_Some_iff)
qed

section \<open>Shapes as content: the two-level map a shape denotes\<close>

definition shape_map :: "family_fields \<Rightarrow> string \<times> string \<Rightarrow> pyval option" where
  "shape_map fams k = (case map_of fams (fst k) of None \<Rightarrow> None | Some fs \<Rightarrow> map_of fs (snd k))"

text \<open>What Python guarantees of a nested dictionary, and that no family is empty.\<close>

definition fams_ok :: "family_fields \<Rightarrow> bool" where
  "fams_ok fams = (dict_ok fams \<and> (\<forall>(f, fs) \<in> set fams. dict_ok fs \<and> fs \<noteq> []))"

definition fams_named :: "family_fields \<Rightarrow> bool" where
  "fams_named fams = (fams \<noteq> [] \<and>
     (\<forall>(f, fs) \<in> set fams. f \<noteq> [] \<and> fs \<noteq> [] \<and> (\<forall>(g, v) \<in> set fs. g \<noteq> [] \<and> is_scalar v)))"

lemma named_items_dict_of [simp]: "named_items (map (\<lambda>(n, v). (PStr n, v)) xs) = xs"
  by (induction xs) auto

lemma shape_families_shape_of [simp]: "shape_families (shape_of fams) = fams"
  by (induction fams) (auto simp: shape_families_def shape_of_def dict_of_def)

lemma dict_of_named_iff:
  "PDict fs = dict_of (named_items fs) \<longleftrightarrow> (\<forall>(g, v) \<in> set fs. is_str g)"
proof -
  have "fs = map (\<lambda>(n, v). (PStr n, v)) xs \<Longrightarrow> (g, v) \<in> set fs \<Longrightarrow> is_str g" for xs g v
    by auto
  moreover have "\<forall>(g, v) \<in> set fs. is_str g \<Longrightarrow> fs = map (\<lambda>(n, v). (PStr n, v)) (named_items fs)"
    by (induction fs rule: named_items.induct) auto
  ultimately show ?thesis unfolding dict_of_def by (metis (no_types, lifting) case_prodI2 pyval.inject(6))
qed

lemma field_structure_ok:
  "concat (map (field_structure_problems f) fs) = [] \<longleftrightarrow>
     PDict fs = dict_of (named_items fs) \<and> (\<forall>(g, v) \<in> set (named_items fs). g \<noteq> [] \<and> is_scalar v)"
  unfolding dict_of_named_iff
  by (induction fs rule: named_items.induct) (auto simp: field_structure_problems_def)

lemma named_items_Nil: "\<forall>(g, v) \<in> set fs. is_str g \<Longrightarrow> named_items fs = [] \<longleftrightarrow> fs = []"
  by (induction fs rule: named_items.induct) auto

lemma family_structure_ok:
  "family_structure_problems (PStr f, m) = [] \<longleftrightarrow>
     f \<noteq> [] \<and> m = dict_of (mapping_items m) \<and> mapping_items m \<noteq> [] \<and>
     (\<forall>(g, v) \<in> set (mapping_items m). g \<noteq> [] \<and> is_scalar v)"
proof (cases m)
  case (PDict fs)
  then show ?thesis
    using field_structure_ok [of f fs] dict_of_named_iff [of fs] named_items_Nil [of fs]
    by (simp add: family_structure_problems_def) blast
qed (auto simp: family_structure_problems_def dict_of_def)

text \<open>A shape has no structural problem exactly when it is a non-empty mapping of non-empty
  names to non-empty mappings of non-empty names to scalars.\<close>

lemma structure_ok_iff:
  "shape_structure_problems shape = [] \<longleftrightarrow>
     shape = shape_of (shape_families shape) \<and> fams_named (shape_families shape)"
proof (cases shape)
  case (PDict es)
  show ?thesis
  proof (cases "\<forall>(g, v) \<in> set es. is_str g")
    case True
    then have "es = map (\<lambda>(n, v). (PStr n, v)) (named_items es)"
      using dict_of_named_iff by (auto simp: dict_of_def)
    then obtain xs where es: "es = map (\<lambda>(n, v). (PStr n, v)) xs" by blast
    have fams: "shape_families shape = map (\<lambda>(f, m). (f, mapping_items m)) xs"
      by (simp add: PDict es shape_families_def)
    have "shape = shape_of (shape_families shape) \<longleftrightarrow> (\<forall>(f, m) \<in> set xs. m = dict_of (mapping_items m))"
      unfolding fams by (simp add: PDict es shape_of_def dict_of_def [of "map _ _"] comp_def split_beta)
    then show ?thesis
      unfolding fams
      by (simp add: PDict es shape_structure_problems_def fams_named_def split_beta family_structure_ok) blast
  next
    case False
    then obtain g v where "(g, v) \<in> set es" "\<not> is_str g" by auto
    then have "shape_structure_problems shape \<noteq> []"
      by (cases g) (auto simp: PDict shape_structure_problems_def family_structure_problems_def
          intro!: bexI [of _ "(g, v)"])
    moreover have "shape \<noteq> shape_of fams" for fams
      using False by (auto simp: PDict shape_of_def dict_of_def)
    ultimately show ?thesis by blast
  qed
qed (auto simp: shape_structure_problems_def shape_of_def dict_of_def)

lemma shape_map_SomeD: "shape_map fams (a, b) = Some v \<Longrightarrow> \<exists>fs. (a, fs) \<in> set fams \<and> (b, v) \<in> set fs"
  by (auto simp: shape_map_def split: option.splits dest!: map_of_SomeD)

lemma shape_map_iff:
  "fams_ok fams \<Longrightarrow> shape_map fams (a, b) = Some v \<longleftrightarrow> (\<exists>fs. (a, fs) \<in> set fams \<and> (b, v) \<in> set fs)"
  by (auto dest: shape_map_SomeD) (fastforce simp: shape_map_def fams_ok_def)

lemma shape_map_empty_iff:
  assumes "fams_ok fams"
  shows "shape_map fams = Map.empty \<longleftrightarrow> fams = []"
proof (cases fams)
  case (Cons x xs)
  obtain a fs where x: "x = (a, fs)" by (cases x)
  with Cons assms have "fs \<noteq> []" by (simp add: fams_ok_def)
  then obtain b v where "(b, v) \<in> set fs" by (metis list.set_intros(1) neq_Nil_conv surj_pair)
  with Cons x shape_map_iff [OF assms, of a b v] show ?thesis by (metis list.distinct(1) list.set_intros(1) option.distinct(1))
qed (simp add: shape_map_def fun_eq_iff)

lemma set_shape_items:
  "set (shape_items fams) = {(a, b, v) | a b v. \<exists>fs. (a, fs) \<in> set fams \<and> (b, v) \<in> set fs}"
  by (fastforce simp: shape_items_def)

lemma mem_shape_items:
  "fams_ok fams \<Longrightarrow> (a, b, v) \<in> set (shape_items fams) \<longleftrightarrow> shape_map fams (a, b) = Some v"
  by (simp add: set_shape_items shape_map_iff)

lemma distinct_shape_items:
  "fams_ok fams \<Longrightarrow> distinct (map (\<lambda>(a, b, v). (a, b)) (shape_items fams))"
proof (induction fams)
  case Nil
  then show ?case by (simp add: shape_items_def)
next
  case (Cons x fams)
  obtain a fs where x: "x = (a, fs)" by (cases x)
  have "distinct (map (\<lambda>(b, v). (a, b)) fs)"
    using Cons.prems x by (simp add: fams_ok_def distinct_map inj_on_def split_beta)
  moreover have "a \<notin> fst ` set (shape_items fams)"
    using Cons.prems x by (force simp: fams_ok_def set_shape_items)
  ultimately show ?case
    using Cons x by (auto simp: shape_items_def fams_ok_def comp_def split_beta distinct_map inj_on_def)
qed

lemma has_family_iff:
  "fams_ok fams \<Longrightarrow> map_of fams a \<noteq> None \<longleftrightarrow> (\<exists>b. shape_map fams (a, b) \<noteq> None)"
  by (fastforce simp: shape_map_def fams_ok_def neq_Nil_conv split: option.splits dest: map_of_SomeD)

text \<open>Whether a shape has problems depends only on the map it denotes.\<close>

definition value_fits :: "field_kind \<Rightarrow> pyval \<Rightarrow> bool" where
  "value_fits kind v = (if kind = QUANTITY then is_pos_int v else (\<exists>s. v = PStr s \<and> py_strip s \<noteq> []))"

definition content_ok :: "capability_schema \<Rightarrow> (string \<times> string \<Rightarrow> pyval option) \<Rightarrow> bool" where
  "content_ok schema m = (m \<noteq> Map.empty \<and>
     (\<forall>a b v. m (a, b) = Some v \<longrightarrow>
        (\<exists>d. schema_lookup schema a b = Some d \<and> value_fits (sf_kind d) v)) \<and>
     (\<forall>d \<in> set (schema_fields schema). sf_required d \<longrightarrow>
        (\<exists>b. m (sf_family d, b) \<noteq> None) \<longrightarrow> m (sf_family d, sf_field d) \<noteq> None))"

lemma value_fits_scalar: "value_fits kind v \<Longrightarrow> is_scalar v"
  by (auto simp: value_fits_def split: if_splits elim: is_pos_intE)

lemma value_problems_Nil:
  "value_problems schema a (b, v) = [] \<longleftrightarrow>
     (\<exists>d. schema_lookup schema a b = Some d \<and> value_fits (sf_kind d) v)"
  by (auto simp: value_problems_def value_fits_def Let_def split: option.splits pyval.splits)

lemma required_problems_Nil:
  assumes "fams_ok fams"
  shows "required_problems schema fams = [] \<longleftrightarrow>
     (\<forall>d \<in> set (schema_fields schema). sf_required d \<longrightarrow>
        (\<exists>b. shape_map fams (sf_family d, b) \<noteq> None) \<longrightarrow> shape_map fams (sf_family d, sf_field d) \<noteq> None)"
proof -
  have eq: "(case map_of fams (sf_family d) of None \<Rightarrow> False | Some fs \<Rightarrow> \<not> has_key fs (sf_field d)) \<longleftrightarrow>
     (\<exists>b. shape_map fams (sf_family d, b) \<noteq> None) \<and> shape_map fams (sf_family d, sf_field d) = None" for d
    using has_family_iff [OF assms, of "sf_family d"]
    by (auto simp: shape_map_def has_key_def split: option.splits)
  show ?thesis unfolding required_problems_def eq by (auto simp: filter_empty_conv)
qed

lemma shape_problems_Nil:
  assumes "schema_ok schema" "fams_ok fams"
  shows "shape_problems (shape_of fams) schema = [] \<longleftrightarrow> content_ok schema (shape_map fams)"
proof -
  have vals: "concat (map (\<lambda>(a, fs). concat (map (value_problems schema a) fs)) fams) = [] \<longleftrightarrow>
      (\<forall>a b v. shape_map fams (a, b) = Some v \<longrightarrow>
        (\<exists>d. schema_lookup schema a b = Some d \<and> value_fits (sf_kind d) v))"
  proof -
    have "concat (map (\<lambda>(a, fs). concat (map (value_problems schema a) fs)) fams) = [] \<longleftrightarrow>
        (\<forall>(a, b, v) \<in> set (shape_items fams). value_problems schema a (b, v) = [])"
      by (fastforce simp: shape_items_def)
    also have "\<dots> \<longleftrightarrow> (\<forall>a b v. (a, b, v) \<in> set (shape_items fams) \<longrightarrow> value_problems schema a (b, v) = [])"
      by blast
    finally show ?thesis
      unfolding mem_shape_items [OF assms(2)] value_problems_Nil .
  qed
  have sp: "shape_problems (shape_of fams) schema = [] \<longleftrightarrow> fams_named fams \<and>
      concat (map (\<lambda>(a, fs). concat (map (value_problems schema a) fs)) fams) = [] \<and>
      required_problems schema fams = []"
    by (simp add: shape_problems_def Let_def structure_ok_iff)
  have co: "content_ok schema (shape_map fams) \<longleftrightarrow> fams \<noteq> [] \<and>
      concat (map (\<lambda>(a, fs). concat (map (value_problems schema a) fs)) fams) = [] \<and>
      required_problems schema fams = []"
    unfolding content_ok_def vals required_problems_Nil [OF assms(2)]
    using shape_map_empty_iff [OF assms(2)] by blast
  have "fams_named fams" if c: "content_ok schema (shape_map fams)"
  proof -
    have all: "a \<noteq> [] \<and> b \<noteq> [] \<and> is_scalar v" if "(a, fs) \<in> set fams" "(b, v) \<in> set fs" for a fs b v
    proof -
      have "shape_map fams (a, b) = Some v" using that shape_map_iff [OF assms(2)] by blast
      with c obtain d where "schema_lookup schema a b = Some d" "value_fits (sf_kind d) v"
        unfolding content_ok_def by metis
      then show ?thesis
        using schema_ok_distinct(3) [OF assms(1)] value_fits_scalar schema_lookup_SomeD by blast
    qed
    have "a \<noteq> [] \<and> fs \<noteq> []" if "(a, fs) \<in> set fams" for a fs
    proof -
      from that assms(2) have "fs \<noteq> []" by (auto simp: fams_ok_def)
      then obtain b v where "(b, v) \<in> set fs" by (cases fs) auto
      with all that \<open>fs \<noteq> []\<close> show ?thesis by blast
    qed
    with all c co show ?thesis unfolding fams_named_def by fast
  qed
  moreover have "fams_named fams \<Longrightarrow> fams \<noteq> []" by (simp add: fams_named_def)
  ultimately show ?thesis using sp co by blast
qed

section \<open>Flattening as a projection of the items\<close>

text \<open>The reference reading of flattening: the items of one kind, renamed, in order.\<close>

definition flat_pairs :: "capability_schema \<Rightarrow> field_kind \<Rightarrow> (string \<times> string \<times> pyval) list \<Rightarrow> (string \<times> pyval) list" where
  "flat_pairs schema kind items = List.map_filter (\<lambda>(a, b, v).
     (case schema_lookup schema a b of
        None \<Rightarrow> None
      | Some d \<Rightarrow> if sf_kind d = kind then Some (sf_flat_name d, v) else None)) items"

lemma flat_pairs_simps [simp]:
  "flat_pairs schema kind [] = []"
  "flat_pairs schema kind ((a, b, v) # xs) =
     (case schema_lookup schema a b of
        None \<Rightarrow> flat_pairs schema kind xs
      | Some d \<Rightarrow> if sf_kind d = kind then (sf_flat_name d, v) # flat_pairs schema kind xs
                  else flat_pairs schema kind xs)"
  by (auto simp: flat_pairs_def map_filter_simps split: option.splits)

lemma mem_flat_pairs:
  "(n, v) \<in> set (flat_pairs schema kind items) \<longleftrightarrow>
     (\<exists>d a b. (a, b, v) \<in> set items \<and> schema_lookup schema a b = Some d \<and> sf_kind d = kind \<and> sf_flat_name d = n)"
  unfolding flat_pairs_def mem_map_filter
proof
  assume "\<exists>x \<in> set items. (case x of (a, b, v) \<Rightarrow> (case schema_lookup schema a b of None \<Rightarrow> None
      | Some d \<Rightarrow> if sf_kind d = kind then Some (sf_flat_name d, v) else None)) = Some (n, v)"
  then obtain a b w where "(a, b, w) \<in> set items" and "(case schema_lookup schema a b of None \<Rightarrow> None
      | Some d \<Rightarrow> if sf_kind d = kind then Some (sf_flat_name d, w) else None) = Some (n, v)"
    by auto
  then show "\<exists>d a b. (a, b, v) \<in> set items \<and> schema_lookup schema a b = Some d \<and> sf_kind d = kind \<and> sf_flat_name d = n"
    by (cases "schema_lookup schema a b") (auto split: if_splits)
next
  assume "\<exists>d a b. (a, b, v) \<in> set items \<and> schema_lookup schema a b = Some d \<and> sf_kind d = kind \<and> sf_flat_name d = n"
  then obtain d a b where "(a, b, v) \<in> set items" "schema_lookup schema a b = Some d" "sf_kind d = kind" "sf_flat_name d = n"
    by blast
  then show "\<exists>x \<in> set items. (case x of (a, b, v) \<Rightarrow> (case schema_lookup schema a b of None \<Rightarrow> None
      | Some d \<Rightarrow> if sf_kind d = kind then Some (sf_flat_name d, v) else None)) = Some (n, v)"
    by (intro bexI [of _ "(a, b, v)"]) simp_all
qed

lemma distinct_flat_pairs:
  assumes "schema_ok schema" "distinct (map (\<lambda>(a, b, v). (a, b)) items)"
  shows "distinct (map fst (flat_pairs schema kind items))"
  using assms(2)
proof (induction items)
  case Nil
  then show ?case by simp
next
  case (Cons x xs)
  obtain a b v where x: "x = (a, b, v)" by (cases x)
  have "sf_flat_name d \<notin> fst ` set (flat_pairs schema kind xs)" if d: "schema_lookup schema a b = Some d" for d
  proof
    assume "sf_flat_name d \<in> fst ` set (flat_pairs schema kind xs)"
    then obtain v' where "(sf_flat_name d, v') \<in> set (flat_pairs schema kind xs)" by auto
    then obtain e a' b' where e: "(a', b', v') \<in> set xs" "schema_lookup schema a' b' = Some e"
        "sf_flat_name e = sf_flat_name d"
      unfolding mem_flat_pairs by blast
    with d flat_name_inj [OF assms(1)] have "e = d" by (metis schema_lookup_SomeD)
    with d e have "(a', b') = (a, b)" by (auto dest!: schema_lookup_SomeD)
    with e Cons.prems x show False by force
  qed
  with Cons x show ?case by (auto split: option.splits)
qed

lemma fold_flatten_item:
  "fold (flatten_item schema) items flat =
     \<lparr>quantities = fold (\<lambda>(k, v). dict_set k v) (flat_pairs schema QUANTITY items) (quantities flat),
      attributes = fold (\<lambda>(k, v). dict_set k v) (flat_pairs schema ATTRIBUTE items) (attributes flat)\<rparr>"
proof (induction items arbitrary: flat)
  case Nil
  then show ?case by simp
next
  case (Cons x xs)
  obtain a b v where x: "x = (a, b, v)" by (cases x)
  have "sf_kind d = ATTRIBUTE \<longleftrightarrow> sf_kind d \<noteq> QUANTITY" for d :: shape_field
    by (cases "sf_kind d") auto
  with Cons x show ?case by (simp add: flatten_item_def split: option.splits)
qed

lemma flatten_shape_eq:
  assumes "schema_ok schema" "fams_ok (shape_families shape)" "shape_problems shape schema = []"
  shows "flatten_shape shape schema = Return
     \<lparr>quantities = flat_pairs schema QUANTITY (shape_items (shape_families shape)),
      attributes = flat_pairs schema ATTRIBUTE (shape_items (shape_families shape))\<rparr>"
  using assms distinct_flat_pairs [OF assms(1) distinct_shape_items [OF assms(2)]]
  by (simp add: flatten_shape_def fold_flatten_item fold_dict_set_append)

section \<open>Building a shape back from flat values\<close>

lemma shape_map_dict_set:
  "shape_map (dict_set a (dict_set b v (case map_of fams a of None \<Rightarrow> [] | Some fs \<Rightarrow> fs)) fams)
     = (shape_map fams)((a, b) \<mapsto> v)"
proof
  fix k
  show "shape_map (dict_set a (dict_set b v (case map_of fams a of None \<Rightarrow> [] | Some fs \<Rightarrow> fs)) fams) k
     = ((shape_map fams)((a, b) \<mapsto> v)) k"
    by (cases k; cases "map_of fams a") (simp_all add: shape_map_def)
qed

lemma fams_ok_dict_set:
  assumes "fams_ok fams"
  shows "fams_ok (dict_set a (dict_set b v (case map_of fams a of None \<Rightarrow> [] | Some fs \<Rightarrow> fs)) fams)"
proof -
  let ?fs = "case map_of fams a of None \<Rightarrow> [] | Some fs \<Rightarrow> fs"
  let ?new = "dict_set a (dict_set b v ?fs) fams"
  have "dict_ok ?fs"
    using assms by (cases "map_of fams a") (auto simp: fams_ok_def dest!: map_of_SomeD)
  then have new: "dict_ok (dict_set b v ?fs) \<and> dict_set b v ?fs \<noteq> []"
    by simp
  have "dict_ok fs \<and> fs \<noteq> []" if "(f, fs) \<in> set ?new" for f fs
  proof (cases "(f, fs) = (a, dict_set b v ?fs)")
    case True
    with new show ?thesis by simp
  next
    case False
    with that set_dict_set [of a "dict_set b v ?fs" fams] have "(f, fs) \<in> set fams" by blast
    with assms show ?thesis by (auto simp: fams_ok_def)
  qed
  moreover have "dict_ok ?new" using assms by (simp add: fams_ok_def)
  ultimately show ?thesis unfolding fams_ok_def by blast
qed

text \<open>What one pass of \<open>unflatten_shape\<close> adds to the map a shape denotes.\<close>

definition placed ::
  "capability_schema \<Rightarrow> field_kind \<Rightarrow> (string \<times> pyval) list \<Rightarrow> (string \<times> string \<Rightarrow> pyval option) \<Rightarrow>
     string \<times> string \<Rightarrow> pyval option" where
  "placed s kind xs m k = (case schema_lookup s (fst k) (snd k) of
      None \<Rightarrow> m k
    | Some d \<Rightarrow> if sf_kind d = kind
        then (case map_of xs (sf_flat_name d) of None \<Rightarrow> m k | Some v \<Rightarrow> Some v) else m k)"

definition flat_known :: "capability_schema \<Rightarrow> field_kind \<Rightarrow> (string \<times> pyval) list \<Rightarrow> bool" where
  "flat_known s kind xs = (\<forall>n \<in> fst ` set xs. \<exists>d \<in> set (schema_fields s). sf_flat_name d = n \<and> sf_kind d = kind)"

lemma unflatten_item_known:
  assumes "schema_ok s" "d \<in> set (schema_fields s)" "sf_kind d = kind"
  shows "unflatten_item s kind (sf_flat_name d, v) (ps, S) =
     (ps, dict_set (sf_family d) (dict_set (sf_field d) v
        (case map_of S (sf_family d) of None \<Rightarrow> [] | Some fs \<Rightarrow> fs)) S)"
proof -
  have "map_of (rev (map (\<lambda>f. (sf_flat_name f, f)) (schema_fields s))) (sf_flat_name d) = Some d"
    using by_flat_name_eq [OF assms(1)] assms(2) by blast
  with assms(3) show ?thesis by (simp add: unflatten_item_def)
qed

lemma placed_Cons:
  assumes "schema_ok s" "d \<in> set (schema_fields s)" "sf_kind d = kind" "sf_flat_name d \<notin> fst ` set xs"
  shows "placed s kind xs (m((sf_family d, sf_field d) \<mapsto> v)) = placed s kind ((sf_flat_name d, v) # xs) m"
proof
  fix k
  show "placed s kind xs (m((sf_family d, sf_field d) \<mapsto> v)) k = placed s kind ((sf_flat_name d, v) # xs) m k"
  proof (cases "schema_lookup s (fst k) (snd k)")
    case None
    then have "k \<noteq> (sf_family d, sf_field d)"
      using schema_lookup_self [OF assms(1,2)] by auto
    with None show ?thesis by (simp add: placed_def)
  next
    case (Some e)
    then have e: "e \<in> set (schema_fields s)" "k = (sf_family e, sf_field e)"
      by (auto dest: schema_lookup_SomeD simp: prod_eq_iff)
    have "map_of xs (sf_flat_name d) = None" using assms(4) by (simp add: map_of_eq_None_iff)
    then show ?thesis
      using Some e assms flat_name_inj [OF assms(1) e(1) assms(2)] schema_lookup_self [OF assms(1,2)]
      by (cases "e = d") (auto simp: placed_def split: option.split)
  qed
qed

lemma fold_unflatten_known:
  assumes "schema_ok s"
  shows "flat_known s kind xs \<Longrightarrow> dict_ok xs \<Longrightarrow> fams_ok S \<Longrightarrow>
     \<exists>S'. fold (unflatten_item s kind) xs (ps, S) = (ps, S') \<and> fams_ok S' \<and>
       shape_map S' = placed s kind xs (shape_map S)"
proof (induction xs arbitrary: S)
  case Nil
  then show ?case by (auto simp: placed_def fun_eq_iff split: option.splits)
next
  case (Cons x xs)
  obtain n v where x: "x = (n, v)" by (cases x)
  with Cons.prems(1) obtain d where d: "d \<in> set (schema_fields s)" "sf_flat_name d = n" "sf_kind d = kind"
    by (auto simp: flat_known_def)
  let ?S1 = "dict_set (sf_family d) (dict_set (sf_field d) v
        (case map_of S (sf_family d) of None \<Rightarrow> [] | Some fs \<Rightarrow> fs)) S"
  have step: "unflatten_item s kind x (ps, S) = (ps, ?S1)"
    using unflatten_item_known [OF assms d(1,3)] x d(2) by simp
  have "flat_known s kind xs" "dict_ok xs" "fams_ok ?S1"
    using Cons.prems by (auto simp: flat_known_def intro: fams_ok_dict_set)
  then obtain S' where "fold (unflatten_item s kind) xs (ps, ?S1) = (ps, S')" "fams_ok S'"
      "shape_map S' = placed s kind xs (shape_map ?S1)"
    using Cons.IH [of ?S1] by blast
  moreover have "placed s kind xs (shape_map ?S1) = placed s kind (x # xs) (shape_map S)"
    using placed_Cons [OF assms d(1,3), of xs "shape_map S" v] Cons.prems(2) x d(2)
    by (simp add: shape_map_dict_set)
  ultimately show ?case using step by simp
qed

text \<open>Problems, once found, stay; a clean pass means every flat name was known.\<close>

lemma unflatten_item_problems:
  assumes "schema_ok s" "fst (unflatten_item s kind (n, v) st) = []"
  shows "fst st = [] \<and> (\<exists>d \<in> set (schema_fields s). sf_flat_name d = n \<and> sf_kind d = kind)"
proof -
  obtain ps S where "st = (ps, S)" by (cases st)
  with assms by_flat_name_eq [OF assms(1), of n] show ?thesis
    by (cases "map_of (rev (map (\<lambda>f. (sf_flat_name f, f)) (schema_fields s))) n")
      (auto simp: unflatten_item_def split: if_splits)
qed

lemma fold_unflatten_clean:
  assumes "schema_ok s"
  shows "fst (fold (unflatten_item s kind) xs st) = [] \<Longrightarrow> fst st = [] \<and> flat_known s kind xs"
proof (induction xs arbitrary: st)
  case Nil
  then show ?case by (simp add: flat_known_def)
next
  case (Cons x xs)
  obtain n v where x: "x = (n, v)" by (cases x)
  from Cons.IH [of "unflatten_item s kind x st"] Cons.prems
  have "fst (unflatten_item s kind (n, v) st) = []" "flat_known s kind xs"
    by (auto simp: x)
  with unflatten_item_problems [OF assms] x show ?case by (auto simp: flat_known_def)
qed

section \<open>Canonical form\<close>

lemma map_of_map_snd: "map_of (map (\<lambda>(f, fs). (f, h fs)) xs) a = map_option h (map_of xs a)"
  by (induction xs) auto

lemma fams_ok_sorted: "fams_ok fams \<Longrightarrow> fams_ok (map (\<lambda>(f, fs). (f, sorted_items fs)) fams)"
  by (auto simp: fams_ok_def comp_def split_beta)

lemma fams_ok_canonical: "fams_ok fams \<Longrightarrow> fams_ok (canonical_families fams)"
  unfolding canonical_families_def using fams_ok_sorted [of fams] by (simp add: fams_ok_def)

lemma shape_map_canonical:
  assumes "fams_ok fams"
  shows "shape_map (canonical_families fams) = shape_map fams"
proof
  fix k :: "string \<times> string"
  have "map_of (canonical_families fams) (fst k) = map_option sorted_items (map_of fams (fst k))"
    using fams_ok_sorted [OF assms]
    by (simp add: canonical_families_def map_of_sorted_items fams_ok_def map_of_map_snd)
  moreover have "map_of fams (fst k) = Some fs \<Longrightarrow> dict_ok fs" for fs
    using assms by (auto simp: fams_ok_def dest: map_of_SomeD)
  ultimately show "shape_map (canonical_families fams) k = shape_map fams k"
    by (cases "map_of fams (fst k)") (auto simp: shape_map_def map_of_sorted_items)
qed

lemma map_of_shape_map:
  assumes "fams_ok A" "fams_ok B" "shape_map A = shape_map B" "map_of A a = Some fs"
  shows "\<exists>gs. map_of B a = Some gs \<and> map_of fs = map_of gs"
proof -
  from assms(3) have "(\<exists>b. shape_map A (a, b) \<noteq> None) \<longleftrightarrow> (\<exists>b. shape_map B (a, b) \<noteq> None)" by simp
  with assms obtain gs where gs: "map_of B a = Some gs"
    using has_family_iff [of A a] has_family_iff [of B a] by auto
  have "map_of fs b = map_of gs b" for b
    using fun_cong [OF assms(3), of "(a, b)"] assms(4) gs by (simp add: shape_map_def)
  with gs show ?thesis by auto
qed

lemma canonical_families_unique:
  assumes "fams_ok A" "fams_ok B" "shape_map A = shape_map B"
  shows "canonical_families A = canonical_families B"
proof -
  have sub: "set (map (\<lambda>(f, fs). (f, sorted_items fs)) A) \<subseteq> set (map (\<lambda>(f, fs). (f, sorted_items fs)) B)"
    if ab: "fams_ok A" "fams_ok B" "shape_map A = shape_map B" for A B
  proof
    fix p
    assume "p \<in> set (map (\<lambda>(f, fs). (f, sorted_items fs)) A)"
    then obtain a fs where p: "p = (a, sorted_items fs)" "(a, fs) \<in> set A" by auto
    then have "map_of A a = Some fs" "dict_ok fs" using ab(1) by (auto simp: fams_ok_def)
    then obtain gs where gs: "map_of B a = Some gs" "map_of fs = map_of gs"
      using map_of_shape_map [OF ab] by blast
    then have "(a, gs) \<in> set B" "dict_ok gs"
      using ab(2) by (auto simp: fams_ok_def dest: map_of_SomeD)
    moreover from \<open>dict_ok fs\<close> this(2) gs(2) have "sorted_items fs = sorted_items gs"
      by (intro sorted_items_unique) (auto simp: map_of_inject_set)
    ultimately show "p \<in> set (map (\<lambda>(f, fs). (f, sorted_items fs)) B)" using p by force
  qed
  have "dict_ok (map (\<lambda>(f, fs). (f, sorted_items fs)) A)" "dict_ok (map (\<lambda>(f, fs). (f, sorted_items fs)) B)"
    using fams_ok_sorted assms by (auto simp: fams_ok_def)
  then show ?thesis
    unfolding canonical_families_def
    using sub [OF assms] sub [OF assms(2,1) assms(3) [symmetric]] by (intro sorted_items_unique) auto
qed

lemma canonical_shape_of:
  "fams_named fams \<Longrightarrow> canonical_shape (shape_of fams) = Return (shape_of (canonical_families fams))"
  by (simp add: canonical_shape_def Let_def structure_ok_iff)

lemma fams_named_iff_map:
  assumes "fams_ok fams"
  shows "fams_named fams \<longleftrightarrow> shape_map fams \<noteq> Map.empty \<and>
     (\<forall>a b v. shape_map fams (a, b) = Some v \<longrightarrow> a \<noteq> [] \<and> b \<noteq> [] \<and> is_scalar v)"
proof -
  have "(\<forall>(f, fs) \<in> set fams. f \<noteq> [] \<and> fs \<noteq> [] \<and> (\<forall>(g, v) \<in> set fs. g \<noteq> [] \<and> is_scalar v)) \<longleftrightarrow>
     (\<forall>a b v. shape_map fams (a, b) = Some v \<longrightarrow> a \<noteq> [] \<and> b \<noteq> [] \<and> is_scalar v)" (is "?L \<longleftrightarrow> ?R")
  proof
    assume ?L
    then show ?R by (fastforce dest: shape_map_SomeD)
  next
    assume R: ?R
    have "f \<noteq> [] \<and> fs \<noteq> [] \<and> (\<forall>(g, v) \<in> set fs. g \<noteq> [] \<and> is_scalar v)" if m: "(f, fs) \<in> set fams" for f fs
    proof -
      have all: "f \<noteq> [] \<and> g \<noteq> [] \<and> is_scalar v" if "(g, v) \<in> set fs" for g v
        using R shape_map_iff [OF assms, of f g v] m that by blast
      have "fs \<noteq> []" using m assms by (auto simp: fams_ok_def)
      then obtain g v where "(g, v) \<in> set fs" by (cases fs) auto
      with all \<open>fs \<noteq> []\<close> show ?thesis by auto
    qed
    then show ?L by blast
  qed
  with shape_map_empty_iff [OF assms] show ?thesis unfolding fams_named_def by simp
qed

lemma fams_named_cong:
  "fams_ok A \<Longrightarrow> fams_ok B \<Longrightarrow> shape_map A = shape_map B \<Longrightarrow> fams_named A = fams_named B"
  by (simp add: fams_named_iff_map)

lemma map_of_flat_pairs:
  assumes "schema_ok s" "fams_ok fams" "d \<in> set (schema_fields s)" "sf_kind d = kind"
  shows "map_of (flat_pairs s kind (shape_items fams)) (sf_flat_name d) = shape_map fams (sf_family d, sf_field d)"
proof -
  let ?l = "flat_pairs s kind (shape_items fams)"
  have ok: "dict_ok ?l" by (rule distinct_flat_pairs [OF assms(1) distinct_shape_items [OF assms(2)]])
  have "(sf_flat_name d, v) \<in> set ?l \<longleftrightarrow> shape_map fams (sf_family d, sf_field d) = Some v" for v
  proof
    assume "(sf_flat_name d, v) \<in> set ?l"
    then obtain e a b where e: "(a, b, v) \<in> set (shape_items fams)" "schema_lookup s a b = Some e"
        "sf_flat_name e = sf_flat_name d"
      unfolding mem_flat_pairs by blast
    then have "e = d" using flat_name_inj [OF assms(1) _ assms(3)] schema_lookup_SomeD by blast
    with e(2) have "a = sf_family d" "b = sf_field d" by (auto dest: schema_lookup_SomeD)
    with e(1) mem_shape_items [OF assms(2)] show "shape_map fams (sf_family d, sf_field d) = Some v" by simp
  next
    assume "shape_map fams (sf_family d, sf_field d) = Some v"
    then show "(sf_flat_name d, v) \<in> set ?l"
      unfolding mem_flat_pairs mem_shape_items [OF assms(2)]
      using schema_lookup_self [OF assms(1,3)] assms(4) by blast
  qed
  with ok show ?thesis by (metis map_of_eq_Some_iff not_Some_eq)
qed

lemma flat_pairs_known: "flat_known s kind (flat_pairs s kind items)"
  unfolding flat_known_def
  by (auto simp: mem_flat_pairs) (metis schema_lookup_SomeD)

text \<open>The map \<open>unflatten_shape\<close> builds, before it is validated.\<close>

lemma unflatten_passes:
  assumes "schema_ok s" "flat_known s QUANTITY q" "flat_known s ATTRIBUTE a" "dict_ok q" "dict_ok a"
  shows "\<exists>S. fold (unflatten_item s ATTRIBUTE) a (fold (unflatten_item s QUANTITY) q ([], [])) = ([], S) \<and>
     fams_ok S \<and> shape_map S = placed s ATTRIBUTE a (placed s QUANTITY q Map.empty)"
proof -
  have "fams_ok []" "shape_map [] = Map.empty" by (auto simp: fams_ok_def shape_map_def)
  then obtain S1 where S1: "fold (unflatten_item s QUANTITY) q ([], []) = ([], S1)" "fams_ok S1"
      "shape_map S1 = placed s QUANTITY q Map.empty"
    using fold_unflatten_known [OF assms(1,2,4), of "[]" "[]"] by auto
  then show ?thesis using fold_unflatten_known [OF assms(1,3,5) S1(2), of "[]"] by simp
qed

section \<open>Properties\<close>

text \<open>Python's guarantee that the keys of a shape's mappings are distinct.\<close>

definition shape_keys_ok :: "pyval \<Rightarrow> bool" where
  "shape_keys_ok shape = (dict_ok (shape_families shape) \<and>
     list_all (\<lambda>(f, fs). dict_ok fs) (shape_families shape))"

lemma fams_ok_of_structure:
  "shape_keys_ok shape \<Longrightarrow> shape_structure_problems shape = [] \<Longrightarrow> fams_ok (shape_families shape)"
  by (fastforce simp: shape_keys_ok_def structure_ok_iff fams_named_def fams_ok_def list_all_iff)

lemma shape_problems_structure: "shape_problems shape schema = [] \<Longrightarrow> shape_structure_problems shape = []"
  by (auto simp: shape_problems_def Let_def split: if_splits)

lemma flatten_shape_ReturnD:
  assumes "schema_ok schema" "shape_keys_ok shape" "flatten_shape shape schema = Return flat"
  shows "shape_problems shape schema = []" "fams_ok (shape_families shape)"
    "flat = \<lparr>quantities = flat_pairs schema QUANTITY (shape_items (shape_families shape)),
       attributes = flat_pairs schema ATTRIBUTE (shape_items (shape_families shape))\<rparr>"
proof -
  show p: "shape_problems shape schema = []"
    using assms(3) by (auto simp: flatten_shape_def Let_def split: if_splits)
  show ok: "fams_ok (shape_families shape)"
    by (rule fams_ok_of_structure [OF assms(2) shape_problems_structure [OF p]])
  show "flat = \<lparr>quantities = flat_pairs schema QUANTITY (shape_items (shape_families shape)),
       attributes = flat_pairs schema ATTRIBUTE (shape_items (shape_families shape))\<rparr>"
    using flatten_shape_eq [OF assms(1) ok p] assms(3) by simp
qed

lemma placed_flat_pairs:
  assumes "schema_ok s" "fams_ok fams" "content_ok s (shape_map fams)"
  shows "placed s ATTRIBUTE (flat_pairs s ATTRIBUTE (shape_items fams))
     (placed s QUANTITY (flat_pairs s QUANTITY (shape_items fams)) Map.empty) = shape_map fams"
proof
  fix k :: "string \<times> string"
  obtain a b where k: "k = (a, b)" by (cases k)
  show "placed s ATTRIBUTE (flat_pairs s ATTRIBUTE (shape_items fams))
     (placed s QUANTITY (flat_pairs s QUANTITY (shape_items fams)) Map.empty) k = shape_map fams k"
  proof (cases "schema_lookup s a b")
    case None
    with assms(3) have "shape_map fams (a, b) = None"
      unfolding content_ok_def by (metis not_Some_eq)
    with None k show ?thesis by (simp add: placed_def)
  next
    case (Some d)
    then have "d \<in> set (schema_fields s)" "sf_family d = a" "sf_field d = b"
      by (auto dest: schema_lookup_SomeD)
    with map_of_flat_pairs [OF assms(1,2), of d] Some k show ?thesis
      by (cases "sf_kind d") (auto simp: placed_def split: option.split)
  qed
qed

text \<open>C39: flattening a shape and building it back gives the shape in canonical key order:
  \<open>unflatten_shape\<close> inverts \<open>flatten_shape\<close> on every shape that flattens.\<close>

theorem unflatten_flatten:
  assumes "schema_ok schema" "shape_keys_ok shape" "flatten_shape shape schema = Return flat"
  shows "\<exists>c. canonical_shape shape = Return c \<and>
     unflatten_shape (quantities flat) (attributes flat) schema = Return c"
proof -
  let ?fams = "shape_families shape"
  note p = flatten_shape_ReturnD(1) [OF assms] and ok = flatten_shape_ReturnD(2) [OF assms]
    and flat = flatten_shape_ReturnD(3) [OF assms]
  have s: "shape = shape_of ?fams" and named: "fams_named ?fams"
    using shape_problems_structure [OF p] by (auto simp: structure_ok_iff)
  then have content: "content_ok schema (shape_map ?fams)"
    using shape_problems_Nil [OF assms(1) ok] p by metis
  note d = distinct_flat_pairs [OF assms(1) distinct_shape_items [OF ok]]
  obtain S where S: "fold (unflatten_item schema ATTRIBUTE) (attributes flat)
        (fold (unflatten_item schema QUANTITY) (quantities flat) ([], [])) = ([], S)"
      "fams_ok S" "shape_map S = shape_map ?fams"
    using unflatten_passes [OF assms(1) flat_pairs_known flat_pairs_known d d]
      placed_flat_pairs [OF assms(1) ok content] flat by auto
  then have "shape_problems (shape_of S) schema = []" "fams_named S"
    using shape_problems_Nil [OF assms(1) S(2)] content fams_named_cong [OF S(2) ok S(3)] named by auto
  then have "unflatten_shape (quantities flat) (attributes flat) schema = Return (shape_of (canonical_families S))"
    by (simp add: unflatten_shape_def S(1) canonical_shape_of)
  moreover have "canonical_shape shape = Return (shape_of (canonical_families ?fams))"
    using canonical_shape_of [OF named] s by simp
  ultimately show ?thesis using canonical_families_unique [OF S(2) ok S(3)] by simp
qed

text \<open>Building a shape from flat values and flattening it returns exactly those flat
  values, whenever the build succeeds.\<close>

theorem flatten_unflatten:
  assumes "schema_ok schema" "dict_ok quants" "dict_ok attrs"
    and "unflatten_shape quants attrs schema = Return shape"
  shows "\<exists>flat. flatten_shape shape schema = Return flat \<and>
     map_of (quantities flat) = map_of quants \<and> map_of (attributes flat) = map_of attrs"
proof -
  obtain ps S where fold: "fold (unflatten_item schema ATTRIBUTE) attrs
      (fold (unflatten_item schema QUANTITY) quants ([], [])) = (ps, S)" by fastforce
  with assms(4) have "ps = []" and found: "shape_problems (shape_of S) schema = []"
      and canon: "canonical_shape (shape_of S) = Return shape"
    by (auto simp: unflatten_shape_def Let_def split: if_splits)
  with fold have a: "flat_known schema ATTRIBUTE attrs" and q: "flat_known schema QUANTITY quants"
    using fold_unflatten_clean [OF assms(1)] by (metis fst_conv)+
  with unflatten_passes [OF assms(1) q a assms(2,3)] fold
  have ok: "fams_ok S" and m: "shape_map S = placed schema ATTRIBUTE attrs (placed schema QUANTITY quants Map.empty)"
    by auto
  let ?C = "canonical_families S"
  have named: "fams_named S"
    using shape_problems_structure [OF found] by (simp add: structure_ok_iff)
  with canon have shape: "shape = shape_of ?C" by (simp add: canonical_shape_of)
  have C: "fams_ok ?C" "shape_map ?C = shape_map S"
    by (rule fams_ok_canonical [OF ok], rule shape_map_canonical [OF ok])
  with found have "shape_problems shape schema = []"
    using shape_problems_Nil [OF assms(1)] ok shape by simp
  then have "flatten_shape shape schema = Return
     \<lparr>quantities = flat_pairs schema QUANTITY (shape_items ?C), attributes = flat_pairs schema ATTRIBUTE (shape_items ?C)\<rparr>"
    using flatten_shape_eq [OF assms(1), of shape] C shape by simp
  moreover have "map_of (flat_pairs schema kind (shape_items ?C)) n = map_of xs n"
    if k: "kind = QUANTITY \<and> xs = quants \<or> kind = ATTRIBUTE \<and> xs = attrs" for kind xs n
  proof (cases "\<exists>d \<in> set (schema_fields schema). sf_flat_name d = n \<and> sf_kind d = kind")
    case True
    then obtain d where d: "d \<in> set (schema_fields schema)" "sf_flat_name d = n" "sf_kind d = kind" by blast
    then have "map_of (flat_pairs schema kind (shape_items ?C)) n = shape_map S (sf_family d, sf_field d)"
      using map_of_flat_pairs [OF assms(1) C(1)] C(2) by auto
    also have "\<dots> = map_of xs n"
      using schema_lookup_self [OF assms(1) d(1)] d k by (auto simp: m placed_def split: option.split)
    finally show ?thesis .
  next
    case False
    with k a q have "n \<notin> fst ` set xs" by (auto simp: flat_known_def)
    moreover have "n \<notin> fst ` set (flat_pairs schema kind (shape_items ?C))"
      using False flat_pairs_known [of schema kind "shape_items ?C"] by (auto simp: flat_known_def)
    ultimately show ?thesis by (metis map_of_eq_None_iff)
  qed
  ultimately show ?thesis by (simp add: fun_eq_iff)
qed

text \<open>A shape's digest is a function of its content alone.  Two well-formed shapes that
  state the same value for every family and field have the same digest, whatever the order
  of their keys and whatever the hash.\<close>

theorem shape_digest_content:
  assumes "shape_keys_ok s" "shape_structure_problems s = []"
    and "shape_keys_ok t" "shape_structure_problems t = []"
    and "shape_map (shape_families s) = shape_map (shape_families t)"
  shows "shape_digest h s = shape_digest h t \<and> (\<exists>d. shape_digest h s = Return d)"
proof -
  have "canonical_families (shape_families s) = canonical_families (shape_families t)"
    by (rule canonical_families_unique [OF fams_ok_of_structure [OF assms(1,2)]
          fams_ok_of_structure [OF assms(3,4)] assms(5)])
  with assms(2,4) show ?thesis by (simp add: shape_digest_def canonical_shape_def)
qed

lemma flatten_shape_value:
  assumes "schema_ok schema" "shape_keys_ok shape" "flatten_shape shape schema = Return flat"
    and v: "shape_map (shape_families shape) (family, field) = Some v"
  shows "\<exists>d. schema_lookup schema family field = Some d \<and>
      map_of (case sf_kind d of QUANTITY \<Rightarrow> quantities flat | ATTRIBUTE \<Rightarrow> attributes flat) (sf_flat_name d) = Some v \<and>
      (case sf_kind d of QUANTITY \<Rightarrow> is_pos_int v | ATTRIBUTE \<Rightarrow> \<exists>txt. v = PStr txt \<and> py_strip txt \<noteq> [])"
proof -
  note r = flatten_shape_ReturnD [OF assms(1-3)]
  have "shape = shape_of (shape_families shape)"
    using shape_problems_structure [OF r(1)] by (simp add: structure_ok_iff)
  with r(1) shape_problems_Nil [OF assms(1) r(2)] have "content_ok schema (shape_map (shape_families shape))" by metis
  with v obtain d where d: "schema_lookup schema family field = Some d" "value_fits (sf_kind d) v"
    unfolding content_ok_def by metis
  then have "d \<in> set (schema_fields schema)" "sf_family d = family" "sf_field d = field"
    by (auto dest: schema_lookup_SomeD)
  with map_of_flat_pairs [OF assms(1) r(2), of d] v r(3)
  have "map_of (case sf_kind d of QUANTITY \<Rightarrow> quantities flat | ATTRIBUTE \<Rightarrow> attributes flat) (sf_flat_name d) = Some v"
    by (auto split: field_kind.split)
  with d show ?thesis
    by (auto simp: value_fits_def split: if_splits field_kind.split)
qed

text \<open>What flattening returns.  It raises exactly when the shape has a problem, and
  otherwise every stated value is found under its field's flat name among the values of its
  field's kind, quantities are positive integers and attributes are non-blank text.\<close>

theorem flatten_shape_values:
  assumes "schema_ok schema" "shape_keys_ok shape"
  shows "if shape_problems shape schema \<noteq> []
     then flatten_shape shape schema = Raise (shape_problems shape schema)
     else \<exists>flat. flatten_shape shape schema = Return flat \<and>
       (\<forall>family field v. shape_map (shape_families shape) (family, field) = Some v \<longrightarrow>
         (\<exists>d. schema_lookup schema family field = Some d \<and>
           map_of (case sf_kind d of QUANTITY \<Rightarrow> quantities flat | ATTRIBUTE \<Rightarrow> attributes flat) (sf_flat_name d) = Some v \<and>
           (case sf_kind d of QUANTITY \<Rightarrow> is_pos_int v | ATTRIBUTE \<Rightarrow> \<exists>txt. v = PStr txt \<and> py_strip txt \<noteq> [])))"
proof (cases "shape_problems shape schema = []")
  case False
  then show ?thesis by (simp add: flatten_shape_def Let_def)
next
  case True
  then obtain flat where f: "flatten_shape shape schema = Return flat"
    by (auto simp: flatten_shape_def Let_def)
  have "\<exists>d. schema_lookup schema family field = Some d \<and>
      map_of (case sf_kind d of QUANTITY \<Rightarrow> quantities flat | ATTRIBUTE \<Rightarrow> attributes flat) (sf_flat_name d) = Some v \<and>
      (case sf_kind d of QUANTITY \<Rightarrow> is_pos_int v | ATTRIBUTE \<Rightarrow> \<exists>txt. v = PStr txt \<and> py_strip txt \<noteq> [])"
    if v: "shape_map (shape_families shape) (family, field) = Some v" for family field v
    by (rule flatten_shape_value [OF assms f v])
  with f True show ?thesis by simp
qed

section \<open>Witnesses\<close>

definition ex_schema :: capability_schema where
  "ex_schema = \<lparr>schema_fields =
     [\<lparr>sf_family = ''gpu'', sf_field = ''count'', sf_kind = QUANTITY, sf_flat_name = ''gpu_count'', sf_required = True\<rparr>,
      \<lparr>sf_family = ''gpu'', sf_field = ''model'', sf_kind = ATTRIBUTE, sf_flat_name = ''gpu_model'', sf_required = False\<rparr>,
      \<lparr>sf_family = ''memory'', sf_field = ''gib'', sf_kind = QUANTITY, sf_flat_name = ''ram_gib'', sf_required = False\<rparr>]\<rparr>"

definition ex_shape :: pyval where
  "ex_shape = PDict [(PStr ''memory'', PDict [(PStr ''gib'', PInt 64)]),
     (PStr ''gpu'', PDict [(PStr ''model'', PStr ''H100''), (PStr ''count'', PInt 1)])]"

definition ex_shape' :: pyval where
  "ex_shape' = PDict [(PStr ''gpu'', PDict [(PStr ''count'', PInt 1), (PStr ''model'', PStr ''H100'')]),
     (PStr ''memory'', PDict [(PStr ''gib'', PInt 64)])]"

definition ex_flat :: flat_shape where
  "ex_flat = \<lparr>quantities = [(''ram_gib'', PInt 64), (''gpu_count'', PInt 1)], attributes = [(''gpu_model'', PStr ''H100'')]\<rparr>"

lemma ex_schema_ok: "schema_ok ex_schema"
  by code_simp

lemma ex_shape_keys: "shape_keys_ok ex_shape" "shape_keys_ok ex_shape'"
  by code_simp+

lemma ex_flatten: "flatten_shape ex_shape ex_schema = Return ex_flat"
  by code_simp

theorem unflatten_flatten_witness:
  "\<exists>c. canonical_shape ex_shape = Return c \<and>
     unflatten_shape (quantities ex_flat) (attributes ex_flat) ex_schema = Return c"
  by (rule unflatten_flatten [OF ex_schema_ok ex_shape_keys(1) ex_flatten])

theorem flatten_unflatten_witness:
  "\<exists>flat. flatten_shape ex_shape' ex_schema = Return flat \<and>
     map_of (quantities flat) = map_of (quantities ex_flat) \<and> map_of (attributes flat) = map_of (attributes ex_flat)"
proof (rule flatten_unflatten [OF ex_schema_ok])
  show "dict_ok (quantities ex_flat)" by code_simp
  show "dict_ok (attributes ex_flat)" by code_simp
  show "unflatten_shape (quantities ex_flat) (attributes ex_flat) ex_schema = Return ex_shape'" by code_simp
qed

theorem shape_digest_content_witness:
  "shape_digest (\<lambda>_. ''00'') ex_shape = shape_digest (\<lambda>_. ''00'') ex_shape' \<and>
     (\<exists>d. shape_digest (\<lambda>_. ''00'') ex_shape = Return d)"
proof (rule shape_digest_content [OF ex_shape_keys(1) _ ex_shape_keys(2)])
  show "shape_structure_problems ex_shape = []" by code_simp
  show "shape_structure_problems ex_shape' = []" by code_simp
  show "shape_map (shape_families ex_shape) = shape_map (shape_families ex_shape')"
    by (rule ext) (simp add: shape_map_def shape_families_def ex_shape_def ex_shape'_def)
qed

theorem flatten_shape_values_witness:
  "\<exists>flat. flatten_shape ex_shape ex_schema = Return flat \<and>
     map_of (attributes flat) ''gpu_model'' = Some (PStr ''H100'')"
proof -
  have p: "shape_problems ex_shape ex_schema = []" by code_simp
  have v: "shape_map (shape_families ex_shape) (''gpu'', ''model'') = Some (PStr ''H100'')" by code_simp
  obtain f where l: "schema_lookup ex_schema ''gpu'' ''model'' = Some f" "sf_kind f = ATTRIBUTE" "sf_flat_name f = ''gpu_model''"
    by (simp add: schema_lookup_def ex_schema_def)
  from flatten_shape_values [OF ex_schema_ok ex_shape_keys(1)] p v l show ?thesis by fastforce
qed

end
