(* ===== verification/Capability_Pricing.thy ===== *)
theory Capability_Pricing
  imports Capability_Shape
begin

text \<open>
  \<open>src/kit/capability-pricing/src/market_capability_pricing/__init__.py\<close>: pricing a
  capability shape from per-family rates.  Rates are decimal text, read digit by digit into
  a coefficient and a scale, and never through a float: the theory shows that the linear
  aggregator's text denotes exactly the rational sum of rate times quantity, whatever the
  lengths of the numerals; that Python refuses to convert numerals of more than 4300 digits is left
  out, so the code may refuse a price that the model computes.  The protocol \<open>PriceAggregator\<close> is the locale
  \<open>price_aggregator\<close>, interpreted on \<open>linear_price\<close>.
\<close>

section \<open>The model\<close>

datatype pricing_error =
    NotDecimalText pyval
  | RateNotPositive string
  | NotCanonicalUnit pyval
  | UnpricedFamilies "string list"
  | NotAFamilyRate string
  | MissingQuantity string string
  | DifferentUnits "string list"

text \<open>\<open>_DECIMAL_TEXT.fullmatch\<close>, the expression \<open>(?:0|[1-9][0-9]*)(?:\.[0-9]+)?\<close>: the greedy
  run of digits, then either nothing or a dot and at least one digit.\<close>

definition DECIMAL_TEXT :: "string \<Rightarrow> bool" where
  "DECIMAL_TEXT s = (let whole = takeWhile is_digit s; rest = dropWhile is_digit s in
     (whole = ''0'' \<or> (whole \<noteq> [] \<and> hd whole \<noteq> CHR ''0'')) \<and>
     (case rest of [] \<Rightarrow> True
      | c # fraction \<Rightarrow> c = CHR ''.'' \<and> fraction \<noteq> [] \<and> list_all is_digit fraction))"

text \<open>\<open>_UNIT.fullmatch\<close>, the expression \<open>[a-z][a-z0-9_-]*\<close>\<close>

definition is_lower :: "char \<Rightarrow> bool" where
  "is_lower c = (97 \<le> (of_char c :: nat) \<and> (of_char c :: nat) \<le> 122)"

definition UNIT :: "string \<Rightarrow> bool" where
  "UNIT s = (case s of [] \<Rightarrow> False
     | c # cs \<Rightarrow> is_lower c \<and> list_all (\<lambda>x. is_lower x \<or> is_digit x \<or> x = CHR ''_'' \<or> x = CHR ''-'') cs)"

definition exact :: "pyval \<Rightarrow> (pricing_error, int \<times> nat) result" where
  "exact v = (case v of
     PStr txt \<Rightarrow> if DECIMAL_TEXT txt
       then (let (whole, fraction) = py_partition (CHR ''.'') txt
             in Return (int (digits_val (whole @ fraction)), length fraction))
       else Raise (NotDecimalText v)
   | _ \<Rightarrow> Raise (NotDecimalText v))"

definition rjust :: "string \<Rightarrow> nat \<Rightarrow> char \<Rightarrow> string" where
  "rjust s w c = replicate (w - length s) c @ s"

definition rstrip_char :: "char \<Rightarrow> string \<Rightarrow> string" where
  "rstrip_char c s = rev (dropWhile (\<lambda>x. x = c) (rev s))"

definition decimal_text :: "int \<Rightarrow> nat \<Rightarrow> string" where
  "decimal_text coefficient scale = (let digits = rjust (int_str coefficient) (scale + 1) (CHR ''0'') in
     if scale = 0 then digits
     else let whole = take (length digits - scale) digits;
              fraction = rstrip_char (CHR ''0'') (drop (length digits - scale) digits)
          in if fraction \<noteq> [] then whole @ CHR ''.'' # fraction else whole)"

record family_rate =
  fr_rate :: string
  fr_per :: string

text \<open>\<open>FamilyRate(rate, per)\<close> with the checks of its \<open>__post_init__\<close>\<close>

definition mk_family_rate :: "pyval \<Rightarrow> pyval \<Rightarrow> (pricing_error, family_rate) result" where
  "mk_family_rate rate per = res_bind (exact rate) (\<lambda>(coefficient, _).
     case rate of PStr r \<Rightarrow>
       if coefficient \<le> 0 then Raise (RateNotPositive r)
       else (case per of
           PStr p \<Rightarrow> if UNIT p then Return \<lparr>fr_rate = r, fr_per = p\<rparr> else Raise (NotCanonicalUnit per)
         | _ \<Rightarrow> Raise (NotCanonicalUnit per))
     | _ \<Rightarrow> Raise (NotDecimalText rate))"

record priced_family =
  pf_quantity :: string
  pf_key :: "string option"

type_synonym pricing_projection = "(string \<times> priced_family) list"

text \<open>\<open>PricingProjection.key_of\<close>; \<open>None\<close> outside is the \<open>KeyError\<close> of an unpriced family.\<close>

definition key_of :: "pricing_projection \<Rightarrow> string \<Rightarrow> string option option" where
  "key_of projection family = map_option pf_key (map_of projection family)"

datatype projection_problem = NotAQuantityField string string | NotAnAttributeField string string

definition pricing_projection_problems ::
    "pricing_projection \<Rightarrow> capability_schema \<Rightarrow> projection_problem list" where
  "pricing_projection_problems projection schema = concat (map (\<lambda>(family, priced).
     (case schema_lookup schema family (pf_quantity priced) of
        Some f \<Rightarrow> if sf_kind f = QUANTITY then [] else [NotAQuantityField family (pf_quantity priced)]
      | None \<Rightarrow> [NotAQuantityField family (pf_quantity priced)]) @
     (case pf_key priced of None \<Rightarrow> []
      | Some k \<Rightarrow> (case schema_lookup schema family k of
           Some f \<Rightarrow> if sf_kind f = ATTRIBUTE then [] else [NotAnAttributeField family k]
         | None \<Rightarrow> [NotAnAttributeField family k]))) projection)"

record shape_price =
  sp_amount :: string
  sp_per :: "string option"

text \<open>\<open>ShapePrice.is_zero\<close>\<close>

definition price_is_zero :: "shape_price \<Rightarrow> (pricing_error, bool) result" where
  "price_is_zero p = res_bind (exact (PStr (sp_amount p))) (\<lambda>(c, _). Return (c = 0))"

text \<open>A value of the rates mapping: a \<open>FamilyRate\<close>, or anything else.\<close>

datatype rate_value = Rate family_rate | NotARate pyval

type_synonym family_rates = "(string \<times> rate_value) list"

text \<open>One turn of the loop of \<open>linear_price\<close>: the term it appends and the unit it adds.\<close>

definition linear_term ::
    "family_fields \<Rightarrow> family_rates \<Rightarrow> pricing_projection \<Rightarrow> string \<Rightarrow>
     (pricing_error, (int \<times> nat) \<times> string) result" where
  "linear_term shape rates projection family =
     (case map_of rates family of
        Some (Rate rate) \<Rightarrow>
          (case map_of projection family of
             None \<Rightarrow> Raise (UnpricedFamilies [family])
           | Some priced \<Rightarrow>
               let field = pf_quantity priced;
                   quantity = (case map_of shape family of None \<Rightarrow> None | Some fs \<Rightarrow> map_of fs field)
               in (case quantity of
                     Some (PInt n) \<Rightarrow>
                       if n \<le> 0 then Raise (MissingQuantity family field)
                       else res_bind (exact (PStr (fr_rate rate)))
                              (\<lambda>(coefficient, scale). Return ((coefficient * n, scale), fr_per rate))
                   | _ \<Rightarrow> Raise (MissingQuantity family field)))
      | _ \<Rightarrow> Raise (NotAFamilyRate family))"

definition linear_price ::
    "family_fields \<Rightarrow> family_rates \<Rightarrow> pricing_projection \<Rightarrow> (pricing_error, shape_price) result" where
  "linear_price shape rates projection =
     (let unpriced = sort (filter (\<lambda>f. \<not> has_key projection f) (map fst rates)) in
      if unpriced \<noteq> [] then Raise (UnpricedFamilies unpriced)
      else
        let applicable = sort (filter (has_key rates) (map fst shape)) in
        res_bind (res_map (linear_term shape rates projection) applicable) (\<lambda>rows.
          let terms = map fst rows; units = remdups (map snd rows) in
          if 1 < length units then Raise (DifferentUnits (sort units))
          else if terms = [] then Return \<lparr>sp_amount = ''0'', sp_per = None\<rparr>
          else let scale = Max (set (map snd terms));
                   total = sum_list (map (\<lambda>(v, s). v * 10 ^ (scale - s)) terms)
               in Return \<lparr>sp_amount = decimal_text total scale, sp_per = Some (hd units)\<rparr>))"

section \<open>Decimal text is exact\<close>

text \<open>The rational number a coefficient and a scale stand for.\<close>

definition dec_value :: "int \<times> nat \<Rightarrow> rat" where
  "dec_value p = of_int (fst p) / 10 ^ snd p"

definition whole_ok :: "string \<Rightarrow> bool" where
  "whole_ok w = (list_all is_digit w \<and> (w = ''0'' \<or> (w \<noteq> [] \<and> hd w \<noteq> CHR ''0'')))"

lemma not_digit_dot [simp]: "\<not> is_digit (CHR ''.'')"
  by code_simp

lemma dot_notin_digits: "list_all is_digit w \<Longrightarrow> CHR ''.'' \<notin> set w"
  by (auto simp: list_all_iff dest: bspec)

lemma is_digit_0 [simp]: "is_digit (CHR ''0'')"
  by code_simp

lemma takeWhile_digits [simp]:
  "list_all is_digit w \<Longrightarrow> takeWhile is_digit w = w"
  "list_all is_digit w \<Longrightarrow> dropWhile is_digit w = []"
  by (simp_all add: takeWhile_eq_all_conv list_all_iff)

lemma takeWhile_digits_dot [simp]:
  "list_all is_digit w \<Longrightarrow> takeWhile is_digit (w @ CHR ''.'' # f) = w"
  "list_all is_digit w \<Longrightarrow> dropWhile is_digit (w @ CHR ''.'' # f) = CHR ''.'' # f"
  by (simp_all add: takeWhile_tail dropWhile_append3 list_all_iff takeWhile_append2 dropWhile_append2)

lemma exact_whole:
  assumes "whole_ok w"
  shows "exact (PStr w) = Return (int (digits_val w), 0)"
  using assms dot_notin_digits [of w]
  by (auto simp: exact_def DECIMAL_TEXT_def whole_ok_def py_partition_absent)

lemma exact_fraction:
  assumes "whole_ok w" "f \<noteq> []" "list_all is_digit f"
  shows "exact (PStr (w @ CHR ''.'' # f)) = Return (int (digits_val (w @ f)), length f)"
  using assms dot_notin_digits [of w]
  by (auto simp: exact_def DECIMAL_TEXT_def whole_ok_def py_partition_append)

lemma rstrip_char_split:
  "\<exists>k. s = rstrip_char c s @ replicate k c"
proof -
  have "takeWhile (\<lambda>x. x = c) (rev s) = replicate (length (takeWhile (\<lambda>x. x = c) (rev s))) c"
    by (metis (mono_tags, lifting) replicate_eqI set_takeWhileD)
  then have "rev s = replicate (length (takeWhile (\<lambda>x. x = c) (rev s))) c @ dropWhile (\<lambda>x. x = c) (rev s)"
    by (metis takeWhile_dropWhile_id)
  then have "s = rev (replicate (length (takeWhile (\<lambda>x. x = c) (rev s))) c @ dropWhile (\<lambda>x. x = c) (rev s))"
    by (metis rev_rev_ident)
  then show ?thesis unfolding rstrip_char_def by (metis rev_append rev_replicate)
qed

lemma rstrip_char_last: "rstrip_char c s \<noteq> [] \<Longrightarrow> last (rstrip_char c s) \<noteq> c"
  using hd_dropWhile [of "\<lambda>x. x = c" "rev s"] by (simp add: rstrip_char_def last_rev)

text \<open>The padded digits from which the text is cut.\<close>

definition padded :: "nat \<Rightarrow> nat \<Rightarrow> string" where
  "padded n scale = rjust (nat_str n) (scale + 1) (CHR ''0'')"

lemma padded_digits: "list_all is_digit (padded n scale)"
  using nat_str_digits [of n] by (auto simp: padded_def rjust_def list_all_iff)

lemma padded_val: "digits_val (padded n scale) = n"
  by (simp add: padded_def rjust_def digits_val_append)

lemma padded_length: "scale < length (padded n scale)"
  by (simp add: padded_def rjust_def)

lemma padded_whole: "whole_ok (take (length (padded n scale) - scale) (padded n scale))"
proof (cases "scale < length (nat_str n)")
  case True
  then have p: "padded n scale = nat_str n" by (simp add: padded_def rjust_def)
  show ?thesis
  proof (cases "n = 0")
    case True
    with \<open>scale < length (nat_str n)\<close> p show ?thesis by (simp add: nat_str_0 whole_ok_def)
  next
    case False
    then have "hd (nat_str n) \<noteq> CHR ''0''" by (rule hd_nat_str)
    with True p padded_digits [of n scale] show ?thesis
      by (auto simp: whole_ok_def list_all_iff dest: in_set_takeD)
  qed
next
  case False
  then obtain k where k: "scale + 1 - length (nat_str n) = Suc k" by (metis Suc_diff_le Suc_eq_plus1 not_less)
  with False have "length (padded n scale) - scale = 1" by (simp add: padded_def rjust_def)
  moreover have "take 1 (padded n scale) = ''0''" using k by (simp add: padded_def rjust_def)
  ultimately show ?thesis by (simp add: whole_ok_def)
qed

text \<open>Printing then reading returns the same number, at a scale no larger, and without a
  redundant trailing zero.\<close>

lemma exact_decimal_text:
  assumes "0 \<le> c"
  shows "\<exists>c' s'. exact (PStr (decimal_text c s)) = Return (c', s') \<and> s' \<le> s \<and>
     dec_value (c', s') = dec_value (c, s) \<and> 0 \<le> c' \<and> (s' = 0 \<or> c' mod 10 \<noteq> 0)"
proof -
  obtain n where n: "c = int n" using assms nonneg_int_cases by blast
  let ?D = "padded n s"
  define w where "w = take (length ?D - s) ?D"
  define f where "f = drop (length ?D - s) ?D"
  obtain k where k: "f = rstrip_char (CHR ''0'') f @ replicate k (CHR ''0'')" (is "_ = ?r @ _")
    using rstrip_char_split by blast
  have wok: "whole_ok w" unfolding w_def by (rule padded_whole)
  have D: "?D = w @ f" by (simp add: w_def f_def)
  have len: "length f = s" using padded_length [of s n] by (simp add: f_def)
  then have lenr: "length ?r + k = s" by (metis k length_append length_replicate)
  have rd: "list_all is_digit ?r"
    using padded_digits [of n s] unfolding D by (metis k list_all_append)
  have "digits_val ?D = digits_val (w @ ?r @ replicate k (CHR ''0''))" by (metis D k)
  then have val: "n = digits_val (w @ ?r) * 10 ^ k"
    by (simp add: padded_val digits_val_append algebra_simps power_add)
  have t: "decimal_text c s = (if ?r \<noteq> [] then w @ CHR ''.'' # ?r else w)"
  proof (cases "s = 0")
    case True
    with len have "f = []" by simp
    with D have "w = ?D" by simp
    with True n \<open>f = []\<close> show ?thesis by (simp add: decimal_text_def int_str_def padded_def rstrip_char_def)
  next
    case False
    with n show ?thesis by (simp add: decimal_text_def int_str_def padded_def w_def f_def Let_def)
  qed
  have dv: "dec_value (int (digits_val (w @ ?r)), length ?r) = dec_value (c, s)"
  proof -
    have "(of_int c :: rat) = of_nat (digits_val (w @ ?r)) * 10 ^ k" using n val by simp
    moreover have "(10 :: rat) ^ s = 10 ^ length ?r * 10 ^ k" by (simp add: lenr [symmetric] power_add)
    ultimately show ?thesis by (simp add: dec_value_def)
  qed
  show ?thesis
  proof (cases "?r = []")
    case True
    with t exact_whole [OF wok] dv show ?thesis by simp
  next
    case False
    have "last ?r \<noteq> CHR ''0''" using False by (rule rstrip_char_last)
    moreover have ld: "is_digit (last ?r)" using rd False by (simp add: list_all_iff)
    ultimately have "digit_val (last ?r) \<noteq> 0" using digit_char_val [OF ld] digit_char_0 by metis
    moreover have "digits_val (w @ ?r) = digits_val (w @ butlast ?r) * 10 + digit_val (last ?r)"
      using False digits_val_append [of "w @ butlast ?r" "[last ?r]"] by simp
    ultimately have "digits_val (w @ ?r) mod 10 \<noteq> 0" using digit_val_less [OF ld] by simp
    then have "int (digits_val (w @ ?r)) mod 10 \<noteq> 0" by presburger
    with t False exact_fraction [OF wok False rd] dv lenr show ?thesis by auto
  qed
qed

section \<open>The linear aggregator\<close>

text \<open>The reference reading: what one family costs, as a rational number.\<close>

definition rate_amount :: "family_rate \<Rightarrow> rat" where
  "rate_amount r = (case exact (PStr (fr_rate r)) of Inr p \<Rightarrow> dec_value p | Inl _ \<Rightarrow> 0)"

definition quantity_of :: "family_fields \<Rightarrow> pricing_projection \<Rightarrow> string \<Rightarrow> int option" where
  "quantity_of shape projection family =
     (case map_of projection family of None \<Rightarrow> None | Some priced \<Rightarrow>
        (case map_of shape family of None \<Rightarrow> None | Some fs \<Rightarrow>
           (case map_of fs (pf_quantity priced) of Some (PInt n) \<Rightarrow> Some n | _ \<Rightarrow> None)))"

definition family_price :: "family_fields \<Rightarrow> family_rates \<Rightarrow> pricing_projection \<Rightarrow> string \<Rightarrow> rat" where
  "family_price shape rates projection family =
     (case (map_of rates family, quantity_of shape projection family) of
        (Some (Rate r), Some n) \<Rightarrow> rate_amount r * of_int n | _ \<Rightarrow> 0)"

definition charged_families :: "family_fields \<Rightarrow> family_rates \<Rightarrow> string set" where
  "charged_families shape rates = fst ` set shape \<inter> fst ` set rates"

lemma linear_term_ReturnD:
  assumes "linear_term shape rates projection f = Return (t, u)"
  shows "dec_value t = family_price shape rates projection f \<and> 0 \<le> fst t \<and>
    (\<exists>r n. map_of rates f = Some (Rate r) \<and> u = fr_per r \<and> quantity_of shape projection f = Some n \<and> 0 < n)"
proof -
  obtain r where r: "map_of rates f = Some (Rate r)"
    using assms by (auto simp: linear_term_def split: option.splits rate_value.splits)
  obtain priced where p: "map_of projection f = Some priced"
    using assms r by (auto simp: linear_term_def split: option.splits)
  obtain n where n: "quantity_of shape projection f = Some n" and n0: "0 < n"
    and e: "res_bind (exact (PStr (fr_rate r))) (\<lambda>(coefficient, scale). Return ((coefficient * n, scale), fr_per r)) = Return (t, u)"
    using assms r p
    by (auto simp: linear_term_def quantity_of_def Let_def split: option.splits pyval.splits if_splits)
  obtain c s where cs: "exact (PStr (fr_rate r)) = Return (c, s)" and t: "t = (c * n, s)" "u = fr_per r"
    using e by (auto simp: res_bind_Inr_iff)
  have "0 \<le> c" using cs by (auto simp: exact_def Let_def split: if_splits prod.splits)
  with cs t r n n0 show ?thesis
    by (simp add: family_price_def rate_amount_def dec_value_def)
qed

lemma dec_value_rescale: "s \<le> m \<Longrightarrow> dec_value (v * 10 ^ (m - s), m) = dec_value (v, s)"
proof -
  assume "s \<le> m"
  then have "(10 :: rat) ^ m = 10 ^ (m - s) * 10 ^ s" by (simp add: power_add [symmetric])
  then show ?thesis by (simp add: dec_value_def)
qed

lemma dec_value_total:
  "\<forall>t \<in> set terms. snd t \<le> m \<Longrightarrow>
   dec_value (sum_list (map (\<lambda>(v, s). v * 10 ^ (m - s)) terms), m) = sum_list (map dec_value terms)"
proof (induction terms)
  case (Cons t terms)
  obtain v s where t: "t = (v, s)" by (cases t)
  have "dec_value (v * 10 ^ (m - s), m) = dec_value (v, s)" by (rule dec_value_rescale) (use Cons.prems t in simp)
  with Cons t show ?case by (simp add: dec_value_def add_divide_distrib)
qed (simp add: dec_value_def)

lemma rows_of_terms:
  assumes "list_all2 (\<lambda>f row. linear_term shape rates projection f = Return row) fs rows"
  shows "map (\<lambda>row. dec_value (fst row)) rows = map (family_price shape rates projection) fs \<and>
    (\<forall>row \<in> set rows. 0 \<le> fst (fst row)) \<and>
    (\<forall>f \<in> set fs. \<exists>r n. map_of rates f = Some (Rate r) \<and> fr_per r \<in> snd ` set rows \<and>
       quantity_of shape projection f = Some n \<and> 0 < n)"
  using assms
proof (induction rule: list_all2_induct)
  case (Cons f fs row rows)
  obtain t u where "row = (t, u)" by (cases row)
  with Cons linear_term_ReturnD [of shape rates projection f t u] show ?case by fastforce
qed simp

lemma sum_charged:
  assumes "dict_ok shape"
  shows "sum_list (map h (sort (filter (has_key rates) (map fst shape)))) = (\<Sum>f \<in> charged_families shape rates. h f)"
proof -
  have "distinct (sort (filter (has_key rates) (map fst shape)))" using assms by simp
  moreover have "set (sort (filter (has_key rates) (map fst shape))) = charged_families shape rates"
    by (auto simp: charged_families_def has_key_iff)
  ultimately show ?thesis by (metis sum_list_distinct_conv_sum_set)
qed

lemma linear_price_ReturnD:
  assumes ok: "dict_ok shape" and p: "linear_price shape rates projection = Return p"
  shows "\<exists>c s. exact (PStr (sp_amount p)) = Return (c, s) \<and> 0 \<le> c \<and>
     dec_value (c, s) = (\<Sum>f \<in> charged_families shape rates. family_price shape rates projection f) \<and>
     (\<forall>f \<in> charged_families shape rates. \<exists>r n. map_of rates f = Some (Rate r) \<and> sp_per p = Some (fr_per r) \<and>
        quantity_of shape projection f = Some n \<and> 0 < n)"
proof -
  let ?fs = "sort (filter (has_key rates) (map fst shape))"
  obtain rows where m: "res_map (linear_term shape rates projection) ?fs = Return rows"
    and rest: "length (remdups (map snd rows)) \<le> 1"
      "if rows = [] then p = \<lparr>sp_amount = ''0'', sp_per = None\<rparr>
       else p = \<lparr>sp_amount = decimal_text
           (sum_list (map (\<lambda>(v, s). v * 10 ^ (Max (set (map snd (map fst rows))) - s)) (map fst rows)))
           (Max (set (map snd (map fst rows)))), sp_per = Some (hd (remdups (map snd rows)))\<rparr>"
    using p by (auto simp: linear_price_def Let_def res_bind_Inr_iff split: if_splits)
  have fs: "set ?fs = charged_families shape rates"
    by (auto simp: charged_families_def has_key_iff)
  note rows = rows_of_terms [OF m [unfolded res_map_Inr_iff]]
  have total: "sum_list (map dec_value (map fst rows)) = (\<Sum>f \<in> charged_families shape rates. family_price shape rates projection f)"
    using rows sum_charged [OF ok, of "family_price shape rates projection" rates] by (simp add: comp_def)
  show ?thesis
  proof (cases "rows = []")
    case True
    have "exact (PStr ''0'') = Return (0, 0)" by code_simp
    with True rest total rows fs show ?thesis by (auto simp: dec_value_def)
  next
    case False
    let ?m = "Max (set (map snd (map fst rows)))"
    let ?t = "sum_list (map (\<lambda>(v, s). v * 10 ^ (?m - s)) (map fst rows))"
    have "\<forall>t \<in> set (map fst rows). snd t \<le> ?m" by auto
    then have v: "dec_value (?t, ?m) = sum_list (map dec_value (map fst rows))" by (rule dec_value_total)
    have "0 \<le> ?t" by (rule sum_list_nonneg) (use rows in auto)
    then obtain c s where cs: "exact (PStr (decimal_text ?t ?m)) = Return (c, s)"
        "dec_value (c, s) = dec_value (?t, ?m)" "0 \<le> c"
      using exact_decimal_text by blast
    have one: "u = hd (remdups (map snd rows))" if "u \<in> snd ` set rows" for u
    proof -
      have "u \<in> set (remdups (map snd rows))" using that by simp
      with rest(1) show ?thesis by (cases "remdups (map snd rows)") auto
    qed
    have "\<exists>r n. map_of rates f = Some (Rate r) \<and> sp_per p = Some (fr_per r) \<and>
        quantity_of shape projection f = Some n \<and> 0 < n"
      if "f \<in> charged_families shape rates" for f
      using rows that fs one rest(2) False by fastforce
    with cs v total rest(2) False show ?thesis by auto
  qed
qed

lemma linear_price_perm:
  assumes "dict_ok shape" "mset shape = mset shape'"
  shows "linear_price shape rates projection = linear_price shape' rates projection"
proof -
  have "map_of shape = map_of shape'"
    using assms by (metis map_of_inject_set mset_eq_imp_distinct_iff mset_eq_setD mset_map)
  moreover have "sort (filter (has_key rates) (map fst shape)) = sort (filter (has_key rates) (map fst shape'))"
    using assms(2) by (metis mset_filter mset_map properties_for_sort sorted_sort mset_sort)
  moreover have "linear_term shape rates projection = linear_term shape' rates projection"
    using \<open>map_of shape = map_of shape'\<close> by (auto simp: linear_term_def fun_eq_iff split: option.split rate_value.split)
  ultimately show ?thesis by (simp only: linear_price_def)
qed

text \<open>The rates mapping holds values of \<open>FamilyRate\<close>: each passed its constructor.\<close>

definition rates_ok :: "family_rates \<Rightarrow> bool" where
  "rates_ok rates = (\<forall>(f, v) \<in> set rates. case v of
     Rate r \<Rightarrow> mk_family_rate (PStr (fr_rate r)) (PStr (fr_per r)) = Return r | NotARate _ \<Rightarrow> True)"

lemma rates_ok_exact:
  assumes "rates_ok rates" "map_of rates f = Some (Rate r)"
  shows "\<exists>c s. exact (PStr (fr_rate r)) = Return (c, s) \<and> 0 < c"
proof -
  have "mk_family_rate (PStr (fr_rate r)) (PStr (fr_per r)) = Return r"
    using assms map_of_SomeD [of rates f "Rate r"] by (auto simp: rates_ok_def)
  then show ?thesis
    by (auto simp: mk_family_rate_def res_bind_Inr_iff split: if_splits)
qed

lemma linear_term_returns:
  assumes "rates_ok rates" "map_of rates f = Some (Rate r)" "quantity_of shape projection f = Some n" "0 < n"
  shows "\<exists>t. linear_term shape rates projection f = Return (t, fr_per r)"
proof -
  obtain priced where p: "map_of projection f = Some priced"
    using assms(3) by (auto simp: quantity_of_def split: option.splits)
  obtain fs where fs: "map_of shape f = Some fs" "map_of fs (pf_quantity priced) = Some (PInt n)"
    using assms(3) p by (auto simp: quantity_of_def split: option.splits pyval.splits)
  obtain c s where "exact (PStr (fr_rate r)) = Return (c, s)"
    using rates_ok_exact [OF assms(1,2)] by blast
  with assms(2,4) p fs show ?thesis by (simp add: linear_term_def Let_def)
qed

lemma res_map_returns: "\<forall>x \<in> set xs. \<exists>y. f x = Return y \<and> P y \<Longrightarrow> \<exists>ys. res_map f xs = Return ys \<and> (\<forall>y \<in> set ys. P y)"
  by (induction xs) fastforce+

lemma linear_price_returns:
  assumes ok: "rates_ok rates" and keys: "fst ` set rates \<subseteq> fst ` set projection"
    and fs: "\<forall>f \<in> charged_families shape rates. \<exists>r n. map_of rates f = Some (Rate r) \<and> fr_per r = u \<and>
        quantity_of shape projection f = Some n \<and> 0 < n"
  shows "\<exists>p. linear_price shape rates projection = Return p"
proof -
  let ?fs = "sort (filter (has_key rates) (map fst shape))"
  have "\<forall>f \<in> set ?fs. \<exists>row. linear_term shape rates projection f = Return row \<and> snd row = u"
  proof
    fix f assume "f \<in> set ?fs"
    then have "f \<in> charged_families shape rates" by (auto simp: charged_families_def has_key_iff)
    with fs obtain r n where r: "map_of rates f = Some (Rate r)" "fr_per r = u"
      "quantity_of shape projection f = Some n" "0 < n" by blast
    from linear_term_returns [OF ok r(1,3,4)] r(2)
    show "\<exists>row. linear_term shape rates projection f = Return row \<and> snd row = u" by force
  qed
  then obtain rows where rows: "res_map (linear_term shape rates projection) ?fs = Return rows"
      "\<forall>row \<in> set rows. snd row = u"
    using res_map_returns [where P = "\<lambda>row. snd row = u"] by metis
  have "set (remdups (map snd rows)) \<subseteq> {u}" using rows(2) by auto
  then have "length (remdups (map snd rows)) \<le> 1"
    using card_mono [of "{u}" "set (remdups (map snd rows))"] distinct_card [of "remdups (map snd rows)"] by simp
  moreover have "filter (\<lambda>f. \<not> has_key projection f) (map fst rates) = []"
    using keys by (force simp: filter_empty_conv has_key_iff)
  ultimately show ?thesis using rows(1) by (simp add: linear_price_def Let_def)
qed

section \<open>The aggregator interface\<close>

text \<open>What a caller of a \<open>PriceAggregator\<close> relies on: an amount it can read, and a price that
  does not depend on the order in which a shape lists its families.\<close>

locale price_aggregator =
  fixes price :: "family_fields \<Rightarrow> family_rates \<Rightarrow> pricing_projection \<Rightarrow> (pricing_error, shape_price) result"
  assumes readable: "dict_ok shape \<Longrightarrow> price shape rates projection = Return p \<Longrightarrow>
      \<exists>c s. exact (PStr (sp_amount p)) = Return (c, s) \<and> 0 \<le> c"
    and order_free: "dict_ok shape \<Longrightarrow> mset shape = mset shape' \<Longrightarrow>
      price shape rates projection = price shape' rates projection"
begin

lemma is_zero_total:
  assumes "dict_ok shape" "price shape rates projection = Return p"
  shows "\<exists>b. price_is_zero p = Return b"
  using readable [OF assms] by (auto simp: price_is_zero_def)

lemma canonical_price:
  assumes "dict_ok shape"
  shows "price (sorted_items shape) rates projection = price shape rates projection"
  using order_free [OF assms, of "sorted_items shape"] by simp

end

interpretation linear: price_aggregator linear_price
proof unfold_locales
  show "\<exists>c s. exact (PStr (sp_amount p)) = Return (c, s) \<and> 0 \<le> c"
    if "dict_ok shape" "linear_price shape rates projection = Return p" for shape rates projection p
    using linear_price_ReturnD [OF that] by blast
  show "linear_price shape rates projection = linear_price shape' rates projection"
    if "dict_ok shape" "mset shape = mset shape'" for shape shape' rates projection
    by (rule linear_price_perm [OF that])
qed

section \<open>Properties\<close>

text \<open>Printing an amount and reading it back is exact: the text of \<open>coefficient / 10**scale\<close>
  is accepted as decimal text, denotes the same rational number, and carries no redundant
  trailing zero, whatever the number of digits.\<close>

theorem decimal_text_roundtrip:
  assumes "0 \<le> coefficient"
  shows "\<exists>c s. exact (PStr (decimal_text coefficient scale)) = Return (c, s) \<and>
     dec_value (c, s) = dec_value (coefficient, scale) \<and> s \<le> scale \<and> (s = 0 \<or> c mod 10 \<noteq> 0)"
  using exact_decimal_text [OF assms, of scale] by blast

text \<open>C40: the linear aggregator's price is exact: when it returns, its text denotes exactly the
  sum, over the families the shape names that have a rate, of the rate times the shape's
  quantity of that family, in the one unit all those rates name.\<close>

theorem linear_price_exact:
  assumes "dict_ok shape" "linear_price shape rates projection = Return p"
  shows "(\<exists>c s. exact (PStr (sp_amount p)) = Return (c, s) \<and>
       dec_value (c, s) = (\<Sum>f \<in> charged_families shape rates. family_price shape rates projection f)) \<and>
     (\<forall>f r. f \<in> charged_families shape rates \<longrightarrow> map_of rates f = Some (Rate r) \<longrightarrow> sp_per p = Some (fr_per r))"
  using linear_price_ReturnD [OF assms] by fastforce

text \<open>When the linear aggregator returns.  For rates built by \<open>FamilyRate\<close> it returns a
  price exactly when every rate is for a priced family and every family the shape names
  with a rate states a positive quantity, all in one unit; otherwise it raises.\<close>

theorem linear_price_returns_iff:
  assumes "rates_ok rates" "dict_ok shape"
  shows "(\<exists>p. linear_price shape rates projection = Return p) \<longleftrightarrow>
     fst ` set rates \<subseteq> fst ` set projection \<and>
     (\<exists>u. \<forall>f \<in> charged_families shape rates. \<exists>r n. map_of rates f = Some (Rate r) \<and> fr_per r = u \<and>
        quantity_of shape projection f = Some n \<and> 0 < n)"
proof
  assume "\<exists>p. linear_price shape rates projection = Return p"
  then obtain p where p: "linear_price shape rates projection = Return p" by blast
  then have "sort (filter (\<lambda>f. \<not> has_key projection f) (map fst rates)) = []"
    by (auto simp: linear_price_def Let_def split: if_splits)
  then have "filter (\<lambda>f. \<not> has_key projection f) (map fst rates) = []"
    by (metis set_empty set_sort)
  then have "fst ` set rates \<subseteq> fst ` set projection"
    by (auto simp: filter_empty_conv has_key_iff)
  moreover have "\<forall>f \<in> charged_families shape rates. \<exists>r n. map_of rates f = Some (Rate r) \<and> fr_per r = the (sp_per p) \<and>
        quantity_of shape projection f = Some n \<and> 0 < n"
    using linear_price_ReturnD [OF assms(2) p] by fastforce
  ultimately show "fst ` set rates \<subseteq> fst ` set projection \<and>
     (\<exists>u. \<forall>f \<in> charged_families shape rates. \<exists>r n. map_of rates f = Some (Rate r) \<and> fr_per r = u \<and>
        quantity_of shape projection f = Some n \<and> 0 < n)" by blast
next
  assume "fst ` set rates \<subseteq> fst ` set projection \<and>
     (\<exists>u. \<forall>f \<in> charged_families shape rates. \<exists>r n. map_of rates f = Some (Rate r) \<and> fr_per r = u \<and>
        quantity_of shape projection f = Some n \<and> 0 < n)"
  then show "\<exists>p. linear_price shape rates projection = Return p"
    using linear_price_returns [OF assms(1)] by blast
qed

section \<open>Witnesses\<close>

definition ex_rates :: family_rates where
  "ex_rates = [(''gpu'', Rate \<lparr>fr_rate = ''80'', fr_per = ''hour''\<rparr>), (''memory'', Rate \<lparr>fr_rate = ''0.05'', fr_per = ''hour''\<rparr>)]"

definition ex_projection :: pricing_projection where
  "ex_projection = [(''gpu'', \<lparr>pf_quantity = ''count'', pf_key = Some ''model''\<rparr>), (''memory'', \<lparr>pf_quantity = ''gib'', pf_key = None\<rparr>)]"

definition ex_families :: family_fields where
  "ex_families = [(''memory'', [(''gib'', PInt 64)]), (''gpu'', [(''count'', PInt 2), (''model'', PStr ''H100'')])]"

theorem decimal_text_roundtrip_witness:
  "\<exists>c s. exact (PStr (decimal_text 16320 2)) = Return (c, s) \<and>
     dec_value (c, s) = dec_value (16320, 2) \<and> s \<le> 2 \<and> (s = 0 \<or> c mod 10 \<noteq> 0)"
  by (rule decimal_text_roundtrip) simp

lemma ex_price: "linear_price ex_families ex_rates ex_projection = Return \<lparr>sp_amount = ''163.2'', sp_per = Some ''hour''\<rparr>"
proof -
  have e: "exact (PStr ''80'') = Return (80, 0)" "exact (PStr ''0.05'') = Return (5, 2)"
    by (simp_all add: exact_def DECIMAL_TEXT_def py_partition_def digits_val_def digit_val_def is_digit_def)
  have t: "decimal_text 16320 2 = ''163.2''"
    by (simp add: decimal_text_def int_str_def rjust_def rstrip_char_def Let_def nat_str.simps [of "numeral k" for k]
        digit_char_def char_of_def) code_simp
  have s: "sort (filter (has_key ex_rates) (map fst ex_families)) = [''gpu'', ''memory'']" by code_simp
  have u: "filter (\<lambda>f. \<not> has_key ex_projection f) (map fst ex_rates) = []" by code_simp
  show ?thesis
    unfolding linear_price_def s u
    using e t by (simp add: linear_term_def ex_rates_def ex_projection_def ex_families_def Let_def)
qed

theorem linear_price_exact_witness:
  "\<exists>c s. exact (PStr ''163.2'') = Return (c, s) \<and>
     dec_value (c, s) = (\<Sum>f \<in> charged_families ex_families ex_rates. family_price ex_families ex_rates ex_projection f)"
proof -
  have "dict_ok ex_families" by code_simp
  from linear_price_exact [OF this ex_price] show ?thesis by simp
qed

theorem linear_price_returns_iff_witness:
  "(\<exists>p. linear_price ex_families ex_rates ex_projection = Return p) \<and>
     (\<exists>u. \<exists>r n. map_of ex_rates ''gpu'' = Some (Rate r) \<and> fr_per r = u \<and>
        quantity_of ex_families ex_projection ''gpu'' = Some n \<and> 0 < n)"
proof -
  have "rates_ok ex_rates" "dict_ok ex_families" by code_simp+
  note iff = linear_price_returns_iff [OF this, of ex_projection]
  have "''gpu'' \<in> charged_families ex_families ex_rates" by code_simp
  with iff ex_price show ?thesis by blast
qed

end
