(* ===== verification/Capability_Admissibility.thy ===== *)
theory Capability_Admissibility
  imports Capability_Shape "HOL-Library.Product_Lexorder"
begin

text \<open>
  \<open>src/kit/capability-admissibility/src/market_capability_admissibility/__init__.py\<close>: which
  shapes a seller sells for a listing.  A stated listing shape is split into the base shape
  it offers and the bounds it declares; declarations of several tiers are merged into one
  policy; a policy judges shapes and answers which values one dimension may take.

  The theory models every function of the module.  Problem texts are constructors that
  carry the values the text mentions.  \<open>repr\<close> of a finite float and the hash under the
  shape digest are parameters.  Questions about a policy are answered from the two-level
  map a shape denotes (\<^const>\<open>shape_map\<close>).
\<close>

section \<open>Problems\<close>

definition OFFER :: string where "OFFER = ''offer''"
definition MIN_KEY :: string where "MIN_KEY = ''min''"
definition MAX_KEY :: string where "MAX_KEY = ''max''"

definition LISTING_KEYS :: "string list" where "LISTING_KEYS = [OFFER, MIN_KEY, MAX_KEY]"
definition DECLARATION_KEYS :: "string list" where "DECLARATION_KEYS = [MIN_KEY, MAX_KEY]"

datatype problem_code =
    MALFORMED_SHAPE | MALFORMED_DECLARATION | EMPTY_CONSTRAINT | UNKNOWN_CONSTRAINT_KEY
  | OFFER_IN_DECLARATION | INVALID_CONSTRAINT_VALUE | INVERTED_RANGE | OFFER_OUTSIDE_RANGE
  | NOT_A_QUANTITY | CONFLICTING_DUPLICATE | EMPTY_RANGE | BELOW_MINIMUM | ABOVE_MAXIMUM

datatype adm_message =
    MsgShape shape_message
  | MsgStateOneOf "string list"
  | MsgUnknownKeys "string list"
  | MsgNoOffer
  | MsgNotPositive string pyval
  | MsgInverted int int
  | MsgOutsideOwnRange int
  | MsgNotAQuantityOfSchema
  | MsgDimensionNotAQuantity
  | MsgDifferentConstraints "nat list"
  | MsgMinAboveMax int string int string
  | MsgBelow int int
  | MsgAbove int int
  | MsgDeclarationNotMapping
  | MsgFamilyName
  | MsgFamilyNotMapping
  | MsgFieldName
  | MsgIsAnOffer pyval

record tier_bound =
  tb_tier :: string
  tb_bound :: string
  tb_value :: int

record adm_problem =
  ap_paths :: "shape_path list"
  ap_code :: problem_code
  ap_message :: adm_message
  ap_tier :: "string option"
  ap_entries :: "nat list"
  ap_bounds :: "tier_bound list"

definition mk_problem :: "shape_path list \<Rightarrow> problem_code \<Rightarrow> adm_message \<Rightarrow> string option \<Rightarrow> nat list \<Rightarrow> adm_problem" where
  "mk_problem paths code message tier entries =
     \<lparr>ap_paths = paths, ap_code = code, ap_message = message, ap_tier = tier, ap_entries = entries, ap_bounds = []\<rparr>"

definition shape_kit_problems :: "shape_problem list \<Rightarrow> string option \<Rightarrow> nat list \<Rightarrow> adm_problem list" where
  "shape_kit_problems problems tier entries = map (\<lambda>p.
     mk_problem (if problem_path p = PathText [] then [] else [problem_path p])
       MALFORMED_SHAPE (MsgShape (problem_message p)) tier entries) problems"

definition not_a_quantity :: "string \<Rightarrow> string \<Rightarrow> nat list \<Rightarrow> adm_problem" where
  "not_a_quantity path tier entries =
     mk_problem [PathText path] NOT_A_QUANTITY MsgNotAQuantityOfSchema (Some tier) entries"

section \<open>Values, declarations and policies\<close>

type_synonym path = "string \<times> string"

type_synonym bounds = "(string \<times> int) list"

record tier_declaration =
  d_tier :: string
  d_bounds :: "(path \<times> bounds) list"

record leaf =
  minimum :: "int option"
  minimum_tier :: "string option"
  maximum :: "int option"
  maximum_tier :: "string option"

definition no_leaf :: leaf where
  "no_leaf = \<lparr>minimum = None, minimum_tier = None, maximum = None, maximum_tier = None\<rparr>"

text \<open>\<open>AdmissibleValues\<close>: \<open>av_low\<close> is \<open>None\<close> only for the empty set, \<open>av_high\<close> when unbounded.\<close>

record admissible_set =
  av_low :: "int option"
  av_high :: "int option"

definition is_empty :: "admissible_set \<Rightarrow> bool" where
  "is_empty s = (av_low s = None)"

definition contains :: "admissible_set \<Rightarrow> pyval \<Rightarrow> bool" where
  "contains s v = (case (av_low s, v) of
     (Some low, PInt n) \<Rightarrow> 0 < n \<and> low \<le> n \<and> (case av_high s of None \<Rightarrow> True | Some high \<Rightarrow> n \<le> high)
   | _ \<Rightarrow> False)"

datatype threshold_error = NotARealNumber pyval | NotFinite pyval

text \<open>\<open>_threshold\<close>: a threshold is an exact rational number.\<close>

definition threshold :: "pyval \<Rightarrow> (threshold_error, rat) result" where
  "threshold v = (case v of
     PInt n \<Rightarrow> Return (of_int n)
   | PFloat (FFin q) \<Rightarrow> Return q
   | PFloat _ \<Rightarrow> Raise (NotFinite v)
   | _ \<Rightarrow> Raise (NotARealNumber v))"

definition at_most :: "admissible_set \<Rightarrow> pyval \<Rightarrow> (threshold_error, int option) result" where
  "at_most s value = res_bind (threshold value) (\<lambda>q.
     let bound = \<lfloor>q\<rfloor> in
     Return (case av_low s of None \<Rightarrow> None | Some low \<Rightarrow>
       if bound < low then None
       else Some (case av_high s of None \<Rightarrow> bound | Some high \<Rightarrow> min bound high)))"

definition at_least :: "admissible_set \<Rightarrow> pyval \<Rightarrow> (threshold_error, int option) result" where
  "at_least s value = res_bind (threshold value) (\<lambda>q.
     let bound = \<lceil>q\<rceil> in
     Return (case av_low s of None \<Rightarrow> None | Some low \<Rightarrow>
       (let candidate = max bound low in
        case av_high s of
          None \<Rightarrow> Some candidate
        | Some high \<Rightarrow> if high < candidate then None else Some candidate)))"

definition av_minimum :: "admissible_set \<Rightarrow> int option" where
  "av_minimum s = av_low s"

definition av_maximum :: "admissible_set \<Rightarrow> int option" where
  "av_maximum s = (case av_low s of None \<Rightarrow> None | Some _ \<Rightarrow> av_high s)"

record resolved_policy =
  rp_schema :: capability_schema
  rp_leaves :: "(path \<times> leaf) list"

text \<open>\<open>self._open_schema\<close>: the schema with no field required.\<close>

definition open_schema :: "capability_schema \<Rightarrow> capability_schema" where
  "open_schema s = \<lparr>schema_fields = map (\<lambda>f. f\<lparr>sf_required := False\<rparr>) (schema_fields s)\<rparr>"

definition leaf_violations :: "leaf \<Rightarrow> string \<Rightarrow> pyval \<Rightarrow> adm_problem list" where
  "leaf_violations leaf path value = (case value of
     PInt n \<Rightarrow>
       (case minimum leaf of
          Some m \<Rightarrow> if n < m then [mk_problem [PathText path] BELOW_MINIMUM (MsgBelow n m) (minimum_tier leaf) []] else []
        | None \<Rightarrow> []) @
       (case maximum leaf of
          Some m \<Rightarrow> if m < n then [mk_problem [PathText path] ABOVE_MAXIMUM (MsgAbove n m) (maximum_tier leaf) []] else []
        | None \<Rightarrow> [])
   | _ \<Rightarrow> [])"

text \<open>\<open>ResolvedPolicy._violations\<close>.  Only quantity fields have leaves and the shape is readable
  under the schema, so a value that has a leaf is an integer.\<close>

definition violations :: "resolved_policy \<Rightarrow> pyval \<Rightarrow> adm_problem list" where
  "violations policy shape = concat (map (\<lambda>(family, fs).
     concat (map (\<lambda>(field, value).
       case map_of (rp_leaves policy) (family, field) of
         None \<Rightarrow> []
       | Some leaf \<Rightarrow> leaf_violations leaf (dotted family field) value) (sorted_items fs)))
     (sorted_items (shape_families shape)))"

definition admissibility_problems :: "resolved_policy \<Rightarrow> pyval \<Rightarrow> adm_problem list" where
  "admissibility_problems policy shape =
     (let malformed = shape_problems shape (open_schema (rp_schema policy)) in
      if malformed \<noteq> [] then shape_kit_problems malformed None [] else violations policy shape)"

definition is_quantity :: "capability_schema \<Rightarrow> string \<Rightarrow> string \<Rightarrow> bool" where
  "is_quantity schema family field = (case schema_lookup schema family field of
     None \<Rightarrow> False | Some d \<Rightarrow> sf_kind d = QUANTITY)"

definition quantity_path :: "resolved_policy \<Rightarrow> pyval \<Rightarrow> (adm_problem list, path) result" where
  "quantity_path policy dimension =
     (let refused = Raise [mk_problem [case dimension of PStr s \<Rightarrow> PathText s | _ \<Rightarrow> PathRepr dimension]
            NOT_A_QUANTITY MsgDimensionNotAQuantity None []] in
      case dimension of
        PStr s \<Rightarrow>
          (if CHR ''.'' \<in> set s
           then (let (family, field) = py_partition (CHR ''.'') s in
                 if is_quantity (rp_schema policy) family field then Return (family, field) else refused)
           else refused)
      | _ \<Rightarrow> refused)"

definition without_field :: "pyval \<Rightarrow> path \<Rightarrow> pyval" where
  "without_field partial path = (case partial of
     PDict es \<Rightarrow>
       (case map_of es (PStr (fst path)) of
          Some (PDict fs) \<Rightarrow>
            if has_key fs (PStr (snd path)) then
              (let rest = filter (\<lambda>(k, v). k \<noteq> PStr (fst path)) es;
                   remaining = filter (\<lambda>(k, v). k \<noteq> PStr (snd path)) fs
               in PDict (if remaining \<noteq> [] then dict_set (PStr (fst path)) (PDict remaining) rest else rest))
            else partial
        | _ \<Rightarrow> partial)
   | _ \<Rightarrow> partial)"

definition admissible_values :: "resolved_policy \<Rightarrow> pyval \<Rightarrow> pyval \<Rightarrow> (adm_problem list, admissible_set) result" where
  "admissible_values policy dimension partial = res_bind (quantity_path policy dimension) (\<lambda>path.
     let rest = without_field partial path;
         leaf = (case map_of (rp_leaves policy) path of None \<Rightarrow> no_leaf | Some l \<Rightarrow> l);
         answer = \<lparr>av_low = Some (case minimum leaf of Some m \<Rightarrow> if m = 0 then 1 else m | None \<Rightarrow> 1),
                   av_high = maximum leaf\<rparr>;
         malformed = shape_problems rest (open_schema (rp_schema policy)) in
     if rest = PDict [] then Return answer
     else if malformed \<noteq> [] then Raise (shape_kit_problems malformed None [])
     else if violations policy rest \<noteq> [] then Return \<lparr>av_low = None, av_high = None\<rparr>
     else Return answer)"

section \<open>Reading constraints\<close>

definition stated :: "(pyval \<times> pyval) list \<Rightarrow> string \<Rightarrow> bool" where
  "stated mapping key = has_key mapping (PStr key)"

definition readable_constraint :: "(pyval \<times> pyval) list \<Rightarrow> string \<Rightarrow> int option" where
  "readable_constraint mapping key = (case map_of mapping (PStr key) of
     Some (PInt n) \<Rightarrow> if 0 < n then Some n else None | _ \<Rightarrow> None)"

definition constraint_problems ::
    "(rat \<Rightarrow> string) \<Rightarrow> string \<Rightarrow> (pyval \<times> pyval) list \<Rightarrow> string list \<Rightarrow> string \<Rightarrow> nat list \<Rightarrow> adm_problem list" where
  "constraint_problems frepr path mapping allowed tier entries =
     (let problem = (\<lambda>code message. mk_problem [PathText path] code message (Some tier) entries);
          unknown = sort (map (\<lambda>(k, v). py_repr frepr k) (filter (\<lambda>(k, v). k \<notin> PStr ` set LISTING_KEYS) mapping));
          readable = (\<lambda>key. if key \<in> set allowed then readable_constraint mapping key else None);
          low = readable MIN_KEY; high = readable MAX_KEY; offer = readable OFFER
      in
      if mapping = [] then [problem EMPTY_CONSTRAINT (MsgStateOneOf allowed)]
      else
        (if unknown \<noteq> [] then [problem UNKNOWN_CONSTRAINT_KEY (MsgUnknownKeys unknown)] else []) @
        (if stated mapping OFFER \<and> OFFER \<notin> set allowed then [problem OFFER_IN_DECLARATION MsgNoOffer] else []) @
        concat (map (\<lambda>key. case map_of mapping (PStr key) of
            None \<Rightarrow> []
          | Some v \<Rightarrow> if is_pos_int v then [] else [problem INVALID_CONSTRAINT_VALUE (MsgNotPositive key v)]) allowed) @
        (if (case (low, high) of (Some l, Some h) \<Rightarrow> h < l | _ \<Rightarrow> False)
         then [problem INVERTED_RANGE (MsgInverted (the low) (the high))]
         else (case offer of
             None \<Rightarrow> []
           | Some off \<Rightarrow>
               if (case low of Some l \<Rightarrow> off < l | None \<Rightarrow> False) \<or> (case high of Some h \<Rightarrow> h < off | None \<Rightarrow> False)
               then [problem OFFER_OUTSIDE_RANGE (MsgOutsideOwnRange off)] else [])))"

text \<open>\<open>{key: value[key] for key in _DECLARATION_KEYS if key in value}\<close>, built only from a mapping
  without problems, whose values are positive integers.\<close>

definition bounds_of :: "(pyval \<times> pyval) list \<Rightarrow> bounds" where
  "bounds_of mapping = List.map_filter (\<lambda>key. map_option (Pair key) (readable_constraint mapping key)) DECLARATION_KEYS"

section \<open>Splitting a stated listing shape\<close>

text \<open>One turn of the inner loop of \<open>_separate\<close>: the kept fields and the constraint mappings.\<close>

definition separate_field ::
    "string \<Rightarrow> pyval \<times> pyval \<Rightarrow> (pyval \<times> pyval) list \<times> (path \<times> (pyval \<times> pyval) list) list \<Rightarrow>
     (pyval \<times> pyval) list \<times> (path \<times> (pyval \<times> pyval) list) list" where
  "separate_field family item acc = (case (item, acc) of ((field, value), (kept, constrained)) \<Rightarrow>
     (case (field, value) of
        (PStr name, PDict mapping) \<Rightarrow>
          if name \<noteq> [] then
            ((case map_of mapping (PStr OFFER) of Some off \<Rightarrow> dict_set field off kept | None \<Rightarrow> kept),
             dict_set (family, name) mapping constrained)
          else (dict_set field value kept, constrained)
      | _ \<Rightarrow> (dict_set field value kept, constrained)))"

definition separate_family ::
    "pyval \<times> pyval \<Rightarrow> (pyval \<times> pyval) list \<times> (path \<times> (pyval \<times> pyval) list) list \<Rightarrow>
     (pyval \<times> pyval) list \<times> (path \<times> (pyval \<times> pyval) list) list" where
  "separate_family item acc = (case (item, acc) of ((family, members), (base, constrained)) \<Rightarrow>
     (case (family, members) of
        (PStr name, PDict fs) \<Rightarrow>
          if fs \<noteq> [] then
            (let (kept, constrained') = fold (separate_field name) fs ([], constrained) in
             ((if kept \<noteq> [] then dict_set family (PDict kept) base else base), constrained'))
          else (dict_set family members base, constrained)
      | _ \<Rightarrow> (dict_set family members base, constrained)))"

definition separate :: "pyval \<Rightarrow> pyval \<times> (path \<times> (pyval \<times> pyval) list) list" where
  "separate raw = (case raw of
     PDict es \<Rightarrow> (let (base, constrained) = fold separate_family es ([], []) in (PDict base, constrained))
   | _ \<Rightarrow> (raw, []))"

record shape_split =
  ss_base :: "pyval option"
  ss_declaration :: "tier_declaration option"
  ss_base_problems :: "adm_problem list"
  ss_constraint_problems :: "adm_problem list"
  ss_entries :: "nat list"

definition split_problems :: "shape_split \<Rightarrow> adm_problem list" where
  "split_problems s = ss_base_problems s @ ss_constraint_problems s"

text \<open>One turn of the loop over the constraint mappings, shared by \<open>_split\<close> and
  \<open>parse_declaration\<close>: either problems, or the bounds of one path.\<close>

definition read_constraint ::
    "(rat \<Rightarrow> string) \<Rightarrow> string \<Rightarrow> capability_schema option \<Rightarrow> nat list \<Rightarrow> string list \<Rightarrow>
     path \<times> (pyval \<times> pyval) list \<Rightarrow> adm_problem list \<times> (path \<times> bounds) list \<Rightarrow>
     adm_problem list \<times> (path \<times> bounds) list" where
  "read_constraint frepr tier schema entries allowed item acc =
     (case (item, acc) of (((family, field), mapping), (problems, bounds)) \<Rightarrow>
       (let path = dotted family field;
            found = constraint_problems frepr path mapping allowed tier entries in
        if (case schema of None \<Rightarrow> False | Some s \<Rightarrow> \<not> is_quantity s family field)
        then (problems @ [not_a_quantity path tier entries], bounds)
        else if found \<noteq> [] then (problems @ found, bounds)
        else if list_ex (stated mapping) DECLARATION_KEYS
        then (problems, dict_set (family, field) (bounds_of mapping) bounds)
        else (problems, bounds)))"

definition split_shape ::
    "(rat \<Rightarrow> string) \<Rightarrow> pyval \<Rightarrow> string \<Rightarrow> capability_schema option \<Rightarrow> nat list \<Rightarrow> shape_split" where
  "split_shape frepr raw tier schema entries =
     (let (base, constrained) = separate raw;
          base_problems = (case schema of None \<Rightarrow> shape_structure_problems base | Some s \<Rightarrow> shape_problems base s) in
      if base_problems \<noteq> [] then
        \<lparr>ss_base = None, ss_declaration = None,
         ss_base_problems = shape_kit_problems base_problems (Some tier) entries,
         ss_constraint_problems = [], ss_entries = entries\<rparr>
      else
        (let (problems, bounds) = fold (read_constraint frepr tier schema entries LISTING_KEYS) constrained ([], []) in
         \<lparr>ss_base = (case canonical_shape base of Inr c \<Rightarrow> Some c | Inl _ \<Rightarrow> None),
          ss_declaration = (if problems \<noteq> [] then None else Some \<lparr>d_tier = tier, d_bounds = bounds\<rparr>),
          ss_base_problems = [], ss_constraint_problems = problems, ss_entries = entries\<rparr>))"

datatype request_error = BadTier pyval

definition require_tier :: "pyval \<Rightarrow> (request_error, string) result" where
  "require_tier tier = (case tier of PStr t \<Rightarrow> if t \<noteq> [] then Return t else Raise (BadTier tier) | _ \<Rightarrow> Raise (BadTier tier))"

definition split_listing_shape ::
    "(rat \<Rightarrow> string) \<Rightarrow> pyval \<Rightarrow> pyval \<Rightarrow> capability_schema option \<Rightarrow> (request_error, shape_split) result" where
  "split_listing_shape frepr raw tier schema =
     res_bind (require_tier tier) (\<lambda>t. Return (split_shape frepr raw t schema []))"

type_synonym signature = "(string \<times> (string \<times> string) list) list"

definition constraint_signature :: "(rat \<Rightarrow> string) \<Rightarrow> pyval \<Rightarrow> signature" where
  "constraint_signature frepr raw = sort (List.map_filter (\<lambda>((family, field), mapping).
     (let said = sort (map (\<lambda>(k, v). (py_repr frepr k, py_repr frepr v)) (filter (\<lambda>(k, v). k \<noteq> PStr OFFER) mapping)) in
      if said \<noteq> [] \<or> mapping = [] then Some (dotted family field, said) else None)) (snd (separate raw)))"

text \<open>The paths two entries of one base shape state differently.\<close>

definition differing_paths :: "signature list \<Rightarrow> string list" where
  "differing_paths signatures =
     (let dicts = map (\<lambda>s. fold (\<lambda>(k, v). dict_set k v) s []) signatures in
      sort (filter (\<lambda>p. 1 < length (remdups (map (\<lambda>d. map_of d p) dicts)))
        (remdups (concat (map (map fst) dicts)))))"

definition split_group ::
    "(rat \<Rightarrow> string) \<Rightarrow> pyval list \<Rightarrow> nat list \<Rightarrow> string \<Rightarrow> capability_schema option \<Rightarrow> shape_split" where
  "split_group frepr raw_list indices tier schema =
     (let splits = map (\<lambda>i. split_shape frepr (raw_list ! i) tier schema [i]) indices;
          own = concat (map ss_constraint_problems splits);
          signatures = remdups (map (\<lambda>i. constraint_signature frepr (raw_list ! i)) indices);
          first = hd splits in
      if length signatures = 1 then
        \<lparr>ss_base = ss_base first, ss_declaration = (if own \<noteq> [] then None else ss_declaration first),
         ss_base_problems = [], ss_constraint_problems = own, ss_entries = indices\<rparr>
      else
        \<lparr>ss_base = ss_base first, ss_declaration = None, ss_base_problems = [],
         ss_constraint_problems =
           mk_problem (map PathText (differing_paths signatures)) CONFLICTING_DUPLICATE
             (MsgDifferentConstraints indices) (Some tier) indices # own,
         ss_entries = indices\<rparr>)"

text \<open>The loop of \<open>split_listing_shapes\<close>: \<open>order\<close> holds an unreadable entry's split or a digest,
  \<open>groups\<close> the positions of each digest.\<close>

datatype order_item = OUnreadable shape_split | ODigest string

definition group_entry ::
    "(rat \<Rightarrow> string) \<Rightarrow> (pyval \<Rightarrow> string) \<Rightarrow> string \<Rightarrow> capability_schema option \<Rightarrow> nat \<times> pyval \<Rightarrow>
     (string \<times> nat list) list \<times> order_item list \<Rightarrow> (string \<times> nat list) list \<times> order_item list" where
  "group_entry frepr json_sha256 tier schema entry acc = (case (entry, acc) of ((index, raw), (groups, order)) \<Rightarrow>
     (let split = split_shape frepr raw tier schema [index] in
      if ss_base_problems split \<noteq> [] then (groups, order @ [OUnreadable split])
      else (case ss_base split of
          None \<Rightarrow> (groups, order)
        | Some base \<Rightarrow>
            (case shape_digest json_sha256 base of
               Inl _ \<Rightarrow> (groups, order)
             | Inr digest \<Rightarrow>
                 (case map_of groups digest of
                    None \<Rightarrow> (dict_set digest [index] groups, order @ [ODigest digest])
                  | Some indices \<Rightarrow> (dict_set digest (indices @ [index]) groups, order))))))"

definition split_listing_shapes ::
    "(rat \<Rightarrow> string) \<Rightarrow> (pyval \<Rightarrow> string) \<Rightarrow> pyval list \<Rightarrow> pyval \<Rightarrow> capability_schema option \<Rightarrow>
     (request_error, shape_split list) result" where
  "split_listing_shapes frepr json_sha256 raw_list tier schema =
     res_bind (require_tier tier) (\<lambda>t.
       let (groups, order) = fold (group_entry frepr json_sha256 t schema) (enumerate 0 raw_list) ([], []) in
       Return (map (\<lambda>item. case item of
           OUnreadable split \<Rightarrow> split
         | ODigest digest \<Rightarrow>
             split_group frepr raw_list (case map_of groups digest of None \<Rightarrow> [] | Some ixs \<Rightarrow> ixs) t schema) order))"

section \<open>Constraint-only declarations\<close>

record declaration_parse =
  dp_declaration :: "tier_declaration option"
  dp_problems :: "adm_problem list"

definition parse_field ::
    "(rat \<Rightarrow> string) \<Rightarrow> string \<Rightarrow> capability_schema option \<Rightarrow> string \<Rightarrow> pyval \<times> pyval \<Rightarrow>
     adm_problem list \<times> (path \<times> bounds) list \<Rightarrow> adm_problem list \<times> (path \<times> bounds) list" where
  "parse_field frepr tier schema family item acc = (case (item, acc) of ((field, value), (problems, bounds)) \<Rightarrow>
     (let unnamed = (problems @ [mk_problem [PathFieldRepr family field] MALFORMED_DECLARATION MsgFieldName (Some tier) []], bounds) in
      case field of
        PStr name \<Rightarrow>
          (if name = [] then unnamed
           else (case value of
               PDict mapping \<Rightarrow> read_constraint frepr tier schema [] DECLARATION_KEYS ((family, name), mapping) acc
             | _ \<Rightarrow> (problems @ [mk_problem [PathText (dotted family name)] OFFER_IN_DECLARATION (MsgIsAnOffer value) (Some tier) []], bounds)))
      | _ \<Rightarrow> unnamed))"

definition parse_family ::
    "(rat \<Rightarrow> string) \<Rightarrow> string \<Rightarrow> capability_schema option \<Rightarrow> pyval \<times> pyval \<Rightarrow>
     adm_problem list \<times> (path \<times> bounds) list \<Rightarrow> adm_problem list \<times> (path \<times> bounds) list" where
  "parse_family frepr tier schema item acc = (case (item, acc) of ((family, members), (problems, bounds)) \<Rightarrow>
     (let unnamed = (problems @ [mk_problem [PathRepr family] MALFORMED_DECLARATION MsgFamilyName (Some tier) []], bounds) in
      case family of
        PStr name \<Rightarrow>
          (if name = [] then unnamed
           else (case members of
               PDict fs \<Rightarrow> fold (parse_field frepr tier schema name) fs acc
             | _ \<Rightarrow> (problems @ [mk_problem [PathText name] MALFORMED_DECLARATION MsgFamilyNotMapping (Some tier) []], bounds)))
      | _ \<Rightarrow> unnamed))"

definition parse_declaration ::
    "(rat \<Rightarrow> string) \<Rightarrow> pyval \<Rightarrow> pyval \<Rightarrow> capability_schema option \<Rightarrow> (request_error, declaration_parse) result" where
  "parse_declaration frepr raw tier schema = res_bind (require_tier tier) (\<lambda>t.
     Return (case raw of
       PDict es \<Rightarrow>
         (let (problems, bounds) = fold (parse_family frepr t schema) es ([], []) in
          if problems \<noteq> [] then \<lparr>dp_declaration = None, dp_problems = problems\<rparr>
          else \<lparr>dp_declaration = Some \<lparr>d_tier = t, d_bounds = bounds\<rparr>, dp_problems = []\<rparr>)
     | _ \<Rightarrow> \<lparr>dp_declaration = None,
            dp_problems = [mk_problem [] MALFORMED_DECLARATION MsgDeclarationNotMapping (Some t) []]\<rparr>))"

section \<open>Resolving tiers into a policy\<close>

text \<open>What a merged leaf records of one bound: its value, the rank of the tier that set it
  and that tier's label.\<close>

type_synonym ranked = "int \<times> nat \<times> string"

definition set_bound :: "path \<Rightarrow> nat \<Rightarrow> string \<Rightarrow> string \<times> int \<Rightarrow> (path \<times> (string \<times> ranked) list) list \<Rightarrow>
     (path \<times> (string \<times> ranked) list) list" where
  "set_bound path rank tier b leaves = (case b of (bound, value) \<Rightarrow>
     dict_set path (dict_set bound (value, rank, tier)
       (case map_of leaves path of None \<Rightarrow> [] | Some d \<Rightarrow> d)) leaves)"

definition merge_path ::
    "capability_schema \<Rightarrow> nat \<Rightarrow> string \<Rightarrow> path \<times> bounds \<Rightarrow>
     adm_problem list \<times> (path \<times> (string \<times> ranked) list) list \<Rightarrow>
     adm_problem list \<times> (path \<times> (string \<times> ranked) list) list" where
  "merge_path schema rank tier item acc = (case (item, acc) of ((path, said), (problems, leaves)) \<Rightarrow>
     if \<not> is_quantity schema (fst path) (snd path)
     then (problems @ [not_a_quantity (dotted (fst path) (snd path)) tier []], leaves)
     else (problems, fold (set_bound path rank tier) said leaves))"

definition merge_declaration ::
    "capability_schema \<Rightarrow> nat \<times> tier_declaration \<Rightarrow>
     adm_problem list \<times> (path \<times> (string \<times> ranked) list) list \<Rightarrow>
     adm_problem list \<times> (path \<times> (string \<times> ranked) list) list" where
  "merge_declaration schema ranked acc = (case ranked of (rank, d) \<Rightarrow>
     fold (merge_path schema rank (d_tier d)) (d_bounds d) acc)"

definition resolve_leaf ::
    "path \<times> (string \<times> ranked) list \<Rightarrow> adm_problem list \<times> (path \<times> leaf) list \<Rightarrow> adm_problem list \<times> (path \<times> leaf) list" where
  "resolve_leaf item acc = (case (item, acc) of ((path, ranked_bounds), (problems, resolved)) \<Rightarrow>
     (let low = map_of ranked_bounds MIN_KEY; high = map_of ranked_bounds MAX_KEY;
          leaf = \<lparr>minimum = map_option fst low, minimum_tier = map_option (snd \<circ> snd) low,
                  maximum = map_option fst high, maximum_tier = map_option (snd \<circ> snd) high\<rparr> in
      case (low, high) of
        (Some (l, lrank, ltier), Some (h, hrank, htier)) \<Rightarrow>
          if h < l then
            (problems @ [\<lparr>ap_paths = [PathText (dotted (fst path) (snd path))], ap_code = EMPTY_RANGE,
               ap_message = MsgMinAboveMax l ltier h htier,
               ap_tier = Some (if lrank < hrank then ltier else htier), ap_entries = [],
               ap_bounds = [\<lparr>tb_tier = ltier, tb_bound = MIN_KEY, tb_value = l\<rparr>,
                            \<lparr>tb_tier = htier, tb_bound = MAX_KEY, tb_value = h\<rparr>]\<rparr>], resolved)
          else (problems, dict_set path leaf resolved)
      | _ \<Rightarrow> (problems, dict_set path leaf resolved)))"

definition resolve :: "tier_declaration list \<Rightarrow> capability_schema \<Rightarrow> adm_problem list \<times> resolved_policy option" where
  "resolve declarations schema =
     (let (problems, leaves) = fold (merge_declaration schema) (rev (enumerate 0 declarations)) ([], []);
          (problems', resolved) = fold resolve_leaf leaves (problems, []) in
      if problems' \<noteq> [] then (problems', None)
      else ([], Some \<lparr>rp_schema = schema, rp_leaves = resolved\<rparr>))"

section \<open>Sets of admissible values\<close>

text \<open>What every answer satisfies: its range is positive and not empty unless it is the empty set.\<close>

definition av_ok :: "admissible_set \<Rightarrow> bool" where
  "av_ok s = (case av_low s of None \<Rightarrow> True
     | Some l \<Rightarrow> 0 < l \<and> (case av_high s of None \<Rightarrow> True | Some h \<Rightarrow> l \<le> h))"

lemma contains_iff:
  assumes "av_ok s" "av_low s = Some l"
  shows "contains s (PInt n) \<longleftrightarrow> l \<le> n \<and> (\<forall>h. av_high s = Some h \<longrightarrow> n \<le> h)"
  using assms by (auto simp: contains_def av_ok_def split: option.splits)

lemma contains_empty: "av_low s = None \<Longrightarrow> \<not> contains s v"
  by (simp add: contains_def)

lemma contains_intD: "contains s v \<Longrightarrow> \<exists>n. v = PInt n \<and> 0 < n"
  by (auto simp: contains_def split: option.splits pyval.splits)

lemma at_most_greatest:
  assumes "av_ok s" "threshold value = Return q"
  shows "\<exists>r. at_most s value = Return r \<and>
     (case r of
        None \<Rightarrow> \<forall>n. contains s (PInt n) \<longrightarrow> q < of_int n
      | Some m \<Rightarrow> contains s (PInt m) \<and> of_int m \<le> q \<and>
          (\<forall>n. contains s (PInt n) \<and> of_int n \<le> q \<longrightarrow> n \<le> m))"
proof (cases "av_low s")
  case None
  with assms(2) show ?thesis by (simp add: at_most_def contains_empty)
next
  case (Some l)
  note mem = contains_iff [OF assms(1) Some]
  show ?thesis
  proof (cases "\<lfloor>q\<rfloor> < l")
    case True
    then have "q < of_int n" if "l \<le> n" for n using that by linarith
    with True Some assms(2) mem show ?thesis by (simp add: at_most_def)
  next
    case False
    have le: "of_int n \<le> q \<longleftrightarrow> n \<le> \<lfloor>q\<rfloor>" for n by (simp add: le_floor_iff)
    show ?thesis
    proof (cases "av_high s")
      case None
      with False Some assms(2) mem le show ?thesis by (simp add: at_most_def)
    next
      case (Some h)
      with assms(1) \<open>av_low s = Some l\<close> have "l \<le> h" by (simp add: av_ok_def)
      with False Some \<open>av_low s = Some l\<close> assms(2) mem le show ?thesis by (simp add: at_most_def)
    qed
  qed
qed

lemma at_least_least:
  assumes "av_ok s" "threshold value = Return q"
  shows "\<exists>r. at_least s value = Return r \<and>
     (case r of
        None \<Rightarrow> \<forall>n. contains s (PInt n) \<longrightarrow> of_int n < q
      | Some m \<Rightarrow> contains s (PInt m) \<and> q \<le> of_int m \<and>
          (\<forall>n. contains s (PInt n) \<and> q \<le> of_int n \<longrightarrow> m \<le> n))"
proof (cases "av_low s")
  case None
  with assms(2) show ?thesis by (simp add: at_least_def contains_empty)
next
  case (Some l)
  note mem = contains_iff [OF assms(1) Some]
  have ge: "q \<le> of_int n \<longleftrightarrow> \<lceil>q\<rceil> \<le> n" for n by (simp add: ceiling_le_iff)
  then have lt: "of_int n < q \<longleftrightarrow> n < \<lceil>q\<rceil>" for n by (meson not_le)
  show ?thesis
  proof (cases "av_high s")
    case None
    with Some assms(2) mem ge show ?thesis by (simp add: at_least_def)
  next
    case (Some h)
    with assms(1) \<open>av_low s = Some l\<close> have "l \<le> h" by (simp add: av_ok_def)
    with Some \<open>av_low s = Some l\<close> assms(2) mem ge lt show ?thesis by (auto simp: at_least_def Let_def)
  qed
qed

section \<open>Constraint mappings\<close>

text \<open>The reference reading of a clean constraint mapping.\<close>

definition clean_constraint :: "(pyval \<times> pyval) list \<Rightarrow> string list \<Rightarrow> bool" where
  "clean_constraint mapping allowed = (mapping \<noteq> [] \<and>
     (\<forall>(k, v) \<in> set mapping. \<exists>key \<in> set allowed. k = PStr key) \<and>
     (\<forall>key v. map_of mapping (PStr key) = Some v \<longrightarrow> is_pos_int v) \<and>
     (\<forall>l h. map_of mapping (PStr MIN_KEY) = Some (PInt l) \<longrightarrow> map_of mapping (PStr MAX_KEY) = Some (PInt h) \<longrightarrow> l \<le> h) \<and>
     (\<forall>off l. map_of mapping (PStr OFFER) = Some (PInt off) \<longrightarrow> map_of mapping (PStr MIN_KEY) = Some (PInt l) \<longrightarrow> l \<le> off) \<and>
     (\<forall>off h. map_of mapping (PStr OFFER) = Some (PInt off) \<longrightarrow> map_of mapping (PStr MAX_KEY) = Some (PInt h) \<longrightarrow> off \<le> h))"

lemma keys_distinct [simp]:
  "OFFER \<noteq> MIN_KEY" "OFFER \<noteq> MAX_KEY" "MIN_KEY \<noteq> MAX_KEY"
  "MIN_KEY \<noteq> OFFER" "MAX_KEY \<noteq> OFFER" "MAX_KEY \<noteq> MIN_KEY"
  by (simp_all add: OFFER_def MIN_KEY_def MAX_KEY_def)

lemma readable_constraint_Some:
  "readable_constraint mapping key = Some n \<longleftrightarrow> map_of mapping (PStr key) = Some (PInt n) \<and> 0 < n"
  by (auto simp: readable_constraint_def split: option.splits pyval.splits)

lemma readable_clean:
  assumes "\<And>v. map_of mapping (PStr key) = Some v \<Longrightarrow> is_pos_int v"
  shows "readable_constraint mapping key =
    (case map_of mapping (PStr key) of Some (PInt n) \<Rightarrow> Some n | _ \<Rightarrow> None)"
  using assms by (fastforce simp: readable_constraint_def split: option.splits pyval.splits)

text \<open>The parts of \<open>_constraint_problems\<close>, each empty exactly when its condition holds.\<close>

lemma unknown_keys_Nil:
  "sort (map (\<lambda>(k, v). py_repr frepr k) (filter (\<lambda>(k, v). k \<notin> PStr ` set LISTING_KEYS) mapping)) = [] \<longleftrightarrow>
     (\<forall>(k, v) \<in> set mapping. k \<in> PStr ` set LISTING_KEYS)"
proof -
  have "sort xs = [] \<longleftrightarrow> xs = []" for xs :: "string list" by (metis length_0_conv length_sort)
  then show ?thesis by (auto simp: filter_empty_conv)
qed

lemma invalid_values_Nil:
  "concat (map (\<lambda>key. case map_of mapping (PStr key) of
      None \<Rightarrow> [] | Some v \<Rightarrow> if is_pos_int v then [] else [P key v]) allowed) = [] \<longleftrightarrow>
   (\<forall>key \<in> set allowed. \<forall>v. map_of mapping (PStr key) = Some v \<longrightarrow> is_pos_int v)"
  by (auto split: option.splits)

lemma constraint_problems_Nil_aux:
  "constraint_problems frepr path mapping allowed tier entries = [] \<longleftrightarrow>
     mapping \<noteq> [] \<and>
     (\<forall>(k, v) \<in> set mapping. k \<in> PStr ` set LISTING_KEYS) \<and>
     (stated mapping OFFER \<longrightarrow> OFFER \<in> set allowed) \<and>
     (\<forall>key \<in> set allowed. \<forall>v. map_of mapping (PStr key) = Some v \<longrightarrow> is_pos_int v) \<and>
     (let readable = (\<lambda>key. if key \<in> set allowed then readable_constraint mapping key else None) in
      (\<forall>l h. readable MIN_KEY = Some l \<longrightarrow> readable MAX_KEY = Some h \<longrightarrow> l \<le> h) \<and>
      (\<forall>off l. readable OFFER = Some off \<longrightarrow> readable MIN_KEY = Some l \<longrightarrow> l \<le> off) \<and>
      (\<forall>off h. readable OFFER = Some off \<longrightarrow> readable MAX_KEY = Some h \<longrightarrow> off \<le> h))"
proof -
  have range: "(if (case (low, high) of (Some l, Some h) \<Rightarrow> h < l | _ \<Rightarrow> False) then [a]
       else (case offer of None \<Rightarrow> []
         | Some off \<Rightarrow> if (case low of Some l \<Rightarrow> off < l | None \<Rightarrow> False) \<or> (case high of Some h \<Rightarrow> h < off | None \<Rightarrow> False)
             then [b off] else [])) = [] \<longleftrightarrow>
     (\<forall>l h. low = Some l \<longrightarrow> high = Some h \<longrightarrow> l \<le> h) \<and>
     (\<forall>off l. offer = Some off \<longrightarrow> low = Some l \<longrightarrow> l \<le> off) \<and>
     (\<forall>off h. offer = Some off \<longrightarrow> high = Some h \<longrightarrow> off \<le> h)"
    for low high offer :: "int option" and a :: adm_problem and b
    by (cases low; cases high; cases offer) auto
  show ?thesis
    unfolding constraint_problems_def Let_def
    by (simp only: append_is_Nil_conv range invalid_values_Nil unknown_keys_Nil if_not_P split: if_split) auto
qed

lemma constraint_problems_clean:
  assumes "allowed = LISTING_KEYS \<or> allowed = DECLARATION_KEYS"
  shows "constraint_problems frepr path mapping allowed tier entries = [] \<longleftrightarrow> clean_constraint mapping allowed"
proof -
  have keys: "set LISTING_KEYS = {OFFER, MIN_KEY, MAX_KEY}" "set DECLARATION_KEYS = {MIN_KEY, MAX_KEY}"
    by (auto simp: LISTING_KEYS_def DECLARATION_KEYS_def)
  have sub: "set allowed \<subseteq> set LISTING_KEYS" "MIN_KEY \<in> set allowed" "MAX_KEY \<in> set allowed"
    using assms keys by auto
  have known: "(\<forall>(k, v) \<in> set mapping. k \<in> PStr ` set LISTING_KEYS) \<and> (stated mapping OFFER \<longrightarrow> OFFER \<in> set allowed) \<longleftrightarrow>
      (\<forall>(k, v) \<in> set mapping. \<exists>key \<in> set allowed. k = PStr key)" (is "?A = ?B")
  proof
    assume A: ?A
    show ?B
    proof safe
      fix k v assume "(k, v) \<in> set mapping"
      with A obtain key where key: "k = PStr key" "key \<in> set LISTING_KEYS" by blast
      with \<open>(k, v) \<in> set mapping\<close> have "stated mapping key" by (auto simp: stated_def has_key_iff intro: rev_image_eqI)
      with A key keys sub show "\<exists>key \<in> set allowed. k = PStr key" by auto
    qed
  next
    assume B: ?B
    then have "OFFER \<in> set allowed" if "stated mapping OFFER"
      using that by (auto simp: stated_def has_key_iff)
    with B sub show ?A by fastforce
  qed
  let ?P = "\<forall>key \<in> set allowed. \<forall>v. map_of mapping (PStr key) = Some v \<longrightarrow> is_pos_int v"
  let ?P' = "\<forall>key v. map_of mapping (PStr key) = Some v \<longrightarrow> is_pos_int v"
  let ?r = "\<lambda>key. if key \<in> set allowed then readable_constraint mapping key else None"
  have mem: "key \<in> set allowed" if "?B" "map_of mapping (PStr key) = Some v" for key v
    using that(1) map_of_SomeD [OF that(2)] by fastforce
  have pos: "?P \<longleftrightarrow> ?P'" if "?B" using mem [OF that] by blast
  have r: "?r key = Some n \<longleftrightarrow> map_of mapping (PStr key) = Some (PInt n)" if "?B" "?P" for key n
  proof -
    have "0 < n" if "map_of mapping (PStr key) = Some (PInt n)"
      using that \<open>?P\<close> mem [OF \<open>?B\<close> that] by fastforce
    then show ?thesis using mem [OF \<open>?B\<close>, of key "PInt n"] readable_constraint_Some [of mapping key n] by auto
  qed
  show ?thesis
  proof (cases "?B \<and> ?P")
    case True
    then have "constraint_problems frepr path mapping allowed tier entries = [] \<longleftrightarrow> mapping \<noteq> [] \<and>
      (\<forall>l h. ?r MIN_KEY = Some l \<longrightarrow> ?r MAX_KEY = Some h \<longrightarrow> l \<le> h) \<and>
      (\<forall>off l. ?r OFFER = Some off \<longrightarrow> ?r MIN_KEY = Some l \<longrightarrow> l \<le> off) \<and>
      (\<forall>off h. ?r OFFER = Some off \<longrightarrow> ?r MAX_KEY = Some h \<longrightarrow> off \<le> h)"
      unfolding constraint_problems_Nil_aux Let_def using known by blast
    also have "\<dots> \<longleftrightarrow> clean_constraint mapping allowed"
      unfolding clean_constraint_def r [OF conjunct1 [OF True] conjunct2 [OF True]]
      using True pos by blast
    finally show ?thesis .
  next
    case False
    then show ?thesis
      unfolding constraint_problems_Nil_aux clean_constraint_def Let_def using known pos by blast
  qed
qed

section \<open>Resolving tiers\<close>

lemma fold_keeps: "P a \<Longrightarrow> (\<And>x a. x \<in> set xs \<Longrightarrow> P a \<Longrightarrow> P (f x a)) \<Longrightarrow> P (fold f xs a)"
  by (induction xs arbitrary: a) auto

definition bounds_ok :: "bounds \<Rightarrow> bool" where
  "bounds_ok bs = (dict_ok bs \<and> (\<forall>(k, n) \<in> set bs. 0 < n))"

text \<open>What a declaration built by this module satisfies.\<close>

definition decl_ok :: "tier_declaration \<Rightarrow> bool" where
  "decl_ok d = (dict_ok (d_bounds d) \<and> (\<forall>(p, bs) \<in> set (d_bounds d). bounds_ok bs))"

definition bound_in :: "tier_declaration \<Rightarrow> path \<Rightarrow> string \<Rightarrow> int option" where
  "bound_in d p b = (case map_of (d_bounds d) p of None \<Rightarrow> None | Some bs \<Rightarrow> map_of bs b)"

text \<open>The reference reading of a merge: the first declaration, highest tier first, that states
  the bound, with its label.\<close>

fun first_stated :: "tier_declaration list \<Rightarrow> path \<Rightarrow> string \<Rightarrow> (int \<times> string) option" where
  "first_stated [] p b = None"
| "first_stated (d # ds) p b = (case bound_in d p b of
     Some n \<Rightarrow> Some (n, d_tier d) | None \<Rightarrow> first_stated ds p b)"

definition leaf_bound :: "(path \<times> (string \<times> ranked) list) list \<Rightarrow> path \<Rightarrow> string \<Rightarrow> ranked option" where
  "leaf_bound leaves p b = (case map_of leaves p of None \<Rightarrow> None | Some d \<Rightarrow> map_of d b)"

lemma leaf_bound_Nil [simp]: "leaf_bound [] p b = None"
  by (simp add: leaf_bound_def)

lemma leaf_bound_set:
  "leaf_bound (set_bound p r t (b, v) leaves) p' b' =
     (if p' = p \<and> b' = b then Some (v, r, t) else leaf_bound leaves p' b')"
  by (cases "map_of leaves p") (auto simp: leaf_bound_def set_bound_def)

lemma leaf_bound_fold_set:
  "dict_ok said \<Longrightarrow> leaf_bound (fold (set_bound p r t) said leaves) p' b' =
     (case (if p' = p then map_of said b' else None) of
        Some v \<Rightarrow> Some (v, r, t) | None \<Rightarrow> leaf_bound leaves p' b')"
proof (induction said arbitrary: leaves)
  case (Cons x said)
  obtain b v where x: "x = (b, v)" by (cases x)
  with Cons.prems have "map_of said b = None" by (simp add: map_of_eq_None_iff)
  with Cons x show ?case by (auto simp: leaf_bound_set split: option.split)
qed simp

lemma dict_ok_fold_set: "dict_ok leaves \<Longrightarrow> dict_ok (fold (set_bound p r t) said leaves)"
  by (induction said arbitrary: leaves) (auto simp: set_bound_def)

lemma merge_path_simp:
  "merge_path schema r t (p, said) (ps, leaves) =
     (if is_quantity schema (fst p) (snd p) then (ps, fold (set_bound p r t) said leaves)
      else (ps @ [not_a_quantity (dotted (fst p) (snd p)) t []], leaves))"
  by (simp add: merge_path_def)

definition all_quantities :: "capability_schema \<Rightarrow> (path \<times> bounds) list \<Rightarrow> bool" where
  "all_quantities schema bs = (\<forall>(p, said) \<in> set bs. is_quantity schema (fst p) (snd p))"

lemma fold_merge_path:
  assumes "dict_ok bs" "\<forall>(p, said) \<in> set bs. dict_ok said" "dict_ok leaves"
  shows "(fst (fold (merge_path schema r t) bs (ps, leaves)) = [] \<longleftrightarrow> ps = [] \<and> all_quantities schema bs) \<and>
    dict_ok (snd (fold (merge_path schema r t) bs (ps, leaves))) \<and>
    (all_quantities schema bs \<longrightarrow>
      leaf_bound (snd (fold (merge_path schema r t) bs (ps, leaves))) p' b' =
      (case (case map_of bs p' of None \<Rightarrow> None | Some said \<Rightarrow> map_of said b') of
         Some v \<Rightarrow> Some (v, r, t) | None \<Rightarrow> leaf_bound leaves p' b'))"
  using assms
proof (induction bs arbitrary: ps leaves)
  case (Cons x bs)
  obtain p said where x: "x = (p, said)" by (cases x)
  with Cons.prems have said: "dict_ok said" and absent: "map_of bs p = None"
    by (auto simp: map_of_eq_None_iff)
  have prems: "dict_ok bs" "\<forall>(p, said) \<in> set bs. dict_ok said" using Cons.prems by auto
  show ?case
  proof (cases "is_quantity schema (fst p) (snd p)")
    case True
    have "dict_ok (fold (set_bound p r t) said leaves)" using Cons.prems(3) by (rule dict_ok_fold_set)
    from Cons.IH [OF prems this, of ps] True x absent show ?thesis
      by (auto simp: merge_path_simp all_quantities_def leaf_bound_fold_set [OF said] split: option.split)
  next
    case False
    from Cons.IH [OF prems Cons.prems(3), of "ps @ [not_a_quantity (dotted (fst p) (snd p)) t []]"] False x
    show ?thesis by (auto simp: merge_path_simp all_quantities_def)
  qed
qed (simp add: all_quantities_def)

lemma fold_merge_declarations:
  assumes "\<forall>d \<in> set ds. decl_ok d"
  shows "(fst (fold (merge_declaration schema) (rev (enumerate n ds)) ([], [])) = [] \<longleftrightarrow>
      (\<forall>d \<in> set ds. all_quantities schema (d_bounds d))) \<and>
    dict_ok (snd (fold (merge_declaration schema) (rev (enumerate n ds)) ([], []))) \<and>
    ((\<forall>d \<in> set ds. all_quantities schema (d_bounds d)) \<longrightarrow>
      map_option (\<lambda>(v, r, t). (v, t)) (leaf_bound (snd (fold (merge_declaration schema) (rev (enumerate n ds)) ([], []))) p b)
      = first_stated ds p b)"
  using assms
proof (induction ds arbitrary: n)
  case (Cons d ds)
  obtain ps leaves where acc: "fold (merge_declaration schema) (rev (enumerate (Suc n) ds)) ([], []) = (ps, leaves)"
    by fastforce
  have d: "dict_ok (d_bounds d)" "\<forall>(p, said) \<in> set (d_bounds d). dict_ok said"
    using Cons.prems by (auto simp: decl_ok_def bounds_ok_def)
  have IH: "ps = [] \<longleftrightarrow> (\<forall>d \<in> set ds. all_quantities schema (d_bounds d))" "dict_ok leaves"
    "(\<forall>d \<in> set ds. all_quantities schema (d_bounds d)) \<longrightarrow>
       map_option (\<lambda>(v, r, t). (v, t)) (leaf_bound leaves p b) = first_stated ds p b"
    using Cons.IH [of "Suc n"] Cons.prems acc by simp_all
  have step: "fold (merge_declaration schema) (rev (enumerate n (d # ds))) ([], []) =
      fold (merge_path schema n (d_tier d)) (d_bounds d) (ps, leaves)"
    by (simp add: acc merge_declaration_def)
  from fold_merge_path [OF d IH(2), of schema n "d_tier d" ps p b] IH show ?case
    unfolding step bound_in_def by (auto simp: bound_in_def split: option.split)
qed simp

text \<open>The second pass: a merged path yields its leaf, or an empty range.\<close>

definition empty_range :: "(string \<times> ranked) list \<Rightarrow> bool" where
  "empty_range rb = (case (map_of rb MIN_KEY, map_of rb MAX_KEY) of
     (Some (l, _), Some (h, _)) \<Rightarrow> h < l | _ \<Rightarrow> False)"

definition leaf_of :: "(string \<times> ranked) list \<Rightarrow> leaf" where
  "leaf_of rb = \<lparr>minimum = map_option fst (map_of rb MIN_KEY), minimum_tier = map_option (snd \<circ> snd) (map_of rb MIN_KEY),
     maximum = map_option fst (map_of rb MAX_KEY), maximum_tier = map_option (snd \<circ> snd) (map_of rb MAX_KEY)\<rparr>"

lemma resolve_leaf_simp:
  "\<not> empty_range rb \<Longrightarrow> resolve_leaf (p, rb) (ps, resolved) = (ps, dict_set p (leaf_of rb) resolved)"
  "empty_range rb \<Longrightarrow> \<exists>x. resolve_leaf (p, rb) (ps, resolved) = (ps @ [x], resolved)"
  by (auto simp: resolve_leaf_def empty_range_def leaf_of_def Let_def split: option.splits)

lemma fold_resolve_leaf_clean:
  "\<forall>(p, rb) \<in> set leaves. \<not> empty_range rb \<Longrightarrow>
   fold resolve_leaf leaves (ps, resolved) =
     (ps, fold (\<lambda>(k, v). dict_set k v) (map (\<lambda>(p, rb). (p, leaf_of rb)) leaves) resolved)"
proof (induction leaves arbitrary: resolved)
  case (Cons x leaves)
  then show ?case by (cases x) (simp add: resolve_leaf_simp(1))
qed simp

lemma fold_resolve_leaf_problems:
  "fst (fold resolve_leaf leaves (ps, resolved)) = [] \<longleftrightarrow> ps = [] \<and> (\<forall>(p, rb) \<in> set leaves. \<not> empty_range rb)"
proof (induction leaves arbitrary: ps resolved)
  case (Cons x leaves)
  obtain p rb where x: "x = (p, rb)" by (cases x)
  show ?case
  proof (cases "empty_range rb")
    case True
    then obtain y where "resolve_leaf (p, rb) (ps, resolved) = (ps @ [y], resolved)"
      using resolve_leaf_simp(2) by blast
    with Cons.IH [of "ps @ [y]" resolved] True x show ?thesis by simp
  next
    case False
    with Cons.IH x show ?thesis by (simp add: resolve_leaf_simp(1))
  qed
qed simp

definition policy_leaf :: "resolved_policy \<Rightarrow> path \<Rightarrow> leaf" where
  "policy_leaf policy p = (case map_of (rp_leaves policy) p of None \<Rightarrow> no_leaf | Some l \<Rightarrow> l)"

definition mergeable :: "tier_declaration list \<Rightarrow> capability_schema \<Rightarrow> bool" where
  "mergeable ds schema = ((\<forall>d \<in> set ds. all_quantities schema (d_bounds d)) \<and>
     (\<forall>p l h. map_option fst (first_stated ds p MIN_KEY) = Some l \<longrightarrow>
        map_option fst (first_stated ds p MAX_KEY) = Some h \<longrightarrow> l \<le> h))"

lemma merged_nonempty: "\<forall>x \<in> set (snd (fold (merge_declaration schema) xs ([], []))). snd x \<noteq> []"
proof -
  have set_bound: "\<forall>x \<in> set (set_bound p r t b leaves). snd x \<noteq> []" if "\<forall>x \<in> set leaves. snd x \<noteq> []"
    for p r t b and leaves :: "(path \<times> (string \<times> ranked) list) list"
  proof -
    obtain k v where b: "b = (k, v)" by (cases b)
    define w where "w = dict_set k (v, r, t) (case map_of leaves p of None \<Rightarrow> [] | Some d \<Rightarrow> d)"
    have "w \<noteq> []" by (simp add: w_def)
    with set_dict_set [of p w leaves] that show ?thesis by (auto simp: set_bound_def b w_def [symmetric])
  qed
  have step: "\<forall>x \<in> set (snd (merge_path schema r t item acc)). snd x \<noteq> []" if "\<forall>x \<in> set (snd acc). snd x \<noteq> []" for r t item acc
  proof -
    obtain p said ps leaves where eq: "item = (p, said)" "acc = (ps, leaves)" by (metis prod.collapse)
    have "\<forall>x \<in> set (fold (set_bound p r t) said leaves). snd x \<noteq> []"
      by (rule fold_keeps [where P = "\<lambda>l. \<forall>x \<in> set l. snd x \<noteq> []"]) (use that eq set_bound in auto)
    with that eq show ?thesis by (simp add: merge_path_simp)
  qed
  have "\<forall>x \<in> set (snd (merge_declaration schema rd acc)). snd x \<noteq> []" if "\<forall>x \<in> set (snd acc). snd x \<noteq> []" for rd acc
    unfolding merge_declaration_def split_beta
    by (rule fold_keeps [where P = "\<lambda>acc. \<forall>x \<in> set (snd acc). snd x \<noteq> []", OF that]) (rule step)
  then show ?thesis
    by (intro fold_keeps [where P = "\<lambda>acc. \<forall>x \<in> set (snd acc). snd x \<noteq> []"]) auto
qed

lemma resolve_cases:
  assumes ok: "\<forall>d \<in> set ds. decl_ok d"
  shows "if mergeable ds schema
     then \<exists>leaves. resolve ds schema = ([], Some \<lparr>rp_schema = schema, rp_leaves = map (\<lambda>(p, rb). (p, leaf_of rb)) leaves\<rparr>) \<and>
        dict_ok leaves \<and> (\<forall>x \<in> set leaves. snd x \<noteq> []) \<and> (\<forall>p b. map_option (\<lambda>(v, r, t). (v, t)) (leaf_bound leaves p b) = first_stated ds p b)
     else \<exists>ps. resolve ds schema = (ps, None) \<and> ps \<noteq> []"
proof -
  obtain ps leaves where acc: "fold (merge_declaration schema) (rev (enumerate 0 ds)) ([], []) = (ps, leaves)"
    by fastforce
  note m = fold_merge_declarations [OF ok, of schema 0, unfolded acc fst_conv snd_conv]
  have dk: "dict_ok leaves" using m by blast
  have ne: "\<forall>x \<in> set leaves. snd x \<noteq> []" using merged_nonempty [of schema "rev (enumerate 0 ds)"] acc by simp
  have er: "empty_range rb \<longleftrightarrow> (\<exists>l h. map_option fst (first_stated ds p MIN_KEY) = Some l \<and>
      map_option fst (first_stated ds p MAX_KEY) = Some h \<and> h < l)"
    if "(p, rb) \<in> set leaves" "ps = []" for p rb
  proof -
    have "map_of leaves p = Some rb" using dk that(1) by simp
    then have "leaf_bound leaves p b = map_of rb b" for b by (simp add: leaf_bound_def)
    with m that(2) have eq: "first_stated ds p b = map_option (\<lambda>(v, r, t). (v, t)) (map_of rb b)" for b by metis
    show ?thesis unfolding eq empty_range_def by (auto split: option.splits)
  qed
  have none: "first_stated ds p b = None" if "ps = []" "map_of leaves p = None" for p b
  proof -
    have "leaf_bound leaves p b = None" using that(2) by (simp add: leaf_bound_def)
    with m that(1) show ?thesis by (metis option.map_disc_iff)
  qed
  have "mergeable ds schema \<longleftrightarrow> ps = [] \<and> (\<forall>(p, rb) \<in> set leaves. \<not> empty_range rb)"
  proof (cases "ps = []")
    case True
    have "(\<forall>(p, rb) \<in> set leaves. \<not> empty_range rb) \<longleftrightarrow>
       (\<forall>p l h. map_option fst (first_stated ds p MIN_KEY) = Some l \<longrightarrow>
          map_option fst (first_stated ds p MAX_KEY) = Some h \<longrightarrow> l \<le> h)" (is "?L = ?R")
    proof
      assume L: ?L
      show ?R
      proof (intro allI impI)
        fix p l h assume a: "map_option fst (first_stated ds p MIN_KEY) = Some l"
          "map_option fst (first_stated ds p MAX_KEY) = Some h"
        then obtain rb where "map_of leaves p = Some rb" using none [OF True, of p] by fastforce
        then have "(p, rb) \<in> set leaves" by (rule map_of_SomeD)
        with L er [OF this True] a show "l \<le> h" by fastforce
      qed
    next
      assume R: ?R
      show ?L
      proof safe
        fix p rb assume pr: "(p, rb) \<in> set leaves" "empty_range rb"
        with er [OF pr(1) True] R show False by fastforce
      qed
    qed
    with True m show ?thesis unfolding mergeable_def by blast
  next
    case False
    with m show ?thesis unfolding mergeable_def by blast
  qed
  moreover have "dict_ok (map (\<lambda>(p, rb). (p, leaf_of rb)) leaves)"
    using dk by (simp add: comp_def split_beta)
  ultimately show ?thesis
    using fold_resolve_leaf_clean [of leaves ps "[]"] fold_resolve_leaf_problems [of leaves ps "[]"] m dk ne
      fold_dict_set_append [of "[]" "map (\<lambda>(p, rb). (p, leaf_of rb)) leaves"]
    by (auto simp: resolve_def acc Let_def mergeable_def split: prod.split)
qed

section \<open>Judging shapes\<close>

definition leaf_ok :: "leaf \<Rightarrow> bool" where
  "leaf_ok l = ((\<forall>m. minimum l = Some m \<longrightarrow> 0 < m) \<and> (\<forall>m. maximum l = Some m \<longrightarrow> 0 < m) \<and>
     (\<forall>a b. minimum l = Some a \<longrightarrow> maximum l = Some b \<longrightarrow> a \<le> b))"

text \<open>What \<open>resolve\<close> guarantees of a policy.\<close>

definition policy_ok :: "resolved_policy \<Rightarrow> bool" where
  "policy_ok policy = (schema_ok (rp_schema policy) \<and>
     (\<forall>(p, l) \<in> set (rp_leaves policy). is_quantity (rp_schema policy) (fst p) (snd p) \<and> leaf_ok l))"

definition in_leaf :: "leaf \<Rightarrow> int \<Rightarrow> bool" where
  "in_leaf l n = ((\<forall>m. minimum l = Some m \<longrightarrow> m \<le> n) \<and> (\<forall>m. maximum l = Some m \<longrightarrow> n \<le> m))"

definition in_policy :: "resolved_policy \<Rightarrow> (path \<Rightarrow> pyval option) \<Rightarrow> bool" where
  "in_policy policy m = (\<forall>p l n. map_of (rp_leaves policy) p = Some l \<longrightarrow> m p = Some (PInt n) \<longrightarrow> in_leaf l n)"

lemma leaf_violations_Nil: "leaf_violations l path v = [] \<longleftrightarrow> (\<forall>n. v = PInt n \<longrightarrow> in_leaf l n)"
  by (auto simp: leaf_violations_def in_leaf_def split: pyval.splits option.splits)

lemma violations_Nil:
  assumes "fams_ok (shape_families shape)"
  shows "violations policy shape = [] \<longleftrightarrow> in_policy policy (shape_map (shape_families shape))"
proof -
  have "violations policy shape = [] \<longleftrightarrow> (\<forall>(a, fs) \<in> set (shape_families shape). \<forall>(b, v) \<in> set fs.
      \<forall>l. map_of (rp_leaves policy) (a, b) = Some l \<longrightarrow> leaf_violations l (dotted a b) v = [])"
    by (fastforce simp: violations_def split: option.splits)
  also have "\<dots> \<longleftrightarrow> (\<forall>a b v l. shape_map (shape_families shape) (a, b) = Some v \<longrightarrow>
      map_of (rp_leaves policy) (a, b) = Some l \<longrightarrow> (\<forall>n. v = PInt n \<longrightarrow> in_leaf l n))"
    unfolding shape_map_iff [OF assms] leaf_violations_Nil by fastforce
  also have "\<dots> \<longleftrightarrow> in_policy policy (shape_map (shape_families shape))"
    unfolding in_policy_def by auto
  finally show ?thesis .
qed

lemma open_schema_lookup:
  "schema_lookup (open_schema s) a b = map_option (\<lambda>f. f\<lparr>sf_required := False\<rparr>) (schema_lookup s a b)"
proof -
  have "find (\<lambda>c. sf_family c = a \<and> sf_field c = b) (map (\<lambda>f. f\<lparr>sf_required := False\<rparr>) fs) =
      map_option (\<lambda>f. f\<lparr>sf_required := False\<rparr>) (find (\<lambda>c. sf_family c = a \<and> sf_field c = b) fs)" for fs
    by (induction fs) auto
  then show ?thesis by (simp add: schema_lookup_def open_schema_def)
qed

lemma open_schema_ok: "schema_ok s \<Longrightarrow> schema_ok (open_schema s)"
  by (auto simp: schema_ok_iff open_schema_def comp_def sf_path_def [abs_def])

lemma open_content_ok:
  "content_ok (open_schema s) m \<longleftrightarrow> m \<noteq> Map.empty \<and>
     (\<forall>a b v. m (a, b) = Some v \<longrightarrow> (\<exists>d. schema_lookup s a b = Some d \<and> value_fits (sf_kind d) v))"
proof -
  have "(\<exists>d. schema_lookup (open_schema s) a b = Some d \<and> value_fits (sf_kind d) v) \<longleftrightarrow>
      (\<exists>d. schema_lookup s a b = Some d \<and> value_fits (sf_kind d) v)" for a b v
    by (cases "schema_lookup s a b") (simp_all add: open_schema_lookup)
  moreover have "\<forall>d \<in> set (schema_fields (open_schema s)). \<not> sf_required d"
    by (auto simp: open_schema_def)
  ultimately show ?thesis unfolding content_ok_def by blast
qed

lemma admissibility_problems_Nil:
  assumes "policy_ok policy" "fams_ok fams"
  shows "admissibility_problems policy (shape_of fams) = [] \<longleftrightarrow>
     content_ok (open_schema (rp_schema policy)) (shape_map fams) \<and> in_policy policy (shape_map fams)"
proof -
  have "schema_ok (open_schema (rp_schema policy))"
    using assms(1) by (simp add: policy_ok_def open_schema_ok)
  note sp = shape_problems_Nil [OF this assms(2)]
  show ?thesis
    using sp violations_Nil [of "shape_of fams" policy] assms(2)
    by (auto simp: admissibility_problems_def Let_def shape_kit_problems_def)
qed

section \<open>Setting and removing one dimension\<close>

text \<open>\<open>partial_shape\<close> with the dimension set to a value.\<close>

definition with_field :: "pyval \<Rightarrow> path \<Rightarrow> pyval \<Rightarrow> pyval" where
  "with_field partial path v = (case partial of
     PDict es \<Rightarrow> PDict (dict_set (PStr (fst path)) (PDict (dict_set (PStr (snd path)) v
        (case map_of es (PStr (fst path)) of Some (PDict fs) \<Rightarrow> fs | _ \<Rightarrow> []))) es)
   | _ \<Rightarrow> partial)"

definition drop_field :: "family_fields \<Rightarrow> path \<Rightarrow> family_fields" where
  "drop_field P path = (case map_of P (fst path) of
     None \<Rightarrow> P
   | Some fs \<Rightarrow>
       if has_key fs (snd path) then
         (let rest = filter (\<lambda>(k, v). k \<noteq> fst path) P; remaining = filter (\<lambda>(k, v). k \<noteq> snd path) fs in
          if remaining \<noteq> [] then rest @ [(fst path, remaining)] else rest)
       else P)"

lemma map_of_PStr: "map_of (map (\<lambda>(n, v). (PStr n, h v)) xs) (PStr a) = map_option h (map_of xs a)"
  by (induction xs) auto

lemma map_of_PStr_id: "map_of (map (\<lambda>(n, v). (PStr n, v)) xs) (PStr a) = map_of xs a"
  using map_of_PStr [of "\<lambda>v. v"] by (simp add: option.map_ident)

lemma dict_set_PStr:
  "dict_set (PStr a) (h w) (map (\<lambda>(n, v). (PStr n, h v)) xs) = map (\<lambda>(n, v). (PStr n, h v)) (dict_set a w xs)"
  by (induction xs) auto

lemma shape_of_alt: "shape_of P = PDict (map (\<lambda>(f, fs). (PStr f, dict_of fs)) P)"
  by (simp add: shape_of_def dict_of_def comp_def split_beta)

lemma with_field_shape_of:
  "with_field (shape_of P) (a, b) v =
     shape_of (dict_set a (dict_set b v (case map_of P a of None \<Rightarrow> [] | Some fs \<Rightarrow> fs)) P)"
proof -
  have "(case map_of (map (\<lambda>(f, fs). (PStr f, dict_of fs)) P) (PStr a) of Some (PDict fs) \<Rightarrow> fs | _ \<Rightarrow> []) =
      map (\<lambda>(n, v). (PStr n, v)) (case map_of P a of None \<Rightarrow> [] | Some fs \<Rightarrow> fs)"
    by (cases "map_of P a") (simp_all add: map_of_PStr dict_of_def)
  then show ?thesis
    by (simp add: with_field_def shape_of_alt dict_set_PStr [of a dict_of, symmetric]
        dict_of_def [of "dict_set b v _"] dict_set_PStr [of b "\<lambda>x. x", symmetric])
qed

lemma has_key_PStr: "has_key (map (\<lambda>(n, v). (PStr n, v)) xs) (PStr a) = has_key xs a"
  by (simp add: has_key_def map_of_PStr_id)

lemma filter_PStr:
  "filter (\<lambda>(k, v). k \<noteq> PStr a) (map (\<lambda>(n, v). (PStr n, h v)) xs) =
     map (\<lambda>(n, v). (PStr n, h v)) (filter (\<lambda>(k, v). k \<noteq> a) xs)"
  by (induction xs) auto

lemma without_field_shape_of: "without_field (shape_of P) (a, b) = shape_of (drop_field P (a, b))"
proof (cases "map_of P a")
  case None
  then show ?thesis by (simp add: without_field_def shape_of_alt map_of_PStr drop_field_def)
next
  case (Some fs)
  let ?rest = "filter (\<lambda>(k, v). k \<noteq> a) P" and ?rem = "filter (\<lambda>(k, v). k \<noteq> b) fs"
  have "PStr a \<notin> fst ` set (map (\<lambda>(f, fs). (PStr f, dict_of fs)) ?rest)" by auto
  from dict_set_absent [OF this] Some show ?thesis
    using filter_PStr [of b "\<lambda>x. x" fs] filter_PStr [of a dict_of P]
    by (simp add: without_field_def shape_of_alt map_of_PStr drop_field_def dict_of_def [of fs]
        has_key_PStr Let_def dict_of_def [of ?rem])
qed

lemma map_of_filter_neq: "map_of (filter (\<lambda>(k, v). k \<noteq> a) P) x = (if x = a then None else map_of P x)"
  by (induction P) auto

lemma shape_map_drop_field: "shape_map (drop_field P (a, b)) = (shape_map P)((a, b) := None)"
proof
  fix k
  show "shape_map (drop_field P (a, b)) k = ((shape_map P)((a, b) := None)) k"
  proof (cases "map_of P a")
    case None
    then show ?thesis by (cases k) (auto simp: drop_field_def shape_map_def)
  next
    case (Some fs)
    let ?rem = "filter (\<lambda>(k, v). k \<noteq> b) fs"
    have "map_of fs (snd k) = None" if "?rem = []" "snd k \<noteq> b"
      using map_of_filter_neq [of b fs "snd k"] that by simp
    with Some show ?thesis
      by (cases k) (auto simp: drop_field_def shape_map_def has_key_def map_of_filter_neq map_add_def
          Let_def split: option.splits)
  qed
qed

lemma dict_ok_filter: "dict_ok d \<Longrightarrow> dict_ok (filter p d)"
  by (rule distinct_map_filter)

lemma fams_ok_drop_field:
  assumes "fams_ok P"
  shows "fams_ok (drop_field P (a, b))"
proof (cases "map_of P a")
  case (Some fs)
  then have "dict_ok fs" using assms map_of_SomeD [OF Some] by (auto simp: fams_ok_def)
  with assms Some show ?thesis
    by (auto simp: drop_field_def fams_ok_def Let_def dict_ok_filter)
qed (use assms in \<open>simp add: drop_field_def\<close>)

text \<open>Python's guarantee of a nested dictionary: distinct keys at both levels.\<close>

definition raw_keys_ok :: "pyval \<Rightarrow> bool" where
  "raw_keys_ok raw = (case raw of
     PDict es \<Rightarrow> dict_ok es \<and> list_all (\<lambda>(k, m). case m of PDict fs \<Rightarrow> dict_ok fs | _ \<Rightarrow> True) es
   | _ \<Rightarrow> True)"

lemma distinct_PStr: "distinct (map (fst \<circ> (\<lambda>(n, v). (PStr n, h v))) xs) = dict_ok xs"
  by (induction xs) (auto simp: image_iff)

lemma raw_keys_ok_shape_of:
  "raw_keys_ok (shape_of P) \<longleftrightarrow> dict_ok P \<and> (\<forall>(f, fs) \<in> set P. dict_ok fs)"
  using distinct_PStr [of dict_of P] distinct_PStr [of "\<lambda>v. v"]
  by (fastforce simp: raw_keys_ok_def shape_of_alt list_all_iff dict_of_def)

text \<open>Once the rest of a partial shape is readable, so is the nesting of the whole.\<close>

lemma shape_of_iff:
  "(\<exists>R. PDict es = shape_of R) \<longleftrightarrow>
     (\<forall>(k, m) \<in> set es. is_str k \<and> (\<exists>fs. m = PDict fs \<and> (\<forall>(g, v) \<in> set fs. is_str g)))" (is "?L \<longleftrightarrow> ?R")
proof
  assume ?L
  then show ?R by (auto simp: shape_of_alt dict_of_def)
next
  assume ?R
  then show ?L
  proof (induction es)
    case Nil
    then show ?case by (auto simp: shape_of_alt intro: exI [of _ "[]"])
  next
    case (Cons x es)
    then obtain R where R: "PDict es = shape_of R" by auto
    from Cons.prems obtain f fs where "x = (PStr f, PDict fs)" "\<forall>(g, v) \<in> set fs. is_str g"
      by (cases x) (auto elim: is_strE)
    then have "PDict (x # es) = shape_of ((f, named_items fs) # R)"
      using R dict_of_named_iff [of fs] by (simp add: shape_of_alt)
    then show ?case by blast
  qed
qed

lemma partial_readable:
  assumes "raw_keys_ok partial" "without_field partial (a, b) = shape_of R"
  shows "\<exists>P. partial = shape_of P"
proof (cases partial)
  case (PDict es)
  show ?thesis
  proof (cases "without_field partial (a, b) = partial")
    case True
    with assms(2) show ?thesis by metis
  next
    case False
    then obtain fs where fs: "map_of es (PStr a) = Some (PDict fs)"
      by (auto simp: without_field_def PDict split: option.splits pyval.splits if_splits)
    let ?rest = "filter (\<lambda>(k, v). k \<noteq> PStr a) es" and ?rem = "filter (\<lambda>(k, v). k \<noteq> PStr b) fs"
    have abs: "PStr a \<notin> fst ` set ?rest" by auto
    from False fs have w: "without_field partial (a, b) = PDict (if ?rem \<noteq> [] then ?rest @ [(PStr a, PDict ?rem)] else ?rest)"
      using dict_set_absent [OF abs] by (auto simp: without_field_def PDict Let_def split: if_splits)
    have str: "\<forall>(k, m) \<in> set (if ?rem \<noteq> [] then ?rest @ [(PStr a, PDict ?rem)] else ?rest).
        is_str k \<and> (\<exists>fs. m = PDict fs \<and> (\<forall>(g, v) \<in> set fs. is_str g))"
      using shape_of_iff [THEN iffD1, OF exI, OF trans [OF w [symmetric] assms(2)]] by simp
    then have rest: "\<forall>(k, m) \<in> set ?rest. is_str k \<and> (\<exists>fs. m = PDict fs \<and> (\<forall>(g, v) \<in> set fs. is_str g))"
      by (auto split: if_splits)
    have rem: "\<forall>(g, v) \<in> set ?rem. is_str g" using str by (cases "?rem = []") auto
    have fs_str: "\<forall>(g, v) \<in> set fs. is_str g" using rem by force
    have "dict_ok es" using assms(1) by (simp add: raw_keys_ok_def PDict)
    have "is_str k \<and> (\<exists>fs. m = PDict fs \<and> (\<forall>(g, v) \<in> set fs. is_str g))" if "(k, m) \<in> set es" for k m
    proof (cases "k = PStr a")
      case True
      with that fs \<open>dict_ok es\<close> have "m = PDict fs" by simp
      with fs_str True show ?thesis by auto
    next
      case False
      with that rest show ?thesis by auto
    qed
    then show ?thesis using shape_of_iff [of es] PDict by blast
  qed
qed (use assms in \<open>auto simp: without_field_def\<close>)

lemma drop_field_keeps_empty:
  assumes "dict_ok P" "(f, []) \<in> set P"
  shows "(f, []) \<in> set (drop_field P (a, b))"
proof (cases "map_of P a")
  case (Some fs)
  then have "fs = []" if "f = a" using map_of_SomeI [OF assms] that by simp
  with Some assms(2) show ?thesis by (auto simp: drop_field_def Let_def has_key_def)
qed (use assms in \<open>simp add: drop_field_def\<close>)

text \<open>A partial shape whose rest is readable is a nesting of non-empty families.\<close>

lemma rest_readable:
  assumes "raw_keys_ok partial"
    and rest: "without_field partial (a, b) = PDict [] \<or> shape_problems (without_field partial (a, b)) schema = []"
  shows "\<exists>P. partial = shape_of P \<and> fams_ok P"
proof -
  have "\<exists>R. without_field partial (a, b) = shape_of R"
  proof (cases "without_field partial (a, b) = PDict []")
    case True
    then show ?thesis by (auto simp: shape_of_alt intro: exI [of _ "[]"])
  next
    case False
    with rest have "shape_structure_problems (without_field partial (a, b)) = []"
      by (blast intro: shape_problems_structure)
    then show ?thesis by (auto simp: structure_ok_iff)
  qed
  then obtain P where P: "partial = shape_of P" using partial_readable [OF assms(1)] by blast
  then have w: "without_field partial (a, b) = shape_of (drop_field P (a, b))"
    by (simp add: without_field_shape_of)
  have keys: "dict_ok P" "\<forall>(f, fs) \<in> set P. dict_ok fs"
    using assms(1) P by (simp_all add: raw_keys_ok_shape_of)
  have "fs \<noteq> []" if "(f, fs) \<in> set P" for f fs
  proof
    assume "fs = []"
    with that keys have "(f, []) \<in> set (drop_field P (a, b))" using drop_field_keeps_empty by blast
    moreover from this have "shape_of (drop_field P (a, b)) \<noteq> PDict []" by (auto simp: shape_of_alt)
    ultimately have "fams_named (drop_field P (a, b))"
      using rest w shape_problems_structure [of "shape_of (drop_field P (a, b))" schema]
      by (simp add: structure_ok_iff)
    with \<open>(f, []) \<in> set (drop_field P (a, b))\<close> show False by (auto simp: fams_named_def)
  qed
  with keys P show ?thesis by (auto simp: fams_ok_def)
qed

lemma is_quantity_lookup:
  "is_quantity s a b \<longleftrightarrow> (\<exists>d. schema_lookup s a b = Some d \<and> sf_kind d = QUANTITY)"
  by (auto simp: is_quantity_def split: option.splits)

lemma quantity_path_Return: "quantity_path policy dimension = Return p \<Longrightarrow> is_quantity (rp_schema policy) (fst p) (snd p)"
  by (cases p) (fastforce simp: quantity_path_def Let_def split: pyval.splits if_splits prod.splits)

text \<open>The answer when the rest of the partial shape is admissible.\<close>

definition leaf_values :: "leaf \<Rightarrow> admissible_set" where
  "leaf_values l = \<lparr>av_low = Some (case minimum l of Some m \<Rightarrow> if m = 0 then 1 else m | None \<Rightarrow> 1), av_high = maximum l\<rparr>"

lemma policy_leaf_ok: "policy_ok policy \<Longrightarrow> leaf_ok (policy_leaf policy p)"
  by (auto simp: policy_leaf_def policy_ok_def leaf_ok_def no_leaf_def split: option.split dest!: map_of_SomeD)

lemma leaf_values_ok: "leaf_ok l \<Longrightarrow> av_ok (leaf_values l)"
  by (auto simp: av_ok_def leaf_values_def leaf_ok_def split: option.splits)

lemma contains_leaf_values:
  assumes "leaf_ok l"
  shows "contains (leaf_values l) v \<longleftrightarrow> (\<exists>n. v = PInt n \<and> 0 < n \<and> in_leaf l n)"
  using assms
  by (auto simp: contains_def leaf_values_def leaf_ok_def in_leaf_def split: pyval.splits option.splits)

lemma admissible_values_Return:
  assumes "admissible_values policy dimension partial = Return vs"
  shows "\<exists>p. quantity_path policy dimension = Return p \<and>
     (without_field partial p = PDict [] \<and> vs = leaf_values (policy_leaf policy p) \<or>
      without_field partial p \<noteq> PDict [] \<and> shape_problems (without_field partial p) (open_schema (rp_schema policy)) = [] \<and>
        vs = (if violations policy (without_field partial p) = [] then leaf_values (policy_leaf policy p)
              else \<lparr>av_low = None, av_high = None\<rparr>))"
  using assms
  by (auto simp: admissible_values_def res_bind_Inr_iff Let_def leaf_values_def policy_leaf_def split: if_splits)

lemma all_upd: "(\<forall>x. Q x ((m(p := w)) x)) \<longleftrightarrow> (\<forall>x. x \<noteq> p \<longrightarrow> Q x (m x)) \<and> Q p w"
  by auto

lemma in_policy_upd:
  fixes m :: "path \<Rightarrow> pyval option"
  assumes "m p = None"
  shows "in_policy policy (m(p \<mapsto> v)) \<longleftrightarrow>
     in_policy policy m \<and> (\<forall>n. v = PInt n \<longrightarrow> in_leaf (policy_leaf policy p) n)"
proof -
  have leaf: "(\<forall>l. map_of (rp_leaves policy) p = Some l \<longrightarrow> in_leaf l n) \<longleftrightarrow> in_leaf (policy_leaf policy p) n" for n
    by (cases "map_of (rp_leaves policy) p") (simp_all add: policy_leaf_def in_leaf_def no_leaf_def)
  let ?Q = "\<lambda>x w. \<forall>l n. map_of (rp_leaves policy) x = Some l \<longrightarrow> w = Some (PInt n) \<longrightarrow> in_leaf l n"
  have "in_policy policy (m(p \<mapsto> v)) \<longleftrightarrow> (\<forall>x. x \<noteq> p \<longrightarrow> ?Q x (m x)) \<and> ?Q p (Some v)"
    unfolding in_policy_def by (rule all_upd)
  moreover have "in_policy policy m \<longleftrightarrow> (\<forall>x. x \<noteq> p \<longrightarrow> ?Q x (m x))"
    using assms all_upd [of ?Q m p None] by (simp add: in_policy_def fun_upd_idem)
  moreover have "?Q p (Some v) \<longleftrightarrow> (\<forall>n. v = PInt n \<longrightarrow> in_leaf (policy_leaf policy p) n)"
    using leaf by blast
  ultimately show ?thesis by blast
qed

text \<open>Setting a quantity dimension of a readable partial shape.\<close>

lemma set_dimension:
  assumes ok: "policy_ok policy" and P: "fams_ok P" and q: "is_quantity (rp_schema policy) a b"
    and m0: "shape_map (drop_field P (a, b)) = Map.empty \<or>
      content_ok (open_schema (rp_schema policy)) (shape_map (drop_field P (a, b)))"
  shows "admissibility_problems policy (with_field (shape_of P) (a, b) v) = [] \<longleftrightarrow>
     in_policy policy (shape_map (drop_field P (a, b))) \<and>
     (\<exists>n. v = PInt n \<and> 0 < n \<and> in_leaf (policy_leaf policy (a, b)) n)"
proof -
  let ?m0 = "shape_map (drop_field P (a, b))"
  let ?F = "dict_set a (dict_set b v (case map_of P a of None \<Rightarrow> [] | Some fs \<Rightarrow> fs)) P"
  have m1: "shape_map ?F = ?m0((a, b) \<mapsto> v)"
    by (simp add: shape_map_dict_set shape_map_drop_field)
  have m0ab: "?m0 (a, b) = None" by (simp add: shape_map_drop_field)
  have fits: "\<exists>d. schema_lookup (rp_schema policy) x y = Some d \<and> value_fits (sf_kind d) w" if "?m0 (x, y) = Some w" for x y w
    using m0 that unfolding open_content_ok by auto
  have "content_ok (open_schema (rp_schema policy)) (?m0((a, b) \<mapsto> v)) \<longleftrightarrow> is_pos_int v"
  proof -
    obtain d where d: "schema_lookup (rp_schema policy) a b = Some d" "sf_kind d = QUANTITY"
      using q by (auto simp: is_quantity_lookup)
    have "?m0((a, b) \<mapsto> v) \<noteq> Map.empty" by (metis fun_upd_same option.distinct(1))
    moreover have "(\<forall>x y w. (?m0((a, b) \<mapsto> v)) (x, y) = Some w \<longrightarrow>
        (\<exists>d. schema_lookup (rp_schema policy) x y = Some d \<and> value_fits (sf_kind d) w)) \<longleftrightarrow> is_pos_int v"
      using fits d by (auto simp: value_fits_def)
    ultimately show ?thesis unfolding open_content_ok by blast
  qed
  moreover have "in_policy policy (?m0((a, b) \<mapsto> v)) \<longleftrightarrow>
      in_policy policy ?m0 \<and> (\<forall>n. v = PInt n \<longrightarrow> in_leaf (policy_leaf policy (a, b)) n)"
    by (rule in_policy_upd [of ?m0 "(a, b)", OF m0ab])
  moreover have "is_pos_int v \<longleftrightarrow> (\<exists>n. v = PInt n \<and> 0 < n)" by (cases v) auto
  ultimately show ?thesis
    using admissibility_problems_Nil [OF ok fams_ok_dict_set [OF P], of a b v]
    unfolding with_field_shape_of m1 by auto
qed

lemma shape_map_shape_families: "partial = shape_of P \<Longrightarrow> shape_map (shape_families partial) = shape_map P"
  by simp

text \<open>An answer is exact, and it is never a half-open set with a wrong end.\<close>

lemma admissible_values_answer:
  assumes ok: "policy_ok policy" and keys: "raw_keys_ok partial"
    and vs: "admissible_values policy dimension partial = Return vs"
  shows "\<exists>p. quantity_path policy dimension = Return p \<and> av_ok vs \<and>
     (\<forall>v. contains vs v \<longleftrightarrow> admissibility_problems policy (with_field partial p v) = [])"
proof -
  obtain a b where p: "quantity_path policy dimension = Return (a, b)"
    and vs: "without_field partial (a, b) = PDict [] \<and> vs = leaf_values (policy_leaf policy (a, b)) \<or>
      without_field partial (a, b) \<noteq> PDict [] \<and> shape_problems (without_field partial (a, b)) (open_schema (rp_schema policy)) = [] \<and>
        vs = (if violations policy (without_field partial (a, b)) = [] then leaf_values (policy_leaf policy (a, b))
              else \<lparr>av_low = None, av_high = None\<rparr>)"
    using admissible_values_Return [OF vs] by auto
  have q: "is_quantity (rp_schema policy) a b" using quantity_path_Return [OF p] by simp
  obtain P where P: "partial = shape_of P" "fams_ok P"
    using rest_readable [OF keys, of a b "open_schema (rp_schema policy)"] vs by blast
  let ?D = "drop_field P (a, b)"
  have D: "without_field partial (a, b) = shape_of ?D" "fams_ok ?D"
    using P by (simp_all add: without_field_shape_of fams_ok_drop_field)
  have os: "schema_ok (open_schema (rp_schema policy))" using ok by (simp add: policy_ok_def open_schema_ok)
  have viol: "violations policy (shape_of ?D) = [] \<longleftrightarrow> in_policy policy (shape_map ?D)"
    using violations_Nil [of "shape_of ?D" policy] D by simp
  have empty: "shape_of ?D = PDict [] \<longleftrightarrow> ?D = []" by (auto simp: shape_of_alt)
  have m0: "shape_map ?D = Map.empty \<or> content_ok (open_schema (rp_schema policy)) (shape_map ?D)"
    using vs D shape_problems_Nil [OF os D(2)] empty shape_map_empty_iff [OF D(2)] by auto
  have vs': "vs = (if in_policy policy (shape_map ?D) then leaf_values (policy_leaf policy (a, b)) else \<lparr>av_low = None, av_high = None\<rparr>)"
  proof (cases "?D = []")
    case True
    then have "in_policy policy (shape_map ?D)" by (simp add: in_policy_def shape_map_def)
    with vs D empty True show ?thesis by simp
  next
    case False
    with vs D empty viol show ?thesis by simp
  qed
  have "contains vs v \<longleftrightarrow> admissibility_problems policy (with_field partial (a, b) v) = []" for v
    using set_dimension [OF ok P(2) q m0, of v] P(1) vs' contains_leaf_values [OF policy_leaf_ok [OF ok], of "(a, b)" v]
    by (auto simp: contains_empty)
  moreover have "av_ok vs"
    using vs' leaf_values_ok [OF policy_leaf_ok [OF ok], of "(a, b)"] by (auto simp: av_ok_def)
  ultimately show ?thesis using p by blast
qed

section \<open>Declarations are well formed\<close>

definition range_ok :: "bounds \<Rightarrow> bool" where
  "range_ok bs = (\<forall>l h. map_of bs MIN_KEY = Some l \<longrightarrow> map_of bs MAX_KEY = Some h \<longrightarrow> l \<le> h)"

text \<open>What the loops of \<open>_split\<close> and \<open>parse_declaration\<close> keep of the bounds they collect.\<close>

definition collected_ok :: "capability_schema option \<Rightarrow> (path \<times> bounds) list \<Rightarrow> bool" where
  "collected_ok schema bounds = (dict_ok bounds \<and> (\<forall>(p, bs) \<in> set bounds. bounds_ok bs \<and> range_ok bs \<and>
     (\<forall>s. schema = Some s \<longrightarrow> is_quantity s (fst p) (snd p))))"

lemma map_of_bounds_of:
  "map_of (bounds_of mapping) k = (if k \<in> {MIN_KEY, MAX_KEY} then readable_constraint mapping k else None)"
  by (cases "readable_constraint mapping MIN_KEY"; cases "readable_constraint mapping MAX_KEY")
    (simp_all add: bounds_of_def DECLARATION_KEYS_def List.map_filter_def)

lemma readable_pos: "readable_constraint mapping key = Some n \<Longrightarrow> 0 < n"
  by (simp add: readable_constraint_Some)

lemma bounds_of_ok: "bounds_ok (bounds_of mapping)"
  by (cases "readable_constraint mapping MIN_KEY"; cases "readable_constraint mapping MAX_KEY")
    (simp_all add: bounds_ok_def bounds_of_def DECLARATION_KEYS_def List.map_filter_def readable_pos)

lemma collected_ok_Nil [simp]: "collected_ok schema []"
  by (simp add: collected_ok_def)

lemma bounds_of_range: "clean_constraint mapping allowed \<Longrightarrow> range_ok (bounds_of mapping)"
  by (simp add: range_ok_def map_of_bounds_of readable_constraint_Some clean_constraint_def)

lemma collected_ok_set:
  assumes "collected_ok schema bounds" "bounds_ok bs" "range_ok bs" "\<forall>s. schema = Some s \<longrightarrow> is_quantity s (fst p) (snd p)"
  shows "collected_ok schema (dict_set p bs bounds)"
proof -
  have "bounds_ok y \<and> range_ok y \<and> (\<forall>s. schema = Some s \<longrightarrow> is_quantity s (fst x) (snd x))"
    if "(x, y) \<in> set (dict_set p bs bounds)" for x y
  proof -
    from that set_dict_set [of p bs bounds] have "(x, y) = (p, bs) \<or> (x, y) \<in> set bounds" by blast
    with assms show ?thesis unfolding collected_ok_def by auto
  qed
  with assms(1) show ?thesis unfolding collected_ok_def by auto
qed

lemma read_constraint_ok [inv_intros]:
  assumes "collected_ok schema (snd acc)" "allowed = LISTING_KEYS \<or> allowed = DECLARATION_KEYS"
  shows "collected_ok schema (snd (read_constraint frepr tier schema entries allowed item acc))"
proof -
  obtain a b mapping where item: "item = ((a, b), mapping)" by (metis prod.collapse)
  obtain ps bounds where acc: "acc = (ps, bounds)" by (cases acc)
  show ?thesis
    using assms(1) collected_ok_set [of schema bounds "bounds_of mapping" "(a, b)"]
      constraint_problems_clean [OF assms(2), of frepr "dotted a b" mapping tier entries]
      bounds_of_ok bounds_of_range [of mapping allowed]
    by (auto simp: read_constraint_def item acc Let_def split: option.splits)
qed

lemma parse_field_ok [inv_intros]:
  assumes "collected_ok schema (snd acc)"
  shows "collected_ok schema (snd (parse_field frepr tier schema family item acc))"
  using assms read_constraint_ok [OF assms]
  by (auto simp: parse_field_def Let_def split: prod.split pyval.split)

lemma parse_family_ok [inv_intros]:
  assumes "collected_ok schema (snd acc)"
  shows "collected_ok schema (snd (parse_family frepr tier schema item acc))"
proof -
  have "collected_ok schema (snd (fold (parse_field frepr tier schema name) fs acc))" for name fs
    by (rule fold_keeps [where P = "\<lambda>acc. collected_ok schema (snd acc)"]) (use assms in \<open>auto intro: parse_field_ok\<close>)
  with assms show ?thesis by (auto simp: parse_family_def Let_def split: prod.split pyval.split)
qed

lemma collected_decl_ok: "collected_ok schema bounds \<Longrightarrow> decl_ok \<lparr>d_tier = t, d_bounds = bounds\<rparr>"
  by (auto simp: collected_ok_def decl_ok_def)

lemma collected_mergeable:
  assumes "collected_ok (Some schema) bounds"
  shows "mergeable [\<lparr>d_tier = t, d_bounds = bounds\<rparr>] schema"
  using assms
  by (fastforce simp: mergeable_def all_quantities_def collected_ok_def bound_in_def range_ok_def
      split: option.splits dest: map_of_SomeD)

lemma parse_declaration_ok:
  assumes "parse_declaration frepr raw tier schema = Return dp" "dp_declaration dp = Some d"
  shows "collected_ok schema (d_bounds d) \<and> dp_problems dp = []"
proof -
  obtain es t where raw: "raw = PDict es" and t: "require_tier tier = Return t"
    using assms by (cases raw) (auto simp: parse_declaration_def res_bind_Inr_iff)
  obtain ps bounds where f: "fold (parse_family frepr t schema) es ([], []) = (ps, bounds)" by fastforce
  have "collected_ok schema (snd (fold (parse_family frepr t schema) es ([], [])))"
    by (rule fold_keeps [where P = "\<lambda>acc. collected_ok schema (snd acc)"])
      (auto intro: parse_family_ok)
  with f assms raw t show ?thesis
    by (auto simp: parse_declaration_def split: if_splits)
qed

section \<open>Splitting\<close>

definition base_ok :: "(pyval \<times> pyval) list \<Rightarrow> bool" where
  "base_ok base = (dict_ok base \<and> (\<forall>n m. (PStr n, m) \<in> set base \<longrightarrow> dict_ok (mapping_items m)))"

lemma base_ok_set:
  "base_ok base \<Longrightarrow> (\<And>n. k = PStr n \<Longrightarrow> dict_ok (mapping_items m)) \<Longrightarrow> base_ok (dict_set k m base)"
  using set_dict_set [of k m base] by (auto simp: base_ok_def)

lemma dict_ok_named_items: "dict_ok fs \<Longrightarrow> dict_ok (named_items fs)"
proof (induction fs rule: named_items.induct)
  case (2 n v xs)
  have "n \<in> fst ` set (named_items xs) \<Longrightarrow> PStr n \<in> fst ` set xs" for n
    by (induction xs rule: named_items.induct) auto
  with 2 show ?case by auto
qed auto

lemma separate_field_kept: "dict_ok (fst acc) \<Longrightarrow> dict_ok (fst (separate_field family item acc))"
  by (auto simp: separate_field_def split: prod.split pyval.split option.split)

lemma separate_family_base:
  assumes "base_ok (fst acc)"
  shows "base_ok (fst (separate_family item acc))"
proof -
  obtain family members where item: "item = (family, members)" by (cases item)
  obtain base constrained where acc: "acc = (base, constrained)" by (cases acc)
  show ?thesis
  proof (cases "\<exists>name fs. family = PStr name \<and> members = PDict fs \<and> fs \<noteq> []")
    case True
    then obtain name fs where fs: "family = PStr name" "members = PDict fs" "fs \<noteq> []" by blast
    have "dict_ok (fst (fold (separate_field name) fs ([], constrained)))"
      by (rule fold_keeps [where P = "\<lambda>acc. dict_ok (fst acc)"]) (auto intro: separate_field_kept)
    with assms fs acc item show ?thesis
      by (auto simp: separate_family_def split_beta intro!: base_ok_set dict_ok_named_items)
  next
    case False
    then have "separate_family item acc = (dict_set family members base, constrained)"
      by (auto simp: separate_family_def item acc split: pyval.splits)
    moreover have "dict_ok (mapping_items members)" if "family = PStr n" for n
      using False that by (cases members) auto
    ultimately show ?thesis using assms acc by (auto intro: base_ok_set)
  qed
qed

text \<open>A base shape has distinct keys, whatever was stated.\<close>

lemma separate_keys: "shape_keys_ok (fst (separate raw))"
proof (cases raw)
  case (PDict es)
  have ok: "base_ok (fst (fold separate_family es ([], [])))"
  proof (rule fold_keeps [where P = "\<lambda>acc. base_ok (fst acc)"])
    show "base_ok (fst ([], []))" by (simp add: base_ok_def)
  qed (rule separate_family_base)
  have keys: "shape_keys_ok (PDict base)" if "base_ok base" for base
  proof -
    have mem: "(n, m) \<in> set (named_items base) \<Longrightarrow> (PStr n, m) \<in> set base" for n m
      by (induction base rule: named_items.induct) auto
    have "dict_ok (named_items base)" using that by (simp add: base_ok_def dict_ok_named_items)
    with that mem show ?thesis
      by (fastforce simp: shape_keys_ok_def shape_families_def base_ok_def list_all_iff comp_def split_beta)
  qed
  from keys [OF ok] PDict show ?thesis by (simp add: separate_def split_beta)
qed (auto simp: separate_def shape_keys_ok_def shape_families_def)

lemma base_digest:
  assumes "shape_structure_problems (fst (separate raw)) = []"
  shows "\<exists>c d. canonical_shape (fst (separate raw)) = Return c \<and> shape_digest h c = Return d"
proof -
  let ?fams = "shape_families (fst (separate raw))"
  have ok: "fams_ok ?fams" by (rule fams_ok_of_structure [OF separate_keys assms])
  have named: "fst (separate raw) = shape_of ?fams" "fams_named ?fams" using assms by (simp_all add: structure_ok_iff)
  have "fams_named (canonical_families ?fams)"
    using named(2) fams_named_cong [OF ok fams_ok_canonical [OF ok]] shape_map_canonical [OF ok] by metis
  with canonical_shape_of named show ?thesis by (auto simp: shape_digest_def canonical_shape_def assms)
qed

text \<open>What one split satisfies: an unreadable base shape alone, or a base shape with exactly one
  of a declaration and constraint problems.\<close>

definition split_ok :: "capability_schema option \<Rightarrow> shape_split \<Rightarrow> bool" where
  "split_ok schema s = (if ss_base_problems s \<noteq> []
     then ss_base s = None \<and> ss_declaration s = None \<and> ss_constraint_problems s = []
     else ss_base s \<noteq> None \<and> (ss_declaration s = None \<longleftrightarrow> ss_constraint_problems s \<noteq> []) \<and>
       (\<forall>d. ss_declaration s = Some d \<longrightarrow> collected_ok schema (d_bounds d)))"

lemma split_structure:
  "(case schema of None \<Rightarrow> shape_structure_problems base | Some s \<Rightarrow> shape_problems base s) = [] \<Longrightarrow>
   shape_structure_problems base = []"
  by (auto split: option.splits intro: shape_problems_structure)

lemma shape_kit_problems_Nil [simp]: "shape_kit_problems ps tier entries = [] \<longleftrightarrow> ps = []"
  by (simp add: shape_kit_problems_def)

lemma split_shape_ok: "split_ok schema (split_shape frepr raw tier schema entries)"
proof -
  obtain base constrained where sep: "separate raw = (base, constrained)" by fastforce
  obtain ps bounds where f: "fold (read_constraint frepr tier schema entries LISTING_KEYS) constrained ([], []) = (ps, bounds)"
    by fastforce
  have "collected_ok schema (snd (fold (read_constraint frepr tier schema entries LISTING_KEYS) constrained ([], [])))"
    by (rule fold_keeps [where P = "\<lambda>acc. collected_ok schema (snd acc)"])
      (auto intro: read_constraint_ok)
  then have "collected_ok schema bounds" using f by simp
  moreover have "\<exists>c. canonical_shape base = Return c" if "shape_structure_problems base = []"
    using that by (simp add: canonical_shape_def)
  ultimately show ?thesis
    using split_structure [where schema = schema and base = base] by (auto simp: split_shape_def sep f Let_def split_ok_def)
qed

lemma split_shape_entries [simp]: "ss_entries (split_shape frepr raw tier schema entries) = entries"
  by (simp add: split_shape_def Let_def split_beta)

lemma split_shape_base:
  "ss_base_problems (split_shape frepr raw tier schema entries) = [] \<Longrightarrow>
   \<exists>c d. ss_base (split_shape frepr raw tier schema entries) = Some c \<and> shape_digest h c = Return d"
  using base_digest [of raw h] split_structure [where schema = schema and base = "fst (separate raw)"]
  by (auto simp: split_shape_def Let_def split_beta split: if_splits)

section \<open>Splitting a stated list\<close>

definition unreadable_entries :: "order_item list \<Rightarrow> nat list" where
  "unreadable_entries order = concat (map (\<lambda>i. case i of OUnreadable s \<Rightarrow> ss_entries s | ODigest _ \<Rightarrow> []) order)"

definition order_digests :: "order_item list \<Rightarrow> string list" where
  "order_digests order = List.map_filter (\<lambda>i. case i of OUnreadable _ \<Rightarrow> None | ODigest d \<Rightarrow> Some d) order"

text \<open>The loop's invariant: every position seen so far is in one unreadable entry or in one
  group, and the groups are listed once each.\<close>

definition grouping_ok :: "capability_schema option \<Rightarrow> (string \<times> nat list) list \<times> order_item list \<Rightarrow> nat list \<Rightarrow> bool" where
  "grouping_ok schema acc seen = (case acc of (groups, order) \<Rightarrow>
     order_digests order = map fst groups \<and> dict_ok groups \<and> (\<forall>(d, ixs) \<in> set groups. ixs \<noteq> []) \<and>
     (\<forall>s. OUnreadable s \<in> set order \<longrightarrow> split_ok schema s) \<and>
     mset (unreadable_entries order) + mset (concat (map snd groups)) = mset seen)"

lemma dict_set_present:
  "map_of d k = Some v \<Longrightarrow> map fst (dict_set k w d) = map fst d \<and>
    (dict_ok d \<longrightarrow> mset (concat (map snd (dict_set k (v @ w') d))) = mset (concat (map snd d)) + mset w')"
proof (induction d)
  case (Cons x d)
  then show ?case by (cases x) (auto split: if_splits)
qed simp

lemma group_entry_ok:
  assumes "grouping_ok schema acc seen"
  shows "grouping_ok schema (group_entry frepr h tier schema (i, raw) acc) (seen @ [i])"
proof -
  obtain groups order where acc: "acc = (groups, order)" by (cases acc)
  note inv = assms [unfolded acc grouping_ok_def prod.case]
  let ?split = "split_shape frepr raw tier schema [i]"
  show ?thesis
  proof (cases "ss_base_problems ?split = []")
    case False
    with inv show ?thesis
      by (auto simp: group_entry_def acc Let_def grouping_ok_def unreadable_entries_def order_digests_def
          map_filter_simps split_shape_ok List.map_filter_def)
  next
    case True
    then obtain c d where c: "ss_base ?split = Some c" "shape_digest h c = Return d"
      using split_shape_base by blast
    show ?thesis
    proof (cases "map_of groups d")
      case None
      then have new: "d \<notin> fst ` set groups" by (simp add: map_of_eq_None_iff)
      with inv True c None show ?thesis
        by (auto simp: group_entry_def acc Let_def grouping_ok_def unreadable_entries_def order_digests_def
            dict_set_absent List.map_filter_def)
    next
      case (Some ixs)
      note set = dict_set_present [OF Some]
      have "set (dict_set d (ixs @ [i]) groups) \<subseteq> insert (d, ixs @ [i]) (set groups)" by (rule set_dict_set)
      then have ne: "\<forall>(d, ixs) \<in> set (dict_set d (ixs @ [i]) groups). ixs \<noteq> []" using inv by auto
      have "group_entry frepr h tier schema (i, raw) acc = (dict_set d (ixs @ [i]) groups, order)"
        using True c Some by (simp add: group_entry_def acc Let_def)
      with inv set ne show ?thesis by (simp add: grouping_ok_def)
    qed
  qed
qed

lemma fold_group_entry_ok:
  "grouping_ok schema acc seen \<Longrightarrow>
   grouping_ok schema (fold (group_entry frepr h tier schema) xs acc) (seen @ map fst xs)"
proof (induction xs arbitrary: acc seen)
  case (Cons x xs)
  obtain i raw where "x = (i, raw)" by (cases x)
  with Cons.IH [OF group_entry_ok [OF Cons.prems, of frepr h tier i raw]] show ?case by simp
qed simp

lemma split_group_ok:
  assumes "ixs \<noteq> []" "\<forall>i \<in> set ixs. ss_base_problems (split_shape frepr (raw_list ! i) tier schema [i]) = []"
  shows "split_ok schema (split_group frepr raw_list ixs tier schema) \<and> ss_entries (split_group frepr raw_list ixs tier schema) = ixs"
proof -
  let ?s = "\<lambda>i. split_shape frepr (raw_list ! i) tier schema [i]"
  have ok: "split_ok schema (?s i)" for i by (rule split_shape_ok)
  have hd: "hd ixs \<in> set ixs" using assms(1) by simp
  then have first: "ss_base (?s (hd ixs)) \<noteq> None"
    "ss_declaration (?s (hd ixs)) = None \<longleftrightarrow> ss_constraint_problems (?s (hd ixs)) \<noteq> []"
    "\<forall>d. ss_declaration (?s (hd ixs)) = Some d \<longrightarrow> collected_ok schema (d_bounds d)"
    using ok [of "hd ixs"] assms(2) by (auto simp: split_ok_def)
  have "ss_constraint_problems (?s (hd ixs)) \<noteq> [] \<Longrightarrow> concat (map ss_constraint_problems (map ?s ixs)) \<noteq> []"
    using hd by auto
  with first assms(1) show ?thesis
    by (auto simp: split_group_def Let_def split_ok_def hd_map)
qed

text \<open>Every group holds positions whose base shapes are readable.\<close>

definition groups_readable :: "(rat \<Rightarrow> string) \<Rightarrow> pyval list \<Rightarrow> string \<Rightarrow> capability_schema option \<Rightarrow> (string \<times> nat list) list \<Rightarrow> bool" where
  "groups_readable frepr raw_list tier schema groups = (\<forall>(d, ixs) \<in> set groups. \<forall>i \<in> set ixs.
     ss_base_problems (split_shape frepr (raw_list ! i) tier schema [i]) = [])"

lemma group_entry_readable:
  assumes "groups_readable frepr raw_list tier schema (fst acc)"
  shows "groups_readable frepr raw_list tier schema (fst (group_entry frepr h tier schema (i, raw_list ! i) acc))"
proof -
  obtain groups order where acc: "acc = (groups, order)" by (cases acc)
  let ?split = "split_shape frepr (raw_list ! i) tier schema [i]"
  have set: "groups_readable frepr raw_list tier schema (dict_set d ixs groups)"
    if "\<forall>j \<in> set ixs. ss_base_problems (split_shape frepr (raw_list ! j) tier schema [j]) = []" for d ixs
    using assms that set_dict_set [of d ixs groups] acc unfolding groups_readable_def by fastforce
  show ?thesis
  proof (cases "ss_base_problems ?split = []")
    case True
    have old: "\<forall>j \<in> set ixs. ss_base_problems (split_shape frepr (raw_list ! j) tier schema [j]) = []"
      if "map_of groups d = Some ixs" for d ixs
      using map_of_SomeD [OF that] assms acc unfolding groups_readable_def by fastforce
    obtain c d where "ss_base ?split = Some c" "shape_digest h c = Return d"
      using split_shape_base [OF True] by blast
    then show ?thesis
      using True set [of "[i]" d] old [of d] set [of "the (map_of groups d) @ [i]" d]
      by (cases "map_of groups d") (auto simp: group_entry_def acc Let_def)
  next
    case False
    with assms show ?thesis by (simp add: group_entry_def acc Let_def)
  qed
qed

lemma concat_entries_order:
  assumes "\<forall>s. OUnreadable s \<in> set order \<longrightarrow> e (OUnreadable s) = ss_entries s" "\<forall>d. ODigest d \<in> set order \<longrightarrow> e (ODigest d) = g d"
  shows "mset (concat (map e order)) = mset (unreadable_entries order) + mset (concat (map g (order_digests order)))"
  using assms
proof (induction order)
  case (Cons x order)
  then have IH: "mset (concat (map e order)) = mset (unreadable_entries order) + mset (concat (map g (order_digests order)))" by simp
  show ?case
    using Cons.prems IH by (cases x) (auto simp: unreadable_entries_def order_digests_def List.map_filter_def)
qed (simp add: unreadable_entries_def order_digests_def List.map_filter_def)

lemma split_listing_shapes_ok:
  assumes t: "require_tier tier = Return t"
  shows "\<exists>shapes. split_listing_shapes frepr h raw_list tier schema = Return shapes \<and>
     (\<forall>s \<in> set shapes. split_ok schema s) \<and>
     mset (concat (map ss_entries shapes)) = mset [0..<length raw_list]"
proof -
  let ?xs = "enumerate 0 raw_list"
  obtain groups order where f: "fold (group_entry frepr h t schema) ?xs ([], []) = (groups, order)" by fastforce
  have "grouping_ok schema ([], []) []"
    by (simp add: grouping_ok_def order_digests_def unreadable_entries_def List.map_filter_def)
  from fold_group_entry_ok [OF this, of frepr h t ?xs]
  have inv: "grouping_ok schema (groups, order) [0..<length raw_list]" by (simp add: f)
  have "groups_readable frepr raw_list t schema (fst (fold (group_entry frepr h t schema) ?xs ([], [])))"
  proof (rule fold_keeps [where P = "\<lambda>acc. groups_readable frepr raw_list t schema (fst acc)"])
    fix x and acc :: "(string \<times> nat list) list \<times> order_item list"
    assume "x \<in> set ?xs" "groups_readable frepr raw_list t schema (fst acc)"
    moreover from this obtain i where "x = (i, raw_list ! i)" by (auto simp: in_set_enumerate_eq prod_eq_iff)
    ultimately show "groups_readable frepr raw_list t schema (fst (group_entry frepr h t schema x acc))"
      using group_entry_readable by simp
  qed (simp add: groups_readable_def)
  then have readable: "groups_readable frepr raw_list t schema groups" by (simp add: f)
  define get where "get = (\<lambda>d. case map_of groups d of None \<Rightarrow> [] | Some ixs \<Rightarrow> ixs)"
  define shape where "shape = (\<lambda>item. case item of OUnreadable split \<Rightarrow> split
    | ODigest d \<Rightarrow> split_group frepr raw_list (get d) t schema)"
  have res: "split_listing_shapes frepr h raw_list tier schema = Return (map shape order)"
    by (auto simp: split_listing_shapes_def t f shape_def get_def split: order_item.split)
  have digest: "ODigest d \<in> set order \<longleftrightarrow> d \<in> set (order_digests order)" for d
    by (induction order) (auto simp: order_digests_def List.map_filter_def split: order_item.splits)
  have group: "split_ok schema (shape (ODigest d)) \<and> ss_entries (shape (ODigest d)) = get d"
    if "ODigest d \<in> set order" for d
  proof -
    have "d \<in> fst ` set groups" using that digest inv by (auto simp: grouping_ok_def)
    then obtain ixs where ixs: "map_of groups d = Some ixs" by (metis map_of_eq_None_iff not_None_eq)
    then have "(d, ixs) \<in> set groups" by (rule map_of_SomeD)
    with inv readable have "ixs \<noteq> []"
      "\<forall>i \<in> set ixs. ss_base_problems (split_shape frepr (raw_list ! i) t schema [i]) = []"
      by (auto simp: grouping_ok_def groups_readable_def)
    from split_group_ok [OF this] ixs show ?thesis by (simp add: shape_def get_def)
  qed
  have "\<forall>s \<in> set (map shape order). split_ok schema s"
  proof
    fix s assume "s \<in> set (map shape order)"
    then obtain item where "item \<in> set order" "s = shape item" by auto
    with group inv show "split_ok schema s" by (cases item) (auto simp: grouping_ok_def shape_def)
  qed
  moreover have "mset (concat (map ss_entries (map shape order))) = mset [0..<length raw_list]"
  proof -
    have "mset (concat (map (ss_entries \<circ> shape) order)) =
        mset (unreadable_entries order) + mset (concat (map get (order_digests order)))"
      by (rule concat_entries_order) (use group in \<open>auto simp: shape_def\<close>)
    also have "order_digests order = map fst groups" using inv by (simp add: grouping_ok_def)
    also have "map get (map fst groups) = map snd groups"
      using inv by (auto simp: get_def grouping_ok_def)
    also have "mset (unreadable_entries order) + mset (concat (map snd groups)) = mset [0..<length raw_list]"
      using inv by (simp add: grouping_ok_def)
    finally show ?thesis by (simp add: comp_def)
  qed
  ultimately show ?thesis using res by blast
qed

section \<open>The interface of a policy\<close>

text \<open>What a storefront or a buyer relies on when it asks for the values of one dimension: an
  answer's range is well formed, and a value is in it exactly when the shape with that value
  is judged admissible.\<close>

locale dimension_answers =
  fixes judge :: "'p \<Rightarrow> pyval \<Rightarrow> adm_problem list"
    and answer :: "'p \<Rightarrow> pyval \<Rightarrow> pyval \<Rightarrow> (adm_problem list, admissible_set) result"
    and set_dim :: "'p \<Rightarrow> pyval \<Rightarrow> pyval \<Rightarrow> pyval \<Rightarrow> pyval"
    and valid :: "'p \<Rightarrow> bool"
  assumes answer_ok: "valid p \<Longrightarrow> raw_keys_ok s \<Longrightarrow> answer p d s = Return vs \<Longrightarrow> av_ok vs"
    and answer_exact: "valid p \<Longrightarrow> raw_keys_ok s \<Longrightarrow> answer p d s = Return vs \<Longrightarrow>
      contains vs v \<longleftrightarrow> judge p (set_dim p d s v) = []"
begin

lemma greatest_not_above:
  assumes "valid p" "raw_keys_ok s" "answer p d s = Return vs" "threshold value = Return q"
  shows "\<exists>r. at_most vs value = Return r \<and>
     (case r of
        None \<Rightarrow> \<forall>n. of_int n \<le> q \<longrightarrow> judge p (set_dim p d s (PInt n)) \<noteq> []
      | Some m \<Rightarrow> judge p (set_dim p d s (PInt m)) = [] \<and> of_int m \<le> q \<and>
          (\<forall>n. judge p (set_dim p d s (PInt n)) = [] \<and> of_int n \<le> q \<longrightarrow> n \<le> m))"
proof -
  obtain r where r: "at_most vs value = Return r" "case r of
        None \<Rightarrow> \<forall>n. contains vs (PInt n) \<longrightarrow> q < of_int n
      | Some m \<Rightarrow> contains vs (PInt m) \<and> of_int m \<le> q \<and> (\<forall>n. contains vs (PInt n) \<and> of_int n \<le> q \<longrightarrow> n \<le> m)"
    using at_most_greatest [OF answer_ok [OF assms(1-3)] assms(4)] by blast
  then show ?thesis
    unfolding answer_exact [OF assms(1-3)] by (cases r) (auto simp: not_less [symmetric])
qed

lemma least_not_below:
  assumes "valid p" "raw_keys_ok s" "answer p d s = Return vs" "threshold value = Return q"
  shows "\<exists>r. at_least vs value = Return r \<and>
     (case r of
        None \<Rightarrow> \<forall>n. q \<le> of_int n \<longrightarrow> judge p (set_dim p d s (PInt n)) \<noteq> []
      | Some m \<Rightarrow> judge p (set_dim p d s (PInt m)) = [] \<and> q \<le> of_int m \<and>
          (\<forall>n. judge p (set_dim p d s (PInt n)) = [] \<and> q \<le> of_int n \<longrightarrow> m \<le> n))"
proof -
  obtain r where r: "at_least vs value = Return r" "case r of
        None \<Rightarrow> \<forall>n. contains vs (PInt n) \<longrightarrow> of_int n < q
      | Some m \<Rightarrow> contains vs (PInt m) \<and> q \<le> of_int m \<and> (\<forall>n. contains vs (PInt n) \<and> q \<le> of_int n \<longrightarrow> m \<le> n)"
    using at_least_least [OF answer_ok [OF assms(1-3)] assms(4)] by blast
  then show ?thesis
    unfolding answer_exact [OF assms(1-3)] by (cases r) (auto simp: not_less [symmetric])
qed

end

definition set_dimension_to :: "resolved_policy \<Rightarrow> pyval \<Rightarrow> pyval \<Rightarrow> pyval \<Rightarrow> pyval" where
  "set_dimension_to policy dimension partial v = (case quantity_path policy dimension of
     Inr p \<Rightarrow> with_field partial p v | Inl _ \<Rightarrow> partial)"

interpretation policy: dimension_answers admissibility_problems admissible_values set_dimension_to policy_ok
proof unfold_locales
  fix p s d vs v
  assume a: "policy_ok p" "raw_keys_ok s" "admissible_values p d s = Return vs"
  from admissible_values_answer [OF this] obtain path where path: "quantity_path p d = Return path" "av_ok vs"
    "\<forall>v. contains vs v \<longleftrightarrow> admissibility_problems p (with_field s path v) = []" by blast
  from path show "av_ok vs" by simp
  from path show "contains vs v \<longleftrightarrow> admissibility_problems p (set_dimension_to p d s v) = []"
    by (simp add: set_dimension_to_def)
qed

lemma first_stated_Some:
  assumes "first_stated ds p b = Some (n, t)" "\<forall>d \<in> set ds. decl_ok d"
  shows "0 < n \<and> (\<exists>d \<in> set ds. map_of (d_bounds d) p \<noteq> None)"
  using assms
proof (induction ds)
  case (Cons d ds)
  show ?case
  proof (cases "bound_in d p b")
    case None
    with Cons show ?thesis by auto
  next
    case (Some m)
    then obtain bs where bs: "map_of (d_bounds d) p = Some bs" "map_of bs b = Some m"
      by (auto simp: bound_in_def split: option.splits)
    with Cons.prems(2) have "0 < m"
      using map_of_SomeD [OF bs(1)] map_of_SomeD [OF bs(2)] by (fastforce simp: decl_ok_def bounds_ok_def)
    with Cons.prems(1) Some bs show ?thesis by auto
  qed
qed simp

lemma resolve_policy_ok:
  assumes ok: "\<forall>d \<in> set ds. decl_ok d" "schema_ok schema" and r: "resolve ds schema = (ps, Some policy)"
  shows "policy_ok policy \<and> rp_schema policy = schema \<and> mergeable ds schema \<and>
    (\<forall>p. minimum (policy_leaf policy p) = map_option fst (first_stated ds p MIN_KEY) \<and>
         minimum_tier (policy_leaf policy p) = map_option snd (first_stated ds p MIN_KEY) \<and>
         maximum (policy_leaf policy p) = map_option fst (first_stated ds p MAX_KEY) \<and>
         maximum_tier (policy_leaf policy p) = map_option snd (first_stated ds p MAX_KEY))"
proof -
  have m: "mergeable ds schema" using resolve_cases [OF ok(1), of schema] r by (auto split: if_splits)
  then obtain leaves where leaves: "policy = \<lparr>rp_schema = schema, rp_leaves = map (\<lambda>(p, rb). (p, leaf_of rb)) leaves\<rparr>"
      "dict_ok leaves" "\<forall>x \<in> set leaves. snd x \<noteq> []" "\<forall>p b. map_option (\<lambda>(v, r, t). (v, t)) (leaf_bound leaves p b) = first_stated ds p b"
    using resolve_cases [OF ok(1), of schema] r by auto
  have get: "policy_leaf policy p = (case map_of leaves p of None \<Rightarrow> no_leaf | Some rb \<Rightarrow> leaf_of rb)" for p
    using map_of_map [of leaf_of leaves] by (simp add: policy_leaf_def leaves(1) split: option.split)
  have eq: "first_stated ds p b = (case map_of leaves p of None \<Rightarrow> None | Some rb \<Rightarrow> map_option (\<lambda>(v, r, t). (v, t)) (map_of rb b))" for p b
    using leaves(4) [rule_format, of p b, symmetric] by (cases "map_of leaves p") (simp_all add: leaf_bound_def)
  have vals: "minimum (policy_leaf policy p) = map_option fst (first_stated ds p MIN_KEY) \<and>
         minimum_tier (policy_leaf policy p) = map_option snd (first_stated ds p MIN_KEY) \<and>
         maximum (policy_leaf policy p) = map_option fst (first_stated ds p MAX_KEY) \<and>
         maximum_tier (policy_leaf policy p) = map_option snd (first_stated ds p MAX_KEY)" for p
    using get [of p] eq [of p MIN_KEY] eq [of p MAX_KEY]
    by (cases "map_of leaves p") (simp_all add: no_leaf_def leaf_of_def option.map_comp comp_def split_beta)
  have "is_quantity schema (fst p) (snd p) \<and> leaf_ok l" if "(p, l) \<in> set (rp_leaves policy)" for p l
  proof -
    from that have "(p, l) \<in> set (map (\<lambda>(p, rb). (p, leaf_of rb)) leaves)" by (simp add: leaves(1))
    then obtain rb where rb: "(p, rb) \<in> set leaves" "l = leaf_of rb" by auto
    then have some: "map_of leaves p = Some rb" using leaves(2) by simp
    then have l: "l = policy_leaf policy p" using get rb(2) by simp
    obtain b w where "map_of rb b = Some w"
      using leaves(3) rb(1) by (cases rb) force+
    then obtain n t where "first_stated ds p b = Some (n, t)" using eq [of p b] some by (cases w) auto
    from first_stated_Some [OF this ok(1)] obtain d where "d \<in> set ds" "map_of (d_bounds d) p \<noteq> None" by blast
    then have "is_quantity schema (fst p) (snd p)"
      using m by (auto simp: mergeable_def all_quantities_def dest!: map_of_SomeD)
    moreover have "0 < x" if "map_option fst (first_stated ds p k) = Some x" for k x
      using that first_stated_Some [OF _ ok(1), of p k x] by auto
    then have "leaf_ok l"
      unfolding l leaf_ok_def using vals [of p] m [unfolded mergeable_def, THEN conjunct2, rule_format, of p] by simp
    ultimately show ?thesis by blast
  qed
  then have lv: "\<forall>(p, l) \<in> set (rp_leaves policy). is_quantity schema (fst p) (snd p) \<and> leaf_ok l" by blast
  have s: "rp_schema policy = schema" by (simp add: leaves(1))
  from ok(2) lv have "policy_ok policy" unfolding policy_ok_def s by blast
  with s vals m show ?thesis by blast
qed

section \<open>Properties\<close>

text \<open>C38: the values a policy answers for a dimension are exact.  Whenever
  \<open>admissible_values\<close> returns, a value (of any type) is a member of the answer exactly when
  the partial shape with the dimension set to that value has no admissibility problem.\<close>

theorem admissible_values_exact:
  assumes "policy_ok policy" "raw_keys_ok partial" "admissible_values policy dimension partial = Return vs"
  shows "contains vs v \<longleftrightarrow> admissibility_problems policy (set_dimension_to policy dimension partial v) = []"
  by (rule policy.answer_exact [OF assms])

text \<open>Choosing the greatest admissible value.  For a finite threshold, \<open>at_most\<close> on a
  policy's answer yields the greatest value not above it for which the resulting shape is
  admissible, and \<open>None\<close> only when no such value exists; the dual holds for \<open>at_least\<close>.\<close>

theorem thresholds_pick_admissible:
  assumes "policy_ok policy" "raw_keys_ok partial" "admissible_values policy dimension partial = Return vs"
    and "threshold value = Return q"
  shows "(\<exists>r. at_most vs value = Return r \<and>
      (case r of
         None \<Rightarrow> \<forall>n. of_int n \<le> q \<longrightarrow> admissibility_problems policy (set_dimension_to policy dimension partial (PInt n)) \<noteq> []
       | Some m \<Rightarrow> admissibility_problems policy (set_dimension_to policy dimension partial (PInt m)) = [] \<and> of_int m \<le> q \<and>
           (\<forall>n. admissibility_problems policy (set_dimension_to policy dimension partial (PInt n)) = [] \<and> of_int n \<le> q \<longrightarrow> n \<le> m))) \<and>
     (\<exists>r. at_least vs value = Return r \<and>
      (case r of
         None \<Rightarrow> \<forall>n. q \<le> of_int n \<longrightarrow> admissibility_problems policy (set_dimension_to policy dimension partial (PInt n)) \<noteq> []
       | Some m \<Rightarrow> admissibility_problems policy (set_dimension_to policy dimension partial (PInt m)) = [] \<and> q \<le> of_int m \<and>
           (\<forall>n. admissibility_problems policy (set_dimension_to policy dimension partial (PInt n)) = [] \<and> q \<le> of_int n \<longrightarrow> m \<le> n)))"
  using policy.greatest_not_above [OF assms] policy.least_not_below [OF assms] by blast

text \<open>C38: fixing dimensions one at a time never gets stuck.  After one dimension is set to a
  member of its answer, every other quantity of the schema still has a non-empty answer
  given the shape so far.\<close>

theorem fixing_never_stuck:
  assumes ok: "policy_ok policy" and "raw_keys_ok partial" "admissible_values policy dimension partial = Return vs"
    and "contains vs v" and q2: "quantity_path policy dimension2 = Return p2"
  shows "\<exists>vs2. admissible_values policy dimension2 (set_dimension_to policy dimension partial v) = Return vs2 \<and> \<not> is_empty vs2"
proof -
  obtain a b where p: "quantity_path policy dimension = Return (a, b)"
    using admissible_values_Return [OF assms(3)] by auto
  obtain P where P: "partial = shape_of P" "fams_ok P"
    using admissible_values_Return [OF assms(3)] p rest_readable [OF assms(2), of a b "open_schema (rp_schema policy)"] by auto
  define F where "F = dict_set a (dict_set b v (case map_of P a of None \<Rightarrow> [] | Some fs \<Rightarrow> fs)) P"
  have F: "set_dimension_to policy dimension partial v = shape_of F" "fams_ok F"
    using p P by (simp_all add: set_dimension_to_def with_field_shape_of F_def fams_ok_dict_set)
  have "admissibility_problems policy (shape_of F) = []"
    using policy.answer_exact [OF assms(1-3), of v] assms(4) F(1) by simp
  then have adm: "content_ok (open_schema (rp_schema policy)) (shape_map F)" "in_policy policy (shape_map F)"
    using admissibility_problems_Nil [OF ok F(2)] by auto
  let ?D = "drop_field F p2"
  have D: "without_field (shape_of F) p2 = shape_of ?D" "fams_ok ?D" "shape_map ?D = (shape_map F)(p2 := None)"
    using F(2) by (cases p2; simp add: without_field_shape_of fams_ok_drop_field shape_map_drop_field)+
  have os: "schema_ok (open_schema (rp_schema policy))" using ok by (simp add: policy_ok_def open_schema_ok)
  have inp: "in_policy policy (shape_map ?D)" using adm(2) D(3) by (auto simp: in_policy_def)
  have "shape_of ?D = PDict [] \<or> shape_problems (shape_of ?D) (open_schema (rp_schema policy)) = []"
  proof (cases "?D = []")
    case False
    then have "content_ok (open_schema (rp_schema policy)) (shape_map ?D)"
      using adm(1) D(3) shape_map_empty_iff [OF D(2)] unfolding open_content_ok by auto
    then show ?thesis using shape_problems_Nil [OF os D(2)] by simp
  qed (simp add: shape_of_alt)
  moreover have "violations policy (shape_of ?D) = []" using violations_Nil [of "shape_of ?D" policy] D(2) inp by simp
  ultimately show ?thesis
    using q2 by (auto simp: F(1) admissible_values_def D(1) Let_def is_empty_def)
qed

text \<open>The highest tier that states a bound wins.  Merging declarations yields a policy
  exactly when every constrained path is a quantity of the schema and no merged range is
  empty, and then each field's minimum and maximum, with their tier labels, are those of the
  first declaration, highest tier first, that states them; otherwise problems are reported
  and no policy is returned.\<close>

theorem resolve_highest_tier:
  assumes "\<forall>d \<in> set ds. decl_ok d" "schema_ok schema"
  shows "if mergeable ds schema
     then \<exists>policy. resolve ds schema = ([], Some policy) \<and> policy_ok policy \<and> rp_schema policy = schema \<and>
       (\<forall>p. minimum (policy_leaf policy p) = map_option fst (first_stated ds p MIN_KEY) \<and>
            minimum_tier (policy_leaf policy p) = map_option snd (first_stated ds p MIN_KEY) \<and>
            maximum (policy_leaf policy p) = map_option fst (first_stated ds p MAX_KEY) \<and>
            maximum_tier (policy_leaf policy p) = map_option snd (first_stated ds p MAX_KEY))
     else \<exists>ps. resolve ds schema = (ps, None) \<and> ps \<noteq> []"
  using resolve_cases [OF assms(1), of schema] resolve_policy_ok [OF assms] by (auto split: if_splits)

text \<open>A constraint-only declaration that parses under a schema resolves under it: the
  parser's checks leave nothing for a single tier's resolution to refuse, and the resulting
  policy has the declared bounds.\<close>

theorem parsed_declaration_resolves:
  assumes "schema_ok schema" "parse_declaration frepr raw tier (Some schema) = Return dp" "dp_declaration dp = Some d"
  shows "dp_problems dp = [] \<and> (\<exists>policy. resolve [d] schema = ([], Some policy) \<and> policy_ok policy \<and>
     (\<forall>p. minimum (policy_leaf policy p) = bound_in d p MIN_KEY \<and> maximum (policy_leaf policy p) = bound_in d p MAX_KEY))"
proof -
  note c = parse_declaration_ok [OF assms(2,3)]
  then have d: "decl_ok d" "mergeable [d] schema"
    using collected_decl_ok [of "Some schema" "d_bounds d" "d_tier d"]
      collected_mergeable [of schema "d_bounds d" "d_tier d"] by (cases d; simp)+
  have single: "map_option fst (first_stated [d] p k) = bound_in d p k" for p k
    by (cases "bound_in d p k") simp_all
  obtain ps policy where r: "resolve [d] schema = (ps, Some policy)" "ps = []"
    using resolve_cases [of "[d]" schema] d by auto
  from resolve_policy_ok [OF _ assms(1) r(1)] d(1) single r c show ?thesis by simp
qed

text \<open>A stated list is split without losing or duplicating an entry: the positions named
  by the resulting splits are the positions of the list, each once, and each split has either
  an unreadable base shape alone, or a base shape and exactly one of a well-formed
  declaration and constraint problems.\<close>

theorem split_listing_shapes_partition:
  assumes "require_tier tier = Return t"
  shows "\<exists>shapes. split_listing_shapes frepr json_sha256 raw_list tier schema = Return shapes \<and>
     (\<forall>s \<in> set shapes. split_ok schema s) \<and>
     mset (concat (map ss_entries shapes)) = mset [0..<length raw_list]"
  by (rule split_listing_shapes_ok [OF assms])

text \<open>What a clean constraint is.  A constraint mapping of a listing or of a declaration
  has no problem exactly when it is non-empty, states only keys allowed there, all of them
  positive integers, with \<open>min \<le> offer \<le> max\<close> for the ones it states.\<close>

theorem constraint_problems_iff:
  assumes "allowed = LISTING_KEYS \<or> allowed = DECLARATION_KEYS"
  shows "constraint_problems frepr path mapping allowed tier entries = [] \<longleftrightarrow> clean_constraint mapping allowed"
  by (rule constraint_problems_clean [OF assms])

section \<open>Witnesses\<close>

definition ex_declaration :: tier_declaration where
  "ex_declaration = \<lparr>d_tier = ''listing'', d_bounds = [((''gpu'', ''count''), [(''min'', 1), (''max'', 4)])]\<rparr>"

definition ex_default :: tier_declaration where
  "ex_default = \<lparr>d_tier = ''default'', d_bounds = [((''gpu'', ''count''), [(''max'', 8)]), ((''memory'', ''gib''), [(''max'', 512)])]\<rparr>"

definition ex_policy :: resolved_policy where
  "ex_policy = \<lparr>rp_schema = ex_schema, rp_leaves =
     [((''gpu'', ''count''), \<lparr>minimum = Some 1, minimum_tier = Some ''listing'', maximum = Some 4, maximum_tier = Some ''listing''\<rparr>),
      ((''memory'', ''gib''), \<lparr>minimum = None, minimum_tier = None, maximum = Some 512, maximum_tier = Some ''default''\<rparr>)]\<rparr>"

definition ex_partial :: pyval where
  "ex_partial = PDict [(PStr ''gpu'', PDict [(PStr ''model'', PStr ''H100'')])]"

lemma ex_policy_ok: "policy_ok ex_policy"
  using ex_schema_ok
  by (simp add: policy_ok_def ex_policy_def leaf_ok_def is_quantity_def ex_schema_def schema_lookup_def)

lemma ex_partial_keys: "raw_keys_ok ex_partial"
  by code_simp

lemma ex_answer: "admissible_values ex_policy (PStr ''gpu.count'') ex_partial = Return \<lparr>av_low = Some 1, av_high = Some 4\<rparr>"
  by code_simp

theorem admissible_values_exact_witness:
  "admissibility_problems ex_policy (set_dimension_to ex_policy (PStr ''gpu.count'') ex_partial (PInt 3)) = [] \<and>
   admissibility_problems ex_policy (set_dimension_to ex_policy (PStr ''gpu.count'') ex_partial (PInt 5)) \<noteq> []"
  using admissible_values_exact [OF ex_policy_ok ex_partial_keys ex_answer, of "PInt 3"]
    admissible_values_exact [OF ex_policy_ok ex_partial_keys ex_answer, of "PInt 5"]
  by (simp add: contains_def)

theorem thresholds_pick_admissible_witness:
  "\<exists>r. at_most \<lparr>av_low = Some 1, av_high = Some 4\<rparr> (PInt 9) = Return r \<and>
     (case r of None \<Rightarrow> False
      | Some m \<Rightarrow> admissibility_problems ex_policy (set_dimension_to ex_policy (PStr ''gpu.count'') ex_partial (PInt m)) = [])"
proof -
  have "threshold (PInt 9) = Return 9" by (simp add: threshold_def)
  note t = thresholds_pick_admissible [OF ex_policy_ok ex_partial_keys ex_answer this]
  have "at_most \<lparr>av_low = Some 1, av_high = Some 4\<rparr> (PInt 9) = Return (Some 4)"
    by (simp add: at_most_def threshold_def)
  with t show ?thesis by auto
qed

theorem fixing_never_stuck_witness:
  "\<exists>vs2. admissible_values ex_policy (PStr ''memory.gib'')
      (set_dimension_to ex_policy (PStr ''gpu.count'') ex_partial (PInt 3)) = Return vs2 \<and> \<not> is_empty vs2"
proof (rule fixing_never_stuck [OF ex_policy_ok ex_partial_keys ex_answer])
  show "contains \<lparr>av_low = Some 1, av_high = Some 4\<rparr> (PInt 3)" by (simp add: contains_def)
  show "quantity_path ex_policy (PStr ''memory.gib'') = Return (''memory'', ''gib'')" by code_simp
qed

lemma ex_decls_ok: "\<forall>d \<in> set [ex_declaration, ex_default]. decl_ok d"
  by (simp add: ex_declaration_def ex_default_def decl_ok_def bounds_ok_def)

theorem resolve_highest_tier_witness:
  "\<exists>policy. resolve [ex_declaration, ex_default] ex_schema = ([], Some policy) \<and>
     maximum (policy_leaf policy (''gpu'', ''count'')) = Some 4 \<and> maximum_tier (policy_leaf policy (''gpu'', ''count'')) = Some ''listing''"
proof -
  have r: "resolve [ex_declaration, ex_default] ex_schema = ([], Some ex_policy)" by code_simp
  have f: "first_stated [ex_declaration, ex_default] (''gpu'', ''count'') MAX_KEY = Some (4, ''listing'')"
    by (simp add: ex_declaration_def ex_default_def bound_in_def MAX_KEY_def)
  from resolve_highest_tier [OF ex_decls_ok ex_schema_ok] r f show ?thesis by (auto split: if_splits)
qed

theorem parsed_declaration_resolves_witness:
  "\<exists>d policy. parse_declaration (\<lambda>_. ''0.5'') (PDict [(PStr ''gpu'', PDict [(PStr ''count'', PDict [(PStr ''max'', PInt 2)])])])
       (PStr ''default'') (Some ex_schema) = Return \<lparr>dp_declaration = Some d, dp_problems = []\<rparr> \<and>
     resolve [d] ex_schema = ([], Some policy) \<and> policy_ok policy"
proof -
  let ?d = "\<lparr>d_tier = ''default'', d_bounds = [((''gpu'', ''count''), [(''max'', 2)])]\<rparr>"
  have p: "parse_declaration (\<lambda>_. ''0.5'') (PDict [(PStr ''gpu'', PDict [(PStr ''count'', PDict [(PStr ''max'', PInt 2)])])])
       (PStr ''default'') (Some ex_schema) = Return \<lparr>dp_declaration = Some ?d, dp_problems = []\<rparr>"
    by code_simp
  from parsed_declaration_resolves [OF ex_schema_ok p] p show ?thesis by auto
qed

theorem split_listing_shapes_partition_witness:
  "\<exists>shapes. split_listing_shapes (\<lambda>_. ''0.5'') (\<lambda>_. ''00'') [ex_partial, PNone, ex_partial] (PStr ''listing'') None = Return shapes \<and>
     mset (concat (map ss_entries shapes)) = {#0, 1, 2#}"
proof -
  have "require_tier (PStr ''listing'') = Return ''listing''" by code_simp
  from split_listing_shapes_partition [OF this, of "\<lambda>_. ''0.5''" "\<lambda>_. ''00''" "[ex_partial, PNone, ex_partial]" None]
  show ?thesis by (auto simp: eval_nat_numeral)
qed

theorem constraint_problems_iff_witness:
  "constraint_problems (\<lambda>_. ''0.5'') ''gpu.count'' [(PStr ''max'', PInt 4)] DECLARATION_KEYS ''default'' [] = [] \<and>
   clean_constraint [(PStr ''max'', PInt 4)] DECLARATION_KEYS"
proof -
  have "constraint_problems (\<lambda>_. ''0.5'') ''gpu.count'' [(PStr ''max'', PInt 4)] DECLARATION_KEYS ''default'' [] = []"
    by code_simp
  with constraint_problems_iff [of DECLARATION_KEYS "\<lambda>_. ''0.5''" "''gpu.count''" "[(PStr ''max'', PInt 4)]" "''default''" "[]"]
  show ?thesis by simp
qed

end
