(* ===== verification/Ledger_Claims.thy ===== *)
theory Ledger_Claims
  imports Prelude
begin

text \<open>
  The stateless part of the site ledger, \<open>src/kit/site/src/market_site/ledger.py\<close> (lines 60 to
  610): timestamps and lease windows, parsing of a capacity claim, dimension maps,
  the feasibility view of a resource and claim matching; with the two predicates it takes
  from the resource-pool kits, \<open>declaration_has_usable_host\<close>
  (\<open>src/kit/resource-pools/src/market_resource_pools/host_requirement.py\<close>) and
  \<open>pool_delivers_offering_mode\<close>
  (\<open>src/kit/resource-pools-contracts/src/market_resource_pools_contracts/hints.py\<close>).

  Instants are microseconds since the epoch.  \<open>env\<close> collects the conversions of the Python
  runtime the code relies on: \<open>datetime.fromisoformat\<close> (a naive text read as UTC),
  \<open>datetime.isoformat\<close>, \<open>Decimal(text)\<close>, the decimal a float's text denotes, and the value of
  \<open>float(amount)\<close> read back.  \<open>Decimal\<close> amounts are exact rationals.
\<close>

section \<open>Errors and the runtime's conversions\<close>

datatype ledger_error =
    MissingOfferingMode
  | BadOfferingMode pyval
  | UnitsNotInteger string pyval
  | UnitsOverflow string
  | UnitsNotPositive string int
  | NotNumeric string pyval
  | NotFiniteAmount string pyval
  | AmountNotPositive string rat
  | AmountNegative string rat
  | BadDimensions pyval
  | DurationNotPositive int
  | MalformedModes string
  | HostRequirementNotBool string
  | MissingPool
  | UnitsDisagree string rat int
  | NoDimension
  | UnknownPool string
  | HostTaken string string
  | HeldInPool string string string
  | OfferingModeMismatch
  | UndeclaredOfferingMode "string list"
  | NotHeld string
  | SettlementUnavailable string
  | SettlementNoPool string
  | NoExecutorIdentity string
  | NoUsableHost string
  | LacksCapacity string
  | NoDebit string
  | CannotCommit string
  | CannotActivate string
  | NoLeaseTail string
  | EffectRaised string

datatype decimal_value = DFinite rat | DNonFinite

record env =
  fromisoformat :: "string \<Rightarrow> int option"
  isoformat :: "int \<Rightarrow> string"
  decimal_of_text :: "string \<Rightarrow> decimal_value option"
  decimal_of_float :: "rat \<Rightarrow> rat"
  float_of :: "rat \<Rightarrow> rat"
  float_repr :: "rat \<Rightarrow> string"

type_synonym dims = "(string \<times> rat) list"

definition dim :: "dims \<Rightarrow> string \<Rightarrow> rat" where
  "dim d k = (case map_of d k of None \<Rightarrow> 0 | Some q \<Rightarrow> q)"

text \<open>\<open>m.get(k)\<close>: the value, or \<open>None\<close> for an absent key.\<close>

definition get_val :: "(string \<times> pyval) list \<Rightarrow> string \<Rightarrow> pyval" where
  "get_val m k = (case map_of m k of None \<Rightarrow> PNone | Some v \<Rightarrow> v)"

section \<open>Timestamps and windows\<close>

definition replace_Z :: "string \<Rightarrow> string" where
  "replace_Z s = concat (map (\<lambda>c. if c = CHR ''Z'' then ''+00:00'' else [c]) s)"

fun replace_first_space :: "string \<Rightarrow> string" where
  "replace_first_space [] = []"
| "replace_first_space (c # cs) = (if c = CHR '' '' then CHR ''T'' # cs else c # replace_first_space cs)"

definition parse_utc :: "env \<Rightarrow> string option \<Rightarrow> int option" where
  "parse_utc E value = (case value of
     None \<Rightarrow> None
   | Some v \<Rightarrow>
       if v = [] then None
       else (let txt = replace_Z (py_strip v) in
         (case fromisoformat E txt of
            Some t \<Rightarrow> Some t
          | None \<Rightarrow> fromisoformat E (replace_first_space txt))))"

definition SECOND :: int where "SECOND = 1000000"

definition lease_window ::
    "env \<Rightarrow> int \<Rightarrow> string option \<Rightarrow> int option \<Rightarrow> string option \<Rightarrow> (ledger_error, int option \<times> int option) result" where
  "lease_window E now lease_start_utc lease_duration_seconds lease_end_utc =
     (let start = parse_utc E lease_start_utc; stop = parse_utc E lease_end_utc in
      case lease_duration_seconds of
        None \<Rightarrow> Return (start, stop)
      | Some seconds \<Rightarrow>
          if seconds \<le> 0 then Raise (DurationNotPositive seconds)
          else (let s = (case start of None \<Rightarrow> now | Some t \<Rightarrow> t) in
                Return (Some s, Some (s + seconds * SECOND))))"

definition windows_overlap :: "int option \<Rightarrow> int option \<Rightarrow> int option \<Rightarrow> int option \<Rightarrow> bool" where
  "windows_overlap a_start a_end b_start b_end =
     (if (case (a_end, b_start) of (Some e1, Some s2) \<Rightarrow> e1 \<le> s2 | _ \<Rightarrow> False) then False
      else if (case (b_end, a_start) of (Some e2, Some s1) \<Rightarrow> e2 \<le> s1 | _ \<Rightarrow> False) then False
      else True)"

section \<open>Parsing a claim\<close>

type_synonym claim = "(string \<times> pyval) list"

definition OFFERING_MODE_CLAIM_KEY :: string where "OFFERING_MODE_CLAIM_KEY = ''offering_mode''"
definition DIMENSIONS_CLAIM_KEY :: string where "DIMENSIONS_CLAIM_KEY = ''dimensions''"

definition requested_offering_mode :: "claim \<Rightarrow> bool \<Rightarrow> (ledger_error, string option) result" where
  "requested_offering_mode claim required = (case get_val claim OFFERING_MODE_CLAIM_KEY of
     PNone \<Rightarrow> if required then Raise MissingOfferingMode else Return None
   | PStr s \<Rightarrow> if py_strip s = [] \<or> s \<noteq> py_strip s then Raise (BadOfferingMode (PStr s)) else Return (Some s)
   | v \<Rightarrow> Raise (BadOfferingMode v))"

definition requested_units :: "claim \<Rightarrow> string list \<Rightarrow> (ledger_error, int) result" where
  "requested_units claim unit_claim_keys =
     (case find (\<lambda>k. get_val claim k \<noteq> PNone) unit_claim_keys of
        None \<Rightarrow> Return 1
      | Some key \<Rightarrow>
          (let raw = get_val claim key;
               positive = (\<lambda>n. if n < 1 then Raise (UnitsNotPositive key n) else Return n);
               refused = Raise (UnitsNotInteger key raw) in
           case raw of
             PInt n \<Rightarrow> positive n
           | PFloat (FFin q) \<Rightarrow> positive (if q < 0 then - \<lfloor>- q\<rfloor> else \<lfloor>q\<rfloor>)
           | PFloat (FInf _) \<Rightarrow> Raise (UnitsOverflow key)
           | PStr s \<Rightarrow> (case py_int_text s of None \<Rightarrow> refused | Some n \<Rightarrow> positive n)
           | _ \<Rightarrow> refused))"

text \<open>\<open>Decimal(str(value))\<close> as \<open>_to_decimal\<close> and \<open>_to_decimal_nonneg\<close> read it.\<close>

definition finite_decimal :: "env \<Rightarrow> string \<Rightarrow> pyval \<Rightarrow> (ledger_error, rat) result" where
  "finite_decimal E label value = (case value of
     PInt n \<Rightarrow> Return (of_int n)
   | PFloat (FFin q) \<Rightarrow> Return (decimal_of_float E q)
   | PFloat _ \<Rightarrow> Raise (NotFiniteAmount label value)
   | PStr s \<Rightarrow> (case decimal_of_text E s of
        None \<Rightarrow> Raise (NotNumeric label value)
      | Some DNonFinite \<Rightarrow> Raise (NotFiniteAmount label value)
      | Some (DFinite q) \<Rightarrow> Return q)
   | _ \<Rightarrow> Raise (NotNumeric label value))"

definition to_decimal :: "env \<Rightarrow> string \<Rightarrow> pyval \<Rightarrow> (ledger_error, rat) result" where
  "to_decimal E label value = res_bind (finite_decimal E label value) (\<lambda>amount.
     if amount \<le> 0 then Raise (AmountNotPositive label amount) else Return amount)"

definition to_decimal_nonneg :: "env \<Rightarrow> string \<Rightarrow> pyval \<Rightarrow> (ledger_error, rat) result" where
  "to_decimal_nonneg E label value = res_bind (finite_decimal E label value) (\<lambda>amount.
     if amount < 0 then Raise (AmountNegative label amount) else Return amount)"

definition read_dimension :: "env \<Rightarrow> pyval \<times> pyval \<Rightarrow> (ledger_error, string \<times> rat) result" where
  "read_dimension E item = (case item of (key, value) \<Rightarrow>
     (let name = py_str (float_repr E) key in
      res_bind (to_decimal E name value) (\<lambda>amount. Return (name, amount))))"

definition dict_of_pairs :: "(string \<times> 'a) list \<Rightarrow> (string \<times> 'a) list" where
  "dict_of_pairs xs = fold (\<lambda>(k, v). dict_set k v) xs []"

definition requested_dimensions :: "env \<Rightarrow> claim \<Rightarrow> string list \<Rightarrow> string \<Rightarrow> (ledger_error, dims) result" where
  "requested_dimensions E claim unit_claim_keys mirror =
     (case map_of claim DIMENSIONS_CLAIM_KEY of
        None \<Rightarrow> res_bind (requested_units claim unit_claim_keys) (\<lambda>n. Return [(mirror, of_int n)])
      | Some (PDict raw) \<Rightarrow>
          if raw = [] then Raise (BadDimensions (PDict raw))
          else res_bind (res_map (read_dimension E) raw) (\<lambda>pairs. Return (dict_of_pairs pairs))
      | Some v \<Rightarrow> Raise (BadDimensions v))"

text \<open>An integral amount is stored exactly, any other as a float.\<close>

definition serialize_amount :: "env \<Rightarrow> rat \<Rightarrow> rat" where
  "serialize_amount E q = (if of_int \<lfloor>q\<rfloor> = q then q else float_of E q)"

definition serialize_dimensions :: "env \<Rightarrow> dims \<Rightarrow> dims" where
  "serialize_dimensions E d = map (\<lambda>(k, q). (k, serialize_amount E q)) d"

definition negate_dims :: "dims \<Rightarrow> dims" where
  "negate_dims d = map (\<lambda>(k, q). (k, - q)) d"

text \<open>\<open>{k: a.get(k, 0) - b.get(k, 0) for k in set(a) | set(b)}\<close>; the order of a set's elements
  carries no information.\<close>

definition sub_dims :: "dims \<Rightarrow> dims \<Rightarrow> dims" where
  "sub_dims a b = map (\<lambda>k. (k, dim a k - dim b k)) (remdups (map fst a @ map fst b))"

datatype change_kind = KReleased | KReserved | KCapacityChanged | KCommitted | KLeaseTruncated
  | KReleasedForReassignment | KAssignedForSettlement

definition capacity_change_kind :: "dims \<Rightarrow> bool option \<Rightarrow> bool \<Rightarrow> change_kind" where
  "capacity_change_kind delta old_enabled new_enabled =
     (let signs = (\<lambda>(k, q). q > 0) ` set (filter (\<lambda>(k, q). q \<noteq> 0) delta) \<union>
            (case old_enabled of None \<Rightarrow> {} | Some old \<Rightarrow> if old \<noteq> new_enabled then {new_enabled} else {}) in
      if signs = {} \<or> signs = {True} then KReleased
      else if signs = {False} then KReserved
      else KCapacityChanged)"

definition split_claim_requirement :: "claim \<Rightarrow> string list \<Rightarrow> pyval \<times> claim" where
  "split_claim_requirement claim unit_claim_keys =
     (get_val claim ''resource_type'',
      filter (\<lambda>(key, expected). key \<notin> set unit_claim_keys \<and> key \<noteq> DIMENSIONS_CLAIM_KEY \<and>
        key \<noteq> OFFERING_MODE_CLAIM_KEY \<and> key \<noteq> ''resource_type'') claim)"

section \<open>Feasibility of a resource\<close>

record feasibility_view =
  fv_resource_id :: string
  fv_pool_id :: string
  fv_kind :: string
  fv_available :: dims
  fv_attributes :: "(string \<times> pyval) list"
  fv_host_id :: "string option"

definition opt_str :: "string option \<Rightarrow> pyval" where
  "opt_str s = (case s of None \<Rightarrow> PNone | Some t \<Rightarrow> PStr t)"

definition opt_int :: "int option \<Rightarrow> pyval" where
  "opt_int n = (case n of None \<Rightarrow> PNone | Some k \<Rightarrow> PInt k)"

text \<open>\<open>value or default\<close> on an optional text.\<close>

definition or_else :: "string option \<Rightarrow> string \<Rightarrow> string" where
  "or_else s d = (case s of None \<Rightarrow> d | Some t \<Rightarrow> if t = [] then d else t)"

definition resource_feasibility_view ::
    "string \<Rightarrow> string option \<Rightarrow> string \<Rightarrow> dims \<Rightarrow> (string \<times> pyval) list \<Rightarrow> string option \<Rightarrow> pyval \<Rightarrow> pyval \<Rightarrow>
     string option \<Rightarrow> string \<Rightarrow> feasibility_view" where
  "resource_feasibility_view resource_id pool_id resource_kind available attributes resource_subtype value units host_id mirror =
     (let authoritative_pool_id = or_else pool_id resource_id;
          normalized = fold (\<lambda>(k, v). dict_set k v)
            [(''resource_id'', PStr resource_id), (''host_id'', opt_str host_id), (''resource_type'', PStr resource_kind),
             (''resource_subtype'', opt_str resource_subtype), (''value'', value), (''units'', units), (mirror, units),
             (''pool_id'', PStr authoritative_pool_id)] attributes in
      \<lparr>fv_resource_id = resource_id, fv_pool_id = authoritative_pool_id, fv_kind = resource_kind,
       fv_available = available, fv_attributes = normalized, fv_host_id = host_id\<rparr>)"

definition resource_satisfies_requirement :: "feasibility_view \<Rightarrow> pyval \<Rightarrow> dims \<Rightarrow> claim \<Rightarrow> bool" where
  "resource_satisfies_requirement view required_kind required_dimensions required_attributes =
     (if required_kind \<noteq> PNone \<and> \<not> py_eq (PStr (fv_kind view)) required_kind then False
      else if list_ex (\<lambda>(d, amount). dim (fv_available view) d < amount) required_dimensions then False
      else list_all (\<lambda>(key, value). py_eq (get_val (fv_attributes view) key) value) required_attributes)"

text \<open>A row of the wire-shaped snapshot.\<close>

record snapshot_row =
  row_resource_id :: string
  row_pool_id :: "string option"
  row_type :: string
  row_subtype :: "string option"
  row_host_id :: "string option"
  row_value :: "int option"
  row_state :: string
  row_available_units :: "int option"
  row_capacity :: dims
  row_available :: dims
  row_attributes :: "(string \<times> pyval) list"
  row_enabled :: bool

definition dict_resource_satisfies_claim ::
    "env \<Rightarrow> snapshot_row \<Rightarrow> claim \<Rightarrow> string list \<Rightarrow> string \<Rightarrow> (ledger_error, bool) result" where
  "dict_resource_satisfies_claim E row claim unit_claim_keys mirror =
     (if or_else (row_pool_id row) [] = [] then Return False
      else if claim = [] then Return True
      else
        (let (kind, required_attributes) = split_claim_requirement claim unit_claim_keys in
         res_bind (requested_dimensions E claim unit_claim_keys mirror) (\<lambda>required_dimensions.
           Return (resource_satisfies_requirement
             (resource_feasibility_view (row_resource_id row) (row_pool_id row) (row_type row) (row_available row)
                (row_attributes row) (row_subtype row) (opt_int (row_value row)) (opt_int (row_available_units row))
                (row_host_id row) mirror)
             kind required_dimensions required_attributes))))"

section \<open>Hosts and offering modes\<close>

type_synonym host_requirement = "(string \<times> pyval) list"

definition pool_needs_host :: "string option \<Rightarrow> host_requirement option \<Rightarrow> (ledger_error, bool) result" where
  "pool_needs_host provider host_requirement = (case host_requirement of
     None \<Rightarrow> Return False
   | Some req \<Rightarrow>
       (case provider of
          None \<Rightarrow> Return True
        | Some p \<Rightarrow>
            (case map_of req p of
               None \<Rightarrow> Return True
             | Some (PBool b) \<Rightarrow> Return b
             | Some _ \<Rightarrow> Raise (HostRequirementNotBool p))))"

definition declaration_has_usable_host ::
    "string option \<Rightarrow> string option \<Rightarrow> bool \<Rightarrow> host_requirement option \<Rightarrow> string list option \<Rightarrow> (ledger_error, bool) result" where
  "declaration_has_usable_host host_id provider backed host_requirement deliverable =
     (if host_requirement = None \<or> \<not> backed then Return True
      else res_bind (pool_needs_host provider host_requirement) (\<lambda>needs.
        Return (if \<not> needs then True
          else if or_else host_id [] = [] then False
          else (case deliverable of None \<Rightarrow> True | Some hosts \<Rightarrow> the host_id \<in> set hosts))))"

definition DELIVERABLE_MODES_POLICY_TAG :: string where "DELIVERABLE_MODES_POLICY_TAG = ''deliverable_modes''"

definition mode_name :: "string \<Rightarrow> pyval \<Rightarrow> (ledger_error, string) result" where
  "mode_name tag value = (case value of
     PStr s \<Rightarrow> if py_strip s = [] \<or> s \<noteq> py_strip s then Raise (MalformedModes tag) else Return s
   | _ \<Rightarrow> Raise (MalformedModes tag))"

definition declared_mode_set :: "(string \<times> pyval) list \<Rightarrow> string \<Rightarrow> (ledger_error, string list) result" where
  "declared_mode_set policy_tags tag = (case map_of policy_tags tag of
     None \<Rightarrow> Return []
   | Some (PList raw) \<Rightarrow> res_bind (res_map (mode_name tag) raw) (\<lambda>modes.
       if distinct modes then Return modes else Raise (MalformedModes tag))
   | Some _ \<Rightarrow> Raise (MalformedModes tag))"

definition declared_deliverable_modes :: "(string \<times> pyval) list \<Rightarrow> (ledger_error, string list) result" where
  "declared_deliverable_modes policy_tags = declared_mode_set policy_tags DELIVERABLE_MODES_POLICY_TAG"

definition pool_delivers_offering_mode :: "(string \<times> pyval) list \<Rightarrow> string \<Rightarrow> (ledger_error, bool) result" where
  "pool_delivers_offering_mode policy_tags requested_mode =
     (if py_strip requested_mode = [] then Return False
      else res_bind (declared_deliverable_modes policy_tags) (\<lambda>modes. Return (requested_mode \<in> set modes)))"

section \<open>What a parsed claim satisfies\<close>

definition dims_pos :: "dims \<Rightarrow> bool" where
  "dims_pos d = (d \<noteq> [] \<and> dict_ok d \<and> (\<forall>(k, q) \<in> set d. 0 < q))"

lemma to_decimal_pos: "to_decimal E label v = Return q \<Longrightarrow> 0 < q"
  by (auto simp: to_decimal_def res_bind_Inr_iff split: if_splits)

lemma requested_units_pos: "requested_units claim keys = Return n \<Longrightarrow> 0 < n"
  by (auto simp: requested_units_def Let_def split: option.splits pyval.splits pyfloat.splits if_splits)

lemma dict_of_pairs_ok: "dict_ok (dict_of_pairs xs)"
proof -
  have "dict_ok d \<Longrightarrow> dict_ok (fold (\<lambda>(k, v). dict_set k v) xs d)" for d
    by (induction xs arbitrary: d) auto
  then show ?thesis by (simp add: dict_of_pairs_def)
qed

lemma dict_of_pairs_set: "set (dict_of_pairs xs) \<subseteq> set xs"
proof -
  have "set (fold (\<lambda>(k, v). dict_set k v) xs d) \<subseteq> set xs \<union> set d" for d
  proof (induction xs arbitrary: d)
    case (Cons x xs)
    obtain k v where x: "x = (k, v)" by (cases x)
    from Cons.IH [of "dict_set k v d"] set_dict_set [of k v d] x show ?case by auto
  qed simp
  from this [of "[]"] show ?thesis by (simp add: dict_of_pairs_def)
qed

lemma fold_dict_set_ne: "d \<noteq> [] \<Longrightarrow> fold (\<lambda>(k, v). dict_set k v) xs d \<noteq> []"
proof (induction xs arbitrary: d)
  case (Cons x xs)
  obtain k v where x: "x = (k, v)" by (cases x)
  have "dict_set k v d \<noteq> []" by (simp add: update_nonempty)
  with Cons.IH x show ?case by simp
qed simp

lemma dict_of_pairs_Nil [simp]: "dict_of_pairs xs = [] \<longleftrightarrow> xs = []"
proof (cases xs)
  case (Cons x ys)
  obtain k v where x: "x = (k, v)" by (cases x)
  have "fold (\<lambda>(k, v). dict_set k v) ys [(k, v)] \<noteq> []" by (rule fold_dict_set_ne) simp
  with Cons x show ?thesis by (simp add: dict_of_pairs_def)
qed (simp add: dict_of_pairs_def)

lemma requested_dimensions_pos:
  assumes "requested_dimensions E claim keys mirror = Return d"
  shows "dims_pos d"
proof (cases "map_of claim DIMENSIONS_CLAIM_KEY")
  case None
  with assms show ?thesis
    by (auto simp: requested_dimensions_def res_bind_Inr_iff dims_pos_def dest: requested_units_pos)
next
  case (Some v)
  with assms obtain raw pairs where raw: "v = PDict raw" "raw \<noteq> []" "res_map (read_dimension E) raw = Return pairs"
      "d = dict_of_pairs pairs"
    by (auto simp: requested_dimensions_def res_bind_Inr_iff split: pyval.splits if_splits)
  then have all2: "list_all2 (\<lambda>x y. read_dimension E x = Return y) raw pairs" by (simp add: res_map_Inr_iff)
  then have "pairs \<noteq> []" using raw(2) by auto
  have "0 < q" if "(k, q) \<in> set pairs" for k q
  proof -
    from that obtain i where "i < length pairs" "pairs ! i = (k, q)" by (auto simp: in_set_conv_nth)
    then have "read_dimension E (raw ! i) = Return (k, q)" using all2 by (auto simp: list_all2_conv_all_nth)
    then obtain x where "read_dimension E x = Return (k, q)" ..
    then show ?thesis
      by (cases x) (auto simp: read_dimension_def Let_def res_bind_Inr_iff dest: to_decimal_pos)
  qed
  with raw(4) \<open>pairs \<noteq> []\<close> dict_of_pairs_set [of pairs] show ?thesis
    by (auto simp: dims_pos_def dict_of_pairs_ok)
qed

section \<open>Dimension maps\<close>

lemma dim_Nil [simp]: "dim [] k = 0"
  by (simp add: dim_def)

lemma dim_mem: "dict_ok d \<Longrightarrow> (k, q) \<in> set d \<Longrightarrow> dim d k = q"
  by (simp add: dim_def)

lemma dim_dict_set: "dim (dict_set k q d) k' = (if k' = k then q else dim d k')"
  by (simp add: dim_def)

lemma dim_nonneg: "\<forall>(k, q) \<in> set d. 0 \<le> q \<Longrightarrow> 0 \<le> dim d k"
  by (auto simp: dim_def split: option.splits dest!: map_of_SomeD)

lemma map_of_serialize: "map_of (serialize_dimensions E d) k = map_option (serialize_amount E) (map_of d k)"
  by (induction d) (auto simp: serialize_dimensions_def)

text \<open>Amounts the ledger stores without rounding; every integral amount is one.\<close>

definition exact_dims :: "env \<Rightarrow> dims \<Rightarrow> bool" where
  "exact_dims E d = (\<forall>(k, q) \<in> set d. serialize_amount E q = q)"

lemma serialize_exact: "exact_dims E d \<Longrightarrow> serialize_dimensions E d = d"
  by (induction d) (auto simp: exact_dims_def serialize_dimensions_def)

lemma serialize_integral: "serialize_amount E (of_int n) = of_int n"
  by (simp add: serialize_amount_def)

lemma dict_ok_serialize [simp]: "dict_ok (serialize_dimensions E d) = dict_ok d"
  by (simp add: serialize_dimensions_def comp_def split_beta)

section \<open>Windows\<close>

definition in_window :: "int option \<Rightarrow> int option \<Rightarrow> int \<Rightarrow> bool" where
  "in_window s e t = ((\<forall>x. s = Some x \<longrightarrow> x \<le> t) \<and> (\<forall>y. e = Some y \<longrightarrow> t < y))"

lemma in_window_code [code]:
  "in_window s e t = ((case s of None \<Rightarrow> True | Some x \<Rightarrow> x \<le> t) \<and> (case e of None \<Rightarrow> True | Some y \<Rightarrow> t < y))"
  by (cases s; cases e) (simp_all add: in_window_def)

definition proper_window :: "int option \<Rightarrow> int option \<Rightarrow> bool" where
  "proper_window s e = (\<forall>x y. s = Some x \<longrightarrow> e = Some y \<longrightarrow> x < y)"

text \<open>A common instant of two windows: the later start, or failing that the instant before an end.\<close>

lemma common_instant:
  assumes "windows_overlap s1 e1 s2 e2" "proper_window s1 e1" "proper_window s2 e2"
  shows "\<exists>t. in_window s1 e1 t \<and> in_window s2 e2 t"
proof -
  define t where "t = (case (s1, s2) of
      (Some a, Some b) \<Rightarrow> max a b | (Some a, None) \<Rightarrow> a | (None, Some b) \<Rightarrow> b
    | (None, None) \<Rightarrow> (case (e1, e2) of (Some a, Some b) \<Rightarrow> min a b - 1 | (Some a, None) \<Rightarrow> a - 1
         | (None, Some b) \<Rightarrow> b - 1 | (None, None) \<Rightarrow> 0))"
  have "in_window s1 e1 t \<and> in_window s2 e2 t"
    using assms unfolding t_def in_window_def windows_overlap_def proper_window_def
    by (cases s1; cases e1; cases s2; cases e2) (auto split: if_splits)
  then show ?thesis by blast
qed

lemma overlap_of_common:
  assumes "in_window s1 e1 t" "in_window s2 e2 t"
  shows "windows_overlap s1 e1 s2 e2"
  using assms unfolding in_window_def windows_overlap_def
  by (cases s1; cases e1; cases s2; cases e2) auto

lemma lease_window_proper:
  assumes "lease_window E now start (Some seconds) stop = Return (s, e)"
  shows "proper_window s e \<and> (\<exists>x. s = Some x \<and> e = Some (x + seconds * SECOND)) \<and> 0 < seconds"
  using assms by (auto simp: lease_window_def Let_def proper_window_def SECOND_def split: if_splits)

section \<open>Feasibility\<close>

lemma fold_dict_set_get:
  "map_of (fold (\<lambda>(k, v). dict_set k v) xs d) k = (case map_of (rev xs) k of Some v \<Rightarrow> Some v | None \<Rightarrow> map_of d k)"
proof (induction xs arbitrary: d)
  case (Cons x xs)
  obtain k' v where "x = (k', v)" by (cases x)
  with Cons.IH [of "dict_set k' v d"] show ?case by (auto simp: map_add_def split: option.splits)
qed simp

text \<open>A resource's own facts cannot be restated by its attributes.\<close>

lemma view_facts:
  assumes "mirror \<notin> {''resource_id'', ''host_id'', ''resource_type'', ''resource_subtype'', ''value'', ''pool_id''}"
  shows "get_val (fv_attributes (resource_feasibility_view rid pool kind avail attrs sub v u host mirror)) ''resource_id'' = PStr rid \<and>
    get_val (fv_attributes (resource_feasibility_view rid pool kind avail attrs sub v u host mirror)) ''host_id'' = opt_str host \<and>
    get_val (fv_attributes (resource_feasibility_view rid pool kind avail attrs sub v u host mirror)) ''pool_id'' = PStr (or_else pool rid)"
  using assms by (auto simp: resource_feasibility_view_def Let_def get_val_def fold_dict_set_get)

lemma satisfies_attributes:
  assumes "resource_satisfies_requirement view kind dims attrs" "(key, v) \<in> set attrs"
  shows "py_eq (get_val (fv_attributes view) key) v"
  using assms by (auto simp: resource_satisfies_requirement_def list_all_iff split: if_splits)

lemma satisfies_dims:
  assumes "resource_satisfies_requirement view kind dims attrs" "(k, q) \<in> set dims"
  shows "q \<le> dim (fv_available view) k"
  using assms by (auto simp: resource_satisfies_requirement_def list_ex_iff split: if_splits)

section \<open>Properties\<close>

text \<open>Two lease windows are judged to overlap exactly when they share an instant, reading
  a window as half-open and an absent bound as unbounded; windows that only touch do not
  overlap.\<close>

theorem windows_overlap_iff:
  assumes "proper_window a_start a_end" "proper_window b_start b_end"
  shows "windows_overlap a_start a_end b_start b_end \<longleftrightarrow>
     (\<exists>t. in_window a_start a_end t \<and> in_window b_start b_end t)"
  using common_instant [OF _ assms] overlap_of_common by blast

text \<open>A parsed quantity request names at least one dimension, each once, and every amount
  is positive: an empty, malformed, zero or negative request is refused rather than read as
  some other request.\<close>

theorem requested_dimensions_positive:
  assumes "requested_dimensions E claim unit_claim_keys mirror = Return d"
  shows "d \<noteq> [] \<and> distinct (map fst d) \<and> (\<forall>(k, q) \<in> set d. 0 < q)"
  using requested_dimensions_pos [OF assms] by (simp add: dims_pos_def)

text \<open>A claim pinned to a resource is satisfied by that resource only, whatever attributes
  another resource declares: the facts of a declaration take precedence over its attributes.\<close>

theorem pinned_claim_matches_one_resource:
  assumes "mirror \<notin> {''resource_id'', ''host_id'', ''resource_type'', ''resource_subtype'', ''value'', ''pool_id''}"
    and "resource_satisfies_requirement
      (resource_feasibility_view resource_id pool_id kind available attributes subtype value units host_id mirror)
      required_kind dims required_attributes"
    and "(''resource_id'', PStr pinned) \<in> set required_attributes"
  shows "resource_id = pinned"
  using satisfies_attributes [OF assms(2,3)] view_facts [OF assms(1)] by simp

section \<open>Witnesses\<close>

definition ex_env :: env where
  "ex_env = \<lparr>fromisoformat = (\<lambda>s. if list_all is_digit s then Some (int (digits_val s)) else None),
     isoformat = (\<lambda>t. nat_str (nat t)), decimal_of_text = (\<lambda>_. None), decimal_of_float = (\<lambda>q. q),
     float_of = (\<lambda>q. q), float_repr = (\<lambda>_. ''0.5'')\<rparr>"

theorem windows_overlap_iff_witness:
  "\<not> windows_overlap (Some 0) (Some 10) (Some 10) None \<and> \<not> (\<exists>t. in_window (Some 0) (Some 10) t \<and> in_window (Some 10) None t)"
proof -
  have "proper_window (Some 0) (Some 10)" "proper_window (Some 10) None" by (simp_all add: proper_window_def)
  note iff = windows_overlap_iff [OF this]
  have "\<not> windows_overlap (Some 0) (Some 10) (Some 10) None" by code_simp
  with iff show ?thesis by blast
qed

theorem requested_dimensions_positive_witness:
  "dict_ok [(''gpu_count'', 2 :: rat)] \<and> requested_dimensions ex_env [(''dimensions'', PDict [(PStr ''gpu_count'', PInt 2)])] [''units''] ''units'' = Return [(''gpu_count'', 2)]"
proof -
  have r: "requested_dimensions ex_env [(''dimensions'', PDict [(PStr ''gpu_count'', PInt 2)])] [''units''] ''units'' = Return [(''gpu_count'', 2)]"
    by (simp add: requested_dimensions_def DIMENSIONS_CLAIM_KEY_def read_dimension_def to_decimal_def finite_decimal_def
        py_str_def dict_of_pairs_def)
  from requested_dimensions_positive [OF r] r show ?thesis by simp
qed

theorem pinned_claim_matches_one_resource_witness:
  "resource_satisfies_requirement
     (resource_feasibility_view ''gpu-1'' (Some ''pool'') ''compute.gpu'' [] [(''region'', PStr ''eu'')] None PNone PNone None ''units'')
     PNone [] [(''resource_id'', PStr ''gpu-1'')] \<and> ''gpu-1'' = ''gpu-1''"
proof -
  have r: "resource_satisfies_requirement
     (resource_feasibility_view ''gpu-1'' (Some ''pool'') ''compute.gpu'' [] [(''region'', PStr ''eu'')] None PNone PNone None ''units'')
     PNone [] [(''resource_id'', PStr ''gpu-1'')]"
    by code_simp
  have "''gpu-1'' = ''gpu-1''" by (rule pinned_claim_matches_one_resource [OF _ r]) simp_all
  with r show ?thesis by simp
qed

end
