(* ===== verification/Site_Ledger.thy ===== *)
theory Site_Ledger
  imports Ledger_Claims
begin

text \<open>
  The site authority's capacity ledger, \<open>CapacityLedgerService\<close> of
  \<open>src/kit/site/src/market_site/ledger.py\<close>, over the tables of \<open>src/kit/site/src/market_site/db.py\<close>:
  capacity buckets, reservations with their lease tail, debits, the versioned event feed and
  the lease-ended events.

  The state is the record \<open>ledger\<close>, one list per table in insertion order.  Every operation
  runs under the service's lock in one transaction, so an operation is a function from a
  ledger to the ledger it commits and the value it returns or exception it raises; an
  exception leaves the ledger as it was when the transaction began.  \<open>config\<close> holds the
  composition's parameters: the release guard and the two effects, which the site calls
  and other packages implement (an effect answers whether it completed; raising aborts the
  transaction), the hosts report, and the stream of fresh identifiers.  One operation reads
  one instant \<open>now\<close>.
\<close>

section \<open>Tables\<close>

datatype reservation_state =
  Reserved | Leased | Releasing | Released | Release_failed | Unmanaged | Force_released

definition HELD_RESERVATION_STATES :: "reservation_state set" where
  "HELD_RESERVATION_STATES = {Reserved, Leased, Releasing, Release_failed, Unmanaged}"

record capacity_bucket =
  cb_id :: string
  cb_resource :: string
  cb_pool :: "string option"
  cb_host :: "string option"
  cb_type :: string
  cb_subtype :: "string option"
  cb_total_units :: "int option"
  cb_capacity :: dims
  cb_attributes :: "(string \<times> pyval) list"
  cb_enabled :: bool
  cb_updated_at :: int

record reservation =
  r_id :: string
  r_settlement :: "string option"
  r_units :: int
  r_dims :: dims
  r_claim_attributes :: "claim option"
  r_state :: reservation_state
  r_deal_ref :: "(string \<times> pyval) list"
  r_escrow :: "string option"
  r_hold_expires :: "string option"
  r_offering_mode :: "string option"
  r_executor_target :: "string option"
  r_release_job :: "string option"
  r_executor_ref :: "(string \<times> pyval) list option"
  r_lease_start :: "string option"
  r_lease_end :: "string option"
  r_create_job :: "string option"
  r_failure_reason :: "string option"
  r_failure_message :: "string option"
  r_released_at :: "string option"
  r_release_requested_at :: "string option"
  r_activated_at :: "string option"
  r_created_at :: int

record debit =
  de_reservation :: string
  de_bucket :: string
  de_dims :: dims

record capacity_event =
  ev_version :: nat
  ev_kind :: change_kind
  ev_resource :: "string option"
  ev_dims :: "dims option"

record lease_ended_event =
  le_id :: string
  le_reservation :: string
  le_key :: string
  le_site :: string
  le_effective_at :: pyval
  le_source_state :: reservation_state
  le_cause :: pyval
  le_reason :: pyval
  le_caller :: pyval
  le_claimed_deadline :: pyval
  le_deadline_phase :: pyval

record resource_pool =
  pool_name :: string
  pool_provider_id :: string
  pool_enabled :: bool
  pool_policy_tags :: "(string \<times> pyval) list"

record ledger =
  buckets :: "capacity_bucket list"
  reservations :: "reservation list"
  debits :: "debit list"
  events :: "capacity_event list"
  lease_ends :: "lease_ended_event list"
  pools :: "resource_pool list"
  drawn :: nat

record config =
  cfg_env :: env
  required_attributes :: "string list"
  unit_claim_keys :: "string list"
  mirror_dimension :: string
  release_guard :: "(ledger \<Rightarrow> string \<Rightarrow> bool) option"
  release_effect :: "(ledger \<Rightarrow> string \<Rightarrow> reservation_state \<Rightarrow> bool) option"
  site_id :: string
  lease_end_effect :: "(ledger \<Rightarrow> lease_ended_event \<Rightarrow> bool) option"
  host_requirement :: "host_requirement option"
  deliverable_hosts :: "(ledger \<Rightarrow> string list) option"
  uuid4 :: "nat \<Rightarrow> string"

type_synonym 'a tx = "(ledger_error, ledger \<times> 'a) result"

text \<open>A transaction that returns commits; one that raises leaves the ledger it began with.\<close>

definition run_tx :: "ledger \<Rightarrow> 'a tx \<Rightarrow> ledger \<times> (ledger_error, 'a) result" where
  "run_tx L t = (case t of Inl e \<Rightarrow> (L, Raise e) | Inr (L', x) \<Rightarrow> (L', Return x))"

section \<open>Reading rows\<close>

definition isheld :: "reservation \<Rightarrow> bool" where
  "isheld r = (r_state r \<in> HELD_RESERVATION_STATES)"

definition resource_capacity :: "string \<Rightarrow> capacity_bucket \<Rightarrow> dims" where
  "resource_capacity mirror b =
     (if cb_capacity b \<noteq> [] then cb_capacity b
      else (case cb_total_units b of None \<Rightarrow> [] | Some n \<Rightarrow> [(mirror, of_int n)]))"

definition reservation_dimensions :: "string \<Rightarrow> reservation \<Rightarrow> dims" where
  "reservation_dimensions mirror r = (if r_dims r \<noteq> [] then r_dims r else [(mirror, of_int (r_units r))])"

definition executor_ref_for_resource :: "capacity_bucket \<Rightarrow> (string \<times> pyval) list option" where
  "executor_ref_for_resource b = (case cb_host b of
     None \<Rightarrow> None | Some h \<Rightarrow> if h = [] then None else Some [(''host_id'', PStr h)])"

definition debit_for_reservation :: "ledger \<Rightarrow> string \<Rightarrow> debit option" where
  "debit_for_reservation L rid = find (\<lambda>d. de_reservation d = rid) (debits L)"

definition bucket_by_backing_resource :: "ledger \<Rightarrow> string \<Rightarrow> capacity_bucket option" where
  "bucket_by_backing_resource L res = find (\<lambda>b. cb_resource b = res) (buckets L)"

definition bucket_for_reservation :: "ledger \<Rightarrow> string \<Rightarrow> capacity_bucket option" where
  "bucket_for_reservation L rid = (case debit_for_reservation L rid of
     None \<Rightarrow> None | Some d \<Rightarrow> find (\<lambda>b. cb_id b = de_bucket d) (buckets L))"

definition backing_resource_id :: "ledger \<Rightarrow> string \<Rightarrow> string option" where
  "backing_resource_id L rid = map_option cb_resource (bucket_for_reservation L rid)"

definition backing_pool_id :: "ledger \<Rightarrow> string \<Rightarrow> string option" where
  "backing_pool_id L rid = (case backing_resource_id L rid of
     None \<Rightarrow> None
   | Some res \<Rightarrow> (case bucket_by_backing_resource L res of
        None \<Rightarrow> None
      | Some b \<Rightarrow> (case cb_pool b of Some p \<Rightarrow> if p = [] then None else Some p | None \<Rightarrow> None)))"

definition reservation_by_id :: "ledger \<Rightarrow> string \<Rightarrow> reservation option" where
  "reservation_by_id L rid = find (\<lambda>r. r_id r = rid) (reservations L)"

text \<open>\<open>order_by(created_at.desc()).first()\<close>\<close>

definition latest_created :: "reservation list \<Rightarrow> reservation option" where
  "latest_created rs = (case sort_key (\<lambda>r. - r_created_at r) rs of [] \<Rightarrow> None | r # _ \<Rightarrow> Some r)"

definition debited_to :: "ledger \<Rightarrow> string \<Rightarrow> reservation \<Rightarrow> bool" where
  "debited_to L bid r = list_ex (\<lambda>d. de_reservation d = r_id r \<and> de_bucket d = bid) (debits L)"

definition is_truthy :: "string option \<Rightarrow> bool" where
  "is_truthy s = (case s of None \<Rightarrow> False | Some t \<Rightarrow> t \<noteq> [])"

definition find_reservation :: "ledger \<Rightarrow> string option \<Rightarrow> string option \<Rightarrow> string option \<Rightarrow> reservation option" where
  "find_reservation L capacity_reservation_id escrow_uid resource_id =
     (if is_truthy capacity_reservation_id then reservation_by_id L (the capacity_reservation_id)
      else if is_truthy escrow_uid
      then latest_created (filter (\<lambda>r. isheld r \<and> r_escrow r = escrow_uid) (reservations L))
      else if is_truthy resource_id then
        (case bucket_by_backing_resource L (the resource_id) of
           None \<Rightarrow> None
         | Some b \<Rightarrow> latest_created (filter (\<lambda>r. isheld r \<and> debited_to L (cb_id b) r) (reservations L)))
      else None)"

definition deal_escrow_uid :: "(string \<times> pyval) list \<Rightarrow> string option" where
  "deal_escrow_uid deal = (case get_val deal ''escrow_uid'' of PStr s \<Rightarrow> Some s | _ \<Rightarrow> None)"

section \<open>Writing rows\<close>

definition update_reservation :: "string \<Rightarrow> (reservation \<Rightarrow> reservation) \<Rightarrow> ledger \<Rightarrow> ledger" where
  "update_reservation rid f L = L\<lparr>reservations := map (\<lambda>r. if r_id r = rid then f r else r) (reservations L)\<rparr>"

definition add_event :: "change_kind \<Rightarrow> string option \<Rightarrow> dims option \<Rightarrow> ledger \<Rightarrow> ledger" where
  "add_event kind res d L = L\<lparr>events := events L @
     [\<lparr>ev_version = Suc (length (events L)), ev_kind = kind, ev_resource = res, ev_dims = d\<rparr>]\<rparr>"

definition release_permitted :: "config \<Rightarrow> ledger \<Rightarrow> string \<Rightarrow> bool" where
  "release_permitted C L rid = (case release_guard C of None \<Rightarrow> True | Some g \<Rightarrow> g L rid)"

definition run_release_effect :: "config \<Rightarrow> string \<Rightarrow> reservation_state \<Rightarrow> ledger \<Rightarrow> (ledger_error, ledger) result" where
  "run_release_effect C rid state L = (case release_effect C of
     None \<Rightarrow> Return L
   | Some e \<Rightarrow> if e L rid state then Return L else Raise (EffectRaised rid))"

definition context_get :: "(string \<times> pyval) list \<Rightarrow> string \<Rightarrow> pyval \<Rightarrow> pyval" where
  "context_get context key dflt = (case map_of context key of None \<Rightarrow> dflt | Some v \<Rightarrow> v)"

definition record_lease_end ::
    "config \<Rightarrow> int \<Rightarrow> reservation \<Rightarrow> string \<Rightarrow> (string \<times> pyval) list \<Rightarrow> string \<Rightarrow> string option \<Rightarrow> ledger \<Rightarrow>
     (ledger_error, ledger) result" where
  "record_lease_end C now r transition_key context cause reason L =
     (if list_ex (\<lambda>e. le_reservation e = r_id r \<and> le_key e = transition_key) (lease_ends L) then Return L
      else
        (let e = \<lparr>le_id = uuid4 C (drawn L), le_reservation = r_id r, le_key = transition_key, le_site = site_id C,
               le_effective_at = context_get context ''effective_at'' (PInt (now div SECOND)),
               le_source_state = r_state r, le_cause = context_get context ''cause'' (PStr cause),
               le_reason = context_get context ''reason'' (opt_str reason),
               le_caller = get_val context ''caller'', le_claimed_deadline = get_val context ''claimed_deadline'',
               le_deadline_phase = get_val context ''deadline_phase''\<rparr>;
             L' = L\<lparr>lease_ends := lease_ends L @ [e], drawn := Suc (drawn L)\<rparr> in
         case lease_end_effect C of
           None \<Rightarrow> Return L'
         | Some f \<Rightarrow> if f L' e then Return L' else Raise (EffectRaised (r_id r))))"

definition lapse_hold :: "config \<Rightarrow> int \<Rightarrow> reservation \<Rightarrow> ledger \<Rightarrow> (ledger_error, ledger) result" where
  "lapse_hold C now r L = (case parse_utc (cfg_env C) (r_hold_expires r) of
     None \<Rightarrow> Return L
   | Some expires \<Rightarrow>
       if expires > now \<or> \<not> release_permitted C L (r_id r) then Return L
       else res_bind (record_lease_end C now r ''end''
              [(''effective_at'', PInt (expires div SECOND)), (''claimed_deadline'', PInt (expires div SECOND)),
               (''deadline_phase'', PStr ''reservation'')] ''hold_expired'' None L) (\<lambda>L1.
            let L2 = update_reservation (r_id r) (\<lambda>r. r\<lparr>r_state := Released,
                       r_released_at := Some (isoformat (cfg_env C) now), r_failure_reason := Some ''hold_expired''\<rparr>) L1 in
            res_bind (run_release_effect C (r_id r) Released L2) (\<lambda>L3.
              Return (add_event KReleased (backing_resource_id L3 (r_id r)) None L3))))"

definition expire_stale_holds :: "config \<Rightarrow> int \<Rightarrow> ledger \<Rightarrow> (ledger_error, ledger) result" where
  "expire_stale_holds C now L =
     res_fold (lapse_hold C now) (filter (\<lambda>r. r_state r = Reserved \<and> r_hold_expires r \<noteq> None) (reservations L)) L"

section \<open>Availability\<close>

definition blocks_every_window :: "reservation \<Rightarrow> bool" where
  "blocks_every_window r = (r_state r \<in> {Releasing, Release_failed, Unmanaged})"

definition reservation_overlaps :: "env \<Rightarrow> reservation \<Rightarrow> int option \<Rightarrow> int option \<Rightarrow> bool" where
  "reservation_overlaps E r lease_start lease_end =
     (if blocks_every_window r then True
      else (let row_start = parse_utc E (r_lease_start r); row_end = parse_utc E (r_lease_end r) in
        if row_start = None \<and> row_end = None then True
        else windows_overlap lease_start lease_end row_start row_end))"

definition add_dims :: "dims \<Rightarrow> dims \<Rightarrow> dims" where
  "add_dims totals d = fold (\<lambda>(k, q) t. dict_set k (dim t k + q) t) d totals"

definition held_rows :: "ledger \<Rightarrow> string \<Rightarrow> reservation list" where
  "held_rows L bid = filter (\<lambda>r. isheld r \<and> debited_to L bid r) (reservations L)"

text \<open>With no window the loop accumulates every row; otherwise a row that blocks every window,
  one without a window, and one whose window overlaps, which is \<open>reservation_overlaps\<close>.\<close>

definition held_dimensions :: "config \<Rightarrow> ledger \<Rightarrow> string \<Rightarrow> int option \<Rightarrow> int option \<Rightarrow> dims" where
  "held_dimensions C L res lease_start lease_end = (case bucket_by_backing_resource L res of
     None \<Rightarrow> []
   | Some b \<Rightarrow>
       (let rows = (if lease_start = None \<and> lease_end = None then held_rows L (cb_id b)
                    else filter (\<lambda>r. reservation_overlaps (cfg_env C) r lease_start lease_end) (held_rows L (cb_id b))) in
        fold (\<lambda>r t. add_dims t (reservation_dimensions (mirror_dimension C) r)) rows []))"

definition trunc :: "rat \<Rightarrow> int" where
  "trunc q = (if q < 0 then - \<lfloor>- q\<rfloor> else \<lfloor>q\<rfloor>)"

definition held_units :: "config \<Rightarrow> ledger \<Rightarrow> string \<Rightarrow> int option \<Rightarrow> int option \<Rightarrow> int" where
  "held_units C L res lease_start lease_end =
     trunc (dim (held_dimensions C L res lease_start lease_end) (mirror_dimension C))"

definition physical_host_id :: "env \<Rightarrow> capacity_bucket \<Rightarrow> string option" where
  "physical_host_id E b = (case get_val (cb_attributes b) ''physical_host_id'' of
     PNone \<Rightarrow> None | PStr s \<Rightarrow> (if s = [] then None else Some s)
   | PBool x \<Rightarrow> (if x then Some ''True'' else None)
   | PInt n \<Rightarrow> (if n = 0 then None else Some (int_str n))
   | PList xs \<Rightarrow> (if xs = [] then None else Some (py_str (float_repr E) (PList xs)))
   | PDict d \<Rightarrow> (if d = [] then None else Some (py_str (float_repr E) (PDict d)))
   | PFloat f \<Rightarrow> (if f = FFin 0 then None else Some (py_str (float_repr E) (PFloat f))))"

definition allocation_mode :: "capacity_bucket \<Rightarrow> string option" where
  "allocation_mode b = (case get_val (cb_attributes b) ''allocation_mode'' of
     PStr s \<Rightarrow> if s = ''exclusive'' \<or> s = ''shareable'' then Some s else None
   | _ \<Rightarrow> None)"

definition conflicts_with ::
    "config \<Rightarrow> ledger \<Rightarrow> string \<Rightarrow> string \<Rightarrow> int option \<Rightarrow> int option \<Rightarrow> reservation \<Rightarrow> bool" where
  "conflicts_with C L host mode lease_start lease_end r =
     (case bucket_for_reservation L (r_id r) of
        None \<Rightarrow> False
      | Some held \<Rightarrow>
          physical_host_id (cfg_env C) held = Some host \<and>
          (case allocation_mode held of
             None \<Rightarrow> False
           | Some held_mode \<Rightarrow>
               reservation_overlaps (cfg_env C) r lease_start lease_end \<and>
               (mode = ''exclusive'' \<or> held_mode = ''exclusive'')))"

definition has_physical_host_conflict ::
    "config \<Rightarrow> ledger \<Rightarrow> capacity_bucket \<Rightarrow> int option \<Rightarrow> int option \<Rightarrow> string option \<Rightarrow> bool" where
  "has_physical_host_conflict C L b lease_start lease_end exclude =
     (case (physical_host_id (cfg_env C) b, allocation_mode b) of
        (Some host, Some mode) \<Rightarrow>
          list_ex (conflicts_with C L host mode lease_start lease_end)
            (filter (\<lambda>r. isheld r \<and> Some (r_id r) \<noteq> exclude) (reservations L))
      | _ \<Rightarrow> False)"

definition view_of_bucket :: "config \<Rightarrow> capacity_bucket \<Rightarrow> dims \<Rightarrow> feasibility_view" where
  "view_of_bucket C b available =
     resource_feasibility_view (cb_resource b) (cb_pool b) (cb_type b) available (cb_attributes b) (cb_subtype b)
       (opt_int (cb_total_units b)) (opt_int (cb_total_units b)) (cb_host b) (mirror_dimension C)"

definition pool_by_id :: "ledger \<Rightarrow> string option \<Rightarrow> resource_pool option" where
  "pool_by_id L pid = (case pid of None \<Rightarrow> None | Some p \<Rightarrow> find (\<lambda>x. pool_name x = p) (pools L))"

definition pool_declares_mode :: "ledger \<Rightarrow> capacity_bucket \<Rightarrow> string \<Rightarrow> (ledger_error, bool) result" where
  "pool_declares_mode L b mode = (case pool_by_id L (cb_pool b) of
     None \<Rightarrow> Return False
   | Some p \<Rightarrow> if \<not> pool_enabled p then Return False else pool_delivers_offering_mode (pool_policy_tags p) mode)"

definition pool_provider :: "ledger \<Rightarrow> string option \<Rightarrow> string option" where
  "pool_provider L pid = map_option pool_provider_id (pool_by_id L pid)"

definition pool_delivers :: "ledger \<Rightarrow> string option \<Rightarrow> bool" where
  "pool_delivers L pid = (case pool_by_id L pid of
     None \<Rightarrow> True
   | Some p \<Rightarrow> (case declared_deliverable_modes (pool_policy_tags p) of Inl _ \<Rightarrow> True | Inr modes \<Rightarrow> modes \<noteq> []))"

definition deliverable_host_ids :: "config \<Rightarrow> ledger \<Rightarrow> string list option" where
  "deliverable_host_ids C L = map_option (\<lambda>f. f L) (deliverable_hosts C)"

section \<open>Admission\<close>

text \<open>What the loop of \<open>_find_candidate\<close> decides of one declaration.\<close>

datatype verdict = Skip | Undeclared string | Admit dims

definition available_dims :: "dims \<Rightarrow> dims \<Rightarrow> dims" where
  "available_dims capacity held = map (\<lambda>(k, q). (k, q - dim held k)) capacity"

definition judge_candidate ::
    "config \<Rightarrow> ledger \<Rightarrow> claim \<Rightarrow> dims \<Rightarrow> string option \<Rightarrow> int option \<Rightarrow> int option \<Rightarrow> capacity_bucket \<Rightarrow>
     (ledger_error, verdict) result" where
  "judge_candidate C L claim requested requested_mode lease_start lease_end b =
     (let (kind, attrs) = split_claim_requirement claim (unit_claim_keys C);
          capacity = resource_capacity (mirror_dimension C) b in
      if \<not> is_truthy (cb_pool b) then Return Skip
      else if list_ex (\<lambda>key. case get_val (cb_attributes b) key of PStr s \<Rightarrow> py_strip s = [] | _ \<Rightarrow> True) (required_attributes C)
      then Return Skip
      else if \<not> resource_satisfies_requirement (view_of_bucket C b capacity) kind requested attrs then Return Skip
      else res_bind (case requested_mode of None \<Rightarrow> Return True | Some m \<Rightarrow> pool_declares_mode L b m) (\<lambda>declared.
        if \<not> declared then Return (Undeclared (the (cb_pool b)))
        else res_bind (declaration_has_usable_host (cb_host b) (pool_provider L (cb_pool b)) True
               (host_requirement C) (deliverable_host_ids C L)) (\<lambda>usable.
          if \<not> usable then Return Skip
          else
            (let available = available_dims capacity (held_dimensions C L (cb_resource b) lease_start lease_end) in
             if \<not> resource_satisfies_requirement (view_of_bucket C b available) kind requested attrs then Return Skip
             else if has_physical_host_conflict C L b lease_start lease_end None then Return Skip
             else Return (Admit available)))))"

fun scan_candidates ::
    "(capacity_bucket \<Rightarrow> (ledger_error, verdict) result) \<Rightarrow> capacity_bucket list \<Rightarrow> string list \<Rightarrow>
     (ledger_error, (capacity_bucket \<times> dims) option \<times> string list) result" where
  "scan_candidates judge [] undeclared = Return (None, undeclared)"
| "scan_candidates judge (b # bs) undeclared = res_bind (judge b) (\<lambda>v. case v of
     Skip \<Rightarrow> scan_candidates judge bs undeclared
   | Undeclared p \<Rightarrow> scan_candidates judge bs (List.insert p undeclared)
   | Admit available \<Rightarrow> Return (Some (b, available), undeclared))"

definition find_candidate ::
    "config \<Rightarrow> ledger \<Rightarrow> claim \<Rightarrow> dims \<Rightarrow> int option \<Rightarrow> int option \<Rightarrow> (ledger_error, (capacity_bucket \<times> dims) option) result" where
  "find_candidate C L claim requested lease_start lease_end =
     res_bind (requested_offering_mode claim False) (\<lambda>requested_mode.
       res_bind (scan_candidates (judge_candidate C L claim requested requested_mode lease_start lease_end)
           (sort_key cb_updated_at (filter cb_enabled (buckets L))) []) (\<lambda>(found, undeclared).
         case found of
           Some m \<Rightarrow> Return (Some m)
         | None \<Rightarrow> if requested_mode \<noteq> None \<and> undeclared \<noteq> [] then Raise (UndeclaredOfferingMode (sort undeclared))
                   else Return None))"

section \<open>Payloads\<close>

record reservation_payload =
  pl_id :: string
  pl_settlement :: "string option"
  pl_units :: int
  pl_dims :: dims
  pl_state :: reservation_state
  pl_deal_ref :: "(string \<times> pyval) list"
  pl_escrow :: "string option"
  pl_hold_expires :: "string option"
  pl_offering_mode :: "string option"
  pl_executor_target :: "string option"
  pl_release_job :: "string option"
  pl_executor_ref :: "(string \<times> pyval) list"
  pl_host :: pyval
  pl_lease_start :: "string option"
  pl_lease_end :: "string option"
  pl_create_job :: "string option"
  pl_claim_attributes :: "claim option"
  pl_failure_reason :: "string option"
  pl_failure_message :: "string option"
  pl_released_at :: "string option"
  pl_release_requested_at :: "string option"
  pl_activated_at :: "string option"

definition reservation_payload_of :: "config \<Rightarrow> reservation \<Rightarrow> reservation_payload" where
  "reservation_payload_of C r =
     (let ref = (case r_executor_ref r of None \<Rightarrow> [] | Some e \<Rightarrow> e) in
      \<lparr>pl_id = r_id r, pl_settlement = r_settlement r, pl_units = r_units r,
       pl_dims = serialize_dimensions (cfg_env C) (reservation_dimensions (mirror_dimension C) r),
       pl_state = r_state r, pl_deal_ref = r_deal_ref r, pl_escrow = r_escrow r,
       pl_hold_expires = r_hold_expires r, pl_offering_mode = r_offering_mode r,
       pl_executor_target = r_executor_target r, pl_release_job = r_release_job r,
       pl_executor_ref = ref, pl_host = get_val ref ''host_id'', pl_lease_start = r_lease_start r,
       pl_lease_end = r_lease_end r, pl_create_job = r_create_job r, pl_claim_attributes = r_claim_attributes r,
       pl_failure_reason = r_failure_reason r, pl_failure_message = r_failure_message r,
       pl_released_at = r_released_at r, pl_release_requested_at = r_release_requested_at r,
       pl_activated_at = r_activated_at r\<rparr>)"

record match_payload =
  mp_resource :: string
  mp_host :: "string option"
  mp_subtype :: "string option"
  mp_value :: "int option"
  mp_allocated_units :: int
  mp_available_units :: int
  mp_dims :: dims
  mp_available :: dims
  mp_capacity :: dims
  mp_attributes :: "(string \<times> pyval) list"

definition match_payload_of :: "config \<Rightarrow> capacity_bucket \<Rightarrow> dims \<Rightarrow> dims \<Rightarrow> match_payload" where
  "match_payload_of C b available requested =
     (let mirror = mirror_dimension C; E = cfg_env C in
      \<lparr>mp_resource = cb_resource b, mp_host = cb_host b, mp_subtype = cb_subtype b, mp_value = cb_total_units b,
       mp_allocated_units = trunc (dim requested mirror), mp_available_units = trunc (dim available mirror),
       mp_dims = serialize_dimensions E requested, mp_available = serialize_dimensions E available,
       mp_capacity = serialize_dimensions E (resource_capacity mirror b), mp_attributes = cb_attributes b\<rparr>)"

text \<open>What \<open>reserve\<close> returns: a fresh hold, or the existing one with its backing resource.\<close>

datatype reserve_payload =
    Fresh match_payload string "string option" "string option"
  | Existing reservation_payload "string option"

definition reservation_payload_for_reserve :: "config \<Rightarrow> ledger \<Rightarrow> reservation \<Rightarrow> reserve_payload" where
  "reservation_payload_for_reserve C L r = Existing (reservation_payload_of C r) (backing_resource_id L (r_id r))"

definition resource_payload :: "config \<Rightarrow> int \<Rightarrow> ledger \<Rightarrow> capacity_bucket \<Rightarrow> snapshot_row" where
  "resource_payload C now L b =
     (let mirror = mirror_dimension C; E = cfg_env C;
          capacity = resource_capacity mirror b;
          held = held_dimensions C L (cb_resource b) (Some now) (Some (now + 1));
          mirrored = has_key capacity mirror;
          blocked = has_physical_host_conflict C L b (Some now) (Some (now + 1)) None;
          available = (if blocked then map (\<lambda>(k, q). (k, 0)) capacity
                       else map (\<lambda>(k, q). (k, max (q - dim held k) 0)) capacity);
          nothing_held = \<not> list_ex (\<lambda>(k, q). 0 < q) held;
          state = (if blocked then ''leased''
                   else if mirrored then (if 0 < dim available mirror \<or> nothing_held then ''available'' else ''leased'')
                   else (if nothing_held \<or> list_ex (\<lambda>(k, q). 0 < q) available then ''available'' else ''leased'')) in
      \<lparr>row_resource_id = cb_resource b, row_pool_id = cb_pool b, row_type = cb_type b, row_subtype = cb_subtype b,
       row_host_id = cb_host b, row_value = (if mirrored then Some (trunc (dim capacity mirror)) else None),
       row_state = state, row_available_units = (if mirrored then Some (trunc (dim available mirror)) else None),
       row_capacity = serialize_dimensions E capacity, row_available = serialize_dimensions E available,
       row_attributes = cb_attributes b, row_enabled = cb_enabled b\<rparr>)"

section \<open>Declarations\<close>

text \<open>\<open>src/kit/site/src/market_site/declarations.py\<close>: a whole declaration and the rules of its fields.\<close>

record capacity_declaration =
  cd_resource :: string
  cd_pool :: string
  cd_type :: string
  cd_subtype :: "string option"
  cd_host :: "string option"
  cd_capacity :: dims
  cd_attributes :: "(string \<times> pyval) list"
  cd_enabled :: bool

datatype declaration_error = InvalidAmount pyval | EmptyText | NoCapacity | RestatesIdentity "string list"

definition declared_amount :: "env \<Rightarrow> pyval \<Rightarrow> (declaration_error, rat) result" where
  "declared_amount E value = (case value of
     PInt n \<Rightarrow> if n < 0 then Raise (InvalidAmount value) else Return (of_int n)
   | PFloat (FFin q) \<Rightarrow> if decimal_of_float E q < 0 then Raise (InvalidAmount value) else Return (decimal_of_float E q)
   | _ \<Rightarrow> Raise (InvalidAmount value))"

definition IDENTITY_FIELDS :: "string list" where
  "IDENTITY_FIELDS = [''resource_id'', ''pool_id'', ''host_id'', ''resource_type'', ''resource_subtype'']"

definition mk_declaration ::
    "env \<Rightarrow> string \<Rightarrow> string \<Rightarrow> string \<Rightarrow> string option \<Rightarrow> string option \<Rightarrow> (string \<times> pyval) list \<Rightarrow> (string \<times> pyval) list \<Rightarrow> bool \<Rightarrow>
     (declaration_error, capacity_declaration) result" where
  "mk_declaration E resource_id pool_id resource_type resource_subtype host_id capacity attributes enabled =
     (if resource_id = [] \<or> pool_id = [] \<or> resource_type = [] \<or> resource_subtype = Some [] \<or> host_id = Some [] \<or>
         [] \<in> set (map fst capacity) \<or> [] \<in> set (map fst attributes) then Raise EmptyText
      else if capacity = [] then Raise NoCapacity
      else if list_ex (\<lambda>k. k \<in> set (map fst attributes)) IDENTITY_FIELDS
      then Raise (RestatesIdentity (sort (filter (\<lambda>k. k \<in> set (map fst attributes)) IDENTITY_FIELDS)))
      else res_bind (res_map (\<lambda>(k, v). res_bind (declared_amount E v) (\<lambda>q. Return (k, q))) capacity) (\<lambda>amounts.
        Return \<lparr>cd_resource = resource_id, cd_pool = pool_id, cd_type = resource_type, cd_subtype = resource_subtype,
          cd_host = host_id, cd_capacity = amounts, cd_attributes = attributes, cd_enabled = enabled\<rparr>))"

definition write_declaration :: "config \<Rightarrow> int \<Rightarrow> capacity_declaration \<Rightarrow> capacity_bucket \<Rightarrow> capacity_bucket" where
  "write_declaration C now d b =
     (let b' = b\<lparr>cb_pool := Some (cd_pool d), cb_type := cd_type d, cb_subtype := cd_subtype d, cb_host := cd_host d,
            cb_capacity := serialize_dimensions (cfg_env C) (cd_capacity d),
            cb_total_units := map_option trunc (map_of (cd_capacity d) (mirror_dimension C)),
            cb_attributes := cd_attributes d, cb_enabled := cd_enabled d\<rparr> in
      if b' = b then b else b'\<lparr>cb_updated_at := now div SECOND\<rparr>)"

definition new_bucket :: "config \<Rightarrow> int \<Rightarrow> nat \<Rightarrow> string \<Rightarrow> capacity_bucket" where
  "new_bucket C now n res = \<lparr>cb_id = uuid4 C n, cb_resource = res, cb_pool = None, cb_host = None, cb_type = ''compute.gpu'',
     cb_subtype = None, cb_total_units = None, cb_capacity = [], cb_attributes = [], cb_enabled = True,
     cb_updated_at = now div SECOND\<rparr>"

text \<open>A live obligation on a bucket: a held reservation debited to it or assigned to it.\<close>

definition live_obligation :: "ledger \<Rightarrow> capacity_bucket \<Rightarrow> reservation option" where
  "live_obligation L b =
     (case find (\<lambda>r. isheld r \<and> debited_to L (cb_id b) r) (reservations L) of
        Some r \<Rightarrow> Some r
      | None \<Rightarrow> find (\<lambda>r. isheld r \<and> r_settlement r = Some (cb_resource b)) (reservations L))"

definition refuse_reassignment_under_obligation ::
    "ledger \<Rightarrow> capacity_bucket \<Rightarrow> string \<Rightarrow> (ledger_error, unit) result" where
  "refuse_reassignment_under_obligation L b new_pool = (case live_obligation L b of
     Some r \<Rightarrow> Raise (HeldInPool (cb_resource b) new_pool (r_id r)) | None \<Rightarrow> Return ())"

text \<open>The writing half of \<open>register_declaration_in_session\<close>, once no other resource names the host.\<close>

definition register_stored ::
    "config \<Rightarrow> int \<Rightarrow> capacity_declaration \<Rightarrow> ledger \<Rightarrow> capacity_bucket option \<Rightarrow> dims \<Rightarrow> snapshot_row tx" where
  "register_stored C now d L bucket old_capacity =
     res_bind (case bucket of
         Some b \<Rightarrow> if cb_pool b \<noteq> Some (cd_pool d) then refuse_reassignment_under_obligation L b (cd_pool d) else Return ()
       | None \<Rightarrow> Return ()) (\<lambda>_.
       let b' = write_declaration C now d (case bucket of Some b \<Rightarrow> b | None \<Rightarrow> new_bucket C now (drawn L) (cd_resource d));
           L1 = (case bucket of
               Some b \<Rightarrow> L\<lparr>buckets := map (\<lambda>x. if cb_id x = cb_id b then b' else x) (buckets L)\<rparr>
             | None \<Rightarrow> L\<lparr>buckets := buckets L @ [b'], drawn := Suc (drawn L)\<rparr>);
           delta = sub_dims (cd_capacity d) old_capacity;
           kind = (case bucket of None \<Rightarrow> KReleased
             | Some b \<Rightarrow> capacity_change_kind delta (Some (cb_enabled b)) (cd_enabled d));
           L2 = add_event kind (Some (cd_resource d)) (Some (serialize_dimensions (cfg_env C) delta)) L1 in
       Return (L2, resource_payload C now L2 b'))"

definition register_declaration_in_session ::
    "config \<Rightarrow> int \<Rightarrow> capacity_declaration \<Rightarrow> ledger \<Rightarrow> snapshot_row tx" where
  "register_declaration_in_session C now d L =
     (if pool_by_id L (Some (cd_pool d)) = None then Raise (UnknownPool (cd_pool d))
      else
        (let res = cd_resource d;
             bucket = bucket_by_backing_resource L res;
             old_capacity = (case bucket of None \<Rightarrow> [] | Some b \<Rightarrow> resource_capacity (mirror_dimension C) b);
             holder = (case cd_host d of None \<Rightarrow> None | Some h \<Rightarrow> find (\<lambda>b. cb_host b = Some h) (buckets L)) in
         case holder of
           Some b \<Rightarrow> if cb_resource b \<noteq> res then Raise (HostTaken (the (cd_host d)) (cb_resource b))
                     else register_stored C now d L bucket old_capacity
         | None \<Rightarrow> register_stored C now d L bucket old_capacity))"

datatype registration_error = RegLedger ledger_error | RegDeclaration declaration_error

definition register_resource ::
    "config \<Rightarrow> int \<Rightarrow> string \<Rightarrow> string \<Rightarrow> int option \<Rightarrow> string \<Rightarrow> string option \<Rightarrow> (string \<times> pyval) list \<Rightarrow> (string \<times> pyval) list \<Rightarrow>
     bool \<Rightarrow> string option \<Rightarrow> ledger \<Rightarrow> ledger \<times> (registration_error, snapshot_row) result" where
  "register_resource C now resource_id pool_id total_units resource_type resource_subtype attributes capacity enabled host_id L =
     (let mirror = mirror_dimension C; E = cfg_env C;
          dimensions = (if capacity \<noteq> [] then
              (case (total_units, map_of capacity mirror) of
                 (Some n, Some v) \<Rightarrow> res_bind (to_decimal_nonneg E mirror v) (\<lambda>supplied.
                   if supplied \<noteq> of_int n then Raise (UnitsDisagree mirror supplied n) else Return capacity)
               | _ \<Rightarrow> Return capacity)
            else (case total_units of Some n \<Rightarrow> Return [(mirror, PInt n)] | None \<Rightarrow> Raise NoDimension)) in
      if pool_id = [] then (L, Raise (RegLedger MissingPool))
      else (case dimensions of
          Inl e \<Rightarrow> (L, Raise (RegLedger e))
        | Inr d \<Rightarrow>
            (case mk_declaration E resource_id pool_id resource_type resource_subtype host_id d attributes enabled of
               Inl e \<Rightarrow> (L, Raise (RegDeclaration e))
             | Inr decl \<Rightarrow>
                 (case register_declaration_in_session C now decl L of
                    Inl e \<Rightarrow> (L, Raise (RegLedger e))
                  | Inr (L', row) \<Rightarrow> (L', Return row)))))"

definition stored_declaration :: "config \<Rightarrow> capacity_bucket \<Rightarrow> capacity_declaration" where
  "stored_declaration C b = \<lparr>cd_resource = cb_resource b, cd_pool = or_else (cb_pool b) [], cd_type = cb_type b,
     cd_subtype = cb_subtype b, cd_host = cb_host b, cd_capacity = resource_capacity (mirror_dimension C) b,
     cd_attributes = cb_attributes b, cd_enabled = cb_enabled b\<rparr>"

text \<open>Equality of two declarations: mappings compare by content.\<close>

definition same_declaration :: "capacity_declaration \<Rightarrow> capacity_declaration \<Rightarrow> bool" where
  "same_declaration a b = (cd_resource a = cd_resource b \<and> cd_pool a = cd_pool b \<and> cd_type a = cd_type b \<and>
     cd_subtype a = cd_subtype b \<and> cd_host a = cd_host b \<and> cd_enabled a = cd_enabled b \<and>
     length (cd_capacity a) = length (cd_capacity b) \<and>
     list_all (\<lambda>(k, q). map_of (cd_capacity b) k = Some q) (cd_capacity a) \<and>
     length (cd_attributes a) = length (cd_attributes b) \<and>
     list_all (\<lambda>(k, v). case map_of (cd_attributes b) k of None \<Rightarrow> False | Some w \<Rightarrow> py_eq v w) (cd_attributes a))"

datatype declaration_change = Created | Unchanged | Updated

definition declaration_change_in_session :: "config \<Rightarrow> ledger \<Rightarrow> capacity_declaration \<Rightarrow> declaration_change" where
  "declaration_change_in_session C L d = (case bucket_by_backing_resource L (cd_resource d) of
     None \<Rightarrow> Created
   | Some b \<Rightarrow> if same_declaration (stored_declaration C b) d then Unchanged else Updated)"

section \<open>Reading resources\<close>

definition with_expired :: "config \<Rightarrow> int \<Rightarrow> ledger \<Rightarrow> (ledger \<Rightarrow> ledger \<times> (ledger_error, 'a) result) \<Rightarrow>
     ledger \<times> (ledger_error, 'a) result" where
  "with_expired C now L k = (case expire_stale_holds C now L of Inl e \<Rightarrow> (L, Raise e) | Inr L1 \<Rightarrow> k L1)"

definition list_resources :: "config \<Rightarrow> int \<Rightarrow> ledger \<Rightarrow> ledger \<times> (ledger_error, snapshot_row list) result" where
  "list_resources C now L = with_expired C now L (\<lambda>L1.
     (L1, Return (map (resource_payload C now L1) (sort_key cb_updated_at (buckets L1)))))"

definition offered_row :: "config \<Rightarrow> int \<Rightarrow> ledger \<Rightarrow> capacity_bucket \<Rightarrow> (ledger_error, snapshot_row) result" where
  "offered_row C now L b =
     (let row = resource_payload C now L b; pid = or_else (cb_pool b) [] in
      if host_requirement C = None \<or> \<not> row_enabled row then Return row
      else res_bind (declaration_has_usable_host (cb_host b) (pool_provider L (if pid = [] then None else Some pid))
             (pool_delivers L (if pid = [] then None else Some pid)) (host_requirement C) (deliverable_host_ids C L)) (\<lambda>usable.
        Return (row\<lparr>row_enabled := usable\<rparr>)))"

definition list_offered_resources :: "config \<Rightarrow> int \<Rightarrow> ledger \<Rightarrow> ledger \<times> (ledger_error, snapshot_row list) result" where
  "list_offered_resources C now L = with_expired C now L (\<lambda>L1.
     (L1, res_map (offered_row C now L1) (sort_key cb_updated_at (buckets L1))))"

definition snapshot :: "config \<Rightarrow> int \<Rightarrow> ledger \<Rightarrow> ledger \<times> (ledger_error, snapshot_row list) result" where
  "snapshot C now L = (case list_offered_resources C now L of
     (L1, r) \<Rightarrow> (L1, res_bind r (\<lambda>rows. Return (filter row_enabled rows))))"

definition probe ::
    "config \<Rightarrow> int \<Rightarrow> claim \<Rightarrow> string option \<Rightarrow> int option \<Rightarrow> ledger \<Rightarrow> ledger \<times> (ledger_error, match_payload option) result" where
  "probe C now claim lease_start_utc lease_duration_seconds L =
     (case res_bind (requested_offering_mode claim True) (\<lambda>_.
             res_bind (requested_dimensions (cfg_env C) claim (unit_claim_keys C) (mirror_dimension C)) (\<lambda>requested.
               res_bind (lease_window (cfg_env C) now lease_start_utc lease_duration_seconds None) (\<lambda>w.
                 Return (requested, w)))) of
        Inl e \<Rightarrow> (L, Raise e)
      | Inr (requested, (window_start, window_end)) \<Rightarrow>
          with_expired C now L (\<lambda>L1. (L1,
            res_bind (find_candidate C L1 claim requested window_start window_end) (\<lambda>m.
              Return (map_option (\<lambda>(b, available). match_payload_of C b available requested) m)))))"

section \<open>Reserving\<close>

text \<open>The row \<open>reserve\<close> and \<open>resize_reservation\<close> insert, its debit and its event.\<close>

definition new_reservation ::
    "config \<Rightarrow> int \<Rightarrow> string \<Rightarrow> dims \<Rightarrow> claim option \<Rightarrow> (string \<times> pyval) list \<Rightarrow> string option \<Rightarrow> capacity_bucket \<Rightarrow> string \<Rightarrow>
     int option \<Rightarrow> int option \<Rightarrow> reservation" where
  "new_reservation C now rid requested claim_attributes deal hold_expires b mode window_start window_end =
     \<lparr>r_id = rid, r_settlement = None, r_units = trunc (dim requested (mirror_dimension C)),
      r_dims = serialize_dimensions (cfg_env C) requested, r_claim_attributes = claim_attributes,
      r_state = Reserved, r_deal_ref = deal, r_escrow = deal_escrow_uid deal, r_hold_expires = hold_expires,
      r_offering_mode = Some mode, r_executor_target = None, r_release_job = None,
      r_executor_ref = executor_ref_for_resource b,
      r_lease_start = map_option (isoformat (cfg_env C)) window_start,
      r_lease_end = map_option (isoformat (cfg_env C)) window_end,
      r_create_job = None, r_failure_reason = None, r_failure_message = None, r_released_at = None,
      r_release_requested_at = None, r_activated_at = None, r_created_at = now div SECOND\<rparr>"

definition insert_reservation :: "config \<Rightarrow> reservation \<Rightarrow> dims \<Rightarrow> capacity_bucket \<Rightarrow> ledger \<Rightarrow> ledger" where
  "insert_reservation C r requested b L =
     add_event KReserved (Some (cb_resource b)) (Some (serialize_dimensions (cfg_env C) (negate_dims requested)))
       (L\<lparr>reservations := reservations L @ [r],
          debits := debits L @ [\<lparr>de_reservation = r_id r, de_bucket = cb_id b,
             de_dims = serialize_dimensions (cfg_env C) requested\<rparr>],
          drawn := Suc (drawn L)\<rparr>)"

text \<open>\<open>ttl_us\<close> is \<open>ttl_seconds\<close> in the microseconds \<open>timedelta\<close> rounds it to.\<close>

definition hold_deadline :: "config \<Rightarrow> int \<Rightarrow> int option \<Rightarrow> string option" where
  "hold_deadline C now ttl_us = map_option (\<lambda>us. isoformat (cfg_env C) (now + us)) ttl_us"

definition parse_request ::
    "config \<Rightarrow> int \<Rightarrow> claim \<Rightarrow> string option \<Rightarrow> int option \<Rightarrow>
     (ledger_error, dims \<times> string \<times> int option \<times> int option) result" where
  "parse_request C now claim lease_start_utc lease_duration_seconds =
     res_bind (requested_dimensions (cfg_env C) claim (unit_claim_keys C) (mirror_dimension C)) (\<lambda>requested.
       res_bind (requested_offering_mode claim True) (\<lambda>mode.
         res_bind (lease_window (cfg_env C) now lease_start_utc lease_duration_seconds None) (\<lambda>(s, e).
           Return (requested, the mode, s, e))))"

definition reserve_in_tx ::
    "config \<Rightarrow> int \<Rightarrow> claim \<Rightarrow> (string \<times> pyval) list \<Rightarrow> int option \<Rightarrow> dims \<Rightarrow> string \<Rightarrow> int option \<Rightarrow> int option \<Rightarrow> ledger \<Rightarrow>
     reserve_payload option tx" where
  "reserve_in_tx C now claim deal ttl_us requested mode window_start window_end L =
     (let escrow = deal_escrow_uid deal;
          existing = (if is_truthy escrow then find_reservation L None escrow None else None) in
      case existing of
        Some r \<Rightarrow>
          if r_offering_mode r \<noteq> Some mode then Raise OfferingModeMismatch
          else Return (L, Some (reservation_payload_for_reserve C L r))
      | None \<Rightarrow>
          res_bind (find_candidate C L claim requested window_start window_end) (\<lambda>m. case m of
            None \<Rightarrow> Return (L, None)
          | Some (b, available) \<Rightarrow>
              (let hold = hold_deadline C now ttl_us;
                   rid = uuid4 C (drawn L);
                   r = new_reservation C now rid requested
                         (Some (snd (split_claim_requirement claim (unit_claim_keys C)))) deal hold b mode window_start window_end;
                   after = sub_dims available requested in
               Return (insert_reservation C r requested b L,
                 Some (Fresh (match_payload_of C b after requested) rid hold (Some mode))))))"

definition reserve ::
    "config \<Rightarrow> int \<Rightarrow> claim \<Rightarrow> (string \<times> pyval) list \<Rightarrow> int option \<Rightarrow> string option \<Rightarrow> int option \<Rightarrow> ledger \<Rightarrow>
     ledger \<times> (ledger_error, reserve_payload option) result" where
  "reserve C now claim deal ttl_us lease_start_utc lease_duration_seconds L =
     (case parse_request C now claim lease_start_utc lease_duration_seconds of
        Inl e \<Rightarrow> (L, Raise e)
      | Inr (requested, mode, s, e) \<Rightarrow>
          with_expired C now L (\<lambda>L1. run_tx L1 (reserve_in_tx C now claim deal ttl_us requested mode s e L1)))"

section \<open>Settlement assignment and scheduling\<close>

definition move_debit :: "string \<Rightarrow> string \<Rightarrow> ledger \<Rightarrow> ledger" where
  "move_debit rid bid L = L\<lparr>debits := map (\<lambda>d. if de_reservation d = rid then d\<lparr>de_bucket := bid\<rparr> else d) (debits L)\<rparr>"

definition assign_to ::
    "config \<Rightarrow> reservation \<Rightarrow> capacity_bucket \<Rightarrow> ledger \<Rightarrow> reservation_payload option tx" where
  "assign_to C r dest L =
     (let rid = r_id r; target = cb_resource dest; payload = (\<lambda>L'. map_option (reservation_payload_of C) (reservation_by_id L' rid)) in
      if backing_resource_id L rid = Some target then
        (let L1 = update_reservation rid (\<lambda>r. r\<lparr>r_settlement := Some target\<rparr>) L in Return (L1, payload L1))
      else
        (let dims = reservation_dimensions (mirror_dimension C) r;
             held = held_dimensions C L target None None;
             capacity = resource_capacity (mirror_dimension C) dest in
         if list_ex (\<lambda>(k, amount). dim capacity k - dim held k < amount) dims then Raise (LacksCapacity target)
         else if debit_for_reservation L rid = None then Raise (NoDebit rid)
         else
           (let source = backing_resource_id L rid; E = cfg_env C;
                L1 = move_debit rid (cb_id dest) L;
                L2 = update_reservation rid (\<lambda>r. r\<lparr>r_settlement := Some target, r_executor_ref := executor_ref_for_resource dest\<rparr>) L1;
                L3 = add_event KReleasedForReassignment source (Some (serialize_dimensions E dims)) L2;
                L4 = add_event KAssignedForSettlement (Some target) (Some (serialize_dimensions E (negate_dims dims))) L3 in
            Return (L4, payload L4))))"

definition assign_settlement_resource_in_session ::
    "config \<Rightarrow> string \<Rightarrow> string \<Rightarrow> ledger \<Rightarrow> reservation_payload option tx" where
  "assign_settlement_resource_in_session C rid target L =
     (case find_reservation L (Some rid) None None of
        None \<Rightarrow> Return (L, None)
      | Some r \<Rightarrow>
          if \<not> isheld r then Raise (NotHeld rid)
          else (case bucket_by_backing_resource L target of
              None \<Rightarrow> Raise (SettlementUnavailable target)
            | Some dest \<Rightarrow>
                if \<not> cb_enabled dest then Raise (SettlementUnavailable target)
                else if \<not> is_truthy (cb_pool dest) then Raise (SettlementNoPool target)
                else if \<not> is_truthy (r_offering_mode r) then Raise (NoExecutorIdentity rid)
                else res_bind (pool_declares_mode L dest (the (r_offering_mode r))) (\<lambda>declared.
                  if \<not> declared then Raise (UndeclaredOfferingMode [the (cb_pool dest)])
                  else res_bind (declaration_has_usable_host (cb_host dest) (pool_provider L (cb_pool dest)) True
                         (host_requirement C) (deliverable_host_ids C L)) (\<lambda>usable.
                    if \<not> usable then Raise (NoUsableHost target) else assign_to C r dest L))))"

definition assign_settlement_resource ::
    "config \<Rightarrow> int \<Rightarrow> string \<Rightarrow> string \<Rightarrow> ledger \<Rightarrow> ledger \<times> (ledger_error, reservation_payload option) result" where
  "assign_settlement_resource C now rid target L =
     with_expired C now L (\<lambda>L1. run_tx L1 (assign_settlement_resource_in_session C rid target L1))"

definition credit_back :: "dims \<Rightarrow> dims \<Rightarrow> dims" where
  "credit_back available own = fold (\<lambda>(k, q) a. dict_set k (dim a k + q) a) own available"

definition iter_scheduling_candidates ::
    "config \<Rightarrow> int \<Rightarrow> string \<Rightarrow> string \<Rightarrow> ledger \<Rightarrow> feasibility_view list" where
  "iter_scheduling_candidates C now resource_kind exclude L =
     (let own_backing = backing_resource_id L exclude;
          own = (case reservation_by_id L exclude of None \<Rightarrow> [] | Some r \<Rightarrow> reservation_dimensions (mirror_dimension C) r);
          rows = sort_key cb_resource (filter (\<lambda>b. cb_enabled b \<and> cb_type b = resource_kind) (buckets L)) in
      map (\<lambda>b.
          (let available = available_dims (resource_capacity (mirror_dimension C) b)
                 (held_dimensions C L (cb_resource b) (Some now) (Some (now + 1))) in
           view_of_bucket C b (if Some (cb_resource b) = own_backing then credit_back available own else available)))
        (filter (\<lambda>b. is_truthy (cb_pool b) \<and> \<not> has_physical_host_conflict C L b (Some now) (Some (now + 1)) (Some exclude)) rows))"

section \<open>The lease lifecycle\<close>

definition COMMIT_REFUSED_STATES :: "reservation_state set" where
  "COMMIT_REFUSED_STATES = {Releasing, Release_failed, Unmanaged}"

definition BEGIN_RELEASING_FROM :: "reservation_state set" where
  "BEGIN_RELEASING_FROM = {Reserved, Leased, Release_failed}"

definition RECORD_RELEASE_FAILED_FROM :: "reservation_state set" where
  "RECORD_RELEASE_FAILED_FROM = {Reserved, Leased, Releasing}"

definition payload_by_id :: "config \<Rightarrow> ledger \<Rightarrow> string \<Rightarrow> reservation_payload option" where
  "payload_by_id C L rid = map_option (reservation_payload_of C) (reservation_by_id L rid)"

definition commit_in_tx ::
    "config \<Rightarrow> int \<Rightarrow> string option \<Rightarrow> string option \<Rightarrow> string option \<Rightarrow> int option \<Rightarrow> int option \<Rightarrow> (string \<times> pyval) list \<Rightarrow> ledger \<Rightarrow>
     reservation_payload option tx" where
  "commit_in_tx C now resource_id rid lease_end_utc window_start window_end deal L =
     (case find_reservation L rid None (if is_truthy rid then None else resource_id) of
        None \<Rightarrow> Return (L, None)
      | Some r \<Rightarrow>
          if \<not> isheld r \<or> r_state r \<in> COMMIT_REFUSED_STATES then Raise (CannotCommit (r_id r))
          else
            (let escrow = deal_escrow_uid deal;
                 L1 = (if is_truthy escrow \<and> \<not> is_truthy (r_escrow r)
                       then update_reservation (r_id r) (\<lambda>r. r\<lparr>r_escrow := escrow\<rparr>) L else L) in
             if r_state r = Leased then Return (L1, payload_by_id C L1 (r_id r))
             else
               (let L2 = update_reservation (r_id r) (\<lambda>r. r\<lparr>r_state := Leased,
                      r_lease_end := (if window_end \<noteq> None then lease_end_utc else r_lease_end r),
                      r_hold_expires := None,
                      r_lease_start := (case window_start of
                          Some s \<Rightarrow> Some (isoformat (cfg_env C) s)
                        | None \<Rightarrow> if is_truthy (r_lease_start r) then r_lease_start r else Some (isoformat (cfg_env C) now))\<rparr>) L1;
                    L3 = add_event KCommitted (backing_resource_id L2 (r_id r)) None L2 in
                Return (L3, payload_by_id C L3 (r_id r)))))"

definition commit ::
    "config \<Rightarrow> int \<Rightarrow> string option \<Rightarrow> string option \<Rightarrow> string option \<Rightarrow> string option \<Rightarrow> (string \<times> pyval) list \<Rightarrow> ledger \<Rightarrow>
     ledger \<times> (ledger_error, reservation_payload option) result" where
  "commit C now resource_id rid lease_start_utc lease_end_utc deal L =
     (case lease_window (cfg_env C) now lease_start_utc None lease_end_utc of
        Inl e \<Rightarrow> (L, Raise e)
      | Inr (s, e) \<Rightarrow> run_tx L (commit_in_tx C now resource_id rid lease_end_utc s e deal L))"

text \<open>The part a release and a resize's supersede step share: evidence, state, effect, event.\<close>

definition free_reservation ::
    "config \<Rightarrow> int \<Rightarrow> reservation \<Rightarrow> reservation_state \<Rightarrow> string \<Rightarrow> (string \<times> pyval) list \<Rightarrow> string \<Rightarrow> string option \<Rightarrow>
     (reservation \<Rightarrow> reservation) \<Rightarrow> ledger \<Rightarrow> (ledger_error, ledger) result" where
  "free_reservation C now r state key context cause reason mark L =
     res_bind (record_lease_end C now r key context cause reason L) (\<lambda>L1.
       let L2 = update_reservation (r_id r) (\<lambda>r. mark (r\<lparr>r_state := state,
                  r_released_at := Some (isoformat (cfg_env C) now)\<rparr>)) L1 in
       res_bind (run_release_effect C (r_id r) state L2) (\<lambda>L3.
         Return (add_event KReleased (backing_resource_id L3 (r_id r))
           (Some (serialize_dimensions (cfg_env C) (reservation_dimensions (mirror_dimension C) r))) L3)))"

definition release_in_tx ::
    "config \<Rightarrow> int \<Rightarrow> string option \<Rightarrow> (string \<times> pyval) list \<Rightarrow> bool \<Rightarrow> string option \<Rightarrow> string option \<Rightarrow> (string \<times> pyval) list \<Rightarrow> ledger \<Rightarrow>
     reservation_payload option tx" where
  "release_in_tx C now rid deal forced failure_reason failure_message end_context L =
     (let state = (if forced then Force_released else Released);
          escrow = deal_escrow_uid deal in
      case find_reservation L rid (if is_truthy rid then None else escrow) None of
        None \<Rightarrow> Return (L, None)
      | Some r \<Rightarrow>
          if r_state r \<in> {Released, Force_released} then Return (L, Some (reservation_payload_of C r))
          else if \<not> isheld r then Return (L, None)
          else if \<not> forced \<and> r_state r = Unmanaged then Return (L, None)
          else if \<not> forced \<and> \<not> release_permitted C L (r_id r) then Return (L, None)
          else res_bind (free_reservation C now r state (if forced then ''force_release'' else ''end'') end_context
                 (if forced then ''force_release'' else ''release'')
                 (if is_truthy failure_message then failure_message else failure_reason)
                 (\<lambda>r. r\<lparr>r_failure_reason := failure_reason, r_failure_message := failure_message\<rparr>) L)
               (\<lambda>L'. Return (L', payload_by_id C L' (r_id r))))"

definition release ::
    "config \<Rightarrow> int \<Rightarrow> string option \<Rightarrow> (string \<times> pyval) list \<Rightarrow> bool \<Rightarrow> string option \<Rightarrow> string option \<Rightarrow> (string \<times> pyval) list \<Rightarrow> ledger \<Rightarrow>
     ledger \<times> (ledger_error, reservation_payload option) result" where
  "release C now rid deal forced failure_reason failure_message end_context L =
     run_tx L (release_in_tx C now rid deal forced failure_reason failure_message end_context L)"

definition resize_in_tx ::
    "config \<Rightarrow> int \<Rightarrow> string \<Rightarrow> claim \<Rightarrow> (string \<times> pyval) list \<Rightarrow> int option \<Rightarrow> dims \<Rightarrow> string \<Rightarrow> int option \<Rightarrow> int option \<Rightarrow> ledger \<Rightarrow>
     (match_payload \<times> string \<times> string option \<times> string) option tx" where
  "resize_in_tx C now old claim deal ttl_us requested mode window_start window_end L =
     (case reservation_by_id L old of
        None \<Rightarrow> Return (L, None)
      | Some r \<Rightarrow>
          if \<not> isheld r then Return (L, None)
          else if \<not> release_permitted C L old then Return (L, None)
          else res_bind (free_reservation C now r Released ''end'' [] ''superseded'' None
                 (\<lambda>r. r\<lparr>r_failure_reason := Some ''superseded''\<rparr>) L) (\<lambda>L1.
            res_bind (find_candidate C L1 claim requested window_start window_end) (\<lambda>m. case m of
              None \<Rightarrow> Return (L, None)
            | Some (b, available) \<Rightarrow>
                (let hold = hold_deadline C now ttl_us;
                     rid = uuid4 C (drawn L1);
                     n = new_reservation C now rid requested (r_claim_attributes r) deal hold b mode window_start window_end;
                     after = sub_dims available requested in
                 Return (insert_reservation C n requested b L1,
                   Some (match_payload_of C b after requested, rid, hold, old))))))"

definition resize_reservation ::
    "config \<Rightarrow> int \<Rightarrow> string \<Rightarrow> claim \<Rightarrow> (string \<times> pyval) list \<Rightarrow> int option \<Rightarrow> string option \<Rightarrow> int option \<Rightarrow> ledger \<Rightarrow>
     ledger \<times> (ledger_error, (match_payload \<times> string \<times> string option \<times> string) option) result" where
  "resize_reservation C now old claim deal ttl_us lease_start_utc lease_duration_seconds L =
     (case parse_request C now claim lease_start_utc lease_duration_seconds of
        Inl e \<Rightarrow> (L, Raise e)
      | Inr (requested, mode, s, e) \<Rightarrow>
          with_expired C now L (\<lambda>L1. run_tx L1 (resize_in_tx C now old claim deal ttl_us requested mode s e L1)))"

definition truncate_lease ::
    "config \<Rightarrow> string \<Rightarrow> string \<Rightarrow> ledger \<Rightarrow> ledger \<times> (ledger_error, reservation_payload option) result" where
  "truncate_lease C rid lease_end_utc L = (case find_reservation L (Some rid) None None of
     None \<Rightarrow> (L, Return None)
   | Some r \<Rightarrow>
       if r_state r \<noteq> Leased then (L, Return None)
       else (case parse_utc (cfg_env C) (Some lease_end_utc) of
           None \<Rightarrow> (L, Return None)
         | Some new_end \<Rightarrow>
             if (case parse_utc (cfg_env C) (r_lease_end r) of None \<Rightarrow> False | Some current \<Rightarrow> new_end > current)
             then (L, Return None)
             else
               (let L1 = update_reservation (r_id r) (\<lambda>r. r\<lparr>r_lease_end := Some lease_end_utc\<rparr>) L;
                    L2 = add_event KLeaseTruncated (backing_resource_id L1 (r_id r)) None L1 in
                (L2, Return (payload_by_id C L2 (r_id r))))))"

definition activate_lease ::
    "config \<Rightarrow> int \<Rightarrow> string \<Rightarrow> ledger \<Rightarrow> ledger \<times> (ledger_error, reservation_payload option) result" where
  "activate_lease C now rid L = (case find_reservation L (Some rid) None None of
     None \<Rightarrow> (L, Return None)
   | Some r \<Rightarrow>
       if r_state r \<noteq> Leased then (L, Raise (CannotActivate (r_id r)))
       else if r_lease_end r = None then (L, Raise (NoLeaseTail (r_id r)))
       else
         (let L1 = (if r_activated_at r = None
                    then update_reservation (r_id r) (\<lambda>r. r\<lparr>r_activated_at := Some (isoformat (cfg_env C) now)\<rparr>) L
                    else L) in
          (L1, Return (payload_by_id C L1 (r_id r)))))"

definition list_lease_due :: "config \<Rightarrow> int \<Rightarrow> ledger \<Rightarrow> reservation_payload list" where
  "list_lease_due C now L = map (reservation_payload_of C) (filter (\<lambda>r. r_state r = Leased \<and> r_lease_end r \<noteq> None \<and>
     (case parse_utc (cfg_env C) (r_lease_end r) of None \<Rightarrow> False | Some t \<Rightarrow> t \<le> now)) (reservations L))"

definition set_release_job_id :: "string option \<Rightarrow> reservation \<Rightarrow> reservation" where
  "set_release_job_id job r = (case job of None \<Rightarrow> r | Some j \<Rightarrow> r\<lparr>r_release_job := Some j\<rparr>)"

definition begin_releasing_in_tx ::
    "config \<Rightarrow> int \<Rightarrow> string \<Rightarrow> string option \<Rightarrow> (string \<times> pyval) list \<Rightarrow> ledger \<Rightarrow> reservation_payload option tx" where
  "begin_releasing_in_tx C now rid release_job_id end_context L = (case reservation_by_id L rid of
     None \<Rightarrow> Return (L, None)
   | Some r \<Rightarrow>
       if r_state r = Releasing then
         (if release_job_id \<noteq> None \<and> r_release_job r \<noteq> None \<and> r_release_job r \<noteq> release_job_id then Return (L, None)
          else (let L1 = update_reservation rid (set_release_job_id release_job_id) L in Return (L1, payload_by_id C L1 rid)))
       else if r_state r \<notin> BEGIN_RELEASING_FROM then Return (L, None)
       else res_bind (record_lease_end C now r ''end'' end_context ''release'' None L) (\<lambda>L1.
         let L2 = update_reservation rid (\<lambda>r. set_release_job_id release_job_id (r\<lparr>r_state := Releasing,
                    r_release_requested_at := Some (isoformat (cfg_env C) now)\<rparr>)) L1 in
         Return (L2, payload_by_id C L2 rid)))"

definition begin_releasing ::
    "config \<Rightarrow> int \<Rightarrow> string \<Rightarrow> string option \<Rightarrow> (string \<times> pyval) list \<Rightarrow> ledger \<Rightarrow> ledger \<times> (ledger_error, reservation_payload option) result" where
  "begin_releasing C now rid release_job_id end_context L =
     run_tx L (begin_releasing_in_tx C now rid release_job_id end_context L)"

definition record_release_failed_in_tx ::
    "config \<Rightarrow> int \<Rightarrow> string \<Rightarrow> string \<Rightarrow> string option \<Rightarrow> string option \<Rightarrow> (string \<times> pyval) list \<Rightarrow> ledger \<Rightarrow> reservation_payload option tx" where
  "record_release_failed_in_tx C now rid reason message release_job_id end_context L = (case reservation_by_id L rid of
     None \<Rightarrow> Return (L, None)
   | Some r \<Rightarrow>
       if r_state r \<notin> RECORD_RELEASE_FAILED_FROM then Return (L, None)
       else if r_state r = Releasing \<and> release_job_id \<noteq> None \<and> r_release_job r \<noteq> release_job_id then Return (L, None)
       else res_bind (record_lease_end C now r ''release_failure'' end_context ''release_failed''
              (if is_truthy message then message else Some reason) L) (\<lambda>L1.
         let L2 = update_reservation rid (\<lambda>r. r\<lparr>r_state := Release_failed, r_failure_reason := Some reason,
                    r_failure_message := message\<rparr>) L1 in
         Return (L2, payload_by_id C L2 rid)))"

definition record_release_failed ::
    "config \<Rightarrow> int \<Rightarrow> string \<Rightarrow> string \<Rightarrow> string option \<Rightarrow> string option \<Rightarrow> (string \<times> pyval) list \<Rightarrow> ledger \<Rightarrow>
     ledger \<times> (ledger_error, reservation_payload option) result" where
  "record_release_failed C now rid reason message release_job_id end_context L =
     run_tx L (record_release_failed_in_tx C now rid reason message release_job_id end_context L)"

definition record_unmanaged ::
    "config \<Rightarrow> string \<Rightarrow> string \<Rightarrow> string option \<Rightarrow> ledger \<Rightarrow> ledger \<times> reservation_payload option" where
  "record_unmanaged C rid reason message L = (case reservation_by_id L rid of
     None \<Rightarrow> (L, None)
   | Some r \<Rightarrow>
       if r_state r \<noteq> Leased then (L, None)
       else (let L1 = update_reservation rid (\<lambda>r. r\<lparr>r_state := Unmanaged, r_failure_reason := Some reason,
                   r_failure_message := message\<rparr>) L in (L1, payload_by_id C L1 rid)))"

definition record_create_handle_in_session ::
    "config \<Rightarrow> string \<Rightarrow> string \<Rightarrow> ledger \<Rightarrow> ledger \<times> reservation_payload option" where
  "record_create_handle_in_session C rid create_job_id L = (case reservation_by_id L rid of
     None \<Rightarrow> (L, None)
   | Some r \<Rightarrow>
       if r_state r \<in> {Released, Force_released} then (L, None)
       else (let L1 = (if is_truthy (r_create_job r) then L
                       else update_reservation rid (\<lambda>r. r\<lparr>r_create_job := Some create_job_id\<rparr>) L) in
             (L1, payload_by_id C L1 rid)))"

text \<open>\<open>_sync_executor_fields\<close> refuses a reservation without an offering mode.\<close>

definition sync_executor_target :: "string \<Rightarrow> reservation \<Rightarrow> (ledger_error, reservation) result" where
  "sync_executor_target target r = (case r_offering_mode r of
     None \<Rightarrow> Raise (NoExecutorIdentity (r_id r)) | Some _ \<Rightarrow> Return (r\<lparr>r_executor_target := Some target\<rparr>))"

definition record_executor_target_in_session ::
    "config \<Rightarrow> string \<Rightarrow> string \<Rightarrow> ledger \<Rightarrow> reservation_payload option tx" where
  "record_executor_target_in_session C rid executor_target L = (case reservation_by_id L rid of
     None \<Rightarrow> Return (L, None)
   | Some r \<Rightarrow>
       if r_state r \<in> {Released, Force_released} then Return (L, None)
       else if r_executor_target r = None then
         res_bind (sync_executor_target executor_target r) (\<lambda>r'.
           let L1 = update_reservation rid (\<lambda>_. r') L in Return (L1, payload_by_id C L1 rid))
       else Return (L, payload_by_id C L rid))"

definition expire_due_holds :: "config \<Rightarrow> int \<Rightarrow> ledger \<Rightarrow> ledger \<times> (ledger_error, unit) result" where
  "expire_due_holds C now L = with_expired C now L (\<lambda>L1. (L1, Return ()))"

section \<open>The feed and queries\<close>

definition events_after :: "nat \<Rightarrow> nat \<Rightarrow> ledger \<Rightarrow> capacity_event list \<times> nat" where
  "events_after after_version limit L =
     (take limit (sort_key ev_version (filter (\<lambda>e. ev_version e > after_version) (events L))),
      Max (insert 0 (ev_version ` set (events L))))"

definition get_reservation :: "config \<Rightarrow> string \<Rightarrow> ledger \<Rightarrow> reservation_payload option" where
  "get_reservation C rid L = payload_by_id C L rid"

definition get_reservation_by_escrow :: "config \<Rightarrow> string \<Rightarrow> ledger \<Rightarrow> reservation_payload option" where
  "get_reservation_by_escrow C escrow L = map_option (reservation_payload_of C) (find_reservation L None (Some escrow) None)"

definition list_reservations :: "config \<Rightarrow> reservation_state option \<Rightarrow> ledger \<Rightarrow> reservation_payload list" where
  "list_reservations C state L = map (reservation_payload_of C) (sort_key r_created_at
     (filter (\<lambda>r. case state of None \<Rightarrow> True | Some s \<Rightarrow> r_state r = s) (reservations L)))"

definition lease_end_events :: "string \<Rightarrow> ledger \<Rightarrow> lease_ended_event list" where
  "lease_end_events rid L = sort_key le_id (filter (\<lambda>e. le_reservation e = rid) (lease_ends L))"

end
