(* ===== verification/Site_Ledger_Proofs.thy ===== *)
theory Site_Ledger_Proofs
  imports Site_Ledger "HOL-Library.Sublist"
begin

text \<open>
  What the site ledger guarantees.  The first part relates one operation's ledger to the next:
  a \<open>quiet\<close> change rewrites reservations in place along the lease lifecycle, appends to the
  feed and leaves declarations and debits alone.  Every lifecycle operation is quiet; a
  reservation, a resize and a settlement assignment add one admitted row or move one debit.
  The invariant, the lifecycle order and the absence of oversell follow for every sequence
  of operations.
\<close>

section \<open>The lease lifecycle as an order on states\<close>

definition leads_to :: "reservation_state \<Rightarrow> reservation_state \<Rightarrow> bool" where
  "leads_to s t = (s = t \<or> (case s of
     Reserved \<Rightarrow> True
   | Leased \<Rightarrow> t \<noteq> Reserved
   | Releasing \<Rightarrow> t \<in> {Release_failed, Released, Force_released}
   | Release_failed \<Rightarrow> t \<in> {Releasing, Released, Force_released}
   | Unmanaged \<Rightarrow> t \<in> {Released, Force_released}
   | Released \<Rightarrow> False
   | Force_released \<Rightarrow> False))"

lemma leads_to_refl [simp]: "leads_to s s"
  by (simp add: leads_to_def)

lemma leads_to_trans: "leads_to s t \<Longrightarrow> leads_to t u \<Longrightarrow> leads_to s u"
  by (cases s; cases t; cases u) (simp_all add: leads_to_def)

lemma leads_to_held:
  "leads_to s t \<Longrightarrow> t \<in> HELD_RESERVATION_STATES \<Longrightarrow> s \<in> HELD_RESERVATION_STATES"
  by (cases s; cases t) (simp_all add: leads_to_def HELD_RESERVATION_STATES_def)

lemma held_leads_to: "s \<in> HELD_RESERVATION_STATES \<Longrightarrow> leads_to s Released \<and> leads_to s Force_released"
  by (auto simp: leads_to_def HELD_RESERVATION_STATES_def)

section \<open>Quiet changes\<close>

text \<open>One row rewritten along the lifecycle: its identity, its deal, its mode and the quantity it
  holds stay.\<close>

definition row_step :: "reservation \<Rightarrow> reservation \<Rightarrow> bool" where
  "row_step r r' = (r_id r' = r_id r \<and> r_dims r' = r_dims r \<and> r_units r' = r_units r \<and>
     r_deal_ref r' = r_deal_ref r \<and> r_offering_mode r' = r_offering_mode r \<and> leads_to (r_state r) (r_state r'))"

lemma row_step_refl [simp]: "row_step r r"
  by (simp add: row_step_def)

lemma row_step_trans: "row_step a b \<Longrightarrow> row_step b c \<Longrightarrow> row_step a c"
  by (auto simp: row_step_def intro: leads_to_trans)

text \<open>The feed is numbered from one without gaps.\<close>

definition feed_ok :: "ledger \<Rightarrow> bool" where
  "feed_ok L = (map ev_version (events L) = [1..<Suc (length (events L))])"

lemma feed_ok_add [simp]: "feed_ok L \<Longrightarrow> feed_ok (add_event kind res d L)"
  by (simp add: feed_ok_def add_event_def)

text \<open>Each transition of a reservation is recorded at most once in the lease-ended events.\<close>

definition ends_ok :: "ledger \<Rightarrow> bool" where
  "ends_ok L = distinct (map (\<lambda>e. (le_reservation e, le_key e)) (lease_ends L))"

definition quiet :: "ledger \<Rightarrow> ledger \<Rightarrow> bool" where
  "quiet L L' = (list_all2 row_step (reservations L) (reservations L') \<and> debits L' = debits L \<and>
     buckets L' = buckets L \<and> pools L' = pools L \<and> prefix (events L) (events L') \<and>
     prefix (lease_ends L) (lease_ends L') \<and> drawn L \<le> drawn L' \<and> (feed_ok L \<longrightarrow> feed_ok L') \<and> (ends_ok L \<longrightarrow> ends_ok L'))"

lemma quiet_refl [simp, intro]: "quiet L L"
  by (simp add: quiet_def list_all2_same)

lemma quiet_trans: "quiet L L1 \<Longrightarrow> quiet L1 L2 \<Longrightarrow> quiet L L2"
  unfolding quiet_def
  using list_all2_trans [of row_step row_step row_step "reservations L" "reservations L1" "reservations L2"] row_step_trans
    prefix_order.order_trans [of "events L" "events L1" "events L2"]
    prefix_order.order_trans [of "lease_ends L" "lease_ends L1" "lease_ends L2"]
  by auto

text \<open>What the identifiers of a ledger satisfy.\<close>

definition ids_ok :: "ledger \<Rightarrow> bool" where
  "ids_ok L = (distinct (map r_id (reservations L)) \<and> distinct (map cb_id (buckets L)) \<and>
     distinct (map cb_resource (buckets L)) \<and> distinct (map de_reservation (debits L)))"

lemma quiet_ids: "quiet L L' \<Longrightarrow> map r_id (reservations L') = map r_id (reservations L)"
proof -
  have "list_all2 row_step rs rs' \<Longrightarrow> map r_id rs' = map r_id rs" for rs rs'
    by (induction rule: list_all2_induct) (auto simp: row_step_def)
  then show "quiet L L' \<Longrightarrow> map r_id (reservations L') = map r_id (reservations L)"
    by (simp add: quiet_def)
qed

lemma quiet_ids_ok: "quiet L L' \<Longrightarrow> ids_ok L \<Longrightarrow> ids_ok L'"
  using quiet_ids [of L L'] by (simp add: ids_ok_def quiet_def)

lemma quiet_add_event [simp, intro]: "quiet L (add_event kind res d L)"
  unfolding quiet_def using feed_ok_add [of L kind res d] by (simp add: add_event_def list_all2_same ends_ok_def)

lemma quiet_update:
  assumes "ids_ok L" "r \<in> set (reservations L)" "r_id r = rid" "row_step r (f r)"
  shows "quiet L (update_reservation rid f L)"
proof -
  have "row_step x (if r_id x = rid then f x else x)" if "x \<in> set (reservations L)" for x
  proof (cases "r_id x = rid")
    case True
    with assms(1-3) that have "x = r" by (auto simp: ids_ok_def distinct_map inj_on_def)
    with True assms(4) show ?thesis by simp
  qed simp
  then show ?thesis
    by (simp add: quiet_def update_reservation_def list_all2_map2 list_all2_same feed_ok_def ends_ok_def)
qed

lemma reservation_by_id_Some:
  "reservation_by_id L rid = Some r \<Longrightarrow> r \<in> set (reservations L) \<and> r_id r = rid"
  by (auto simp: reservation_by_id_def find_Some_iff)

lemma reservation_by_id_mem:
  "ids_ok L \<Longrightarrow> r \<in> set (reservations L) \<Longrightarrow> reservation_by_id L (r_id r) = Some r"
proof -
  assume ok: "ids_ok L" and r: "r \<in> set (reservations L)"
  then obtain x where x: "reservation_by_id L (r_id r) = Some x"
    by (cases "reservation_by_id L (r_id r)") (auto simp: reservation_by_id_def find_None_iff)
  with reservation_by_id_Some [OF x] ok r have "x = r" by (auto simp: ids_ok_def distinct_map inj_on_def)
  with x show ?thesis by simp
qed

lemma latest_created_mem: "latest_created rs = Some r \<Longrightarrow> r \<in> set rs"
proof -
  assume "latest_created rs = Some r"
  then obtain xs where "sort_key (\<lambda>r. - r_created_at r) rs = r # xs"
    unfolding latest_created_def by (auto split: list.splits)
  then have "r \<in> set (sort_key (\<lambda>r. - r_created_at r) rs)" by simp
  then show ?thesis by simp
qed

lemma find_reservation_mem:
  "find_reservation L rid escrow res = Some r \<Longrightarrow> r \<in> set (reservations L)"
  by (auto simp: find_reservation_def split: if_splits option.splits
      dest!: latest_created_mem reservation_by_id_Some)

lemma record_lease_end_cases:
  assumes "record_lease_end C now r key ctx cause reason L = Return L'"
  obtains "L' = L"
  | e where "L' = L\<lparr>lease_ends := lease_ends L @ [e], drawn := Suc (drawn L)\<rparr>" "le_reservation e = r_id r" "le_key e = key"
      "le_source_state e = r_state r"
      "\<forall>x \<in> set (lease_ends L). (le_reservation x, le_key x) \<noteq> (r_id r, key)"
  using assms that by (auto simp: record_lease_end_def Let_def list_ex_iff split: if_splits option.splits)

lemma record_lease_end_eq:
  assumes "record_lease_end C now r key ctx cause reason L = Return L'"
  shows "reservations L' = reservations L \<and> quiet L L'"
  using assms
proof (cases rule: record_lease_end_cases)
  case (2 e)
  then have "(le_reservation e, le_key e) \<notin> (\<lambda>x. (le_reservation x, le_key x)) ` set (lease_ends L)" by force
  with 2(1) show ?thesis by (simp add: quiet_def feed_ok_def ends_ok_def list_all2_same)
qed simp

lemma run_release_effect_eq: "run_release_effect C rid s L = Return L' \<Longrightarrow> L' = L"
  by (auto simp: run_release_effect_def split: option.splits if_splits)

lemmas quiet_intros = quiet_refl quiet_add_event

lemma free_reservation_quiet:
  assumes "ids_ok L" "r \<in> set (reservations L)"
    and "row_step r (mark (r\<lparr>r_state := state, r_released_at := Some (isoformat (cfg_env C) now)\<rparr>))"
    and "free_reservation C now r state key ctx cause reason mark L = Return L'"
  shows "quiet L L'"
proof -
  obtain L1 where L1: "record_lease_end C now r key ctx cause reason L = Return L1"
    and L': "quiet (update_reservation (r_id r) (\<lambda>r. mark (r\<lparr>r_state := state, r_released_at := Some (isoformat (cfg_env C) now)\<rparr>)) L1) L'"
    using assms(4) by (auto simp: free_reservation_def res_bind_Inr_iff Let_def dest!: run_release_effect_eq)
  note l1 = record_lease_end_eq [OF L1]
  have "quiet L1 (update_reservation (r_id r) (\<lambda>r. mark (r\<lparr>r_state := state, r_released_at := Some (isoformat (cfg_env C) now)\<rparr>)) L1)"
    by (rule quiet_update [where r = r]) (use assms l1 quiet_ids_ok in auto)
  with l1 L' quiet_trans show ?thesis by blast
qed

section \<open>Expiry\<close>

lemma lapse_hold_quiet:
  assumes "ids_ok L" "r \<in> set (reservations L)" "r_state r = Reserved" "lapse_hold C now r L = Return L'"
  shows "quiet L L' \<and> (\<forall>x \<in> set (reservations L). r_id x \<noteq> r_id r \<longrightarrow> x \<in> set (reservations L'))"
proof (cases "L' = L")
  case False
  let ?f = "\<lambda>r. r\<lparr>r_state := Released, r_released_at := Some (isoformat (cfg_env C) now), r_failure_reason := Some ''hold_expired''\<rparr>"
  obtain ctx L1 where L1: "record_lease_end C now r ''end'' ctx ''hold_expired'' None L = Return L1"
    and L': "L' = add_event KReleased (backing_resource_id (update_reservation (r_id r) ?f L1) (r_id r)) None (update_reservation (r_id r) ?f L1)"
    using assms(4) False
    by (auto simp: lapse_hold_def res_bind_Inr_iff Let_def split: option.splits if_splits dest!: run_release_effect_eq)
  note l1 = record_lease_end_eq [OF L1]
  have "quiet L1 (update_reservation (r_id r) ?f L1)"
    by (rule quiet_update [where r = r]) (use assms l1 quiet_ids_ok in \<open>auto simp: row_step_def leads_to_def\<close>)
  with l1 have "quiet L L'" unfolding L' by (blast intro: quiet_trans quiet_add_event)
  moreover have "x \<in> set (reservations L')" if "x \<in> set (reservations L)" "r_id x \<noteq> r_id r" for x
    using that l1 by (force simp: L' add_event_def update_reservation_def)
  ultimately show ?thesis by blast
qed simp

lemma expire_fold_quiet:
  "ids_ok L \<Longrightarrow> distinct (map r_id rs) \<Longrightarrow> \<forall>r \<in> set rs. r \<in> set (reservations L) \<and> r_state r = Reserved \<Longrightarrow>
   res_fold (lapse_hold C now) rs L = Return L' \<Longrightarrow> quiet L L'"
proof (induction rs arbitrary: L)
  case (Cons r rs)
  then obtain L1 where L1: "lapse_hold C now r L = Return L1" "res_fold (lapse_hold C now) rs L1 = Return L'"
    by (auto simp: res_bind_Inr_iff)
  note q = lapse_hold_quiet [OF Cons.prems(1) _ _ L1(1)]
  from q Cons.prems have qL: "quiet L L1" by simp
  have "\<forall>x \<in> set rs. x \<in> set (reservations L1) \<and> r_state x = Reserved"
    using q Cons.prems(2,3) by (auto simp: image_iff)
  then have "quiet L1 L'"
    using Cons.IH [OF quiet_ids_ok [OF qL Cons.prems(1)] _ _ L1(2)] Cons.prems(2) by simp
  with qL show ?case by (rule quiet_trans)
qed simp

lemma expire_stale_holds_quiet:
  assumes "ids_ok L" "expire_stale_holds C now L = Return L'"
  shows "quiet L L'"
proof (rule expire_fold_quiet [OF assms(1) _ _ assms(2) [unfolded expire_stale_holds_def]])
  show "distinct (map r_id (filter (\<lambda>r. r_state r = Reserved \<and> r_hold_expires r \<noteq> None) (reservations L)))"
    using assms(1) by (auto simp: ids_ok_def distinct_map_filter)
qed auto

section \<open>The lifecycle operations are quiet\<close>

lemma run_tx_quiet:
  "(\<And>L' x. t = Return (L', x) \<Longrightarrow> quiet L L') \<Longrightarrow> quiet L (fst (run_tx L t))"
  by (auto simp: run_tx_def split: sum.splits)

lemma with_expired_quiet:
  assumes "ids_ok L" "\<And>L1. ids_ok L1 \<Longrightarrow> quiet L1 (fst (k L1))"
  shows "quiet L (fst (with_expired C now L k))"
proof (cases "expire_stale_holds C now L")
  case (Inr L1)
  have "quiet L L1" by (rule expire_stale_holds_quiet [OF assms(1) Inr])
  with assms(2) [OF quiet_ids_ok [OF this assms(1)]] Inr show ?thesis
    by (auto simp: with_expired_def intro: quiet_trans)
qed (simp add: with_expired_def)

lemma commit_quiet:
  assumes ok: "ids_ok L"
  shows "quiet L (fst (commit C now res rid s e deal L))"
proof (cases "lease_window (cfg_env C) now s None e")
  case (Inr w)
  obtain ws we where w: "w = (ws, we)" by (cases w)
  have "quiet L L'" if t: "commit_in_tx C now res rid e ws we deal L = Return (L', x)" for L' x
  proof (cases "find_reservation L rid None (if is_truthy rid then None else res)")
    case None
    with t show ?thesis by (simp add: commit_in_tx_def)
  next
    case (Some r)
    have mem: "r \<in> set (reservations L)" by (rule find_reservation_mem [OF Some])
    define L1 where "L1 = (if is_truthy (deal_escrow_uid deal) \<and> \<not> is_truthy (r_escrow r)
        then update_reservation (r_id r) (\<lambda>r. r\<lparr>r_escrow := deal_escrow_uid deal\<rparr>) L else L)"
    define r1 where "r1 = (if is_truthy (deal_escrow_uid deal) \<and> \<not> is_truthy (r_escrow r)
        then r\<lparr>r_escrow := deal_escrow_uid deal\<rparr> else r)"
    have q1: "quiet L L1" unfolding L1_def
      using quiet_update [OF ok mem refl, of "\<lambda>r. r\<lparr>r_escrow := deal_escrow_uid deal\<rparr>"] by (simp add: row_step_def)
    have r1: "r1 \<in> set (reservations L1)" "r_id r1 = r_id r" "r_state r1 = r_state r"
      using mem by (auto simp: r1_def L1_def update_reservation_def)
    have q2: "quiet L1 (update_reservation (r_id r) f L1)" if "row_step r1 (f r1)" for f
      by (rule quiet_update [where f = f, OF quiet_ids_ok [OF q1 ok] r1(1,2) that])
    show ?thesis
    proof (cases "r_state r = Leased")
      case True
      with t Some q1 show ?thesis
        by (auto simp: commit_in_tx_def Let_def L1_def isheld_def split: if_splits)
    next
      case False
      with t Some have st: "r_state r = Reserved"
        by (cases "r_state r") (auto simp: commit_in_tx_def isheld_def HELD_RESERVATION_STATES_def COMMIT_REFUSED_STATES_def)
      from False st t Some obtain f k d where "L' = add_event KCommitted k d (update_reservation (r_id r) f L1)" "row_step r1 (f r1)"
        by (auto simp: commit_in_tx_def Let_def L1_def [symmetric] isheld_def HELD_RESERVATION_STATES_def COMMIT_REFUSED_STATES_def
            row_step_def r1 leads_to_def)
      with q2 q1 show ?thesis by (blast intro: quiet_trans quiet_add_event)
    qed
  qed
  with Inr w show ?thesis by (auto simp: commit_def intro: run_tx_quiet)
qed (simp add: commit_def)

lemma release_quiet:
  assumes ok: "ids_ok L"
  shows "quiet L (fst (release C now rid deal forced fr fm ctx L))"
  unfolding release_def
proof (rule run_tx_quiet)
  fix L' x assume t: "release_in_tx C now rid deal forced fr fm ctx L = Return (L', x)"
  show "quiet L L'"
  proof (cases "L' = L")
    case False
    with t obtain r where r: "find_reservation L rid (if is_truthy rid then None else deal_escrow_uid deal) None = Some r"
      by (auto simp: release_in_tx_def Let_def split: option.splits)
    let ?mark = "\<lambda>r. r\<lparr>r_failure_reason := fr, r_failure_message := fm\<rparr>"
    have mem: "r \<in> set (reservations L)" by (rule find_reservation_mem [OF r])
    from t r False have held: "isheld r" by (auto simp: release_in_tx_def Let_def split: if_splits)
    from t r False obtain state key cause reason where
        f: "free_reservation C now r state key ctx cause reason ?mark L = Return L'" "state \<in> {Released, Force_released}"
      by (auto simp: release_in_tx_def Let_def res_bind_Inr_iff split: if_splits)
    show ?thesis
      by (rule free_reservation_quiet [OF ok mem _ f(1)])
        (use held f(2) held_leads_to in \<open>auto simp: row_step_def isheld_def\<close>)
  qed simp
qed

lemma truncate_quiet:
  assumes "ids_ok L"
  shows "quiet L (fst (truncate_lease C rid e L))"
proof (cases "find_reservation L (Some rid) None None")
  case (Some r)
  have "quiet L (update_reservation (r_id r) (\<lambda>r. r\<lparr>r_lease_end := Some e\<rparr>) L)"
    by (rule quiet_update [OF assms find_reservation_mem [OF Some] refl]) (simp add: row_step_def)
  with Some show ?thesis
    by (auto simp: truncate_lease_def Let_def split: option.splits intro: quiet_trans quiet_add_event)
qed (simp add: truncate_lease_def)

lemma activate_quiet:
  assumes "ids_ok L"
  shows "quiet L (fst (activate_lease C now rid L))"
proof (cases "find_reservation L (Some rid) None None")
  case (Some r)
  have "quiet L (update_reservation (r_id r) (\<lambda>r. r\<lparr>r_activated_at := Some (isoformat (cfg_env C) now)\<rparr>) L)"
    by (rule quiet_update [OF assms find_reservation_mem [OF Some] refl]) (simp add: row_step_def)
  with Some show ?thesis by (auto simp: activate_lease_def Let_def)
qed (simp add: activate_lease_def)

lemma begin_releasing_quiet:
  assumes ok: "ids_ok L"
  shows "quiet L (fst (begin_releasing C now rid job ctx L))"
  unfolding begin_releasing_def
proof (rule run_tx_quiet)
  fix L' x assume t: "begin_releasing_in_tx C now rid job ctx L = Return (L', x)"
  have set_job [simp]: "row_step a (set_release_job_id j b) = row_step a b" for a b j
    by (simp add: row_step_def set_release_job_id_def split: option.split)
  show "quiet L L'"
  proof (cases "reservation_by_id L rid")
    case (Some r)
    note mem = reservation_by_id_Some [OF Some]
    show ?thesis
    proof (cases "r_state r = Releasing")
      case True
      have "quiet L (update_reservation rid (set_release_job_id job) L)"
        by (rule quiet_update [where r = r]) (use ok mem in auto)
      with t Some True show ?thesis by (auto simp: begin_releasing_in_tx_def Let_def split: if_splits)
    next
      case False
      show ?thesis
      proof (cases "r_state r \<in> BEGIN_RELEASING_FROM")
        case True
        let ?f = "\<lambda>r. set_release_job_id job (r\<lparr>r_state := Releasing, r_release_requested_at := Some (isoformat (cfg_env C) now)\<rparr>)"
        from t Some False True obtain L1 where L1: "record_lease_end C now r ''end'' ctx ''release'' None L = Return L1"
            "L' = update_reservation rid ?f L1"
          by (auto simp: begin_releasing_in_tx_def Let_def res_bind_Inr_iff)
        note l1 = record_lease_end_eq [OF L1(1)]
        have "quiet L1 (update_reservation rid ?f L1)"
          by (rule quiet_update [where r = r])
            (use ok mem l1 quiet_ids_ok True in \<open>auto simp: row_step_def leads_to_def BEGIN_RELEASING_FROM_def set_release_job_id_def split: option.split\<close>)
        with l1 L1(2) show ?thesis by (blast intro: quiet_trans)
      next
        case False
        with t Some \<open>r_state r \<noteq> Releasing\<close> show ?thesis by (simp add: begin_releasing_in_tx_def)
      qed
    qed
  qed (use t in \<open>simp add: begin_releasing_in_tx_def\<close>)
qed

lemma record_release_failed_quiet:
  assumes ok: "ids_ok L"
  shows "quiet L (fst (record_release_failed C now rid reason msg job ctx L))"
  unfolding record_release_failed_def
proof (rule run_tx_quiet)
  fix L' x assume t: "record_release_failed_in_tx C now rid reason msg job ctx L = Return (L', x)"
  show "quiet L L'"
  proof (cases "L' = L")
    case False
    with t obtain r where r: "reservation_by_id L rid = Some r"
      by (auto simp: record_release_failed_in_tx_def split: option.splits)
    note mem = reservation_by_id_Some [OF r]
    let ?f = "\<lambda>r. r\<lparr>r_state := Release_failed, r_failure_reason := Some reason, r_failure_message := msg\<rparr>"
    from t r False obtain why L1 where L1: "record_lease_end C now r ''release_failure'' ctx ''release_failed'' why L = Return L1"
        "L' = update_reservation rid ?f L1" "r_state r \<in> RECORD_RELEASE_FAILED_FROM"
      by (auto simp: record_release_failed_in_tx_def Let_def res_bind_Inr_iff split: if_splits)
    note l1 = record_lease_end_eq [OF L1(1)]
    have "quiet L1 (update_reservation rid ?f L1)"
      by (rule quiet_update [where r = r])
        (use ok mem l1 quiet_ids_ok L1(3) in \<open>auto simp: row_step_def leads_to_def RECORD_RELEASE_FAILED_FROM_def\<close>)
    with l1 L1(2) show ?thesis by (blast intro: quiet_trans)
  qed simp
qed

lemma record_unmanaged_quiet:
  assumes "ids_ok L"
  shows "quiet L (fst (record_unmanaged C rid reason msg L))"
proof (cases "reservation_by_id L rid")
  case (Some r)
  have "quiet L (update_reservation rid (\<lambda>r. r\<lparr>r_state := Unmanaged, r_failure_reason := Some reason, r_failure_message := msg\<rparr>) L)"
    if "r_state r = Leased"
    by (rule quiet_update [where r = r])
      (use assms reservation_by_id_Some [OF Some] that in \<open>auto simp: row_step_def leads_to_def\<close>)
  with Some show ?thesis by (auto simp: record_unmanaged_def Let_def)
qed (simp add: record_unmanaged_def)

lemma record_create_handle_quiet:
  assumes "ids_ok L"
  shows "quiet L (fst (record_create_handle_in_session C rid job L))"
proof (cases "reservation_by_id L rid")
  case (Some r)
  have "quiet L (update_reservation rid (\<lambda>r. r\<lparr>r_create_job := Some job\<rparr>) L)"
    by (rule quiet_update [where r = r]) (use assms reservation_by_id_Some [OF Some] in \<open>auto simp: row_step_def\<close>)
  with Some show ?thesis by (auto simp: record_create_handle_in_session_def Let_def)
qed (simp add: record_create_handle_in_session_def)

lemma record_executor_target_quiet:
  assumes "ids_ok L" "record_executor_target_in_session C rid target L = Return (L', x)"
  shows "quiet L L'"
proof (cases "reservation_by_id L rid")
  case (Some r)
  have "quiet L (update_reservation rid (\<lambda>_. r\<lparr>r_executor_target := Some target\<rparr>) L)"
    by (rule quiet_update [where r = r]) (use assms reservation_by_id_Some [OF Some] in \<open>auto simp: row_step_def\<close>)
  with Some assms(2) show ?thesis
    by (auto simp: record_executor_target_in_session_def sync_executor_target_def Let_def res_bind_Inr_iff split: if_splits option.splits)
qed (use assms in \<open>simp add: record_executor_target_in_session_def\<close>)

section \<open>Admission\<close>

lemma scan_candidates_Some:
  "scan_candidates judge bs und = Return (Some (b, av), und') \<Longrightarrow> b \<in> set bs \<and> judge b = Return (Admit av)"
proof (induction bs arbitrary: und)
  case (Cons x bs)
  then obtain v where v: "judge x = Return v" by (auto simp: res_bind_Inr_iff)
  with Cons show ?case by (cases v) auto
qed simp

text \<open>What a candidate has been checked for.\<close>

definition admitted :: "config \<Rightarrow> ledger \<Rightarrow> claim \<Rightarrow> dims \<Rightarrow> string option \<Rightarrow> int option \<Rightarrow> int option \<Rightarrow> capacity_bucket \<Rightarrow> bool" where
  "admitted C L claim requested mode s e b = (b \<in> set (buckets L) \<and> cb_enabled b \<and> is_truthy (cb_pool b) \<and>
     (\<forall>m. mode = Some m \<longrightarrow> pool_declares_mode L b m = Return True) \<and>
     declaration_has_usable_host (cb_host b) (pool_provider L (cb_pool b)) True (host_requirement C) (deliverable_host_ids C L) = Return True \<and>
     \<not> has_physical_host_conflict C L b s e None \<and>
     resource_satisfies_requirement (view_of_bucket C b (available_dims (resource_capacity (mirror_dimension C) b)
        (held_dimensions C L (cb_resource b) s e))) (fst (split_claim_requirement claim (unit_claim_keys C))) requested
        (snd (split_claim_requirement claim (unit_claim_keys C))))"

lemma judge_Admit:
  assumes "judge_candidate C L claim requested mode s e b = Return (Admit av)"
  shows "is_truthy (cb_pool b) \<and> (\<forall>m. mode = Some m \<longrightarrow> pool_declares_mode L b m = Return True) \<and>
     declaration_has_usable_host (cb_host b) (pool_provider L (cb_pool b)) True (host_requirement C) (deliverable_host_ids C L) = Return True \<and>
     \<not> has_physical_host_conflict C L b s e None \<and>
     av = available_dims (resource_capacity (mirror_dimension C) b) (held_dimensions C L (cb_resource b) s e) \<and>
     resource_satisfies_requirement (view_of_bucket C b av) (fst (split_claim_requirement claim (unit_claim_keys C))) requested
        (snd (split_claim_requirement claim (unit_claim_keys C)))"
  using assms
  by (auto simp: judge_candidate_def Let_def split_beta res_bind_Inr_iff split: if_splits option.splits)

lemma find_candidate_admitted:
  assumes "find_candidate C L claim requested s e = Return (Some (b, av))"
  shows "\<exists>mode. requested_offering_mode claim False = Return mode \<and> admitted C L claim requested mode s e b \<and>
     av = available_dims (resource_capacity (mirror_dimension C) b) (held_dimensions C L (cb_resource b) s e)"
proof -
  obtain mode und where mode: "requested_offering_mode claim False = Return mode"
    and scan: "scan_candidates (judge_candidate C L claim requested mode s e)
        (sort_key cb_updated_at (filter cb_enabled (buckets L))) [] = Return (Some (b, av), und)"
    using assms by (auto simp: find_candidate_def res_bind_Inr_iff split: option.splits if_splits)
  note sc = scan_candidates_Some [OF scan]
  from sc judge_Admit [of C L claim requested mode s e b av] mode show ?thesis by (auto simp: admitted_def)
qed

lemma dim_available: "dim (available_dims cap held) k = (if has_key cap k then dim cap k - dim held k else 0)"
proof -
  have "map_of (available_dims cap held) k = map_option (\<lambda>q. q - dim held k) (map_of cap k)"
    unfolding available_dims_def by (induction cap) auto
  then show ?thesis by (cases "map_of cap k") (simp_all add: dim_def has_key_def)
qed

lemma admitted_room:
  assumes "admitted C L claim requested mode s e b" "dims_pos requested" "(k, q) \<in> set requested"
  shows "q \<le> dim (resource_capacity (mirror_dimension C) b) k - dim (held_dimensions C L (cb_resource b) s e) k"
proof -
  have "q \<le> dim (available_dims (resource_capacity (mirror_dimension C) b) (held_dimensions C L (cb_resource b) s e)) k"
    using assms(1,3) by (auto simp: admitted_def view_of_bucket_def resource_feasibility_view_def Let_def dest!: satisfies_dims)
  moreover have "0 < q" using assms(2,3) by (auto simp: dims_pos_def)
  ultimately show ?thesis by (auto simp: dim_available split: if_splits)
qed

section \<open>Held quantities are sums\<close>

definition row_ok :: "reservation \<Rightarrow> bool" where
  "row_ok r = (dict_ok (r_dims r) \<and> (\<forall>(k, q) \<in> set (r_dims r). 0 \<le> q) \<and> 0 \<le> r_units r)"

definition rows_ok :: "ledger \<Rightarrow> bool" where
  "rows_ok L = (\<forall>r \<in> set (reservations L). row_ok r)"

definition row_dim :: "config \<Rightarrow> reservation \<Rightarrow> string \<Rightarrow> rat" where
  "row_dim C r k = dim (reservation_dimensions (mirror_dimension C) r) k"

lemma row_dim_nonneg: "row_ok r \<Longrightarrow> 0 \<le> row_dim C r k"
  unfolding row_dim_def reservation_dimensions_def row_ok_def
  by (auto intro!: dim_nonneg)

lemma dim_add_dims: "dict_ok d \<Longrightarrow> dim (add_dims t d) k = dim t k + dim d k"
  unfolding add_dims_def
proof (induction d arbitrary: t)
  case (Cons x d)
  obtain k' q where x: "x = (k', q)" by (cases x)
  with Cons.prems have "map_of d k' = None" by (simp add: map_of_eq_None_iff)
  then have "dim d k' = 0" by (simp add: dim_def)
  with Cons x show ?case by (auto simp: dim_dict_set dim_def [of "(k', q) # d"] dim_def [of d])
qed simp

lemma dim_fold_rows:
  "\<forall>r \<in> set rs. row_ok r \<Longrightarrow>
   dim (fold (\<lambda>r t. add_dims t (reservation_dimensions (mirror_dimension C) r)) rs t) k =
     dim t k + sum_list (map (\<lambda>r. row_dim C r k) rs)"
proof (induction rs arbitrary: t)
  case (Cons r rs)
  have "dict_ok (reservation_dimensions (mirror_dimension C) r)"
    using Cons.prems by (simp add: row_ok_def reservation_dimensions_def)
  with Cons show ?case by (simp add: dim_add_dims row_dim_def)
qed simp

definition held_total :: "config \<Rightarrow> ledger \<Rightarrow> string \<Rightarrow> string \<Rightarrow> rat" where
  "held_total C L bid k = sum_list (map (\<lambda>r. row_dim C r k) (held_rows L bid))"

definition held_in_window :: "config \<Rightarrow> ledger \<Rightarrow> string \<Rightarrow> int option \<Rightarrow> int option \<Rightarrow> string \<Rightarrow> rat" where
  "held_in_window C L bid s e k =
     sum_list (map (\<lambda>r. row_dim C r k) (filter (\<lambda>r. reservation_overlaps (cfg_env C) r s e) (held_rows L bid)))"

lemma bucket_lookup: "ids_ok L \<Longrightarrow> b \<in> set (buckets L) \<Longrightarrow> bucket_by_backing_resource L (cb_resource b) = Some b"
proof -
  assume ok: "ids_ok L" and b: "b \<in> set (buckets L)"
  then obtain x where x: "find (\<lambda>y. cb_resource y = cb_resource b) (buckets L) = Some x"
    by (cases "find (\<lambda>y. cb_resource y = cb_resource b) (buckets L)") (auto simp: find_None_iff)
  then have "x \<in> set (buckets L)" "cb_resource x = cb_resource b" by (auto simp: find_Some_iff)
  with ok b have "x = b" by (auto simp: ids_ok_def distinct_map inj_on_def)
  with x show ?thesis by (simp add: bucket_by_backing_resource_def)
qed

lemma held_dimensions_sum:
  assumes "ids_ok L" "rows_ok L" "b \<in> set (buckets L)"
  shows "dim (held_dimensions C L (cb_resource b) None None) k = held_total C L (cb_id b) k"
    and "s \<noteq> None \<or> e \<noteq> None \<Longrightarrow>
      dim (held_dimensions C L (cb_resource b) s e) k = held_in_window C L (cb_id b) s e k"
proof -
  have ok: "\<forall>r \<in> set (held_rows L (cb_id b)). row_ok r"
    using assms(2) by (auto simp: rows_ok_def held_rows_def)
  show "dim (held_dimensions C L (cb_resource b) None None) k = held_total C L (cb_id b) k"
    using bucket_lookup [OF assms(1,3)] dim_fold_rows [OF ok] by (simp add: held_dimensions_def held_total_def)
  have ok': "\<forall>r \<in> set (filter (\<lambda>r. reservation_overlaps (cfg_env C) r s e) (held_rows L (cb_id b))). row_ok r"
    using ok by simp
  assume "s \<noteq> None \<or> e \<noteq> None"
  then have "(s = None \<and> e = None) = False" by blast
  with bucket_lookup [OF assms(1,3)] dim_fold_rows [OF ok', of C "[]" k]
  show "dim (held_dimensions C L (cb_resource b) s e) k = held_in_window C L (cb_id b) s e k"
    by (simp only: held_dimensions_def held_in_window_def Let_def option.case if_False dim_Nil add_0)
qed

section \<open>The invariant\<close>

text \<open>Identifiers are unique and drawn from the stream of fresh ones, a debit names a
  reservation of the ledger, quantities are not negative, and the feed is numbered without
  gaps.\<close>

definition ledger_inv :: "config \<Rightarrow> ledger \<Rightarrow> bool" where
  "ledger_inv C L = (ids_ok L \<and> rows_ok L \<and>
     (\<forall>r \<in> set (reservations L). r_id r \<in> uuid4 C ` {..<drawn L}) \<and>
     (\<forall>b \<in> set (buckets L). cb_id b \<in> uuid4 C ` {..<drawn L}) \<and>
     (\<forall>d \<in> set (debits L). de_reservation d \<in> r_id ` set (reservations L)) \<and>
     feed_ok L \<and> ends_ok L)"

lemma row_step_ok: "row_step r r' \<Longrightarrow> row_ok r \<Longrightarrow> row_ok r'"
  by (simp add: row_step_def row_ok_def)

lemma quiet_rows:
  assumes "quiet L L'" "rows_ok L"
  shows "rows_ok L'"
proof -
  have "list_all2 row_step rs rs' \<Longrightarrow> list_all row_ok rs \<Longrightarrow> list_all row_ok rs'" for rs rs'
    by (induction rule: list_all2_induct) (auto dest: row_step_ok)
  moreover have "list_all2 row_step (reservations L) (reservations L')" using assms(1) by (simp add: quiet_def)
  ultimately show ?thesis using assms(2) unfolding rows_ok_def list_all_iff [symmetric] by blast
qed

lemma quiet_inv:
  assumes q: "quiet L L'" and i: "ledger_inv C L"
  shows "ledger_inv C L'"
proof -
  have ids: "r_id ` set (reservations L') = r_id ` set (reservations L)"
    using arg_cong [OF quiet_ids [OF q], of set] by simp
  have dr: "uuid4 C ` {..<drawn L} \<subseteq> uuid4 C ` {..<drawn L'}" using q by (auto simp: quiet_def)
  have "r_id r \<in> uuid4 C ` {..<drawn L'}" if "r \<in> set (reservations L')" for r
  proof -
    from that ids have "r_id r \<in> r_id ` set (reservations L)" by blast
    then have "r_id r \<in> uuid4 C ` {..<drawn L}" using i by (auto simp: ledger_inv_def)
    with dr show ?thesis by blast
  qed
  moreover have "cb_id b \<in> uuid4 C ` {..<drawn L'}" if "b \<in> set (buckets L')" for b
    using that i dr q by (auto simp: ledger_inv_def quiet_def)
  moreover have "de_reservation d \<in> r_id ` set (reservations L')" if "d \<in> set (debits L')" for d
    using that i q unfolding ids by (simp add: ledger_inv_def quiet_def)
  moreover have "feed_ok L' \<and> ends_ok L'" using i q by (simp add: ledger_inv_def quiet_def)
  ultimately show ?thesis
    using i quiet_ids_ok [OF q] quiet_rows [OF q] by (simp add: ledger_inv_def)
qed

text \<open>What the ledger relies on of the runtime: identifiers do not repeat, and writing an
  amount as a float keeps its sign.\<close>

definition runtime_ok :: "config \<Rightarrow> bool" where
  "runtime_ok C = (inj (uuid4 C) \<and> (\<forall>q. 0 \<le> q \<longrightarrow> 0 \<le> float_of (cfg_env C) q))"

lemma fresh_uuid:
  assumes "runtime_ok C"
  shows "uuid4 C n \<notin> uuid4 C ` {..<n}"
  using assms by (auto simp: runtime_ok_def inj_def)

lemma serialize_nonneg:
  assumes "runtime_ok C" "dims_pos d"
  shows "\<forall>(k, q) \<in> set (serialize_dimensions (cfg_env C) d). 0 \<le> q"
proof -
  have "0 \<le> serialize_amount (cfg_env C) q" if "0 < q" for q
    using assms(1) that by (simp add: runtime_ok_def serialize_amount_def)
  with assms(2) show ?thesis by (fastforce simp: serialize_dimensions_def dims_pos_def)
qed

lemma dims_pos_dim: "dims_pos d \<Longrightarrow> 0 \<le> dim d k"
  by (cases "map_of d k") (auto simp: dim_def dims_pos_def dest!: map_of_SomeD split: prod.splits)

lemma new_reservation_ok:
  assumes "runtime_ok C" "dims_pos requested"
  shows "row_ok (new_reservation C now rid requested ca deal hold b mode s e)"
  using serialize_nonneg [OF assms] assms(2) dims_pos_dim [OF assms(2), of "mirror_dimension C"]
  by (simp add: row_ok_def new_reservation_def trunc_def dims_pos_def)

lemma insert_inv:
  assumes C: "runtime_ok C" and i: "ledger_inv C L" and r: "r_id r = uuid4 C (drawn L)" "row_ok r"
  shows "ledger_inv C (insert_reservation C r requested b L)"
proof -
  have fresh: "r_id r \<notin> r_id ` set (reservations L)" "r_id r \<notin> de_reservation ` set (debits L)"
    using i r(1) fresh_uuid [OF C, of "drawn L"] by (auto simp: ledger_inv_def)
  have sub: "uuid4 C ` {..<drawn L} \<subseteq> uuid4 C ` {..<Suc (drawn L)}" by auto
  have last: "r_id r \<in> uuid4 C ` {..<Suc (drawn L)}" using r(1) by simp
  show ?thesis using i fresh sub last r(2)
    by (auto simp: ledger_inv_def insert_reservation_def add_event_def ids_ok_def rows_ok_def feed_ok_def ends_ok_def)
qed

lemma move_debit_inv: "ledger_inv C L \<Longrightarrow> ledger_inv C (move_debit rid bid L)"
proof -
  have "map de_reservation (debits (move_debit rid bid L)) = map de_reservation (debits L)"
    by (simp add: move_debit_def comp_def if_distrib cong: if_cong)
  then have "map de_reservation (debits (move_debit rid bid L)) = map de_reservation (debits L)"
    "de_reservation ` set (debits (move_debit rid bid L)) = de_reservation ` set (debits L)"
    by (simp, metis set_map)
  moreover have "reservations (move_debit rid bid L) = reservations L" "buckets (move_debit rid bid L) = buckets L"
    "events (move_debit rid bid L) = events L" "lease_ends (move_debit rid bid L) = lease_ends L" "drawn (move_debit rid bid L) = drawn L"
    by (simp_all add: move_debit_def)
  moreover assume "ledger_inv C L"
  ultimately show ?thesis
    unfolding ledger_inv_def ids_ok_def rows_ok_def feed_ok_def ends_ok_def by (simp flip: image_subset_iff)
qed

section \<open>How a ledger evolves\<close>

definition evolves :: "ledger \<Rightarrow> ledger \<Rightarrow> bool" where
  "evolves L L' = ((\<exists>rs new. reservations L' = rs @ new \<and> list_all2 row_step (reservations L) rs) \<and>
     prefix (events L) (events L') \<and> prefix (lease_ends L) (lease_ends L'))"

lemma quiet_evolves: "quiet L L' \<Longrightarrow> evolves L L'"
  unfolding quiet_def evolves_def by (metis append_Nil2)

lemma evolves_refl: "evolves L L"
  by (rule quiet_evolves) simp

lemma evolves_trans:
  assumes "evolves L L1" "evolves L1 L2"
  shows "evolves L L2"
proof -
  obtain rs new where a: "reservations L1 = rs @ new" "list_all2 row_step (reservations L) rs"
    using assms(1) by (auto simp: evolves_def)
  obtain rs' new' where b: "reservations L2 = rs' @ new'" "list_all2 row_step (rs @ new) rs'"
    using assms(2) a(1) by (auto simp: evolves_def)
  obtain u v where c: "rs' = u @ v" "list_all2 row_step rs u"
    using b(2) unfolding list_all2_append1 by blast
  have "list_all2 row_step (reservations L) u"
    by (rule list_all2_trans [OF row_step_trans a(2) c(2)])
  moreover have "reservations L2 = u @ (v @ new')" using b(1) c(1) by simp
  ultimately show ?thesis using assms by (auto simp: evolves_def intro: prefix_order.order_trans)
qed

lemma insert_evolves: "evolves L (insert_reservation C r requested b L)"
  by (auto simp: evolves_def insert_reservation_def add_event_def list_all2_same)

lemma move_debit_evolves: "evolves L (move_debit rid bid L)"
  using evolves_refl [of L] by (simp add: evolves_def move_debit_def)

text \<open>One operation is \<open>lawful\<close> when it keeps the invariant and lets the ledger evolve.\<close>

definition lawful :: "config \<Rightarrow> ledger \<Rightarrow> ledger \<Rightarrow> bool" where
  "lawful C L L' = (ledger_inv C L' \<and> evolves L L')"

lemma quiet_lawful: "quiet L L' \<Longrightarrow> ledger_inv C L \<Longrightarrow> lawful C L L'"
  by (simp add: lawful_def quiet_inv quiet_evolves)

lemma lawful_trans: "lawful C L L1 \<Longrightarrow> lawful C L1 L2 \<Longrightarrow> lawful C L L2"
  by (auto simp: lawful_def intro: evolves_trans)

lemma inv_ids: "ledger_inv C L \<Longrightarrow> ids_ok L"
  by (simp add: ledger_inv_def)

lemma run_tx_lawful:
  "ledger_inv C L \<Longrightarrow> (\<And>L' x. t = Return (L', x) \<Longrightarrow> lawful C L L') \<Longrightarrow> lawful C L (fst (run_tx L t))"
  by (auto simp: run_tx_def lawful_def evolves_refl split: sum.splits)

lemma with_expired_lawful:
  assumes "ledger_inv C L" "\<And>L1. ledger_inv C L1 \<Longrightarrow> lawful C L1 (fst (k L1))"
  shows "lawful C L (fst (with_expired C now L k))"
proof (cases "expire_stale_holds C now L")
  case (Inl e)
  with assms show ?thesis by (simp add: with_expired_def lawful_def evolves_refl)
next
  case (Inr L1)
  have l: "lawful C L L1"
    by (rule quiet_lawful [OF expire_stale_holds_quiet [OF inv_ids [OF assms(1)] Inr] assms(1)])
  then have "ledger_inv C L1" by (simp add: lawful_def)
  with l assms(2) lawful_trans [of C L L1] Inr show ?thesis by (simp add: with_expired_def)
qed

lemma insert_lawful:
  assumes "runtime_ok C" "ledger_inv C L" "dims_pos requested"
  shows "lawful C L (insert_reservation C (new_reservation C now (uuid4 C (drawn L)) requested ca deal hold b mode s e) requested b L)"
  unfolding lawful_def
  by (intro conjI insert_evolves insert_inv new_reservation_ok assms) (simp add: new_reservation_def)

lemma parse_request_Some:
  assumes "parse_request C now claim ls ld = Return (requested, mode, s, e)"
  shows "requested_dimensions (cfg_env C) claim (unit_claim_keys C) (mirror_dimension C) = Return requested \<and>
     requested_offering_mode claim True = Return (Some mode) \<and> lease_window (cfg_env C) now ls ld None = Return (s, e) \<and>
     dims_pos requested"
proof -
  from assms obtain m where m: "requested_dimensions (cfg_env C) claim (unit_claim_keys C) (mirror_dimension C) = Return requested"
      "requested_offering_mode claim True = Return m" "mode = the m" "lease_window (cfg_env C) now ls ld None = Return (s, e)"
    by (auto simp: parse_request_def res_bind_Inr_iff)
  moreover have "m \<noteq> None" using m(2) by (auto simp: requested_offering_mode_def Let_def split: if_splits pyval.splits)
  ultimately show ?thesis using requested_dimensions_pos [OF m(1)] by auto
qed

lemma reserve_lawful:
  assumes C: "runtime_ok C" and i: "ledger_inv C L"
  shows "lawful C L (fst (reserve C now claim deal ttl ls ld L))"
proof (cases "parse_request C now claim ls ld")
  case (Inr p)
  obtain requested mode s e where p: "p = (requested, mode, s, e)" by (cases p)
  note pos = parse_request_Some [OF Inr [unfolded p]]
  have "lawful C L1 L'" if i1: "ledger_inv C L1" and t: "reserve_in_tx C now claim deal ttl requested mode s e L1 = Return (L', x)" for L1 L' x
  proof (cases "L' = L1")
    case True
    then show ?thesis using i1 by (simp add: lawful_def evolves_refl)
  next
    case False
    with t insert_lawful [OF C i1] pos show ?thesis
      by (auto simp: reserve_in_tx_def Let_def res_bind_Inr_iff split: option.splits if_splits)
  qed
  with i Inr p show ?thesis
    by (auto simp: reserve_def intro!: with_expired_lawful run_tx_lawful)
qed (use i in \<open>simp add: reserve_def lawful_def evolves_refl\<close>)

lemma free_superseded_quiet:
  assumes "ids_ok L" "reservation_by_id L old = Some r" "isheld r"
    "free_reservation C now r Released ''end'' [] ''superseded'' None (\<lambda>r. r\<lparr>r_failure_reason := Some ''superseded''\<rparr>) L = Return L1"
  shows "quiet L L1"
proof (rule free_reservation_quiet [OF assms(1) _ _ assms(4)])
  show "r \<in> set (reservations L)" using reservation_by_id_Some [OF assms(2)] by simp
  show "row_step r (r\<lparr>r_state := Released, r_released_at := Some (isoformat (cfg_env C) now), r_failure_reason := Some ''superseded''\<rparr>)"
    using assms(3) held_leads_to by (auto simp: row_step_def isheld_def)
qed

lemma resize_in_tx_cases:
  assumes "resize_in_tx C now old claim deal ttl requested mode s e L = Return (L', x)" "L' \<noteq> L"
  obtains r L1 b av where "reservation_by_id L old = Some r" "isheld r" "release_permitted C L old"
    "free_reservation C now r Released ''end'' [] ''superseded'' None (\<lambda>r. r\<lparr>r_failure_reason := Some ''superseded''\<rparr>) L = Return L1"
    "find_candidate C L1 claim requested s e = Return (Some (b, av))"
    "L' = insert_reservation C (new_reservation C now (uuid4 C (drawn L1)) requested (r_claim_attributes r) deal (hold_deadline C now ttl) b mode s e) requested b L1"
proof -
  obtain r where r: "reservation_by_id L old = Some r" "isheld r" "release_permitted C L old"
    using assms by (auto simp: resize_in_tx_def split: option.splits if_splits)
  obtain L1 where L1: "free_reservation C now r Released ''end'' [] ''superseded'' None (\<lambda>r. r\<lparr>r_failure_reason := Some ''superseded''\<rparr>) L = Return L1"
    using assms r by (auto simp: resize_in_tx_def res_bind_Inr_iff)
  obtain m where m: "find_candidate C L1 claim requested s e = Return m"
    using assms r L1 by (auto simp: resize_in_tx_def res_bind_Inr_iff)
  obtain b av where "m = Some (b, av)"
    using assms r L1 m by (cases m) (auto simp: resize_in_tx_def)
  with assms r L1 m that show thesis by (simp add: resize_in_tx_def Let_def)
qed

lemma resize_lawful:
  assumes C: "runtime_ok C" and i: "ledger_inv C L"
  shows "lawful C L (fst (resize_reservation C now old claim deal ttl ls ld L))"
proof (cases "parse_request C now claim ls ld")
  case (Inr p)
  obtain requested mode s e where p: "p = (requested, mode, s, e)" by (cases p)
  note pos = parse_request_Some [OF Inr [unfolded p]]
  have "lawful C L1 L'" if i1: "ledger_inv C L1" and t: "resize_in_tx C now old claim deal ttl requested mode s e L1 = Return (L', x)" for L1 L' x
  proof (cases "L' = L1")
    case True
    then show ?thesis using i1 by (simp add: lawful_def evolves_refl)
  next
    case False
    from resize_in_tx_cases [OF t this] obtain r L2 b where
      r: "reservation_by_id L1 old = Some r" "isheld r"
      and L2: "free_reservation C now r Released ''end'' [] ''superseded'' None (\<lambda>r. r\<lparr>r_failure_reason := Some ''superseded''\<rparr>) L1 = Return L2"
      and L': "L' = insert_reservation C (new_reservation C now (uuid4 C (drawn L2)) requested (r_claim_attributes r) deal (hold_deadline C now ttl) b mode s e) requested b L2"
      by blast
    have l: "lawful C L1 L2"
      by (rule quiet_lawful [OF free_superseded_quiet [OF inv_ids [OF i1] r L2] i1])
    moreover from l have "lawful C L2 L'" unfolding L' using pos by (intro insert_lawful C) (simp_all add: lawful_def)
    ultimately show ?thesis by (rule lawful_trans)
  qed
  with i Inr p show ?thesis
    by (auto simp: resize_reservation_def intro!: with_expired_lawful run_tx_lawful)
qed (use i in \<open>simp add: resize_reservation_def lawful_def evolves_refl\<close>)

lemma assign_to_cases:
  assumes "assign_to C r dest L = Return (L', x)"
  obtains "backing_resource_id L (r_id r) = Some (cb_resource dest)"
      "L' = update_reservation (r_id r) (\<lambda>r. r\<lparr>r_settlement := Some (cb_resource dest)\<rparr>) L"
  | src d1 d2 where "\<not> list_ex (\<lambda>(k, amount). dim (resource_capacity (mirror_dimension C) dest) k -
        dim (held_dimensions C L (cb_resource dest) None None) k < amount) (reservation_dimensions (mirror_dimension C) r)"
      "backing_resource_id L (r_id r) \<noteq> Some (cb_resource dest)"
      "L' = add_event KAssignedForSettlement (Some (cb_resource dest)) d2 (add_event KReleasedForReassignment src d1
        (update_reservation (r_id r) (\<lambda>r. r\<lparr>r_settlement := Some (cb_resource dest), r_executor_ref := executor_ref_for_resource dest\<rparr>)
          (move_debit (r_id r) (cb_id dest) L)))"
  using assms by (auto simp: assign_to_def Let_def split: if_splits)

lemma assign_in_session_cases:
  assumes "assign_settlement_resource_in_session C rid target L = Return (L', x)"
  obtains "L' = L"
  | r dest where "r \<in> set (reservations L)" "isheld r" "bucket_by_backing_resource L target = Some dest"
      "cb_enabled dest" "assign_to C r dest L = Return (L', x)"
proof (cases "find_reservation L (Some rid) None None")
  case None
  with assms that show ?thesis by (simp add: assign_settlement_resource_in_session_def)
next
  case (Some r)
  then have "r \<in> set (reservations L)" by (rule find_reservation_mem)
  with Some assms that show ?thesis
    by (auto simp: assign_settlement_resource_in_session_def res_bind_Inr_iff split: if_splits option.splits)
qed

lemma moved_quiet:
  assumes ok: "ids_ok L" and r: "r \<in> set (reservations L)" and step: "row_step r (f r)"
  shows "quiet (move_debit rid bid L) (add_event k2 b2 d2 (add_event k1 b1 d1 (update_reservation (r_id r) f (move_debit rid bid L))))"
proof -
  have "ids_ok (move_debit rid bid L)" using ok
    by (simp add: ids_ok_def move_debit_def comp_def if_distrib cong: if_cong)
  then have "quiet (move_debit rid bid L) (update_reservation (r_id r) f (move_debit rid bid L))"
    by (rule quiet_update [where r = r]) (use r step in \<open>simp_all add: move_debit_def\<close>)
  then show ?thesis by (blast intro: quiet_trans quiet_add_event)
qed

lemma assign_lawful:
  assumes i: "ledger_inv C L"
  shows "lawful C L (fst (assign_settlement_resource C now rid target L))"
proof -
  have "lawful C L1 L'" if i1: "ledger_inv C L1" and t: "assign_settlement_resource_in_session C rid target L1 = Return (L', x)" for L1 L' x
    using t
  proof (cases rule: assign_in_session_cases)
    case 1
    then show ?thesis using i1 by (simp add: lawful_def evolves_refl)
  next
    case (2 r dest)
    from 2(5) show ?thesis
    proof (cases rule: assign_to_cases)
      case 1
      have "quiet L1 L'" unfolding 1(2)
        by (rule quiet_update [where r = r]) (use 2 inv_ids [OF i1] in \<open>auto simp: row_step_def\<close>)
      then show ?thesis using i1 by (rule quiet_lawful)
    next
      case (2 src d1 d2)
      have "quiet (move_debit (r_id r) (cb_id dest) L1) L'" unfolding 2(3)
        by (rule moved_quiet) (use inv_ids [OF i1] \<open>r \<in> _\<close> in \<open>auto simp: row_step_def\<close>)
      then have "lawful C (move_debit (r_id r) (cb_id dest) L1) L'"
        by (rule quiet_lawful) (rule move_debit_inv [OF i1])
      then show ?thesis using move_debit_evolves [of L1 "r_id r" "cb_id dest"] by (auto simp: lawful_def intro: evolves_trans)
    qed
  qed
  with i show ?thesis by (auto simp: assign_settlement_resource_def intro!: with_expired_lawful run_tx_lawful)
qed

lemma write_declaration_ids [simp]:
  "cb_id (write_declaration C now d b) = cb_id b" "cb_resource (write_declaration C now d b) = cb_resource b"
  by (simp_all add: write_declaration_def Let_def)

lemma rebucket_inv:
  assumes "ledger_inv C L" "map cb_id bs = map cb_id (buckets L)" "map cb_resource bs = map cb_resource (buckets L)"
  shows "ledger_inv C (L\<lparr>buckets := bs\<rparr>)"
proof -
  have "cb_id ` set bs = cb_id ` set (buckets L)" using arg_cong [OF assms(2), of set] by simp
  moreover have "\<forall>b \<in> set (buckets L). cb_id b \<in> uuid4 C ` {..<drawn L}" using assms(1) by (simp add: ledger_inv_def)
  ultimately have "\<forall>b \<in> set bs. cb_id b \<in> uuid4 C ` {..<drawn L}" by (metis image_eqI imageE)
  with assms show ?thesis by (simp add: ledger_inv_def ids_ok_def rows_ok_def feed_ok_def ends_ok_def)
qed

lemma register_stored_lawful:
  assumes C: "runtime_ok C" and i: "ledger_inv C L"
    and b: "bucket = bucket_by_backing_resource L (cd_resource d)"
    and t: "register_stored C now d L bucket old = Return (L', x)"
  shows "lawful C L L'"
proof (cases bucket)
  case None
  then have no: "cd_resource d \<notin> cb_resource ` set (buckets L)"
    using b by (auto simp: bucket_by_backing_resource_def find_None_iff)
  have fresh: "uuid4 C (drawn L) \<notin> cb_id ` set (buckets L)"
    using i fresh_uuid [OF C, of "drawn L"] by (auto simp: ledger_inv_def)
  let ?b = "write_declaration C now d (new_bucket C now (drawn L) (cd_resource d))"
  have "ledger_inv C (L\<lparr>buckets := buckets L @ [?b], drawn := Suc (drawn L)\<rparr>)"
    using i no fresh by (auto simp: ledger_inv_def ids_ok_def rows_ok_def feed_ok_def ends_ok_def new_bucket_def lessThan_Suc)
  moreover have "evolves L (L\<lparr>buckets := buckets L @ [?b], drawn := Suc (drawn L)\<rparr>)"
    using evolves_refl [of L] by (simp add: evolves_def)
  ultimately have "lawful C L (L\<lparr>buckets := buckets L @ [?b], drawn := Suc (drawn L)\<rparr>)" by (simp add: lawful_def)
  moreover obtain k d' where "L' = add_event k (Some (cd_resource d)) d' (L\<lparr>buckets := buckets L @ [?b], drawn := Suc (drawn L)\<rparr>)"
    using t None by (auto simp: register_stored_def Let_def)
  ultimately show ?thesis
    by (auto simp: lawful_def intro: evolves_trans quiet_evolves quiet_inv)
next
  case (Some b0)
  let ?L = "L\<lparr>buckets := map (\<lambda>x. if cb_id x = cb_id b0 then write_declaration C now d b0 else x) (buckets L)\<rparr>"
  from Some b have mem: "b0 \<in> set (buckets L)" by (auto simp: bucket_by_backing_resource_def find_Some_iff)
  have same: "x = b0" if "x \<in> set (buckets L)" "cb_id x = cb_id b0" for x
    using i mem that by (auto simp: ledger_inv_def ids_ok_def distinct_map inj_on_def)
  have "map cb_id (buckets ?L) = map cb_id (buckets L)" "map cb_resource (buckets ?L) = map cb_resource (buckets L)"
    using same by auto
  then have "ledger_inv C ?L" using rebucket_inv [OF i] by simp
  moreover have "evolves L ?L" using evolves_refl [of L] by (simp add: evolves_def)
  ultimately have "lawful C L ?L" by (simp add: lawful_def)
  moreover obtain k d' where "L' = add_event k (Some (cd_resource d)) d' ?L"
    using t Some by (auto simp: register_stored_def Let_def res_bind_Inr_iff split: if_splits)
  ultimately show ?thesis
    by (auto simp: lawful_def intro: evolves_trans quiet_evolves quiet_inv)
qed

lemma register_lawful:
  assumes "runtime_ok C" "ledger_inv C L" "register_declaration_in_session C now d L = Return (L', x)"
  shows "lawful C L L'"
proof -
  obtain old where "register_stored C now d L (bucket_by_backing_resource L (cd_resource d)) old = Return (L', x)"
    using assms(3) by (auto simp: register_declaration_in_session_def Let_def split: if_splits option.splits)
  then show ?thesis by (rule register_stored_lawful [OF assms(1,2) refl])
qed

end
