(* ===== verification/Ledger_Runs.thy ===== *)
theory Ledger_Runs
  imports Site_Ledger_Proofs
begin

text \<open>
  The site ledger as a machine: its public operations as a datatype, \<open>exec\<close> dispatching to the
  definitions of \<open>Site_Ledger\<close>, and what holds after every sequence of them.  The machine
  interface of \<open>Prelude\<close> is interpreted three times: for the invariant and the lease
  lifecycle, for the total a bucket holds, and for what it holds at each instant.
\<close>

section \<open>Operations\<close>

datatype ledger_op =
    Register int capacity_declaration
  | Reserve int claim "(string \<times> pyval) list" "int option" "string option" "int option"
  | Resize int string claim "(string \<times> pyval) list" "int option" "string option" "int option"
  | Assign int string string
  | Commit int "string option" "string option" "string option" "string option" "(string \<times> pyval) list"
  | Release int "string option" "(string \<times> pyval) list" bool "string option" "string option" "(string \<times> pyval) list"
  | Truncate string string
  | Activate int string
  | Begin_Releasing int string "string option" "(string \<times> pyval) list"
  | Release_Failed int string string "string option" "string option" "(string \<times> pyval) list"
  | Mark_Unmanaged string string "string option"
  | Create_Handle string string
  | Executor_Target string string
  | Expire int
  | List_Resources int
  | Probe int claim "string option" "int option"

definition exec :: "config \<Rightarrow> ledger_op \<Rightarrow> ledger \<Rightarrow> ledger" where
  "exec C p L = (case p of
     Register now d \<Rightarrow> fst (run_tx L (register_declaration_in_session C now d L))
   | Reserve now claim deal ttl ls ld \<Rightarrow> fst (reserve C now claim deal ttl ls ld L)
   | Resize now old claim deal ttl ls ld \<Rightarrow> fst (resize_reservation C now old claim deal ttl ls ld L)
   | Assign now rid target \<Rightarrow> fst (assign_settlement_resource C now rid target L)
   | Commit now res rid s e deal \<Rightarrow> fst (commit C now res rid s e deal L)
   | Release now rid deal forced fr fm ctx \<Rightarrow> fst (release C now rid deal forced fr fm ctx L)
   | Truncate rid e \<Rightarrow> fst (truncate_lease C rid e L)
   | Activate now rid \<Rightarrow> fst (activate_lease C now rid L)
   | Begin_Releasing now rid job ctx \<Rightarrow> fst (begin_releasing C now rid job ctx L)
   | Release_Failed now rid reason msg job ctx \<Rightarrow> fst (record_release_failed C now rid reason msg job ctx L)
   | Mark_Unmanaged rid reason msg \<Rightarrow> fst (record_unmanaged C rid reason msg L)
   | Create_Handle rid job \<Rightarrow> fst (record_create_handle_in_session C rid job L)
   | Executor_Target rid target \<Rightarrow> fst (run_tx L (record_executor_target_in_session C rid target L))
   | Expire now \<Rightarrow> fst (expire_due_holds C now L)
   | List_Resources now \<Rightarrow> fst (list_offered_resources C now L)
   | Probe now claim ls ld \<Rightarrow> fst (probe C now claim ls ld L))"

lemma reads_quiet:
  assumes "ids_ok L"
  shows "quiet L (fst (expire_due_holds C now L))" "quiet L (fst (list_offered_resources C now L))"
    "quiet L (fst (probe C now claim ls ld L))"
proof -
  show "quiet L (fst (expire_due_holds C now L))" "quiet L (fst (list_offered_resources C now L))"
    unfolding expire_due_holds_def list_offered_resources_def by (auto intro!: with_expired_quiet assms)
  show "quiet L (fst (probe C now claim ls ld L))"
    by (auto simp: probe_def split: sum.split prod.split intro!: with_expired_quiet assms)
qed

text \<open>The operations that only rewrite rows along the lifecycle.\<close>

definition rewrites_rows :: "ledger_op \<Rightarrow> bool" where
  "rewrites_rows p = (case p of Register _ _ \<Rightarrow> False | Reserve _ _ _ _ _ _ \<Rightarrow> False | Resize _ _ _ _ _ _ _ \<Rightarrow> False
     | Assign _ _ _ \<Rightarrow> False | _ \<Rightarrow> True)"

lemma exec_quiet:
  assumes "ids_ok L" "rewrites_rows p"
  shows "quiet L (exec C p L)"
proof (cases p)
  case (Executor_Target rid target)
  then show ?thesis using record_executor_target_quiet [OF assms(1)]
    by (auto simp: exec_def intro: run_tx_quiet)
qed (use assms in \<open>simp_all add: rewrites_rows_def exec_def reads_quiet commit_quiet release_quiet truncate_quiet activate_quiet
      begin_releasing_quiet record_release_failed_quiet record_unmanaged_quiet record_create_handle_quiet\<close>)

lemma exec_lawful:
  assumes "runtime_ok C" "ledger_inv C L"
  shows "lawful C L (exec C p L)"
proof (cases "rewrites_rows p")
  case True
  then show ?thesis using exec_quiet inv_ids assms(2) by (blast intro: quiet_lawful)
next
  case False
  then show ?thesis
    by (cases p) (use assms in \<open>auto simp: rewrites_rows_def exec_def intro!: run_tx_lawful
        intro: reserve_lawful resize_lawful assign_lawful register_lawful\<close>)
qed

section \<open>Every sequence of operations\<close>

type_synonym site = "config \<times> ledger"

definition site_step :: "ledger_op \<Rightarrow> site \<Rightarrow> site" where
  "site_step p s = (fst s, exec (fst s) p (snd s))"

definition site_ok :: "site \<Rightarrow> bool" where
  "site_ok s = (runtime_ok (fst s) \<and> ledger_inv (fst s) (snd s))"

interpretation life: op_machine site_step "\<lambda>_ _. True" site_ok "\<lambda>s t. fst t = fst s \<and> evolves (snd s) (snd t)"
proof
  fix s p assume "site_ok s"
  then have "lawful (fst s) (snd s) (exec (fst s) p (snd s))" by (simp add: site_ok_def exec_lawful)
  then show "site_ok (site_step p s)" "fst (site_step p s) = fst s \<and> evolves (snd s) (snd (site_step p s))"
    using \<open>site_ok s\<close> by (simp_all add: site_ok_def site_step_def lawful_def)
qed (auto intro: evolves_refl evolves_trans)

definition run_ledger :: "config \<Rightarrow> ledger_op list \<Rightarrow> ledger \<Rightarrow> ledger" where
  "run_ledger C ps L = fold (exec C) ps L"

lemma run_site: "run_ops site_step ps (C, L) = (C, run_ledger C ps L)"
  by (induction ps arbitrary: L) (auto simp: run_ledger_def site_step_def)

definition empty_ledger :: "resource_pool list \<Rightarrow> ledger" where
  "empty_ledger ps = \<lparr>buckets = [], reservations = [], debits = [], events = [], lease_ends = [], pools = ps, drawn = 0\<rparr>"

lemma empty_inv: "ledger_inv C (empty_ledger ps)"
  by (simp add: ledger_inv_def empty_ledger_def ids_ok_def rows_ok_def feed_ok_def ends_ok_def)

lemma run_inv: "runtime_ok C \<Longrightarrow> ledger_inv C L \<Longrightarrow> ledger_inv C (run_ledger C ps L)"
  using life.run_keeps [of "(C, L)" ps] by (simp add: site_ok_def run_site)

lemma run_evolves: "runtime_ok C \<Longrightarrow> ledger_inv C L \<Longrightarrow> evolves L (run_ledger C ps L)"
  using life.run_moves [of "(C, L)" ps] by (simp add: site_ok_def run_site)

lemma evolves_row:
  assumes "evolves L L'" "r \<in> set (reservations L)"
  shows "\<exists>r' \<in> set (reservations L'). row_step r r'"
proof -
  obtain rs new where rs: "reservations L' = rs @ new" "list_all2 row_step (reservations L) rs"
    using assms(1) by (auto simp: evolves_def)
  obtain i where "i < length (reservations L)" "reservations L ! i = r" using assms(2) by (auto simp: in_set_conv_nth)
  with rs(2) have "i < length rs" "row_step r (rs ! i)" by (auto simp: list_all2_conv_all_nth)
  then show ?thesis using rs(1) by (intro bexI [of _ "rs ! i"]) simp_all
qed

section \<open>What a bucket holds\<close>

text \<open>The rows of a bucket that satisfy a condition, and the sum of what they hold.\<close>

definition counted :: "ledger \<Rightarrow> (reservation \<Rightarrow> bool) \<Rightarrow> string \<Rightarrow> reservation \<Rightarrow> bool" where
  "counted L P bid r = (isheld r \<and> debited_to L bid r \<and> P r)"

definition held_by :: "config \<Rightarrow> ledger \<Rightarrow> (reservation \<Rightarrow> bool) \<Rightarrow> string \<Rightarrow> string \<Rightarrow> rat" where
  "held_by C L P bid k = sum_list (map (\<lambda>r. if counted L P bid r then row_dim C r k else 0) (reservations L))"

lemma held_by_filter: "held_by C L P bid k = sum_list (map (\<lambda>r. row_dim C r k) (filter P (held_rows L bid)))"
  unfolding held_by_def held_rows_def counted_def
  by (induction "reservations L" arbitrary: L) (auto simp: conj_commute conj_left_commute sum_list_map_filter')

lemma held_total_by: "held_total C L bid k = held_by C L (\<lambda>_. True) bid k"
  by (simp add: held_by_filter held_total_def)

definition covers :: "(reservation \<Rightarrow> bool) \<Rightarrow> reservation \<Rightarrow> reservation \<Rightarrow> bool" where
  "covers P r r' = (r_id r' = r_id r \<and> r_dims r' = r_dims r \<and> r_units r' = r_units r \<and>
     (isheld r' \<and> P r' \<longrightarrow> isheld r \<and> P r))"

lemma covers_refl [simp]: "covers P r r"
  by (simp add: covers_def)

lemma covers_trans: "covers P a b \<Longrightarrow> covers P b c \<Longrightarrow> covers P a c"
  by (auto simp: covers_def)

lemma row_step_covers: "row_step r r' \<Longrightarrow> covers (\<lambda>_. True) r r'"
  using leads_to_held [of "r_state r" "r_state r'"] by (simp add: row_step_def covers_def isheld_def)

text \<open>Rewriting rows so that none counts more than before does not raise what is held.\<close>

lemma held_by_mono:
  assumes "list_all2 (covers P) (reservations L) (reservations L')" "debits L' = debits L" "rows_ok L"
  shows "held_by C L' P bid k \<le> held_by C L P bid k"
proof -
  have "list_all2 (covers P) rs rs' \<Longrightarrow> list_all row_ok rs \<Longrightarrow>
      sum_list (map (\<lambda>r. if counted L' P bid r then row_dim C r k else 0) rs')
      \<le> sum_list (map (\<lambda>r. if counted L P bid r then row_dim C r k else 0) rs)" for rs rs'
  proof (induction rule: list_all2_induct)
    case (Cons r rs r' rs')
    have "row_dim C r' k = row_dim C r k" "counted L' P bid r' \<longrightarrow> counted L P bid r" "0 \<le> row_dim C r k"
      using Cons.hyps(1) Cons.prems assms(2) row_dim_nonneg
      by (auto simp: covers_def row_dim_def reservation_dimensions_def counted_def debited_to_def)
    with Cons show ?case by auto
  qed simp
  with assms show ?thesis unfolding held_by_def rows_ok_def list_all_iff [symmetric] by blast
qed

text \<open>A moved debit raises the destination by the moved row and nothing else.\<close>

lemma held_by_move:
  assumes i: "ledger_inv C L" and r: "r \<in> set (reservations L)"
  shows "held_by C (move_debit (r_id r) dest L) P bid k
     \<le> held_by C L P bid k + (if bid = dest \<and> isheld r \<and> P r then row_dim C r k else 0)"
proof -
  let ?M = "move_debit (r_id r) dest L"
  let ?g = "\<lambda>x. if x = r then (if bid = dest \<and> isheld r \<and> P r then row_dim C r k else 0) else 0"
  have ok: "row_ok x" if "x \<in> set (reservations L)" for x using i that by (auto simp: ledger_inv_def rows_ok_def)
  have dist: "distinct (reservations L)" using i by (auto simp: ledger_inv_def ids_ok_def distinct_map)
  have "(if counted ?M P bid x then row_dim C x k else 0) \<le> (if counted L P bid x then row_dim C x k else 0) + ?g x"
    if "x \<in> set (reservations L)" for x
  proof -
    have "debited_to ?M bid x \<Longrightarrow> x = r \<and> bid = dest \<or> debited_to L bid x"
      using i r that by (force simp: debited_to_def move_debit_def list_ex_iff ledger_inv_def ids_ok_def distinct_map inj_on_def)
    then show ?thesis using row_dim_nonneg [OF ok [OF that], of C k] by (auto simp: counted_def)
  qed
  then have "held_by C ?M P bid k
      \<le> sum_list (map (\<lambda>x. (if counted L P bid x then row_dim C x k else 0) + ?g x) (reservations L))"
    by (simp add: held_by_def move_debit_def sum_list_mono)
  also have "\<dots> = held_by C L P bid k + sum_list (map ?g (reservations L))" by (simp add: held_by_def sum_list_addf)
  also have "sum_list (map ?g (reservations L)) = (if bid = dest \<and> isheld r \<and> P r then row_dim C r k else 0)"
    using r by (simp add: sum_list_distinct_conv_sum_set [OF dist])
  finally show ?thesis .
qed

text \<open>An inserted row raises its own bucket by what it holds.\<close>

lemma held_by_insert:
  assumes i: "ledger_inv C L" and r: "r_id r \<notin> r_id ` set (reservations L)"
  shows "held_by C (insert_reservation C r requested b L) P bid k
     = held_by C L P bid k + (if bid = cb_id b \<and> isheld r \<and> P r then row_dim C r k else 0)"
proof -
  let ?I = "insert_reservation C r requested b L"
  have fresh: "r_id r \<notin> de_reservation ` set (debits L)" using i r by (auto simp: ledger_inv_def)
  have "debited_to ?I bid x = debited_to L bid x" if "x \<in> set (reservations L)" for x
    using r that by (auto simp: debited_to_def insert_reservation_def add_event_def)
  moreover have "debited_to ?I bid r = (bid = cb_id b)"
    using fresh by (force simp: debited_to_def insert_reservation_def add_event_def list_ex_iff)
  ultimately have c: "\<forall>x \<in> set (reservations L). counted ?I P bid x = counted L P bid x"
      "counted ?I P bid r = (bid = cb_id b \<and> isheld r \<and> P r)"
    by (auto simp: counted_def)
  have "reservations ?I = reservations L @ [r]" by (simp add: insert_reservation_def add_event_def)
  with c show ?thesis by (simp add: held_by_def cong: map_cong)
qed

section \<open>Totals never exceed the declared capacity\<close>

text \<open>A bucket fits when what is counted never exceeds the declared capacity.\<close>

definition fits_by :: "config \<Rightarrow> (reservation \<Rightarrow> bool) \<Rightarrow> ledger \<Rightarrow> bool" where
  "fits_by C P L = (\<forall>b \<in> set (buckets L). \<forall>k. held_by C L P (cb_id b) k \<le> dim (resource_capacity (mirror_dimension C) b) k)"

definition fits :: "config \<Rightarrow> ledger \<Rightarrow> bool" where
  "fits C L = (\<forall>b \<in> set (buckets L). \<forall>k. held_total C L (cb_id b) k \<le> dim (resource_capacity (mirror_dimension C) b) k)"

lemma fits_by_total: "fits C L = fits_by C (\<lambda>_. True) L"
  by (simp add: fits_def fits_by_def held_total_by)

lemma covers_fits:
  assumes "list_all2 (covers P) (reservations L) (reservations L')" "debits L' = debits L" "buckets L' = buckets L"
    "rows_ok L" "fits_by C P L"
  shows "fits_by C P L'"
  using assms(3,5) order_trans [OF held_by_mono [OF assms(1,2,4)]] by (auto simp: fits_by_def)

lemma quiet_fits:
  assumes "quiet L L'" "rows_ok L" "fits C L"
  shows "fits C L'"
proof -
  have "list_all2 (covers (\<lambda>_. True)) (reservations L) (reservations L')"
    using assms(1) by (auto simp: quiet_def intro: list_all2_mono row_step_covers)
  then show ?thesis using assms covers_fits [of "\<lambda>_. True" L L' C] by (simp add: fits_by_total quiet_def)
qed

text \<open>An admitted request fits where it is inserted: what the admission counted includes
  every row the condition counts, and the row holds what was requested.\<close>

lemma insert_fits:
  assumes i: "ledger_inv C L" and f: "fits_by C P L" and a: "admitted C L claim requested mode s e b"
    and pos: "dims_pos requested" and ex: "exact_dims (cfg_env C) requested"
    and r: "r_id r \<notin> r_id ` set (reservations L)" "r_dims r = serialize_dimensions (cfg_env C) requested"
    and window: "P r \<Longrightarrow> held_by C L P (cb_id b) k \<le> dim (held_dimensions C L (cb_resource b) s e) k"
    and b': "b' \<in> set (buckets L)"
  shows "held_by C (insert_reservation C r requested b L) P (cb_id b') k \<le> dim (resource_capacity (mirror_dimension C) b') k"
proof (cases "cb_id b' = cb_id b \<and> isheld r \<and> P r")
  case False
  have "held_by C (insert_reservation C r requested b L) P (cb_id b') k = held_by C L P (cb_id b') k"
    using False unfolding held_by_insert [OF i r(1)] by (simp del: de_Morgan_conj)
  with f b' show ?thesis by (simp add: fits_by_def)
next
  case True
  have b: "b' = b" using True b' a i by (auto simp: admitted_def ledger_inv_def ids_ok_def distinct_map inj_on_def)
  have "row_dim C r k = dim requested k"
    using r(2) pos serialize_exact [OF ex] by (simp add: row_dim_def reservation_dimensions_def dims_pos_def)
  then have eq: "held_by C (insert_reservation C r requested b L) P (cb_id b') k = held_by C L P (cb_id b) k + dim requested k"
    using True unfolding held_by_insert [OF i r(1)] b by simp
  show ?thesis
  proof (cases "map_of requested k")
    case None
    with eq f b' b show ?thesis by (simp add: dim_def [of requested] fits_by_def)
  next
    case (Some q)
    then have "(k, q) \<in> set requested" by (rule map_of_SomeD)
    with admitted_room [OF a pos this] window True eq Some b show ?thesis by (simp add: dim_def [of requested])
  qed
qed

text \<open>A settlement assignment checks the destination against everything it holds.\<close>

lemma assign_fits:
  assumes i: "ledger_inv C L" and f: "fits_by C P L" and r: "r \<in> set (reservations L)"
    and dest: "dest \<in> set (buckets L)"
    and check: "\<not> list_ex (\<lambda>(k, amount). dim (resource_capacity (mirror_dimension C) dest) k -
        dim (held_dimensions C L (cb_resource dest) None None) k < amount) (reservation_dimensions (mirror_dimension C) r)"
  shows "fits_by C P (move_debit (r_id r) (cb_id dest) L)"
  unfolding fits_by_def
proof (intro ballI allI)
  fix b k assume b: "b \<in> set (buckets (move_debit (r_id r) (cb_id dest) L))"
  then have bL: "b \<in> set (buckets L)" by (simp add: move_debit_def)
  note le = held_by_move [OF i r, of "cb_id dest" P "cb_id b" k]
  show "held_by C (move_debit (r_id r) (cb_id dest) L) P (cb_id b) k \<le> dim (resource_capacity (mirror_dimension C) b) k"
  proof (cases "cb_id b = cb_id dest \<and> row_dim C r k \<noteq> 0")
    case False
    then have "(if cb_id b = cb_id dest \<and> isheld r \<and> P r then row_dim C r k else 0) = 0" by auto
    with le have "held_by C (move_debit (r_id r) (cb_id dest) L) P (cb_id b) k \<le> held_by C L P (cb_id b) k" by linarith
    with f bL show ?thesis by (auto simp: fits_by_def intro: order_trans)
  next
    case True
    have b: "b = dest" using True bL dest i by (auto simp: ledger_inv_def ids_ok_def distinct_map inj_on_def)
    obtain q where q: "map_of (reservation_dimensions (mirror_dimension C) r) k = Some q"
      using True by (cases "map_of (reservation_dimensions (mirror_dimension C) r) k") (auto simp: row_dim_def dim_def)
    then have rd: "row_dim C r k = q" by (simp add: row_dim_def dim_def)
    have "held_total C L (cb_id dest) k + q \<le> dim (resource_capacity (mirror_dimension C) dest) k"
      using check map_of_SomeD [OF q] held_dimensions_sum(1) [of L dest C k] i dest
      by (force simp: list_ex_iff ledger_inv_def)
    moreover have "held_by C L P (cb_id dest) k \<le> held_total C L (cb_id dest) k"
      unfolding held_total_by held_by_def
      by (rule sum_list_mono) (use i row_dim_nonneg in \<open>auto simp: counted_def ledger_inv_def rows_ok_def\<close>)
    moreover have "0 \<le> q" using rd row_dim_nonneg [of r C k] i r by (auto simp: ledger_inv_def rows_ok_def)
    ultimately show ?thesis using le b rd by (auto split: if_splits)
  qed
qed

text \<open>A timeless reservation counts against everything its bucket holds.\<close>

definition exact_claim :: "config \<Rightarrow> claim \<Rightarrow> bool" where
  "exact_claim C claim = (case requested_dimensions (cfg_env C) claim (unit_claim_keys C) (mirror_dimension C) of
     Inl _ \<Rightarrow> True | Inr d \<Rightarrow> exact_dims (cfg_env C) d)"

definition timeless :: "config \<Rightarrow> ledger_op \<Rightarrow> bool" where
  "timeless C p = (case p of
     Register _ _ \<Rightarrow> False
   | Reserve _ claim _ _ ls ld \<Rightarrow> parse_utc (cfg_env C) ls = None \<and> ld = None \<and> exact_claim C claim
   | Resize _ _ claim _ _ ls ld \<Rightarrow> parse_utc (cfg_env C) ls = None \<and> ld = None \<and> exact_claim C claim
   | _ \<Rightarrow> True)"

lemma timeless_window:
  assumes "parse_request C now claim ls ld = Return (requested, mode, s, e)" "parse_utc (cfg_env C) ls = None" "ld = None"
  shows "s = None" "e = None"
  using parse_request_Some [OF assms(1)] assms(2,3) by (auto simp: lease_window_def parse_utc_def)

lemma exact_claim_dims:
  "exact_claim C claim \<Longrightarrow> parse_request C now claim ls ld = Return (requested, mode, s, e) \<Longrightarrow> exact_dims (cfg_env C) requested"
  using parse_request_Some [of C now claim ls ld requested mode s e] by (auto simp: exact_claim_def)

lemma fresh_row:
  assumes "runtime_ok C" "ledger_inv C L"
  shows "uuid4 C (drawn L) \<notin> r_id ` set (reservations L)"
  using fresh_uuid [OF assms(1), of "drawn L"] assms(2) by (auto simp: ledger_inv_def)

lemma insert_new_fits:
  assumes C: "runtime_ok C" and i: "ledger_inv C L" and f: "fits C L"
    and found: "find_candidate C L claim requested None None = Return (Some (b, av))"
    and pos: "dims_pos requested" and ex: "exact_dims (cfg_env C) requested"
  shows "fits C (insert_reservation C (new_reservation C now (uuid4 C (drawn L)) requested ca deal hold b mode None None) requested b L)"
  unfolding fits_by_total fits_by_def
proof (intro ballI allI)
  let ?r = "new_reservation C now (uuid4 C (drawn L)) requested ca deal hold b mode None None"
  fix b' k assume "b' \<in> set (buckets (insert_reservation C ?r requested b L))"
  then have b': "b' \<in> set (buckets L)" by (simp add: insert_reservation_def add_event_def)
  obtain m where a: "admitted C L claim requested m None None b" using find_candidate_admitted [OF found] by blast
  then have "b \<in> set (buckets L)" by (simp add: admitted_def)
  then have w: "held_by C L (\<lambda>_. True) (cb_id b) k \<le> dim (held_dimensions C L (cb_resource b) None None) k"
    using held_dimensions_sum(1) [of L b C k] i by (simp add: ledger_inv_def held_total_by)
  show "held_by C (insert_reservation C ?r requested b L) (\<lambda>_. True) (cb_id b') k \<le> dim (resource_capacity (mirror_dimension C) b') k"
    by (rule insert_fits [OF i f [unfolded fits_by_total] a pos ex _ _ w b'])
      (use fresh_row [OF C i] in \<open>simp_all add: new_reservation_def\<close>)
qed

lemma with_expired_fits:
  assumes "ledger_inv C L" "fits C L" "\<And>L1. ledger_inv C L1 \<Longrightarrow> fits C L1 \<Longrightarrow> fits C (fst (k L1))"
  shows "fits C (fst (with_expired C now L k))"
proof (cases "expire_stale_holds C now L")
  case (Inr L1)
  have q: "quiet L L1" by (rule expire_stale_holds_quiet [OF inv_ids [OF assms(1)] Inr])
  have "fits C L1" by (rule quiet_fits [OF q _ assms(2)]) (use assms(1) in \<open>simp add: ledger_inv_def\<close>)
  with Inr assms(3) quiet_inv [OF q assms(1)] show ?thesis by (simp add: with_expired_def)
qed (use assms in \<open>simp add: with_expired_def\<close>)

lemma run_tx_fits: "fits C L \<Longrightarrow> (\<And>L' x. t = Return (L', x) \<Longrightarrow> fits C L') \<Longrightarrow> fits C (fst (run_tx L t))"
  by (auto simp: run_tx_def split: sum.splits)

lemma reserve_in_tx_cases:
  assumes "reserve_in_tx C now claim deal ttl requested mode s e L = Return (L', x)" "L' \<noteq> L"
  obtains b av ca where "find_candidate C L claim requested s e = Return (Some (b, av))"
    "L' = insert_reservation C (new_reservation C now (uuid4 C (drawn L)) requested ca deal (hold_deadline C now ttl) b mode s e) requested b L"
  using assms by (auto simp: reserve_in_tx_def Let_def res_bind_Inr_iff split: option.splits if_splits)

lemma reserve_fits:
  assumes C: "runtime_ok C" and i: "ledger_inv C L" and f: "fits C L"
    and t: "parse_utc (cfg_env C) ls = None" "exact_claim C claim"
  shows "fits C (fst (reserve C now claim deal ttl ls None L))"
proof (cases "parse_request C now claim ls None")
  case (Inr p)
  obtain requested mode s e where p: "p = (requested, mode, s, e)" by (cases p)
  note pr = Inr [unfolded p]
  note se = timeless_window [OF pr t(1) refl]
  have "fits C L'" if "ledger_inv C L1" "fits C L1" "reserve_in_tx C now claim deal ttl requested mode s e L1 = Return (L', x)" for L1 L' x
  proof (cases "L' = L1")
    case False
    from reserve_in_tx_cases [OF that(3) this] se obtain b av ca where
      "find_candidate C L1 claim requested None None = Return (Some (b, av))"
      "L' = insert_reservation C (new_reservation C now (uuid4 C (drawn L1)) requested ca deal (hold_deadline C now ttl) b mode None None) requested b L1"
      by blast
    with insert_new_fits [OF C that(1,2)] exact_claim_dims [OF t(2) pr] parse_request_Some [OF pr] show ?thesis by blast
  qed (use that in simp)
  with i f pr show ?thesis by (auto simp: reserve_def intro!: with_expired_fits run_tx_fits)
qed (use f in \<open>simp add: reserve_def\<close>)

lemma resize_fits:
  assumes C: "runtime_ok C" and i: "ledger_inv C L" and f: "fits C L"
    and t: "parse_utc (cfg_env C) ls = None" "exact_claim C claim"
  shows "fits C (fst (resize_reservation C now old claim deal ttl ls None L))"
proof (cases "parse_request C now claim ls None")
  case (Inr p)
  obtain requested mode s e where p: "p = (requested, mode, s, e)" by (cases p)
  note pr = Inr [unfolded p]
  note se = timeless_window [OF pr t(1) refl]
  have "fits C L'" if i1: "ledger_inv C L1" and f1: "fits C L1" and tx: "resize_in_tx C now old claim deal ttl requested mode s e L1 = Return (L', x)" for L1 L' x
  proof (cases "L' = L1")
    case False
    obtain r L2 b av where
      r: "reservation_by_id L1 old = Some r" "isheld r"
      and L2: "free_reservation C now r Released ''end'' [] ''superseded'' None (\<lambda>r. r\<lparr>r_failure_reason := Some ''superseded''\<rparr>) L1 = Return L2"
      and m: "find_candidate C L2 claim requested None None = Return (Some (b, av))"
      and L': "L' = insert_reservation C (new_reservation C now (uuid4 C (drawn L2)) requested (r_claim_attributes r) deal (hold_deadline C now ttl) b mode None None) requested b L2"
      by (rule resize_in_tx_cases [OF tx [unfolded se] False])
    have q: "quiet L1 L2" by (rule free_superseded_quiet [OF inv_ids [OF i1] r L2])
    have "fits C L2" by (rule quiet_fits [OF q _ f1]) (use i1 in \<open>simp add: ledger_inv_def\<close>)
    with insert_new_fits [OF C quiet_inv [OF q i1] _ m] exact_claim_dims [OF t(2) pr] parse_request_Some [OF pr] L' show ?thesis by blast
  qed (use f1 in simp)
  with i f pr show ?thesis by (auto simp: resize_reservation_def intro!: with_expired_fits run_tx_fits)
qed (use f in \<open>simp add: resize_reservation_def\<close>)

lemma assign_ledger_fits:
  assumes i: "ledger_inv C L" and f: "fits C L"
  shows "fits C (fst (assign_settlement_resource C now rid target L))"
proof -
  have "fits C L'" if i1: "ledger_inv C L1" and f1: "fits C L1" and t: "assign_settlement_resource_in_session C rid target L1 = Return (L', x)" for L1 L' x
    using t
  proof (cases rule: assign_in_session_cases)
    case 1
    then show ?thesis using f1 by simp
  next
    case (2 r dest)
    note r = 2(1)
    from 2(3) have dest: "dest \<in> set (buckets L1)" by (auto simp: bucket_by_backing_resource_def find_Some_iff)
    from 2(5) show ?thesis
    proof (cases rule: assign_to_cases)
      case 1
      have "quiet L1 L'" unfolding 1(2)
        by (rule quiet_update [where r = r]) (use r inv_ids [OF i1] in \<open>auto simp: row_step_def\<close>)
      then show ?thesis using i1 f1 by (auto simp: ledger_inv_def intro: quiet_fits)
    next
      case (2 src d1 d2)
      have q: "quiet (move_debit (r_id r) (cb_id dest) L1) L'" unfolding 2(3)
        by (rule moved_quiet) (use inv_ids [OF i1] r in \<open>auto simp: row_step_def\<close>)
      have "fits C (move_debit (r_id r) (cb_id dest) L1)"
        unfolding fits_by_total by (rule assign_fits [OF i1 f1 [unfolded fits_by_total] r dest 2(1)])
      then show ?thesis using quiet_fits [OF q] move_debit_inv [OF i1, of "r_id r" "cb_id dest"] by (simp add: ledger_inv_def)
    qed
  qed
  with i f show ?thesis by (auto simp: assign_settlement_resource_def intro!: with_expired_fits run_tx_fits)
qed

lemma exec_fits:
  assumes "runtime_ok C" "ledger_inv C L" "fits C L" "timeless C p"
  shows "fits C (exec C p L)"
proof (cases "rewrites_rows p")
  case True
  have "quiet L (exec C p L)" by (rule exec_quiet [OF inv_ids [OF assms(2)] True])
  then show ?thesis by (rule quiet_fits) (use assms in \<open>simp_all add: ledger_inv_def\<close>)
next
  case False
  then show ?thesis
    by (cases p) (use assms in \<open>auto simp: rewrites_rows_def timeless_def exec_def intro: reserve_fits resize_fits assign_ledger_fits\<close>)
qed

text \<open>A registration may declare less than a bucket holds; one that covers what the bucket it writes
  holds keeps the bound.\<close>

definition covers_held :: "config \<Rightarrow> int \<Rightarrow> capacity_declaration \<Rightarrow> ledger \<Rightarrow> bool" where
  "covers_held C now d L =
     (let b = (case bucket_by_backing_resource L (cd_resource d) of Some b \<Rightarrow> b | None \<Rightarrow> new_bucket C now (drawn L) (cd_resource d))
      in \<forall>k. held_total C L (cb_id b) k \<le> dim (resource_capacity (mirror_dimension C) (write_declaration C now d b)) k)"

lemma write_declaration_id [simp]: "cb_id (write_declaration C now d b) = cb_id b"
  by (simp add: write_declaration_def Let_def)

lemma held_total_frame:
  "reservations L' = reservations L \<Longrightarrow> debits L' = debits L \<Longrightarrow> held_total C L' bid k = held_total C L bid k"
  by (simp add: held_total_def held_rows_def debited_to_def)

lemma register_stored_fits:
  assumes f: "fits C L" and c: "covers_held C now d L"
    and t: "register_stored C now d L (bucket_by_backing_resource L (cd_resource d)) old = Return (L', x)"
  shows "fits C L'"
proof -
  let ?b = "case bucket_by_backing_resource L (cd_resource d) of Some b \<Rightarrow> b | None \<Rightarrow> new_bucket C now (drawn L) (cd_resource d)"
  have frame: "reservations L' = reservations L" "debits L' = debits L"
    and bs: "set (buckets L') \<subseteq> insert (write_declaration C now d ?b) (set (buckets L))"
    using t by (auto simp: register_stored_def Let_def res_bind_Inr_iff add_event_def split: option.splits if_splits)
  with f c show ?thesis by (fastforce simp: fits_def covers_held_def Let_def held_total_frame [OF frame])
qed

lemma register_fits:
  assumes "fits C L" "covers_held C now d L"
  shows "fits C (exec C (Register now d) L)"
proof (cases "register_declaration_in_session C now d L")
  case (Inr y)
  obtain L' x where y: "y = (L', x)" by (cases y)
  obtain old where "register_stored C now d L (bucket_by_backing_resource L (cd_resource d)) old = Return (L', x)"
    using Inr y by (auto simp: register_declaration_in_session_def Let_def split: if_splits option.splits)
  from register_stored_fits [OF assms this] Inr y show ?thesis by (simp add: exec_def run_tx_def)
qed (use assms in \<open>simp add: exec_def run_tx_def\<close>)

text \<open>The operations the bound on totals is about.\<close>

definition keeps_room :: "ledger_op \<Rightarrow> site \<Rightarrow> bool" where
  "keeps_room p s = (case p of Register now d \<Rightarrow> covers_held (fst s) now d (snd s) | _ \<Rightarrow> timeless (fst s) p)"

lemma exec_room:
  assumes "site_ok s" "fits (fst s) (snd s)" "keeps_room p s"
  shows "fits (fst s) (exec (fst s) p (snd s))"
proof (cases "\<exists>now d. p = Register now d")
  case True
  with assms show ?thesis by (auto simp: keeps_room_def intro: register_fits)
next
  case False
  with assms(3) have "timeless (fst s) p" by (cases p) (auto simp: keeps_room_def)
  with assms(1,2) show ?thesis by (simp add: site_ok_def exec_fits)
qed

interpretation totals: op_machine site_step keeps_room "\<lambda>s. site_ok s \<and> fits (fst s) (snd s)" "\<lambda>_ _. True"
proof
  fix s p assume a: "site_ok s \<and> fits (fst s) (snd s)" "keeps_room p s"
  then have "fits (fst s) (exec (fst s) p (snd s))" by (simp add: exec_room)
  with a life.keeps [of s p] show "site_ok (site_step p s) \<and> fits (fst (site_step p s)) (snd (site_step p s))"
    by (simp add: site_step_def)
qed simp_all

lemma timeless_room: "timeless C p \<Longrightarrow> keeps_room p (C, L)"
  by (cases p) (simp_all add: keeps_room_def timeless_def)

lemma all_timeless: "list_all (timeless C) ps \<Longrightarrow> all_along site_step keeps_room ps (C, L)"
  by (induction ps arbitrary: L) (auto simp: site_step_def timeless_room)

lemma run_fits:
  assumes "runtime_ok C" "ledger_inv C L" "fits C L" "all_along site_step keeps_room ps (C, L)"
  shows "fits C (run_ledger C ps L)"
  using totals.run_keeps [of "(C, L)" ps] assms by (simp add: run_site site_ok_def)

section \<open>What is held at an instant\<close>

text \<open>A row holds its quantity at an instant when it blocks every window, has no window, or the
  instant lies in its window.\<close>

definition occupies :: "env \<Rightarrow> int \<Rightarrow> reservation \<Rightarrow> bool" where
  "occupies E t r = (blocks_every_window r \<or>
     (parse_utc E (r_lease_start r) = None \<and> parse_utc E (r_lease_end r) = None) \<or>
     in_window (parse_utc E (r_lease_start r)) (parse_utc E (r_lease_end r)) t)"

definition fits_at :: "config \<Rightarrow> ledger \<Rightarrow> int \<Rightarrow> bool" where
  "fits_at C L t = fits_by C (occupies (cfg_env C) t) L"

text \<open>Text the runtime wrote is read back as the instant it was written for.\<close>

definition iso_ok :: "env \<Rightarrow> int option \<Rightarrow> bool" where
  "iso_ok E x = (parse_utc E (map_option (isoformat E) x) = x)"

lemma occupies_counted:
  assumes "s \<noteq> None \<or> e \<noteq> None" "in_window s e t" "occupies E t r"
  shows "reservation_overlaps E r s e"
  using assms overlap_of_common [OF assms(2)] by (auto simp: occupies_def reservation_overlaps_def Let_def)

lemma held_at_window:
  assumes i: "ledger_inv C L" and b: "b \<in> set (buckets L)" and t: "s = None \<and> e = None \<or> in_window s e t"
  shows "held_by C L (occupies (cfg_env C) t) (cb_id b) k \<le> dim (held_dimensions C L (cb_resource b) s e) k"
proof (cases "s = None \<and> e = None")
  case True
  have "held_by C L (occupies (cfg_env C) t) (cb_id b) k \<le> held_total C L (cb_id b) k"
    unfolding held_total_by held_by_def
    by (rule sum_list_mono) (use i row_dim_nonneg in \<open>auto simp: counted_def ledger_inv_def rows_ok_def\<close>)
  with True held_dimensions_sum(1) [of L b C k] i b show ?thesis by (simp add: ledger_inv_def)
next
  case False
  then have w: "in_window s e t" "s \<noteq> None \<or> e \<noteq> None" using t by auto
  have "held_by C L (occupies (cfg_env C) t) (cb_id b) k \<le> held_by C L (\<lambda>r. reservation_overlaps (cfg_env C) r s e) (cb_id b) k"
    unfolding held_by_def
    by (rule sum_list_mono) (use i row_dim_nonneg occupies_counted [OF w(2,1)] in \<open>auto simp: counted_def ledger_inv_def rows_ok_def\<close>)
  with held_dimensions_sum(2) [of L b s e C k] w(2) i b show ?thesis
    by (simp add: ledger_inv_def held_by_filter held_in_window_def)
qed

lemma insert_fits_at:
  assumes C: "runtime_ok C" and i: "ledger_inv C L" and f: "fits_at C L t"
    and found: "find_candidate C L claim requested s e = Return (Some (b, av))"
    and pos: "dims_pos requested" and ex: "exact_dims (cfg_env C) requested"
    and iso: "iso_ok (cfg_env C) s" "iso_ok (cfg_env C) e"
  shows "fits_at C (insert_reservation C (new_reservation C now (uuid4 C (drawn L)) requested ca deal hold b mode s e) requested b L) t"
  unfolding fits_at_def fits_by_def
proof (intro ballI allI)
  let ?r = "new_reservation C now (uuid4 C (drawn L)) requested ca deal hold b mode s e"
  let ?P = "occupies (cfg_env C) t"
  fix b' k assume "b' \<in> set (buckets (insert_reservation C ?r requested b L))"
  then have b': "b' \<in> set (buckets L)" by (simp add: insert_reservation_def add_event_def)
  obtain m where a: "admitted C L claim requested m s e b" using find_candidate_admitted [OF found] by blast
  then have b: "b \<in> set (buckets L)" by (simp add: admitted_def)
  have w: "held_by C L ?P (cb_id b) k \<le> dim (held_dimensions C L (cb_resource b) s e) k" if "?P ?r"
    by (rule held_at_window [OF i b]) (use that iso in \<open>auto simp: occupies_def new_reservation_def iso_ok_def blocks_every_window_def\<close>)
  show "held_by C (insert_reservation C ?r requested b L) ?P (cb_id b') k \<le> dim (resource_capacity (mirror_dimension C) b') k"
    by (rule insert_fits [OF i f [unfolded fits_at_def] a pos ex _ _ w b'])
      (use fresh_row [OF C i] in \<open>simp_all add: new_reservation_def\<close>)
qed

text \<open>A calm change lets no row hold more, or at more instants, than before.\<close>

definition calm :: "env \<Rightarrow> ledger \<Rightarrow> ledger \<Rightarrow> bool" where
  "calm E L L' = (list_all2 (\<lambda>r r'. \<forall>t. covers (occupies E t) r r') (reservations L) (reservations L') \<and>
     debits L' = debits L \<and> buckets L' = buckets L)"

lemma calm_refl [simp, intro]: "calm E L L"
  by (simp add: calm_def list_all2_same)

lemma calm_trans: "calm E L L1 \<Longrightarrow> calm E L1 L2 \<Longrightarrow> calm E L L2"
  unfolding calm_def
  using list_all2_trans [of "\<lambda>r r'. \<forall>t. covers (occupies E t) r r'" "\<lambda>r r'. \<forall>t. covers (occupies E t) r r'"
      "\<lambda>r r'. \<forall>t. covers (occupies E t) r r'" "reservations L" "reservations L1" "reservations L2"] covers_trans
  by metis

lemma calm_add_event [simp, intro]: "calm E L (add_event kind res d L)"
  by (simp add: calm_def add_event_def list_all2_same)

lemma calm_update:
  assumes "\<And>r t. r \<in> set (reservations L) \<Longrightarrow> r_id r = rid \<Longrightarrow> covers (occupies E t) r (f r)"
  shows "calm E L (update_reservation rid f L)"
  using assms by (simp add: calm_def update_reservation_def list_all2_map2 list_all2_same)

lemma calm_update_one:
  assumes "ids_ok L" "r \<in> set (reservations L)" "\<And>t. covers (occupies E t) r (f r)"
  shows "calm E L (update_reservation (r_id r) f L)"
proof (rule calm_update)
  fix x t assume "x \<in> set (reservations L)" "r_id x = r_id r"
  with assms(1,2) have "x = r" by (auto simp: ids_ok_def distinct_map inj_on_def)
  with assms(3) show "covers (occupies E t) x (f x)" by simp
qed

lemma calm_fits_at: "calm (cfg_env C) L L' \<Longrightarrow> rows_ok L \<Longrightarrow> fits_at C L t \<Longrightarrow> fits_at C L' t"
  unfolding fits_at_def calm_def
  by (rule covers_fits [of "occupies (cfg_env C) t" L L' C]) (auto elim: list_all2_mono)

lemma record_lease_end_calm:
  "record_lease_end C now r key ctx cause reason L = Return L' \<Longrightarrow> calm E L L'"
  by (auto simp: record_lease_end_def Let_def calm_def list_all2_same split: if_splits option.splits)

lemma free_reservation_calm:
  assumes "state \<notin> HELD_RESERVATION_STATES"
    and mark: "\<And>x. r_id (mark x) = r_id x \<and> r_dims (mark x) = r_dims x \<and> r_units (mark x) = r_units x \<and> r_state (mark x) = r_state x"
    and "free_reservation C now r state key ctx cause reason mark L = Return L'"
  shows "calm E L L'"
proof -
  let ?f = "\<lambda>r. mark (r\<lparr>r_state := state, r_released_at := Some (isoformat (cfg_env C) now)\<rparr>)"
  obtain L1 where L1: "record_lease_end C now r key ctx cause reason L = Return L1"
    and L': "calm E (update_reservation (r_id r) ?f L1) L'"
    using assms(3) by (auto simp: free_reservation_def res_bind_Inr_iff Let_def dest!: run_release_effect_eq)
  have "calm E L1 (update_reservation (r_id r) ?f L1)"
    by (rule calm_update) (use assms(1) mark in \<open>simp add: covers_def isheld_def\<close>)
  with record_lease_end_calm [OF L1] L' show ?thesis by (blast intro: calm_trans)
qed

lemma lapse_hold_calm: "lapse_hold C now r L = Return L' \<Longrightarrow> calm E L L'"
proof -
  assume t: "lapse_hold C now r L = Return L'"
  show ?thesis
  proof (cases "L' = L")
    case False
    let ?f = "\<lambda>r. r\<lparr>r_state := Released, r_released_at := Some (isoformat (cfg_env C) now), r_failure_reason := Some ''hold_expired''\<rparr>"
    obtain ctx L1 where L1: "record_lease_end C now r ''end'' ctx ''hold_expired'' None L = Return L1"
      and L': "L' = add_event KReleased (backing_resource_id (update_reservation (r_id r) ?f L1) (r_id r)) None (update_reservation (r_id r) ?f L1)"
      using t False
      by (auto simp: lapse_hold_def res_bind_Inr_iff Let_def split: option.splits if_splits dest!: run_release_effect_eq)
    have "calm E L1 (update_reservation (r_id r) ?f L1)"
      by (rule calm_update) (simp add: covers_def isheld_def HELD_RESERVATION_STATES_def)
    with record_lease_end_calm [OF L1] show ?thesis unfolding L' by (blast intro: calm_trans)
  qed simp
qed

lemma expire_stale_holds_calm: "expire_stale_holds C now L = Return L' \<Longrightarrow> calm E L L'"
  unfolding expire_stale_holds_def
proof -
  have "res_fold (lapse_hold C now) rs L = Return L' \<Longrightarrow> calm E L L'" for rs L
  proof (induction rs arbitrary: L)
    case (Cons r rs)
    then show ?case by (auto simp: res_bind_Inr_iff intro: calm_trans dest!: lapse_hold_calm [where E = E])
  qed simp
  then show "res_fold (lapse_hold C now) (filter (\<lambda>r. r_state r = Reserved \<and> r_hold_expires r \<noteq> None) (reservations L)) L = Return L' \<Longrightarrow> calm E L L'"
    by blast
qed

lemma with_expired_fits_at:
  assumes i: "ledger_inv C L" and f: "fits_at C L t" and k: "\<And>L1. ledger_inv C L1 \<Longrightarrow> fits_at C L1 t \<Longrightarrow> fits_at C (fst (k L1)) t"
  shows "fits_at C (fst (with_expired C now L k)) t"
proof (cases "expire_stale_holds C now L")
  case (Inr L1)
  have "fits_at C L1 t" using i by (intro calm_fits_at [OF expire_stale_holds_calm [OF Inr] _ f]) (simp add: ledger_inv_def)
  moreover have "ledger_inv C L1" using expire_stale_holds_quiet [OF inv_ids [OF i] Inr] i by (rule quiet_inv)
  ultimately show ?thesis using Inr k by (simp add: with_expired_def)
qed (use f in \<open>simp add: with_expired_def\<close>)

lemma run_tx_fits_at: "fits_at C L t \<Longrightarrow> (\<And>L' x. tx = Return (L', x) \<Longrightarrow> fits_at C L' t) \<Longrightarrow> fits_at C (fst (run_tx L tx)) t"
  by (auto simp: run_tx_def split: sum.splits)

text \<open>The requested window is read back from the row it is written to.\<close>

definition window_readable :: "config \<Rightarrow> int \<Rightarrow> claim \<Rightarrow> string option \<Rightarrow> int option \<Rightarrow> bool" where
  "window_readable C now claim ls ld = (case parse_request C now claim ls ld of
     Inl _ \<Rightarrow> True
   | Inr (requested, _, s, e) \<Rightarrow> exact_dims (cfg_env C) requested \<and> iso_ok (cfg_env C) s \<and> iso_ok (cfg_env C) e)"

lemma reserve_fits_at:
  assumes C: "runtime_ok C" and i: "ledger_inv C L" and f: "fits_at C L t" and w: "window_readable C now claim ls ld"
  shows "fits_at C (fst (reserve C now claim deal ttl ls ld L)) t"
proof (cases "parse_request C now claim ls ld")
  case (Inr p)
  obtain requested mode s e where p: "p = (requested, mode, s, e)" by (cases p)
  note pr = Inr [unfolded p]
  have ex: "exact_dims (cfg_env C) requested" "iso_ok (cfg_env C) s" "iso_ok (cfg_env C) e"
    using w pr by (simp_all add: window_readable_def)
  have "fits_at C L' t" if i1: "ledger_inv C L1" and f1: "fits_at C L1 t" and tx: "reserve_in_tx C now claim deal ttl requested mode s e L1 = Return (L', x)" for L1 L' x
  proof (cases "L' = L1")
    case False
    obtain b av ca where m: "find_candidate C L1 claim requested s e = Return (Some (b, av))"
      "L' = insert_reservation C (new_reservation C now (uuid4 C (drawn L1)) requested ca deal (hold_deadline C now ttl) b mode s e) requested b L1"
      by (rule reserve_in_tx_cases [OF tx False])
    show ?thesis unfolding m(2)
      by (rule insert_fits_at [OF C i1 f1 m(1) _ ex]) (use parse_request_Some [OF pr] in simp)
  qed (use f1 in simp)
  with i f pr show ?thesis by (auto simp: reserve_def intro!: with_expired_fits_at run_tx_fits_at)
qed (use f in \<open>simp add: reserve_def\<close>)

lemma resize_fits_at:
  assumes C: "runtime_ok C" and i: "ledger_inv C L" and f: "fits_at C L t" and w: "window_readable C now claim ls ld"
  shows "fits_at C (fst (resize_reservation C now old claim deal ttl ls ld L)) t"
proof (cases "parse_request C now claim ls ld")
  case (Inr p)
  obtain requested mode s e where p: "p = (requested, mode, s, e)" by (cases p)
  note pr = Inr [unfolded p]
  have ex: "exact_dims (cfg_env C) requested" "iso_ok (cfg_env C) s" "iso_ok (cfg_env C) e"
    using w pr by (simp_all add: window_readable_def)
  have "fits_at C L' t" if i1: "ledger_inv C L1" and f1: "fits_at C L1 t" and tx: "resize_in_tx C now old claim deal ttl requested mode s e L1 = Return (L', x)" for L1 L' x
  proof (cases "L' = L1")
    case False
    obtain r L2 b av where r: "reservation_by_id L1 old = Some r" "isheld r"
      and L2: "free_reservation C now r Released ''end'' [] ''superseded'' None (\<lambda>r. r\<lparr>r_failure_reason := Some ''superseded''\<rparr>) L1 = Return L2"
      and m: "find_candidate C L2 claim requested s e = Return (Some (b, av))"
      and L': "L' = insert_reservation C (new_reservation C now (uuid4 C (drawn L2)) requested (r_claim_attributes r) deal (hold_deadline C now ttl) b mode s e) requested b L2"
      by (rule resize_in_tx_cases [OF tx False])
    have i2: "ledger_inv C L2" by (rule quiet_inv [OF free_superseded_quiet [OF inv_ids [OF i1] r L2] i1])
    have "calm (cfg_env C) L1 L2"
      by (rule free_reservation_calm [OF _ _ L2]) (simp_all add: HELD_RESERVATION_STATES_def)
    then have f2: "fits_at C L2 t" by (rule calm_fits_at) (use i1 f1 in \<open>simp_all add: ledger_inv_def\<close>)
    show ?thesis unfolding L'
      by (rule insert_fits_at [OF C i2 f2 m _ ex]) (use parse_request_Some [OF pr] in simp)
  qed (use f1 in simp)
  with i f pr show ?thesis by (auto simp: resize_reservation_def intro!: with_expired_fits_at run_tx_fits_at)
qed (use f in \<open>simp add: resize_reservation_def\<close>)

lemma run_tx_calm: "(\<And>L' x. t = Return (L', x) \<Longrightarrow> calm E L L') \<Longrightarrow> calm E L (fst (run_tx L t))"
  by (auto simp: run_tx_def split: sum.splits)

lemma release_calm: "calm E L (fst (release C now rid deal forced fr fm ctx L))"
  unfolding release_def
proof (rule run_tx_calm)
  fix L' x assume t: "release_in_tx C now rid deal forced fr fm ctx L = Return (L', x)"
  show "calm E L L'"
  proof (cases "L' = L")
    case False
    with t obtain r state key cause reason where
        f: "free_reservation C now r state key ctx cause reason (\<lambda>r. r\<lparr>r_failure_reason := fr, r_failure_message := fm\<rparr>) L = Return L'"
          "state \<in> {Released, Force_released}"
      by (auto simp: release_in_tx_def Let_def res_bind_Inr_iff split: if_splits option.splits)
    show ?thesis by (rule free_reservation_calm [OF _ _ f(1)]) (use f(2) in \<open>auto simp: HELD_RESERVATION_STATES_def\<close>)
  qed simp
qed

lemma truncate_covers:
  assumes "parse_utc E (Some e) = Some new_end" "\<forall>cur. parse_utc E (r_lease_end r) = Some cur \<longrightarrow> new_end \<le> cur"
  shows "covers (occupies E t) r (r\<lparr>r_lease_end := Some e\<rparr>)"
  using assms by (cases "parse_utc E (r_lease_end r)")
    (auto simp: covers_def occupies_def isheld_def in_window_def blocks_every_window_def)

lemma truncate_calm:
  assumes "ids_ok L"
  shows "calm (cfg_env C) L (fst (truncate_lease C rid e L))"
proof (cases "fst (truncate_lease C rid e L) = L")
  case False
  then obtain r new_end where r: "find_reservation L (Some rid) None None = Some r" "parse_utc (cfg_env C) (Some e) = Some new_end"
      "\<forall>cur. parse_utc (cfg_env C) (r_lease_end r) = Some cur \<longrightarrow> new_end \<le> cur"
      "calm (cfg_env C) (update_reservation (r_id r) (\<lambda>r. r\<lparr>r_lease_end := Some e\<rparr>) L) (fst (truncate_lease C rid e L))"
    by (auto simp: truncate_lease_def Let_def split: option.splits if_splits)
  have "calm (cfg_env C) L (update_reservation (r_id r) (\<lambda>r. r\<lparr>r_lease_end := Some e\<rparr>) L)"
    by (rule calm_update_one [OF assms find_reservation_mem [OF r(1)]]) (rule truncate_covers [OF r(2,3)])
  with r(4) show ?thesis by (rule calm_trans [rotated])
qed simp

lemma activate_calm: "calm E L (fst (activate_lease C now rid L))"
proof -
  have "calm E L (update_reservation x (\<lambda>r. r\<lparr>r_activated_at := a\<rparr>) L)" for x a
    by (rule calm_update) (simp add: covers_def occupies_def isheld_def blocks_every_window_def)
  then show ?thesis by (auto simp: activate_lease_def Let_def split: option.split)
qed

lemma commit_covers:
  assumes "r_state r = Reserved"
  shows "covers (occupies E t) r (r\<lparr>r_state := Leased, r_lease_end := r_lease_end r, r_hold_expires := None,
     r_lease_start := (if is_truthy (r_lease_start r) then r_lease_start r else Some y)\<rparr>)"
proof (cases "is_truthy (r_lease_start r)")
  case False
  then have "parse_utc E (r_lease_start r) = None" by (auto simp: is_truthy_def parse_utc_def split: option.splits)
  with False assms show ?thesis
    by (auto simp: covers_def isheld_def HELD_RESERVATION_STATES_def occupies_def in_window_def blocks_every_window_def)
qed (use assms in \<open>auto simp: covers_def isheld_def HELD_RESERVATION_STATES_def occupies_def blocks_every_window_def\<close>)

lemma find_reservation_held_escrow:
  "find_reservation L None (Some x) None = Some r \<Longrightarrow> isheld r \<and> r_escrow r = Some x"
  by (auto simp: find_reservation_def is_truthy_def split: if_splits dest!: latest_created_mem)

lemma commit_calm:
  assumes ok: "ids_ok L" and w: "parse_utc (cfg_env C) s = None" "parse_utc (cfg_env C) e = None"
  shows "calm E L (fst (commit C now res rid s e deal L))"
proof -
  have lw: "lease_window (cfg_env C) now s None e = Return (None, None)" using w by (simp add: lease_window_def)
  have "calm E L L'" if t: "commit_in_tx C now res rid e None None deal L = Return (L', x)" for L' x
  proof (cases "find_reservation L rid None (if is_truthy rid then None else res)")
    case None
    with t show ?thesis by (simp add: commit_in_tx_def)
  next
    case (Some r)
    have mem: "r \<in> set (reservations L)" by (rule find_reservation_mem [OF Some])
    define attach where "attach = (\<lambda>r :: reservation. r\<lparr>r_escrow := deal_escrow_uid deal\<rparr>)"
    define lease where "lease = (\<lambda>r :: reservation. r\<lparr>r_state := Leased, r_lease_end := r_lease_end r, r_hold_expires := None,
        r_lease_start := (if is_truthy (r_lease_start r) then r_lease_start r else Some (isoformat (cfg_env C) now))\<rparr>)"
    define L1 where "L1 = (if is_truthy (deal_escrow_uid deal) \<and> \<not> is_truthy (r_escrow r)
        then update_reservation (r_id r) attach L else L)"
    have c1: "calm E L L1" unfolding L1_def
      by (auto intro!: calm_update simp: attach_def covers_def occupies_def isheld_def blocks_every_window_def)
    have st: "r_state x = r_state r" if "x \<in> set (reservations L1)" "r_id x = r_id r" for x
      using that mem ok by (auto simp: L1_def update_reservation_def attach_def ids_ok_def distinct_map inj_on_def split: if_splits)
    have c2: "calm E L1 (update_reservation (r_id r) lease L1)" if "r_state r = Reserved"
      unfolding lease_def by (rule calm_update, rule commit_covers) (use st that in simp)
    have "L' = L1 \<or> r_state r = Reserved \<and> (\<exists>k d. L' = add_event KCommitted k d (update_reservation (r_id r) lease L1))"
      using t Some by (cases "r_state r") (auto simp: commit_in_tx_def Let_def L1_def lease_def attach_def isheld_def
          HELD_RESERVATION_STATES_def COMMIT_REFUSED_STATES_def split: if_splits)
    with c1 c2 show ?thesis by (blast intro: calm_trans)
  qed
  with lw show ?thesis by (auto simp: commit_def intro: run_tx_calm)
qed

text \<open>The operations that keep every instant within capacity: the requested window is readable,
  and a commit states no window of its own.\<close>

definition windowed :: "config \<Rightarrow> ledger_op \<Rightarrow> bool" where
  "windowed C p = (case p of
     Reserve now claim _ _ ls ld \<Rightarrow> window_readable C now claim ls ld
   | Resize now _ claim _ _ ls ld \<Rightarrow> window_readable C now claim ls ld
   | Commit _ _ _ s e _ \<Rightarrow> parse_utc (cfg_env C) s = None \<and> parse_utc (cfg_env C) e = None
   | Assign _ _ _ \<Rightarrow> True | Release _ _ _ _ _ _ _ \<Rightarrow> True | Truncate _ _ \<Rightarrow> True | Activate _ _ \<Rightarrow> True
   | Expire _ \<Rightarrow> True | List_Resources _ \<Rightarrow> True | Probe _ _ _ _ \<Rightarrow> True
   | _ \<Rightarrow> False)"

lemma assign_ledger_fits_at:
  assumes i: "ledger_inv C L" and f: "fits_at C L t"
  shows "fits_at C (fst (assign_settlement_resource C now rid target L)) t"
proof -
  have same: "calm E M (update_reservation y (\<lambda>r. r\<lparr>r_settlement := a\<rparr>) M)"
    "calm E M (update_reservation y (\<lambda>r. r\<lparr>r_settlement := a, r_executor_ref := c\<rparr>) M)" for E M y a c
    by (rule calm_update, simp add: covers_def occupies_def isheld_def blocks_every_window_def)+
  have "fits_at C L' t" if i1: "ledger_inv C L1" and f1: "fits_at C L1 t" and t: "assign_settlement_resource_in_session C rid target L1 = Return (L', x)" for L1 L' x
    using t
  proof (cases rule: assign_in_session_cases)
    case 1
    then show ?thesis using f1 by simp
  next
    case (2 r dest)
    note r = 2(1)
    from 2(3) have dest: "dest \<in> set (buckets L1)" by (auto simp: bucket_by_backing_resource_def find_Some_iff)
    from 2(5) show ?thesis
    proof (cases rule: assign_to_cases)
      case 1
      show ?thesis unfolding 1(2) by (rule calm_fits_at [OF same(1)]) (use i1 f1 in \<open>simp_all add: ledger_inv_def\<close>)
    next
      case (2 src d1 d2)
      have "calm (cfg_env C) (move_debit (r_id r) (cb_id dest) L1) L'" unfolding 2(3) by (blast intro: same calm_trans)
      moreover have "fits_at C (move_debit (r_id r) (cb_id dest) L1) t"
        unfolding fits_at_def by (rule assign_fits [OF i1 f1 [unfolded fits_at_def] r dest 2(1)])
      ultimately show ?thesis
        using calm_fits_at [of C "move_debit (r_id r) (cb_id dest) L1" L' t] move_debit_inv [OF i1, of "r_id r" "cb_id dest"]
        by (simp add: ledger_inv_def)
    qed
  qed
  with i f show ?thesis by (auto simp: assign_settlement_resource_def intro!: with_expired_fits_at run_tx_fits_at)
qed

lemma reads_fits_at:
  assumes "ledger_inv C L" "fits_at C L t"
  shows "fits_at C (fst (expire_due_holds C now L)) t" "fits_at C (fst (list_offered_resources C now L)) t"
    "fits_at C (fst (probe C now claim ls ld L)) t"
  using assms
  by (auto simp: expire_due_holds_def list_offered_resources_def probe_def split: sum.split prod.split intro!: with_expired_fits_at)

lemma exec_fits_at:
  assumes "runtime_ok C" "ledger_inv C L" "fits_at C L t" "windowed C p"
  shows "fits_at C (exec C p L) t"
proof -
  have ids: "ids_ok L" and rows: "rows_ok L" using assms(2) by (simp_all add: ledger_inv_def)
  note calm = release_calm truncate_calm [OF ids] activate_calm commit_calm [OF ids]
  show ?thesis using assms(4)
    by (cases p) (simp_all add: windowed_def exec_def assms(1-3) reserve_fits_at resize_fits_at assign_ledger_fits_at
        reads_fits_at calm_fits_at [OF _ rows assms(3)] calm)
qed

interpretation instants: op_machine site_step "\<lambda>p s. windowed (fst s) p"
  "\<lambda>s. site_ok s \<and> (\<forall>t. fits_at (fst s) (snd s) t)" "\<lambda>_ _. True"
proof
  fix s p assume "site_ok s \<and> (\<forall>t. fits_at (fst s) (snd s) t)" "windowed (fst s) p"
  then show "site_ok (site_step p s) \<and> (\<forall>t. fits_at (fst (site_step p s)) (snd (site_step p s)) t)"
    using life.keeps [of s p] by (auto simp: site_ok_def site_step_def intro: exec_fits_at)
qed simp_all

lemma all_windowed: "all_along site_step (\<lambda>p s. windowed (fst s) p) ps (C, L) = list_all (windowed C) ps"
  by (induction ps arbitrary: L) (auto simp: site_step_def)

lemma run_fits_at:
  assumes "runtime_ok C" "ledger_inv C L" "\<forall>t. fits_at C L t" "list_all (windowed C) ps"
  shows "fits_at C (run_ledger C ps L) t"
  using instants.run_keeps [of "(C, L)" ps] assms by (simp add: all_windowed run_site site_ok_def)

end
