(* ===== verification/Ledger_Guarantees.thy ===== *)
theory Ledger_Guarantees
  imports Ledger_Runs
begin

text \<open>
  The guarantees of the site ledger: the lease lifecycle, the absence of oversell, expiry,
  idempotence, atomicity of a resize, and the event feed, each with a witness on a small
  site of one pool and one resource.
\<close>

section \<open>A small site\<close>

definition ex_config :: config where
  "ex_config = \<lparr>cfg_env = ex_env, required_attributes = [], unit_claim_keys = [''units''], mirror_dimension = ''units'',
     release_guard = None, release_effect = None, site_id = ''site'', lease_end_effect = None, host_requirement = None,
     deliverable_hosts = None, uuid4 = (\<lambda>n. replicate n CHR ''u'')\<rparr>"

definition ex_pools :: "resource_pool list" where
  "ex_pools = [\<lparr>pool_name = ''pool'', pool_provider_id = ''prov'', pool_enabled = True,
     pool_policy_tags = [(DELIVERABLE_MODES_POLICY_TAG, PList [PStr ''vm''])]\<rparr>]"

definition ex_capacity :: capacity_declaration where
  "ex_capacity = \<lparr>cd_resource = ''gpu'', cd_pool = ''pool'', cd_type = ''compute.gpu'', cd_subtype = None, cd_host = None,
     cd_capacity = [(''units'', 2)], cd_attributes = [], cd_enabled = True\<rparr>"

definition ex_claim :: claim where
  "ex_claim = [(''units'', PInt 1), (''offering_mode'', PStr ''vm'')]"

definition ex_deal :: "(string \<times> pyval) list" where
  "ex_deal = [(''escrow_uid'', PStr ''e'')]"

definition ex_site :: ledger where
  "ex_site = exec ex_config (Register 0 ex_capacity) (empty_ledger ex_pools)"

definition ex_held :: ledger where
  "ex_held = exec ex_config (Reserve 0 ex_claim ex_deal None None None) ex_site"

lemma ex_runtime: "runtime_ok ex_config"
  by (auto simp: runtime_ok_def ex_config_def inj_def ex_env_def replicate_eq_replicate)

lemma ex_site_ok: "ledger_inv ex_config ex_site"
  unfolding ex_site_def using exec_lawful [OF ex_runtime empty_inv] by (simp add: lawful_def)

lemma ex_held_ok: "ledger_inv ex_config ex_held"
  unfolding ex_held_def using exec_lawful [OF ex_runtime ex_site_ok] by (simp add: lawful_def)

lemma ex_held_row: "map r_id (reservations ex_held) = [''u''] \<and> map r_state (reservations ex_held) = [Reserved]"
  by code_simp

lemma ex_site_rows: "reservations ex_site = []"
  by code_simp

section \<open>Expiry\<close>

text \<open>The row an expired hold becomes.\<close>

definition lapsed_row :: "config \<Rightarrow> int \<Rightarrow> reservation \<Rightarrow> reservation" where
  "lapsed_row C now r = r\<lparr>r_state := Released, r_released_at := Some (isoformat (cfg_env C) now),
     r_failure_reason := Some ''hold_expired''\<rparr>"

definition hold_due :: "config \<Rightarrow> int \<Rightarrow> reservation \<Rightarrow> bool" where
  "hold_due C now r = (case parse_utc (cfg_env C) (r_hold_expires r) of None \<Rightarrow> False | Some t \<Rightarrow> t \<le> now)"

lemma lapse_hold_rows:
  assumes "release_guard C = None" "lapse_hold C now r L = Return L'"
  shows "reservations L' = map (\<lambda>x. if hold_due C now r \<and> r_id x = r_id r then lapsed_row C now x else x) (reservations L)"
proof (cases "hold_due C now r")
  case False
  with assms show ?thesis
    by (auto simp: lapse_hold_def hold_due_def split: option.splits)
next
  case True
  then obtain t where "parse_utc (cfg_env C) (r_hold_expires r) = Some t" "t \<le> now"
    by (auto simp: hold_due_def split: option.splits)
  with assms show ?thesis
    by (auto simp: lapse_hold_def True release_permitted_def res_bind_Inr_iff Let_def update_reservation_def add_event_def lapsed_row_def
        dest!: run_release_effect_eq record_lease_end_eq)
qed

lemma lapsed_row_simps [simp]:
  "r_id (lapsed_row C now r) = r_id r" "lapsed_row C now (lapsed_row C now r) = lapsed_row C now r"
  by (simp_all add: lapsed_row_def)

lemma expire_fold_rows:
  assumes "release_guard C = None"
  shows "res_fold (lapse_hold C now) rs L = Return L' \<Longrightarrow>
     reservations L' = map (\<lambda>x. if (\<exists>r \<in> set rs. hold_due C now r \<and> r_id x = r_id r) then lapsed_row C now x else x) (reservations L)"
proof (induction rs arbitrary: L)
  case (Cons r rs)
  then obtain L1 where L1: "lapse_hold C now r L = Return L1" "res_fold (lapse_hold C now) rs L1 = Return L'"
    by (auto simp: res_bind_Inr_iff)
  show ?case
    unfolding Cons.IH [OF L1(2)] lapse_hold_rows [OF assms L1(1)] by (auto simp: comp_def)
qed simp

lemma hold_due_timed: "hold_due C now r \<Longrightarrow> r_hold_expires r \<noteq> None"
  by (cases "r_hold_expires r") (auto simp: hold_due_def parse_utc_def)

lemma row_unique: "ids_ok L \<Longrightarrow> x \<in> set (reservations L) \<Longrightarrow> y \<in> set (reservations L) \<Longrightarrow> r_id x = r_id y \<Longrightarrow> x = y"
  by (auto simp: ids_ok_def distinct_map inj_on_def)

lemma expire_rows:
  assumes "release_guard C = None" "ids_ok L" "expire_stale_holds C now L = Return L'"
  shows "reservations L' = map (\<lambda>r. if r_state r = Reserved \<and> hold_due C now r then lapsed_row C now r else r) (reservations L)"
proof -
  have due: "(\<exists>r \<in> set (filter (\<lambda>r. r_state r = Reserved \<and> r_hold_expires r \<noteq> None) (reservations L)). hold_due C now r \<and> r_id x = r_id r)
      = (r_state x = Reserved \<and> hold_due C now x)" if "x \<in> set (reservations L)" for x
  proof -
    have "r = x" if "r \<in> set (reservations L)" "r_id x = r_id r" for r
      using row_unique [OF assms(2)] that \<open>x \<in> _\<close> by metis
    then show ?thesis using that hold_due_timed [of C now] by auto
  qed
  show ?thesis
    unfolding expire_fold_rows [OF assms(1) assms(3) [unfolded expire_stale_holds_def]] using due by simp
qed

section \<open>The lease lifecycle\<close>

text \<open>C3: a reservation once made is never lost and never changes its identity, its
  quantity, its deal or its offering mode, and its state only moves along the lease lifecycle: a released or force-released
  reservation is final, a reservation being released never returns to a lease, and nothing
  returns to the reserved state.  This holds for every sequence of ledger operations.\<close>

theorem reservation_lifecycle:
  assumes "runtime_ok C" "ledger_inv C L" "reservation_by_id L rid = Some r"
  shows "\<exists>r'. reservation_by_id (run_ledger C ps L) rid = Some r' \<and> r_dims r' = r_dims r \<and> r_units r' = r_units r \<and>
     r_deal_ref r' = r_deal_ref r \<and> r_offering_mode r' = r_offering_mode r \<and> leads_to (r_state r) (r_state r')"
proof -
  note r = reservation_by_id_Some [OF assms(3)]
  obtain r' where r': "r' \<in> set (reservations (run_ledger C ps L))" "row_step r r'"
    using evolves_row [OF run_evolves [OF assms(1,2)]] r by blast
  with reservation_by_id_mem [OF inv_ids [OF run_inv [OF assms(1,2)]] r'(1)] r show ?thesis by (auto simp: row_step_def)
qed

theorem reservation_lifecycle_witness:
  "\<exists>r'. reservation_by_id (run_ledger ex_config [Release 5 (Some ''u'') [] False None None [], Commit 6 None (Some ''u'') None None []] ex_held) ''u'' = Some r' \<and>
     r_state r' = Released"
proof -
  have some: "reservation_by_id ex_held ''u'' \<noteq> None" by code_simp
  then obtain r where r: "reservation_by_id ex_held ''u'' = Some r" by blast
  let ?L = "run_ledger ex_config [Release 5 (Some ''u'') [] False None None [], Commit 6 None (Some ''u'') None None []] ex_held"
  obtain r' where r': "reservation_by_id ?L ''u'' = Some r'"
    using reservation_lifecycle [OF ex_runtime ex_held_ok r] by blast
  have "map_option r_state (reservation_by_id ?L ''u'') = Some Released" by code_simp
  with r' show ?thesis by simp
qed

text \<open>C4: every ledger the site can reach from an empty one is well formed: reservation and
  bucket identifiers are unique, every debit belongs to a reservation and no reservation has
  two, no held quantity is negative, the change feed is numbered 1, 2, 3 and so on without
  gaps, and each lease transition is recorded at most once.\<close>

theorem reachable_ledger_wellformed:
  assumes "runtime_ok C"
  shows "ledger_inv C (run_ledger C ps (empty_ledger ds))"
  by (rule run_inv [OF assms empty_inv])

theorem reachable_ledger_wellformed_witness:
  "ledger_inv ex_config (run_ledger ex_config [Register 0 ex_capacity, Reserve 0 ex_claim ex_deal None None None] (empty_ledger ex_pools)) \<and>
   length (reservations (run_ledger ex_config [Register 0 ex_capacity, Reserve 0 ex_claim ex_deal None None None] (empty_ledger ex_pools))) = 1"
proof -
  have "length (reservations (run_ledger ex_config [Register 0 ex_capacity, Reserve 0 ex_claim ex_deal None None None] (empty_ledger ex_pools))) = 1"
    by code_simp
  with reachable_ledger_wellformed [OF ex_runtime] show ?thesis by blast
qed

text \<open>The change feed and the lease-ended evidence are append-only over every sequence of
  operations: no event is altered, reordered or removed.\<close>

theorem feed_append_only:
  assumes "runtime_ok C" "ledger_inv C L"
  shows "prefix (events L) (events (run_ledger C ps L)) \<and> prefix (lease_ends L) (lease_ends (run_ledger C ps L))"
  using run_evolves [OF assms] by (simp add: evolves_def)

theorem feed_append_only_witness:
  "prefix (events ex_held) (events (run_ledger ex_config [Expire 7, Release 8 (Some ''u'') [] True None None []] ex_held)) \<and>
   length (events (run_ledger ex_config [Expire 7, Release 8 (Some ''u'') [] True None None []] ex_held)) = 3"
proof -
  have "length (events (run_ledger ex_config [Expire 7, Release 8 (Some ''u'') [] True None None []] ex_held)) = 3" by code_simp
  with feed_append_only [OF ex_runtime ex_held_ok] show ?thesis by blast
qed

section \<open>No oversell\<close>

text \<open>C1: no sequence of ledger operations oversells a bucket, when its requests name no lease window,
  ask for amounts that are stored without rounding, and every registration covers what the bucket
  it declares already holds: in every dimension the sum of what a bucket's held reservations hold
  never exceeds the declared capacity, whatever reservations, resizes, settlement assignments,
  commits, releases, failures and such registrations are interleaved.  A registration that declares
  less than is held is accepted by the code and is outside the statement.\<close>

theorem totals_never_exceed_capacity:
  assumes "runtime_ok C" "ledger_inv C L" "fits C L" "all_along site_step keeps_room ps (C, L)"
    and "b \<in> set (buckets (run_ledger C ps L))"
  shows "held_total C (run_ledger C ps L) (cb_id b) k \<le> dim (resource_capacity (mirror_dimension C) b) k"
  using run_fits [OF assms(1-4)] assms(5) by (simp add: fits_def)

definition ex_three :: "ledger_op list" where
  "ex_three = [Reserve 0 ex_claim ex_deal None None None, Reserve 1 ex_claim [] None None None, Reserve 2 ex_claim [] None None None]"

lemma ex_three_timeless: "list_all (timeless ex_config) ex_three"
proof -
  have "exact_claim ex_config ex_claim"
    by (simp add: exact_claim_def requested_dimensions_def ex_claim_def ex_config_def ex_env_def DIMENSIONS_CLAIM_KEY_def
        get_val_def requested_units_def exact_dims_def serialize_amount_def)
  then show ?thesis by (simp add: ex_three_def timeless_def parse_utc_def)
qed

lemma ex_declaring: "all_along site_step keeps_room (Register 0 ex_capacity # ex_three) (ex_config, empty_ledger ex_pools)"
proof -
  have "resource_capacity ''units'' (write_declaration ex_config 0 ex_capacity (new_bucket ex_config 0 0 ''gpu'')) = [(''units'', 2)]"
    by code_simp
  then have "covers_held ex_config 0 ex_capacity (empty_ledger ex_pools)"
    by (simp add: covers_held_def bucket_by_backing_resource_def empty_ledger_def ex_capacity_def ex_config_def dim_def
        held_total_def held_rows_def)
  then show ?thesis using all_timeless [OF ex_three_timeless] by (simp add: keeps_room_def site_step_def)
qed

text \<open>Two units are declared; of three reservations of one unit the third is refused.\<close>

theorem totals_never_exceed_capacity_witness:
  "\<exists>b L. L = run_ledger ex_config (Register 0 ex_capacity # ex_three) (empty_ledger ex_pools) \<and> buckets L = [b] \<and>
     length (reservations L) = 2 \<and> held_total ex_config L (cb_id b) ''units'' \<le> dim (resource_capacity (mirror_dimension ex_config) b) ''units''"
proof -
  let ?L = "run_ledger ex_config (Register 0 ex_capacity # ex_three) (empty_ledger ex_pools)"
  have len: "length (buckets ?L) = 1" "length (reservations ?L) = 2" by code_simp+
  then obtain b where b: "buckets ?L = [b]" by (auto simp: length_Suc_conv)
  have "fits ex_config (empty_ledger ex_pools)" by (simp add: fits_def empty_ledger_def)
  from totals_never_exceed_capacity [OF ex_runtime empty_inv this ex_declaring, of b "''units''"] b len show ?thesis by simp
qed

text \<open>C2: with lease windows, no bucket is oversold at any instant: what the reservations whose
  window contains an instant hold, together with those that hold at every instant, never
  exceeds the declared capacity, through every sequence of reservations, resizes, settlement
  assignments, releases, truncations, activations, expiries, and commits that state no
  window of their own.\<close>

theorem no_instant_exceeds_capacity:
  assumes "runtime_ok C" "ledger_inv C L" "\<forall>t. fits_at C L t" "list_all (windowed C) ps"
    and "b \<in> set (buckets (run_ledger C ps L))"
  shows "held_by C (run_ledger C ps L) (occupies (cfg_env C) t) (cb_id b) k \<le> dim (resource_capacity (mirror_dimension C) b) k"
  using run_fits_at [OF assms(1-4), of t] assms(5) by (simp add: fits_at_def fits_by_def)

text \<open>A site whose clock knows three instants.\<close>

definition ex_clock :: config where
  "ex_clock = ex_config\<lparr>cfg_env := ex_env\<lparr>
     fromisoformat := (\<lambda>s. map_of [(''t0'', 0), (''t1'', 1000000), (''t2'', 2000000)] s),
     isoformat := (\<lambda>t. if t = 0 then ''t0'' else if t = 1000000 then ''t1'' else ''t2'')\<rparr>\<rparr>"

definition ex_clock_site :: ledger where
  "ex_clock_site = exec ex_clock (Register 0 ex_capacity) (empty_ledger ex_pools)"

lemma ex_clock_runtime: "runtime_ok ex_clock"
  using ex_runtime by (simp add: runtime_ok_def ex_clock_def ex_config_def ex_env_def)

lemma ex_clock_ok: "ledger_inv ex_clock ex_clock_site"
  unfolding ex_clock_site_def using exec_lawful [OF ex_clock_runtime empty_inv] by (simp add: lawful_def)

lemma ex_clock_fits: "fits_at ex_clock ex_clock_site t"
proof -
  have "reservations ex_clock_site = []" by code_simp
  then have rows: "held_by ex_clock ex_clock_site P bid k = 0" for P bid k by (simp add: held_by_def)
  have "list_all (\<lambda>b. resource_capacity (mirror_dimension ex_clock) b = [(''units'', 2)]) (buckets ex_clock_site)" by code_simp
  then show ?thesis unfolding fits_at_def fits_by_def rows by (simp add: list_all_iff dim_def)
qed

definition ex_windows :: "ledger_op list" where
  "ex_windows = [Reserve 0 ex_claim ex_deal None (Some ''t0'') (Some 1), Release 9 (Some ''u'') [] False None None []]"

lemma ex_windows_ok: "list_all (windowed ex_clock) ex_windows"
proof -
  have "case parse_request ex_clock 0 ex_claim (Some ''t0'') (Some 1) of Inl _ \<Rightarrow> False
      | Inr (d, _, s, e) \<Rightarrow> s = Some 0 \<and> e = Some 1000000 \<and> d = [(''units'', 1)]" by code_simp
  moreover have "iso_ok (cfg_env ex_clock) (Some 0)" "iso_ok (cfg_env ex_clock) (Some 1000000)" by code_simp+
  ultimately have "window_readable ex_clock 0 ex_claim (Some ''t0'') (Some 1)"
    by (auto simp: window_readable_def exact_dims_def serialize_amount_def split: sum.splits)
  then show ?thesis by (simp add: ex_windows_def windowed_def)
qed

theorem no_instant_exceeds_capacity_witness:
  "\<exists>b. buckets (run_ledger ex_clock ex_windows ex_clock_site) = [b] \<and>
     held_by ex_clock (run_ledger ex_clock ex_windows ex_clock_site) (occupies (cfg_env ex_clock) 5) (cb_id b) ''units''
       \<le> dim (resource_capacity (mirror_dimension ex_clock) b) ''units''"
proof -
  have "length (buckets (run_ledger ex_clock ex_windows ex_clock_site)) = 1" by code_simp
  then obtain b where b: "buckets (run_ledger ex_clock ex_windows ex_clock_site) = [b]" by (auto simp: length_Suc_conv)
  with no_instant_exceeds_capacity [OF ex_clock_runtime ex_clock_ok _ ex_windows_ok, of b 5] ex_clock_fits show ?thesis by simp
qed

section \<open>Holds\<close>

text \<open>A sweep over the holds releases exactly the reserved rows whose hold deadline has
  passed, each marked as expired with the time of the sweep, and leaves every other row
  untouched: no lease is ended and no live hold is dropped.  (Without a release guard; a
  guard may only postpone a release.)\<close>

theorem sweep_releases_exactly_due_holds:
  assumes "ledger_inv C L" "release_guard C = None" "expire_stale_holds C now L = Return L'"
  shows "reservations L' = map (\<lambda>r. if r_state r = Reserved \<and> hold_due C now r then lapsed_row C now r else r) (reservations L)"
  by (rule expire_rows [OF assms(2) inv_ids [OF assms(1)] assms(3)])

definition ex_timed :: ledger where
  "ex_timed = exec ex_config (Reserve 0 ex_claim ex_deal (Some 5) None None) ex_site"

theorem sweep_releases_exactly_due_holds_witness:
  "\<exists>L'. expire_stale_holds ex_config 9 ex_timed = Return L' \<and> map r_state (reservations L') = [Released]"
proof -
  have ok: "ledger_inv ex_config ex_timed"
    unfolding ex_timed_def using exec_lawful [OF ex_runtime ex_site_ok] by (simp add: lawful_def)
  have g: "release_guard ex_config = None" by (simp add: ex_config_def)
  have "case expire_stale_holds ex_config 9 ex_timed of Inl _ \<Rightarrow> False | Inr L' \<Rightarrow> True" by code_simp
  then obtain L' where L': "expire_stale_holds ex_config 9 ex_timed = Return L'" by (auto split: sum.splits)
  have "list_all (\<lambda>r. r_state r = Reserved \<and> hold_due ex_config 9 r) (reservations ex_timed) \<and> length (reservations ex_timed) = 1" by code_simp
  then obtain r where "reservations ex_timed = [r]" "r_state r = Reserved" "hold_due ex_config 9 r"
    by (cases "reservations ex_timed") auto
  with sweep_releases_exactly_due_holds [OF ok g L'] L' show ?thesis by (simp add: lapsed_row_def)
qed

lemma latest_created_single: "latest_created [r] = Some r"
  by (simp add: latest_created_def)

lemma filter_single: "distinct xs \<Longrightarrow> n \<in> set xs \<Longrightarrow> filter (\<lambda>x. x = n) xs = [n]"
  by (induction xs) (auto simp: filter_empty_conv)

lemma replay_rows:
  assumes "ids_ok L" "n \<in> set (reservations L)" "isheld n" "r_escrow n = Some x"
    and "\<And>r. r \<in> set (reservations L) \<Longrightarrow> isheld r \<Longrightarrow> r_escrow r = Some x \<Longrightarrow> r = n"
  shows "filter (\<lambda>r. isheld r \<and> r_escrow r = Some x) (reservations L) = [n]"
proof -
  have "filter (\<lambda>r. isheld r \<and> r_escrow r = Some x) (reservations L) = filter (\<lambda>r. r = n) (reservations L)"
    by (rule filter_cong [OF refl]) (use assms in blast)
  also have "\<dots> = [n]" by (rule filter_single) (use assms(1,2) in \<open>auto simp: ids_ok_def distinct_map\<close>)
  finally show ?thesis .
qed

text \<open>After a fresh reservation with an escrow, its row is the only held one with that escrow.\<close>

lemma fresh_reserve_row:
  assumes C: "runtime_ok C" and i: "ledger_inv C L" and x: "deal_escrow_uid deal = Some x" "x \<noteq> []"
    and res: "reserve C now claim deal ttl ls ld L = (L', Return (Some (Fresh m rid hold mode)))"
  shows "ledger_inv C L' \<and> (\<exists>n. n \<in> set (reservations L') \<and> r_id n = rid \<and> r_state n = Reserved \<and> r_escrow n = Some x \<and>
     r_hold_expires n = hold_deadline C now ttl \<and> r_offering_mode n = mode \<and> mode \<noteq> None \<and>
     (\<forall>r \<in> set (reservations L'). isheld r \<longrightarrow> r_escrow r = Some x \<longrightarrow> r = n))"
proof -
  have inv: "ledger_inv C L'" using reserve_lawful [OF C i, of now claim deal ttl ls ld] res by (simp add: lawful_def)
  from res obtain requested md s e L1 where p: "parse_request C now claim ls ld = Return (requested, md, s, e)"
    and tx: "run_tx L1 (reserve_in_tx C now claim deal ttl requested md s e L1) = (L', Return (Some (Fresh m rid hold mode)))"
    by (auto simp: reserve_def with_expired_def split: sum.splits)
  then have tx: "reserve_in_tx C now claim deal ttl requested md s e L1 = Return (L', Some (Fresh m rid hold mode))"
    by (auto simp: run_tx_def split: sum.splits)
  have none: "find_reservation L1 None (Some x) None = None"
    using tx x by (auto simp: reserve_in_tx_def Let_def is_truthy_def reservation_payload_for_reserve_def split: option.splits if_splits)
  have free: "\<not> (isheld r \<and> r_escrow r = Some x)" if "r \<in> set (reservations L1)" for r
  proof -
    have "latest_created (filter (\<lambda>r. isheld r \<and> r_escrow r = Some x) (reservations L1)) = None"
      using none x by (simp add: find_reservation_def is_truthy_def)
    then have "sort_key (\<lambda>r. - r_created_at r) (filter (\<lambda>r. isheld r \<and> r_escrow r = Some x) (reservations L1)) = []"
      by (simp add: latest_created_def split: list.splits)
    then have "filter (\<lambda>r. isheld r \<and> r_escrow r = Some x) (reservations L1) = []"
      by (metis length_0_conv length_sort)
    with that show ?thesis by (simp add: filter_empty_conv)
  qed
  obtain b ca where L': "L' = insert_reservation C (new_reservation C now (uuid4 C (drawn L1)) requested ca deal (hold_deadline C now ttl) b md s e) requested b L1"
      "rid = uuid4 C (drawn L1)" "mode = Some md"
    using tx none x by (auto simp: reserve_in_tx_def Let_def is_truthy_def res_bind_Inr_iff split: option.splits if_splits)
  let ?n = "new_reservation C now (uuid4 C (drawn L1)) requested ca deal (hold_deadline C now ttl) b md s e"
  have "reservations L' = reservations L1 @ [?n]" by (simp add: L' insert_reservation_def add_event_def)
  moreover have "r_id ?n = rid" "r_state ?n = Reserved" "r_escrow ?n = Some x" "r_hold_expires ?n = hold_deadline C now ttl"
      "r_offering_mode ?n = mode" "mode \<noteq> None"
    using x L'(2,3) by (simp_all add: new_reservation_def)
  ultimately show ?thesis using inv free by (intro conjI exI [of _ ?n]) auto
qed

text \<open>C6: reserving is idempotent per escrow: once a deal's escrow has a hold that has not
  lapsed, asking again for the same deal and offering mode returns that same reservation and
  takes no further capacity, whatever the second request claims.\<close>

theorem reserve_replays_escrow:
  assumes "runtime_ok C" "ledger_inv C L" "deal_escrow_uid deal = Some x" "x \<noteq> []" "release_guard C = None"
    and "reserve C now claim deal None ls ld L = (L', Return (Some (Fresh m rid hold mode)))"
    and "parse_request C now' claim' ls' ld' = Return (requested, the mode, s, e)"
    and "expire_stale_holds C now' L' = Return L1"
  shows "\<exists>pl. reserve C now' claim' deal ttl' ls' ld' L' = (L1, Return (Some (Existing pl (backing_resource_id L1 rid)))) \<and> pl_id pl = rid"
proof -
  obtain n where inv: "ledger_inv C L'" and n: "n \<in> set (reservations L')" "r_id n = rid" "r_state n = Reserved" "r_escrow n = Some x"
      "r_hold_expires n = None" "r_offering_mode n = mode" "mode \<noteq> None" "\<And>r. r \<in> set (reservations L') \<Longrightarrow> isheld r \<Longrightarrow> r_escrow r = Some x \<Longrightarrow> r = n"
    using fresh_reserve_row [OF assms(1-4,6)] by (auto simp: hold_deadline_def)
  note rows = expire_rows [OF assms(5) inv_ids [OF inv] assms(8)]
  have nd: "\<not> hold_due C now' n" using n(5) hold_due_timed by blast
  have n1: "n \<in> set (reservations L1)" unfolding rows using n(1) nd by force
  have held: "isheld n" using n(3) by (simp add: isheld_def HELD_RESERVATION_STATES_def)
  have only: "r = n" if "r \<in> set (reservations L1)" "isheld r" "r_escrow r = Some x" for r
    using that n(8) unfolding rows by (auto simp: lapsed_row_def isheld_def HELD_RESERVATION_STATES_def split: if_splits)
  have ids1: "ids_ok L1" by (rule quiet_ids_ok [OF expire_stale_holds_quiet [OF inv_ids [OF inv] assms(8)] inv_ids [OF inv]])
  have f: "filter (\<lambda>r. isheld r \<and> r_escrow r = Some x) (reservations L1) = [n]"
    by (rule replay_rows [OF ids1 n1 held n(4)]) (rule only)
  have "find_reservation L1 None (Some x) None = latest_created (filter (\<lambda>r. isheld r \<and> r_escrow r = Some x) (reservations L1))"
    using assms(4) by (simp add: find_reservation_def is_truthy_def)
  then have "find_reservation L1 None (Some x) None = Some n" unfolding f latest_created_single .
  with assms(3,4,7,8) n(2,6,7) show ?thesis
    by (auto simp: reserve_def with_expired_def run_tx_def reserve_in_tx_def Let_def is_truthy_def reservation_payload_for_reserve_def
        reservation_payload_of_def)
qed

theorem reserve_replays_escrow_witness:
  "\<exists>m hold pl. reserve ex_config 0 ex_claim ex_deal None None None ex_site = (ex_held, Return (Some (Fresh m ''u'' hold (Some ''vm'')))) \<and>
     reserve ex_config 3 ex_claim ex_deal None None None ex_held = (ex_held, Return (Some (Existing pl (Some ''gpu'')))) \<and> pl_id pl = ''u''"
proof -
  have "case snd (reserve ex_config 0 ex_claim ex_deal None None None ex_site) of
      Inr (Some (Fresh m rid hold mode)) \<Rightarrow> rid = ''u'' \<and> mode = Some ''vm'' | _ \<Rightarrow> False" by code_simp
  then obtain m hold where snd: "snd (reserve ex_config 0 ex_claim ex_deal None None None ex_site) = Return (Some (Fresh m ''u'' hold (Some ''vm'')))"
    by (auto split: sum.splits option.splits reserve_payload.splits)
  have fst: "fst (reserve ex_config 0 ex_claim ex_deal None None None ex_site) = ex_held" by (simp add: ex_held_def exec_def)
  from fst snd have r: "reserve ex_config 0 ex_claim ex_deal None None None ex_site = (ex_held, Return (Some (Fresh m ''u'' hold (Some ''vm''))))"
    by (metis prod.collapse)
  have "case parse_request ex_config 3 ex_claim None None of Inr (d, mode, s, e) \<Rightarrow> mode = ''vm'' | _ \<Rightarrow> False" by code_simp
  then obtain d s e where p: "parse_request ex_config 3 ex_claim None None = Return (d, the (Some ''vm''), s, e)"
    by (auto split: sum.splits)
  have q: "expire_stale_holds ex_config 3 ex_held = Return ex_held" by code_simp
  have b: "backing_resource_id ex_held ''u'' = Some ''gpu''" by code_simp
  have "deal_escrow_uid ex_deal = Some ''e''" "release_guard ex_config = None" by code_simp+
  with reserve_replays_escrow [OF ex_runtime ex_site_ok _ _ _ r p q] b r show ?thesis by simp
qed

section \<open>Ending and changing a reservation\<close>

lemma rows_update: "reservations (update_reservation rid f L) = map (\<lambda>r. if r_id r = rid then f r else r) (reservations L)"
  by (simp add: update_reservation_def)

lemma by_id_update:
  assumes "\<And>x. r_id (f x) = r_id x"
  shows "reservation_by_id (update_reservation rid f L) y = map_option (\<lambda>r. if y = rid then f r else r) (reservation_by_id L y)"
proof -
  have "find (\<lambda>r. r_id r = y) (map (\<lambda>r. if r_id r = rid then f r else r) rs)
      = map_option (\<lambda>r. if y = rid then f r else r) (find (\<lambda>r. r_id r = y) rs)" for rs
    by (induction rs) (auto simp: assms)
  then show ?thesis by (simp add: reservation_by_id_def rows_update)
qed

lemma by_id_cong: "reservations L' = reservations L \<Longrightarrow> reservation_by_id L' rid = reservation_by_id L rid"
  by (simp add: reservation_by_id_def)

lemma by_id_add_event [simp]: "reservation_by_id (add_event k res d L) rid = reservation_by_id L rid"
  by (rule by_id_cong) (simp add: add_event_def)

lemma free_reservation_by_id:
  assumes "free_reservation C now r state key ctx cause reason mark L = Return L'"
    and "\<And>x. r_id (mark x) = r_id x"
  shows "reservation_by_id L' y = map_option (\<lambda>x. if y = r_id r then mark (x\<lparr>r_state := state, r_released_at := Some (isoformat (cfg_env C) now)\<rparr>) else x)
     (reservation_by_id L y)"
proof -
  obtain L1 where L1: "record_lease_end C now r key ctx cause reason L = Return L1"
    and L': "\<exists>k d. L' = add_event KReleased k d (update_reservation (r_id r) (\<lambda>r. mark (r\<lparr>r_state := state, r_released_at := Some (isoformat (cfg_env C) now)\<rparr>)) L1)"
    using assms(1) by (auto simp: free_reservation_def res_bind_Inr_iff Let_def dest!: run_release_effect_eq)
  have "reservation_by_id L1 y = reservation_by_id L y" using record_lease_end_eq [OF L1] by (auto intro: by_id_cong)
  with L' show ?thesis by (auto simp: by_id_update assms(2))
qed

lemma free_reservation_returns:
  assumes "release_effect C = None" "lease_end_effect C = None"
  shows "\<exists>L'. free_reservation C now r state key ctx cause reason mark L = Return L'"
proof -
  have "\<exists>L1. record_lease_end C now r key ctx cause reason L = Return L1"
    unfolding record_lease_end_def Let_def using assms(2) by simp
  then obtain L1 where "record_lease_end C now r key ctx cause reason L = Return L1" by blast
  with assms(1) show ?thesis by (simp add: free_reservation_def run_release_effect_def Let_def)
qed

lemma find_by_id: "rid \<noteq> [] \<Longrightarrow> find_reservation L (Some rid) e x = reservation_by_id L rid"
  by (simp add: find_reservation_def is_truthy_def)

text \<open>A release frees exactly the named reservation.  Unforced, it refuses an unmanaged
  reservation and one its release guard holds back, and then changes nothing; otherwise the
  reservation ends released, or force-released when forced, at the time of the call, and
  every other reservation stays as it was.\<close>

theorem release_frees_or_refuses:
  assumes "rid \<noteq> []" "reservation_by_id L rid = Some r" "isheld r" "release_effect C = None" "lease_end_effect C = None"
  shows "if \<not> forced \<and> (r_state r = Unmanaged \<or> \<not> release_permitted C L rid)
     then release C now (Some rid) deal forced fr fm ctx L = (L, Return None)
     else \<exists>L' r'. release C now (Some rid) deal forced fr fm ctx L = (L', Return (Some (reservation_payload_of C r'))) \<and>
       r_state r' = (if forced then Force_released else Released) \<and> r_released_at r' = Some (isoformat (cfg_env C) now) \<and>
       r_dims r' = r_dims r \<and>
       (\<forall>y. reservation_by_id L' y = (if y = rid then Some r' else reservation_by_id L y))"
proof -
  have id: "r_id r = rid" using reservation_by_id_Some [OF assms(2)] by simp
  have st: "r_state r \<notin> {Released, Force_released}" using assms(3) by (auto simp: isheld_def HELD_RESERVATION_STATES_def)
  let ?st = "if forced then Force_released else Released"
  let ?key = "if forced then ''force_release'' else ''end''"
  let ?cause = "if forced then ''force_release'' else ''release''"
  let ?mark = "\<lambda>r :: reservation. r\<lparr>r_failure_reason := fr, r_failure_message := fm\<rparr>"
  obtain L' where L': "free_reservation C now r ?st ?key ctx ?cause (if is_truthy fm then fm else fr) ?mark L = Return L'"
    using free_reservation_returns [OF assms(4,5)] by blast
  let ?r = "?mark (r\<lparr>r_state := ?st, r_released_at := Some (isoformat (cfg_env C) now)\<rparr>)"
  have rows: "reservation_by_id L' y = (if y = rid then Some ?r else reservation_by_id L y)" for y
    using free_reservation_by_id [OF L', of y] assms(2) id by (cases "y = rid") (simp_all add: option.map_ident)
  show ?thesis
  proof (cases "\<not> forced \<and> (r_state r = Unmanaged \<or> \<not> release_permitted C L rid)")
    case True
    with assms(1-3) id st show ?thesis
      by (auto simp: release_def release_in_tx_def Let_def find_by_id run_tx_def)
  next
    case False
    have "release_in_tx C now (Some rid) deal forced fr fm ctx L = Return (L', payload_by_id C L' rid)"
      using False assms(1-3) id st L' by (auto simp: release_in_tx_def Let_def find_by_id)
    then have "release C now (Some rid) deal forced fr fm ctx L = (L', Return (Some (reservation_payload_of C ?r)))"
      using rows by (simp add: release_def run_tx_def payload_by_id_def)
    then show ?thesis unfolding if_not_P [OF False] using rows
      by (intro exI [of _ L'] exI [of _ ?r]) simp
  qed
qed

theorem release_frees_or_refuses_witness:
  "\<exists>L' r'. release ex_config 4 (Some ''u'') [] True None None [] ex_held = (L', Return (Some (reservation_payload_of ex_config r'))) \<and> r_state r' = Force_released"
proof -
  have "case reservation_by_id ex_held ''u'' of Some r \<Rightarrow> isheld r | None \<Rightarrow> False" by code_simp
  then obtain r where r: "reservation_by_id ex_held ''u'' = Some r" "isheld r" by (auto split: option.splits)
  have c: "release_effect ex_config = None" "lease_end_effect ex_config = None" by (simp_all add: ex_config_def)
  from release_frees_or_refuses [OF _ r c, of True 4 "[]" None None "[]"] show ?thesis by auto
qed

text \<open>Truncating a lease only ever moves its end earlier.  When the call answers, the
  reservation was leased, its recorded end is the requested instant, which is not later than
  the end it had, and nothing else of any reservation changed; otherwise nothing changed.\<close>

theorem truncate_only_shortens:
  assumes "rid \<noteq> []" "truncate_lease C rid lease_end_utc L = (L', x)"
  shows "(L' = L \<and> x = Return None) \<or>
    (\<exists>r t. reservation_by_id L rid = Some r \<and> r_state r = Leased \<and> parse_utc (cfg_env C) (Some lease_end_utc) = Some t \<and>
       (\<forall>u. parse_utc (cfg_env C) (r_lease_end r) = Some u \<longrightarrow> t \<le> u) \<and>
       x = Return (Some (reservation_payload_of C (r\<lparr>r_lease_end := Some lease_end_utc\<rparr>))) \<and>
       (\<forall>y. reservation_by_id L' y = (if y = rid then Some (r\<lparr>r_lease_end := Some lease_end_utc\<rparr>) else reservation_by_id L y)))"
proof (cases "L' = L \<and> x = Return None")
  case False
  then obtain r where r: "reservation_by_id L rid = Some r"
    using assms by (auto simp: truncate_lease_def find_by_id split: option.splits)
  then have id: "r_id r = rid" using reservation_by_id_Some by blast
  from r False assms obtain t where t: "r_state r = Leased" "parse_utc (cfg_env C) (Some lease_end_utc) = Some t"
      "\<forall>u. parse_utc (cfg_env C) (r_lease_end r) = Some u \<longrightarrow> t \<le> u"
    by (auto simp: truncate_lease_def find_by_id split: option.splits if_splits)
  define L1 where "L1 = update_reservation rid (\<lambda>r. r\<lparr>r_lease_end := Some lease_end_utc\<rparr>) L"
  have rows: "reservation_by_id L1 y = (if y = rid then Some (r\<lparr>r_lease_end := Some lease_end_utc\<rparr>) else reservation_by_id L y)" for y
    using r by (cases "y = rid") (simp_all add: L1_def by_id_update option.map_ident)
  have "\<not> (case parse_utc (cfg_env C) (r_lease_end r) of None \<Rightarrow> False | Some current \<Rightarrow> t > current)"
    using t(3) by (auto split: option.splits)
  then have "(L', x) = (add_event KLeaseTruncated (backing_resource_id L1 rid) None L1,
      Return (payload_by_id C (add_event KLeaseTruncated (backing_resource_id L1 rid) None L1) rid))"
    using assms r id t(1,2) by (auto simp: truncate_lease_def find_by_id Let_def L1_def)
  with r t rows show ?thesis by (simp add: payload_by_id_def)
qed simp

theorem truncate_only_shortens_witness:
  "\<exists>L' x. truncate_lease ex_config ''u'' ''5'' ex_held = (L', x) \<and> L' = ex_held \<and> x = Return None"
proof -
  obtain L' x where t: "truncate_lease ex_config ''u'' ''5'' ex_held = (L', x)" by (cases "truncate_lease ex_config ''u'' ''5'' ex_held")
  have "map_option r_state (reservation_by_id ex_held ''u'') = Some Reserved" by code_simp
  with truncate_only_shortens [OF _ t] t show ?thesis by auto
qed

lemma resize_in_tx_result:
  assumes "resize_in_tx C now old claim deal ttl requested mode s e L = Return (L', x)"
  obtains "L' = L" "x = None"
  | r L1 b m ca where "reservation_by_id L old = Some r" "isheld r"
    "free_reservation C now r Released ''end'' [] ''superseded'' None (\<lambda>r. r\<lparr>r_failure_reason := Some ''superseded''\<rparr>) L = Return L1"
    "L' = insert_reservation C (new_reservation C now (uuid4 C (drawn L1)) requested ca deal (hold_deadline C now ttl) b mode s e) requested b L1"
    "x = Some (m, uuid4 C (drawn L1), hold_deadline C now ttl, old)"
proof (cases "L' = L \<and> x = None")
  case False
  obtain r where r: "reservation_by_id L old = Some r" "isheld r" "release_permitted C L old"
    using assms False by (auto simp: resize_in_tx_def split: option.splits if_splits)
  obtain L1 where L1: "free_reservation C now r Released ''end'' [] ''superseded'' None (\<lambda>r. r\<lparr>r_failure_reason := Some ''superseded''\<rparr>) L = Return L1"
    using assms r by (auto simp: resize_in_tx_def res_bind_Inr_iff)
  obtain found where m: "find_candidate C L1 claim requested s e = Return found"
    using assms r L1 by (auto simp: resize_in_tx_def res_bind_Inr_iff)
  obtain b av where "found = Some (b, av)"
    using assms False r L1 m by (cases found) (auto simp: resize_in_tx_def)
  with assms r L1 m that(2) [OF r(1,2) L1] show thesis by (auto simp: resize_in_tx_def Let_def)
qed (use that in blast)

text \<open>What one successful resize transaction leaves.\<close>

lemma resize_success:
  assumes C: "runtime_ok C" and i: "ledger_inv C L" and pos: "dims_pos requested"
    and tx: "resize_in_tx C now old claim deal ttl requested mode s e L = Return (L', Some (m, rid, hold, old'))"
  shows "old' = old \<and> (\<exists>r n. reservation_by_id L' old = Some r \<and> r_state r = Released \<and> r_failure_reason r = Some ''superseded'' \<and>
     reservation_by_id L' rid = Some n \<and> r_state n = Reserved \<and> r_dims n = serialize_dimensions (cfg_env C) requested \<and>
     r_hold_expires n = hold \<and> rid \<noteq> old)"
  using tx
proof (cases rule: resize_in_tx_result)
  case (2 r L1 b m' ca)
  let ?n = "new_reservation C now (uuid4 C (drawn L1)) requested ca deal (hold_deadline C now ttl) b mode s e"
  have id: "r_id r = old" using reservation_by_id_Some [OF 2(1)] by simp
  have i1: "ledger_inv C L1" by (rule quiet_inv [OF free_superseded_quiet [OF inv_ids [OF i] 2(1,2,3)] i])
  have inv: "ledger_inv C L'" unfolding 2(4) using insert_lawful [OF C i1 pos] by (simp add: lawful_def)
  have rows: "reservations L' = reservations L1 @ [?n]" by (simp add: 2(4) insert_reservation_def add_event_def)
  define sup where "sup = r\<lparr>r_state := Released, r_released_at := Some (isoformat (cfg_env C) now), r_failure_reason := Some ''superseded''\<rparr>"
  have "reservation_by_id L1 old = Some sup"
    using free_reservation_by_id [OF 2(3), of old] 2(1) id by (simp add: sup_def)
  then have o: "sup \<in> set (reservations L1)" "r_id sup = old" using reservation_by_id_Some by blast+
  have "reservation_by_id L' old = Some sup" using reservation_by_id_mem [OF inv_ids [OF inv], of sup] rows o by simp
  moreover have "reservation_by_id L' (uuid4 C (drawn L1)) = Some ?n"
    using reservation_by_id_mem [OF inv_ids [OF inv], of ?n] rows by (simp add: new_reservation_def)
  moreover have "uuid4 C (drawn L1) \<noteq> old" using fresh_row [OF C i1] o by force
  ultimately show ?thesis using 2(5) by (simp add: sup_def new_reservation_def)
qed simp

text \<open>C6: a resize is all or nothing.  When it does not answer a new hold, the ledger is the one
  the sweep of stale holds left, or the given one when the request was refused before it:
  the old reservation keeps its capacity.  When it answers, the old reservation is released
  as superseded and the new one is reserved with the requested quantity, in one transaction.\<close>

theorem resize_all_or_nothing:
  assumes "runtime_ok C" "ledger_inv C L"
    and "resize_reservation C now old claim deal ttl_us lease_start_utc lease_duration_seconds L = (L', x)"
  shows "(case x of
     Inr (Some (m, rid, hold, old')) \<Rightarrow> old' = old \<and>
       (\<exists>r n requested. reservation_by_id L' old = Some r \<and> r_state r = Released \<and> r_failure_reason r = Some ''superseded'' \<and>
          requested_dimensions (cfg_env C) claim (unit_claim_keys C) (mirror_dimension C) = Return requested \<and>
          reservation_by_id L' rid = Some n \<and> r_state n = Reserved \<and>
          r_dims n = serialize_dimensions (cfg_env C) requested \<and> r_hold_expires n = hold \<and> rid \<noteq> old)
   | _ \<Rightarrow> L' = L \<or> expire_stale_holds C now L = Return L')"
proof (cases "\<exists>y. x = Return (Some y)")
  case False
  have "L' = L \<or> expire_stale_holds C now L = Return L'"
  proof (cases "parse_request C now claim lease_start_utc lease_duration_seconds")
    case (Inr p)
    obtain requested mode s e where p: "p = (requested, mode, s, e)" by (cases p)
    show ?thesis
    proof (cases "expire_stale_holds C now L")
      case (Inr L1)
      have tx: "run_tx L1 (resize_in_tx C now old claim deal ttl_us requested mode s e L1) = (L', x)"
        using assms(3) \<open>parse_request _ _ _ _ _ = _\<close> p Inr by (simp add: resize_reservation_def with_expired_def)
      have "L' = L1"
      proof (cases "resize_in_tx C now old claim deal ttl_us requested mode s e L1")
        case (Inr z)
        obtain L2 y where z: "z = (L2, y)" by (cases z)
        with tx Inr have "L' = L2" "x = Return y" by (simp_all add: run_tx_def)
        with False resize_in_tx_result [OF Inr [unfolded z]] show ?thesis by blast
      qed (use tx in \<open>simp add: run_tx_def\<close>)
      with Inr show ?thesis by simp
    qed (use assms(3) \<open>parse_request _ _ _ _ _ = _\<close> p in \<open>simp add: resize_reservation_def with_expired_def\<close>)
  qed (use assms(3) in \<open>simp add: resize_reservation_def\<close>)
  with False show ?thesis by (auto split: sum.splits option.splits)
next
  case True
  then obtain m rid hold old' where x: "x = Return (Some (m, rid, hold, old'))" by auto
  obtain requested mode s e L1 where p: "parse_request C now claim lease_start_utc lease_duration_seconds = Return (requested, mode, s, e)"
    and L1: "expire_stale_holds C now L = Return L1"
    and tx: "run_tx L1 (resize_in_tx C now old claim deal ttl_us requested mode s e L1) = (L', x)"
    using assms(3) x by (auto simp: resize_reservation_def with_expired_def split: sum.splits)
  have i1: "ledger_inv C L1" by (rule quiet_inv [OF expire_stale_holds_quiet [OF inv_ids [OF assms(2)] L1] assms(2)])
  from tx x have y: "resize_in_tx C now old claim deal ttl_us requested mode s e L1 = Return (L', Some (m, rid, hold, old'))"
    by (auto simp: run_tx_def split: sum.splits)
  note pr = parse_request_Some [OF p]
  from resize_success [OF assms(1) i1 _ y] pr x show ?thesis by auto
qed

theorem resize_all_or_nothing_witness:
  "\<exists>m rid hold r. snd (resize_reservation ex_config 3 ''u'' ex_claim ex_deal None None None ex_held) = Return (Some (m, rid, hold, ''u'')) \<and>
     reservation_by_id (fst (resize_reservation ex_config 3 ''u'' ex_claim ex_deal None None None ex_held)) ''u'' = Some r \<and> r_state r = Released"
proof -
  let ?R = "resize_reservation ex_config 3 ''u'' ex_claim ex_deal None None None ex_held"
  have "case snd ?R of Inr (Some (m, rid, hold, old)) \<Rightarrow> True | _ \<Rightarrow> False" by code_simp
  then obtain m rid hold old where r: "snd ?R = Return (Some (m, rid, hold, old))" by (auto split: sum.splits option.splits)
  obtain L' x where R: "?R = (L', x)" by (cases ?R)
  with r have "x = Return (Some (m, rid, hold, old))" by simp
  with resize_all_or_nothing [OF ex_runtime ex_held_ok R] R show ?thesis by auto
qed

section \<open>The change feed\<close>

lemma feed_nth: "feed_ok L \<Longrightarrow> i < length (events L) \<Longrightarrow> ev_version (events L ! i) = Suc i"
proof -
  assume f: "feed_ok L" and i: "i < length (events L)"
  have "map ev_version (events L) ! i = [1..<Suc (length (events L))] ! i" using f by (simp only: feed_ok_def)
  with i show ?thesis by (simp del: upt_Suc)
qed

lemma feed_after:
  assumes "feed_ok L"
  shows "filter (\<lambda>e. v < ev_version e) (events L) = drop v (events L)"
proof -
  have "filter (\<lambda>e. v < ev_version e) (take v (events L)) = []"
    using feed_nth [OF assms] by (auto simp: filter_empty_conv in_set_conv_nth)
  moreover have "filter (\<lambda>e. v < ev_version e) (drop v (events L)) = drop v (events L)"
    using feed_nth [OF assms] by (auto simp: filter_id_conv in_set_conv_nth)
  ultimately show ?thesis by (metis append_take_drop_id filter_append append_Nil)
qed

lemma feed_sorted: "feed_ok L \<Longrightarrow> sort_key ev_version (drop v (events L)) = drop v (events L)"
proof (rule sort_key_id_if_sorted)
  assume "feed_ok L"
  then have "map ev_version (drop v (events L)) = drop v [1..<Suc (length (events L))]"
    by (simp add: feed_ok_def flip: drop_map)
  then show "sorted (map ev_version (drop v (events L)))" by (simp add: sorted_wrt_drop del: upt_Suc)
qed

text \<open>A consumer that has seen the feed up to a version gets exactly the events after it, in
  order and up to its limit, with the current version: on every reachable ledger the answer
  is the slice of the feed that starts at that version.\<close>

theorem events_after_is_slice:
  assumes "runtime_ok C" "ledger_inv C L"
  shows "events_after v n (run_ledger C ps L) = (take n (drop v (events (run_ledger C ps L))), length (events (run_ledger C ps L)))"
proof -
  have f: "feed_ok (run_ledger C ps L)" using run_inv [OF assms] by (simp add: ledger_inv_def)
  have "ev_version ` set (events (run_ledger C ps L)) = set [1..<Suc (length (events (run_ledger C ps L)))]"
    using f unfolding feed_ok_def by (metis set_map)
  then have "Max (insert 0 (ev_version ` set (events (run_ledger C ps L)))) = length (events (run_ledger C ps L))"
    by (cases "events (run_ledger C ps L) = []") (auto simp: Suc_le_eq simp del: upt_Suc intro!: Max_eqI)
  then show ?thesis using feed_after [OF f] feed_sorted [OF f] by (simp add: events_after_def)
qed

theorem events_after_is_slice_witness:
  "events_after 1 10 (run_ledger ex_config [] ex_held) = (drop 1 (events ex_held), 2)"
proof -
  have "length (events ex_held) = 2" by code_simp
  with events_after_is_slice [OF ex_runtime ex_held_ok, of 1 10 "[]"] show ?thesis by (simp add: run_ledger_def)
qed

section \<open>Admission and commitment\<close>

lemma mode_optional: "requested_offering_mode claim True = Return (Some m) \<Longrightarrow> requested_offering_mode claim False = Return (Some m)"
  by (auto simp: requested_offering_mode_def split: pyval.splits if_splits)

lemma reserve_in_tx_fresh:
  assumes "reserve_in_tx C now claim deal ttl requested md s e L = Return (L', Some (Fresh m rid hold mode))"
  obtains b av ca where "find_candidate C L claim requested s e = Return (Some (b, av))"
    "L' = insert_reservation C (new_reservation C now (uuid4 C (drawn L)) requested ca deal (hold_deadline C now ttl) b md s e) requested b L"
    "rid = uuid4 C (drawn L)" "mode = Some md"
proof -
  have none: "(if is_truthy (deal_escrow_uid deal) then find_reservation L None (deal_escrow_uid deal) None else None) = None"
    using assms by (auto simp: reserve_in_tx_def Let_def reservation_payload_for_reserve_def split: option.splits if_splits)
  obtain found where found: "find_candidate C L claim requested s e = Return found"
    using assms none by (auto simp: reserve_in_tx_def Let_def res_bind_Inr_iff)
  with assms none that show thesis by (cases found) (auto simp: reserve_in_tx_def Let_def)
qed

text \<open>C5: a fresh hold is only ever placed on a resource that can carry it: enabled, in a pool
  that declares the claimed offering mode, without an exclusive-use conflict on its physical
  host in the requested window, and with at least the requested amount of every dimension
  left after everything already held in that window; the hold is debited to that resource.\<close>

theorem fresh_hold_is_admissible:
  assumes "runtime_ok C" "ledger_inv C L"
    and "reserve C now claim deal ttl_us lease_start_utc lease_duration_seconds L = (L', Return (Some (Fresh m rid hold mode)))"
  shows "\<exists>L1 b requested s e md d. expire_stale_holds C now L = Return L1 \<and> mode = Some md \<and>
     requested_dimensions (cfg_env C) claim (unit_claim_keys C) (mirror_dimension C) = Return requested \<and>
     lease_window (cfg_env C) now lease_start_utc lease_duration_seconds None = Return (s, e) \<and>
     b \<in> set (buckets L1) \<and> cb_enabled b \<and> pool_declares_mode L1 b md = Return True \<and>
     \<not> has_physical_host_conflict C L1 b s e None \<and>
     (\<forall>(k, q) \<in> set requested. q \<le> dim (resource_capacity (mirror_dimension C) b) k - dim (held_dimensions C L1 (cb_resource b) s e) k) \<and>
     debit_for_reservation L' rid = Some d \<and> de_bucket d = cb_id b"
proof -
  from assms(3) obtain requested md s e L1 where p: "parse_request C now claim lease_start_utc lease_duration_seconds = Return (requested, md, s, e)"
    and L1: "expire_stale_holds C now L = Return L1"
    and tx: "reserve_in_tx C now claim deal ttl_us requested md s e L1 = Return (L', Some (Fresh m rid hold mode))"
    by (auto simp: reserve_def with_expired_def run_tx_def split: sum.splits)
  note pr = parse_request_Some [OF p]
  have i1: "ledger_inv C L1" by (rule quiet_inv [OF expire_stale_holds_quiet [OF inv_ids [OF assms(2)] L1] assms(2)])
  obtain b av ca where f: "find_candidate C L1 claim requested s e = Return (Some (b, av))"
      "L' = insert_reservation C (new_reservation C now (uuid4 C (drawn L1)) requested ca deal (hold_deadline C now ttl_us) b md s e) requested b L1"
      "rid = uuid4 C (drawn L1)" "mode = Some md"
    by (rule reserve_in_tx_fresh [OF tx])
  have a: "admitted C L1 claim requested (Some md) s e b"
    using find_candidate_admitted [OF f(1)] mode_optional [of claim md] pr by auto
  have fresh: "uuid4 C (drawn L1) \<notin> de_reservation ` set (debits L1)"
    using fresh_row [OF assms(1) i1] i1 by (auto simp: ledger_inv_def)
  have none: "find (\<lambda>d. de_reservation d = uuid4 C (drawn L1)) (debits L1) = None"
    using fresh by (force simp: find_None_iff)
  have find_app: "find P xs = None \<Longrightarrow> find P (xs @ [y]) = (if P y then Some y else None)" for P xs and y :: debit
    by (induction xs) (auto split: if_splits)
  have d: "debit_for_reservation L' rid = Some \<lparr>de_reservation = rid, de_bucket = cb_id b, de_dims = serialize_dimensions (cfg_env C) requested\<rparr>"
    by (simp add: debit_for_reservation_def f(2,3) insert_reservation_def add_event_def find_app [OF none] new_reservation_def)
  have room: "\<forall>(k, q) \<in> set requested. q \<le> dim (resource_capacity (mirror_dimension C) b) k - dim (held_dimensions C L1 (cb_resource b) s e) k"
    using admitted_room [OF a] pr by blast
  show ?thesis
    using L1 f(4) pr a d room
    by (intro exI [of _ L1] exI [of _ b] exI [of _ requested] exI [of _ s] exI [of _ e] exI [of _ md] exI) (auto simp: admitted_def)
qed

theorem fresh_hold_is_admissible_witness:
  "\<exists>m hold d. snd (reserve ex_config 0 ex_claim ex_deal None None None ex_site) = Return (Some (Fresh m ''u'' hold (Some ''vm''))) \<and>
     debit_for_reservation ex_held ''u'' = Some d"
proof -
  have "case snd (reserve ex_config 0 ex_claim ex_deal None None None ex_site) of
      Inr (Some (Fresh m rid hold mode)) \<Rightarrow> rid = ''u'' \<and> mode = Some ''vm'' | _ \<Rightarrow> False" by code_simp
  then obtain m hold where s: "snd (reserve ex_config 0 ex_claim ex_deal None None None ex_site) = Return (Some (Fresh m ''u'' hold (Some ''vm'')))"
    by (auto split: sum.splits option.splits reserve_payload.splits)
  have "fst (reserve ex_config 0 ex_claim ex_deal None None None ex_site) = ex_held" by (simp add: ex_held_def exec_def)
  with s have r: "reserve ex_config 0 ex_claim ex_deal None None None ex_site = (ex_held, Return (Some (Fresh m ''u'' hold (Some ''vm''))))"
    by (metis prod.collapse)
  from fresh_hold_is_admissible [OF ex_runtime ex_site_ok r] s show ?thesis by blast
qed

text \<open>The row a commit starts from: the deal's escrow fills an absent one.\<close>

definition with_escrow :: "(string \<times> pyval) list \<Rightarrow> reservation \<Rightarrow> reservation" where
  "with_escrow deal r = (if is_truthy (deal_escrow_uid deal) \<and> \<not> is_truthy (r_escrow r) then r\<lparr>r_escrow := deal_escrow_uid deal\<rparr> else r)"

text \<open>C8: a commit turns a hold into a lease: the hold deadline goes, the lease end is the stated
  one or the reserved one, and the quantity stays.  Committing a lease again changes nothing
  but an absent escrow and publishes no event; a reservation that is being released, failed
  to release, is unmanaged or has ended is refused and nothing changes.\<close>

theorem commit_outcome:
  assumes "rid \<noteq> []" "reservation_by_id L rid = Some r" "lease_window (cfg_env C) now lease_start_utc None lease_end_utc = Return (ws, we)"
  shows "(case r_state r of
     Reserved \<Rightarrow> (\<exists>L' r'. commit C now res (Some rid) lease_start_utc lease_end_utc deal L = (L', Return (Some (reservation_payload_of C r'))) \<and>
        r_state r' = Leased \<and> r_hold_expires r' = None \<and> r_dims r' = r_dims r \<and>
        r_lease_end r' = (if we \<noteq> None then lease_end_utc else r_lease_end r) \<and>
        (\<forall>y. reservation_by_id L' y = (if y = rid then Some r' else reservation_by_id L y)))
   | Leased \<Rightarrow> (\<exists>L'. commit C now res (Some rid) lease_start_utc lease_end_utc deal L = (L', Return (Some (reservation_payload_of C (with_escrow deal r)))) \<and>
        events L' = events L \<and> (\<forall>y. reservation_by_id L' y = (if y = rid then Some (with_escrow deal r) else reservation_by_id L y)))
   | _ \<Rightarrow> commit C now res (Some rid) lease_start_utc lease_end_utc deal L = (L, Raise (CannotCommit rid)))"
proof -
  have id: "r_id r = rid" using reservation_by_id_Some [OF assms(2)] by simp
  define L1 where "L1 = (if is_truthy (deal_escrow_uid deal) \<and> \<not> is_truthy (r_escrow r)
      then update_reservation rid (\<lambda>r. r\<lparr>r_escrow := deal_escrow_uid deal\<rparr>) L else L)"
  have rows1: "reservation_by_id L1 y = (if y = rid then Some (with_escrow deal r) else reservation_by_id L y)" for y
    using assms(2) by (cases "y = rid") (simp_all add: L1_def with_escrow_def by_id_update option.map_ident)
  have ev1: "events L1 = events L" by (simp add: L1_def update_reservation_def)
  define lease where "lease = (\<lambda>r :: reservation. r\<lparr>r_state := Leased, r_lease_end := (if we \<noteq> None then lease_end_utc else r_lease_end r),
      r_hold_expires := None, r_lease_start := (case ws of Some s \<Rightarrow> Some (isoformat (cfg_env C) s)
        | None \<Rightarrow> if is_truthy (r_lease_start r) then r_lease_start r else Some (isoformat (cfg_env C) now))\<rparr>)"
  have tx: "commit C now res (Some rid) lease_start_utc lease_end_utc deal L =
      run_tx L (commit_in_tx C now res (Some rid) lease_end_utc ws we deal L)"
    using assms(3) by (simp add: commit_def)
  have find: "find_reservation L (Some rid) None None = Some r" using assms(1,2) by (simp add: find_by_id)
  show ?thesis
  proof (cases "r_state r")
    case Reserved
    define L2 where "L2 = update_reservation rid lease L1"
    have rows2: "reservation_by_id L2 y = (if y = rid then Some (lease (with_escrow deal r)) else reservation_by_id L y)" for y
      using rows1 by (cases "y = rid") (simp_all add: L2_def by_id_update lease_def option.map_ident)
    define L3 where "L3 = add_event KCommitted (backing_resource_id L2 rid) None L2"
    have "commit_in_tx C now res (Some rid) lease_end_utc ws we deal L = Return (L3, payload_by_id C L3 rid)"
      using find Reserved id assms(1)
      by (simp add: commit_in_tx_def Let_def is_truthy_def [of "Some rid"] isheld_def HELD_RESERVATION_STATES_def COMMIT_REFUSED_STATES_def
          L1_def L2_def L3_def lease_def)
    then have "commit C now res (Some rid) lease_start_utc lease_end_utc deal L = (L3, Return (Some (reservation_payload_of C (lease (with_escrow deal r)))))"
      using rows2 by (simp add: tx run_tx_def payload_by_id_def L3_def)
    moreover have "r_state (lease (with_escrow deal r)) = Leased" "r_hold_expires (lease (with_escrow deal r)) = None"
      "r_dims (lease (with_escrow deal r)) = r_dims r" "r_lease_end (lease (with_escrow deal r)) = (if we \<noteq> None then lease_end_utc else r_lease_end r)"
      by (simp_all add: lease_def with_escrow_def)
    ultimately show ?thesis using rows2 Reserved by (simp add: L3_def)
  next
    case Leased
    have "commit_in_tx C now res (Some rid) lease_end_utc ws we deal L = Return (L1, payload_by_id C L1 rid)"
      using find Leased id assms(1)
      by (simp add: commit_in_tx_def Let_def is_truthy_def [of "Some rid"] isheld_def HELD_RESERVATION_STATES_def COMMIT_REFUSED_STATES_def L1_def)
    then show ?thesis using rows1 ev1 Leased by (simp add: tx run_tx_def payload_by_id_def)
  qed (use find id assms(1) in \<open>simp_all add: tx run_tx_def commit_in_tx_def is_truthy_def [of "Some rid"] isheld_def HELD_RESERVATION_STATES_def COMMIT_REFUSED_STATES_def\<close>)
qed

theorem commit_outcome_witness:
  "\<exists>L' r'. commit ex_config 5 None (Some ''u'') None None [] ex_held = (L', Return (Some (reservation_payload_of ex_config r'))) \<and> r_state r' = Leased"
proof -
  have "case reservation_by_id ex_held ''u'' of Some r \<Rightarrow> r_state r = Reserved | None \<Rightarrow> False" by code_simp
  then obtain r where r: "reservation_by_id ex_held ''u'' = Some r" "r_state r = Reserved" by (auto split: option.splits)
  have w: "lease_window (cfg_env ex_config) 5 None None None = Return (None, None)" by code_simp
  from commit_outcome [OF _ r(1) w, of None "[]"] r(2) show ?thesis by auto
qed

section \<open>Two limits of these guarantees\<close>

text \<open>A release of an unmanaged reservation needs force; a resize of one does not: it frees the
  reservation an operator had taken over and places a new hold.\<close>

theorem resize_frees_unmanaged_example:
  "let L = run_ledger ex_config [Commit 1 None (Some ''u'') None None [], Mark_Unmanaged ''u'' ''operator'' None] ex_held in
     map r_state (reservations L) = [Unmanaged] \<and>
     release ex_config 2 (Some ''u'') [] False None None [] L = (L, Return None) \<and>
     map r_state (reservations (fst (resize_reservation ex_config 2 ''u'' ex_claim ex_deal None None None L))) = [Released, Reserved]"
  by code_simp

definition ex_whole :: claim where
  "ex_whole = [(''units'', PInt 2), (''offering_mode'', PStr ''vm'')]"

text \<open>A commit adopts the lease end it is given without asking whether the capacity is free until
  then.  Two holds of the whole resource in adjacent windows, the first committed to the end
  of the second, hold twice the declared capacity during the second window.\<close>

theorem commit_can_widen_example:
  "let ps = [Register 0 ex_capacity, Reserve 0 ex_whole [] None (Some ''t0'') (Some 1), Reserve 0 ex_whole [] None (Some ''t1'') (Some 1)];
       held = (\<lambda>ps. held_by ex_clock (run_ledger ex_clock ps (empty_ledger ex_pools)) (occupies (cfg_env ex_clock) 1000000) [] ''units'') in
     held ps = 2 \<and> held (ps @ [Commit 0 None (Some ''u'') (Some ''t0'') (Some ''t2'') []]) = 4"
  by code_simp

end
