(* ===== verification/Market_Identity.thy ===== *)
theory Market_Identity
  imports Prelude
begin

text \<open>
  The identity kit's public contracts and canonical bytes,
  \<open>src/kit/identity/src/market_identity/models.py\<close> and \<open>canonical.py\<close>: scheme-tagged
  principals, signature proofs, request, response and rotation envelopes, and the framing
  that turns an envelope into the bytes that are signed.

  A contract model is a record with a constructor that applies the field constraints and
  validators of the source and either returns the (normalised) record or raises with the
  names of the refused fields.  Bytes are lists of characters.  The hash function, the
  canonical JSON of a body and the signature algorithms come from other packages and are
  parameters.
\<close>

section \<open>Text and bytes\<close>

definition ch_in :: "nat \<Rightarrow> nat \<Rightarrow> char \<Rightarrow> bool" where
  "ch_in a b c = (a \<le> (of_char c :: nat) \<and> (of_char c :: nat) \<le> b)"

definition is_upper :: "char \<Rightarrow> bool" where "is_upper c = ch_in 65 90 c"
definition is_lower_case :: "char \<Rightarrow> bool" where "is_lower_case c = ch_in 97 122 c"
definition is_letter :: "char \<Rightarrow> bool" where "is_letter c = (is_upper c \<or> is_lower_case c)"
definition is_alnum :: "char \<Rightarrow> bool" where "is_alnum c = (is_letter c \<or> is_digit c)"
definition is_hex :: "char \<Rightarrow> bool" where "is_hex c = (is_digit c \<or> ch_in 65 70 c \<or> ch_in 97 102 c)"
definition is_lower_hex :: "char \<Rightarrow> bool" where "is_lower_hex c = (is_digit c \<or> ch_in 97 102 c)"

text \<open>\<open>str.lower\<close> and \<open>str.upper\<close> on ASCII text.\<close>

definition lower_char :: "char \<Rightarrow> char" where
  "lower_char c = (if is_upper c then char_of ((of_char c :: nat) + 32) else c)"

definition upper_char :: "char \<Rightarrow> char" where
  "upper_char c = (if is_lower_case c then char_of ((of_char c :: nat) - 32) else c)"

definition ascii_lower :: "string \<Rightarrow> string" where "ascii_lower s = map lower_char s"
definition ascii_upper :: "string \<Rightarrow> string" where "ascii_upper s = map upper_char s"

text \<open>\<open>text.encode("utf-8")\<close> on code points below 256.\<close>

definition utf8_char :: "char \<Rightarrow> string" where
  "utf8_char c = (let n = (of_char c :: nat) in
     if n < 128 then [c] else [char_of (192 + n div 64), char_of (128 + n mod 64)])"

definition utf8 :: "string \<Rightarrow> string" where
  "utf8 s = concat (map utf8_char s)"

text \<open>\<open>n.to_bytes(4, byteorder="big")\<close> for a length below 2 to the 32.\<close>

definition be4 :: "nat \<Rightarrow> string" where
  "be4 n = [char_of (n div 16777216), char_of (n div 65536 mod 256), char_of (n div 256 mod 256), char_of (n mod 256)]"

section \<open>Hexadecimal and base64url text\<close>

text \<open>\<open>bytes.hex()\<close>\<close>

definition hex_text :: "string \<Rightarrow> string" where
  "hex_text raw = concat (map (\<lambda>b. [hex_digit (of_char b div 16), hex_digit (of_char b mod 16)]) raw)"

definition hex_val :: "char \<Rightarrow> nat" where
  "hex_val c = (let n = (of_char c :: nat) in if n \<le> 57 then n - 48 else if n \<le> 70 then n - 55 else n - 87)"

text \<open>\<open>bytes.fromhex\<close>: pairs of hexadecimal digits, white space between pairs ignored.\<close>

definition hex_space :: "char \<Rightarrow> bool" where
  "hex_space c = ((of_char c :: nat) = 32 \<or> ch_in 9 13 c)"

fun fromhex :: "string \<Rightarrow> string option" where
  "fromhex [] = Some []"
| "fromhex [c] = (if hex_space c then Some [] else None)"
| "fromhex (c # d # cs) =
     (if hex_space c then fromhex (d # cs)
      else if is_hex c \<and> is_hex d then map_option (\<lambda>r. char_of (hex_val c * 16 + hex_val d) # r) (fromhex cs)
      else None)"

definition b64_char :: "nat \<Rightarrow> char" where
  "b64_char n = (if n < 26 then char_of (65 + n) else if n < 52 then char_of (71 + n)
     else if n < 62 then char_of (n - 4) else if n = 62 then CHR ''-'' else CHR ''_'')"

definition is_b64 :: "char \<Rightarrow> bool" where
  "is_b64 c = (is_alnum c \<or> c = CHR ''_'' \<or> c = CHR ''-'')"

definition b64_val :: "char \<Rightarrow> nat" where
  "b64_val c = (let n = (of_char c :: nat) in
     if is_upper c then n - 65 else if is_lower_case c then n - 71 else if is_digit c then n + 4
     else if c = CHR ''-'' then 62 else 63)"

text \<open>\<open>urlsafe_b64encode(value).rstrip(b"=")\<close>: three bytes become four characters.\<close>

fun sextets :: "nat list \<Rightarrow> nat list" where
  "sextets [] = []"
| "sextets [a] = [a div 4, (a mod 4) * 16]"
| "sextets [a, b] = [a div 4, (a mod 4) * 16 + b div 16, (b mod 16) * 4]"
| "sextets (a # b # c # bs) =
     (a div 4) # ((a mod 4) * 16 + b div 16) # ((b mod 16) * 4 + c div 64) # (c mod 64) # sextets bs"

definition encode_base64url :: "string \<Rightarrow> string" where
  "encode_base64url raw = map b64_char (sextets (map of_char raw))"

text \<open>The decoder ignores the unused bits of the last character; one character alone is refused.\<close>

fun octets :: "nat list \<Rightarrow> nat list option" where
  "octets [] = Some []"
| "octets [w] = None"
| "octets [w, x] = Some [w * 4 + x div 16]"
| "octets [w, x, y] = Some [w * 4 + x div 16, (x mod 16) * 16 + y div 4]"
| "octets (w # x # y # z # ss) =
     map_option (\<lambda>r. (w * 4 + x div 16) # ((x mod 16) * 16 + y div 4) # ((y mod 4) * 64 + z) # r) (octets ss)"

datatype contract_error =
    Refused "string list"
  | Not_Base64 string
  | Field_Too_Long
  | Wrong_Signer string
  | Unsupported_Scheme

definition decode_base64url :: "string \<Rightarrow> string \<Rightarrow> (contract_error, string) result" where
  "decode_base64url field value =
     (if value = [] \<or> \<not> list_all is_b64 value then Raise (Not_Base64 field)
      else if length value > 342 then Raise (Not_Base64 field)
      else (case octets (map b64_val value) of
          None \<Rightarrow> Raise (Not_Base64 field)
        | Some raw \<Rightarrow> Return (map char_of raw)))"

section \<open>Principals\<close>

datatype identity_scheme = EIP191 | ED25519

definition scheme_value :: "identity_scheme \<Rightarrow> string" where
  "scheme_value s = (case s of EIP191 \<Rightarrow> ''eip191'' | ED25519 \<Rightarrow> ''ed25519'')"

definition parse_scheme :: "string \<Rightarrow> identity_scheme option" where
  "parse_scheme s = (if s = ''eip191'' then Some EIP191 else if s = ''ed25519'' then Some ED25519 else None)"

record principal =
  pr_scheme :: identity_scheme
  pr_identifier :: string

definition is_address :: "string \<Rightarrow> bool" where
  "is_address v = (length v = 42 \<and> take 2 v = ''0x'' \<and> list_all is_hex (drop 2 v))"

definition validate_identifier :: "identity_scheme \<Rightarrow> string \<Rightarrow> (contract_error, string) result" where
  "validate_identifier scheme value = (case scheme of
     EIP191 \<Rightarrow> if is_address value then Return (ascii_lower value) else Raise (Refused [''identifier''])
   | ED25519 \<Rightarrow> res_bind (decode_base64url ''ed25519 identifier'' value) (\<lambda>raw.
       if length raw \<noteq> 32 then Raise (Refused [''identifier''])
       else if value \<noteq> encode_base64url raw then Raise (Refused [''identifier''])
       else Return value))"

definition mk_identity :: "identity_scheme \<Rightarrow> string \<Rightarrow> (contract_error, principal) result" where
  "mk_identity scheme identifier =
     (if identifier = [] \<or> length identifier > 128 then Raise (Refused [''identifier''])
      else res_bind (validate_identifier scheme identifier) (\<lambda>v. Return \<lparr>pr_scheme = scheme, pr_identifier = v\<rparr>))"

text \<open>One trust pin, or two while an identity is rotated.\<close>

definition mk_trusted :: "principal list \<Rightarrow> (contract_error, principal list) result" where
  "mk_trusted ps = (if ps = [] \<or> length ps > 2 then Raise (Refused [''identities''])
     else if \<not> distinct ps then Raise (Refused [''identities'']) else Return ps)"

definition allows :: "principal list \<Rightarrow> principal \<Rightarrow> bool" where
  "allows trusted p = (p \<in> set trusted)"

section \<open>Signature proofs\<close>

record signature_proof =
  sp_scheme :: identity_scheme
  sp_value :: string

definition validate_value :: "identity_scheme \<Rightarrow> string \<Rightarrow> (contract_error, unit) result" where
  "validate_value scheme value = (case scheme of
     EIP191 \<Rightarrow>
       if take 2 value \<noteq> ''0x'' then Raise (Refused [''value''])
       else (case fromhex (drop 2 value) of
           None \<Rightarrow> Raise (Refused [''value''])
         | Some raw \<Rightarrow>
             if length raw \<noteq> 65 then Raise (Refused [''value''])
             else if value \<noteq> ''0x'' @ hex_text raw then Raise (Refused [''value'']) else Return ())
   | ED25519 \<Rightarrow> res_bind (decode_base64url ''ed25519 proof'' value) (\<lambda>raw.
       if length raw \<noteq> 64 then Raise (Refused [''value''])
       else if value \<noteq> encode_base64url raw then Raise (Refused [''value'']) else Return ()))"

definition mk_proof :: "identity_scheme \<Rightarrow> string \<Rightarrow> (contract_error, signature_proof) result" where
  "mk_proof scheme value =
     (if value = [] \<or> length value > 132 then Raise (Refused [''value''])
      else res_bind (validate_value scheme value) (\<lambda>_. Return \<lparr>sp_scheme = scheme, sp_value = value\<rparr>))"

definition proof_from_bytes :: "identity_scheme \<Rightarrow> string \<Rightarrow> (contract_error, signature_proof) result" where
  "proof_from_bytes scheme signature = (case scheme of
     EIP191 \<Rightarrow> mk_proof scheme (''0x'' @ hex_text signature)
   | ED25519 \<Rightarrow> mk_proof scheme (encode_base64url signature))"

definition proof_to_bytes :: "signature_proof \<Rightarrow> (contract_error, string) result" where
  "proof_to_bytes p = (case sp_scheme p of
     EIP191 \<Rightarrow> (case fromhex (drop 2 (sp_value p)) of None \<Rightarrow> Raise (Refused [''value'']) | Some raw \<Rightarrow> Return raw)
   | ED25519 \<Rightarrow> decode_base64url ''ed25519 proof'' (sp_value p))"

section \<open>Envelopes\<close>

definition REQUEST_PROTOCOL :: string where "REQUEST_PROTOCOL = ''arkhai.market-request-signature.v2''"
definition RESPONSE_PROTOCOL :: string where "RESPONSE_PROTOCOL = ''arkhai.market-response-signature.v2''"
definition ROTATION_PROTOCOL :: string where "ROTATION_PROTOCOL = ''arkhai.market-identity-rotation.v1''"

definition MAX_INT64 :: int where "MAX_INT64 = 9223372036854775807"

definition token_char :: "char \<Rightarrow> bool" where
  "token_char c = (is_alnum c \<or> c = CHR ''_'' \<or> c = CHR ''.'' \<or> c = CHR '':'' \<or> c = CHR ''-'')"

definition is_token :: "string \<Rightarrow> bool" where
  "is_token s = (case s of [] \<Rightarrow> False | c # cs \<Rightarrow> is_letter c \<and> list_all token_char cs)"

definition is_request_id :: "string \<Rightarrow> bool" where
  "is_request_id s = (case s of [] \<Rightarrow> False | c # cs \<Rightarrow> is_alnum c \<and> list_all token_char cs)"

definition is_sha256 :: "string \<Rightarrow> bool" where
  "is_sha256 s = (length s = 64 \<and> list_all is_lower_hex s)"

definition len_in :: "nat \<Rightarrow> nat \<Rightarrow> string \<Rightarrow> bool" where
  "len_in lo hi s = (lo \<le> length s \<and> length s \<le> hi)"

record request_envelope =
  rq_role :: string
  rq_principal :: principal
  rq_method :: string
  rq_operation :: string
  rq_resource :: string
  rq_request_id :: string
  rq_timestamp :: int
  rq_body_hash :: string

text \<open>The fields the validators of an envelope refuse.\<close>

definition envelope_problems :: "request_envelope \<Rightarrow> string list" where
  "envelope_problems e =
     (if len_in 1 64 (rq_role e) \<and> is_token (rq_role e) then [] else [''role'']) @
     (if len_in 1 32 (rq_method e) \<and> list_all is_letter (rq_method e) then [] else [''method'']) @
     (if len_in 1 128 (rq_operation e) \<and> is_token (rq_operation e) then [] else [''operation'']) @
     (if len_in 0 1024 (rq_resource e) \<and> char_of (0 :: nat) \<notin> set (rq_resource e) then [] else [''resource'']) @
     (if len_in 1 128 (rq_request_id e) \<and> is_request_id (rq_request_id e) then [] else [''request_id'']) @
     (if 0 \<le> rq_timestamp e \<and> rq_timestamp e \<le> MAX_INT64 then [] else [''timestamp'']) @
     (if is_sha256 (rq_body_hash e) then [] else [''body_hash''])"

definition mk_request :: "request_envelope \<Rightarrow> (contract_error, request_envelope) result" where
  "mk_request e = (if envelope_problems e = [] then Return (e\<lparr>rq_method := ascii_upper (rq_method e)\<rparr>)
     else Raise (Refused (envelope_problems e)))"

record auth_request =
  ar_envelope :: request_envelope
  ar_proof :: signature_proof

definition mk_auth_request :: "request_envelope \<Rightarrow> signature_proof \<Rightarrow> (contract_error, auth_request) result" where
  "mk_auth_request e p = res_bind (mk_request e) (\<lambda>e'.
     if sp_scheme p \<noteq> pr_scheme (rq_principal e') then Raise (Refused [''proof''])
     else Return \<lparr>ar_envelope = e', ar_proof = p\<rparr>)"

text \<open>A response carries the fields of a request and a status.\<close>

record response_envelope =
  rs_fields :: request_envelope
  rs_status :: int

definition mk_response :: "response_envelope \<Rightarrow> (contract_error, response_envelope) result" where
  "mk_response e = (let problems = envelope_problems (rs_fields e) @ (if 100 \<le> rs_status e \<and> rs_status e \<le> 599 then [] else [''status'']) in
     if problems = [] then Return (e\<lparr>rs_fields := (rs_fields e)\<lparr>rq_method := ascii_upper (rq_method (rs_fields e))\<rparr>\<rparr>)
     else Raise (Refused problems))"

record auth_response =
  as_envelope :: response_envelope
  as_proof :: signature_proof

definition mk_auth_response :: "response_envelope \<Rightarrow> signature_proof \<Rightarrow> (contract_error, auth_response) result" where
  "mk_auth_response e p = res_bind (mk_response e) (\<lambda>e'.
     if sp_scheme p \<noteq> pr_scheme (rq_principal (rs_fields e')) then Raise (Refused [''proof''])
     else Return \<lparr>as_envelope = e', as_proof = p\<rparr>)"

record rotation_intent =
  ri_current :: principal
  ri_replacement :: principal
  ri_subject :: string
  ri_authority :: string
  ri_nonce :: string
  ri_overlap :: int
  ri_expires :: int

definition plain_text :: "nat \<Rightarrow> string \<Rightarrow> bool" where
  "plain_text hi s = (len_in 1 hi s \<and> char_of (0 :: nat) \<notin> set s)"

definition mk_rotation :: "rotation_intent \<Rightarrow> (contract_error, rotation_intent) result" where
  "mk_rotation i =
     (let problems = (if plain_text 256 (ri_subject i) then [] else [''subject'']) @
        (if plain_text 256 (ri_authority i) then [] else [''authority'']) @
        (if plain_text 128 (ri_nonce i) then [] else [''nonce'']) @
        (if 0 \<le> ri_overlap i \<and> ri_overlap i \<le> 2592000 then [] else [''overlap_seconds'']) @
        (if 0 < ri_expires i \<and> ri_expires i \<le> MAX_INT64 then [] else [''expires_at'']) in
      if problems \<noteq> [] then Raise (Refused problems)
      else if ri_current i = ri_replacement i then Raise (Refused [''replacement'']) else Return i)"

record rotation_request =
  rr_intent :: rotation_intent
  rr_current_proof :: signature_proof
  rr_replacement_proof :: signature_proof

definition mk_rotation_request ::
    "rotation_intent \<Rightarrow> signature_proof \<Rightarrow> signature_proof \<Rightarrow> (contract_error, rotation_request) result" where
  "mk_rotation_request i c r =
     (if sp_scheme c \<noteq> pr_scheme (ri_current i) then Raise (Refused [''current_proof''])
      else if sp_scheme r \<noteq> pr_scheme (ri_replacement i) then Raise (Refused [''replacement_proof''])
      else Return \<lparr>rr_intent = i, rr_current_proof = c, rr_replacement_proof = r\<rparr>)"

section \<open>Canonical bytes\<close>

definition MAX_CANONICAL_FIELD_BYTES :: nat where "MAX_CANONICAL_FIELD_BYTES = 4096"

fun frame_fields :: "string list \<Rightarrow> (contract_error, string) result" where
  "frame_fields [] = Return []"
| "frame_fields (f # fs) =
     (let encoded = utf8 f in
      if length encoded > MAX_CANONICAL_FIELD_BYTES then Raise Field_Too_Long
      else res_bind (frame_fields fs) (\<lambda>rest. Return (be4 (length encoded) @ encoded @ rest)))"

definition request_fields :: "request_envelope \<Rightarrow> string list" where
  "request_fields e = [REQUEST_PROTOCOL, rq_role e, scheme_value (pr_scheme (rq_principal e)), pr_identifier (rq_principal e),
     rq_method e, rq_operation e, rq_resource e, rq_request_id e, int_str (rq_timestamp e), rq_body_hash e]"

definition canonical_request_bytes :: "request_envelope \<Rightarrow> (contract_error, string) result" where
  "canonical_request_bytes e = frame_fields (request_fields e)"

definition response_fields :: "response_envelope \<Rightarrow> string list" where
  "response_fields e = (let f = rs_fields e in
     [RESPONSE_PROTOCOL, rq_role f, scheme_value (pr_scheme (rq_principal f)), pr_identifier (rq_principal f),
      rq_method f, rq_operation f, rq_resource f, rq_request_id f, int_str (rq_timestamp f), int_str (rs_status e), rq_body_hash f])"

definition canonical_response_bytes :: "response_envelope \<Rightarrow> (contract_error, string) result" where
  "canonical_response_bytes e = frame_fields (response_fields e)"

definition rotation_fields :: "rotation_intent \<Rightarrow> string list" where
  "rotation_fields i = [ROTATION_PROTOCOL, scheme_value (pr_scheme (ri_current i)), pr_identifier (ri_current i),
     scheme_value (pr_scheme (ri_replacement i)), pr_identifier (ri_replacement i), ri_subject i, ri_authority i, ri_nonce i,
     int_str (ri_overlap i), int_str (ri_expires i)]"

definition canonical_rotation_bytes :: "rotation_intent \<Rightarrow> (contract_error, string) result" where
  "canonical_rotation_bytes i = frame_fields (rotation_fields i)"

text \<open>The fingerprint of a request for replay: neither its identifier nor its timestamp.\<close>

definition replay_fields :: "request_envelope \<Rightarrow> string list" where
  "replay_fields e = [REQUEST_PROTOCOL, scheme_value (pr_scheme (rq_principal e)), pr_identifier (rq_principal e), rq_role e,
     rq_method e, rq_operation e, rq_resource e, rq_body_hash e]"

definition request_hash :: "(string \<Rightarrow> string) \<Rightarrow> request_envelope \<Rightarrow> (contract_error, string) result" where
  "request_hash sha256 e = res_bind (frame_fields (replay_fields e)) (\<lambda>b. Return (sha256 b))"

section \<open>Signing\<close>

record signer =
  sg_identity :: principal
  sg_sign :: "string \<Rightarrow> string"

definition sign_request :: "signer \<Rightarrow> request_envelope \<Rightarrow> (contract_error, auth_request) result" where
  "sign_request s e =
     (if sg_identity s \<noteq> rq_principal e then Raise (Wrong_Signer ''request'')
      else res_bind (canonical_request_bytes e) (\<lambda>msg.
        res_bind (proof_from_bytes (pr_scheme (sg_identity s)) (sg_sign s msg)) (mk_auth_request e)))"

definition sign_response :: "signer \<Rightarrow> response_envelope \<Rightarrow> (contract_error, auth_response) result" where
  "sign_response s e =
     (if sg_identity s \<noteq> rq_principal (rs_fields e) then Raise (Wrong_Signer ''response'')
      else res_bind (canonical_response_bytes e) (\<lambda>msg.
        res_bind (proof_from_bytes (pr_scheme (sg_identity s)) (sg_sign s msg)) (mk_auth_response e)))"

definition sign_rotation :: "signer \<Rightarrow> signer \<Rightarrow> rotation_intent \<Rightarrow> (contract_error, rotation_request) result" where
  "sign_rotation c r i =
     (if sg_identity c \<noteq> ri_current i then Raise (Wrong_Signer ''current'')
      else if sg_identity r \<noteq> ri_replacement i then Raise (Wrong_Signer ''replacement'')
      else res_bind (canonical_rotation_bytes i) (\<lambda>msg.
        res_bind (proof_from_bytes (pr_scheme (ri_current i)) (sg_sign c msg)) (\<lambda>cp.
          res_bind (proof_from_bytes (pr_scheme (ri_replacement i)) (sg_sign r msg)) (\<lambda>rp.
            mk_rotation_request i cp rp))))"

section \<open>Encodings round trip\<close>

lemma of_char_bound: "(of_char c :: nat) < 256"
  by (metis of_char_mod_256 mod_less_divisor zero_less_numeral)

lemma byte_parts: "b < (256 :: nat) \<Longrightarrow> b div 4 < 64 \<and> b div 16 < 16 \<and> b div 64 < 4"
  by (simp add: div_less_iff_less_mult)

lemma octets_sextets: "\<forall>b \<in> set bs. b < 256 \<Longrightarrow> octets (sextets bs) = Some bs"
proof (induction bs rule: sextets.induct)
  case (3 a b)
  with byte_parts [of b] show ?case by simp
next
  case (4 a b c bs)
  with byte_parts [of b] byte_parts [of c] show ?case by simp
qed simp_all

lemma mix_bound:
  "x < 16 \<Longrightarrow> (a mod 4) * 16 + x < (64 :: nat)" "x < 4 \<Longrightarrow> (a mod 16) * 4 + x < (64 :: nat)"
  using pos_mod_bound [of 4 "int a"] mod_less_divisor [of 4 a] mod_less_divisor [of 16 a] by linarith+

lemma sextets_bound: "\<forall>b \<in> set bs. b < 256 \<Longrightarrow> list_all (\<lambda>n. n < 64) (sextets bs)"
proof (induction bs rule: sextets.induct)
  case (2 a)
  then show ?case using byte_parts [of a] mix_bound(1) [of 0 a] by simp
next
  case (3 a b)
  then show ?case using byte_parts [of a] byte_parts [of b] mix_bound(1) [of "b div 16" a] mix_bound(2) [of 0 b] by simp
next
  case (4 a b c bs)
  then show ?case
    using byte_parts [of a] byte_parts [of b] byte_parts [of c] mix_bound(1) [of "b div 16" a] mix_bound(2) [of "c div 64" b] by simp
qed simp

lemma of_char_of [simp]: "n < 256 \<Longrightarrow> (of_char (char_of n :: char) :: nat) = n"
  by (simp add: take_bit_eq_mod)

lemma b64_val_char: "n < 64 \<Longrightarrow> b64_val (b64_char n) = n \<and> is_b64 (b64_char n)"
proof -
  note defs = b64_char_def b64_val_def is_b64_def is_alnum_def is_letter_def is_upper_def is_lower_case_def is_digit_def ch_in_def
  assume n: "n < 64"
  consider "n < 26" | "26 \<le> n" "n < 52" | "52 \<le> n" "n < 62" | "n = 62" | "n = 63" using n by linarith
  then show ?thesis
  proof cases
    case 1 then show ?thesis by (simp add: defs)
  next
    case 2 then show ?thesis by (simp add: defs)
  next
    case 3 then show ?thesis by (auto simp: defs Let_def)
  next
    case 4 then show ?thesis by (simp add: defs)
  next
    case 5 then show ?thesis by (simp add: defs)
  qed
qed

lemma sextets_Nil [simp]: "sextets bs = [] \<longleftrightarrow> bs = []"
  by (cases bs rule: sextets.cases) auto

lemma length_sextets: "length (sextets bs) = (4 * length bs + 2) div 3"
  by (induction bs rule: sextets.induct) auto

lemma decode_encode_base64url:
  assumes "raw \<noteq> []" "length raw \<le> 256"
  shows "decode_base64url field (encode_base64url raw) = Return raw"
proof -
  let ?ss = "sextets (map of_char raw)"
  have range: "\<forall>b \<in> set (map of_char raw). b < (256 :: nat)" by (auto simp: of_char_bound)
  have bound: "\<forall>n \<in> set ?ss. n < 64" using sextets_bound [OF range] by (simp add: list_all_iff)
  have "list_all is_b64 (map b64_char ?ss)" using bound b64_val_char by (auto simp: list_all_iff)
  moreover have "map b64_val (map b64_char ?ss) = ?ss" using bound b64_val_char by (simp add: map_idI)
  moreover have "length ?ss \<le> 342" using assms(2) by (simp add: length_sextets)
  ultimately show ?thesis using assms(1) octets_sextets [OF range] by (simp add: decode_base64url_def encode_base64url_def comp_def)
qed

lemma hex_val_digit: "n < 16 \<Longrightarrow> hex_val (hex_digit n) = n \<and> is_hex (hex_digit n) \<and> \<not> hex_space (hex_digit n)"
proof -
  have "\<forall>n < 16. hex_val (hex_digit n) = n \<and> is_hex (hex_digit n) \<and> \<not> hex_space (hex_digit n)" by code_simp
  then show "n < 16 \<Longrightarrow> hex_val (hex_digit n) = n \<and> is_hex (hex_digit n) \<and> \<not> hex_space (hex_digit n)" by blast
qed

lemma fromhex_hex_text: "fromhex (hex_text raw) = Some raw"
proof (induction raw)
  case (Cons b raw)
  have "(of_char b :: nat) div 16 < 16" "(of_char b :: nat) mod 16 < 16" using byte_parts [OF of_char_bound, of b] by simp_all
  with hex_val_digit [of "of_char b div 16"] hex_val_digit [of "of_char b mod 16"] Cons show ?case
    by (simp add: hex_text_def)
qed (simp add: hex_text_def)

lemma length_hex_text: "length (hex_text raw) = 2 * length raw"
  by (induction raw) (auto simp: hex_text_def)

text \<open>The size of a raw signature of a scheme.\<close>

definition signature_size :: "identity_scheme \<Rightarrow> nat" where
  "signature_size s = (case s of EIP191 \<Rightarrow> 65 | ED25519 \<Rightarrow> 64)"

lemma proof_from_bytes_ok:
  assumes "length sig = signature_size scheme"
  shows "\<exists>p. proof_from_bytes scheme sig = Return p \<and> sp_scheme p = scheme \<and> proof_to_bytes p = Return sig"
proof (cases scheme)
  case EIP191
  with assms show ?thesis
    by (simp add: proof_from_bytes_def mk_proof_def validate_value_def fromhex_hex_text length_hex_text signature_size_def proof_to_bytes_def)
next
  case ED25519
  with assms have "sig \<noteq> []" "length sig \<le> 256" by (auto simp: signature_size_def)
  note d = decode_encode_base64url [OF this]
  have "encode_base64url sig \<noteq> []" "length (encode_base64url sig) \<le> 132" using \<open>sig \<noteq> []\<close> assms ED25519
    by (simp_all add: encode_base64url_def length_sextets signature_size_def)
  with ED25519 assms d show ?thesis
    by (simp add: proof_from_bytes_def mk_proof_def validate_value_def signature_size_def proof_to_bytes_def)
qed

lemma mk_proof_canonical:
  assumes "mk_proof scheme value = Return p"
  shows "p = \<lparr>sp_scheme = scheme, sp_value = value\<rparr> \<and>
    (\<exists>sig. length sig = signature_size scheme \<and> proof_to_bytes p = Return sig \<and> proof_from_bytes scheme sig = Return p)"
proof (cases scheme)
  case EIP191
  with assms obtain raw where "fromhex (drop 2 value) = Some raw" "length raw = 65" "value = ''0x'' @ hex_text raw"
      "p = \<lparr>sp_scheme = scheme, sp_value = value\<rparr>"
    by (auto simp: mk_proof_def validate_value_def res_bind_Inr_iff split: if_splits option.splits)
  with EIP191 assms show ?thesis by (auto simp: proof_to_bytes_def proof_from_bytes_def signature_size_def)
next
  case ED25519
  with assms obtain raw where "decode_base64url ''ed25519 proof'' value = Return raw" "length raw = 64" "value = encode_base64url raw"
      "p = \<lparr>sp_scheme = scheme, sp_value = value\<rparr>"
    by (auto simp: mk_proof_def validate_value_def res_bind_Inr_iff split: if_splits)
  with ED25519 assms show ?thesis by (auto simp: proof_to_bytes_def proof_from_bytes_def signature_size_def)
qed

section \<open>The framing is injective\<close>

lemma utf8_char_inj: "utf8_char c @ xs = utf8_char d @ ys \<longleftrightarrow> c = d \<and> xs = ys"
proof -
  have split: "of_char c div 64 = (of_char d div 64 :: nat) \<Longrightarrow> of_char c mod 64 = (of_char d mod 64 :: nat) \<Longrightarrow> c = d"
    by (metis div_mult_mod_eq of_char_eq_iff)
  have lead: "192 + of_char x div 64 < (256 :: nat)" "128 + of_char x mod 64 < (256 :: nat)" for x :: char
    using byte_parts [OF of_char_bound, of x] mod_less_divisor [of 64 "of_char x :: nat"] by linarith+
  have eq: "char_of m = (char_of n :: char) \<longleftrightarrow> m = n" if "m < 256" "n < 256" for m n :: nat
    using that by (simp add: char_of_eq_iff take_bit_eq_mod)
  have ne: "c = char_of (192 + n) \<Longrightarrow> 192 + n < 256 \<Longrightarrow> (of_char c :: nat) \<ge> 128" for c :: char and n :: nat by simp
  show ?thesis
    using eq [OF lead(1) [of c] lead(1) [of d]] eq [OF lead(2) [of c] lead(2) [of d]] split lead(1) [of c] lead(1) [of d]
      ne [of c "of_char d div 64"] ne [of d "of_char c div 64"]
    by (auto simp: utf8_char_def Let_def)
qed

lemma utf8_char_ne [simp]: "utf8_char c \<noteq> []"
  by (simp add: utf8_char_def Let_def)

lemma utf8_inj: "utf8 s = utf8 t \<longleftrightarrow> s = t"
proof (induction s arbitrary: t)
  case Nil
  then show ?case by (cases t) (simp_all add: utf8_def)
next
  case (Cons c s)
  then show ?case by (cases t) (simp_all add: utf8_def utf8_char_inj)
qed

lemma length_be4 [simp]: "length (be4 n) = 4"
  by (simp add: be4_def)

lemma be4_ne [simp]: "be4 n \<noteq> []"
  by (simp add: be4_def)

lemma be4_inj:
  assumes "m \<le> 4096" "n \<le> 4096" "be4 m = be4 n"
  shows "m = n"
proof -
  have "m div 256 mod 256 = n div 256 mod 256" "m mod 256 = n mod 256"
    using assms(3) by (auto simp: be4_def char_of_eq_iff take_bit_eq_mod)
  moreover have "m div 256 < 256" "n div 256 < 256" using assms by auto
  ultimately show ?thesis by (metis div_mult_mod_eq mod_less)
qed

lemma frame_fields_Cons:
  "frame_fields (f # fs) = Return b \<longleftrightarrow> length (utf8 f) \<le> 4096 \<and> (\<exists>rest. frame_fields fs = Return rest \<and> b = be4 (length (utf8 f)) @ utf8 f @ rest)"
  by (auto simp: res_bind_Inr_iff MAX_CANONICAL_FIELD_BYTES_def Let_def)

lemma frame_fields_inj:
  "frame_fields fs = Return b \<Longrightarrow> frame_fields gs = Return b \<Longrightarrow> fs = gs"
proof (induction fs arbitrary: gs b)
  case Nil
  then show ?case by (cases gs) (simp_all add: frame_fields_Cons del: frame_fields.simps(2))
next
  case (Cons f fs)
  obtain rest where f: "frame_fields fs = Return rest" "b = be4 (length (utf8 f)) @ utf8 f @ rest" "length (utf8 f) \<le> 4096"
    using Cons.prems(1) unfolding frame_fields_Cons by blast
  from Cons.prems(2) f(2) obtain g gs' where gs: "gs = g # gs'" by (cases gs) (auto simp del: frame_fields.simps(2))
  obtain rest' where g: "frame_fields gs' = Return rest'" "b = be4 (length (utf8 g)) @ utf8 g @ rest'" "length (utf8 g) \<le> 4096"
    using Cons.prems(2) unfolding gs frame_fields_Cons by blast
  have "be4 (length (utf8 f)) = be4 (length (utf8 g))" using f(2) g(2) by (metis append_eq_append_conv length_be4)
  then have len: "length (utf8 f) = length (utf8 g)" by (rule be4_inj [OF f(3) g(3)])
  have "be4 (length (utf8 f)) @ utf8 f @ rest = be4 (length (utf8 g)) @ utf8 g @ rest'"
    by (rule trans [OF sym [OF f(2)] g(2)])
  then have "utf8 f @ rest = utf8 g @ rest'" unfolding len by (simp only: same_append_eq)
  then have "utf8 f = utf8 g \<and> rest = rest'" using len append_eq_append_conv by blast
  with Cons.IH [OF f(1)] g(1) gs show ?case by (simp add: utf8_inj)
qed

text \<open>Every envelope the constructors accept has canonical bytes: no field reaches the bound.\<close>

lemma length_utf8: "length (utf8 s) \<le> 2 * length s"
  by (induction s) (auto simp: utf8_def utf8_char_def Let_def)

lemma length_nat_str: "n < 10 ^ k \<Longrightarrow> 0 < k \<Longrightarrow> length (nat_str n) \<le> k"
proof (induction k arbitrary: n)
  case (Suc k)
  show ?case
  proof (cases "n < 10")
    case False
    then have "k \<noteq> 0" using Suc.prems by (cases k) auto
    moreover have "n div 10 < 10 ^ k" using Suc.prems(1) by (simp add: div_less_iff_less_mult mult.commute)
    ultimately have "length (nat_str (n div 10)) \<le> k" using Suc.IH by simp
    with False show ?thesis by (subst nat_str.simps) simp
  qed (subst nat_str.simps, simp)
qed simp

lemma frame_fields_ok: "\<forall>f \<in> set fs. length f \<le> 2048 \<Longrightarrow> \<exists>b. frame_fields fs = Return b"
proof (induction fs)
  case (Cons f fs)
  then obtain b where "frame_fields fs = Return b" by auto
  moreover have "length (utf8 f) \<le> 4096" using length_utf8 [of f] Cons.prems by simp
  ultimately show ?case by (auto simp: MAX_CANONICAL_FIELD_BYTES_def Let_def)
qed simp

lemma mk_identity_bound: "mk_identity s v = Return p \<Longrightarrow> length (pr_identifier p) \<le> 128 \<and> pr_scheme p = s"
  by (auto simp: mk_identity_def validate_identifier_def res_bind_Inr_iff ascii_lower_def split: identity_scheme.splits if_splits)

text \<open>A principal as the constructor leaves it.\<close>

definition principal_ok :: "principal \<Rightarrow> bool" where
  "principal_ok p = (mk_identity (pr_scheme p) (pr_identifier p) = Return p)"

lemma lower_char_idem: "lower_char (lower_char c) = lower_char c"
  using of_char_bound [of c] by (auto simp: lower_char_def is_upper_def ch_in_def)

lemma is_hex_lower: "is_hex c \<Longrightarrow> is_hex (lower_char c)"
  by (auto simp: lower_char_def is_upper_def ch_in_def is_hex_def is_digit_def)

lemma ascii_lower_idem: "ascii_lower (ascii_lower v) = ascii_lower v"
  by (simp add: ascii_lower_def lower_char_idem)

lemma is_address_lower:
  assumes "is_address v"
  shows "is_address (ascii_lower v)"
proof -
  have "take 2 (ascii_lower v) = ascii_lower (take 2 v)" by (simp add: ascii_lower_def take_map)
  also have "\<dots> = ''0x''" using assms by (simp add: is_address_def) code_simp
  finally have "take 2 (ascii_lower v) = ''0x''" .
  moreover have "list_all is_hex (drop 2 (ascii_lower v))"
    using assms is_hex_lower by (auto simp: is_address_def ascii_lower_def drop_map list_all_iff)
  ultimately show ?thesis using assms by (simp add: is_address_def ascii_lower_def)
qed

lemma mk_identity_ok:
  assumes "mk_identity s v = Return p"
  shows "principal_ok p"
proof (cases s)
  case EIP191
  with assms have "is_address v" "p = \<lparr>pr_scheme = EIP191, pr_identifier = ascii_lower v\<rparr>"
    by (auto simp: mk_identity_def validate_identifier_def res_bind_Inr_iff split: if_splits)
  with is_address_lower [of v] show ?thesis
    by (auto simp: principal_ok_def mk_identity_def validate_identifier_def ascii_lower_idem is_address_def)
next
  case ED25519
  with assms have "p = \<lparr>pr_scheme = ED25519, pr_identifier = v\<rparr>"
    by (auto simp: mk_identity_def validate_identifier_def res_bind_Inr_iff split: if_splits)
  with assms ED25519 show ?thesis by (simp add: principal_ok_def)
qed

lemma scheme_value_inj: "scheme_value s = scheme_value t \<longleftrightarrow> s = t"
  by (cases s; cases t) (simp_all add: scheme_value_def)

lemma int_str_inj: "0 \<le> m \<Longrightarrow> 0 \<le> n \<Longrightarrow> int_str m = int_str n \<longleftrightarrow> m = n"
  by (auto simp: int_str_def nat_str_inj)

lemma parse_scheme_value: "parse_scheme t = Some s \<longleftrightarrow> t = scheme_value s"
  by (cases s) (auto simp: parse_scheme_def scheme_value_def)

lemma request_fields_bound:
  assumes "envelope_problems e = []" "length (pr_identifier (rq_principal e)) \<le> 128"
  shows "\<forall>f \<in> set (request_fields e). length f \<le> 2048"
proof -
  have ts: "0 \<le> rq_timestamp e" "rq_timestamp e \<le> MAX_INT64" using assms(1) by (auto simp: envelope_problems_def split: if_splits)
  then have "nat (rq_timestamp e) < 10 ^ 20" by (simp add: MAX_INT64_def nat_less_iff)
  then have "length (int_str (rq_timestamp e)) \<le> 20" using ts length_nat_str [of "nat (rq_timestamp e)" 20] by (simp add: int_str_def)
  moreover have "length (scheme_value (pr_scheme (rq_principal e))) \<le> 7" by (cases "pr_scheme (rq_principal e)") (simp_all add: scheme_value_def)
  moreover have "length REQUEST_PROTOCOL \<le> 2048" by (simp add: REQUEST_PROTOCOL_def)
  ultimately show ?thesis using assms by (auto simp: request_fields_def envelope_problems_def len_in_def is_sha256_def split: if_splits)
qed

lemma request_bytes_exist:
  "envelope_problems e = [] \<Longrightarrow> length (pr_identifier (rq_principal e)) \<le> 128 \<Longrightarrow> \<exists>b. canonical_request_bytes e = Return b"
  unfolding canonical_request_bytes_def by (rule frame_fields_ok [OF request_fields_bound])

lemma replay_fields_sub: "set (replay_fields e) \<subseteq> set (request_fields e)"
  by (auto simp: replay_fields_def request_fields_def)

end
