(* ===== verification/Identity_Verification.thy ===== *)
theory Identity_Verification
  imports Market_Identity
begin

text \<open>
  Verification of signed envelopes: \<open>verification.py\<close>, \<open>registry.py\<close> and \<open>capture.py\<close> of
  \<open>src/kit/identity/src/market_identity\<close>.

  \<open>identity_env\<close> collects what the code takes from elsewhere: the hash, the canonical JSON
  of a body, the JSON reader, the reading of a mapping into the typed fields of a contract
  model, and what the registered verifier implementations answer.  A registered
  implementation is a token, so that "the same object" is equality of tokens.
\<close>

section \<open>The registries\<close>

datatype registry_error = Already_Registered identity_scheme | Scheme_Mismatch | No_Verifier identity_scheme | Unknown_Scheme_Name string

record implementation =
  im_name :: identity_scheme
  im_token :: nat

record registries =
  rg_verifiers :: "(identity_scheme \<times> implementation) list"
  rg_factories :: "(identity_scheme \<times> implementation) list"

definition register :: "(identity_scheme \<times> implementation) list \<Rightarrow> identity_scheme \<Rightarrow> implementation \<Rightarrow>
     (registry_error, (identity_scheme \<times> implementation) list) result" where
  "register registry name impl = (case map_of registry name of
     None \<Rightarrow> Return (registry @ [(name, impl)])
   | Some existing \<Rightarrow> if existing = impl then Return registry else Raise (Already_Registered name))"

text \<open>The verifier is registered before the factory is checked, and stays when the factory is refused.\<close>

definition register_identity_scheme ::
    "implementation \<Rightarrow> implementation option \<Rightarrow> registries \<Rightarrow> registries \<times> (registry_error, unit) result" where
  "register_identity_scheme verifier factory R =
     (case register (rg_verifiers R) (im_name verifier) verifier of
        Inl e \<Rightarrow> (R, Raise e)
      | Inr vs \<Rightarrow>
          (let R1 = R\<lparr>rg_verifiers := vs\<rparr> in
           case factory of
             None \<Rightarrow> (R1, Return ())
           | Some f \<Rightarrow>
               if im_name f \<noteq> im_name verifier then (R1, Raise Scheme_Mismatch)
               else (case register (rg_factories R1) (im_name f) f of
                   Inl e \<Rightarrow> (R1, Raise e)
                 | Inr fs \<Rightarrow> (R1\<lparr>rg_factories := fs\<rparr>, Return ()))))"

definition register_signer_factory :: "implementation \<Rightarrow> registries \<Rightarrow> registries \<times> (registry_error, unit) result" where
  "register_signer_factory f R =
     (if map_of (rg_verifiers R) (im_name f) = None then (R, Raise (No_Verifier (im_name f)))
      else (case register (rg_factories R) (im_name f) f of
          Inl e \<Rightarrow> (R, Raise e) | Inr fs \<Rightarrow> (R\<lparr>rg_factories := fs\<rparr>, Return ())))"

definition get_identity_verifier :: "registries \<Rightarrow> identity_scheme \<Rightarrow> (registry_error, implementation) result" where
  "get_identity_verifier R scheme = (case map_of (rg_verifiers R) scheme of
     None \<Rightarrow> Raise (No_Verifier scheme) | Some v \<Rightarrow> Return v)"

definition get_signer_factory :: "registries \<Rightarrow> identity_scheme \<Rightarrow> (registry_error, implementation) result" where
  "get_signer_factory R scheme = (case map_of (rg_factories R) scheme of
     None \<Rightarrow> Raise (No_Verifier scheme) | Some v \<Rightarrow> Return v)"

definition scheme_named :: "string \<Rightarrow> (registry_error, identity_scheme) result" where
  "scheme_named name = (case parse_scheme name of None \<Rightarrow> Raise (Unknown_Scheme_Name name) | Some s \<Rightarrow> Return s)"

definition list_identity_schemes :: "registries \<Rightarrow> string list" where
  "list_identity_schemes R = sort (map (\<lambda>(s, _). scheme_value s) (rg_verifiers R))"

definition list_signer_schemes :: "registries \<Rightarrow> string list" where
  "list_signer_schemes R = sort (map (\<lambda>(s, _). scheme_value s) (rg_factories R))"

section \<open>Replay and results\<close>

datatype verification_code =
    Verified | Exact_Retry | Changed_Reuse | Unsupported_Version | Unknown_Scheme | Wrong_Principal
  | Malformed_Envelope | Context_Mismatch | Body_Hash_Mismatch | Timestamp_Skew | Invalid_Proof

datatype replay_code = New_Request | Same_Request | Other_Request

record replay_identity =
  rp_principal :: principal
  rp_request_id :: string

record replay_reservation =
  rv_identity :: replay_identity
  rv_hash :: string

record verification_result =
  vr_code :: verification_code
  vr_reservation :: "replay_reservation option"

definition verified :: "verification_result \<Rightarrow> bool" where
  "verified r = (vr_code r = Verified \<or> vr_code r = Exact_Retry)"

definition dispatch_allowed :: "verification_result \<Rightarrow> bool" where
  "dispatch_allowed r = (vr_code r = Verified)"

definition outcome :: "verification_code \<Rightarrow> verification_result" where
  "outcome c = \<lparr>vr_code = c, vr_reservation = None\<rparr>"

datatype verify_error =
    Negative_Skew
  | Foreign_Replay
  | Not_Canonicalizable
  | Registry registry_error
  | Contract contract_error
  | Capture_Without_Body
  | Captured_Body_Differs
  | Body_Not_Json
  | Sink_Failed

section \<open>The environment\<close>

record raw_fields =
  rw_protocol :: string
  rw_role :: string
  rw_method :: string
  rw_operation :: string
  rw_resource :: string
  rw_request_id :: string
  rw_timestamp :: int
  rw_body_hash :: string
  rw_scheme :: string
  rw_identifier :: string
  rw_status :: int
  rw_proof_scheme :: string
  rw_proof_value :: string

datatype ('m) envelope_arg = Model 'm | Mapping "(string \<times> pyval) list"

record captured_envelope =
  ce_envelope :: "auth_request + auth_response"
  ce_body :: string
  ce_headers :: "(string \<times> string) list"
  ce_verified_at :: int
  ce_principals :: "principal list"

record identity_env =
  ie_sha256 :: "string \<Rightarrow> string"
  ie_canonical_json :: "pyval \<Rightarrow> string option"
  ie_json_loads :: "string \<Rightarrow> pyval option"
  ie_read :: "(string \<times> pyval) list \<Rightarrow> raw_fields option"
  ie_registry :: registries
  ie_verify :: "implementation \<Rightarrow> principal \<Rightarrow> string \<Rightarrow> string \<Rightarrow> bool"

text \<open>The empty body is \<open>None\<close>.\<close>

definition canonical_body_hash :: "identity_env \<Rightarrow> pyval option \<Rightarrow> (verify_error, string) result" where
  "canonical_body_hash E body = (case body of
     None \<Rightarrow> Return (ie_sha256 E [])
   | Some v \<Rightarrow> (case ie_canonical_json E v of
        None \<Rightarrow> Raise Not_Canonicalizable | Some b \<Rightarrow> Return (ie_sha256 E b)))"

definition lift_error :: "('e \<Rightarrow> 'f) \<Rightarrow> ('e, 'a) result \<Rightarrow> ('f, 'a) result" where
  "lift_error f r = (case r of Inl e \<Rightarrow> Inl (f e) | Inr x \<Rightarrow> Inr x)"

section \<open>Reading an envelope\<close>

definition has_unknown_scheme :: "(string \<times> pyval) list \<Rightarrow> bool" where
  "has_unknown_scheme m = (case map_of m ''principal'' of
     Some (PDict d) \<Rightarrow> (case map_of d (PStr ''scheme'') of
        None \<Rightarrow> False
      | Some (PStr s) \<Rightarrow> parse_scheme s = None
      | Some _ \<Rightarrow> True)
   | _ \<Rightarrow> False)"

definition read_principal :: "string \<Rightarrow> string \<Rightarrow> (contract_error, principal) result" where
  "read_principal scheme identifier = (case parse_scheme scheme of
     None \<Rightarrow> Raise Unsupported_Scheme | Some s \<Rightarrow> mk_identity s identifier)"

definition read_proof :: "string \<Rightarrow> string \<Rightarrow> (contract_error, signature_proof) result" where
  "read_proof scheme value = (case parse_scheme scheme of
     None \<Rightarrow> Raise Unsupported_Scheme | Some s \<Rightarrow> mk_proof s value)"

definition raw_envelope :: "raw_fields \<Rightarrow> principal \<Rightarrow> request_envelope" where
  "raw_envelope w p = \<lparr>rq_role = rw_role w, rq_principal = p, rq_method = rw_method w, rq_operation = rw_operation w,
     rq_resource = rw_resource w, rq_request_id = rw_request_id w, rq_timestamp = rw_timestamp w, rq_body_hash = rw_body_hash w\<rparr>"

definition validate_request :: "raw_fields \<Rightarrow> (contract_error, auth_request) result" where
  "validate_request w =
     (if rw_protocol w \<noteq> REQUEST_PROTOCOL then Raise (Refused [''protocol''])
      else res_bind (read_principal (rw_scheme w) (rw_identifier w)) (\<lambda>p.
        res_bind (read_proof (rw_proof_scheme w) (rw_proof_value w)) (\<lambda>sig.
          mk_auth_request (raw_envelope w p) sig)))"

definition validate_response :: "raw_fields \<Rightarrow> (contract_error, auth_response) result" where
  "validate_response w =
     (if rw_protocol w \<noteq> RESPONSE_PROTOCOL then Raise (Refused [''protocol''])
      else res_bind (read_principal (rw_scheme w) (rw_identifier w)) (\<lambda>p.
        res_bind (read_proof (rw_proof_scheme w) (rw_proof_value w)) (\<lambda>sig.
          mk_auth_response \<lparr>rs_fields = raw_envelope w p, rs_status = rw_status w\<rparr> sig)))"

definition read_envelope ::
    "identity_env \<Rightarrow> string \<Rightarrow> (raw_fields \<Rightarrow> (contract_error, 'm) result) \<Rightarrow> 'm envelope_arg \<Rightarrow> (verification_code, 'm) result" where
  "read_envelope E protocol validate arg = (case arg of
     Model r \<Rightarrow> Return r
   | Mapping m \<Rightarrow>
       if map_of m ''protocol'' \<noteq> None \<and> map_of m ''protocol'' \<noteq> Some (PStr protocol) then Raise Unsupported_Version
       else if has_unknown_scheme m then Raise Unknown_Scheme
       else (case ie_read E m of
           None \<Rightarrow> Raise Malformed_Envelope
         | Some w \<Rightarrow> (case validate w of Inl _ \<Rightarrow> Raise Malformed_Envelope | Inr r \<Rightarrow> Return r)))"

definition read_request_envelope :: "identity_env \<Rightarrow> auth_request envelope_arg \<Rightarrow> (verification_code, auth_request) result" where
  "read_request_envelope E arg = read_envelope E REQUEST_PROTOCOL validate_request arg"

definition read_response_envelope :: "identity_env \<Rightarrow> auth_response envelope_arg \<Rightarrow> (verification_code, auth_response) result" where
  "read_response_envelope E arg = read_envelope E RESPONSE_PROTOCOL validate_response arg"

section \<open>Replay classification and capture\<close>

definition replay_reservation_of :: "identity_env \<Rightarrow> request_envelope \<Rightarrow> (verify_error, replay_reservation) result" where
  "replay_reservation_of E e = res_bind (lift_error Contract (request_hash (ie_sha256 E) e)) (\<lambda>h.
     Return \<lparr>rv_identity = \<lparr>rp_principal = rq_principal e, rp_request_id = rq_request_id e\<rparr>, rv_hash = h\<rparr>)"

definition classify_replay ::
    "identity_env \<Rightarrow> request_envelope \<Rightarrow> replay_reservation option \<Rightarrow> (verify_error, replay_code \<times> replay_reservation) result" where
  "classify_replay E e existing = res_bind (replay_reservation_of E e) (\<lambda>r. case existing of
     None \<Rightarrow> Return (New_Request, r)
   | Some x \<Rightarrow>
       if rv_identity x \<noteq> rv_identity r then Raise Foreign_Replay
       else if rv_hash x = rv_hash r then Return (Same_Request, x)
       else Return (Other_Request, x))"

definition capture_envelope ::
    "identity_env \<Rightarrow> (captured_envelope \<Rightarrow> bool) option \<Rightarrow> string \<Rightarrow> auth_request + auth_response \<Rightarrow> string option \<Rightarrow>
     (string \<times> string) list \<Rightarrow> int \<Rightarrow> principal list \<Rightarrow> (verify_error, unit) result" where
  "capture_envelope E sink body_hash envelope raw_body headers verified_at trusted = (case sink of
     None \<Rightarrow> Return ()
   | Some f \<Rightarrow> (case raw_body of
        None \<Rightarrow> Raise Capture_Without_Body
      | Some raw \<Rightarrow>
          res_bind (if raw = [] then Return None
                    else (case ie_json_loads E raw of None \<Rightarrow> Raise Body_Not_Json | Some v \<Rightarrow> Return (Some v))) (\<lambda>value.
            res_bind (canonical_body_hash E value) (\<lambda>h.
              if h \<noteq> body_hash then Raise Captured_Body_Differs
              else if f \<lparr>ce_envelope = envelope, ce_body = raw, ce_headers = headers, ce_verified_at = verified_at, ce_principals = trusted\<rparr> then Return ()
              else Raise Sink_Failed))))"

section \<open>Verification\<close>

definition check_signature ::
    "identity_env \<Rightarrow> principal \<Rightarrow> (contract_error, string) result \<Rightarrow> signature_proof \<Rightarrow> (verify_error, bool) result" where
  "check_signature E p message proof =
     res_bind (lift_error Registry (get_identity_verifier (ie_registry E) (pr_scheme p))) (\<lambda>verifier.
       res_bind (lift_error Contract message) (\<lambda>msg.
         res_bind (lift_error Contract (proof_to_bytes proof)) (\<lambda>sig.
           Return (ie_verify E verifier p msg sig))))"

record expectation =
  ex_role :: string
  ex_method :: string
  ex_operation :: string
  ex_resource :: string
  ex_principals :: "principal list"

definition context_matches :: "expectation \<Rightarrow> request_envelope \<Rightarrow> bool" where
  "context_matches x e = (rq_role e = ex_role x \<and> rq_method e = ascii_upper (ex_method x) \<and>
     rq_operation e = ex_operation x \<and> rq_resource e = ex_resource x)"

definition verify_request ::
    "identity_env \<Rightarrow> auth_request envelope_arg \<Rightarrow> pyval option \<Rightarrow> int \<Rightarrow> int \<Rightarrow> expectation \<Rightarrow> replay_reservation option \<Rightarrow>
     (captured_envelope \<Rightarrow> bool) option \<Rightarrow> string option \<Rightarrow> (string \<times> string) list \<Rightarrow> (verify_error, verification_result) result" where
  "verify_request E arg body now max_skew x existing sink raw_body headers =
     (if max_skew < 0 then Raise Negative_Skew
      else (case read_request_envelope E arg of
          Inl c \<Rightarrow> Return (outcome c)
        | Inr r \<Rightarrow>
            (let e = ar_envelope r in
             if \<not> allows (ex_principals x) (rq_principal e) then Return (outcome Wrong_Principal)
             else if \<not> context_matches x e then Return (outcome Context_Mismatch)
             else res_bind (canonical_body_hash E body) (\<lambda>h.
               if rq_body_hash e \<noteq> h then Return (outcome Body_Hash_Mismatch)
               else if \<bar>now - rq_timestamp e\<bar> > max_skew then Return (outcome Timestamp_Skew)
               else res_bind (check_signature E (rq_principal e) (canonical_request_bytes e) (ar_proof r)) (\<lambda>valid.
                 if \<not> valid then Return (outcome Invalid_Proof)
                 else res_bind (classify_replay E e existing) (\<lambda>(code, reservation).
                   res_bind (if code \<noteq> Other_Request
                             then capture_envelope E sink (rq_body_hash e) (Inl r) raw_body headers now (ex_principals x)
                             else Return ()) (\<lambda>_.
                     Return \<lparr>vr_code = (case code of New_Request \<Rightarrow> Verified | Same_Request \<Rightarrow> Exact_Retry | Other_Request \<Rightarrow> Changed_Reuse),
                       vr_reservation = Some reservation\<rparr>)))))))"

definition verify_response ::
    "identity_env \<Rightarrow> auth_response envelope_arg \<Rightarrow> pyval option \<Rightarrow> int \<Rightarrow> int \<Rightarrow> expectation \<Rightarrow> string \<Rightarrow>
     (captured_envelope \<Rightarrow> bool) option \<Rightarrow> string option \<Rightarrow> (string \<times> string) list \<Rightarrow> (verify_error, verification_result) result" where
  "verify_response E arg body now max_skew x request_id sink raw_body headers =
     (if max_skew < 0 then Raise Negative_Skew
      else (case read_response_envelope E arg of
          Inl c \<Rightarrow> Return (outcome c)
        | Inr r \<Rightarrow>
            (let e = rs_fields (as_envelope r) in
             if \<not> allows (ex_principals x) (rq_principal e) then Return (outcome Wrong_Principal)
             else if \<not> (context_matches x e \<and> rq_request_id e = request_id) then Return (outcome Context_Mismatch)
             else res_bind (canonical_body_hash E body) (\<lambda>h.
               if rq_body_hash e \<noteq> h then Return (outcome Body_Hash_Mismatch)
               else if \<bar>now - rq_timestamp e\<bar> > max_skew then Return (outcome Timestamp_Skew)
               else res_bind (check_signature E (rq_principal e) (canonical_response_bytes (as_envelope r)) (as_proof r)) (\<lambda>valid.
                 if \<not> valid then Return (outcome Invalid_Proof)
                 else res_bind (capture_envelope E sink (rq_body_hash e) (Inr r) raw_body headers now (ex_principals x)) (\<lambda>_.
                   Return (outcome Verified)))))))"

record rotation_result =
  ro_current_valid :: bool
  ro_replacement_valid :: bool
  ro_expired :: bool

definition rotation_verified :: "rotation_result \<Rightarrow> bool" where
  "rotation_verified r = (ro_current_valid r \<and> ro_replacement_valid r \<and> \<not> ro_expired r)"

definition verify_rotation :: "identity_env \<Rightarrow> rotation_request \<Rightarrow> int \<Rightarrow> (verify_error, rotation_result) result" where
  "verify_rotation E r now =
     (let i = rr_intent r; message = canonical_rotation_bytes i in
      res_bind (check_signature E (ri_current i) message (rr_current_proof r)) (\<lambda>c.
        res_bind (check_signature E (ri_replacement i) message (rr_replacement_proof r)) (\<lambda>p.
          Return \<lparr>ro_current_valid = c, ro_replacement_valid = p, ro_expired = now > ri_expires i\<rparr>)))"

section \<open>What verification and signing guarantee\<close>

lemma mk_request_eq:
  "mk_request e0 = Return e \<longleftrightarrow> envelope_problems e0 = [] \<and> e = e0\<lparr>rq_method := ascii_upper (rq_method e0)\<rparr>"
  by (auto simp: mk_request_def)

lemma envelope_eqI:
  assumes "request_fields d = request_fields e" "0 \<le> rq_timestamp d" "0 \<le> rq_timestamp e"
  shows "d = e"
proof -
  have "rq_principal d = rq_principal e"
    using assms(1) by (intro principal.equality) (simp_all add: request_fields_def scheme_value_inj)
  moreover have "rq_timestamp d = rq_timestamp e" using assms by (simp add: request_fields_def int_str_inj)
  ultimately show ?thesis using assms(1) by (intro request_envelope.equality) (simp_all add: request_fields_def)
qed

lemma mk_request_time: "mk_request e0 = Return e \<Longrightarrow> 0 \<le> rq_timestamp e"
  by (auto simp: mk_request_eq envelope_problems_def split: if_splits)

text \<open>C36: the bytes a principal signs identify the message: two accepted request envelopes with
  the same canonical bytes are the same envelope, field by field, and the bytes of a request
  are never those of a response or of a key rotation.\<close>

theorem signed_bytes_identify_message:
  assumes "mk_request d0 = Return d" "mk_request e0 = Return e" "canonical_request_bytes d = Return b"
  shows "(canonical_request_bytes e = Return b \<longleftrightarrow> d = e) \<and> canonical_response_bytes r \<noteq> Return b \<and> canonical_rotation_bytes i \<noteq> Return b"
proof -
  have b: "frame_fields (request_fields d) = Return b" using assms(3) by (simp add: canonical_request_bytes_def)
  have "canonical_request_bytes e = Return b \<Longrightarrow> d = e"
    using frame_fields_inj [OF b] mk_request_time [OF assms(1)] mk_request_time [OF assms(2)]
    by (intro envelope_eqI) (simp_all add: canonical_request_bytes_def)
  moreover have "canonical_response_bytes r \<noteq> Return b"
    using frame_fields_inj [OF b, of "response_fields r"]
    by (auto simp: canonical_response_bytes_def request_fields_def response_fields_def REQUEST_PROTOCOL_def RESPONSE_PROTOCOL_def Let_def)
  moreover have "canonical_rotation_bytes i \<noteq> Return b"
    using frame_fields_inj [OF b, of "rotation_fields i"]
    by (auto simp: canonical_rotation_bytes_def request_fields_def rotation_fields_def REQUEST_PROTOCOL_def ROTATION_PROTOCOL_def)
  ultimately show ?thesis using assms(3) by auto
qed

text \<open>C35: signature proofs round trip: a raw signature is encoded exactly when it has its
  scheme's size, the encoded proof is accepted by the contract and decodes to the same
  bytes, and every accepted proof is the encoding of what it decodes to, so no signature has
  two accepted spellings.\<close>

theorem proof_text_roundtrip:
  "proof_from_bytes scheme sig = Return p \<longleftrightarrow>
     length sig = signature_size scheme \<and> mk_proof scheme (sp_value p) = Return p \<and> proof_to_bytes p = Return sig"
proof
  assume f: "proof_from_bytes scheme sig = Return p"
  obtain v where v: "mk_proof scheme v = Return p" "(scheme = EIP191 \<and> v = ''0x'' @ hex_text sig) \<or> (scheme = ED25519 \<and> v = encode_base64url sig)"
    using f by (cases scheme) (auto simp: proof_from_bytes_def)
  obtain sig' where s: "length sig' = signature_size scheme" "proof_to_bytes p = Return sig'" and p: "p = \<lparr>sp_scheme = scheme, sp_value = v\<rparr>"
    using mk_proof_canonical [OF v(1)] by blast
  have "proof_to_bytes p = Return sig"
  proof (cases scheme)
    case EIP191
    with v(2) p show ?thesis by (simp add: proof_to_bytes_def fromhex_hex_text)
  next
    case ED25519
    have "v \<noteq> []" "length v \<le> 132" using v(1) by (auto simp: mk_proof_def split: if_splits)
    then have "sig \<noteq> []" "length sig \<le> 256" using v(2) ED25519 by (auto simp: encode_base64url_def length_sextets)
    with v(2) p ED25519 show ?thesis by (simp add: proof_to_bytes_def decode_encode_base64url)
  qed
  with s v(1) p show "length sig = signature_size scheme \<and> mk_proof scheme (sp_value p) = Return p \<and> proof_to_bytes p = Return sig" by simp
next
  assume a: "length sig = signature_size scheme \<and> mk_proof scheme (sp_value p) = Return p \<and> proof_to_bytes p = Return sig"
  then show "proof_from_bytes scheme sig = Return p" using mk_proof_canonical [of scheme "sp_value p" p] by auto
qed

lemma check_signature_True:
  "check_signature E p message pf = Return True \<longleftrightarrow> (\<exists>v msg sig. get_identity_verifier (ie_registry E) (pr_scheme p) = Return v \<and>
     message = Return msg \<and> proof_to_bytes pf = Return sig \<and> ie_verify E v p msg sig)"
  by (cases "get_identity_verifier (ie_registry E) (pr_scheme p)"; cases message; cases "proof_to_bytes pf")
    (auto simp: check_signature_def lift_error_def)

lemma mk_request_normal:
  assumes "mk_request e0 = Return e"
  shows "mk_request e = Return e"
proof -
  have up: "upper_char (upper_char c) = upper_char c" "is_letter c \<Longrightarrow> is_letter (upper_char c)" for c
    by (auto simp: upper_char_def is_letter_def is_lower_case_def is_upper_def ch_in_def)
  have e: "e = e0\<lparr>rq_method := ascii_upper (rq_method e0)\<rparr>" and ok: "envelope_problems e0 = []"
    using assms by (auto simp: mk_request_eq)
  have "list_all is_letter (rq_method e0)" using ok by (auto simp: envelope_problems_def split: if_splits)
  then have "list_all is_letter (ascii_upper (rq_method e0))" using up(2) by (auto simp: ascii_upper_def list_all_iff)
  then have "envelope_problems e = []"
    using ok by (auto simp: e envelope_problems_def len_in_def ascii_upper_def split: if_splits)
  moreover have "ascii_upper (rq_method e) = rq_method e" by (simp add: e ascii_upper_def up(1))
  ultimately show ?thesis by (simp add: mk_request_eq)
qed

text \<open>What verification checked of a request it lets through, and the reservation it reports.\<close>

lemma verified_request_checks:
  assumes "verify_request E arg body now max_skew x existing sink raw_body headers = Return v" "verified v"
  shows "\<exists>r h. read_request_envelope E arg = Return r \<and> rq_principal (ar_envelope r) \<in> set (ex_principals x) \<and>
     context_matches x (ar_envelope r) \<and> canonical_body_hash E body = Return (rq_body_hash (ar_envelope r)) \<and>
     \<bar>now - rq_timestamp (ar_envelope r)\<bar> \<le> max_skew \<and>
     (\<exists>w msg sig. get_identity_verifier (ie_registry E) (pr_scheme (rq_principal (ar_envelope r))) = Return w \<and>
        canonical_request_bytes (ar_envelope r) = Return msg \<and> proof_to_bytes (ar_proof r) = Return sig \<and>
        ie_verify E w (rq_principal (ar_envelope r)) msg sig) \<and>
     request_hash (ie_sha256 E) (ar_envelope r) = Return h \<and>
     vr_reservation v = Some \<lparr>rv_identity = \<lparr>rp_principal = rq_principal (ar_envelope r), rp_request_id = rq_request_id (ar_envelope r)\<rparr>, rv_hash = h\<rparr> \<and>
     existing = (if dispatch_allowed v then None else vr_reservation v)"
proof -
  have [simp]: "\<not> verified (outcome c) \<longleftrightarrow> c \<noteq> Verified \<and> c \<noteq> Exact_Retry" for c by (simp add: verified_def outcome_def)
  obtain r where r: "read_request_envelope E arg = Return r"
    using assms by (cases "read_request_envelope E arg") (auto simp: verify_request_def verified_def outcome_def read_request_envelope_def
        read_envelope_def split: if_splits envelope_arg.splits option.splits sum.splits)
  let ?e = "ar_envelope r"
  have sk: "\<not> max_skew < 0" using assms(1) by (auto simp: verify_request_def)
  have al: "allows (ex_principals x) (rq_principal ?e)" "context_matches x ?e"
    using assms r sk by (auto simp: verify_request_def Let_def verified_def outcome_def split: if_splits)
  obtain h where h: "canonical_body_hash E body = Return h"
    using assms r sk al by (cases "canonical_body_hash E body") (auto simp: verify_request_def Let_def)
  have bh: "rq_body_hash ?e = h" "\<bar>now - rq_timestamp ?e\<bar> \<le> max_skew"
    using assms r sk al h by (auto simp: verify_request_def Let_def verified_def outcome_def split: if_splits)
  obtain ok where ok: "check_signature E (rq_principal ?e) (canonical_request_bytes ?e) (ar_proof r) = Return ok"
    using assms r sk al h bh by (cases "check_signature E (rq_principal ?e) (canonical_request_bytes ?e) (ar_proof r)")
      (auto simp: verify_request_def Let_def)
  have ok: "check_signature E (rq_principal ?e) (canonical_request_bytes ?e) (ar_proof r) = Return True"
    using assms r sk al h bh ok by (cases ok) (auto simp: verify_request_def Let_def verified_def outcome_def)
  obtain code res where c: "classify_replay E ?e existing = Return (code, res)"
    using assms r sk al h bh ok by (cases "classify_replay E ?e existing") (auto simp: verify_request_def Let_def)
  have v: "vr_code v = (case code of New_Request \<Rightarrow> Verified | Same_Request \<Rightarrow> Exact_Retry | Other_Request \<Rightarrow> Changed_Reuse)"
    "vr_reservation v = Some res"
    using assms(1) r sk al h bh ok c by (auto simp: verify_request_def Let_def res_bind_Inr_iff)
  obtain hash where hash: "request_hash (ie_sha256 E) ?e = Return hash"
    using c by (cases "request_hash (ie_sha256 E) ?e") (auto simp: classify_replay_def replay_reservation_of_def lift_error_def)
  have "vr_reservation v = Some \<lparr>rv_identity = \<lparr>rp_principal = rq_principal ?e, rp_request_id = rq_request_id ?e\<rparr>, rv_hash = hash\<rparr> \<and>
      existing = (if dispatch_allowed v then None else vr_reservation v)"
    using c hash v assms(2)
    by (cases existing) (auto simp: classify_replay_def replay_reservation_of_def lift_error_def verified_def dispatch_allowed_def split: if_splits)
  with r al h bh ok hash show ?thesis unfolding check_signature_True allows_def by blast
qed

text \<open>An envelope that is read from raw data is one its constructors would build.\<close>

lemma read_request_wellformed:
  assumes "read_request_envelope E (Mapping m) = Return r"
  shows "mk_request (ar_envelope r) = Return (ar_envelope r) \<and> principal_ok (rq_principal (ar_envelope r)) \<and>
    sp_scheme (ar_proof r) = pr_scheme (rq_principal (ar_envelope r))"
proof -
  from assms obtain w where "validate_request w = Return r"
    by (auto simp: read_request_envelope_def read_envelope_def split: if_splits option.splits sum.splits)
  then obtain p sig where p: "read_principal (rw_scheme w) (rw_identifier w) = Return p" and a: "mk_auth_request (raw_envelope w p) sig = Return r"
    by (auto simp: validate_request_def res_bind_Inr_iff split: if_splits)
  from a have e: "mk_request (raw_envelope w p) = Return (ar_envelope r)" "sp_scheme (ar_proof r) = pr_scheme (rq_principal (ar_envelope r))"
    by (auto simp: mk_auth_request_def res_bind_Inr_iff split: if_splits)
  from p have "principal_ok p" by (auto simp: read_principal_def intro: mk_identity_ok split: option.splits)
  moreover from e(1) have "rq_principal (ar_envelope r) = p" by (simp add: mk_request_eq raw_envelope_def)
  ultimately show ?thesis using e mk_request_normal by auto
qed

text \<open>C34: a request that verification lets through was signed for this very call: it reads as an
  envelope, a well-formed one when it came as raw data rather than as an already built model; its
  principal is one of the trusted ones; its role, method, operation and resource are the expected
  ones; its body hash is that of the received body; its timestamp is within the allowed skew; and the
  registered verifier of its scheme accepts its proof over its canonical bytes.  The result carries
  the reservation of that request, its principal, identifier and hash.  The request is let through for
  dispatch only when the caller passed no reservation as recorded, otherwise as an exact retry of the
  very reservation that was passed; and once the reported reservation is what the caller passes, no
  request whatever is let through for dispatch.  Recording it is the caller's part.\<close>

theorem verified_request_is_authentic:
  assumes "verify_request E arg body now max_skew x existing sink raw_body headers = Return v" "verified v"
  shows "\<exists>r h. read_request_envelope E arg = Return r \<and>
     (\<forall>m. arg = Mapping m \<longrightarrow> mk_request (ar_envelope r) = Return (ar_envelope r) \<and> principal_ok (rq_principal (ar_envelope r)) \<and>
        sp_scheme (ar_proof r) = pr_scheme (rq_principal (ar_envelope r))) \<and>
     rq_principal (ar_envelope r) \<in> set (ex_principals x) \<and>
     context_matches x (ar_envelope r) \<and> canonical_body_hash E body = Return (rq_body_hash (ar_envelope r)) \<and>
     \<bar>now - rq_timestamp (ar_envelope r)\<bar> \<le> max_skew \<and>
     (\<exists>w msg sig. get_identity_verifier (ie_registry E) (pr_scheme (rq_principal (ar_envelope r))) = Return w \<and>
        canonical_request_bytes (ar_envelope r) = Return msg \<and> proof_to_bytes (ar_proof r) = Return sig \<and>
        ie_verify E w (rq_principal (ar_envelope r)) msg sig) \<and>
     request_hash (ie_sha256 E) (ar_envelope r) = Return h \<and>
     vr_reservation v = Some \<lparr>rv_identity = \<lparr>rp_principal = rq_principal (ar_envelope r), rp_request_id = rq_request_id (ar_envelope r)\<rparr>, rv_hash = h\<rparr> \<and>
     existing = (if dispatch_allowed v then None else vr_reservation v) \<and>
     (\<forall>arg' body' now' skew' x' sink' raw' headers' v'.
        verify_request E arg' body' now' skew' x' (vr_reservation v) sink' raw' headers' = Return v' \<longrightarrow> \<not> dispatch_allowed v')"
proof -
  from verified_request_checks [OF assms] obtain r h where r: "read_request_envelope E arg = Return r"
      "rq_principal (ar_envelope r) \<in> set (ex_principals x)" "context_matches x (ar_envelope r)"
      "canonical_body_hash E body = Return (rq_body_hash (ar_envelope r))" "\<bar>now - rq_timestamp (ar_envelope r)\<bar> \<le> max_skew"
      "\<exists>w msg sig. get_identity_verifier (ie_registry E) (pr_scheme (rq_principal (ar_envelope r))) = Return w \<and>
        canonical_request_bytes (ar_envelope r) = Return msg \<and> proof_to_bytes (ar_proof r) = Return sig \<and>
        ie_verify E w (rq_principal (ar_envelope r)) msg sig"
      "request_hash (ie_sha256 E) (ar_envelope r) = Return h"
      "vr_reservation v = Some \<lparr>rv_identity = \<lparr>rp_principal = rq_principal (ar_envelope r), rp_request_id = rq_request_id (ar_envelope r)\<rparr>, rv_hash = h\<rparr>"
      "existing = (if dispatch_allowed v then None else vr_reservation v)" by blast
  have once: "\<not> dispatch_allowed v'" if "verify_request E arg' body' now' skew' x' (vr_reservation v) sink' raw' headers' = Return v'"
    for arg' body' now' skew' x' sink' raw' headers' v'
  proof
    assume d: "dispatch_allowed v'"
    then have "verified v'" by (simp add: dispatch_allowed_def verified_def)
    from verified_request_checks [OF that this] d r(8) show False by auto
  qed
  have wf: "\<forall>m. arg = Mapping m \<longrightarrow> mk_request (ar_envelope r) = Return (ar_envelope r) \<and> principal_ok (rq_principal (ar_envelope r)) \<and>
      sp_scheme (ar_proof r) = pr_scheme (rq_principal (ar_envelope r))"
    using r(1) read_request_wellformed [of E _ r] by auto
  show ?thesis by (intro exI [of _ r] exI [of _ h] conjI allI impI r wf) (erule once)
qed

lemma replay_hash_exists:
  assumes "mk_request e = Return e" "principal_ok (rq_principal e)"
  shows "\<exists>h. request_hash sha e = Return h"
proof -
  have "length (pr_identifier (rq_principal e)) \<le> 128" using assms(2) mk_identity_bound unfolding principal_ok_def by blast
  then have "\<forall>f \<in> set (replay_fields e). length f \<le> 2048"
    using request_fields_bound [of e] replay_fields_sub [of e] assms(1) unfolding mk_request_eq by blast
  then obtain b where "frame_fields (replay_fields e) = Return b" using frame_fields_ok by blast
  then show ?thesis by (simp add: request_hash_def)
qed

lemma signed_request_accepted:
  assumes "mk_request e0 = Return e" "principal_ok (rq_principal e)" "sg_identity signer = rq_principal e"
    and "\<And>msg. length (sg_sign signer msg) = signature_size (pr_scheme (rq_principal e))"
    and "get_identity_verifier (ie_registry E) (pr_scheme (rq_principal e)) = Return w"
    and "\<And>msg. ie_verify E w (rq_principal e) msg (sg_sign signer msg)"
    and "rq_principal e \<in> set (ex_principals x)" "context_matches x e" "canonical_body_hash E body = Return (rq_body_hash e)"
    and "\<bar>now - rq_timestamp e\<bar> \<le> max_skew"
  shows "\<exists>r v. sign_request signer e = Return r \<and> ar_envelope r = e \<and>
     verify_request E (Model r) body now max_skew x None None raw_body headers = Return v \<and> dispatch_allowed v"
proof -
  have norm: "mk_request e = Return e" by (rule mk_request_normal [OF assms(1)])
  have "length (pr_identifier (rq_principal e)) \<le> 128" using assms(2) mk_identity_bound unfolding principal_ok_def by blast
  then obtain msg where msg: "canonical_request_bytes e = Return msg"
    using request_bytes_exist [of e] norm unfolding mk_request_eq by blast
  obtain p where p: "proof_from_bytes (pr_scheme (rq_principal e)) (sg_sign signer msg) = Return p"
      "sp_scheme p = pr_scheme (rq_principal e)" "proof_to_bytes p = Return (sg_sign signer msg)"
    using proof_from_bytes_ok [OF assms(4) [of msg]] by blast
  let ?r = "\<lparr>ar_envelope = e, ar_proof = p\<rparr>"
  have s: "sign_request signer e = Return ?r"
    using assms(3) msg p norm by (simp add: sign_request_def mk_auth_request_def)
  have c: "check_signature E (rq_principal e) (canonical_request_bytes e) p = Return True"
    using assms(5,6) msg p(3) by (simp add: check_signature_def lift_error_def)
  obtain h where h: "request_hash (ie_sha256 E) e = Return h" using replay_hash_exists [OF norm assms(2)] by blast
  have skew: "\<not> max_skew < 0" using assms(10) by linarith
  have "\<exists>v. verify_request E (Model ?r) body now max_skew x None None raw_body headers = Return v \<and> dispatch_allowed v"
    using assms(7-10) c h skew
    by (simp add: verify_request_def read_request_envelope_def read_envelope_def allows_def Let_def classify_replay_def
        replay_reservation_of_def lift_error_def capture_envelope_def dispatch_allowed_def)
  with s show ?thesis by auto
qed

text \<open>C35: what a principal signs, the authority accepts: an accepted envelope of a well-formed
  principal can be signed by that principal's signer, and a fresh signed request that matches
  the expected call, body and time is verified.  The hypothesis on the registered verifier is
  that it accepts the signatures the signer makes.\<close>

theorem signed_request_verifies:
  assumes "mk_request e0 = Return e" "principal_ok (rq_principal e)" "sg_identity signer = rq_principal e"
    and "\<And>msg. length (sg_sign signer msg) = signature_size (pr_scheme (rq_principal e))"
    and "get_identity_verifier (ie_registry E) (pr_scheme (rq_principal e)) = Return w"
    and "\<And>msg. ie_verify E w (rq_principal e) msg (sg_sign signer msg)"
    and "rq_principal e \<in> set (ex_principals x)" "context_matches x e" "canonical_body_hash E body = Return (rq_body_hash e)"
    and "\<bar>now - rq_timestamp e\<bar> \<le> max_skew"
  shows "\<exists>r v. sign_request signer e = Return r \<and> ar_envelope r = e \<and>
     verify_request E (Model r) body now max_skew x None None raw_body headers = Return v \<and> dispatch_allowed v"
  by (rule signed_request_accepted [OF assms])

section \<open>Witnesses\<close>

definition ex_principal :: principal where
  "ex_principal = \<lparr>pr_scheme = EIP191, pr_identifier = ''0x'' @ replicate 40 (CHR ''a'')\<rparr>"

definition ex_hash :: string where "ex_hash = replicate 64 (CHR ''0'')"

definition ex_envelope :: request_envelope where
  "ex_envelope = \<lparr>rq_role = ''buyer'', rq_principal = ex_principal, rq_method = ''POST'', rq_operation = ''deal.open'',
     rq_resource = ''/deals'', rq_request_id = ''r1'', rq_timestamp = 7, rq_body_hash = ex_hash\<rparr>"

definition ex_signer :: signer where
  "ex_signer = \<lparr>sg_identity = ex_principal, sg_sign = (\<lambda>_. replicate 65 (CHR ''s''))\<rparr>"

definition ex_ienv :: identity_env where
  "ex_ienv = \<lparr>ie_sha256 = (\<lambda>_. ex_hash), ie_canonical_json = (\<lambda>_. None), ie_json_loads = (\<lambda>_. None), ie_read = (\<lambda>_. None),
     ie_registry = \<lparr>rg_verifiers = [(EIP191, \<lparr>im_name = EIP191, im_token = 1\<rparr>)], rg_factories = []\<rparr>,
     ie_verify = (\<lambda>_ p _ sig. p = ex_principal \<and> sig = replicate 65 (CHR ''s''))\<rparr>"

definition ex_expect :: expectation where
  "ex_expect = \<lparr>ex_role = ''buyer'', ex_method = ''post'', ex_operation = ''deal.open'', ex_resource = ''/deals'', ex_principals = [ex_principal]\<rparr>"

lemma ex_envelope_ok: "mk_request ex_envelope = Return ex_envelope"
  by code_simp

theorem signed_bytes_identify_message_witness:
  "\<exists>b. canonical_request_bytes ex_envelope = Return b \<and> canonical_request_bytes (ex_envelope\<lparr>rq_resource := ''/other''\<rparr>) \<noteq> Return b"
proof -
  let ?o = "ex_envelope\<lparr>rq_resource := ''/other''\<rparr>"
  have o: "mk_request ?o = Return ?o" by code_simp
  have "envelope_problems ex_envelope = []" using ex_envelope_ok by (simp add: mk_request_eq)
  then obtain b where b: "canonical_request_bytes ex_envelope = Return b"
    using request_bytes_exist [of ex_envelope] by (auto simp: ex_envelope_def ex_principal_def)
  from signed_bytes_identify_message [OF ex_envelope_ok o b] b show ?thesis by (simp add: ex_envelope_def)
qed

lemma ex_principal_ok: "principal_ok ex_principal"
  by code_simp

lemma ex_accepts:
  "rq_principal ex_envelope = ex_principal" "pr_scheme ex_principal = EIP191"
  "get_identity_verifier (ie_registry ex_ienv) EIP191 = Return \<lparr>im_name = EIP191, im_token = 1\<rparr>"
  "ie_verify ex_ienv w ex_principal msg (sg_sign ex_signer msg)" "length (sg_sign ex_signer msg) = signature_size EIP191"
  "sg_identity ex_signer = ex_principal" "ex_principal \<in> set (ex_principals ex_expect)"
  "context_matches ex_expect ex_envelope" "canonical_body_hash ex_ienv None = Return (rq_body_hash ex_envelope)" "rq_timestamp ex_envelope = 7"
  by (simp_all add: ex_envelope_def ex_principal_def get_identity_verifier_def ex_ienv_def ex_signer_def signature_size_def ex_expect_def
      context_matches_def canonical_body_hash_def) code_simp

theorem signed_request_verifies_witness:
  "\<exists>r v. sign_request ex_signer ex_envelope = Return r \<and> verify_request ex_ienv (Model r) None 9 5 ex_expect None None None [] = Return v \<and> dispatch_allowed v"
proof -
  have "\<exists>r v. sign_request ex_signer ex_envelope = Return r \<and> ar_envelope r = ex_envelope \<and>
     verify_request ex_ienv (Model r) None 9 5 ex_expect None None None [] = Return v \<and> dispatch_allowed v"
    by (rule signed_request_verifies [OF ex_envelope_ok, where w = "\<lparr>im_name = EIP191, im_token = 1\<rparr>"]) (simp_all add: ex_accepts ex_principal_ok)
  then show ?thesis by blast
qed

theorem verified_request_is_authentic_witness:
  "\<exists>r v. sign_request ex_signer ex_envelope = Return r \<and> verify_request ex_ienv (Model r) None 9 5 ex_expect None None None [] = Return v \<and>
     verified v \<and> \<bar>9 - rq_timestamp (ar_envelope r)\<bar> \<le> 5"
proof -
  have "\<exists>r v. sign_request ex_signer ex_envelope = Return r \<and> ar_envelope r = ex_envelope \<and>
     verify_request ex_ienv (Model r) None 9 5 ex_expect None None None [] = Return v \<and> dispatch_allowed v"
    by (rule signed_request_accepted [OF ex_envelope_ok, where w = "\<lparr>im_name = EIP191, im_token = 1\<rparr>"]) (simp_all add: ex_accepts ex_principal_ok)
  then obtain r v where r: "sign_request ex_signer ex_envelope = Return r"
      and v: "verify_request ex_ienv (Model r) None 9 5 ex_expect None None None [] = Return v" "verified v"
    by (auto simp: dispatch_allowed_def verified_def)
  from verified_request_is_authentic [OF v] r v show ?thesis
    by (auto simp: read_request_envelope_def read_envelope_def)
qed

end
