(* ===== verification/Credit_Keys.thy ===== *)
theory Credit_Keys
  imports Ledger_Runs Market_Identity
begin

text \<open>
  The API credits authority: \<open>KeysService\<close> of
  \<open>src/domains/apicredits/service/src/apicredits_service/services/keys_service.py\<close>, over the
  tables of \<open>db/models.py\<close> and the contract models of \<open>models/keys_model.py\<close>.  It owns keys,
  immutable credit grants and consumption, and takes quota from a site ledger
  (\<open>Site_Ledger\<close>), whose transactions commit on their own.

  An operation maps the state to the state it leaves and the value it returns or exception
  it raises.  A refused issuance leaves keys and grants as they were; what it already did to
  the quota ledger stays.  \<open>keys_env\<close> holds the hash, the canonical JSON, the stream of
  random tokens and the ledger's configuration.
\<close>

section \<open>Tables and contract models\<close>

record api_key =
  ak_id :: string
  ak_secret_hash :: string
  ak_owner_scheme :: "string option"
  ak_owner_id :: "string option"
  ak_status :: string
  ak_balance :: int
  ak_created_at :: int

record credit_grant =
  cg_key :: string
  cg_fulfillment :: "string option"
  cg_negotiation :: "string option"
  cg_service :: "string option"
  cg_resource :: "string option"
  cg_key_mode :: "string option"
  cg_key_target :: "string option"
  cg_owner_scheme :: "string option"
  cg_owner_id :: "string option"
  cg_digest :: "string option"
  cg_reservation :: "string option"
  cg_result_balance :: "int option"
  cg_quantity :: int
  cg_reason :: string
  cg_granted_at :: int

record consumption_event =
  ce_key :: string
  ce_amount :: int
  ce_idempotency :: "string option"
  ce_occurred_at :: int

record credits =
  api_keys :: "api_key list"
  grants :: "credit_grant list"
  usage :: "consumption_event list"
  quota :: ledger
  tokens :: nat

record keys_env =
  ke_sha256 :: "string \<Rightarrow> string"
  ke_json :: "pyval \<Rightarrow> string option"
  ke_token :: "nat \<Rightarrow> string"
  ke_site :: config

datatype keys_error =
    Issuance string
  | Bad_Value string
  | Quota_Error ledger_error
  | Missing_Api_Key
  | Integrity_Error

definition KEY_NOT_FOUND :: string where "KEY_NOT_FOUND = ''key_not_found''"
definition KEY_NOT_OWNED :: string where "KEY_NOT_OWNED = ''key_not_owned''"
definition KEY_REVOKED :: string where "KEY_REVOKED = ''key_revoked''"
definition QUOTA_EXHAUSTED :: string where "QUOTA_EXHAUSTED = ''quota_exhausted''"
definition FULFILLMENT_CONFLICT :: string where "FULFILLMENT_CONFLICT = ''fulfillment_conflict''"
definition INSUFFICIENT_CREDITS :: string where "INSUFFICIENT_CREDITS = ''insufficient_credits''"

definition safe_ref :: "string \<Rightarrow> bool" where
  "safe_ref s = (is_request_id s \<and> length s \<le> 255)"

definition derive_credit_fulfillment_id :: "keys_env \<Rightarrow> string \<Rightarrow> (keys_error, string) result" where
  "derive_credit_fulfillment_id K negotiation =
     (if \<not> safe_ref negotiation then Raise (Bad_Value ''negotiation_id'')
      else (case ke_json K (PDict [(PStr ''domain'', PStr ''api-credits''), (PStr ''negotiation_id'', PStr negotiation), (PStr ''version'', PInt 1)]) of
          None \<Rightarrow> Raise (Bad_Value ''canonical'')
        | Some b \<Rightarrow> Return (''api-credit-fulfillment.v1:'' @ ke_sha256 K b)))"

record key_disposition =
  kd_mode :: string
  kd_key_id :: "string option"

definition mk_disposition :: "string \<Rightarrow> string option \<Rightarrow> (keys_error, key_disposition) result" where
  "mk_disposition mode key_id =
     (if mode \<noteq> ''new'' \<and> mode \<noteq> ''existing'' then Raise (Bad_Value ''mode'')
      else if (case key_id of None \<Rightarrow> False | Some k \<Rightarrow> k = [] \<or> length k > 255) then Raise (Bad_Value ''key_id'')
      else if mode = ''new'' \<and> key_id \<noteq> None then Raise (Bad_Value ''key_id'')
      else if mode = ''existing'' \<and> key_id = None then Raise (Bad_Value ''key_id'')
      else Return \<lparr>kd_mode = mode, kd_key_id = key_id\<rparr>)"

record issuance =
  is_fulfillment :: string
  is_negotiation :: string
  is_owner_scheme :: string
  is_owner_id :: string
  is_service :: string
  is_resource :: string
  is_quantity :: int
  is_key_mode :: string
  is_digest :: string
  is_key_id :: "string option"
  is_reservation :: "string option"

definition opt_text :: "string option \<Rightarrow> pyval" where
  "opt_text s = (case s of None \<Rightarrow> PNone | Some t \<Rightarrow> PStr t)"

definition issuance_request_digest :: "keys_env \<Rightarrow> issuance \<Rightarrow> principal \<Rightarrow> key_disposition \<Rightarrow> (keys_error, string) result" where
  "issuance_request_digest K q owner key =
     (case ke_json K (PDict [(PStr ''fulfillment_id'', PStr (is_fulfillment q)),
         (PStr ''key'', PDict [(PStr ''mode'', PStr (kd_mode key)), (PStr ''key_id'', opt_text (kd_key_id key))]),
         (PStr ''negotiation_id'', PStr (is_negotiation q)),
         (PStr ''owner'', PDict [(PStr ''scheme'', PStr (scheme_value (pr_scheme owner))), (PStr ''identifier'', PStr (pr_identifier owner))]),
         (PStr ''quantity'', PInt (is_quantity q)), (PStr ''resource_id'', PStr (is_resource q)),
         (PStr ''schema'', PStr ''arkhai.api-credits.issuance-request.v1''), (PStr ''service'', PStr (is_service q))]) of
        None \<Rightarrow> Raise (Bad_Value ''canonical'')
      | Some b \<Rightarrow> Return (''sha256:'' @ ke_sha256 K b))"

definition digest_text :: "string \<Rightarrow> bool" where
  "digest_text s = (take 7 s = ''sha256:'' \<and> is_sha256 (drop 7 s))"

definition issuance_request :: "keys_env \<Rightarrow> issuance \<Rightarrow> principal \<Rightarrow> key_disposition \<Rightarrow> (keys_error, unit) result" where
  "issuance_request K q owner key =
     (if \<not> len_in 1 320 (is_fulfillment q) \<or> \<not> len_in 1 255 (is_negotiation q) \<or> \<not> len_in 1 255 (is_service q) \<or>
         \<not> len_in 1 255 (is_resource q) \<or> is_quantity q < 1 \<or> \<not> digest_text (is_digest q) \<or>
         (case is_reservation q of None \<Rightarrow> False | Some r \<Rightarrow> \<not> len_in 1 255 r) then Raise (Bad_Value ''issuance'')
      else res_bind (derive_credit_fulfillment_id K (is_negotiation q)) (\<lambda>f.
        if is_fulfillment q \<noteq> f then Raise (Bad_Value ''fulfillment_id'')
        else res_bind (issuance_request_digest K q owner key) (\<lambda>d.
          if is_digest q \<noteq> d then Raise (Bad_Value ''request_digest'') else Return ())))"

section \<open>Secrets and principals\<close>

definition hash_secret :: "keys_env \<Rightarrow> string \<Rightarrow> string" where
  "hash_secret K secret = ke_sha256 K (utf8 secret)"

definition new_secret :: "keys_env \<Rightarrow> nat \<Rightarrow> string \<Rightarrow> string" where
  "new_secret K n key_id = key_id @ ''.'' @ ke_token K n"

definition derive_key_id :: "keys_env \<Rightarrow> string \<Rightarrow> string" where
  "derive_key_id K fulfillment = ''ak_'' @ take 16 (ke_sha256 K (utf8 (''key:'' @ fulfillment)))"

definition keys_principal :: "string option \<Rightarrow> string option \<Rightarrow> (keys_error, principal option) result" where
  "keys_principal scheme identifier = (case (scheme, identifier) of
     (None, None) \<Rightarrow> Return None
   | (Some s, Some i) \<Rightarrow> (case parse_scheme s of
        None \<Rightarrow> Raise (Bad_Value ''scheme'')
      | Some sc \<Rightarrow> (case mk_identity sc i of Inl _ \<Rightarrow> Raise (Bad_Value ''identifier'') | Inr p \<Rightarrow> Return (Some p)))
   | _ \<Rightarrow> Raise (Bad_Value ''principal''))"

definition owner_admits :: "api_key \<Rightarrow> principal option \<Rightarrow> (keys_error, bool) result" where
  "owner_admits k buyer = res_bind (keys_principal (ak_owner_scheme k) (ak_owner_id k)) (\<lambda>owner.
     Return (owner = None \<or> buyer = owner))"

section \<open>Rows\<close>

definition key_by_id :: "credits \<Rightarrow> string \<Rightarrow> api_key option" where
  "key_by_id S kid = find (\<lambda>k. ak_id k = kid) (api_keys S)"

definition update_key :: "string \<Rightarrow> (api_key \<Rightarrow> api_key) \<Rightarrow> credits \<Rightarrow> credits" where
  "update_key kid f S = S\<lparr>api_keys := map (\<lambda>k. if ak_id k = kid then f k else k) (api_keys S)\<rparr>"

definition grant_by_fulfillment :: "credits \<Rightarrow> string \<Rightarrow> credit_grant option" where
  "grant_by_fulfillment S f = find (\<lambda>g. cg_fulfillment g = Some f) (grants S)"

record grant_result =
  gr_fulfillment :: "string option"
  gr_negotiation :: "string option"
  gr_owner :: "principal option"
  gr_service :: "string option"
  gr_resource :: "string option"
  gr_quantity :: int
  gr_key_mode :: "string option"
  gr_key_id :: string
  gr_balance :: int
  gr_digest :: "string option"
  gr_committed_at :: int
  gr_reservation :: "string option"
  gr_already_issued :: bool
  gr_secret :: "string option"

definition grant_result_of :: "credit_grant \<Rightarrow> api_key \<Rightarrow> string option \<Rightarrow> bool \<Rightarrow> (keys_error, grant_result) result" where
  "grant_result_of g k secret already = res_bind (keys_principal (cg_owner_scheme g) (cg_owner_id g)) (\<lambda>owner.
     Return \<lparr>gr_fulfillment = cg_fulfillment g, gr_negotiation = cg_negotiation g, gr_owner = owner, gr_service = cg_service g,
       gr_resource = cg_resource g, gr_quantity = cg_quantity g, gr_key_mode = cg_key_mode g, gr_key_id = ak_id k,
       gr_balance = (case cg_result_balance g of Some b \<Rightarrow> b | None \<Rightarrow> ak_balance k), gr_digest = cg_digest g,
       gr_committed_at = cg_granted_at g div SECOND, gr_reservation = cg_reservation g, gr_already_issued = already, gr_secret = secret\<rparr>)"

section \<open>Issuance\<close>

definition assert_replay :: "credit_grant \<Rightarrow> issuance \<Rightarrow> principal \<Rightarrow> key_disposition \<Rightarrow> (keys_error, unit) result" where
  "assert_replay g q owner key =
     (if cg_negotiation g = Some (is_negotiation q) \<and> cg_owner_scheme g = Some (scheme_value (pr_scheme owner)) \<and>
         cg_owner_id g = Some (pr_identifier owner) \<and> cg_service g = Some (is_service q) \<and> cg_resource g = Some (is_resource q) \<and>
         cg_quantity g = is_quantity q \<and> cg_key_mode g = Some (kd_mode key) \<and> cg_key_target g = kd_key_id key \<and>
         cg_digest g = Some (is_digest q)
      then Return () else Raise (Issuance FULFILLMENT_CONFLICT))"

text \<open>A key whose first grant is retried before any use gets a fresh secret.\<close>

definition reissue :: "keys_env \<Rightarrow> credit_grant \<Rightarrow> credits \<Rightarrow> credits \<times> (keys_error, grant_result) result" where
  "reissue K prior S = (case key_by_id S (cg_key prior) of
     None \<Rightarrow> (S, Raise Missing_Api_Key)
   | Some k \<Rightarrow>
       (case res_bind (keys_principal (cg_owner_scheme prior) (cg_owner_id prior)) (owner_admits k) of
          Inl e \<Rightarrow> (S, Raise e)
        | Inr own \<Rightarrow>
            if \<not> own then (S, Raise (Issuance KEY_NOT_OWNED))
            else if cg_key_mode prior = Some ''new'' \<and> ak_status k = ''active'' \<and> \<not> list_ex (\<lambda>c. ce_key c = ak_id k) (usage S)
            then (let secret = new_secret K (tokens S) (ak_id k) in
                  ((update_key (ak_id k) (\<lambda>k. k\<lparr>ak_secret_hash := hash_secret K secret\<rparr>) S)\<lparr>tokens := Suc (tokens S)\<rparr>,
                   grant_result_of prior k (Some secret) True))
            else (S, grant_result_of prior k None True)))"

definition API_CREDITS :: string where "API_CREDITS = ''api_credits''"

definition reserved_id :: "reserve_payload \<Rightarrow> string" where
  "reserved_id r = (case r of Fresh _ rid _ _ \<Rightarrow> rid | Existing pl _ \<Rightarrow> pl_id pl)"

definition hold_matches :: "ledger \<Rightarrow> reservation_payload \<Rightarrow> issuance \<Rightarrow> bool" where
  "hold_matches L pl q = (pl_offering_mode pl = Some API_CREDITS \<and> pl_units pl = is_quantity q \<and>
     backing_resource_id L (pl_id pl) = Some (is_resource q) \<and> get_val (pl_deal_ref pl) ''negotiation_id'' = PStr (is_negotiation q))"

definition conflict_as_exhausted :: "ledger_error \<Rightarrow> keys_error" where
  "conflict_as_exhausted e = (case e of CannotCommit _ \<Rightarrow> Issuance QUOTA_EXHAUSTED | _ \<Rightarrow> Quota_Error e)"

text \<open>Taking quota afresh: a hold for the exact quantity and resource, committed at once.\<close>

definition reserve_quota :: "keys_env \<Rightarrow> int \<Rightarrow> issuance \<Rightarrow> ledger \<Rightarrow> ledger \<times> (keys_error, string) result" where
  "reserve_quota K now q L =
     (let C = ke_site K in
      case reserve C now [(''offering_mode'', PStr API_CREDITS), (''resource_id'', PStr (is_resource q)), (''units'', PInt (is_quantity q))]
          [(''escrow_uid'', PStr (is_fulfillment q)), (''negotiation_id'', PStr (is_negotiation q))] None None None L of
        (L1, Inl e) \<Rightarrow> (L1, Raise (Quota_Error e))
      | (L1, Inr None) \<Rightarrow> (L1, Raise (Issuance QUOTA_EXHAUSTED))
      | (L1, Inr (Some r)) \<Rightarrow>
          (case commit C now None (Some (reserved_id r)) None None [] L1 of
             (L2, Inl e) \<Rightarrow> (L2, Raise (conflict_as_exhausted e))
           | (L2, Inr None) \<Rightarrow> (L2, Raise (Issuance QUOTA_EXHAUSTED))
           | (L2, Inr (Some pl)) \<Rightarrow> (L2, Return (pl_id pl))))"

text \<open>The reservation of the fulfillment, or the one the request names.\<close>

definition stored_hold :: "keys_env \<Rightarrow> issuance \<Rightarrow> ledger \<Rightarrow> reservation_payload option" where
  "stored_hold K q L = (case get_reservation_by_escrow (ke_site K) (is_fulfillment q) L of
     Some pl \<Rightarrow> Some pl
   | None \<Rightarrow> if is_truthy (is_reservation q) then get_reservation (ke_site K) (the (is_reservation q)) L else None)"

definition commit_quota :: "keys_env \<Rightarrow> int \<Rightarrow> issuance \<Rightarrow> ledger \<Rightarrow> ledger \<times> (keys_error, string) result" where
  "commit_quota K now q L = (case expire_due_holds (ke_site K) now L of
     (L1, Inl e) \<Rightarrow> (L1, Raise (Quota_Error e))
   | (L1, Inr _) \<Rightarrow>
       (case stored_hold K q L1 of
          None \<Rightarrow> reserve_quota K now q L1
        | Some pl \<Rightarrow>
            if pl_state pl = Reserved \<or> pl_state pl = Leased then
              (if \<not> hold_matches L1 pl q then (L1, Raise (Issuance FULFILLMENT_CONFLICT))
               else (case commit (ke_site K) now None (Some (pl_id pl)) None None [] L1 of
                   (L2, Inl e) \<Rightarrow> (L2, Raise (Quota_Error e))
                 | (L2, Inr None) \<Rightarrow> reserve_quota K now q L2
                 | (L2, Inr (Some c)) \<Rightarrow> (L2, Return (pl_id c))))
            else reserve_quota K now q L1))"

text \<open>The key an issuance credits, in the session: an existing key of the owner, or the key
  derived from the fulfillment, created or given a fresh secret.\<close>

definition target_key :: "keys_env \<Rightarrow> int \<Rightarrow> issuance \<Rightarrow> principal \<Rightarrow> key_disposition \<Rightarrow> credits \<Rightarrow>
     (keys_error, credits \<times> api_key \<times> string option) result" where
  "target_key K now q owner key S =
     (if kd_mode key = ''existing'' then
        (case key_by_id S (the (kd_key_id key)) of
           None \<Rightarrow> Raise (Issuance KEY_NOT_FOUND)
         | Some k \<Rightarrow>
             if ak_status k \<noteq> ''active'' then Raise (Issuance KEY_REVOKED)
             else res_bind (owner_admits k (Some owner)) (\<lambda>own.
               if \<not> own then Raise (Issuance KEY_NOT_OWNED) else Return (S, k, None)))
      else
        (let new_id = derive_key_id K (is_fulfillment q); secret = new_secret K (tokens S) new_id in
         case key_by_id S new_id of
           None \<Rightarrow>
             (let k = \<lparr>ak_id = new_id, ak_secret_hash = hash_secret K secret, ak_owner_scheme = Some (scheme_value (pr_scheme owner)),
                   ak_owner_id = Some (pr_identifier owner), ak_status = ''active'', ak_balance = 0, ak_created_at = now\<rparr> in
              Return (S\<lparr>api_keys := api_keys S @ [k], tokens := Suc (tokens S)\<rparr>, k, Some secret))
         | Some k \<Rightarrow>
             res_bind (keys_principal (ak_owner_scheme k) (ak_owner_id k)) (\<lambda>stored.
               if stored \<noteq> Some owner then Raise (Issuance FULFILLMENT_CONFLICT)
               else if ak_status k \<noteq> ''active'' then Raise (Issuance KEY_REVOKED)
               else (let rotate = (\<lambda>k. k\<lparr>ak_secret_hash := hash_secret K secret\<rparr>) in
                     Return ((update_key new_id rotate S)\<lparr>tokens := Suc (tokens S)\<rparr>, rotate k, Some secret)))))"

definition new_grant :: "issuance \<Rightarrow> principal \<Rightarrow> key_disposition \<Rightarrow> string \<Rightarrow> string \<Rightarrow> int \<Rightarrow> int \<Rightarrow> credit_grant" where
  "new_grant q owner key kid reservation balance now = \<lparr>cg_key = kid, cg_fulfillment = Some (is_fulfillment q),
     cg_negotiation = Some (is_negotiation q), cg_service = Some (is_service q), cg_resource = Some (is_resource q),
     cg_key_mode = Some (kd_mode key), cg_key_target = kd_key_id key, cg_owner_scheme = Some (scheme_value (pr_scheme owner)),
     cg_owner_id = Some (pr_identifier owner), cg_digest = Some (is_digest q), cg_reservation = Some reservation,
     cg_result_balance = Some balance, cg_quantity = is_quantity q, cg_reason = ''issuance'', cg_granted_at = now\<rparr>"

definition replay :: "keys_env \<Rightarrow> issuance \<Rightarrow> principal \<Rightarrow> key_disposition \<Rightarrow> credit_grant \<Rightarrow> credits \<Rightarrow> credits \<times> (keys_error, grant_result) result" where
  "replay K q owner key prior S = (case assert_replay prior q owner key of
     Inl e \<Rightarrow> (S, Raise e) | Inr _ \<Rightarrow> reissue K prior S)"

text \<open>The columns of a grant that are unique: a clash rolls the session back.\<close>

definition grant_clashes :: "credits \<Rightarrow> issuance \<Rightarrow> bool" where
  "grant_clashes S q = list_ex (\<lambda>g. cg_fulfillment g = Some (is_fulfillment q) \<or> cg_negotiation g = Some (is_negotiation q)) (grants S)"

definition issue_valid :: "keys_env \<Rightarrow> int \<Rightarrow> issuance \<Rightarrow> principal \<Rightarrow> key_disposition \<Rightarrow> credits \<Rightarrow> credits \<times> (keys_error, grant_result) result" where
  "issue_valid K now q owner key S = (case grant_by_fulfillment S (is_fulfillment q) of
     Some prior \<Rightarrow> replay K q owner key prior S
   | None \<Rightarrow>
       (case target_key K now q owner key S of
          Inl e \<Rightarrow> (S, Raise e)
        | Inr (S1, k, secret) \<Rightarrow>
            (case commit_quota K now q (quota S) of
               (L, Inl e) \<Rightarrow> (S\<lparr>quota := L, tokens := tokens S1\<rparr>, Raise e)
             | (L, Inr reservation) \<Rightarrow>
                 if grant_clashes S q then
                   (let S' = S\<lparr>quota := L, tokens := tokens S1\<rparr> in
                    case grant_by_fulfillment S' (is_fulfillment q) of
                      None \<Rightarrow> (S', Raise Integrity_Error)
                    | Some prior \<Rightarrow> replay K q owner key prior S')
                 else
                   (let balance = ak_balance k + is_quantity q;
                        g = new_grant q owner key (ak_id k) reservation balance now;
                        S2 = (update_key (ak_id k) (\<lambda>k. k\<lparr>ak_balance := balance\<rparr>) S1)\<lparr>grants := grants S1 @ [g], quota := L\<rparr> in
                    (S2, grant_result_of g k secret False)))))"

definition issue :: "keys_env \<Rightarrow> int \<Rightarrow> issuance \<Rightarrow> credits \<Rightarrow> credits \<times> (keys_error, grant_result) result" where
  "issue K now q S =
     (case res_bind (keys_principal (Some (is_owner_scheme q)) (Some (is_owner_id q))) (\<lambda>owner.
             res_bind (mk_disposition (is_key_mode q) (is_key_id q)) (\<lambda>key.
               res_bind (issuance_request K q (the owner) key) (\<lambda>_. Return (the owner, key)))) of
        Inl e \<Rightarrow> (S, Raise e)
      | Inr (owner, key) \<Rightarrow> issue_valid K now q owner key S)"

definition get_credit_issuance :: "string \<Rightarrow> credits \<Rightarrow> (keys_error, grant_result option) result" where
  "get_credit_issuance f S = (case grant_by_fulfillment S f of
     None \<Rightarrow> Return None
   | Some g \<Rightarrow> (case key_by_id S (cg_key g) of
        None \<Rightarrow> Raise Missing_Api_Key
      | Some k \<Rightarrow> res_bind (grant_result_of g k None True) (\<lambda>r. Return (Some r))))"

section \<open>Consumption\<close>

datatype consume_result =
    Consumed int int
  | Duplicate int
  | Refused_Consume string int

definition consume :: "int \<Rightarrow> string \<Rightarrow> int \<Rightarrow> string option \<Rightarrow> credits \<Rightarrow> credits \<times> (keys_error, consume_result) result" where
  "consume now kid amount idem S =
     (if amount < 1 then (S, Raise (Bad_Value ''amount''))
      else (case key_by_id S kid of
          None \<Rightarrow> (S, Return (Refused_Consume KEY_NOT_FOUND 0))
        | Some k \<Rightarrow>
            if ak_status k \<noteq> ''active'' then (S, Return (Refused_Consume KEY_REVOKED (ak_balance k)))
            else if idem \<noteq> None \<and> list_ex (\<lambda>c. ce_key c = kid \<and> ce_idempotency c = idem) (usage S)
            then (S, Return (Duplicate (ak_balance k)))
            else if ak_balance k < amount then (S, Return (Refused_Consume INSUFFICIENT_CREDITS (ak_balance k)))
            else ((update_key kid (\<lambda>k. k\<lparr>ak_balance := ak_balance k - amount\<rparr>) S)\<lparr>usage := usage S @
                   [\<lparr>ce_key = kid, ce_amount = amount, ce_idempotency = idem, ce_occurred_at = now\<rparr>]\<rparr>,
                  Return (Consumed amount (ak_balance k - amount)))))"

fun consume_batch :: "int \<Rightarrow> (string \<times> int \<times> string option) list \<Rightarrow> credits \<Rightarrow> credits \<times> (keys_error, consume_result list) result" where
  "consume_batch now [] S = (S, Return [])"
| "consume_batch now ((kid, amount, idem) # items) S = (case consume now kid amount idem S of
     (S1, Inl e) \<Rightarrow> (S1, Raise e)
   | (S1, Inr r) \<Rightarrow> (case consume_batch now items S1 of
        (S2, Inl e) \<Rightarrow> (S2, Raise e) | (S2, Inr rs) \<Rightarrow> (S2, Return (r # rs))))"

definition verify_key :: "keys_env \<Rightarrow> string \<Rightarrow> string \<Rightarrow> credits \<Rightarrow> bool \<times> string option \<times> int" where
  "verify_key K kid secret S = (case key_by_id S kid of
     None \<Rightarrow> (False, None, 0)
   | Some k \<Rightarrow> (hash_secret K secret = ak_secret_hash k \<and> ak_status k = ''active'', Some (ak_status k), ak_balance k))"

section \<open>Administration\<close>

record key_payload =
  kp_id :: string
  kp_status :: string
  kp_owner_scheme :: "string option"
  kp_owner_id :: "string option"
  kp_balance :: int
  kp_created_at :: int

definition key_payload_of :: "api_key \<Rightarrow> key_payload" where
  "key_payload_of k = \<lparr>kp_id = ak_id k, kp_status = ak_status k, kp_owner_scheme = ak_owner_scheme k, kp_owner_id = ak_owner_id k,
     kp_balance = ak_balance k, kp_created_at = ak_created_at k\<rparr>"

definition get_key :: "string \<Rightarrow> credits \<Rightarrow> key_payload option" where
  "get_key kid S = map_option key_payload_of (key_by_id S kid)"

definition list_keys :: "string option \<Rightarrow> string option \<Rightarrow> credits \<Rightarrow> key_payload list" where
  "list_keys status owner S = map key_payload_of (sort_key ak_created_at (filter (\<lambda>k. (status = None \<or> status = Some (ak_status k)) \<and>
     (owner = None \<or> owner = ak_owner_id k)) (api_keys S)))"

definition revoke :: "string \<Rightarrow> credits \<Rightarrow> credits \<times> key_payload option" where
  "revoke kid S = (case key_by_id S kid of
     None \<Rightarrow> (S, None)
   | Some k \<Rightarrow> (update_key kid (\<lambda>k. k\<lparr>ak_status := ''revoked''\<rparr>) S, Some (key_payload_of (k\<lparr>ak_status := ''revoked''\<rparr>))))"

definition adjust :: "int \<Rightarrow> string \<Rightarrow> int \<Rightarrow> string option \<Rightarrow> credits \<Rightarrow> credits \<times> (keys_error, key_payload option) result" where
  "adjust now kid delta reason S =
     (if delta = 0 then (S, Raise (Bad_Value ''delta''))
      else (case key_by_id S kid of
          None \<Rightarrow> (S, Return None)
        | Some k \<Rightarrow>
            if ak_balance k + delta < 0 then (S, Raise (Bad_Value ''balance''))
            else
              (let g = \<lparr>cg_key = kid, cg_fulfillment = None, cg_negotiation = None, cg_service = None, cg_resource = None, cg_key_mode = None,
                     cg_key_target = None, cg_owner_scheme = None, cg_owner_id = None, cg_digest = None, cg_reservation = None,
                     cg_result_balance = None, cg_quantity = delta,
                     cg_reason = (if is_truthy reason then the reason else ''admin_adjustment''), cg_granted_at = now\<rparr> in
               ((update_key kid (\<lambda>k. k\<lparr>ak_balance := ak_balance k + delta\<rparr>) S)\<lparr>grants := grants S @ [g]\<rparr>,
                Return (Some (key_payload_of (k\<lparr>ak_balance := ak_balance k + delta\<rparr>)))))))"

text \<open>A row's identifier is its position in its table, counted from one.\<close>

definition list_grants :: "string \<Rightarrow> credits \<Rightarrow> (nat \<times> credit_grant) list" where
  "list_grants kid S = filter (\<lambda>(_, g). cg_key g = kid) (zip [1..<Suc (length (grants S))] (grants S))"

definition list_usage :: "string \<Rightarrow> nat \<Rightarrow> nat \<Rightarrow> credits \<Rightarrow> (nat \<times> consumption_event) list" where
  "list_usage kid after_id limit S =
     take limit (filter (\<lambda>(i, c). ce_key c = kid \<and> after_id < i) (zip [1..<Suc (length (usage S))] (usage S)))"

end
