(* ===== verification/Credit_Quota.thy ===== *)
theory Credit_Quota
  imports Credit_Keys Ledger_Guarantees
begin

text \<open>
  The credits authority as a client of the quota ledger.  \<open>quota_use\<close> is what \<open>_commit_quota\<close>
  relies on: every ledger operation it calls keeps an invariant and moves along a preorder.
  It is interpreted for the ledger's invariant and lifecycle and for the absence of oversell.
  The second part follows the lease a successful issuance takes.
\<close>

section \<open>The interface to the quota ledger\<close>

definition api_claim :: "issuance \<Rightarrow> claim" where
  "api_claim q = [(''offering_mode'', PStr API_CREDITS), (''resource_id'', PStr (is_resource q)), (''units'', PInt (is_quantity q))]"

definition api_deal :: "issuance \<Rightarrow> (string \<times> pyval) list" where
  "api_deal q = [(''escrow_uid'', PStr (is_fulfillment q)), (''negotiation_id'', PStr (is_negotiation q))]"

locale quota_use =
  fixes C :: config and inv :: "ledger \<Rightarrow> bool" and moves :: "ledger \<Rightarrow> ledger \<Rightarrow> bool"
  assumes expire_keeps: "inv L \<Longrightarrow> inv (fst (expire_due_holds C now L)) \<and> moves L (fst (expire_due_holds C now L))"
    and reserve_keeps: "inv L \<Longrightarrow> inv (fst (reserve C now (api_claim q) deal None None None L)) \<and>
      moves L (fst (reserve C now (api_claim q) deal None None None L))"
    and commit_keeps: "inv L \<Longrightarrow> inv (fst (commit C now None rid None None [] L)) \<and> moves L (fst (commit C now None rid None None [] L))"
    and moves_trans: "moves L L1 \<Longrightarrow> moves L1 L2 \<Longrightarrow> moves L L2"
begin

lemma reserve_quota_keeps:
  assumes "ke_site K = C" "inv L"
  shows "inv (fst (reserve_quota K now q L)) \<and> moves L (fst (reserve_quota K now q L))"
proof -
  obtain L1 x where r: "reserve C now (api_claim q) (api_deal q) None None None L = (L1, x)" by fastforce
  have k: "inv L1 \<and> moves L L1" using reserve_keeps [OF assms(2), of now q "api_deal q"] r by simp
  note r' = r [unfolded api_claim_def api_deal_def]
  show ?thesis
  proof (cases x)
    case (Inr y)
    show ?thesis
    proof (cases y)
      case (Some p)
      obtain L2 z where c: "commit C now None (Some (reserved_id p)) None None [] L1 = (L2, z)" by fastforce
      have "inv L2 \<and> moves L1 L2" using commit_keeps [of L1 now "Some (reserved_id p)"] k c by simp
      moreover have "fst (reserve_quota K now q L) = L2"
        using assms(1) r' Inr Some c by (auto simp: reserve_quota_def Let_def split: sum.split option.split)
      ultimately show ?thesis using k moves_trans by blast
    qed (use assms(1) r' Inr k in \<open>simp add: reserve_quota_def Let_def\<close>)
  qed (use assms(1) r' k in \<open>simp add: reserve_quota_def Let_def\<close>)
qed

lemma commit_quota_keeps:
  assumes "ke_site K = C" "inv L"
  shows "inv (fst (commit_quota K now q L)) \<and> moves L (fst (commit_quota K now q L))"
proof -
  obtain L1 x where e: "expire_due_holds C now L = (L1, x)" by fastforce
  have k: "inv L1 \<and> moves L L1" using expire_keeps [OF assms(2), of now] e by simp
  have r: "inv (fst (reserve_quota K now q L2)) \<and> moves L (fst (reserve_quota K now q L2))" if "inv L2" "moves L L2" for L2
    using reserve_quota_keeps [OF assms(1) that(1)] that(2) moves_trans by blast
  have c: "inv L2 \<and> moves L L2" if "commit C now None rid None None [] L1 = (L2, z)" for rid L2 z
    using commit_keeps [of L1 now rid] that k moves_trans by auto
  show ?thesis
  proof (cases x)
    case (Inr u)
    show ?thesis
    proof (cases "\<exists>pl. stored_hold K q L1 = Some pl \<and> (pl_state pl = Reserved \<or> pl_state pl = Leased)")
      case True
      then obtain pl where pl: "stored_hold K q L1 = Some pl" "pl_state pl = Reserved \<or> pl_state pl = Leased" by blast
      obtain L2 z where z: "commit C now None (Some (pl_id pl)) None None [] L1 = (L2, z)" by fastforce
      have "fst (commit_quota K now q L) \<in> {L1, L2, fst (reserve_quota K now q L2)}"
        using assms(1) e Inr pl z by (auto simp: commit_quota_def split: sum.split option.split)
      with k c [OF z] r [of L2] show ?thesis by auto
    next
      case False
      then have "commit_quota K now q L = reserve_quota K now q L1"
        using assms(1) e Inr by (auto simp: commit_quota_def split: option.split)
      with k r [of L1] show ?thesis by simp
    qed
  qed (use assms(1) e k in \<open>simp add: commit_quota_def Let_def\<close>)
qed

end

lemma api_claim_dims:
  assumes "unit_claim_keys C = [''units'']" "requested_dimensions (cfg_env C) (api_claim q) (unit_claim_keys C) m = Return d"
  shows "d = [(m, of_int (is_quantity q))]"
  using assms by (auto simp: requested_dimensions_def api_claim_def DIMENSIONS_CLAIM_KEY_def requested_units_def get_val_def Let_def
      res_bind_Inr_iff split: if_splits)

lemma api_claim_exact: "unit_claim_keys C = [''units''] \<Longrightarrow> exact_claim C (api_claim q)"
  using api_claim_dims [of C q "mirror_dimension C"]
  by (auto simp: exact_claim_def exact_dims_def serialize_integral split: sum.split)

text \<open>The quota ledger as \<open>container.init\<close> builds it: units are claimed by \<open>units\<close>, which also is
  the mirrored dimension, and no guard or effect is installed.\<close>

definition quota_wired :: "config \<Rightarrow> bool" where
  "quota_wired C = (unit_claim_keys C = [''units''] \<and> mirror_dimension C = ''units'' \<and> release_guard C = None \<and> release_effect C = None)"

interpretation quota_life: quota_use C "\<lambda>L. runtime_ok C \<and> ledger_inv C L" "evolves" for C
proof
  fix L now q deal rid assume a: "runtime_ok C \<and> ledger_inv C L"
  have "lawful C L (fst (expire_due_holds C now L))" "lawful C L (fst (commit C now None rid None None [] L))"
    using a reads_quiet(1) commit_quiet inv_ids by (auto intro: quiet_lawful)
  moreover have "lawful C L (fst (reserve C now (api_claim q) deal None None None L))" using a by (simp add: reserve_lawful)
  ultimately show "(runtime_ok C \<and> ledger_inv C (fst (expire_due_holds C now L))) \<and> evolves L (fst (expire_due_holds C now L))"
    "(runtime_ok C \<and> ledger_inv C (fst (reserve C now (api_claim q) deal None None None L))) \<and>
      evolves L (fst (reserve C now (api_claim q) deal None None None L))"
    "(runtime_ok C \<and> ledger_inv C (fst (commit C now None rid None None [] L))) \<and> evolves L (fst (commit C now None rid None None [] L))"
    using a by (auto simp: lawful_def)
qed (rule evolves_trans)

interpretation quota_totals: quota_use C "\<lambda>L. runtime_ok C \<and> quota_wired C \<and> ledger_inv C L \<and> fits C L" "\<lambda>_ _. True" for C
proof
  fix L now q deal rid assume a: "runtime_ok C \<and> quota_wired C \<and> ledger_inv C L \<and> fits C L"
  have q: "quiet L (fst (expire_due_holds C now L))" "quiet L (fst (commit C now None rid None None [] L))"
    using a reads_quiet(1) commit_quiet inv_ids by auto
  have f: "fits C L'" if "quiet L L'" for L' using quiet_fits [OF that] a by (simp add: ledger_inv_def)
  have "fits C (fst (reserve C now (api_claim q) deal None None None L))"
    using a by (intro reserve_fits) (simp_all add: parse_utc_def api_claim_exact quota_wired_def)
  with a f [OF q(1)] f [OF q(2)] show
    "(runtime_ok C \<and> quota_wired C \<and> ledger_inv C (fst (expire_due_holds C now L)) \<and> fits C (fst (expire_due_holds C now L))) \<and> True"
    "(runtime_ok C \<and> quota_wired C \<and> ledger_inv C (fst (reserve C now (api_claim q) deal None None None L)) \<and>
       fits C (fst (reserve C now (api_claim q) deal None None None L))) \<and> True"
    "(runtime_ok C \<and> quota_wired C \<and> ledger_inv C (fst (commit C now None rid None None [] L)) \<and>
       fits C (fst (commit C now None rid None None [] L))) \<and> True"
    using quota_life.expire_keeps quota_life.reserve_keeps quota_life.commit_keeps by blast+
qed simp

section \<open>The lease behind a grant\<close>

lemma payload_fields [simp]:
  "pl_id (reservation_payload_of C r) = r_id r" "pl_state (reservation_payload_of C r) = r_state r"
  "pl_units (reservation_payload_of C r) = r_units r" "pl_offering_mode (reservation_payload_of C r) = r_offering_mode r"
  "pl_deal_ref (reservation_payload_of C r) = r_deal_ref r"
  by (simp_all add: reservation_payload_of_def Let_def)

text \<open>A commit by identifier: a hold or a lease ends leased, anything else is refused.\<close>

lemma commit_tx: "commit C now None (Some rid) None None [] L = run_tx L (commit_in_tx C now None (Some rid) None None None [] L)"
  by (simp add: commit_def lease_window_def parse_utc_def)

lemma commit_live:
  assumes rid: "rid \<noteq> []" and find: "reservation_by_id L rid = Some r" and live: "r_state r = Reserved \<or> r_state r = Leased"
  obtains L' r' where "commit C now None (Some rid) None None [] L = (L', Return (Some (reservation_payload_of C r')))"
    "r' \<in> set (reservations L')" "row_step r r'" "r_state r' = Leased"
proof -
  note r = reservation_by_id_Some [OF find]
  have find': "find_reservation L (Some rid) None None = Some r" using find rid by (simp add: find_by_id)
  have none: "\<not> is_truthy (deal_escrow_uid [])" by (simp add: is_truthy_def deal_escrow_uid_def get_val_def)
  note tx = find' r none rid
  note defs = commit_in_tx_def Let_def is_truthy_def [of "Some rid"] isheld_def HELD_RESERVATION_STATES_def COMMIT_REFUSED_STATES_def
  show thesis
  proof (cases "r_state r = Leased")
    case True
    then have "commit_in_tx C now None (Some rid) None None None [] L = Return (L, Some (reservation_payload_of C r))"
      using tx find by (simp add: defs payload_by_id_def)
    with that [of L r] r True show thesis by (simp add: commit_tx run_tx_def)
  next
    case False
    define lease where "lease = (\<lambda>r :: reservation. r\<lparr>r_state := Leased, r_lease_end := r_lease_end r, r_hold_expires := None,
        r_lease_start := (if is_truthy (r_lease_start r) then r_lease_start r else Some (isoformat (cfg_env C) now))\<rparr>)"
    define L2 where "L2 = update_reservation rid lease L"
    define L3 where "L3 = add_event KCommitted (backing_resource_id L2 rid) None L2"
    have c: "commit_in_tx C now None (Some rid) None None None [] L = Return (L3, payload_by_id C L3 rid)"
      using tx live False by (simp add: defs L2_def L3_def lease_def)
    have row: "reservation_by_id L3 rid = Some (lease r)" using find by (simp add: L3_def L2_def by_id_update lease_def)
    have "row_step r (lease r)" using live False by (simp add: row_step_def lease_def leads_to_def)
    with that [of L3 "lease r"] c row reservation_by_id_Some [OF row] show thesis
      by (simp add: commit_tx run_tx_def payload_by_id_def lease_def)
  qed
qed

lemma commit_dead:
  assumes "rid = [] \<or> (case reservation_by_id L rid of None \<Rightarrow> True | Some r \<Rightarrow> r_state r \<noteq> Reserved \<and> r_state r \<noteq> Leased)"
  shows "commit C now None (Some rid) None None [] L = (L, if rid = [] \<or> reservation_by_id L rid = None then Return None else Raise (CannotCommit rid))"
proof (cases "rid = [] \<or> reservation_by_id L rid = None")
  case True
  then show ?thesis by (auto simp: commit_tx run_tx_def commit_in_tx_def find_reservation_def is_truthy_def)
next
  case False
  then obtain r where r: "reservation_by_id L rid = Some r" "r_id r = rid" "r_state r \<noteq> Reserved" "r_state r \<noteq> Leased" "rid \<noteq> []"
    using assms reservation_by_id_Some by fastforce
  then have "\<not> isheld r \<or> r_state r \<in> COMMIT_REFUSED_STATES"
    by (cases "r_state r") (simp_all add: isheld_def HELD_RESERVATION_STATES_def COMMIT_REFUSED_STATES_def)
  with r show ?thesis by (simp add: commit_tx run_tx_def commit_in_tx_def find_by_id is_truthy_def)
qed

lemma commit_success:
  assumes c: "commit C now None (Some rid) None None [] L = (L', Return (Some pl))"
  obtains r r' where "r \<in> set (reservations L)" "r' \<in> set (reservations L')" "rid \<noteq> []" "reservation_by_id L rid = Some r" "r_id r = rid"
    "r_state r = Reserved \<or> r_state r = Leased" "row_step r r'" "r_state r' = Leased" "pl_id pl = rid"
proof -
  have "\<not> (rid = [] \<or> (case reservation_by_id L rid of None \<Rightarrow> True | Some r \<Rightarrow> r_state r \<noteq> Reserved \<and> r_state r \<noteq> Leased))"
  proof
    assume "rid = [] \<or> (case reservation_by_id L rid of None \<Rightarrow> True | Some r \<Rightarrow> r_state r \<noteq> Reserved \<and> r_state r \<noteq> Leased)"
    from commit_dead [OF this, of C now] c show False by (simp split: if_splits)
  qed
  then obtain r where r: "rid \<noteq> []" "reservation_by_id L rid = Some r" "r_state r = Reserved \<or> r_state r = Leased"
    by (auto split: option.splits)
  from commit_live [OF this, of C now] c obtain r' where "pl = reservation_payload_of C r'" "r' \<in> set (reservations L')" "row_step r r'" "r_state r' = Leased"
    by (metis Pair_inject option.inject sum.inject(2))
  with that [of r r'] r reservation_by_id_Some [OF r(2)] show thesis by (simp add: row_step_def)
qed

lemma commit_none:
  assumes c: "commit C now None (Some rid) None None [] L = (L', Return None)"
  shows "L' = L \<and> (rid = [] \<or> reservation_by_id L rid = None)"
proof (cases "\<exists>r. rid \<noteq> [] \<and> reservation_by_id L rid = Some r \<and> (r_state r = Reserved \<or> r_state r = Leased)")
  case True
  then obtain r where "rid \<noteq> []" "reservation_by_id L rid = Some r" "r_state r = Reserved \<or> r_state r = Leased" by blast
  from commit_live [OF this, of C now] c show ?thesis by (metis Pair_inject option.distinct(1) sum.inject(2))
next
  case False
  with commit_dead [of rid L C now] c show ?thesis by (cases "reservation_by_id L rid") (auto split: if_splits)
qed

text \<open>Nothing is due: the sweep has nothing to do.\<close>

definition none_due :: "config \<Rightarrow> int \<Rightarrow> ledger \<Rightarrow> bool" where
  "none_due C now L = list_all (\<lambda>r. r_state r = Reserved \<longrightarrow> \<not> hold_due C now r) (reservations L)"

lemma expire_none_due: "release_guard C = None \<Longrightarrow> ids_ok L \<Longrightarrow> expire_stale_holds C now L = Return L' \<Longrightarrow> none_due C now L'"
  using expire_rows [of C L now L'] by (auto simp: none_due_def list_all_iff lapsed_row_def)

lemma none_due_expire:
  assumes "none_due C now L"
  shows "expire_stale_holds C now L = Return L"
proof -
  have "res_fold (lapse_hold C now) rs L = Return L" if "\<forall>r \<in> set rs. \<not> hold_due C now r" for rs
    using that by (induction rs) (auto simp: lapse_hold_def hold_due_def split: option.splits)
  then show ?thesis using assms by (auto simp: expire_stale_holds_def none_due_def list_all_iff)
qed

text \<open>A fresh reservation for an issuance holds its quantity, for its negotiation.\<close>

definition for_issuance :: "issuance \<Rightarrow> reservation \<Rightarrow> bool" where
  "for_issuance q r = (r_offering_mode r = Some API_CREDITS \<and> r_units r = is_quantity q \<and>
     get_val (r_deal_ref r) ''negotiation_id'' = PStr (is_negotiation q))"

lemma for_issuance_step: "row_step r r' \<Longrightarrow> for_issuance q r \<Longrightarrow> for_issuance q r'"
  by (simp add: row_step_def for_issuance_def)

lemma reserve_api_fresh:
  assumes w: "quota_wired C"
    and res: "reserve C now (api_claim q) (api_deal q) None None None L = (L', Return (Some (Fresh m rid hold mode)))"
  shows "\<exists>r \<in> set (reservations L'). r_id r = rid \<and> for_issuance q r"
proof -
  from res obtain requested md s e L1 where p: "parse_request C now (api_claim q) None None = Return (requested, md, s, e)"
    and tx: "reserve_in_tx C now (api_claim q) (api_deal q) None requested md s e L1 = Return (L', Some (Fresh m rid hold mode))"
    by (auto simp: reserve_def with_expired_def run_tx_def split: sum.splits)
  obtain b av ca where L': "L' = insert_reservation C (new_reservation C now (uuid4 C (drawn L1)) requested ca (api_deal q)
      (hold_deadline C now None) b md s e) requested b L1" "rid = uuid4 C (drawn L1)"
    by (rule reserve_in_tx_fresh [OF tx])
  have req: "requested = [(''units'', of_int (is_quantity q))]"
    using api_claim_dims [of C q "mirror_dimension C" requested] parse_request_Some [OF p] w by (simp add: quota_wired_def)
  have md: "md = API_CREDITS"
    using parse_request_Some [OF p] by (auto simp: requested_offering_mode_def api_claim_def get_val_def OFFERING_MODE_CLAIM_KEY_def split: if_splits)
  have "trunc (dim requested (mirror_dimension C)) = is_quantity q"
    using w by (simp add: req quota_wired_def dim_def trunc_def)
  then show ?thesis unfolding L'
    by (auto simp: insert_reservation_def add_event_def new_reservation_def for_issuance_def md api_deal_def get_val_def)
qed

lemma reserve_quota_success:
  assumes w: "quota_wired (ke_site K)" and C: "runtime_ok (ke_site K)" and i: "ledger_inv (ke_site K) L" and nd: "none_due (ke_site K) now L"
    and dead: "\<And>r. find_reservation L None (Some (is_fulfillment q)) None = Some r \<Longrightarrow> r_id r = [] \<or> r_state r \<noteq> Reserved \<and> r_state r \<noteq> Leased"
    and s: "reserve_quota K now q L = (L', Return rid)"
  shows "\<exists>r \<in> set (reservations L'). r_id r = rid \<and> r_state r = Leased \<and> for_issuance q r"
proof -
  let ?C = "ke_site K"
  obtain L1 p L2 pl where r: "reserve ?C now (api_claim q) (api_deal q) None None None L = (L1, Return (Some p))"
    and c: "commit ?C now None (Some (reserved_id p)) None None [] L1 = (L2, Return (Some pl))" and L': "L' = L2" "rid = pl_id pl"
    using s unfolding reserve_quota_def Let_def api_claim_def [symmetric] api_deal_def [symmetric]
    by (auto split: prod.splits sum.splits option.splits)
  have ok: "ids_ok L1" using quota_life.reserve_keeps [of ?C L now q "api_deal q"] C i r inv_ids by auto
  show ?thesis
  proof (cases p)
    case (Fresh m rid' hold mode)
    obtain x where x: "x \<in> set (reservations L1)" "r_id x = rid'" "for_issuance q x" using reserve_api_fresh [OF w r [unfolded Fresh]] by blast
    from commit_success [OF c] obtain y y' where y: "y \<in> set (reservations L1)" "y' \<in> set (reservations L2)" "r_id y = reserved_id p"
      "row_step y y'" "r_state y' = Leased" "pl_id pl = reserved_id p" by metis
    have "y = x" by (rule row_unique [OF ok y(1) x(1)]) (simp add: y(3) x(2) Fresh reserved_id_def)
    with x y L' show ?thesis using for_issuance_step [OF y(4)] by (intro bexI [of _ y']) (auto simp: row_step_def)
  next
    case (Existing pl' res)
    from r obtain requested md a b where "reserve_in_tx ?C now (api_claim q) (api_deal q) None requested md a b L = Return (L1, Some (Existing pl' res))"
      by (auto simp: reserve_def with_expired_def none_due_expire [OF nd] run_tx_def Existing split: sum.splits)
    then obtain x where x: "find_reservation L None (Some (is_fulfillment q)) None = Some x" "pl' = reservation_payload_of ?C x" "L1 = L"
      by (auto simp: reserve_in_tx_def Let_def api_deal_def deal_escrow_uid_def get_val_def reservation_payload_for_reserve_def res_bind_Inr_iff
          split: option.splits if_splits)
    from commit_success [OF c] obtain y where y: "reserved_id p \<noteq> []" "reservation_by_id L1 (reserved_id p) = Some y"
      "r_state y = Reserved \<or> r_state y = Leased" by metis
    have "x \<in> set (reservations L)" using find_reservation_mem [OF x(1)] .
    then have "y = x" using y(2) x(2,3) Existing reservation_by_id_mem [OF ok, of x] by (simp add: reserved_id_def)
    with dead [OF x(1)] y(1,3) x(2) Existing show ?thesis by (auto simp: reserved_id_def)
  qed
qed

text \<open>An issuance that gets its quota leaves a lease of its quantity, in its mode and for its
  negotiation.\<close>

lemma commit_quota_success:
  assumes w: "quota_wired (ke_site K)" and C: "runtime_ok (ke_site K)" and i: "ledger_inv (ke_site K) L"
    and s: "commit_quota K now q L = (L', Return rid)"
  shows "\<exists>r \<in> set (reservations L'). r_id r = rid \<and> r_state r = Leased \<and> for_issuance q r"
proof -
  let ?C = "ke_site K"
  obtain L1 where e: "expire_due_holds ?C now L = (L1, Return ())"
    using s by (auto simp: commit_quota_def split: prod.splits sum.splits)
  then have ex: "expire_stale_holds ?C now L = Return L1" by (auto simp: expire_due_holds_def with_expired_def split: sum.splits)
  have i1: "ledger_inv ?C L1" using quota_life.expire_keeps [of ?C L now] C i e by simp
  have nd: "none_due ?C now L1" using expire_none_due [OF _ inv_ids [OF i] ex] w by (simp add: quota_wired_def)
  have stored: "stored_hold K q L1 = Some (reservation_payload_of ?C r)"
    if "find_reservation L1 None (Some (is_fulfillment q)) None = Some r" for r
    using that by (simp add: stored_hold_def get_reservation_by_escrow_def)
  show ?thesis
  proof (cases "\<exists>pl. stored_hold K q L1 = Some pl \<and> (pl_state pl = Reserved \<or> pl_state pl = Leased)")
    case True
    then obtain pl where pl: "stored_hold K q L1 = Some pl" "pl_state pl = Reserved \<or> pl_state pl = Leased" by blast
    then have m: "hold_matches L1 pl q" using s e by (auto simp: commit_quota_def split: if_splits)
    obtain x where x: "x \<in> set (reservations L1)" "pl = reservation_payload_of ?C x"
      using pl(1) find_reservation_mem reservation_by_id_Some
      by (fastforce simp: stored_hold_def get_reservation_by_escrow_def get_reservation_def payload_by_id_def split: option.splits if_splits)
    obtain L2 z where c: "commit ?C now None (Some (pl_id pl)) None None [] L1 = (L2, z)" by fastforce
    from s e pl m c consider c' where "z = Return (Some c')" "L' = L2" "rid = pl_id c'"
      | "z = Return None" "reserve_quota K now q L2 = (L', Return rid)"
      by (auto simp: commit_quota_def split: sum.splits option.splits)
    then show ?thesis
    proof cases
      case 1
      from commit_success [OF c [unfolded 1(1)]] obtain y y' where y: "y \<in> set (reservations L1)" "y' \<in> set (reservations L2)"
        "r_id y = pl_id pl" "row_step y y'" "r_state y' = Leased" "pl_id c' = pl_id pl" by metis
      have "y = x" by (rule row_unique [OF inv_ids [OF i1] y(1) x(1)]) (simp add: y(3) x(2))
      moreover have "for_issuance q x" using m x(2) by (simp add: hold_matches_def for_issuance_def)
      ultimately show ?thesis using y 1 for_issuance_step [OF y(4)] by (intro bexI [of _ y']) (auto simp: row_step_def)
    next
      case 2
      note none = commit_none [OF c [unfolded 2(1)]]
      have "r_id x = []" using none reservation_by_id_mem [OF inv_ids [OF i1] x(1)] x(2) by auto
      then have "r_id r = []" if "find_reservation L1 None (Some (is_fulfillment q)) None = Some r" for r
        using stored [OF that] pl(1) x(2) by (metis option.inject payload_fields(1))
      then show ?thesis using none reserve_quota_success [OF w C i1 nd _ ] 2(2) by metis
    qed
  next
    case False
    then have r: "reserve_quota K now q L1 = (L', Return rid)" using s e by (auto simp: commit_quota_def split: option.splits if_splits)
    show ?thesis by (rule reserve_quota_success [OF w C i1 nd _ r]) (use False stored in auto)
  qed
qed

end
