(* ===== verification/Credit_Books.thy ===== *)
theory Credit_Books
  imports Credit_Quota
begin

text \<open>
  The books of the credits authority: the invariant (a key's balance is what it was granted
  less what it spent; each fulfillment, negotiation and idempotency key is booked once; each
  grant has its lease in the quota ledger), that every operation keeps it and loses no
  history, and both for every sequence of operations of the authority and its quota ledger.
\<close>

section \<open>The books\<close>

definition granted :: "credits \<Rightarrow> string \<Rightarrow> int" where
  "granted S kid = sum_list (map cg_quantity (filter (\<lambda>g. cg_key g = kid) (grants S)))"

definition spent :: "credits \<Rightarrow> string \<Rightarrow> int" where
  "spent S kid = sum_list (map ce_amount (filter (\<lambda>c. ce_key c = kid) (usage S)))"

definition key_ids :: "credits \<Rightarrow> string set" where
  "key_ids S = ak_id ` set (api_keys S)"

text \<open>A key's balance is what it was granted less what it spent, and is never negative.\<close>

definition key_ok :: "credits \<Rightarrow> api_key \<Rightarrow> bool" where
  "key_ok S k = (ak_balance k = granted S (ak_id k) - spent S (ak_id k) \<and> 0 \<le> ak_balance k)"

definition once_each :: "credits \<Rightarrow> bool" where
  "once_each S = (distinct (filter (\<lambda>f. f \<noteq> None) (map cg_fulfillment (grants S))) \<and>
     distinct (filter (\<lambda>n. n \<noteq> None) (map cg_negotiation (grants S))) \<and>
     distinct (filter (\<lambda>p. snd p \<noteq> None) (map (\<lambda>c. (ce_key c, ce_idempotency c)) (usage S))))"

definition books_ok :: "credits \<Rightarrow> bool" where
  "books_ok S = (distinct (map ak_id (api_keys S)) \<and> (\<forall>k \<in> set (api_keys S). key_ok S k) \<and>
     (\<forall>g \<in> set (grants S). cg_key g \<in> key_ids S) \<and> (\<forall>c \<in> set (usage S). ce_key c \<in> key_ids S \<and> 0 < ce_amount c) \<and> once_each S)"

lemma books_okI:
  assumes "map ak_id (api_keys S') = map ak_id (api_keys S)" "books_ok S" "\<And>k. k \<in> set (api_keys S') \<Longrightarrow> key_ok S' k"
    "\<And>g. g \<in> set (grants S') \<Longrightarrow> cg_key g \<in> key_ids S" "\<And>c. c \<in> set (usage S') \<Longrightarrow> ce_key c \<in> key_ids S \<and> 0 < ce_amount c" "once_each S'"
  shows "books_ok S'"
proof -
  have "key_ids S' = key_ids S" using arg_cong [OF assms(1), of set] by (simp add: key_ids_def)
  with assms show ?thesis unfolding books_ok_def by simp
qed

lemma key_by_id_Some: "key_by_id S kid = Some k \<Longrightarrow> k \<in> set (api_keys S) \<and> ak_id k = kid"
  by (auto simp: key_by_id_def find_Some_iff)

lemma key_by_id_None: "key_by_id S kid = None \<longleftrightarrow> kid \<notin> key_ids S"
  by (auto simp: key_by_id_def find_None_iff key_ids_def)

lemma key_unique: "books_ok S \<Longrightarrow> k \<in> set (api_keys S) \<Longrightarrow> k' \<in> set (api_keys S) \<Longrightarrow> ak_id k = ak_id k' \<Longrightarrow> k = k'"
  by (auto simp: books_ok_def distinct_map inj_on_def)

lemma key_by_id_mem: "books_ok S \<Longrightarrow> k \<in> set (api_keys S) \<Longrightarrow> key_by_id S (ak_id k) = Some k"
proof -
  assume ok: "books_ok S" and k: "k \<in> set (api_keys S)"
  then obtain x where x: "key_by_id S (ak_id k) = Some x"
    by (cases "key_by_id S (ak_id k)") (auto simp: key_by_id_None key_ids_def)
  have "x = k" using key_by_id_Some [OF x] by (intro key_unique [OF ok _ k]) simp_all
  with x show ?thesis by simp
qed

lemma update_key_ids:
  assumes "\<And>k. ak_id (f k) = ak_id k"
  shows "map ak_id (api_keys (update_key kid f S)) = map ak_id (api_keys S)" "key_ids (update_key kid f S) = key_ids S"
proof -
  show m: "map ak_id (api_keys (update_key kid f S)) = map ak_id (api_keys S)" by (simp add: update_key_def assms)
  show "key_ids (update_key kid f S) = key_ids S" using arg_cong [OF m, of set] by (simp add: key_ids_def)
qed

lemma update_key_fields [simp]:
  "grants (update_key kid f S) = grants S" "usage (update_key kid f S) = usage S" "quota (update_key kid f S) = quota S"
  "tokens (update_key kid f S) = tokens S"
  by (simp_all add: update_key_def)

text \<open>Changing a key's balance by what is booked for it keeps the books.\<close>

lemma book_grant:
  assumes ok: "books_ok S" and k: "k \<in> set (api_keys S)" and d: "0 \<le> ak_balance k + cg_quantity g" and g: "cg_key g = ak_id k"
    and f: "\<And>x. ak_id (f x) = ak_id x" "ak_balance (f k) = ak_balance k + cg_quantity g"
    and fresh: "cg_fulfillment g = None \<or> cg_fulfillment g \<notin> cg_fulfillment ` set (grants S)"
      "cg_negotiation g = None \<or> cg_negotiation g \<notin> cg_negotiation ` set (grants S)"
  shows "books_ok ((update_key (ak_id k) f S)\<lparr>grants := grants S @ [g]\<rparr>)"
proof -
  let ?S = "(update_key (ak_id k) f S)\<lparr>grants := grants S @ [g]\<rparr>"
  have ids: "map ak_id (api_keys ?S) = map ak_id (api_keys S)" using update_key_ids(1) [of f "ak_id k" S] f(1) by simp
  have gr: "granted ?S x = granted S x + (if x = ak_id k then cg_quantity g else 0)" "spent ?S x = spent S x" for x
    using g by (simp_all add: granted_def spent_def)
  have keys: "key_ok ?S y" if "y \<in> set (api_keys ?S)" for y
  proof -
    from that obtain x where x: "x \<in> set (api_keys S)" "y = (if ak_id x = ak_id k then f x else x)"
      by (auto simp: update_key_def)
    have bx: "ak_balance x = granted S (ak_id x) - spent S (ak_id x)" "0 \<le> ak_balance x" using ok x(1) by (auto simp: books_ok_def key_ok_def)
    show ?thesis
    proof (cases "ak_id x = ak_id k")
      case True
      with key_unique [OF ok x(1) k] x(2) have "y = f k" "x = k" by simp_all
      with f bx d gr show ?thesis by (simp add: key_ok_def)
    next
      case False
      with x(2) bx gr show ?thesis by (simp add: key_ok_def)
    qed
  qed
  have "ak_id k \<in> key_ids S" using k by (simp add: key_ids_def)
  moreover have "once_each ?S" using ok fresh by (auto simp: books_ok_def once_each_def)
  ultimately show ?thesis using ok g by (intro books_okI [OF ids ok keys]) (auto simp: books_ok_def)
qed

lemma book_usage:
  assumes ok: "books_ok S" and k: "k \<in> set (api_keys S)" and c: "ce_key c = ak_id k" "0 < ce_amount c" "ce_amount c \<le> ak_balance k"
    and fresh: "ce_idempotency c = None \<or> (ce_key c, ce_idempotency c) \<notin> (\<lambda>c. (ce_key c, ce_idempotency c)) ` set (usage S)"
  shows "books_ok ((update_key (ak_id k) (\<lambda>k. k\<lparr>ak_balance := ak_balance k - ce_amount c\<rparr>) S)\<lparr>usage := usage S @ [c]\<rparr>)"
proof -
  let ?f = "\<lambda>k. k\<lparr>ak_balance := ak_balance k - ce_amount c\<rparr>"
  let ?S = "(update_key (ak_id k) ?f S)\<lparr>usage := usage S @ [c]\<rparr>"
  have ids: "map ak_id (api_keys ?S) = map ak_id (api_keys S)" using update_key_ids(1) [of ?f "ak_id k" S] by simp
  have gr: "granted ?S x = granted S x" "spent ?S x = spent S x + (if x = ak_id k then ce_amount c else 0)" for x
    using c by (simp_all add: granted_def spent_def)
  have keys: "key_ok ?S y" if "y \<in> set (api_keys ?S)" for y
  proof -
    from that obtain x where x: "x \<in> set (api_keys S)" "y = (if ak_id x = ak_id k then ?f x else x)"
      by (auto simp: update_key_def)
    have bx: "ak_balance x = granted S (ak_id x) - spent S (ak_id x)" "0 \<le> ak_balance x" using ok x(1) by (auto simp: books_ok_def key_ok_def)
    show ?thesis
    proof (cases "ak_id x = ak_id k")
      case True
      with key_unique [OF ok x(1) k] have "x = k" by simp
      with True x(2) bx c gr show ?thesis by (simp add: key_ok_def)
    next
      case False
      with x(2) bx gr show ?thesis by (simp add: key_ok_def)
    qed
  qed
  have "ak_id k \<in> key_ids S" using k by (simp add: key_ids_def)
  moreover have "once_each ?S" using ok fresh by (auto simp: books_ok_def once_each_def)
  ultimately show ?thesis using ok c by (intro books_okI [OF ids ok keys]) (auto simp: books_ok_def)
qed

text \<open>Changing anything else of a key keeps the books.\<close>

lemma book_same:
  assumes ok: "books_ok S" and f: "\<And>k. ak_id (f k) = ak_id k \<and> ak_balance (f k) = ak_balance k"
  shows "books_ok (update_key kid f S)"
proof (rule books_okI [OF _ ok])
  show "map ak_id (api_keys (update_key kid f S)) = map ak_id (api_keys S)" using update_key_ids(1) [of f kid S] f by simp
  fix y assume "y \<in> set (api_keys (update_key kid f S))"
  then obtain x where "x \<in> set (api_keys S)" "y = (if ak_id x = kid then f x else x)" by (auto simp: update_key_def)
  then show "key_ok (update_key kid f S) y" using ok f by (auto simp: books_ok_def key_ok_def granted_def spent_def)
qed (use ok in \<open>auto simp: books_ok_def once_each_def\<close>)

lemma books_cong:
  "api_keys S' = api_keys S \<Longrightarrow> grants S' = grants S \<Longrightarrow> usage S' = usage S \<Longrightarrow> books_ok S' = books_ok S"
  by (simp add: books_ok_def key_ok_def once_each_def granted_def spent_def key_ids_def)

lemma books_frame [simp]: "books_ok (S\<lparr>tokens := n\<rparr>) = books_ok S" "books_ok (S\<lparr>quota := L\<rparr>) = books_ok S"
  by (rule books_cong; simp)+

text \<open>A key stays itself: its owner never changes, and a revoked key stays revoked.\<close>

definition key_step :: "api_key \<Rightarrow> api_key \<Rightarrow> bool" where
  "key_step k k' = (ak_id k' = ak_id k \<and> ak_owner_scheme k' = ak_owner_scheme k \<and> ak_owner_id k' = ak_owner_id k \<and>
     ak_created_at k' = ak_created_at k \<and> (ak_status k = ''revoked'' \<longrightarrow> ak_status k' = ''revoked''))"

definition keys_evolve :: "credits \<Rightarrow> credits \<Rightarrow> bool" where
  "keys_evolve S S' = (\<forall>k \<in> set (api_keys S). \<exists>k' \<in> set (api_keys S'). key_step k k')"

lemma keys_evolve_same: "api_keys S' = api_keys S \<Longrightarrow> keys_evolve S S'"
  by (auto simp: keys_evolve_def key_step_def)

lemma keys_evolve_trans: "keys_evolve S S1 \<Longrightarrow> keys_evolve S1 S2 \<Longrightarrow> keys_evolve S S2"
  unfolding keys_evolve_def key_step_def by metis

lemma keys_evolve_update: "(\<And>k. key_step k (f k)) \<Longrightarrow> keys_evolve S (update_key kid f S)"
  unfolding keys_evolve_def
proof
  fix k assume f: "\<And>k. key_step k (f k)" and k: "k \<in> set (api_keys S)"
  then have "(if ak_id k = kid then f k else k) \<in> set (api_keys (update_key kid f S))" by (force simp: update_key_def)
  then show "\<exists>k' \<in> set (api_keys (update_key kid f S)). key_step k k'"
    by (rule rev_bexI) (use f in \<open>simp add: key_step_def [of k k]\<close>)
qed

lemma keys_evolve_frame [simp]:
  "keys_evolve S (S'\<lparr>tokens := n\<rparr>) = keys_evolve S S'" "keys_evolve S (S'\<lparr>quota := L\<rparr>) = keys_evolve S S'"
  "keys_evolve S (S'\<lparr>grants := gs\<rparr>) = keys_evolve S S'" "keys_evolve S (S'\<lparr>usage := us\<rparr>) = keys_evolve S S'"
  by (simp_all add: keys_evolve_def)

lemma book_new_key:
  assumes ok: "books_ok S" and k: "ak_id k \<notin> key_ids S" "ak_balance k = 0"
  shows "books_ok (S\<lparr>api_keys := api_keys S @ [k]\<rparr>)"
proof -
  let ?S = "S\<lparr>api_keys := api_keys S @ [k]\<rparr>"
  have none: "filter (\<lambda>g. cg_key g = ak_id k) (grants S) = []" "filter (\<lambda>c. ce_key c = ak_id k) (usage S) = []"
    using ok k(1) by (auto simp: books_ok_def filter_empty_conv)
  have "key_ok ?S x" if "x \<in> set (api_keys ?S)" for x
    using that ok k(2) none by (auto simp: books_ok_def key_ok_def granted_def spent_def)
  moreover have "distinct (map ak_id (api_keys ?S))" using ok k(1) by (auto simp: books_ok_def key_ids_def)
  moreover have "key_ids S \<subseteq> key_ids ?S" by (auto simp: key_ids_def)
  ultimately show ?thesis using ok by (auto simp: books_ok_def once_each_def)
qed

section \<open>What an issuance does\<close>

lemma target_key_books:
  assumes ok: "books_ok S" and t: "target_key K now q owner key S = Return (S1, k, secret)"
  shows "books_ok S1 \<and> k \<in> set (api_keys S1) \<and> grants S1 = grants S \<and> usage S1 = usage S \<and> quota S1 = quota S \<and> keys_evolve S S1"
proof (cases "kd_mode key = ''existing''")
  case True
  with t obtain x where "key_by_id S (the (kd_key_id key)) = Some x" "S1 = S" "k = x"
    by (auto simp: target_key_def res_bind_Inr_iff split: option.splits if_splits)
  with ok key_by_id_Some show ?thesis by (auto simp: keys_evolve_same)
next
  case False
  let ?new = "derive_key_id K (is_fulfillment q)"
  show ?thesis
  proof (cases "key_by_id S ?new")
    case None
    with False t have S1: "S1 = (S\<lparr>tokens := Suc (tokens S)\<rparr>)\<lparr>api_keys := api_keys S @ [k]\<rparr>" "ak_id k = ?new" "ak_balance k = 0"
      by (auto simp: target_key_def Let_def)
    with book_new_key [of "S\<lparr>tokens := Suc (tokens S)\<rparr>" k] ok None [unfolded key_by_id_None] show ?thesis by (auto simp: key_ids_def keys_evolve_def key_step_def)
  next
    case (Some x)
    define rotate where "rotate = (\<lambda>k :: api_key. k\<lparr>ak_secret_hash := hash_secret K (new_secret K (tokens S) ?new)\<rparr>)"
    from False t Some have S1: "S1 = (update_key ?new rotate S)\<lparr>tokens := Suc (tokens S)\<rparr>" "k = rotate x"
      by (auto simp: target_key_def Let_def rotate_def res_bind_Inr_iff split: if_splits)
    have "books_ok (update_key ?new rotate S)" by (rule book_same [OF ok]) (simp add: rotate_def)
    moreover have "keys_evolve S (update_key ?new rotate S)" by (rule keys_evolve_update) (simp add: rotate_def key_step_def)
    moreover have "rotate x \<in> set (api_keys S1)" using key_by_id_Some [OF Some] unfolding S1 by (force simp: update_key_def)
    ultimately show ?thesis using S1 by simp
  qed
qed

text \<open>A replay changes at most a key's secret.\<close>

lemma reissue_state:
  obtains "fst (reissue K prior S) = S"
  | kid h where "fst (reissue K prior S) = (update_key kid (\<lambda>k. k\<lparr>ak_secret_hash := h\<rparr>) S)\<lparr>tokens := Suc (tokens S)\<rparr>"
proof (cases "key_by_id S (cg_key prior)")
  case (Some k)
  show thesis
  proof (cases "res_bind (keys_principal (cg_owner_scheme prior) (cg_owner_id prior)) (owner_admits k)")
    case (Inr own)
    with Some have "fst (reissue K prior S) = (if own \<and> cg_key_mode prior = Some ''new'' \<and> ak_status k = ''active'' \<and> \<not> list_ex (\<lambda>c. ce_key c = ak_id k) (usage S)
        then (update_key (ak_id k) (\<lambda>x. x\<lparr>ak_secret_hash := hash_secret K (new_secret K (tokens S) (ak_id k))\<rparr>) S)\<lparr>tokens := Suc (tokens S)\<rparr> else S)"
      by (simp add: reissue_def Let_def)
    then show thesis using that(1) that(2) [of "ak_id k" "hash_secret K (new_secret K (tokens S) (ak_id k))"] by argo
  qed (use Some that in \<open>simp add: reissue_def\<close>)
qed (use that in \<open>simp add: reissue_def\<close>)

lemma replay_state:
  obtains "fst (replay K q owner key prior S) = S"
  | kid h where "fst (replay K q owner key prior S) = (update_key kid (\<lambda>k. k\<lparr>ak_secret_hash := h\<rparr>) S)\<lparr>tokens := Suc (tokens S)\<rparr>"
proof (cases "assert_replay prior q owner key")
  case (Inr u)
  then have "fst (replay K q owner key prior S) = fst (reissue K prior S)" by (simp add: replay_def)
  then show thesis using that by (cases rule: reissue_state [of K prior S]) simp_all
qed (use that in \<open>simp add: replay_def\<close>)

lemma replay_books:
  assumes "books_ok S"
  shows "books_ok (fst (replay K q owner key prior S)) \<and> grants (fst (replay K q owner key prior S)) = grants S \<and>
    usage (fst (replay K q owner key prior S)) = usage S \<and> quota (fst (replay K q owner key prior S)) = quota S \<and>
    keys_evolve S (fst (replay K q owner key prior S))"
proof (cases rule: replay_state [of K q owner key prior S])
  case (2 kid h)
  have "books_ok (update_key kid (\<lambda>k. k\<lparr>ak_secret_hash := h\<rparr>) S)" by (rule book_same [OF assms]) simp
  moreover have "keys_evolve S (update_key kid (\<lambda>k. k\<lparr>ak_secret_hash := h\<rparr>) S)" by (rule keys_evolve_update) (simp add: key_step_def)
  ultimately show ?thesis using 2 by simp
qed (use assms in \<open>simp add: keys_evolve_same\<close>)

text \<open>The ways a valid issuance of a new fulfillment ends.\<close>

lemma issue_fresh_cases:
  assumes "grant_by_fulfillment S (is_fulfillment q) = None"
  obtains (refused) e where "issue_valid K now q owner key S = (S, Raise e)"
  | (no_quota) L n e where "issue_valid K now q owner key S = (S\<lparr>quota := L, tokens := n\<rparr>, Raise e)" "L = fst (commit_quota K now q (quota S))"
  | (granted) S1 k secret L rid where "target_key K now q owner key S = Return (S1, k, secret)"
      "commit_quota K now q (quota S) = (L, Return rid)" "\<not> grant_clashes S q"
      "issue_valid K now q owner key S =
         (let g = new_grant q owner key (ak_id k) rid (ak_balance k + is_quantity q) now in
          ((update_key (ak_id k) (\<lambda>x. x\<lparr>ak_balance := ak_balance k + is_quantity q\<rparr>) S1)\<lparr>grants := grants S1 @ [g], quota := L\<rparr>,
           grant_result_of g k secret False))"
proof (cases "target_key K now q owner key S")
  case (Inl e)
  show thesis by (rule refused [of e]) (use assms Inl in \<open>simp add: issue_valid_def\<close>)
next
  case (Inr t)
  obtain S1 k secret where t: "target_key K now q owner key S = Return (S1, k, secret)" using Inr by (cases t) simp
  obtain L x where c: "commit_quota K now q (quota S) = (L, x)" by fastforce
  show thesis
  proof (cases x)
    case (Inl e)
    have "issue_valid K now q owner key S = (S\<lparr>quota := L, tokens := tokens S1\<rparr>, Raise e)" using assms t c Inl by (simp add: issue_valid_def)
    then show thesis by (rule no_quota) (simp add: c)
  next
    case (Inr rid)
    show thesis
    proof (cases "grant_clashes S q")
      case True
      have "grant_by_fulfillment (S\<lparr>quota := L, tokens := tokens S1\<rparr>) (is_fulfillment q) = None" using assms by (simp add: grant_by_fulfillment_def)
      then have "issue_valid K now q owner key S = (S\<lparr>quota := L, tokens := tokens S1\<rparr>, Raise Integrity_Error)"
        using assms t c Inr True by (simp add: issue_valid_def Let_def)
      then show thesis by (rule no_quota) (simp add: c)
    next
      case False
      show thesis by (rule granted [OF t c [unfolded Inr] False]) (use assms t c Inr False in \<open>simp add: issue_valid_def Let_def\<close>)
    qed
  qed
qed

lemma issue_cases:
  obtains (invalid) e where "issue K now q S = (S, Raise e)"
  | (valid) owner key where "issue K now q S = issue_valid K now q owner key S"
      "keys_principal (Some (is_owner_scheme q)) (Some (is_owner_id q)) = Return (Some owner)"
      "mk_disposition (is_key_mode q) (is_key_id q) = Return key" "issuance_request K q owner key = Return ()"
proof -
  consider e where "keys_principal (Some (is_owner_scheme q)) (Some (is_owner_id q)) = Raise e"
    | owner where "keys_principal (Some (is_owner_scheme q)) (Some (is_owner_id q)) = Return (Some owner)"
    by (cases "keys_principal (Some (is_owner_scheme q)) (Some (is_owner_id q))")
      (auto simp: keys_principal_def split: option.splits sum.splits)
  then show thesis
  proof cases
    case 2
    then show thesis
      by (cases "mk_disposition (is_key_mode q) (is_key_id q)"; cases "issuance_request K q owner (projr (mk_disposition (is_key_mode q) (is_key_id q)))")
        (auto simp: issue_def intro: invalid valid)
  qed (auto simp: issue_def intro: invalid)
qed

text \<open>Every grant made by an issuance has its lease in the quota ledger: of its quantity, in its
  mode, for its negotiation, and never a mere hold again.\<close>

definition backs :: "credit_grant \<Rightarrow> reservation \<Rightarrow> bool" where
  "backs g r = (r_state r \<noteq> Reserved \<and> r_offering_mode r = Some API_CREDITS \<and> r_units r = cg_quantity g \<and>
     get_val (r_deal_ref r) ''negotiation_id'' = opt_text (cg_negotiation g))"

definition backed_in :: "ledger \<Rightarrow> credit_grant \<Rightarrow> bool" where
  "backed_in L g = ((cg_fulfillment g \<noteq> None \<longrightarrow> cg_reservation g \<noteq> None \<and> cg_result_balance g \<noteq> None) \<and> (\<forall>rid. cg_reservation g = Some rid \<longrightarrow> cg_negotiation g \<noteq> None \<and> (\<exists>r \<in> set (reservations L). r_id r = rid \<and> backs g r)))"

lemma backs_step: "row_step r r' \<Longrightarrow> backs g r \<Longrightarrow> backs g r'"
  by (cases "r_state r") (auto simp: row_step_def leads_to_def backs_def)

lemma backed_evolves:
  assumes "evolves L L'" "backed_in L g"
  shows "backed_in L' g"
proof -
  have "\<exists>r' \<in> set (reservations L'). r_id r' = r_id r \<and> backs g r'" if "r \<in> set (reservations L)" "backs g r" for r
    using evolves_row [OF assms(1) that(1)] backs_step that(2) by (fastforce simp: row_step_def)
  with assms(2) show ?thesis by (fastforce simp: backed_in_def)
qed

definition keys_ok :: "keys_env \<Rightarrow> credits \<Rightarrow> bool" where
  "keys_ok K S = (runtime_ok (ke_site K) \<and> quota_wired (ke_site K) \<and> books_ok S \<and> ledger_inv (ke_site K) (quota S) \<and>
     (\<forall>g \<in> set (grants S). backed_in (quota S) g))"

text \<open>Nothing booked is lost or rewritten.\<close>

definition keeps_history :: "credits \<Rightarrow> credits \<Rightarrow> bool" where
  "keeps_history S S' = (keys_evolve S S' \<and> prefix (grants S) (grants S') \<and> prefix (usage S) (usage S') \<and> evolves (quota S) (quota S'))"

lemma keys_ok_I:
  assumes "keys_ok K S" "books_ok S'" "keys_evolve S S'" "evolves (quota S) (quota S')" "ledger_inv (ke_site K) (quota S')" "prefix (usage S) (usage S')"
    and "\<exists>new. grants S' = grants S @ new \<and> (\<forall>g \<in> set new. backed_in (quota S') g)"
  shows "keys_ok K S' \<and> keeps_history S S'"
  using assms backed_evolves by (auto simp: keys_ok_def keeps_history_def)

lemma issue_valid_keeps:
  assumes i: "keys_ok K S" and pos: "1 \<le> is_quantity q"
  shows "keys_ok K (fst (issue_valid K now q owner key S)) \<and> keeps_history S (fst (issue_valid K now q owner key S))"
proof (cases "grant_by_fulfillment S (is_fulfillment q)")
  case (Some prior)
  then have e: "issue_valid K now q owner key S = replay K q owner key prior S" by (simp add: issue_valid_def)
  show ?thesis unfolding e
    by (rule keys_ok_I [OF i]) (use replay_books [of S K q owner key prior] i in \<open>auto simp: keys_ok_def evolves_refl keys_evolve_same\<close>)
next
  case None
  have L: "evolves (quota S) (fst (commit_quota K now q (quota S)))" "ledger_inv (ke_site K) (fst (commit_quota K now q (quota S)))"
    using quota_life.commit_quota_keeps [OF refl, of K "quota S" now q] i by (auto simp: keys_ok_def)
  from None show ?thesis
  proof (cases rule: issue_fresh_cases [where K = K and now = now and owner = owner and key = key])
    case (refused e)
    show ?thesis unfolding refused fst_conv by (rule keys_ok_I [OF i]) (use i in \<open>auto simp: keys_ok_def evolves_refl keys_evolve_same\<close>)
  next
    case (no_quota L' n e)
    show ?thesis unfolding no_quota(1) fst_conv by (rule keys_ok_I [OF i]) (use i L no_quota(2) in \<open>auto simp: keys_ok_def keys_evolve_same\<close>)
  next
    case (granted S1 k secret L' rid)
    let ?g = "new_grant q owner key (ak_id k) rid (ak_balance k + is_quantity q) now"
    let ?f = "\<lambda>x. x\<lparr>ak_balance := ak_balance k + is_quantity q\<rparr>"
    note t = target_key_books [OF _ granted(1)]
    have ok: "books_ok S1" "k \<in> set (api_keys S1)" "grants S1 = grants S" "usage S1 = usage S" "keys_evolve S S1" using t i by (auto simp: keys_ok_def)
    have "keys_evolve S (update_key (ak_id k) ?f S1)"
      by (rule keys_evolve_trans [OF ok(5)], rule keys_evolve_update) (simp add: key_step_def)
    moreover have "books_ok ((update_key (ak_id k) ?f S1)\<lparr>grants := grants S1 @ [?g]\<rparr>)"
      by (rule book_grant [OF ok(1,2)]) (use ok granted(3) pos in \<open>auto simp: new_grant_def grant_clashes_def list_ex_iff books_ok_def key_ok_def\<close>)
    moreover obtain r where "r \<in> set (reservations L')" "r_id r = rid" "r_state r = Leased" "for_issuance q r"
      using commit_quota_success [OF _ _ _ granted(2)] i by (auto simp: keys_ok_def)
    then have "backed_in L' ?g" by (auto simp: backed_in_def backs_def new_grant_def for_issuance_def opt_text_def)
    ultimately show ?thesis unfolding granted(4) Let_def fst_conv
      by (intro keys_ok_I [OF i]) (use L granted(2) ok in auto)
  qed
qed

lemma issue_keeps:
  assumes "keys_ok K S"
  shows "keys_ok K (fst (issue K now q S)) \<and> keeps_history S (fst (issue K now q S))"
proof (cases rule: issue_cases [of K now q S])
  case (invalid e)
  then show ?thesis using keys_ok_I [OF assms, of S] assms by (simp add: keys_ok_def evolves_refl keys_evolve_same)
next
  case (valid owner key)
  from valid(4) have "1 \<le> is_quantity q" by (auto simp: issuance_request_def split: if_splits)
  with valid(1) issue_valid_keeps [OF assms] show ?thesis by simp
qed

section \<open>The other operations\<close>

lemma consume_cases:
  obtains (unchanged) "fst (consume now kid amount idem S) = S"
  | (taken) k where "key_by_id S kid = Some k" "ak_status k = ''active''" "1 \<le> amount" "amount \<le> ak_balance k"
      "idem = None \<or> \<not> list_ex (\<lambda>c. ce_key c = kid \<and> ce_idempotency c = idem) (usage S)"
      "fst (consume now kid amount idem S) = (update_key kid (\<lambda>k. k\<lparr>ak_balance := ak_balance k - amount\<rparr>) S)\<lparr>usage := usage S @
         [\<lparr>ce_key = kid, ce_amount = amount, ce_idempotency = idem, ce_occurred_at = now\<rparr>]\<rparr>"
proof (cases "key_by_id S kid")
  case None
  then show thesis using unchanged by (simp add: consume_def)
next
  case (Some k)
  show thesis
  proof (cases "amount < 1 \<or> ak_status k \<noteq> ''active'' \<or> (idem \<noteq> None \<and> list_ex (\<lambda>c. ce_key c = kid \<and> ce_idempotency c = idem) (usage S)) \<or> ak_balance k < amount")
    case True
    then have "fst (consume now kid amount idem S) = S" using Some by (auto simp: consume_def)
    then show thesis by (rule unchanged)
  next
    case False
    show thesis by (rule taken [OF Some]) (use False Some in \<open>auto simp: consume_def\<close>)
  qed
qed

lemma consume_keeps:
  assumes i: "keys_ok K S"
  shows "keys_ok K (fst (consume now kid amount idem S)) \<and> keeps_history S (fst (consume now kid amount idem S))"
proof (cases rule: consume_cases [of now kid amount idem S])
  case unchanged
  then show ?thesis using keys_ok_I [OF i, of S] i by (simp add: keys_ok_def evolves_refl keys_evolve_same)
next
  case (taken k)
  let ?c = "\<lparr>ce_key = kid, ce_amount = amount, ce_idempotency = idem, ce_occurred_at = now\<rparr>"
  note k = key_by_id_Some [OF taken(1)]
  have "books_ok ((update_key (ak_id k) (\<lambda>k. k\<lparr>ak_balance := ak_balance k - ce_amount ?c\<rparr>) S)\<lparr>usage := usage S @ [?c]\<rparr>)"
    by (rule book_usage) (use i k taken in \<open>auto simp: keys_ok_def list_ex_iff\<close>)
  moreover have "keys_evolve S (update_key kid (\<lambda>k. k\<lparr>ak_balance := ak_balance k - amount\<rparr>) S)"
    by (rule keys_evolve_update) (simp add: key_step_def)
  ultimately show ?thesis using keys_ok_I [OF i, of "fst (consume now kid amount idem S)"] taken(6) k i
    by (simp add: keys_ok_def evolves_refl)
qed

lemma history_refl: "keeps_history S S"
  by (simp add: keeps_history_def evolves_refl keys_evolve_same)

lemma history_trans: "keeps_history S S1 \<Longrightarrow> keeps_history S1 S2 \<Longrightarrow> keeps_history S S2"
  by (auto simp: keeps_history_def intro: evolves_trans keys_evolve_trans prefix_order.order_trans)

lemma consume_batch_keeps:
  "keys_ok K S \<Longrightarrow> keys_ok K (fst (consume_batch now items S)) \<and> keeps_history S (fst (consume_batch now items S))"
proof (induction now items S rule: consume_batch.induct)
  case (2 now kid amount idem items S)
  obtain S1 x where c: "consume now kid amount idem S = (S1, x)" by fastforce
  have k: "keys_ok K S1" "keeps_history S S1" using consume_keeps [OF 2(2), of now kid amount idem] c by auto
  show ?case
  proof (cases x)
    case (Inr r)
    obtain S2 y where b: "consume_batch now items S1 = (S2, y)" by fastforce
    have "fst (consume_batch now ((kid, amount, idem) # items) S) = S2" using c Inr b by (auto split: sum.split)
    with 2(1) [OF c [symmetric] Inr k(1)] b k history_trans show ?thesis by (metis fst_conv)
  qed (use c k in simp)
qed (simp add: history_refl)

lemma revoke_keeps:
  assumes i: "keys_ok K S"
  shows "keys_ok K (fst (revoke kid S)) \<and> keeps_history S (fst (revoke kid S))"
proof (cases "key_by_id S kid")
  case (Some k)
  have "books_ok (update_key kid (\<lambda>k. k\<lparr>ak_status := ''revoked''\<rparr>) S)" by (rule book_same) (use i in \<open>auto simp: keys_ok_def\<close>)
  moreover have "keys_evolve S (update_key kid (\<lambda>k. k\<lparr>ak_status := ''revoked''\<rparr>) S)" by (rule keys_evolve_update) (simp add: key_step_def)
  ultimately show ?thesis using keys_ok_I [OF i, of "fst (revoke kid S)"] Some i by (simp add: revoke_def keys_ok_def evolves_refl)
qed (use i history_refl in \<open>simp add: revoke_def\<close>)

lemma adjust_keeps:
  assumes i: "keys_ok K S"
  shows "keys_ok K (fst (adjust now kid delta reason S)) \<and> keeps_history S (fst (adjust now kid delta reason S))"
proof (cases "fst (adjust now kid delta reason S) = S")
  case False
  then obtain k where k: "key_by_id S kid = Some k" "0 \<le> ak_balance k + delta"
    by (fastforce simp: adjust_def split: option.splits if_splits)
  with False obtain g where g: "fst (adjust now kid delta reason S) =
      (update_key kid (\<lambda>k. k\<lparr>ak_balance := ak_balance k + cg_quantity g\<rparr>) S)\<lparr>grants := grants S @ [g]\<rparr>"
      "cg_key g = kid" "cg_quantity g = delta" "cg_fulfillment g = None" "cg_negotiation g = None" "cg_reservation g = None"
    by (simp add: adjust_def Let_def split: if_splits)
  note kk = key_by_id_Some [OF k(1)]
  have "books_ok ((update_key (ak_id k) (\<lambda>k. k\<lparr>ak_balance := ak_balance k + cg_quantity g\<rparr>) S)\<lparr>grants := grants S @ [g]\<rparr>)"
    by (rule book_grant) (use i kk k g in \<open>auto simp: keys_ok_def\<close>)
  moreover have "keys_evolve S (update_key kid (\<lambda>k. k\<lparr>ak_balance := ak_balance k + cg_quantity g\<rparr>) S)"
    by (rule keys_evolve_update) (simp add: key_step_def)
  ultimately show ?thesis using keys_ok_I [OF i, of "fst (adjust now kid delta reason S)"] g kk i
    by (simp add: keys_ok_def evolves_refl backed_in_def)
qed (use i history_refl in simp)

section \<open>Every sequence of operations\<close>

datatype credit_op =
    Issue int issuance
  | Consume int string int "string option"
  | Consume_Batch int "(string \<times> int \<times> string option) list"
  | Revoke string
  | Adjust int string int "string option"
  | Quota_Op ledger_op

definition exec_credits :: "keys_env \<Rightarrow> credit_op \<Rightarrow> credits \<Rightarrow> credits" where
  "exec_credits K p S = (case p of
     Issue now q \<Rightarrow> fst (issue K now q S)
   | Consume now kid amount idem \<Rightarrow> fst (consume now kid amount idem S)
   | Consume_Batch now items \<Rightarrow> fst (consume_batch now items S)
   | Revoke kid \<Rightarrow> fst (revoke kid S)
   | Adjust now kid delta reason \<Rightarrow> fst (adjust now kid delta reason S)
   | Quota_Op l \<Rightarrow> S\<lparr>quota := exec (ke_site K) l (quota S)\<rparr>)"

lemma exec_credits_keeps:
  assumes "keys_ok K S"
  shows "keys_ok K (exec_credits K p S) \<and> keeps_history S (exec_credits K p S)"
proof (cases p)
  case (Quota_Op l)
  have "lawful (ke_site K) (quota S) (exec (ke_site K) l (quota S))" using assms by (simp add: keys_ok_def exec_lawful)
  then show ?thesis using keys_ok_I [OF assms, of "S\<lparr>quota := exec (ke_site K) l (quota S)\<rparr>"] assms Quota_Op
    by (simp add: exec_credits_def lawful_def keys_ok_def keys_evolve_same)
qed (use assms in \<open>simp_all add: exec_credits_def issue_keeps consume_keeps consume_batch_keeps revoke_keeps adjust_keeps\<close>)

definition credit_step :: "credit_op \<Rightarrow> keys_env \<times> credits \<Rightarrow> keys_env \<times> credits" where
  "credit_step p s = (fst s, exec_credits (fst s) p (snd s))"

interpretation accounts: op_machine credit_step "\<lambda>_ _. True" "\<lambda>s. keys_ok (fst s) (snd s)" "\<lambda>s t. fst t = fst s \<and> keeps_history (snd s) (snd t)"
proof
  fix s p assume "keys_ok (fst s) (snd s)"
  then show "keys_ok (fst (credit_step p s)) (snd (credit_step p s))"
    "fst (credit_step p s) = fst s \<and> keeps_history (snd s) (snd (credit_step p s))"
    using exec_credits_keeps by (simp_all add: credit_step_def)
qed (auto intro: history_refl history_trans)

definition run_credits :: "keys_env \<Rightarrow> credit_op list \<Rightarrow> credits \<Rightarrow> credits" where
  "run_credits K ps S = fold (exec_credits K) ps S"

lemma run_credit_step: "run_ops credit_step ps (K, S) = (K, run_credits K ps S)"
  by (induction ps arbitrary: S) (auto simp: run_credits_def credit_step_def)

lemma run_credits_ok: "keys_ok K S \<Longrightarrow> keys_ok K (run_credits K ps S)"
  using accounts.run_keeps [of "(K, S)" ps] by (simp add: run_credit_step)

lemma run_credits_history: "keys_ok K S \<Longrightarrow> keeps_history S (run_credits K ps S)"
  using accounts.run_moves [of "(K, S)" ps] by (simp add: run_credit_step)

text \<open>Operations that leave the quota ledger within its capacity.\<close>

definition within_quota :: "config \<Rightarrow> credit_op \<Rightarrow> bool" where
  "within_quota C p = (case p of Quota_Op l \<Rightarrow> timeless C l | _ \<Rightarrow> True)"

lemma issue_quota: "quota (fst (issue K now q S)) = quota S \<or> quota (fst (issue K now q S)) = fst (commit_quota K now q (quota S))"
proof (cases rule: issue_cases [of K now q S])
  case (valid owner key)
  show ?thesis
  proof (cases "grant_by_fulfillment S (is_fulfillment q)")
    case (Some prior)
    have "quota (fst (replay K q owner key prior S)) = quota S" by (cases rule: replay_state [of K q owner key prior S]) simp_all
    then show ?thesis using valid(1) Some by (simp add: issue_valid_def)
  next
    case None
    then show ?thesis
      by (cases rule: issue_fresh_cases [where K = K and now = now and owner = owner and key = key]) (simp_all add: valid(1) Let_def)
  qed
qed simp

lemma consume_batch_quota: "quota (fst (consume_batch now items S)) = quota S"
proof (induction now items S rule: consume_batch.induct)
  case (2 now kid amount idem items S)
  obtain S1 x where c: "consume now kid amount idem S = (S1, x)" by fastforce
  have q: "quota S1 = quota S" using consume_cases [of now kid amount idem S] c
    by (cases rule: consume_cases [of now kid amount idem S]) simp_all
  show ?case
  proof (cases x)
    case (Inr r)
    have "fst (consume_batch now ((kid, amount, idem) # items) S) = fst (consume_batch now items S1)"
      using c Inr by (auto split: prod.split sum.split)
    with 2(1) [OF c [symmetric] Inr] q show ?thesis by simp
  qed (use c q in simp)
qed simp

lemma exec_credits_fits:
  assumes i: "keys_ok K S" and f: "fits (ke_site K) (quota S)" and p: "within_quota (ke_site K) p"
  shows "fits (ke_site K) (quota (exec_credits K p S))"
proof (cases p)
  case (Issue now q)
  have "fits (ke_site K) (fst (commit_quota K now q (quota S)))"
    using quota_totals.commit_quota_keeps [OF refl, of K "quota S" now q] i f by (simp add: keys_ok_def)
  then show ?thesis using issue_quota [of K now q S] f Issue by (auto simp: exec_credits_def)
next
  case (Consume now kid amount idem)
  then show ?thesis using f by (cases rule: consume_cases [of now kid amount idem S]) (simp_all add: exec_credits_def)
next
  case (Quota_Op l)
  then show ?thesis using exec_fits [of "ke_site K" "quota S" l] i f p by (simp add: exec_credits_def keys_ok_def within_quota_def)
qed (use f in \<open>auto simp: exec_credits_def consume_batch_quota revoke_def adjust_def Let_def split: option.splits\<close>)

interpretation in_quota: op_machine credit_step "\<lambda>p s. within_quota (ke_site (fst s)) p"
  "\<lambda>s. keys_ok (fst s) (snd s) \<and> fits (ke_site (fst s)) (quota (snd s))" "\<lambda>_ _. True"
proof
  fix s p assume "keys_ok (fst s) (snd s) \<and> fits (ke_site (fst s)) (quota (snd s))" "within_quota (ke_site (fst s)) p"
  then show "keys_ok (fst (credit_step p s)) (snd (credit_step p s)) \<and> fits (ke_site (fst (credit_step p s))) (quota (snd (credit_step p s)))"
    using accounts.keeps [of s p] by (auto simp: credit_step_def exec_credits_fits)
qed simp_all

lemma run_credits_fits:
  assumes "keys_ok K S" "fits (ke_site K) (quota S)" "list_all (within_quota (ke_site K)) ps"
  shows "fits (ke_site K) (quota (run_credits K ps S))"
proof -
  have "all_along credit_step (\<lambda>p s. within_quota (ke_site (fst s)) p) ps (K, S) = list_all (within_quota (ke_site K)) ps"
    by (induction ps arbitrary: S) (auto simp: credit_step_def)
  with in_quota.run_keeps [of "(K, S)" ps] assms show ?thesis by (simp add: run_credit_step)
qed

definition empty_credits :: "resource_pool list \<Rightarrow> credits" where
  "empty_credits ds = \<lparr>api_keys = [], grants = [], usage = [], quota = empty_ledger ds, tokens = 0\<rparr>"

lemma empty_keys_ok: "runtime_ok (ke_site K) \<Longrightarrow> quota_wired (ke_site K) \<Longrightarrow> keys_ok K (empty_credits ds)"
  by (simp add: keys_ok_def empty_credits_def books_ok_def once_each_def empty_inv)

lemma distinct_via:
  assumes "distinct (filter (\<lambda>y. y \<noteq> None) (map f xs))" "\<And>x y. x \<in> set xs \<Longrightarrow> y \<in> set xs \<Longrightarrow> g x \<noteq> None \<Longrightarrow> g x = g y \<Longrightarrow> f x = f y"
    "\<And>x. x \<in> set xs \<Longrightarrow> g x \<noteq> None \<Longrightarrow> f x \<noteq> None"
  shows "distinct (filter (\<lambda>y. y \<noteq> None) (map g xs))"
  using assms
proof (induction xs)
  case (Cons x xs)
  have rest: "distinct (filter (\<lambda>y. y \<noteq> None) (map g xs))" 
  proof (rule Cons.IH)
    show "distinct (filter (\<lambda>y. y \<noteq> None) (map f xs))" using Cons.prems(1) by (simp split: if_splits)
  qed (meson Cons.prems(2,3) list.set_intros(2))+
  show ?case
  proof (cases "g x = None")
    case False
    have "g x \<notin> g ` set xs"
    proof
      assume "g x \<in> g ` set xs"
      then obtain y where y: "y \<in> set xs" "g x = g y" by auto
      with Cons.prems(2) [of x y] False have "f x = f y" by simp
      moreover have "f x \<noteq> None" using Cons.prems(3) [of x] False by simp
      ultimately have "f x \<in> set (filter (\<lambda>y. y \<noteq> None) (map f xs))" "f x \<noteq> None" using y(1) by auto
      with Cons.prems(1) show False by simp
    qed
    with rest show ?thesis by auto
  qed (use rest in simp)
qed simp

lemma own_lease:
  assumes i: "keys_ok K S"
  shows "distinct (filter (\<lambda>x. x \<noteq> None) (map cg_reservation (grants S)))"
proof (rule distinct_via)
  show "distinct (filter (\<lambda>x. x \<noteq> None) (map cg_negotiation (grants S)))" using i by (simp add: keys_ok_def books_ok_def once_each_def)
next
  fix g h assume g: "g \<in> set (grants S)" "h \<in> set (grants S)" "cg_reservation g \<noteq> None" "cg_reservation g = cg_reservation h"
  then obtain rid where rid: "cg_reservation g = Some rid" "cg_reservation h = Some rid" by auto
  have b: "backed_in (quota S) g" "backed_in (quota S) h" using i g(1,2) by (simp_all add: keys_ok_def)
  obtain r where r1: "r \<in> set (reservations (quota S))" "r_id r = rid" "backs g r" "cg_negotiation g \<noteq> None" using b(1) rid by (auto simp: backed_in_def)
  obtain r' where r2: "r' \<in> set (reservations (quota S))" "r_id r' = rid" "backs h r'" "cg_negotiation h \<noteq> None" using b(2) rid by (auto simp: backed_in_def)
  note r = r1 r2
  then have "r = r'" using row_unique [of "quota S" r r'] inv_ids [of "ke_site K" "quota S"] i by (simp add: keys_ok_def)
  with r show "cg_negotiation g = cg_negotiation h" by (auto simp: backs_def opt_text_def)
qed (use i in \<open>auto simp: keys_ok_def backed_in_def\<close>)

end
