(* ===== verification/Credit_Guarantees.thy ===== *)
theory Credit_Guarantees
  imports Credit_Books
begin

text \<open>
  What the credits authority guarantees: balanced books, issuance that credits a fulfillment
  once, consumption that implements an account specification, and grants that are backed by
  leases of their own in a quota ledger that is never oversold.
\<close>

section \<open>A small authority\<close>

definition ex_hex :: string where
  "ex_hex = replicate 64 CHR ''0''"

definition ex_keys :: keys_env where
  "ex_keys = \<lparr>ke_sha256 = (\<lambda>_. ex_hex), ke_json = (\<lambda>_. Some []), ke_token = (\<lambda>n. replicate n CHR ''t''), ke_site = ex_config\<rparr>"

definition ex_api_pools :: "resource_pool list" where
  "ex_api_pools = [\<lparr>pool_name = ''pool'', pool_provider_id = ''prov'', pool_enabled = True,
     pool_policy_tags = [(DELIVERABLE_MODES_POLICY_TAG, PList [PStr API_CREDITS])]\<rparr>]"

definition ex_api_capacity :: capacity_declaration where
  "ex_api_capacity = \<lparr>cd_resource = ''api'', cd_pool = ''pool'', cd_type = ''api.quota'', cd_subtype = None, cd_host = None,
     cd_capacity = [(''units'', 5)], cd_attributes = [], cd_enabled = True\<rparr>"

definition ex_purchase :: issuance where
  "ex_purchase = \<lparr>is_fulfillment = ''api-credit-fulfillment.v1:'' @ ex_hex, is_negotiation = ''n1'', is_owner_scheme = ''eip191'',
     is_owner_id = ''0x'' @ replicate 40 CHR ''a'', is_service = ''svc'', is_resource = ''api'', is_quantity = 3, is_key_mode = ''new'',
     is_digest = ''sha256:'' @ ex_hex, is_key_id = None, is_reservation = None\<rparr>"

definition ex_key_id :: string where
  "ex_key_id = derive_key_id ex_keys (is_fulfillment ex_purchase)"

definition ex_open :: credits where
  "ex_open = run_credits ex_keys [Quota_Op (Register 0 ex_api_capacity)] (empty_credits ex_api_pools)"

definition ex_owner :: principal where
  "ex_owner = \<lparr>pr_scheme = EIP191, pr_identifier = ''0x'' @ replicate 40 CHR ''a''\<rparr>"

definition ex_sold :: credits where
  "ex_sold = fst (issue_valid ex_keys 5 ex_purchase ex_owner \<lparr>kd_mode = ''new'', kd_key_id = None\<rparr> ex_open)"

lemma ex_issue: "issue ex_keys now ex_purchase S = issue_valid ex_keys now ex_purchase ex_owner \<lparr>kd_mode = ''new'', kd_key_id = None\<rparr> S"
proof -
  have "keys_principal (Some (is_owner_scheme ex_purchase)) (Some (is_owner_id ex_purchase)) = Return (Some ex_owner)" by code_simp
  moreover have "mk_disposition (is_key_mode ex_purchase) (is_key_id ex_purchase) = Return \<lparr>kd_mode = ''new'', kd_key_id = None\<rparr>" by code_simp
  moreover have "issuance_request ex_keys ex_purchase ex_owner \<lparr>kd_mode = ''new'', kd_key_id = None\<rparr> = Return ()" by code_simp
  ultimately show ?thesis by (simp add: issue_def)
qed

lemma ex_run: "run_credits ex_keys (Issue 5 ex_purchase # ps) ex_open = run_credits ex_keys ps ex_sold"
  by (simp add: run_credits_def exec_credits_def ex_sold_def ex_issue)

lemma ex_wired: "quota_wired (ke_site ex_keys)" "runtime_ok (ke_site ex_keys)"
  using ex_runtime by (simp_all add: quota_wired_def ex_keys_def ex_config_def)

lemma ex_open_ok: "keys_ok ex_keys ex_open"
  unfolding ex_open_def by (intro run_credits_ok empty_keys_ok ex_wired)

section \<open>Books\<close>

text \<open>C7: the books of the credits authority balance.  After every sequence of issuances,
  consumptions, batches, revocations, adjustments and operations on the quota ledger, a key's
  balance is exactly what it was granted less what it spent and is not negative, no
  fulfillment was granted twice, and no idempotency key of a key was charged twice.\<close>

theorem credit_books_balance:
  assumes "runtime_ok (ke_site K)" "quota_wired (ke_site K)" "key_by_id (run_credits K ps (empty_credits ds)) kid = Some k"
  shows "let S = run_credits K ps (empty_credits ds) in
     ak_balance k = sum_list (map cg_quantity (filter (\<lambda>g. cg_key g = kid) (grants S))) -
       sum_list (map ce_amount (filter (\<lambda>c. ce_key c = kid) (usage S))) \<and> 0 \<le> ak_balance k \<and>
     distinct (filter (\<lambda>f. f \<noteq> None) (map cg_fulfillment (grants S))) \<and>
     distinct (filter (\<lambda>p. snd p \<noteq> None) (map (\<lambda>c. (ce_key c, ce_idempotency c)) (usage S)))"
proof -
  have "keys_ok K (run_credits K ps (empty_credits ds))" by (intro run_credits_ok empty_keys_ok assms)
  then show ?thesis using key_by_id_Some [OF assms(3)]
    by (auto simp: Let_def keys_ok_def books_ok_def key_ok_def granted_def spent_def once_each_def)
qed

theorem credit_books_balance_witness:
  "\<exists>k. key_by_id (run_credits ex_keys [Quota_Op (Register 0 ex_api_capacity), Issue 5 ex_purchase, Consume 6 ex_key_id 1 (Some ''i''),
     Consume 7 ex_key_id 1 (Some ''i'')] (empty_credits ex_api_pools)) ex_key_id = Some k \<and> ak_balance k = 2 \<and> 0 \<le> ak_balance k"
proof -
  let ?S = "run_credits ex_keys [Quota_Op (Register 0 ex_api_capacity), Issue 5 ex_purchase, Consume 6 ex_key_id 1 (Some ''i''),
     Consume 7 ex_key_id 1 (Some ''i'')] (empty_credits ex_api_pools)"
  have "?S = run_credits ex_keys [Consume 6 ex_key_id 1 (Some ''i''), Consume 7 ex_key_id 1 (Some ''i'')] ex_sold"
    unfolding ex_run [symmetric] by (simp add: ex_open_def run_credits_def)
  moreover have "map_option ak_balance (key_by_id (run_credits ex_keys [Consume 6 ex_key_id 1 (Some ''i''), Consume 7 ex_key_id 1 (Some ''i'')] ex_sold) ex_key_id) = Some 2"
    by code_simp
  ultimately have "map_option ak_balance (key_by_id ?S ex_key_id) = Some 2" by simp
  then obtain k where k: "key_by_id ?S ex_key_id = Some k" "ak_balance k = 2" by auto
  from credit_books_balance [OF ex_wired(2,1) k(1)] k show ?thesis by (auto simp: Let_def)
qed

section \<open>Consumption refines an account\<close>

text \<open>What a metered service relies on: an account is live or not, has credit, and remembers the
  idempotency keys it has charged.\<close>

record account =
  ac_live :: bool
  ac_credit :: int
  ac_seen :: "string set"

definition accounts_of :: "credits \<Rightarrow> string \<Rightarrow> account option" where
  "accounts_of S kid = map_option (\<lambda>k. \<lparr>ac_live = (ak_status k = ''active''), ac_credit = ak_balance k,
     ac_seen = {i. \<exists>c \<in> set (usage S). ce_key c = kid \<and> ce_idempotency c = Some i}\<rparr>) (key_by_id S kid)"

definition charge :: "string \<Rightarrow> int \<Rightarrow> string option \<Rightarrow> (string \<Rightarrow> account option) \<Rightarrow> (string \<Rightarrow> account option) \<times> consume_result" where
  "charge kid amount idem M = (case M kid of
     None \<Rightarrow> (M, Refused_Consume KEY_NOT_FOUND 0)
   | Some a \<Rightarrow>
       if \<not> ac_live a then (M, Refused_Consume KEY_REVOKED (ac_credit a))
       else if set_option idem \<inter> ac_seen a \<noteq> {} then (M, Duplicate (ac_credit a))
       else if ac_credit a < amount then (M, Refused_Consume INSUFFICIENT_CREDITS (ac_credit a))
       else (M(kid \<mapsto> a\<lparr>ac_credit := ac_credit a - amount, ac_seen := ac_seen a \<union> set_option idem\<rparr>), Consumed amount (ac_credit a - amount)))"

fun charge_all :: "(string \<times> int \<times> string option) list \<Rightarrow> (string \<Rightarrow> account option) \<Rightarrow> (string \<Rightarrow> account option) \<times> consume_result list" where
  "charge_all [] M = (M, [])"
| "charge_all ((kid, amount, idem) # items) M =
     (let (M1, r) = charge kid amount idem M; (M2, rs) = charge_all items M1 in (M2, r # rs))"

lemma find_map_id:
  "(\<And>x. ak_id (f x) = ak_id x) \<Longrightarrow> find (\<lambda>k. ak_id k = y) (map f ks) = map_option f (find (\<lambda>k. ak_id k = y) ks)"
  by (induction ks) auto

lemma key_by_id_update:
  "(\<And>k. ak_id (f k) = ak_id k) \<Longrightarrow> key_by_id (update_key kid f S) y = map_option (\<lambda>k. if ak_id k = kid then f k else k) (key_by_id S y)"
  unfolding key_by_id_def update_key_def by (simp add: find_map_id)

lemma key_by_id_frame [simp]:
  "key_by_id (S\<lparr>usage := u\<rparr>) y = key_by_id S y" "key_by_id (S\<lparr>grants := g\<rparr>) y = key_by_id S y"
  "key_by_id (S\<lparr>quota := L\<rparr>) y = key_by_id S y" "key_by_id (S\<lparr>tokens := n\<rparr>) y = key_by_id S y"
  by (simp_all add: key_by_id_def)

lemma consume_refines:
  assumes "1 \<le> amount"
  shows "consume now kid amount idem S = (S', Return r) \<Longrightarrow> charge kid amount idem (accounts_of S) = (accounts_of S', r)"
    and "\<exists>r. snd (consume now kid amount idem S) = Return r"
proof -
  show "\<exists>r. snd (consume now kid amount idem S) = Return r" using assms by (auto simp: consume_def split: option.split)
  assume c: "consume now kid amount idem S = (S', Return r)"
  show "charge kid amount idem (accounts_of S) = (accounts_of S', r)"
  proof (cases "key_by_id S kid")
    case None
    with c assms show ?thesis by (simp add: consume_def charge_def accounts_of_def split: if_splits)
  next
    case (Some k)
    have seen: "(set_option idem \<inter> {i. \<exists>c \<in> set (usage S). ce_key c = kid \<and> ce_idempotency c = Some i} \<noteq> {}) =
        (idem \<noteq> None \<and> list_ex (\<lambda>c. ce_key c = kid \<and> ce_idempotency c = idem) (usage S))"
      by (cases idem) (auto simp: list_ex_iff)
    show ?thesis
    proof (cases "ak_status k = ''active'' \<and> \<not> (idem \<noteq> None \<and> list_ex (\<lambda>c. ce_key c = kid \<and> ce_idempotency c = idem) (usage S)) \<and> amount \<le> ak_balance k")
      case False
      with c assms Some seen show ?thesis by (auto simp: consume_def charge_def accounts_of_def split: if_splits)
    next
      case True
      let ?c = "\<lparr>ce_key = kid, ce_amount = amount, ce_idempotency = idem, ce_occurred_at = now\<rparr>"
      have S': "S' = (update_key kid (\<lambda>k. k\<lparr>ak_balance := ak_balance k - amount\<rparr>) S)\<lparr>usage := usage S @ [?c]\<rparr>"
          "r = Consumed amount (ak_balance k - amount)"
        using c assms Some True by (auto simp: consume_def split: if_splits)
      let ?a = "\<lparr>ac_live = True, ac_credit = ak_balance k, ac_seen = {i. \<exists>c \<in> set (usage S). ce_key c = kid \<and> ce_idempotency c = Some i}\<rparr>"
      have "accounts_of S' y = ((accounts_of S)(kid \<mapsto> ?a\<lparr>ac_credit := ak_balance k - amount, ac_seen := ac_seen ?a \<union> set_option idem\<rparr>)) y" for y
        unfolding S'(1) using Some True key_by_id_Some [of S y]
        by (cases "key_by_id S y") (auto simp: accounts_of_def key_by_id_update dest: key_by_id_Some)
      then have "accounts_of S' = (accounts_of S)(kid \<mapsto> ?a\<lparr>ac_credit := ak_balance k - amount, ac_seen := ac_seen ?a \<union> set_option idem\<rparr>)" by blast
      with True Some seen S'(2) show ?thesis by (auto simp: charge_def accounts_of_def)
    qed
  qed
qed

lemma consume_batch_steps:
  "consume_batch now ((kid, amount, idem) # items) S =
     (if amount < 1 then (S, Raise (Bad_Value ''amount''))
      else (let (S1, r) = consume now kid amount idem S; (S2, rs) = consume_batch now items S1 in
        (S2, res_bind rs (\<lambda>rs. Return (projr r # rs)))))"
proof (cases "amount < 1")
  case False
  then obtain S1 r where c: "consume now kid amount idem S = (S1, Return r)"
    using consume_refines(2) [of amount now kid idem S] by (metis linorder_not_less prod.collapse)
  obtain S2 rs where "consume_batch now items S1 = (S2, rs)" by fastforce
  with c False show ?thesis by (cases rs) simp_all
qed (simp add: consume_def)

text \<open>C9: consumption implements the account specification.  A batch of charges leaves every
  key's account as the specification does and answers each item as it does (charged once per
  idempotency key, refused for an unknown or revoked key or too little credit), up to the
  first item whose amount is not positive, which is refused and ends the batch.\<close>

theorem consume_batch_refines:
  "let good = takeWhile (\<lambda>(kid, amount, idem). 1 \<le> amount) items in
     accounts_of (fst (consume_batch now items S)) = fst (charge_all good (accounts_of S)) \<and>
     snd (consume_batch now items S) =
       (if good = items then Return (snd (charge_all good (accounts_of S))) else Raise (Bad_Value ''amount''))"
proof (induction items arbitrary: S)
  case (Cons item items)
  obtain kid amount idem where item: "item = (kid, amount, idem)" by (cases item)
  show ?case
  proof (cases "amount < 1")
    case False
    then obtain S1 r where c: "consume now kid amount idem S = (S1, Return r)"
      using consume_refines(2) [of amount now kid idem S] by (metis linorder_not_less prod.collapse)
    have ch: "charge kid amount idem (accounts_of S) = (accounts_of S1, r)" using consume_refines(1) [OF _ c] False by simp
    obtain S2 rs where b: "consume_batch now items S1 = (S2, rs)" by fastforce
    obtain M ms where m: "charge_all (takeWhile (\<lambda>(kid, amount, idem). 1 \<le> amount) items) (accounts_of S1) = (M, ms)" by fastforce
    from Cons.IH [of S1] b m have "accounts_of S2 = M"
      "rs = (if takeWhile (\<lambda>(kid, amount, idem). 1 \<le> amount) items = items then Return ms else Raise (Bad_Value ''amount''))"
      by (simp_all add: Let_def)
    with False c b ch m show ?thesis by (simp add: item consume_batch_steps Let_def del: consume_batch.simps)
  qed (simp add: item consume_batch_steps Let_def del: consume_batch.simps)
qed (simp add: Let_def)

section \<open>Grants and the quota ledger\<close>

text \<open>C10: every issuance is backed by quota.  From any state that satisfies the authority's
  invariant, after any operations: each grant of an issuance has a reservation of its own in
  the quota ledger, in the \<open>api_credits\<close> mode, of exactly the granted quantity, that was
  committed and is never again a mere hold; no two grants share one.  And while the other
  operations on the quota ledger are timeless, no issuance makes a quota resource hold more
  than it declares.\<close>

theorem grants_backed_by_own_leases:
  assumes "keys_ok K S"
  shows "let S' = run_credits K ps S in
     (\<forall>g \<in> set (grants S'). cg_fulfillment g \<noteq> None \<longrightarrow> (\<exists>rid r. cg_reservation g = Some rid \<and> reservation_by_id (quota S') rid = Some r \<and>
        r_state r \<noteq> Reserved \<and> r_offering_mode r = Some API_CREDITS \<and> r_units r = cg_quantity g)) \<and>
     distinct (filter (\<lambda>x. x \<noteq> None) (map cg_reservation (grants S'))) \<and>
     (fits (ke_site K) (quota S) \<and> list_all (within_quota (ke_site K)) ps \<longrightarrow> fits (ke_site K) (quota S'))"
proof -
  let ?S = "run_credits K ps S"
  have i: "keys_ok K ?S" by (rule run_credits_ok [OF assms])
  have "\<exists>rid r. cg_reservation g = Some rid \<and> reservation_by_id (quota ?S) rid = Some r \<and> r_state r \<noteq> Reserved \<and>
      r_offering_mode r = Some API_CREDITS \<and> r_units r = cg_quantity g" if g: "g \<in> set (grants ?S)" and f: "cg_fulfillment g \<noteq> None" for g
  proof -
    have b: "backed_in (quota ?S) g" using i g by (simp add: keys_ok_def)
    then obtain rid r where r: "cg_reservation g = Some rid" "r \<in> set (reservations (quota ?S))" "r_id r = rid" "backs g r"
      using f by (auto simp: backed_in_def)
    have "ids_ok (quota ?S)" using i inv_ids by (auto simp: keys_ok_def)
    from reservation_by_id_mem [OF this r(2)] r show ?thesis by (auto simp: backs_def)
  qed
  with own_lease [OF i] run_credits_fits [OF assms] show ?thesis by (simp add: Let_def)
qed

lemma ex_open_fits: "fits (ke_site ex_keys) (quota ex_open)"
proof -
  have r: "reservations (quota ex_open) = []" by code_simp
  have "list_all (\<lambda>b. resource_capacity ''units'' b = [(''units'', 5)]) (buckets (quota ex_open))" by code_simp
  then have cap: "resource_capacity ''units'' b = [(''units'', 5)]" if "b \<in> set (buckets (quota ex_open))" for b
    using that by (simp add: list_all_iff)
  have m: "mirror_dimension (ke_site ex_keys) = ''units''" using ex_wired by (simp add: quota_wired_def)
  show ?thesis unfolding fits_by_total fits_by_def m by (auto simp: held_by_def r cap dim_def)
qed

theorem grants_backed_by_own_leases_witness:
  "map (\<lambda>g. cg_reservation g \<noteq> None) (grants (run_credits ex_keys [Issue 5 ex_purchase] ex_open)) = [True] \<and>
   fits (ke_site ex_keys) (quota (run_credits ex_keys [Issue 5 ex_purchase] ex_open))"
proof -
  have "map (\<lambda>g. cg_reservation g \<noteq> None) (grants (run_credits ex_keys [] ex_sold)) = [True]" by code_simp
  then have "map (\<lambda>g. cg_reservation g \<noteq> None) (grants (run_credits ex_keys [Issue 5 ex_purchase] ex_open)) = [True]" by (simp only: ex_run)
  with grants_backed_by_own_leases [OF ex_open_ok, of "[Issue 5 ex_purchase]"] ex_open_fits show ?thesis
    by (simp add: Let_def within_quota_def)
qed

section \<open>Issuance happens once\<close>

lemma keys_principal_again:
  assumes "keys_principal (Some s) (Some i) = Return (Some p)"
  shows "keys_principal (Some (scheme_value (pr_scheme p))) (Some (pr_identifier p)) = Return (Some p)"
proof -
  from assms obtain sc where "mk_identity sc i = Return p"
    by (auto simp: keys_principal_def split: option.splits sum.splits)
  then have "principal_ok p" by (rule mk_identity_ok)
  then show ?thesis by (simp add: keys_principal_def parse_scheme_value [THEN iffD2] principal_ok_def)
qed

lemma grant_found:
  assumes "books_ok S" "g \<in> set (grants S)" "cg_fulfillment g = Some f"
  shows "grant_by_fulfillment S f = Some g"
proof -
  have "distinct (filter (\<lambda>f. f \<noteq> None) (map cg_fulfillment gs)) \<Longrightarrow> g \<in> set gs \<Longrightarrow> find (\<lambda>g. cg_fulfillment g = Some f) gs = Some g" for gs
    using assms(3) by (induction gs) (auto split: if_splits, force)
  then show ?thesis using assms(1,2) by (simp add: grant_by_fulfillment_def books_ok_def once_each_def)
qed

text \<open>What an issuance leaves behind: its grant, and a key of the buyer.\<close>

definition settled :: "credits \<Rightarrow> issuance \<Rightarrow> principal \<Rightarrow> key_disposition \<Rightarrow> credit_grant \<Rightarrow> bool" where
  "settled S q owner key g = (g \<in> set (grants S) \<and> cg_fulfillment g = Some (is_fulfillment q) \<and> assert_replay g q owner key = Return () \<and>
     (\<exists>k \<in> set (api_keys S). ak_id k = cg_key g \<and> owner_admits k (Some owner) = Return True))"

lemma settled_history: "keeps_history S S' \<Longrightarrow> settled S q owner key g \<Longrightarrow> settled S' q owner key g"
proof -
  assume h: "keeps_history S S'" and s: "settled S q owner key g"
  then obtain k where k: "k \<in> set (api_keys S)" "ak_id k = cg_key g" "owner_admits k (Some owner) = Return True" by (auto simp: settled_def)
  obtain k' where k': "k' \<in> set (api_keys S')" "key_step k k'" using h k(1) by (auto simp: keeps_history_def keys_evolve_def)
  then have "ak_id k' = cg_key g" "owner_admits k' (Some owner) = Return True" using k(2,3) by (simp_all add: key_step_def owner_admits_def)
  with s k' h show "settled S' q owner key g" by (auto simp: settled_def keeps_history_def prefix_def)
qed

lemma assert_replay_owner:
  "assert_replay g q owner key = Return () \<Longrightarrow> keys_principal (Some (scheme_value (pr_scheme owner))) (Some (pr_identifier owner)) = Return (Some owner) \<Longrightarrow>
   keys_principal (cg_owner_scheme g) (cg_owner_id g) = Return (Some owner)"
  by (auto simp: assert_replay_def split: if_splits)

text \<open>A request for a settled fulfillment is replayed or refused, and books nothing.\<close>

lemma reissue_result:
  assumes ok: "books_ok S" and s: "settled S q owner key g"
    and o: "keys_principal (Some (scheme_value (pr_scheme owner))) (Some (pr_identifier owner)) = Return (Some owner)"
  shows "\<exists>k secret. ak_id k = cg_key g \<and> snd (reissue K g S) = grant_result_of g k secret True"
proof -
  obtain k where k: "k \<in> set (api_keys S)" "ak_id k = cg_key g" "owner_admits k (Some owner) = Return True" using s by (auto simp: settled_def)
  have "key_by_id S (cg_key g) = Some k" using key_by_id_mem [OF ok k(1)] k(2) by simp
  moreover have "keys_principal (cg_owner_scheme g) (cg_owner_id g) = Return (Some owner)"
    using assert_replay_owner [OF _ o, of g q key] s by (simp add: settled_def)
  ultimately show ?thesis using k by (auto simp: reissue_def Let_def)
qed

lemma issue_settled:
  assumes i: "keys_ok K S" and s: "settled S q owner key g" and f: "is_fulfillment q' = is_fulfillment q"
  obtains (invalid) e where "issue K now q' S = (S, Raise e)"
  | (replayed) owner' key' where "issue K now q' S = replay K q' owner' key' g S"
      "keys_principal (Some (is_owner_scheme q')) (Some (is_owner_id q')) = Return (Some owner')"
      "mk_disposition (is_key_mode q') (is_key_id q') = Return key'"
proof (cases rule: issue_cases [of K now q' S])
  case (invalid e)
  then show thesis by (rule that(1))
next
  case (valid owner' key')
  have "grant_by_fulfillment S (is_fulfillment q') = Some g"
    by (rule grant_found) (use i s f in \<open>simp_all add: keys_ok_def settled_def\<close>)
  with valid that(2) show thesis by (simp add: issue_valid_def)
qed

lemma target_key_owned:
  assumes o: "keys_principal (Some (scheme_value (pr_scheme owner))) (Some (pr_identifier owner)) = Return (Some owner)"
    and t: "target_key K now q owner key S = Return (S1, k, secret)"
  shows "owner_admits k (Some owner) = Return True"
proof (cases "kd_mode key = ''existing''")
  case True
  then show ?thesis using t by (auto simp: target_key_def res_bind_Inr_iff split: option.splits if_splits)
next
  case False
  then show ?thesis using t o
    by (cases "key_by_id S (derive_key_id K (is_fulfillment q))") (auto simp: target_key_def Let_def res_bind_Inr_iff owner_admits_def split: if_splits)
qed

text \<open>A successful issuance settles its fulfillment, and its answer is its grant's.\<close>

lemma issue_settles:
  assumes i: "keys_ok K S" and r: "issue K now q S = (S1, Return r)"
  obtains owner key g k secret already where "keys_principal (Some (is_owner_scheme q)) (Some (is_owner_id q)) = Return (Some owner)"
    "mk_disposition (is_key_mode q) (is_key_id q) = Return key" "issuance_request K q owner key = Return ()"
    "settled S1 q owner key g" "ak_id k = cg_key g" "grant_result_of g k secret already = Return r"
proof (cases rule: issue_cases [of K now q S])
  case (invalid e)
  with r show thesis by simp
next
  case (valid owner key)
  note v = valid(2-4) keys_principal_again [OF valid(2)]
  show thesis
  proof (cases "grant_by_fulfillment S (is_fulfillment q)")
    case (Some g)
    then have e: "replay K q owner key g S = (S1, Return r)" using r valid(1) by (simp add: issue_valid_def)
    then have a: "assert_replay g q owner key = Return ()" and re: "reissue K g S = (S1, Return r)"
      by (auto simp: replay_def split: sum.splits)
    note o = assert_replay_owner [OF a v(4)]
    obtain k where k: "key_by_id S (cg_key g) = Some k" using re by (cases "key_by_id S (cg_key g)") (simp_all add: reissue_def)
    have own: "owner_admits k (Some owner) = Return True" using re k o
      by (cases "owner_admits k (Some owner)") (auto simp: reissue_def split: if_splits)
    obtain secret where gr: "grant_result_of g k secret True = Return r" using re k o own by (auto simp: reissue_def Let_def split: if_splits)
    have "settled S q owner key g"
      using Some a own key_by_id_Some [OF k] by (auto simp: settled_def grant_by_fulfillment_def find_Some_iff)
    then have "settled S1 q owner key g" using settled_history issue_keeps [OF i, of now q] r by auto
    then show thesis using that v(1-3) key_by_id_Some [OF k] gr by blast
  next
    case None
    then show thesis
    proof (cases rule: issue_fresh_cases [where K = K and now = now and owner = owner and key = key])
      case (granted S2 k secret L rid)
      let ?g = "new_grant q owner key (ak_id k) rid (ak_balance k + is_quantity q) now"
      have S1: "S1 = (update_key (ak_id k) (\<lambda>x. x\<lparr>ak_balance := ak_balance k + is_quantity q\<rparr>) S2)\<lparr>grants := grants S2 @ [?g], quota := L\<rparr>"
        and g: "grant_result_of ?g k secret False = Return r" using r valid(1) granted(4) by (simp_all add: Let_def)
      have k: "k \<in> set (api_keys S2)" using target_key_books [OF _ granted(1)] i by (simp add: keys_ok_def)
      let ?k = "k\<lparr>ak_balance := ak_balance k + is_quantity q\<rparr>"
      have "?k \<in> set (api_keys S1)" using k unfolding S1 by (force simp: update_key_def)
      moreover have "owner_admits ?k (Some owner) = Return True" using target_key_owned [OF v(4) granted(1)] by (simp add: owner_admits_def)
      ultimately have "settled S1 q owner key ?g" unfolding settled_def
        by (auto simp: S1 new_grant_def assert_replay_def intro!: bexI [of _ ?k])
      then show thesis using that v(1-3) g by (metis new_grant_def credit_grant.select_convs(1))
    qed (use r valid(1) in simp_all)
  qed
qed

lemma grant_answer:
  assumes "cg_result_balance g \<noteq> None" "grant_result_of g k secret already = Return r" "ak_id k = cg_key g" "ak_id k' = cg_key g"
  shows "grant_result_of g k' secret' True = Return (r\<lparr>gr_already_issued := True, gr_secret := secret'\<rparr>)"
  using assms by (auto simp: grant_result_of_def res_bind_Inr_iff split: option.splits)

lemma replay_balances:
  "map_option ak_balance (key_by_id (fst (replay K q owner key prior S)) kid) = map_option ak_balance (key_by_id S kid)"
proof (cases rule: replay_state [of K q owner key prior S])
  case (2 kid' h)
  then show ?thesis by (cases "key_by_id S kid") (simp_all add: key_by_id_update)
qed simp

definition purchase_terms :: "issuance \<Rightarrow> string \<times> string \<times> string \<times> int \<times> string \<times> string option \<times> string" where
  "purchase_terms q = (is_negotiation q, is_service q, is_resource q, is_quantity q, is_key_mode q, is_key_id q, is_digest q)"

lemma replay_terms:
  assumes "assert_replay g q owner key = Return ()" "assert_replay g q' owner' key' = Return ()"
    and "mk_disposition (is_key_mode q) (is_key_id q) = Return key" "mk_disposition (is_key_mode q') (is_key_id q') = Return key'"
  shows "purchase_terms q' = purchase_terms q"
  using assms by (auto simp: assert_replay_def purchase_terms_def mk_disposition_def split: if_splits)

lemma issue_same:
  assumes i: "keys_ok K S" and s: "settled S q owner key g"
    and v: "keys_principal (Some (is_owner_scheme q)) (Some (is_owner_id q)) = Return (Some owner)"
      "mk_disposition (is_key_mode q) (is_key_id q) = Return key" "issuance_request K q owner key = Return ()"
    and r: "ak_id k = cg_key g" "grant_result_of g k secret already = Return r"
  shows "\<exists>secret. snd (issue K now q S) = Return (r\<lparr>gr_already_issued := True, gr_secret := secret\<rparr>)"
proof -
  have ok: "books_ok S" using i by (simp add: keys_ok_def)
  have "grant_by_fulfillment S (is_fulfillment q) = Some g" by (rule grant_found [OF ok]) (use s in \<open>simp_all add: settled_def\<close>)
  then have "issue K now q S = reissue K g S" using v s by (simp add: issue_def issue_valid_def replay_def settled_def)
  moreover obtain k' secret' where "ak_id k' = cg_key g" "snd (reissue K g S) = grant_result_of g k' secret' True"
    using reissue_result [OF ok s keys_principal_again [OF v(1)], of K] by blast
  moreover have "cg_result_balance g \<noteq> None" using i s by (auto simp: keys_ok_def settled_def backed_in_def)
  ultimately show ?thesis using grant_answer [OF _ r(2,1)] by auto
qed

lemma issue_other:
  assumes i: "keys_ok K S" and s: "settled S q owner key g" and f: "is_fulfillment q' = is_fulfillment q"
    and key: "mk_disposition (is_key_mode q) (is_key_id q) = Return key" and e: "issue K now q' S = (S', answer)"
  shows "grants S' = grants S \<and> usage S' = usage S \<and> quota S' = quota S \<and>
    (\<forall>kid. map_option ak_balance (key_by_id S' kid) = map_option ak_balance (key_by_id S kid)) \<and>
    (purchase_terms q' \<noteq> purchase_terms q \<longrightarrow> (\<exists>e. answer = Raise e))"
proof (cases rule: issue_settled [OF i s f, of now])
  case (1 e')
  then show ?thesis using e by simp
next
  case (2 owner' key')
  have "grants S' = grants S" "usage S' = usage S" "quota S' = quota S"
    "\<forall>kid. map_option ak_balance (key_by_id S' kid) = map_option ak_balance (key_by_id S kid)"
    using replay_books [of S K q' owner' key' g] replay_balances [of K q' owner' key' g S] i e 2(1) by (simp_all add: keys_ok_def)
  moreover have "\<exists>e. answer = Raise e" if other: "purchase_terms q' \<noteq> purchase_terms q"
  proof (cases "assert_replay g q' owner' key'")
    case (Inr u)
    with replay_terms [of g q owner key q' owner' key'] s key 2(3) other show ?thesis by (simp add: settled_def)
  qed (use e 2(1) in \<open>auto simp: replay_def\<close>)
  ultimately show ?thesis by blast
qed

text \<open>C8: a fulfillment is credited once.  After a successful issuance and any further operations,
  a request with the same fulfillment books nothing: no grant, no consumption, no quota and no
  key's balance changes.  The identical request is answered again with the same grant, marked
  as already issued; a request with other terms is refused.\<close>

theorem issuance_exactly_once:
  assumes "keys_ok K S" "issue K now q S = (S1, Return r)" "is_fulfillment q' = is_fulfillment q"
  shows "let S2 = run_credits K ps S1; (S3, answer) = issue K now' q' S2 in
     grants S3 = grants S2 \<and> usage S3 = usage S2 \<and> quota S3 = quota S2 \<and>
     (\<forall>kid. map_option ak_balance (key_by_id S3 kid) = map_option ak_balance (key_by_id S2 kid)) \<and>
     (q' = q \<longrightarrow> (\<exists>secret. answer = Return (r\<lparr>gr_already_issued := True, gr_secret := secret\<rparr>))) \<and>
     (purchase_terms q' \<noteq> purchase_terms q \<longrightarrow> (\<exists>e. answer = Raise e))"
proof -
  define S2 where "S2 = run_credits K ps S1"
  obtain S3 answer where s3: "issue K now' q' S2 = (S3, answer)" by fastforce
  obtain owner key g k secret already where v: "keys_principal (Some (is_owner_scheme q)) (Some (is_owner_id q)) = Return (Some owner)"
    "mk_disposition (is_key_mode q) (is_key_id q) = Return key" "issuance_request K q owner key = Return ()"
    and st: "settled S1 q owner key g" and k: "ak_id k = cg_key g" "grant_result_of g k secret already = Return r"
    by (rule issue_settles [OF assms(1,2)])
  have i1: "keys_ok K S1" using issue_keeps [OF assms(1), of now q] assms(2) by simp
  have i2: "keys_ok K S2" and st2: "settled S2 q owner key g"
    using run_credits_ok [OF i1] settled_history [OF run_credits_history [OF i1] st] by (simp_all add: S2_def)
  show ?thesis
    using issue_other [OF i2 st2 assms(3) v(2) s3] issue_same [OF i2 st2 v k, of now'] s3
    by (auto simp: S2_def [symmetric] Let_def)
qed

theorem issuance_exactly_once_witness:
  "\<exists>S1 r. issue ex_keys 5 ex_purchase ex_open = (S1, Return r) \<and>
     quota (fst (issue ex_keys 9 ex_purchase (run_credits ex_keys [Consume 6 ex_key_id 1 None] S1))) = quota (run_credits ex_keys [Consume 6 ex_key_id 1 None] S1)"
proof -
  have "case snd (issue_valid ex_keys 5 ex_purchase ex_owner \<lparr>kd_mode = ''new'', kd_key_id = None\<rparr> ex_open) of Inl _ \<Rightarrow> False | Inr _ \<Rightarrow> True" by code_simp
  then obtain S1 r where r: "issue ex_keys 5 ex_purchase ex_open = (S1, Return r)"
    unfolding ex_issue by (cases "issue_valid ex_keys 5 ex_purchase ex_owner \<lparr>kd_mode = ''new'', kd_key_id = None\<rparr> ex_open") (auto split: sum.splits)
  with issuance_exactly_once [OF ex_open_ok r refl, of "[Consume 6 ex_key_id 1 None]" 9] show ?thesis
    by (auto simp: Let_def split: prod.splits)
qed

end
