(* ===== verification/Settlement_Journal.thy ===== *)
theory Settlement_Journal
  imports Market_Identity
begin

text \<open>
  The settlement journal: the records of
  \<open>src/kit/settlement-runtime/src/market_settlement_runtime/models.py\<close> and
  \<open>SettlementSQLiteRepository\<close> of \<open>sqlite_repository.py\<close>, one definition per method.

  The two tables are lists of rows.  A method is one database transaction: it maps the journal
  to the journal it commits and its result; one that raises or rolls back leaves the journal
  as it was.  A column of JSON text is the value it encodes; where the code compares the
  texts, the model compares \<open>se_json\<close> of the values.  \<open>stamp\<close> is the wall-clock stamp of the
  write, \<open>now\<close> the caller's clock, in seconds.  \<open>created_at\<close> and the operations' own
  \<open>updated_at\<close> are never read and are left out.
\<close>

section \<open>Records\<close>

datatype operation_kind = Materialize | Status | Fulfill | Cleanup | Check | Collect | Reclaim

datatype operation_state = Op_Pending | Op_In_Progress | Op_Succeeded | Op_Manual

datatype materialization_state = Mat_Pending | Mat_In_Progress | Materialized | Mat_Manual

datatype condition_state = Cond_Pending | Cond_Ready | Cond_Failed | Cond_Manual

datatype effect_state = Eff_Pending | Eff_In_Progress | Eff_Succeeded | Eff_Manual

datatype escrow_status =
    Requires_Action
  | Escrow_Pending
  | Escrow_Ready
  | Escrow_Collected
  | Escrow_Reclaimed
  | Escrow_Expired
  | Escrow_Failed
  | Escrow_Manual

type_synonym dict = "(string \<times> pyval) list"

text \<open>A JSON object as a value, and \<open>d.get(k)\<close>.\<close>

definition obj :: "dict \<Rightarrow> pyval" where
  "obj d = PDict (map (\<lambda>(k, v). (PStr k, v)) d)"

definition dict_get :: "dict \<Rightarrow> string \<Rightarrow> pyval" where
  "dict_get d k = (case map_of d k of None \<Rightarrow> PNone | Some v \<Rightarrow> v)"

record settle_env =
  se_sha256 :: "string \<Rightarrow> string"
  se_json :: "pyval \<Rightarrow> string"
  se_float :: "rat \<Rightarrow> rat"
  se_parse_float :: "string \<Rightarrow> pyfloat option"
  se_repr :: "rat \<Rightarrow> string"

datatype settle_error =
    Unknown_Obligation string
  | Unknown_Operation
  | Refused_Value string
  | Not_Permitted
  | Lease_Lost
  | Insert_Lost
  | Recorded_Otherwise string
  | Unique_Violation
  | Adapter_Error string
  | Number_Overflow

record operation_row =
  op_ref :: string
  op_kind :: operation_kind
  op_hash :: string
  op_state :: operation_state
  op_attempts :: int
  op_uncertain :: bool
  op_receipt :: "dict option"
  op_error :: "string option"
  op_owner :: "string option"
  op_until :: "rat option"
  op_next :: "rat option"
  op_awaiting :: bool

record obligation_row =
  ob_ref :: string
  ob_agreement :: string
  ob_index :: int
  ob_hash :: string
  ob_terms :: dict
  ob_payer :: principal
  ob_claimant :: principal
  ob_params :: dict
  ob_mechanism :: "string option"
  ob_status :: "escrow_status option"
  ob_mstate :: dict
  ob_action :: "dict option"
  ob_anchor :: "string option"
  ob_fulfillment :: "string option"
  ob_materialization :: materialization_state
  ob_condition :: condition_state
  ob_collection :: effect_state
  ob_reclaim :: effect_state
  ob_materialization_receipt :: "dict option"
  ob_status_receipt :: "dict option"
  ob_collection_receipt :: "dict option"
  ob_reclaim_receipt :: "dict option"
  ob_error :: "string option"
  ob_version :: int
  ob_updated :: string

record journal =
  obligations :: "obligation_row list"
  operations :: "operation_row list"

section \<open>Identity of an obligation\<close>

text \<open>Reading a principal from JSON: a closed object of a known scheme and an identifier.\<close>

definition read_identity :: "pyval \<Rightarrow> (settle_error, principal) result" where
  "read_identity v = (case v of
     PDict d \<Rightarrow>
       if set (map fst d) \<noteq> {PStr ''scheme'', PStr ''identifier''} then Raise (Refused_Value ''identity'')
       else (case (map_of d (PStr ''scheme''), map_of d (PStr ''identifier'')) of
           (Some (PStr s), Some (PStr i)) \<Rightarrow>
             (case parse_scheme s of
                None \<Rightarrow> Raise (Refused_Value ''scheme'')
              | Some scheme \<Rightarrow> (case mk_identity scheme i of Inl _ \<Rightarrow> Raise (Refused_Value ''identifier'') | Inr p \<Rightarrow> Return p))
         | _ \<Rightarrow> Raise (Refused_Value ''identity''))
   | _ \<Rightarrow> Raise (Refused_Value ''identity''))"

definition identity_json :: "principal \<Rightarrow> pyval" where
  "identity_json p = obj [(''scheme'', PStr (scheme_value (pr_scheme p))), (''identifier'', PStr (pr_identifier p))]"

definition canonical_principals :: "dict \<Rightarrow> (settle_error, dict \<times> principal \<times> principal) result" where
  "canonical_principals terms =
     (if \<not> has_key terms ''payer_principal'' then Raise (Refused_Value ''payer_principal'')
      else if \<not> has_key terms ''claimant_principal'' then Raise (Refused_Value ''claimant_principal'')
      else res_bind (read_identity (dict_get terms ''payer_principal'')) (\<lambda>payer.
        res_bind (read_identity (dict_get terms ''claimant_principal'')) (\<lambda>claimant.
          Return (dict_set ''claimant_principal'' (identity_json claimant) (dict_set ''payer_principal'' (identity_json payer) terms),
            payer, claimant))))"

definition obligation_payload_hash :: "settle_env \<Rightarrow> dict \<Rightarrow> string" where
  "obligation_payload_hash E terms = se_sha256 E (se_json E (obj terms))"

definition derive_obligation_ref :: "settle_env \<Rightarrow> string \<Rightarrow> int \<Rightarrow> dict \<Rightarrow> (settle_error, string) result" where
  "derive_obligation_ref E agreement index terms =
     (if agreement = [] then Raise (Refused_Value ''agreement_ref'')
      else if index < 0 then Raise (Refused_Value ''obligation_index'')
      else Return (se_sha256 E (se_json E (obj [(''protocol'', PStr ''arkhai.settlement-obligation.v1''),
        (''agreement_ref'', PStr agreement), (''obligation_index'', PInt index), (''obligation'', obj terms)]))))"

definition new_obligation :: "string \<Rightarrow> string \<Rightarrow> int \<Rightarrow> string \<Rightarrow> dict \<Rightarrow> principal \<Rightarrow> principal \<Rightarrow> obligation_row" where
  "new_obligation ref agreement index hash terms payer claimant =
     \<lparr>ob_ref = ref, ob_agreement = agreement, ob_index = index, ob_hash = hash, ob_terms = terms, ob_payer = payer, ob_claimant = claimant,
      ob_params = [], ob_mechanism = None, ob_status = None, ob_mstate = [], ob_action = None, ob_anchor = None, ob_fulfillment = None,
      ob_materialization = Mat_Pending, ob_condition = Cond_Pending, ob_collection = Eff_Pending, ob_reclaim = Eff_Pending,
      ob_materialization_receipt = None, ob_status_receipt = None, ob_collection_receipt = None, ob_reclaim_receipt = None,
      ob_error = None, ob_version = 0, ob_updated = []\<rparr>"

definition from_obligation :: "settle_env \<Rightarrow> string \<Rightarrow> int \<Rightarrow> dict \<Rightarrow> (settle_error, obligation_row) result" where
  "from_obligation E agreement index terms = res_bind (canonical_principals terms) (\<lambda>(snapshot, payer, claimant).
     res_bind (derive_obligation_ref E agreement index snapshot) (\<lambda>ref.
       Return (new_obligation ref agreement index (obligation_payload_hash E snapshot) snapshot payer claimant)))"

text \<open>A record read back checks the principals its terms repeat.\<close>

definition bind_principals :: "obligation_row \<Rightarrow> (settle_error, obligation_row) result" where
  "bind_principals o1 =
     (if has_key (ob_terms o1) ''payer_principal'' \<or> has_key (ob_terms o1) ''claimant_principal''
      then res_bind (canonical_principals (ob_terms o1)) (\<lambda>(snapshot, payer, claimant).
        if payer \<noteq> ob_payer o1 \<or> claimant \<noteq> ob_claimant o1 then Raise (Refused_Value ''principals'')
        else Return (o1\<lparr>ob_terms := snapshot\<rparr>))
      else Return o1)"

datatype plan_status = Plan_Active | Plan_Partial | Plan_Complete | Plan_Manual

definition obligation_manual :: "obligation_row \<Rightarrow> bool" where
  "obligation_manual o1 = (ob_materialization o1 = Mat_Manual \<or> ob_condition o1 = Cond_Manual \<or> ob_collection o1 = Eff_Manual \<or>
     ob_reclaim o1 = Eff_Manual)"

definition aggregate_settlement_status :: "obligation_row list \<Rightarrow> plan_status" where
  "aggregate_settlement_status os =
     (if list_ex obligation_manual os then Plan_Manual
      else (let terminal = map (\<lambda>x. ob_collection x = Eff_Succeeded \<or> ob_reclaim x = Eff_Succeeded) os in
        if os \<noteq> [] \<and> list_all id terminal then Plan_Complete
        else if list_ex id terminal then Plan_Partial
        else Plan_Active))"

section \<open>Rows of the journal\<close>

definition find_obligation :: "journal \<Rightarrow> string \<Rightarrow> obligation_row option" where
  "find_obligation J ref = find (\<lambda>x. ob_ref x = ref) (obligations J)"

definition find_operation :: "journal \<Rightarrow> string \<Rightarrow> operation_kind \<Rightarrow> operation_row option" where
  "find_operation J ref kind = find (\<lambda>x. op_ref x = ref \<and> op_kind x = kind) (operations J)"

definition update_obligation :: "string \<Rightarrow> (obligation_row \<Rightarrow> obligation_row) \<Rightarrow> journal \<Rightarrow> journal" where
  "update_obligation ref f J = J\<lparr>obligations := map (\<lambda>x. if ob_ref x = ref then f x else x) (obligations J)\<rparr>"

definition update_operation :: "string \<Rightarrow> operation_kind \<Rightarrow> (operation_row \<Rightarrow> operation_row) \<Rightarrow> journal \<Rightarrow> journal" where
  "update_operation ref kind f J = J\<lparr>operations := map (\<lambda>x. if op_ref x = ref \<and> op_kind x = kind then f x else x) (operations J)\<rparr>"

text \<open>\<open>version=version+1, updated_at=?\<close>\<close>

definition touch :: "string \<Rightarrow> obligation_row \<Rightarrow> obligation_row" where
  "touch stamp x = x\<lparr>ob_version := ob_version x + 1, ob_updated := stamp\<rparr>"

text \<open>\<open>COALESCE(?, column)\<close>\<close>

definition coalesce :: "'a option \<Rightarrow> 'a option \<Rightarrow> 'a option" where
  "coalesce a b = (case a of None \<Rightarrow> b | Some x \<Rightarrow> Some x)"

text \<open>The unique index over the mechanism references that are set.\<close>

definition mechanism_taken :: "journal \<Rightarrow> string \<Rightarrow> string option \<Rightarrow> bool" where
  "mechanism_taken J ref m = (m \<noteq> None \<and> list_ex (\<lambda>x. ob_ref x \<noteq> ref \<and> ob_mechanism x = m) (obligations J))"

section \<open>Obligations\<close>

text \<open>\<open>INSERT OR IGNORE\<close> skips a row that violates a uniqueness or check constraint; the stored row
  of the agreement and index must then be the offered one.\<close>

definition insertable :: "journal \<Rightarrow> obligation_row \<Rightarrow> bool" where
  "insertable J row = (0 \<le> ob_index row \<and> \<not> list_ex (\<lambda>x. ob_ref x = ob_ref row \<or>
     (ob_agreement x = ob_agreement row \<and> ob_index x = ob_index row) \<or>
     (ob_mechanism row \<noteq> None \<and> ob_mechanism x = ob_mechanism row)) (obligations J))"

definition upsert_settlement_obligation :: "string \<Rightarrow> obligation_row \<Rightarrow> journal \<Rightarrow> journal \<times> (settle_error, obligation_row) result" where
  "upsert_settlement_obligation stamp row J =
     (let J1 = (if insertable J row then J\<lparr>obligations := obligations J @ [row\<lparr>ob_updated := stamp\<rparr>]\<rparr> else J) in
      case find (\<lambda>x. ob_agreement x = ob_agreement row \<and> ob_index x = ob_index row) (obligations J1) of
        None \<Rightarrow> (J, Raise Insert_Lost)
      | Some stored \<Rightarrow>
          if ob_ref stored \<noteq> ob_ref row \<or> ob_hash stored \<noteq> ob_hash row then (J, Raise (Refused_Value ''terms''))
          else if ob_payer stored \<noteq> ob_payer row \<or> ob_claimant stored \<noteq> ob_claimant row then (J, Raise (Refused_Value ''principal''))
          else (J1, Return stored))"

definition load_settlement_obligation_by_mechanism_ref :: "journal \<Rightarrow> string \<Rightarrow> obligation_row option" where
  "load_settlement_obligation_by_mechanism_ref J m = find (\<lambda>x. ob_mechanism x = Some m) (obligations J)"

definition list_settlement_obligations :: "journal \<Rightarrow> string \<Rightarrow> obligation_row list" where
  "list_settlement_obligations J agreement = sort_key ob_index (filter (\<lambda>x. ob_agreement x = agreement) (obligations J))"

text \<open>A compare-and-set on the version; the identity columns are never written.\<close>

definition saved_row :: "string \<Rightarrow> obligation_row \<Rightarrow> obligation_row \<Rightarrow> obligation_row" where
  "saved_row stamp row x = touch stamp (row\<lparr>ob_ref := ob_ref x, ob_agreement := ob_agreement x, ob_index := ob_index x,
     ob_hash := ob_hash x, ob_terms := ob_terms x, ob_payer := ob_payer x, ob_claimant := ob_claimant x, ob_params := ob_params x,
     ob_version := ob_version x\<rparr>)"

definition save_settlement_obligation :: "string \<Rightarrow> obligation_row \<Rightarrow> int \<Rightarrow> journal \<Rightarrow> journal \<times> (settle_error, bool) result" where
  "save_settlement_obligation stamp row expected_version J =
     (if ob_collection row = Eff_Succeeded \<and> ob_reclaim row = Eff_Succeeded then (J, Raise (Refused_Value ''collection and reclaim''))
      else (case find (\<lambda>x. ob_ref x = ob_ref row \<and> ob_version x = expected_version) (obligations J) of
          None \<Rightarrow> (J, Return False)
        | Some _ \<Rightarrow>
            if mechanism_taken J (ob_ref row) (ob_mechanism row) then (J, Raise Unique_Violation)
            else (update_obligation (ob_ref row) (saved_row stamp row) J, Return True)))"

definition bind_settlement_mechanism_params :: "settle_env \<Rightarrow> string \<Rightarrow> string \<Rightarrow> dict \<Rightarrow> journal \<Rightarrow> journal \<times> (settle_error, obligation_row) result" where
  "bind_settlement_mechanism_params E stamp ref params J =
     (if params = [] then (J, Raise (Refused_Value ''mechanism_params''))
      else (case find_obligation J ref of
          None \<Rightarrow> (J, Raise (Unknown_Obligation ref))
        | Some x \<Rightarrow>
            if se_json E (obj (ob_params x)) = se_json E (obj params) then (J, Return x)
            else if ob_params x \<noteq> [] then (J, Raise (Refused_Value ''mechanism_params are immutable''))
            else if ob_materialization x \<noteq> Mat_Pending \<or> find_operation J ref Materialize \<noteq> None
            then (J, Raise (Refused_Value ''materialization started''))
            else (let bind = (\<lambda>x. touch stamp (x\<lparr>ob_params := params\<rparr>)) in (update_obligation ref bind J, Return (bind x)))))"

definition reclaim_active :: "obligation_row \<Rightarrow> bool" where
  "reclaim_active x = (ob_reclaim x = Eff_In_Progress \<or> ob_reclaim x = Eff_Succeeded)"

definition collection_active :: "obligation_row \<Rightarrow> bool" where
  "collection_active x = (ob_collection x = Eff_In_Progress \<or> ob_collection x = Eff_Succeeded)"

definition bind_settlement_fulfillment :: "string \<Rightarrow> string \<Rightarrow> string \<Rightarrow> journal \<Rightarrow> journal \<times> (settle_error, obligation_row) result" where
  "bind_settlement_fulfillment stamp ref fulfillment J = (case find_obligation J ref of
     None \<Rightarrow> (J, Raise (Unknown_Obligation ref))
   | Some x \<Rightarrow>
       (case ob_fulfillment x of
          Some f \<Rightarrow> if f \<noteq> fulfillment then (J, Raise (Refused_Value ''fulfillment_ref is immutable'')) else (J, Return x)
        | None \<Rightarrow>
            if reclaim_active x then (J, Raise (Refused_Value ''reclaim reservation''))
            else (let bind = (\<lambda>x. touch stamp (x\<lparr>ob_fulfillment := Some fulfillment\<rparr>)) in (update_obligation ref bind J, Return (bind x)))))"

section \<open>Operations\<close>

definition new_operation :: "string \<Rightarrow> operation_kind \<Rightarrow> string \<Rightarrow> operation_row" where
  "new_operation ref kind hash = \<lparr>op_ref = ref, op_kind = kind, op_hash = hash, op_state = Op_Pending, op_attempts = 0, op_uncertain = False,
     op_receipt = None, op_error = None, op_owner = None, op_until = None, op_next = None, op_awaiting = False\<rparr>"

text \<open>\<open>INSERT OR IGNORE\<close> of an operation: the row that is stored afterwards.\<close>

definition ensure_operation :: "operation_row \<Rightarrow> journal \<Rightarrow> journal \<times> operation_row" where
  "ensure_operation row J = (case find_operation J (op_ref row) (op_kind row) of
     Some stored \<Rightarrow> (J, stored)
   | None \<Rightarrow> (J\<lparr>operations := operations J @ [row]\<rparr>, row))"

text \<open>A foreign key refuses an operation of an unknown obligation; a changed request is refused
  after the insertion has committed.\<close>

definition upsert_settlement_operation :: "operation_row \<Rightarrow> journal \<Rightarrow> journal \<times> (settle_error, operation_row) result" where
  "upsert_settlement_operation row J =
     (if find_operation J (op_ref row) (op_kind row) = None \<and> find_obligation J (op_ref row) = None then (J, Raise Unique_Violation)
      else (let (J1, stored) = ensure_operation (row\<lparr>op_awaiting := False\<rparr>) J in
        if op_hash stored \<noteq> op_hash row then (J1, Raise (Refused_Value ''different request'')) else (J1, Return stored)))"

definition lease_live :: "rat \<Rightarrow> operation_row \<Rightarrow> bool" where
  "lease_live now x = (op_state x = Op_In_Progress \<and> (case op_until x of None \<Rightarrow> False | Some t \<Rightarrow> now \<le> t))"

text \<open>\<open>COALESCE(lease_until_unix, 0) >= ?\<close>\<close>

definition lease_blocks :: "rat \<Rightarrow> operation_row \<Rightarrow> bool" where
  "lease_blocks now x = (op_state x = Op_In_Progress \<and> now \<le> (case op_until x of None \<Rightarrow> 0 | Some t \<Rightarrow> t))"

definition returned_cleanup :: "journal \<Rightarrow> obligation_row \<Rightarrow> bool" where
  "returned_cleanup J x = (ob_status x = Some Escrow_Failed \<and>
     (case find_operation J (ob_ref x) Cleanup of None \<Rightarrow> False | Some c \<Rightarrow> op_state c = Op_Succeeded))"

text \<open>What stops a reservation: the opposite effect, or work a reclaim would race.\<close>

definition reservation_blocked :: "rat \<Rightarrow> operation_kind \<Rightarrow> obligation_row \<Rightarrow> journal \<Rightarrow> bool" where
  "reservation_blocked now kind x J =
     ((kind \<in> {Fulfill, Check, Collect} \<and> reclaim_active x) \<or>
      (kind = Reclaim \<and> (collection_active x \<or> (ob_fulfillment x \<noteq> None \<and> \<not> returned_cleanup J x) \<or>
         (ob_condition x = Cond_Ready \<and> \<not> returned_cleanup J x) \<or>
         list_ex (\<lambda>y. op_ref y = ob_ref x \<and> op_kind y \<in> {Fulfill, Check} \<and> lease_blocks now y) (operations J))))"

text \<open>The obligation's own column for the operation that starts.\<close>

definition mark_started :: "string \<Rightarrow> operation_kind \<Rightarrow> obligation_row \<Rightarrow> obligation_row" where
  "mark_started stamp kind x = (case kind of
     Materialize \<Rightarrow> if ob_materialization x \<noteq> Materialized then touch stamp (x\<lparr>ob_materialization := Mat_In_Progress\<rparr>) else x
   | Collect \<Rightarrow> if reclaim_active x then x else touch stamp (x\<lparr>ob_collection := Eff_In_Progress\<rparr>)
   | Reclaim \<Rightarrow> touch stamp (x\<lparr>ob_reclaim := Eff_In_Progress\<rparr>)
   | _ \<Rightarrow> x)"

definition take_lease :: "string \<Rightarrow> rat \<Rightarrow> operation_row \<Rightarrow> operation_row" where
  "take_lease owner until x = x\<lparr>op_state := Op_In_Progress, op_attempts := op_attempts x + 1, op_owner := Some owner, op_until := Some until,
     op_next := None, op_awaiting := False\<rparr>"

definition reserve_settlement_operation ::
    "string \<Rightarrow> string \<Rightarrow> operation_kind \<Rightarrow> string \<Rightarrow> string \<Rightarrow> rat \<Rightarrow> rat \<Rightarrow> journal \<Rightarrow> journal \<times> (settle_error, operation_row option) result" where
  "reserve_settlement_operation stamp ref kind hash owner now until J =
     (if until \<le> now then (J, Raise (Refused_Value ''lease_until_unix''))
      else (case find_obligation J ref of
          None \<Rightarrow> (J, Raise (Unknown_Obligation ref))
        | Some x \<Rightarrow>
            if reservation_blocked now kind x J then (J, Return None)
            else
              (let (J1, stored) = ensure_operation (new_operation ref kind hash) J in
               if op_hash stored \<noteq> hash then (J, Raise (Refused_Value ''different request''))
               else if op_state stored \<in> {Op_Succeeded, Op_Manual} then (J1, Return (Some stored))
               else if op_owner stored \<noteq> Some owner \<and> lease_live now stored then (J, Return None)
               else if kind = Reclaim \<and> \<not> (\<not> collection_active x \<and>
                   ((ob_fulfillment x = None \<and> ob_condition x \<noteq> Cond_Ready) \<or> returned_cleanup J1 x))
               then (J, Return None)
               else (update_obligation ref (mark_started stamp kind) (update_operation ref kind (take_lease owner until) J1),
                     Return (Some (take_lease owner until stored))))))"

text \<open>The row a holder may write: in progress and leased to it.\<close>

definition held_operation :: "journal \<Rightarrow> string \<Rightarrow> operation_kind \<Rightarrow> string \<Rightarrow> operation_row option" where
  "held_operation J ref kind owner = (case find_operation J ref kind of
     None \<Rightarrow> None
   | Some x \<Rightarrow> if op_state x = Op_In_Progress \<and> op_owner x = Some owner then Some x else None)"

definition receipt_of :: "operation_row \<Rightarrow> dict" where
  "receipt_of x = (case op_receipt x of None \<Rightarrow> [] | Some d \<Rightarrow> d)"

datatype write_result = Written | Unchanged | Conflict | Write_Lost

definition written_row :: "string \<Rightarrow> pyval \<Rightarrow> bool \<Rightarrow> operation_row \<Rightarrow> operation_row" where
  "written_row key value uncertain x = x\<lparr>op_receipt := Some (dict_set key value (receipt_of x)), op_uncertain := (op_uncertain x \<or> uncertain)\<rparr>"

definition write_operation_receipt_field ::
    "settle_env \<Rightarrow> string \<Rightarrow> operation_kind \<Rightarrow> string \<Rightarrow> string \<Rightarrow> pyval \<Rightarrow> bool \<Rightarrow> journal \<Rightarrow> journal \<times> write_result" where
  "write_operation_receipt_field E ref kind owner key value uncertain J = (case held_operation J ref kind owner of
     None \<Rightarrow> (J, Write_Lost)
   | Some x \<Rightarrow>
       (case map_of (receipt_of x) key of
          Some v \<Rightarrow> (J, if se_json E v = se_json E value then Unchanged else Conflict)
        | None \<Rightarrow> (update_operation ref kind (written_row key value uncertain) J, Written)))"

datatype clear_result = Cleared | Clear_Refused | Clear_Lost

definition cleared_row :: "string \<Rightarrow> operation_row \<Rightarrow> operation_row" where
  "cleared_row key x = (let rest = AList.delete key (receipt_of x) in x\<lparr>op_receipt := (if rest = [] then None else Some rest)\<rparr>)"

definition clear_operation_receipt_field :: "string \<Rightarrow> operation_kind \<Rightarrow> string \<Rightarrow> string \<Rightarrow> string \<Rightarrow> journal \<Rightarrow> journal \<times> clear_result" where
  "clear_operation_receipt_field ref kind owner key unless_key J = (case held_operation J ref kind owner of
     None \<Rightarrow> (J, Clear_Lost)
   | Some x \<Rightarrow>
       if has_key (receipt_of x) unless_key then (J, Clear_Refused)
       else (update_operation ref kind (cleared_row key) J, Cleared))"

definition count_manual_required :: "journal \<Rightarrow> nat" where
  "count_manual_required J = length (filter (\<lambda>x. ob_status x = Some Escrow_Manual \<or>
     list_ex (\<lambda>y. op_ref y = ob_ref x \<and> op_state y = Op_Manual) (operations J)) (obligations J))"

section \<open>The end of an operation\<close>

text \<open>The optional arguments of \<open>finish_settlement_operation\<close>.\<close>

record finish_values =
  fv_state :: operation_state
  fv_receipt :: "dict option"
  fv_error :: "string option"
  fv_uncertain :: bool
  fv_mechanism :: "string option"
  fv_status :: "escrow_status option"
  fv_mstate :: "dict option"
  fv_action :: "dict option"
  fv_anchor :: "string option"
  fv_condition :: "condition_state option"
  fv_next :: "rat option"

definition finish_defaults :: "operation_state \<Rightarrow> finish_values" where
  "finish_defaults s = \<lparr>fv_state = s, fv_receipt = None, fv_error = None, fv_uncertain = False, fv_mechanism = None, fv_status = None,
     fv_mstate = None, fv_action = None, fv_anchor = None, fv_condition = None, fv_next = None\<rparr>"

definition finish_row :: "finish_values \<Rightarrow> operation_row \<Rightarrow> operation_row" where
  "finish_row v y = y\<lparr>op_state := fv_state v, op_uncertain := fv_uncertain v, op_receipt := coalesce (fv_receipt v) (op_receipt y),
     op_error := fv_error v, op_owner := None, op_until := None, op_next := fv_next v\<rparr>"

definition effect_outcome :: "operation_state \<Rightarrow> effect_state" where
  "effect_outcome s = (case s of Op_Succeeded \<Rightarrow> Eff_Succeeded | Op_Manual \<Rightarrow> Eff_Manual | _ \<Rightarrow> Eff_Pending)"

definition mechanism_columns :: "finish_values \<Rightarrow> obligation_row \<Rightarrow> obligation_row" where
  "mechanism_columns v x = x\<lparr>ob_mechanism := coalesce (fv_mechanism v) (ob_mechanism x), ob_status := coalesce (fv_status v) (ob_status x),
     ob_mstate := the (coalesce (fv_mstate v) (Some (ob_mstate x))), ob_action := fv_action v, ob_anchor := coalesce (fv_anchor v) (ob_anchor x),
     ob_error := fv_error v\<rparr>"

definition finish_materialize :: "string \<Rightarrow> finish_values \<Rightarrow> obligation_row \<Rightarrow> obligation_row" where
  "finish_materialize stamp v x = touch stamp ((mechanism_columns v x)\<lparr>
     ob_materialization := (case fv_state v of Op_Succeeded \<Rightarrow> Materialized | Op_Manual \<Rightarrow> Mat_Manual | _ \<Rightarrow> Mat_Pending),
     ob_materialization_receipt := coalesce (fv_receipt v) (ob_materialization_receipt x)\<rparr>)"

definition status_materialization :: "escrow_status option \<Rightarrow> materialization_state option" where
  "status_materialization s = (if s = Some Escrow_Manual then Some Mat_Manual
     else if s \<in> {Some Escrow_Ready, Some Escrow_Collected, Some Escrow_Reclaimed, Some Escrow_Expired} then Some Materialized
     else None)"

definition finish_status :: "string \<Rightarrow> finish_values \<Rightarrow> obligation_row \<Rightarrow> obligation_row" where
  "finish_status stamp v x = touch stamp ((mechanism_columns v x)\<lparr>
     ob_materialization := (if ob_collection x = Eff_Succeeded then ob_materialization x
       else the (coalesce (status_materialization (fv_status v)) (Some (ob_materialization x)))),
     ob_collection := (if fv_status v = Some Escrow_Collected then Eff_Succeeded else ob_collection x),
     ob_reclaim := (if fv_status v = Some Escrow_Reclaimed then Eff_Succeeded else ob_reclaim x),
     ob_condition := (if fv_status v = Some Escrow_Failed then Cond_Failed else ob_condition x),
     ob_status_receipt := coalesce (fv_receipt v) (ob_status_receipt x)\<rparr>)"

definition park_columns :: "string \<Rightarrow> finish_values \<Rightarrow> obligation_row \<Rightarrow> obligation_row" where
  "park_columns stamp v x = touch stamp (x\<lparr>ob_mstate := the (coalesce (fv_mstate v) (Some (ob_mstate x))), ob_error := fv_error v\<rparr>)"

definition finish_check :: "string \<Rightarrow> finish_values \<Rightarrow> obligation_row \<Rightarrow> obligation_row" where
  "finish_check stamp v x = (park_columns stamp v x)\<lparr>ob_condition := (case fv_condition v of Some c \<Rightarrow> c
     | None \<Rightarrow> (case fv_state v of Op_Succeeded \<Rightarrow> Cond_Ready | Op_Manual \<Rightarrow> Cond_Manual | _ \<Rightarrow> Cond_Pending))\<rparr>"

definition finish_collect :: "string \<Rightarrow> finish_values \<Rightarrow> obligation_row \<Rightarrow> obligation_row" where
  "finish_collect stamp v x = (if ob_reclaim x = Eff_Succeeded then x
     else (park_columns stamp v x)\<lparr>ob_collection := effect_outcome (fv_state v),
       ob_collection_receipt := coalesce (fv_receipt v) (ob_collection_receipt x)\<rparr>)"

definition finish_reclaim :: "string \<Rightarrow> finish_values \<Rightarrow> obligation_row \<Rightarrow> obligation_row" where
  "finish_reclaim stamp v x = (if ob_collection x = Eff_Succeeded then x
     else (park_columns stamp v x)\<lparr>ob_reclaim := effect_outcome (fv_state v),
       ob_reclaim_receipt := coalesce (fv_receipt v) (ob_reclaim_receipt x)\<rparr>)"

definition finish_obligation :: "string \<Rightarrow> operation_kind \<Rightarrow> finish_values \<Rightarrow> obligation_row \<Rightarrow> obligation_row" where
  "finish_obligation stamp kind v x = (case kind of
     Materialize \<Rightarrow> finish_materialize stamp v x
   | Status \<Rightarrow> finish_status stamp v x
   | Fulfill \<Rightarrow> if fv_state v = Op_Manual then park_columns stamp v x else x
   | Cleanup \<Rightarrow> x
   | Check \<Rightarrow> finish_check stamp v x
   | Collect \<Rightarrow> finish_collect stamp v x
   | Reclaim \<Rightarrow> finish_reclaim stamp v x)"

text \<open>The unique index rejects a mechanism reference that another obligation holds.\<close>

definition finish_collides :: "string \<Rightarrow> operation_kind \<Rightarrow> finish_values \<Rightarrow> journal \<Rightarrow> bool" where
  "finish_collides ref kind v J = (kind \<in> {Materialize, Status} \<and> (case find_obligation J ref of None \<Rightarrow> False
     | Some x \<Rightarrow> mechanism_taken J ref (coalesce (fv_mechanism v) (ob_mechanism x))))"

definition finish_settlement_operation ::
    "string \<Rightarrow> string \<Rightarrow> operation_kind \<Rightarrow> string \<Rightarrow> finish_values \<Rightarrow> journal \<Rightarrow> journal \<times> (settle_error, bool) result" where
  "finish_settlement_operation stamp ref kind owner v J =
     (if fv_state v = Op_In_Progress then (J, Raise (Refused_Value ''operation outcome''))
      else (case held_operation J ref kind owner of
          None \<Rightarrow> (J, Return False)
        | Some _ \<Rightarrow>
            if finish_collides ref kind v J then (J, Raise Unique_Violation)
            else (update_obligation ref (finish_obligation stamp kind v) (update_operation ref kind (finish_row v) J), Return True)))"

definition awaiting_row :: "rat \<Rightarrow> operation_row \<Rightarrow> operation_row" where
  "awaiting_row now y = y\<lparr>op_state := Op_Pending, op_attempts := max (op_attempts y - 1) 0, op_awaiting := True, op_uncertain := False,
     op_error := None, op_owner := None, op_until := None, op_next := Some now\<rparr>"

definition mark_fulfillment_awaiting_delivery :: "string \<Rightarrow> string \<Rightarrow> rat \<Rightarrow> journal \<Rightarrow> journal \<times> bool" where
  "mark_fulfillment_awaiting_delivery ref owner now J = (case held_operation J ref Fulfill owner of
     None \<Rightarrow> (J, False)
   | Some _ \<Rightarrow> (update_operation ref Fulfill (awaiting_row now) J, True))"

section \<open>Due work\<close>

text \<open>\<open>json_extract(mechanism_state, '$.terminal_risk_monitoring') = 1\<close>, and the truth value Python reads.\<close>

definition risk_monitored :: "obligation_row \<Rightarrow> bool" where
  "risk_monitored x = (case dict_get (ob_mstate x) ''terminal_risk_monitoring'' of
     PBool b \<Rightarrow> b | PInt n \<Rightarrow> n = 1 | PFloat (FFin q) \<Rightarrow> q = 1 | _ \<Rightarrow> False)"

definition due_operation :: "obligation_row \<Rightarrow> operation_kind" where
  "due_operation x =
     (if ob_status x = Some Escrow_Failed \<and> ob_collection x \<noteq> Eff_Succeeded then Cleanup
      else if ob_collection x = Eff_Succeeded then Status
      else if ob_status x = Some Escrow_Ready \<and> ob_fulfillment x = None then Fulfill
      else if ob_condition x = Cond_Ready then Collect
      else if ob_status x = Some Escrow_Ready then Check
      else Status)"

definition serviceable :: "obligation_row \<Rightarrow> bool" where
  "serviceable x =
     ((ob_fulfillment x \<noteq> None \<or> ob_status x = Some Escrow_Ready) \<and>
      (ob_collection x \<notin> {Eff_Succeeded, Eff_Manual} \<or> (ob_collection x = Eff_Succeeded \<and> risk_monitored x)) \<and>
      ob_reclaim x \<notin> {Eff_Succeeded, Eff_Manual} \<and>
      (ob_condition x \<notin> {Cond_Failed, Cond_Manual} \<or>
         (ob_condition x = Cond_Failed \<and> ob_status x = Some Escrow_Failed \<and> ob_collection x \<noteq> Eff_Succeeded)) \<and>
      (ob_status x \<notin> Some ` {Escrow_Collected, Escrow_Reclaimed, Escrow_Expired, Escrow_Failed, Escrow_Manual} \<or>
         (ob_status x = Some Escrow_Collected \<and> risk_monitored x) \<or>
         (ob_status x = Some Escrow_Failed \<and> ob_collection x \<noteq> Eff_Succeeded)))"

definition operation_due :: "rat \<Rightarrow> operation_row option \<Rightarrow> bool" where
  "operation_due now y = (case y of None \<Rightarrow> True | Some r \<Rightarrow>
     (op_state r = Op_Pending \<or> (op_state r = Op_In_Progress \<and> (case op_until r of None \<Rightarrow> 0 | Some t \<Rightarrow> t) < now)) \<and>
     (case op_next r of None \<Rightarrow> True | Some t \<Rightarrow> t \<le> now))"

definition status_holds_off :: "rat \<Rightarrow> journal \<Rightarrow> string \<Rightarrow> bool" where
  "status_holds_off now J ref = (case find_operation J ref Status of None \<Rightarrow> False
     | Some y \<Rightarrow> (case op_next y of None \<Rightarrow> False | Some t \<Rightarrow> now < t) \<or> lease_blocks now y)"

definition obligation_due :: "rat \<Rightarrow> journal \<Rightarrow> obligation_row \<Rightarrow> bool" where
  "obligation_due now J x = (serviceable x \<and> operation_due now (find_operation J (ob_ref x) (due_operation x)) \<and>
     \<not> status_holds_off now J (ob_ref x))"

definition list_due_settlement_obligations :: "rat \<Rightarrow> int \<Rightarrow> journal \<Rightarrow> obligation_row list" where
  "list_due_settlement_obligations now limit J = (if limit \<le> 0 then []
     else take (nat limit) (sort_key ob_updated (sort_key ob_ref (filter (obligation_due now J) (obligations J)))))"

definition retry_row :: "rat \<Rightarrow> string option \<Rightarrow> operation_row \<Rightarrow> operation_row" where
  "retry_row when error y = y\<lparr>op_next := Some when, op_error := coalesce error (op_error y), op_awaiting := False\<rparr>"

definition schedule_settlement_retry ::
    "string \<Rightarrow> operation_kind \<Rightarrow> rat \<Rightarrow> string option \<Rightarrow> journal \<Rightarrow> journal \<times> (settle_error, unit) result" where
  "schedule_settlement_retry ref kind when error J = (case find_operation J ref kind of
     None \<Rightarrow> (J, Raise Unknown_Operation)
   | Some y \<Rightarrow>
       if op_state y \<noteq> Op_Pending then (J, Raise Unknown_Operation)
       else (update_operation ref kind (retry_row when error) J, Return ()))"

definition wake_settlement_obligation :: "string \<Rightarrow> journal \<Rightarrow> journal \<times> (settle_error, unit) result" where
  "wake_settlement_obligation ref J = (case find_obligation J ref of
     None \<Rightarrow> (J, Raise (Unknown_Obligation ref))
   | Some _ \<Rightarrow> (J\<lparr>operations := map (\<lambda>y. if op_ref y = ref \<and> op_state y = Op_Pending then y\<lparr>op_next := None\<rparr> else y) (operations J)\<rparr>,
       Return ()))"

end
