(* ===== verification/Settlement_Runs.thy ===== *)
theory Settlement_Runs
  imports Settlement_Journal
begin

text \<open>
  Runs of the settlement journal.  \<open>journal_op\<close> names the repository's writes with their arguments
  and \<open>exec_op\<close> performs one.  Workers interleave at the granularity of these calls, so a property
  of every sequence of them is one of every schedule of every number of workers.

  Each write rewrites rows in place and adds at most one: \<open>obligation_step\<close> and \<open>operation_step\<close>
  list what can happen to a row, \<open>shaped\<close> says that a write does nothing else.  The invariants are
  then proved row by row and carried to runs by \<open>op_machine\<close>.
\<close>

section \<open>Writes\<close>

datatype journal_op =
    Upsert_Obligation string obligation_row
  | Save_Obligation string obligation_row int
  | Bind_Params string string dict
  | Bind_Fulfillment string string string
  | Upsert_Operation operation_row
  | Reserve string string operation_kind string string rat rat
  | Write_Field string operation_kind string string pyval bool
  | Clear_Field string operation_kind string string string
  | Finish string string operation_kind string finish_values
  | Await_Delivery string string rat
  | Schedule string operation_kind rat "string option"
  | Wake string

fun exec_op :: "settle_env \<Rightarrow> journal_op \<Rightarrow> journal \<Rightarrow> journal" where
  "exec_op E (Upsert_Obligation stamp row) J = fst (upsert_settlement_obligation stamp row J)"
| "exec_op E (Save_Obligation stamp row v) J = fst (save_settlement_obligation stamp row v J)"
| "exec_op E (Bind_Params stamp ref params) J = fst (bind_settlement_mechanism_params E stamp ref params J)"
| "exec_op E (Bind_Fulfillment stamp ref f) J = fst (bind_settlement_fulfillment stamp ref f J)"
| "exec_op E (Upsert_Operation row) J = fst (upsert_settlement_operation row J)"
| "exec_op E (Reserve stamp ref kind hash owner now until) J = fst (reserve_settlement_operation stamp ref kind hash owner now until J)"
| "exec_op E (Write_Field ref kind owner key value uncertain) J = fst (write_operation_receipt_field E ref kind owner key value uncertain J)"
| "exec_op E (Clear_Field ref kind owner key unless) J = fst (clear_operation_receipt_field ref kind owner key unless J)"
| "exec_op E (Finish stamp ref kind owner v) J = fst (finish_settlement_operation stamp ref kind owner v J)"
| "exec_op E (Await_Delivery ref owner now) J = fst (mark_fulfillment_awaiting_delivery ref owner now J)"
| "exec_op E (Schedule ref kind when error) J = fst (schedule_settlement_retry ref kind when error J)"
| "exec_op E (Wake ref) J = fst (wake_settlement_obligation ref J)"

section \<open>What a write does to a row\<close>

text \<open>The row a reservation looks at, and what lets it have the lease.\<close>

definition stored_operation :: "journal \<Rightarrow> string \<Rightarrow> operation_kind \<Rightarrow> string \<Rightarrow> operation_row" where
  "stored_operation J ref kind hash = (case find_operation J ref kind of None \<Rightarrow> new_operation ref kind hash | Some y \<Rightarrow> y)"

definition grantable :: "string \<Rightarrow> operation_kind \<Rightarrow> string \<Rightarrow> string \<Rightarrow> rat \<Rightarrow> rat \<Rightarrow> journal \<Rightarrow> bool" where
  "grantable ref kind hash owner now until J =
     (now < until \<and> (case find_obligation J ref of None \<Rightarrow> False | Some x \<Rightarrow> \<not> reservation_blocked now kind x J) \<and>
      (let y = stored_operation J ref kind hash in op_hash y = hash \<and> op_state y \<notin> {Op_Succeeded, Op_Manual} \<and>
         (op_owner y = Some owner \<or> \<not> lease_live now y)))"

definition held_row :: "string \<Rightarrow> operation_kind \<Rightarrow> string \<Rightarrow> operation_row \<Rightarrow> bool" where
  "held_row ref kind owner y = (op_ref y = ref \<and> op_kind y = kind \<and> op_state y = Op_In_Progress \<and> op_owner y = Some owner)"

inductive operation_step :: "journal_op \<Rightarrow> operation_row \<Rightarrow> operation_row \<Rightarrow> bool" where
  unchanged: "operation_step p y y"
| taken: "\<lbrakk>op_ref y = ref; op_kind y = kind; op_hash y = hash; op_state y \<notin> {Op_Succeeded, Op_Manual}; now < until;
    op_owner y = Some owner \<or> \<not> lease_live now y\<rbrakk> \<Longrightarrow> operation_step (Reserve stamp ref kind hash owner now until) y (take_lease owner until y)"
| written: "\<lbrakk>held_row ref kind owner y; map_of (receipt_of y) key = None\<rbrakk> \<Longrightarrow>
    operation_step (Write_Field ref kind owner key value uncertain) y (written_row key value uncertain y)"
| cleared: "\<lbrakk>held_row ref kind owner y; \<not> has_key (receipt_of y) unless\<rbrakk> \<Longrightarrow>
    operation_step (Clear_Field ref kind owner key unless) y (cleared_row key y)"
| finished: "\<lbrakk>held_row ref kind owner y; fv_state v \<noteq> Op_In_Progress\<rbrakk> \<Longrightarrow> operation_step (Finish stamp ref kind owner v) y (finish_row v y)"
| awaited: "held_row ref Fulfill owner y \<Longrightarrow> operation_step (Await_Delivery ref owner now) y (awaiting_row now y)"
| scheduled: "\<lbrakk>op_ref y = ref; op_kind y = kind; op_state y = Op_Pending\<rbrakk> \<Longrightarrow> operation_step (Schedule ref kind when error) y (retry_row when error y)"
| woken: "\<lbrakk>op_ref y = ref; op_state y = Op_Pending\<rbrakk> \<Longrightarrow> operation_step (Wake ref) y (y\<lparr>op_next := None\<rparr>)"

inductive_cases operation_stepE: "operation_step p y z"

inductive obligation_step :: "journal \<Rightarrow> journal_op \<Rightarrow> obligation_row \<Rightarrow> obligation_row \<Rightarrow> bool" for J where
  unchanged: "obligation_step J p x x"
| saved: "\<lbrakk>ob_ref row = ob_ref x; ob_version x = v; \<not> (ob_collection row = Eff_Succeeded \<and> ob_reclaim row = Eff_Succeeded);
    \<not> mechanism_taken J (ob_ref x) (ob_mechanism row)\<rbrakk> \<Longrightarrow> obligation_step J (Save_Obligation stamp row v) x (saved_row stamp row x)"
| params: "\<lbrakk>ob_ref x = ref; ob_params x = []; ob_materialization x = Mat_Pending; params \<noteq> []\<rbrakk> \<Longrightarrow>
    obligation_step J (Bind_Params stamp ref params) x (touch stamp (x\<lparr>ob_params := params\<rparr>))"
| fulfillment: "\<lbrakk>ob_ref x = ref; ob_fulfillment x = None; \<not> reclaim_active x\<rbrakk> \<Longrightarrow>
    obligation_step J (Bind_Fulfillment stamp ref f) x (touch stamp (x\<lparr>ob_fulfillment := Some f\<rparr>))"
| started: "\<lbrakk>ob_ref x = ref; \<not> reservation_blocked now kind x J; grantable ref kind hash owner now until J\<rbrakk> \<Longrightarrow>
    obligation_step J (Reserve stamp ref kind hash owner now until) x (mark_started stamp kind x)"
| ended: "\<lbrakk>ob_ref x = ref; held_operation J ref kind owner \<noteq> None; fv_state v \<noteq> Op_In_Progress; \<not> finish_collides ref kind v J\<rbrakk> \<Longrightarrow>
    obligation_step J (Finish stamp ref kind owner v) x (finish_obligation stamp kind v x)"

inductive_cases obligation_stepE: "obligation_step J p x z"

section \<open>The shape of a write\<close>

definition op_key :: "operation_row \<Rightarrow> string \<times> operation_kind" where
  "op_key y = (op_ref y, op_kind y)"

definition rows_unique :: "journal \<Rightarrow> bool" where
  "rows_unique J = (distinct (map ob_ref (obligations J)) \<and> distinct (map op_key (operations J)))"

definition fresh_operation :: "journal \<Rightarrow> journal_op \<Rightarrow> operation_row \<Rightarrow> bool" where
  "fresh_operation J p row = (find_operation J (op_ref row) (op_kind row) = None \<and> find_obligation J (op_ref row) \<noteq> None \<and>
     ((\<exists>stamp ref kind hash owner now until. p = Reserve stamp ref kind hash owner now until \<and> row = new_operation ref kind hash) \<or>
      (\<exists>offered. p = Upsert_Operation offered \<and> row = offered\<lparr>op_awaiting := False\<rparr>)))"

definition fresh_obligation :: "journal \<Rightarrow> journal_op \<Rightarrow> obligation_row \<Rightarrow> bool" where
  "fresh_obligation J p row = (\<exists>stamp offered. p = Upsert_Obligation stamp offered \<and> insertable J offered \<and> row = offered\<lparr>ob_updated := stamp\<rparr>)"

definition shaped :: "journal \<Rightarrow> journal_op \<Rightarrow> journal \<Rightarrow> bool" where
  "shaped J p J' = (\<exists>f g newo newp.
     obligations J' = map f (obligations J) @ newo \<and> operations J' = map g (operations J @ newp) \<and>
     (\<forall>x \<in> set (obligations J). obligation_step J p x (f x)) \<and> (\<forall>y \<in> set (operations J @ newp). operation_step p y (g y)) \<and>
     (newo = [] \<or> (\<exists>row. newo = [row] \<and> fresh_obligation J p row)) \<and> (newp = [] \<or> (\<exists>row. newp = [row] \<and> fresh_operation J p row)))"

lemma find_obligation_SomeD: "find_obligation J ref = Some x \<Longrightarrow> x \<in> set (obligations J) \<and> ob_ref x = ref"
  by (auto simp: find_obligation_def find_Some_iff)

lemma find_operation_SomeD: "find_operation J ref kind = Some y \<Longrightarrow> y \<in> set (operations J) \<and> op_ref y = ref \<and> op_kind y = kind"
  by (auto simp: find_operation_def find_Some_iff)

lemma find_operation_NoneD: "find_operation J ref kind = None \<Longrightarrow> y \<in> set (operations J) \<Longrightarrow> op_ref y = ref \<Longrightarrow> op_kind y \<noteq> kind"
  by (auto simp: find_operation_def find_None_iff)

lemma find_obligation_unique:
  assumes "rows_unique J" and "find_obligation J ref = Some x" and "z \<in> set (obligations J)" and "ob_ref z = ref"
  shows "z = x"
  using assms find_obligation_SomeD [OF assms(2)] by (auto simp: rows_unique_def distinct_map inj_on_def)

lemma find_operation_unique:
  assumes "rows_unique J" and "find_operation J ref kind = Some y" and "z \<in> set (operations J)" and "op_ref z = ref" and "op_kind z = kind"
  shows "z = y"
  using assms find_operation_SomeD [OF assms(2)] by (auto simp: rows_unique_def op_key_def distinct_map inj_on_def)

lemma in_operations_find: "rows_unique J \<Longrightarrow> y \<in> set (operations J) \<Longrightarrow> find_operation J (op_ref y) (op_kind y) = Some y"
  by (metis find_operation_NoneD find_operation_unique option.exhaust)

lemma find_obligation_NoneD: "find_obligation J ref = None \<Longrightarrow> x \<in> set (obligations J) \<Longrightarrow> ob_ref x \<noteq> ref"
  by (auto simp: find_obligation_def find_None_iff)

lemma in_obligations_find: "rows_unique J \<Longrightarrow> x \<in> set (obligations J) \<Longrightarrow> find_obligation J (ob_ref x) = Some x"
  by (metis find_obligation_NoneD find_obligation_unique option.exhaust)

lemma held_operation_SomeD: "held_operation J ref kind owner = Some y \<Longrightarrow> find_operation J ref kind = Some y \<and> held_row ref kind owner y"
  by (auto simp: held_operation_def held_row_def dest: find_operation_SomeD split: option.splits if_splits)

lemma held_operation_unique:
  "\<lbrakk>rows_unique J; held_operation J ref kind owner = Some y; z \<in> set (operations J); op_ref z = ref; op_kind z = kind\<rbrakk> \<Longrightarrow> z = y"
  by (metis find_operation_unique held_operation_SomeD)

text \<open>A write that only rewrites rows, and one that changes nothing.\<close>

lemma shaped_rows:
  assumes "obligations J' = map f (obligations J)" and "operations J' = map g (operations J)"
    and "\<And>x. x \<in> set (obligations J) \<Longrightarrow> obligation_step J p x (f x)" and "\<And>y. y \<in> set (operations J) \<Longrightarrow> operation_step p y (g y)"
  shows "shaped J p J'"
  unfolding shaped_def by (rule exI [of _ f], rule exI [of _ g], rule exI [of _ "[]"], rule exI [of _ "[]"]) (simp add: assms)

lemma shaped_same: "shaped J p J"
  by (rule shaped_rows [where f = id and g = id]) (auto intro: obligation_step.unchanged operation_step.unchanged)

lemma shaped_obligation:
  assumes "\<And>x. x \<in> set (obligations J) \<Longrightarrow> ob_ref x = ref \<Longrightarrow> obligation_step J p x (f x)"
  shows "shaped J p (update_obligation ref f J)"
  by (rule shaped_rows [where f = "\<lambda>x. if ob_ref x = ref then f x else x" and g = id])
    (auto simp: update_obligation_def intro: assms obligation_step.unchanged operation_step.unchanged)

lemma shaped_operation:
  assumes "\<And>y. y \<in> set (operations J) \<Longrightarrow> op_ref y = ref \<Longrightarrow> op_kind y = kind \<Longrightarrow> operation_step p y (g y)"
  shows "shaped J p (update_operation ref kind g J)"
  by (rule shaped_rows [where f = id and g = "\<lambda>y. if op_ref y = ref \<and> op_kind y = kind then g y else y"])
    (auto simp: update_operation_def intro: assms obligation_step.unchanged operation_step.unchanged)

lemma shaped_upsert_obligation: "shaped J (Upsert_Obligation stamp row) (fst (upsert_settlement_obligation stamp row J))"
proof -
  have inserted: "shaped J (Upsert_Obligation stamp row) (J\<lparr>obligations := obligations J @ [row\<lparr>ob_updated := stamp\<rparr>]\<rparr>)" if "insertable J row"
    unfolding shaped_def
    by (rule exI [of _ id], rule exI [of _ id], rule exI [of _ "[row\<lparr>ob_updated := stamp\<rparr>]"], rule exI [of _ "[]"])
      (simp add: fresh_obligation_def that obligation_step.unchanged operation_step.unchanged)
  show ?thesis
    by (simp add: upsert_settlement_obligation_def Let_def shaped_same inserted split: option.split)
qed

lemma shaped_save:
  assumes unique: "rows_unique J"
  shows "shaped J (Save_Obligation stamp row v) (fst (save_settlement_obligation stamp row v J))"
proof (cases "(ob_collection row = Eff_Succeeded \<and> ob_reclaim row = Eff_Succeeded) \<or> mechanism_taken J (ob_ref row) (ob_mechanism row)")
  case ok: False
  show ?thesis
  proof (cases "find (\<lambda>x. ob_ref x = ob_ref row \<and> ob_version x = v) (obligations J)")
    case (Some x)
    then have x: "x \<in> set (obligations J)" "ob_ref x = ob_ref row" "ob_version x = v" by (auto simp: find_Some_iff)
    have "obligation_step J (Save_Obligation stamp row v) z (saved_row stamp row z)" if "z \<in> set (obligations J)" "ob_ref z = ob_ref row" for z
    proof -
      from unique x that have "z = x" by (auto simp: rows_unique_def distinct_map inj_on_def)
      with ok x show ?thesis by (intro obligation_step.saved) auto
    qed
    then have "shaped J (Save_Obligation stamp row v) (update_obligation (ob_ref row) (saved_row stamp row) J)" by (rule shaped_obligation)
      with ok Some show ?thesis by (auto simp: save_settlement_obligation_def)
  qed (auto simp: save_settlement_obligation_def intro: shaped_same)
qed (auto simp: save_settlement_obligation_def intro: shaped_same split: option.split)

lemma shaped_bind_params:
  assumes unique: "rows_unique J"
  shows "shaped J (Bind_Params stamp ref params) (fst (bind_settlement_mechanism_params E stamp ref params J))"
proof (cases "find_obligation J ref")
  case (Some x)
  have "shaped J (Bind_Params stamp ref params) (update_obligation ref (\<lambda>x. touch stamp (x\<lparr>ob_params := params\<rparr>)) J)"
    if "params \<noteq> []" "ob_params x = []" "ob_materialization x = Mat_Pending"
    using that find_obligation_unique [OF unique Some] by (intro shaped_obligation obligation_step.params) auto
  then show ?thesis by (auto simp: bind_settlement_mechanism_params_def Some Let_def intro: shaped_same)
qed (auto simp: bind_settlement_mechanism_params_def intro: shaped_same)

lemma shaped_bind_fulfillment:
  assumes unique: "rows_unique J"
  shows "shaped J (Bind_Fulfillment stamp ref f) (fst (bind_settlement_fulfillment stamp ref f J))"
proof (cases "find_obligation J ref")
  case (Some x)
  have "shaped J (Bind_Fulfillment stamp ref f) (update_obligation ref (\<lambda>x. touch stamp (x\<lparr>ob_fulfillment := Some f\<rparr>)) J)"
    if "ob_fulfillment x = None" "\<not> reclaim_active x"
    using that find_obligation_unique [OF unique Some] by (intro shaped_obligation obligation_step.fulfillment) auto
  then show ?thesis by (auto simp: bind_settlement_fulfillment_def Some Let_def intro: shaped_same split: option.split)
qed (auto simp: bind_settlement_fulfillment_def intro: shaped_same)

lemma shaped_upsert_operation: "shaped J (Upsert_Operation row) (fst (upsert_settlement_operation row J))"
proof (cases "find_operation J (op_ref row) (op_kind row)")
  case None
  have "shaped J (Upsert_Operation row) (J\<lparr>operations := operations J @ [row\<lparr>op_awaiting := False\<rparr>]\<rparr>)"
    if "find_obligation J (op_ref row) \<noteq> None"
    unfolding shaped_def
    by (rule exI [of _ id], rule exI [of _ id], rule exI [of _ "[]"], rule exI [of _ "[row\<lparr>op_awaiting := False\<rparr>]"])
      (use that None in \<open>auto simp: fresh_operation_def obligation_step.unchanged operation_step.unchanged\<close>)
  then show ?thesis by (auto simp: upsert_settlement_operation_def ensure_operation_def None intro: shaped_same)
qed (auto simp: upsert_settlement_operation_def ensure_operation_def intro: shaped_same)

lemma shaped_write_field:
  assumes unique: "rows_unique J"
  shows "shaped J (Write_Field ref kind owner key value uncertain) (fst (write_operation_receipt_field E ref kind owner key value uncertain J))"
proof (cases "held_operation J ref kind owner")
  case (Some y)
  have "shaped J (Write_Field ref kind owner key value uncertain) (update_operation ref kind (written_row key value uncertain) J)"
    if "map_of (receipt_of y) key = None"
  proof (rule shaped_operation)
    fix z assume "z \<in> set (operations J)" "op_ref z = ref" "op_kind z = kind"
    then have "z = y" by (rule held_operation_unique [OF unique Some])
    with that Some show "operation_step (Write_Field ref kind owner key value uncertain) z (written_row key value uncertain z)"
      by (auto intro: operation_step.written dest: held_operation_SomeD)
  qed
  then show ?thesis by (auto simp: write_operation_receipt_field_def Some intro: shaped_same split: option.split)
qed (auto simp: write_operation_receipt_field_def intro: shaped_same)

lemma shaped_clear_field:
  assumes unique: "rows_unique J"
  shows "shaped J (Clear_Field ref kind owner key unless) (fst (clear_operation_receipt_field ref kind owner key unless J))"
proof (cases "held_operation J ref kind owner")
  case (Some y)
  have "shaped J (Clear_Field ref kind owner key unless) (update_operation ref kind (cleared_row key) J)"
    if "\<not> has_key (receipt_of y) unless"
  proof (rule shaped_operation)
    fix z assume "z \<in> set (operations J)" "op_ref z = ref" "op_kind z = kind"
    then have "z = y" by (rule held_operation_unique [OF unique Some])
    with that Some show "operation_step (Clear_Field ref kind owner key unless) z (cleared_row key z)"
      by (auto intro: operation_step.cleared dest: held_operation_SomeD)
  qed
  then show ?thesis by (auto simp: clear_operation_receipt_field_def Some intro: shaped_same)
qed (auto simp: clear_operation_receipt_field_def intro: shaped_same)

lemma shaped_finish:
  assumes unique: "rows_unique J"
  shows "shaped J (Finish stamp ref kind owner v) (fst (finish_settlement_operation stamp ref kind owner v J))"
proof (cases "fv_state v = Op_In_Progress \<or> held_operation J ref kind owner = None \<or> finish_collides ref kind v J")
  case False
  then obtain y where y: "held_operation J ref kind owner = Some y" by auto
  let ?f = "\<lambda>x. if ob_ref x = ref then finish_obligation stamp kind v x else x"
  let ?g = "\<lambda>z. if op_ref z = ref \<and> op_kind z = kind then finish_row v z else z"
  have "shaped J (Finish stamp ref kind owner v)
      (update_obligation ref (finish_obligation stamp kind v) (update_operation ref kind (finish_row v) J))"
  proof (rule shaped_rows [where f = ?f and g = ?g])
    fix x show "obligation_step J (Finish stamp ref kind owner v) x (?f x)"
      using False y by (auto intro: obligation_step.ended obligation_step.unchanged)
  next
    fix z assume z: "z \<in> set (operations J)"
    then have "held_row ref kind owner z" if "op_ref z = ref" "op_kind z = kind"
      using that y held_operation_unique [OF unique y] by (auto dest: held_operation_SomeD)
    then show "operation_step (Finish stamp ref kind owner v) z (?g z)"
      using False by (auto intro: operation_step.finished operation_step.unchanged)
  qed (simp_all add: update_obligation_def update_operation_def)
  with False y show ?thesis by (simp add: finish_settlement_operation_def)
qed (auto simp: finish_settlement_operation_def intro: shaped_same split: option.split)

lemma shaped_await:
  assumes unique: "rows_unique J"
  shows "shaped J (Await_Delivery ref owner now) (fst (mark_fulfillment_awaiting_delivery ref owner now J))"
proof (cases "held_operation J ref Fulfill owner")
  case (Some y)
  have "shaped J (Await_Delivery ref owner now) (update_operation ref Fulfill (awaiting_row now) J)"
  proof (rule shaped_operation)
    fix z assume "z \<in> set (operations J)" "op_ref z = ref" "op_kind z = Fulfill"
    then have "z = y" by (rule held_operation_unique [OF unique Some])
    with Some show "operation_step (Await_Delivery ref owner now) z (awaiting_row now z)"
      by (auto intro: operation_step.awaited dest: held_operation_SomeD)
  qed
  then show ?thesis by (simp add: mark_fulfillment_awaiting_delivery_def Some)
qed (auto simp: mark_fulfillment_awaiting_delivery_def intro: shaped_same)

lemma shaped_schedule:
  assumes unique: "rows_unique J"
  shows "shaped J (Schedule ref kind when error) (fst (schedule_settlement_retry ref kind when error J))"
proof (cases "find_operation J ref kind")
  case (Some y)
  have "shaped J (Schedule ref kind when error) (update_operation ref kind (retry_row when error) J)" if "op_state y = Op_Pending"
  proof (rule shaped_operation)
    fix z assume z: "z \<in> set (operations J)" "op_ref z = ref" "op_kind z = kind"
    then have "z = y" by (rule find_operation_unique [OF unique Some])
    with that z show "operation_step (Schedule ref kind when error) z (retry_row when error z)" by (intro operation_step.scheduled) auto
  qed
  then show ?thesis by (auto simp: schedule_settlement_retry_def Some intro: shaped_same)
qed (auto simp: schedule_settlement_retry_def intro: shaped_same)

lemma shaped_wake: "shaped J (Wake ref) (fst (wake_settlement_obligation ref J))"
proof (cases "find_obligation J ref")
  case (Some x)
  show ?thesis
    by (rule shaped_rows [where f = id and g = "\<lambda>y. if op_ref y = ref \<and> op_state y = Op_Pending then y\<lparr>op_next := None\<rparr> else y"])
      (auto simp: wake_settlement_obligation_def Some intro: obligation_step.unchanged operation_step.unchanged operation_step.woken)
qed (simp add: wake_settlement_obligation_def shaped_same)

text \<open>The outcomes of a reservation.\<close>

definition with_operation :: "journal \<Rightarrow> string \<Rightarrow> operation_kind \<Rightarrow> string \<Rightarrow> journal" where
  "with_operation J ref kind hash =
     (case find_operation J ref kind of None \<Rightarrow> J\<lparr>operations := operations J @ [new_operation ref kind hash]\<rparr> | Some _ \<Rightarrow> J)"

lemma ensure_new_operation:
  "ensure_operation (new_operation ref kind hash) J = (with_operation J ref kind hash, stored_operation J ref kind hash)"
  by (simp add: ensure_operation_def with_operation_def stored_operation_def new_operation_def split: option.split)

lemma with_operation_simps [simp]:
  "obligations (with_operation J ref kind hash) = obligations J"
  by (simp add: with_operation_def split: option.split)

lemma find_operation_append:
  "find_operation (J\<lparr>operations := operations J @ ys\<rparr>) ref kind =
     (case find_operation J ref kind of Some y \<Rightarrow> Some y | None \<Rightarrow> find (\<lambda>x. op_ref x = ref \<and> op_kind x = kind) ys)"
proof -
  have find_append: "find P (xs @ ys) = (case find P xs of Some y \<Rightarrow> Some y | None \<Rightarrow> find P ys)" for P and xs ys :: "'a list"
    by (induction xs) simp_all
  show ?thesis by (simp add: find_operation_def find_append)
qed

lemma find_with_operation: "find_operation (with_operation J ref kind hash) ref kind = Some (stored_operation J ref kind hash)"
  by (simp add: with_operation_def stored_operation_def find_operation_append new_operation_def split: option.split)

lemma find_with_operation_other: "kind' \<noteq> kind \<Longrightarrow> find_operation (with_operation J ref kind hash) r kind' = find_operation J r kind'"
  by (simp add: with_operation_def find_operation_append new_operation_def split: option.split)

lemma returned_cleanup_with_operation [simp]:
  "kind \<noteq> Cleanup \<Longrightarrow> returned_cleanup (with_operation J ref kind hash) x = returned_cleanup J x"
  by (simp add: returned_cleanup_def find_with_operation_other)

text \<open>The second test of a reclaim's \<open>UPDATE\<close> repeats what the first has established.\<close>

lemma reclaim_guard_repeats:
  "\<not> reservation_blocked now Reclaim x J \<Longrightarrow>
     \<not> collection_active x \<and> ((ob_fulfillment x = None \<and> ob_condition x \<noteq> Cond_Ready) \<or> returned_cleanup J x)"
  by (auto simp: reservation_blocked_def)

lemma reserve_by_cases:
  "reserve_settlement_operation stamp ref kind hash owner now until J =
     (if grantable ref kind hash owner now until J
      then (update_obligation ref (mark_started stamp kind) (update_operation ref kind (take_lease owner until) (with_operation J ref kind hash)),
        Return (Some (take_lease owner until (stored_operation J ref kind hash))))
      else (J, snd (reserve_settlement_operation stamp ref kind hash owner now until J)))"
proof (cases "find_obligation J ref")
  case (Some x)
  have stored: "with_operation J ref kind hash = J" if "op_state (stored_operation J ref kind hash) \<in> {Op_Succeeded, Op_Manual}"
    using that by (auto simp: with_operation_def stored_operation_def new_operation_def split: option.splits)
  have guard: "\<not> reservation_blocked now kind x J \<Longrightarrow> kind = Reclaim \<longrightarrow> \<not> collection_active x \<and>
      ((ob_fulfillment x = None \<and> ob_condition x \<noteq> Cond_Ready) \<or> returned_cleanup (with_operation J ref kind hash) x)"
    using reclaim_guard_repeats [of now x J] by (cases "kind = Reclaim") auto
  show ?thesis
  proof (cases "grantable ref kind hash owner now until J")
    case True
    then have ok: "now < until" "\<not> reservation_blocked now kind x J" "op_hash (stored_operation J ref kind hash) = hash"
      "op_state (stored_operation J ref kind hash) \<notin> {Op_Succeeded, Op_Manual}"
      "op_owner (stored_operation J ref kind hash) = Some owner \<or> \<not> lease_live now (stored_operation J ref kind hash)"
      by (auto simp: grantable_def Some Let_def)
    from True guard [OF ok(2)] ok Some show ?thesis
      by (simp only: reserve_settlement_operation_def ensure_new_operation option.case prod.case Let_def if_True if_False not_le [symmetric]) auto
  next
    case False
    then show ?thesis
      using guard stored Some by (auto simp: reserve_settlement_operation_def ensure_new_operation grantable_def Let_def)
  qed
qed (simp add: reserve_settlement_operation_def grantable_def)

text \<open>A reservation that answers an operation row either found it finished or has just leased it.\<close>

lemma reserve_answer:
  assumes "snd (reserve_settlement_operation stamp ref kind hash owner now until J) = Return (Some y)"
  shows "(grantable ref kind hash owner now until J \<and> y = take_lease owner until (stored_operation J ref kind hash)) \<or>
    (find_operation J ref kind = Some y \<and> op_state y \<in> {Op_Succeeded, Op_Manual} \<and> op_hash y = hash)"
proof (cases "grantable ref kind hash owner now until J")
  case True
  then show ?thesis using assms reserve_by_cases [of stamp ref kind hash owner now until J] by simp
next
  case False
  then obtain x where x: "find_obligation J ref = Some x" "now < until" "\<not> reservation_blocked now kind x J"
    using assms by (auto simp: reserve_settlement_operation_def split: option.splits if_splits)
  with assms False have "op_hash (stored_operation J ref kind hash) = hash" "op_state (stored_operation J ref kind hash) \<in> {Op_Succeeded, Op_Manual}"
      "y = stored_operation J ref kind hash"
    by (auto simp: reserve_settlement_operation_def ensure_new_operation grantable_def Let_def split: if_splits)
  then show ?thesis by (auto simp: stored_operation_def new_operation_def split: option.splits)
qed

lemma shaped_reserve:
  assumes unique: "rows_unique J"
  shows "shaped J (Reserve stamp ref kind hash owner now until) (fst (reserve_settlement_operation stamp ref kind hash owner now until J))"
proof (cases "grantable ref kind hash owner now until J")
  case True
  let ?p = "Reserve stamp ref kind hash owner now until" and ?y = "stored_operation J ref kind hash"
  let ?f = "\<lambda>x. if ob_ref x = ref then mark_started stamp kind x else x"
  let ?g = "\<lambda>y. if op_ref y = ref \<and> op_kind y = kind then take_lease owner until y else y"
  let ?new = "case find_operation J ref kind of None \<Rightarrow> [new_operation ref kind hash] | Some _ \<Rightarrow> []"
  from True obtain x where x: "find_obligation J ref = Some x" "\<not> reservation_blocked now kind x J"
    by (auto simp: grantable_def split: option.splits)
  have ops: "operations (with_operation J ref kind hash) = operations J @ ?new" by (simp add: with_operation_def split: option.split)
  have stored: "z = ?y" if "z \<in> set (operations J @ ?new)" "op_ref z = ref" "op_kind z = kind" for z
    using that find_operation_unique [OF unique] by (auto simp: stored_operation_def dest: find_operation_NoneD split: option.splits)
  have "obligation_step J ?p z (?f z)" if "z \<in> set (obligations J)" for z
    using that x True find_obligation_unique [OF unique x(1)] by (auto intro: obligation_step.started obligation_step.unchanged)
  moreover have "operation_step ?p z (?g z)" if "z \<in> set (operations J @ ?new)" for z
    using True stored [OF that] by (auto simp: grantable_def Let_def intro: operation_step.taken operation_step.unchanged)
  moreover have "?new = [] \<or> (\<exists>row. ?new = [row] \<and> fresh_operation J ?p row)"
    using x by (auto simp: fresh_operation_def new_operation_def split: option.split)
  ultimately have "shaped J ?p (update_obligation ref (mark_started stamp kind)
      (update_operation ref kind (take_lease owner until) (with_operation J ref kind hash)))"
    unfolding shaped_def
    by (intro exI [of _ ?f] exI [of _ ?g] exI [of _ "[]"] exI [of _ ?new]) (simp add: update_obligation_def update_operation_def ops)
  then show ?thesis by (subst reserve_by_cases) (simp add: True)
next
  case False
  then have "fst (reserve_settlement_operation stamp ref kind hash owner now until J) = J" by (subst reserve_by_cases) simp
  then show ?thesis by (simp add: shaped_same)
qed

lemma exec_shaped:
  assumes "rows_unique J"
  shows "shaped J p (exec_op E p J)"
  using assms by (cases p)
    (simp_all add: shaped_upsert_obligation shaped_save shaped_bind_params shaped_bind_fulfillment shaped_upsert_operation shaped_reserve
      shaped_write_field shaped_clear_field shaped_finish shaped_await shaped_schedule shaped_wake)

text \<open>Reading a write row by row.\<close>

lemma shaped_obligationE:
  assumes "shaped J p J'" and "x \<in> set (obligations J)"
  obtains x' where "x' \<in> set (obligations J')" and "obligation_step J p x x'"
proof -
  from assms(1) obtain f newo where f: "obligations J' = map f (obligations J) @ newo" "\<forall>x \<in> set (obligations J). obligation_step J p x (f x)"
    unfolding shaped_def by blast
  from that [of "f x"] f assms(2) show thesis by simp
qed

lemma shaped_obligation_originE:
  assumes "shaped J p J'" and "x' \<in> set (obligations J')"
  obtains (old) x where "x \<in> set (obligations J)" and "obligation_step J p x x'" | (new) "fresh_obligation J p x'"
proof -
  from assms(1) obtain f newo where f: "obligations J' = map f (obligations J) @ newo" "\<forall>x \<in> set (obligations J). obligation_step J p x (f x)"
    "newo = [] \<or> (\<exists>row. newo = [row] \<and> fresh_obligation J p row)"
    unfolding shaped_def by blast
  from f(1) assms(2) consider "x' \<in> f ` set (obligations J)" | "x' \<in> set newo" by auto
  then show thesis
    by cases (use f old new in auto)
qed

lemma shaped_operationE:
  assumes "shaped J p J'" and "y \<in> set (operations J)"
  obtains y' where "y' \<in> set (operations J')" and "operation_step p y y'"
proof -
  from assms(1) obtain g newp where g: "operations J' = map g (operations J @ newp)" "\<forall>y \<in> set (operations J @ newp). operation_step p y (g y)"
    unfolding shaped_def by blast
  from that [of "g y"] g assms(2) show thesis by simp
qed

lemma shaped_operation_originE:
  assumes "shaped J p J'" and "y' \<in> set (operations J')"
  obtains (old) y where "y \<in> set (operations J)" and "operation_step p y y'"
  | (new) y where "fresh_operation J p y" and "operation_step p y y'"
proof -
  from assms(1) obtain g newp where g: "operations J' = map g (operations J @ newp)" "\<forall>y \<in> set (operations J @ newp). operation_step p y (g y)"
    "newp = [] \<or> (\<exists>row. newp = [row] \<and> fresh_operation J p row)"
    unfolding shaped_def by blast
  from g(1) assms(2) obtain y where y: "y' = g y" "y \<in> set (operations J) \<or> y \<in> set newp" by auto
  with g(2) have step: "operation_step p y y'" by auto
  from y(2) show thesis
    by (elim disjE) (use g(3) step old new in auto)
qed

section \<open>Rows over a run\<close>

text \<open>What identifies an obligation is never rewritten, and every rewrite raises the version.\<close>

definition same_obligation :: "obligation_row \<Rightarrow> obligation_row \<Rightarrow> bool" where
  "same_obligation x z = (ob_ref z = ob_ref x \<and> ob_agreement z = ob_agreement x \<and> ob_index z = ob_index x \<and> ob_hash z = ob_hash x \<and>
     ob_terms z = ob_terms x \<and> ob_payer z = ob_payer x \<and> ob_claimant z = ob_claimant x \<and> (ob_params x = [] \<or> ob_params z = ob_params x))"

definition obligation_moves :: "obligation_row \<Rightarrow> obligation_row \<Rightarrow> bool" where
  "obligation_moves x z = (same_obligation x z \<and> (z = x \<or> ob_version x < ob_version z))"

text \<open>An operation keeps its request, and is final once it succeeded or waits for an operator.\<close>

definition operation_moves :: "operation_row \<Rightarrow> operation_row \<Rightarrow> bool" where
  "operation_moves y z = (op_ref z = op_ref y \<and> op_kind z = op_kind y \<and> op_hash z = op_hash y \<and>
     (op_state y \<in> {Op_Succeeded, Op_Manual} \<longrightarrow> z = y))"

definition journal_moves :: "journal \<Rightarrow> journal \<Rightarrow> bool" where
  "journal_moves J J' = ((\<forall>x \<in> set (obligations J). \<exists>z \<in> set (obligations J'). obligation_moves x z) \<and>
     (\<forall>y \<in> set (operations J). \<exists>z \<in> set (operations J'). operation_moves y z))"

lemmas row_defs = touch_def mechanism_columns_def park_columns_def finish_materialize_def finish_status_def finish_check_def finish_collect_def
  finish_reclaim_def

lemma mark_started_frame [simp]:
  "ob_ref (mark_started stamp kind x) = ob_ref x" "ob_agreement (mark_started stamp kind x) = ob_agreement x"
  "ob_index (mark_started stamp kind x) = ob_index x" "ob_hash (mark_started stamp kind x) = ob_hash x"
  "ob_terms (mark_started stamp kind x) = ob_terms x" "ob_payer (mark_started stamp kind x) = ob_payer x"
  "ob_claimant (mark_started stamp kind x) = ob_claimant x" "ob_params (mark_started stamp kind x) = ob_params x"
  "ob_mechanism (mark_started stamp kind x) = ob_mechanism x" "ob_fulfillment (mark_started stamp kind x) = ob_fulfillment x"
  by (simp_all add: mark_started_def touch_def split: operation_kind.split)

lemma finish_obligation_frame [simp]:
  "ob_ref (finish_obligation stamp kind v x) = ob_ref x" "ob_agreement (finish_obligation stamp kind v x) = ob_agreement x"
  "ob_index (finish_obligation stamp kind v x) = ob_index x" "ob_hash (finish_obligation stamp kind v x) = ob_hash x"
  "ob_terms (finish_obligation stamp kind v x) = ob_terms x" "ob_payer (finish_obligation stamp kind v x) = ob_payer x"
  "ob_claimant (finish_obligation stamp kind v x) = ob_claimant x" "ob_params (finish_obligation stamp kind v x) = ob_params x"
  "ob_fulfillment (finish_obligation stamp kind v x) = ob_fulfillment x"
  by (simp_all add: finish_obligation_def row_defs split: operation_kind.split)

lemma mark_started_version: "mark_started stamp kind x = x \<or> ob_version (mark_started stamp kind x) = ob_version x + 1"
  by (simp add: mark_started_def touch_def split: operation_kind.split)

lemma finish_obligation_version: "finish_obligation stamp kind v x = x \<or> ob_version (finish_obligation stamp kind v x) = ob_version x + 1"
  by (simp add: finish_obligation_def row_defs split: operation_kind.split)

lemma finish_obligation_mechanism:
  "ob_mechanism (finish_obligation stamp kind v x) =
     (if kind \<in> {Materialize, Status} then coalesce (fv_mechanism v) (ob_mechanism x) else ob_mechanism x)"
  by (simp add: finish_obligation_def row_defs split: operation_kind.split)

lemma obligation_step_moves: "obligation_step J p x z \<Longrightarrow> obligation_moves x z"
proof (induction rule: obligation_step.induct)
  case (started x ref now kind hash owner until stamp)
  then show ?case using mark_started_version [of stamp kind x] by (auto simp: obligation_moves_def same_obligation_def)
next
  case (ended x ref kind owner v stamp)
  then show ?case using finish_obligation_version [of stamp kind v x] by (auto simp: obligation_moves_def same_obligation_def)
qed (simp_all add: obligation_moves_def same_obligation_def saved_row_def touch_def)

lemma obligation_step_ref: "obligation_step J p x z \<Longrightarrow> ob_ref z = ob_ref x"
  using obligation_step_moves by (auto simp: obligation_moves_def same_obligation_def)

lemma operation_step_moves: "operation_step p y z \<Longrightarrow> operation_moves y z"
  by (induction rule: operation_step.induct)
    (auto simp: operation_moves_def take_lease_def written_row_def cleared_row_def finish_row_def awaiting_row_def retry_row_def held_row_def Let_def)

lemma operation_step_key: "operation_step p y z \<Longrightarrow> op_key z = op_key y"
  using operation_step_moves by (auto simp: operation_moves_def op_key_def)

lemma shaped_moves:
  assumes "shaped J p J'"
  shows "journal_moves J J'"
  unfolding journal_moves_def
proof (intro conjI ballI)
  fix x assume "x \<in> set (obligations J)"
  with assms obtain z where "z \<in> set (obligations J')" "obligation_step J p x z" by (rule shaped_obligationE)
  then show "\<exists>z \<in> set (obligations J'). obligation_moves x z" by (blast intro: obligation_step_moves)
next
  fix y assume "y \<in> set (operations J)"
  with assms obtain z where "z \<in> set (operations J')" "operation_step p y z" by (rule shaped_operationE)
  then show "\<exists>z \<in> set (operations J'). operation_moves y z" by (blast intro: operation_step_moves)
qed

lemma obligation_moves_trans: "obligation_moves x y \<Longrightarrow> obligation_moves y z \<Longrightarrow> obligation_moves x z"
  by (auto simp: obligation_moves_def same_obligation_def)

lemma operation_moves_trans: "operation_moves x y \<Longrightarrow> operation_moves y z \<Longrightarrow> operation_moves x z"
  by (auto simp: operation_moves_def)

lemma journal_moves_refl: "journal_moves J J"
  by (auto simp: journal_moves_def obligation_moves_def same_obligation_def operation_moves_def)

lemma journal_moves_trans: "journal_moves J K \<Longrightarrow> journal_moves K L \<Longrightarrow> journal_moves J L"
  unfolding journal_moves_def by (meson obligation_moves_trans operation_moves_trans)

section \<open>Well-formed journals\<close>

definition mechanisms_unique :: "journal \<Rightarrow> bool" where
  "mechanisms_unique J = (\<forall>x \<in> set (obligations J). \<forall>z \<in> set (obligations J). ob_mechanism x \<noteq> None \<and> ob_mechanism x = ob_mechanism z \<longrightarrow>
     ob_ref x = ob_ref z)"

definition lease_ok :: "operation_row \<Rightarrow> bool" where
  "lease_ok y = ((op_state y = Op_In_Progress \<longleftrightarrow> op_owner y \<noteq> None) \<and> (op_owner y = None \<longleftrightarrow> op_until y = None) \<and> 0 \<le> op_attempts y \<and>
     (op_awaiting y \<longrightarrow> op_state y = Op_Pending))"

definition journal_wf :: "journal \<Rightarrow> bool" where
  "journal_wf J = (rows_unique J \<and> distinct (map (\<lambda>x. (ob_agreement x, ob_index x)) (obligations J)) \<and>
     (\<forall>x \<in> set (obligations J). 0 \<le> ob_index x) \<and> mechanisms_unique J \<and>
     (\<forall>y \<in> set (operations J). op_ref y \<in> ob_ref ` set (obligations J)) \<and> (\<forall>y \<in> set (operations J). lease_ok y))"

text \<open>The one write that stores a caller's operation row must be given a consistent one.\<close>

definition consistent_rows :: "journal_op \<Rightarrow> journal \<Rightarrow> bool" where
  "consistent_rows p J = (case p of Upsert_Operation row \<Rightarrow> lease_ok (row\<lparr>op_awaiting := False\<rparr>) | _ \<Rightarrow> True)"

lemma operation_step_lease: "operation_step p y z \<Longrightarrow> lease_ok y \<Longrightarrow> lease_ok z"
proof (induction rule: operation_step.induct)
  case (finished ref kind owner y v stamp)
  then show ?case by (cases "fv_state v") (auto simp: lease_ok_def finish_row_def held_row_def)
qed (auto simp: lease_ok_def take_lease_def written_row_def cleared_row_def awaiting_row_def retry_row_def held_row_def Let_def)

lemma fresh_operation_lease: "fresh_operation J p y \<Longrightarrow> consistent_rows p J \<Longrightarrow> lease_ok y"
  by (auto simp: fresh_operation_def consistent_rows_def lease_ok_def new_operation_def)

lemma shaped_refs:
  assumes "shaped J p J'"
  shows "ob_ref ` set (obligations J) \<subseteq> ob_ref ` set (obligations J')"
  by (rule image_subsetI, erule shaped_obligationE [OF assms]) (metis imageI obligation_step_ref)

lemma shaped_rows_unique:
  assumes "shaped J p J'" and "rows_unique J"
  shows "rows_unique J'"
proof -
  from assms(1) obtain f g newo newp where s: "obligations J' = map f (obligations J) @ newo" "operations J' = map g (operations J @ newp)"
    "\<forall>x \<in> set (obligations J). obligation_step J p x (f x)" "\<forall>y \<in> set (operations J @ newp). operation_step p y (g y)"
    "newo = [] \<or> (\<exists>row. newo = [row] \<and> fresh_obligation J p row)" "newp = [] \<or> (\<exists>row. newp = [row] \<and> fresh_operation J p row)"
    unfolding shaped_def by blast
  have obligations: "map ob_ref (obligations J') = map ob_ref (obligations J @ newo)"
    using s(3) by (auto simp: s(1) dest: obligation_step_ref)
  have operations: "map op_key (operations J') = map op_key (operations J @ newp)"
    unfolding s(2) map_map by (rule map_cong) (use s(4) in \<open>auto dest: operation_step_key\<close>)
  have "distinct (map ob_ref (obligations J @ newo))"
    using s(5) assms(2) by (auto simp: rows_unique_def fresh_obligation_def insertable_def list_ex_iff)
  moreover have "distinct (map op_key (operations J @ newp))"
    using s(6) assms(2) by (auto simp: rows_unique_def fresh_operation_def op_key_def dest: find_operation_NoneD)
  ultimately show ?thesis unfolding rows_unique_def obligations operations by (rule conjI)
qed

lemma shaped_indices:
  assumes "shaped J p J'" and "distinct (map (\<lambda>x. (ob_agreement x, ob_index x)) (obligations J))" and "\<forall>x \<in> set (obligations J). 0 \<le> ob_index x"
  shows "distinct (map (\<lambda>x. (ob_agreement x, ob_index x)) (obligations J')) \<and> (\<forall>x \<in> set (obligations J'). 0 \<le> ob_index x)"
proof -
  from assms(1) obtain f newo where s: "obligations J' = map f (obligations J) @ newo" "\<forall>x \<in> set (obligations J). obligation_step J p x (f x)"
    "newo = [] \<or> (\<exists>row. newo = [row] \<and> fresh_obligation J p row)"
    unfolding shaped_def by blast
  have keys: "ob_agreement (f x) = ob_agreement x \<and> ob_index (f x) = ob_index x" if "x \<in> set (obligations J)" for x
    using s(2) that obligation_step_moves by (auto simp: obligation_moves_def same_obligation_def)
  have "map (\<lambda>x. (ob_agreement x, ob_index x)) (map f (obligations J)) = map (\<lambda>x. (ob_agreement x, ob_index x)) (obligations J)"
    unfolding map_map by (rule map_cong) (use keys in auto)
  moreover have "distinct (map (\<lambda>x. (ob_agreement x, ob_index x)) (obligations J @ newo)) \<and> (\<forall>x \<in> set newo. 0 \<le> ob_index x)"
    using s(3) assms(2) by (auto simp: fresh_obligation_def insertable_def list_ex_iff)
  moreover have "\<forall>x \<in> set (map f (obligations J)). 0 \<le> ob_index x" using keys assms(3) by simp
  ultimately show ?thesis unfolding s(1) map_append by (simp only: set_append ball_Un) simp
qed

lemma insertable_mechanism: "insertable J row \<Longrightarrow> z \<in> set (obligations J) \<Longrightarrow> ob_mechanism z \<noteq> None \<Longrightarrow> ob_mechanism z \<noteq> ob_mechanism row"
  by (auto simp: insertable_def list_ex_iff)

text \<open>A row whose mechanism reference changes is the write's target, and takes a free one.\<close>

fun target :: "journal_op \<Rightarrow> string option" where
  "target (Save_Obligation _ row _) = Some (ob_ref row)"
| "target (Finish _ ref _ _ _) = Some ref"
| "target _ = None"

lemma obligation_step_mechanism:
  assumes "obligation_step J p x z" and "rows_unique J" and "x \<in> set (obligations J)"
  shows "ob_mechanism z = ob_mechanism x \<or> (target p = Some (ob_ref x) \<and> \<not> mechanism_taken J (ob_ref x) (ob_mechanism z))"
  using assms(1)
proof (cases rule: obligation_step.cases)
  case (ended ref kind owner v stamp)
  have found: "find_obligation J ref = Some x" using in_obligations_find [OF assms(2,3)] ended(3) by simp
  show ?thesis
  proof (cases "kind \<in> {Materialize, Status}")
    case True
    with ended found show ?thesis by (auto simp: finish_obligation_mechanism finish_collides_def)
  next
    case False
    with ended show ?thesis by (simp add: finish_obligation_mechanism)
  qed
qed (simp_all add: saved_row_def touch_def)

lemma shaped_mechanisms:
  assumes s: "shaped J p J'" and unique: "rows_unique J" and m: "mechanisms_unique J"
  shows "mechanisms_unique J'"
  unfolding mechanisms_unique_def
proof (intro ballI impI)
  have stepped: "ob_ref x' = ob_ref z'"
    if x: "x \<in> set (obligations J)" "obligation_step J p x x'" and z: "z \<in> set (obligations J)" "obligation_step J p z z'"
      and eq: "ob_mechanism x' \<noteq> None" "ob_mechanism x' = ob_mechanism z'" for x x' z z'
  proof -
    have refs: "ob_ref x' = ob_ref x" "ob_ref z' = ob_ref z" using x z by (simp_all add: obligation_step_ref)
    show ?thesis
      using obligation_step_mechanism [OF x(2) unique x(1)] obligation_step_mechanism [OF z(2) unique z(1)]
    proof (elim disjE conjE, goal_cases)
      case 1
      with m [unfolded mechanisms_unique_def, rule_format, OF x(1) z(1)] eq refs show ?case by simp
    next
      case 2
      with x(1) eq refs show ?case by (auto simp: mechanism_taken_def list_ex_iff)
    next
      case 3
      with z(1) eq refs show ?case by (auto simp: mechanism_taken_def list_ex_iff)
    qed (simp add: refs)
  qed
  have added: False
    if new: "fresh_obligation J p x'" and z: "z \<in> set (obligations J)" "obligation_step J p z z'" and eq: "ob_mechanism x' \<noteq> None" "ob_mechanism x' = ob_mechanism z'" for x' z z'
  proof -
    from new obtain stamp row where p: "p = Upsert_Obligation stamp row" "insertable J row" "x' = row\<lparr>ob_updated := stamp\<rparr>"
      by (auto simp: fresh_obligation_def)
    with z(2) have "z' = z" by (auto elim: obligation_stepE)
    moreover from this have "ob_mechanism z \<noteq> ob_mechanism row" by (intro insertable_mechanism [OF p(2) z(1)]) (metis eq)
    ultimately show False using p(3) eq by simp
  qed
  fix x' z' assume rows: "x' \<in> set (obligations J')" "z' \<in> set (obligations J')" and eq: "ob_mechanism x' \<noteq> None \<and> ob_mechanism x' = ob_mechanism z'"
  have eq': "ob_mechanism z' \<noteq> None" "ob_mechanism z' = ob_mechanism x'" using eq by (metis, metis)
  show "ob_ref x' = ob_ref z'"
  proof (rule shaped_obligation_originE [OF s rows(1)])
    fix x assume x: "x \<in> set (obligations J)" "obligation_step J p x x'"
    show ?thesis
    proof (rule shaped_obligation_originE [OF s rows(2)])
      fix z assume "z \<in> set (obligations J)" "obligation_step J p z z'"
      with stepped [OF x] eq show ?thesis by blast
    next
      assume "fresh_obligation J p z'"
      with added [OF _ x] eq' show ?thesis by blast
    qed
  next
    assume new: "fresh_obligation J p x'"
    show ?thesis
    proof (rule shaped_obligation_originE [OF s rows(2)])
      fix z assume "z \<in> set (obligations J)" "obligation_step J p z z'"
      with added [OF new] eq show ?thesis by blast
    next
      assume "fresh_obligation J p z'"
      with new show ?thesis by (auto simp: fresh_obligation_def)
    qed
  qed
qed

lemma exec_keeps_wf:
  assumes wf: "journal_wf J" and ok: "consistent_rows p J"
  shows "journal_wf (exec_op E p J)"
proof -
  from wf have unique: "rows_unique J" by (simp add: journal_wf_def)
  note s = exec_shaped [OF unique, of p E]
  have refs: "op_ref y \<in> ob_ref ` set (obligations (exec_op E p J))" if "y \<in> set (operations (exec_op E p J))" for y
    using s that
  proof (cases rule: shaped_operation_originE)
    case (old y0)
    with operation_step_moves have "op_ref y = op_ref y0" by (auto simp: operation_moves_def)
    with old wf shaped_refs [OF s] show ?thesis by (auto simp: journal_wf_def)
  next
    case (new y0)
    with operation_step_moves have "op_ref y = op_ref y0" by (auto simp: operation_moves_def)
    with new shaped_refs [OF s] show ?thesis by (force simp: fresh_operation_def dest: find_obligation_SomeD)
  qed
  have leases: "lease_ok y" if "y \<in> set (operations (exec_op E p J))" for y
    using s that
  proof (cases rule: shaped_operation_originE)
    case (old y0)
    with wf show ?thesis by (auto simp: journal_wf_def intro: operation_step_lease)
  next
    case (new y0)
    with ok show ?thesis by (auto intro: operation_step_lease fresh_operation_lease)
  qed
  show ?thesis
    using wf shaped_rows_unique [OF s unique] shaped_indices [OF s] shaped_mechanisms [OF s unique] refs leases by (simp add: journal_wf_def)
qed

interpretation writes: op_machine "exec_op E" consistent_rows journal_wf journal_moves for E
proof
  show "journal_moves J (exec_op E p J)" if "journal_wf J" for J p
    by (rule shaped_moves [OF exec_shaped]) (use that in \<open>simp add: journal_wf_def\<close>)
qed (auto intro: exec_keeps_wf journal_moves_refl journal_moves_trans)

section \<open>Leases\<close>

text \<open>The row is leased to \<open>owner\<close> until \<open>until\<close>.\<close>

definition leased_to :: "string \<Rightarrow> operation_kind \<Rightarrow> string \<Rightarrow> rat \<Rightarrow> journal \<Rightarrow> bool" where
  "leased_to ref kind owner until J = (journal_wf J \<and> (\<exists>y \<in> set (operations J). held_row ref kind owner y \<and> op_until y = Some until))"

text \<open>A write that is not the holder's own on the operation, and no reservation after the lease has run out.\<close>

definition foreign_write :: "string \<Rightarrow> operation_kind \<Rightarrow> string \<Rightarrow> rat \<Rightarrow> journal_op \<Rightarrow> journal \<Rightarrow> bool" where
  "foreign_write ref kind owner until p J = (consistent_rows p J \<and> (case p of
     Reserve _ r k _ w now _ \<Rightarrow> r = ref \<and> k = kind \<longrightarrow> w \<noteq> owner \<and> now \<le> until
   | Finish _ r k w _ \<Rightarrow> r = ref \<and> k = kind \<longrightarrow> w \<noteq> owner
   | Await_Delivery r w _ \<Rightarrow> r = ref \<and> kind = Fulfill \<longrightarrow> w \<noteq> owner
   | _ \<Rightarrow> True))"

lemma operation_step_leased:
  assumes "operation_step p y z" and "foreign_write ref kind owner until p J" and "held_row ref kind owner y" and "op_until y = Some until"
  shows "held_row ref kind owner z \<and> op_until z = Some until"
  using assms
  by (cases rule: operation_step.cases)
    (auto simp: foreign_write_def held_row_def lease_live_def written_row_def cleared_row_def Let_def)

lemma foreign_write_keeps_lease:
  assumes "leased_to ref kind owner until J" and ok: "foreign_write ref kind owner until p J"
  shows "leased_to ref kind owner until (exec_op E p J)"
proof -
  from assms(1) obtain y where wf: "journal_wf J" and y: "y \<in> set (operations J)" "held_row ref kind owner y" "op_until y = Some until"
    by (auto simp: leased_to_def)
  from wf have s: "shaped J p (exec_op E p J)" by (auto simp: journal_wf_def intro: exec_shaped)
  from s y(1) obtain z where z: "z \<in> set (operations (exec_op E p J))" "operation_step p y z" by (rule shaped_operationE)
  moreover from ok have "consistent_rows p J" by (simp add: foreign_write_def)
  ultimately show ?thesis
    using exec_keeps_wf [OF wf] operation_step_leased [OF z(2) ok y(2,3)] unfolding leased_to_def by blast
qed

interpretation leases: op_machine "exec_op E" "foreign_write ref kind owner until" "leased_to ref kind owner until" "\<lambda>_ _. True"
  for E ref kind owner until
  by unfold_locales (auto intro: foreign_write_keeps_lease)

lemma leased_find:
  assumes "leased_to ref kind owner until J"
  obtains y where "find_operation J ref kind = Some y" and "held_row ref kind owner y" and "op_until y = Some until"
proof -
  from assms obtain y where "rows_unique J" "y \<in> set (operations J)" "held_row ref kind owner y" "op_until y = Some until"
    by (auto simp: leased_to_def journal_wf_def)
  with in_operations_find [of J y] that [of y] show thesis by (auto simp: held_row_def)
qed

lemma leased_not_grantable:
  assumes "leased_to ref kind owner until J" and "other \<noteq> owner" and "later \<le> until"
  shows "\<not> grantable ref kind hash other later until' J"
  using assms(1)
  by (rule leased_find) (use assms(2,3) in \<open>auto simp: grantable_def stored_operation_def held_row_def lease_live_def Let_def\<close>)

lemma leased_no_answer:
  assumes "leased_to ref kind owner until J" and "other \<noteq> owner" and "later \<le> until"
  shows "snd (reserve_settlement_operation stamp ref kind hash other later until' J) \<noteq> Return (Some y)"
proof
  assume "snd (reserve_settlement_operation stamp ref kind hash other later until' J) = Return (Some y)"
  with reserve_answer leased_not_grantable [OF assms] have "find_operation J ref kind = Some y" "op_state y \<in> {Op_Succeeded, Op_Manual}" by blast+
  with assms(1) show False by (elim leased_find) (auto simp: held_row_def)
qed

lemma not_granted: "\<not> grantable ref kind hash owner now until J \<Longrightarrow> fst (reserve_settlement_operation stamp ref kind hash owner now until J) = J"
  by (subst reserve_by_cases) simp

lemma granted_is_leased:
  assumes wf: "journal_wf J" and ok: "grantable ref kind hash owner now until J"
  shows "leased_to ref kind owner until (fst (reserve_settlement_operation stamp ref kind hash owner now until J))"
proof -
  let ?J = "fst (reserve_settlement_operation stamp ref kind hash owner now until J)"
  have "journal_wf ?J" using exec_keeps_wf [OF wf, of "Reserve stamp ref kind hash owner now until" "undefined"] by (simp add: consistent_rows_def)
  moreover have "take_lease owner until (stored_operation J ref kind hash) \<in> set (operations ?J)"
    using find_operation_SomeD [OF find_with_operation [of J ref kind hash]]
    by (subst reserve_by_cases) (force simp: ok update_obligation_def update_operation_def)
  moreover have "op_ref (stored_operation J ref kind hash) = ref" "op_kind (stored_operation J ref kind hash) = kind"
    using find_operation_SomeD [OF find_with_operation [of J ref kind hash]] by auto
  moreover from this have "held_row ref kind owner (take_lease owner until (stored_operation J ref kind hash))"
    by (simp add: held_row_def take_lease_def)
  moreover have "op_until (take_lease owner until (stored_operation J ref kind hash)) = Some until" by (simp add: take_lease_def)
  ultimately show ?thesis unfolding leased_to_def by blast
qed

end
