(* ===== verification/Settlement_Effects.thy ===== *)
theory Settlement_Effects
  imports Settlement_Runs
begin

text \<open>
  The two effects that move money.  Over every run of the journal: a collection and a reclaim are
  never both under way or done (\<open>effects_ok\<close>), an effect that has succeeded is never leased again
  and its column never changes (\<open>effect_settled\<close>), and what a fulfillment recorded of its publication is
  not overwritten (\<open>evidence_kept\<close>).
\<close>

section \<open>Collection and reclaim exclude each other\<close>

definition effects_exclusive :: "journal \<Rightarrow> bool" where
  "effects_exclusive J = (\<forall>x \<in> set (obligations J). \<not> (collection_active x \<and> reclaim_active x))"

definition effects_marked :: "journal \<Rightarrow> bool" where
  "effects_marked J = (\<forall>x \<in> set (obligations J). \<forall>y \<in> set (operations J). op_ref y = ob_ref x \<and> op_state y = Op_In_Progress \<longrightarrow>
     (op_kind y = Collect \<longrightarrow> collection_active x) \<and> (op_kind y = Reclaim \<longrightarrow> reclaim_active x))"

definition effects_ok :: "journal \<Rightarrow> bool" where
  "effects_ok J = (journal_wf J \<and> effects_exclusive J \<and> effects_marked J)"

text \<open>What must not come from outside: a stored obligation or operation row that starts an effect, or
  an authority that reports one effect while the other is under way.\<close>

definition honest_write :: "journal_op \<Rightarrow> journal \<Rightarrow> bool" where
  "honest_write p J = (consistent_rows p J \<and> (case p of
     Upsert_Obligation _ row \<Rightarrow> \<not> (collection_active row \<and> reclaim_active row)
   | Upsert_Operation row \<Rightarrow> op_state row \<noteq> Op_In_Progress
   | Save_Obligation _ row _ \<Rightarrow> (\<forall>x \<in> set (obligations J). ob_ref x = ob_ref row \<longrightarrow> ob_collection x = ob_collection row \<and> ob_reclaim x = ob_reclaim row)
   | Finish _ ref Status _ v \<Rightarrow> (\<forall>x \<in> set (obligations J). ob_ref x = ref \<longrightarrow>
       (fv_status v = Some Escrow_Collected \<longrightarrow> \<not> reclaim_active x) \<and> (fv_status v = Some Escrow_Reclaimed \<longrightarrow> \<not> collection_active x))
   | _ \<Rightarrow> True))"

fun effect_write :: "journal_op \<Rightarrow> bool" where
  "effect_write (Reserve _ _ _ _ _ _ _) = True"
| "effect_write (Finish _ _ _ _ _) = True"
| "effect_write _ = False"

lemma other_write_obligation:
  assumes "obligation_step J p x z" and "\<not> effect_write p" and "honest_write p J" and "x \<in> set (obligations J)"
  shows "ob_collection z = ob_collection x \<and> ob_reclaim z = ob_reclaim x \<and> ob_ref z = ob_ref x"
  using assms by (cases rule: obligation_step.cases) (auto simp: saved_row_def touch_def honest_write_def)

lemma other_write_operation:
  assumes "operation_step p y z" and "\<not> effect_write p" and "op_state z = Op_In_Progress"
  shows "op_state y = Op_In_Progress \<and> op_kind z = op_kind y \<and> op_ref z = op_ref y"
  using assms by (cases rule: operation_step.cases) (auto simp: written_row_def cleared_row_def awaiting_row_def retry_row_def Let_def)

lemma other_write_effects:
  assumes ok: "effects_ok J" and p: "\<not> effect_write p" "honest_write p J" and s: "shaped J p J'"
  shows "effects_exclusive J' \<and> effects_marked J'"
proof
  show "effects_exclusive J'"
    unfolding effects_exclusive_def
  proof
    fix z assume "z \<in> set (obligations J')"
    with s show "\<not> (collection_active z \<and> reclaim_active z)"
    proof (cases rule: shaped_obligation_originE)
      case (old x)
      with other_write_obligation [OF old(2) p old(1)] ok show ?thesis
        by (simp add: effects_ok_def effects_exclusive_def collection_active_def reclaim_active_def)
    next
      case new
      with p(2) show ?thesis by (auto simp: fresh_obligation_def honest_write_def collection_active_def reclaim_active_def)
    qed
  qed
  show "effects_marked J'"
    unfolding effects_marked_def
  proof (intro ballI impI, elim conjE)
    fix z y' assume rows: "z \<in> set (obligations J')" "y' \<in> set (operations J')" and y': "op_ref y' = ob_ref z" "op_state y' = Op_In_Progress"
    from s rows(2) obtain y where y: "y \<in> set (operations J)" "operation_step p y y'"
    proof (cases rule: shaped_operation_originE)
      case (new y)
      with other_write_operation [OF new(2) p(1) y'(2)] p show ?thesis
        by (auto simp: fresh_operation_def honest_write_def)
    qed (use that in blast)
    note y_old = other_write_operation [OF y(2) p(1) y'(2)]
    from s rows(1) show "(op_kind y' = Collect \<longrightarrow> collection_active z) \<and> (op_kind y' = Reclaim \<longrightarrow> reclaim_active z)"
    proof (cases rule: shaped_obligation_originE)
      case (old x)
      note x = other_write_obligation [OF old(2) p old(1)]
      from ok old(1) y(1) y_old x y'(1) have "(op_kind y = Collect \<longrightarrow> collection_active x) \<and> (op_kind y = Reclaim \<longrightarrow> reclaim_active x)"
        by (simp add: effects_ok_def effects_marked_def)
      with x y_old show ?thesis by (simp add: collection_active_def reclaim_active_def)
    next
      case new
      then obtain row where "ob_ref z = ob_ref row" "insertable J row" by (auto simp: fresh_obligation_def)
      moreover from ok y(1) have "op_ref y \<in> ob_ref ` set (obligations J)" by (simp add: effects_ok_def journal_wf_def)
      ultimately show ?thesis using y_old y'(1) by (auto simp: insertable_def list_ex_iff)
    qed
  qed
qed

lemma mark_started_effects:
  "kind \<noteq> Collect \<or> reclaim_active x \<Longrightarrow> ob_collection (mark_started stamp kind x) = ob_collection x"
  "kind \<noteq> Reclaim \<Longrightarrow> ob_reclaim (mark_started stamp kind x) = ob_reclaim x"
  "collection_active x \<Longrightarrow> collection_active (mark_started stamp kind x)"
  "reclaim_active x \<Longrightarrow> reclaim_active (mark_started stamp kind x)"
  "\<not> reclaim_active x \<Longrightarrow> collection_active (mark_started stamp Collect x)"
  "reclaim_active (mark_started stamp Reclaim x)"
  by (auto simp: mark_started_def touch_def collection_active_def reclaim_active_def split: operation_kind.split)

lemma reserve_effects:
  assumes ok: "effects_ok J" and g: "grantable ref kind hash owner now until J"
  shows "effects_exclusive (fst (reserve_settlement_operation stamp ref kind hash owner now until J)) \<and>
    effects_marked (fst (reserve_settlement_operation stamp ref kind hash owner now until J))"
proof -
  let ?J = "fst (reserve_settlement_operation stamp ref kind hash owner now until J)"
  let ?f = "\<lambda>x. if ob_ref x = ref then mark_started stamp kind x else x"
  let ?g = "\<lambda>y. if op_ref y = ref \<and> op_kind y = kind then take_lease owner until y else y"
  from ok have unique: "rows_unique J" by (simp add: effects_ok_def journal_wf_def)
  have obls: "obligations ?J = map ?f (obligations J)"
    by (subst reserve_by_cases) (simp add: g update_obligation_def update_operation_def)
  have ops: "operations ?J = map ?g (operations (with_operation J ref kind hash))"
    by (subst reserve_by_cases) (simp add: g update_obligation_def update_operation_def)
  from g obtain x0 where x0: "find_obligation J ref = Some x0" "\<not> reservation_blocked now kind x0 J"
    by (auto simp: grantable_def split: option.splits)
  have free: "(kind = Collect \<longrightarrow> \<not> reclaim_active x) \<and> (kind = Reclaim \<longrightarrow> \<not> collection_active x)"
    if "x \<in> set (obligations J)" "ob_ref x = ref" for x
    using find_obligation_unique [OF unique x0(1) that] x0(2) by (auto simp: reservation_blocked_def)
  have excl: "\<not> (collection_active x \<and> reclaim_active x)" if "x \<in> set (obligations J)" for x
    using ok that by (simp add: effects_ok_def effects_exclusive_def)
  have "effects_exclusive ?J"
    unfolding effects_exclusive_def obls
  proof (intro ballI)
    fix z assume "z \<in> set (map ?f (obligations J))"
    then obtain x where x: "x \<in> set (obligations J)" "z = ?f x" by auto
    show "\<not> (collection_active z \<and> reclaim_active z)"
    proof (cases "ob_ref x = ref")
      case True
      with x have z: "z = mark_started stamp kind x" by simp
      show ?thesis
      proof (cases "kind = Collect \<or> kind = Reclaim")
        case False
        with excl [OF x(1)] mark_started_effects(1,2) [where kind = kind and x = x and stamp = stamp] show ?thesis
          by (simp add: z collection_active_def reclaim_active_def)
      next
        case kind: True
        with free [OF x(1) True] mark_started_effects(1,2) [where kind = kind and x = x and stamp = stamp] show ?thesis
          by (auto simp: z collection_active_def reclaim_active_def)
      qed
    next
      case False
      with x excl show ?thesis by simp
    qed
  qed
  moreover have "effects_marked ?J"
    unfolding effects_marked_def obls ops
  proof (intro ballI impI, elim conjE)
    fix z y' assume "z \<in> set (map ?f (obligations J))" "y' \<in> set (map ?g (operations (with_operation J ref kind hash)))"
      and y': "op_ref y' = ob_ref z" "op_state y' = Op_In_Progress"
    then obtain x y where x: "x \<in> set (obligations J)" "z = ?f x" and y: "y \<in> set (operations (with_operation J ref kind hash))" "y' = ?g y"
      by auto
    have refz: "ob_ref z = ob_ref x" by (simp add: x(2))
    show "(op_kind y' = Collect \<longrightarrow> collection_active z) \<and> (op_kind y' = Reclaim \<longrightarrow> reclaim_active z)"
    proof (cases "op_ref y = ref \<and> op_kind y = kind")
      case True
      then have "ob_ref x = ref" "op_kind y' = kind" using y(2) y'(1) refz by (auto simp: take_lease_def)
      with free [OF x(1)] x(2) mark_started_effects(5,6) [where stamp = stamp] show ?thesis by auto
    next
      case False
      then have "y' = y" using y(2) by auto
      moreover have "y \<in> set (operations J)"
        using y(1) False by (auto simp: with_operation_def new_operation_def split: option.splits)
      ultimately have "(op_kind y' = Collect \<longrightarrow> collection_active x) \<and> (op_kind y' = Reclaim \<longrightarrow> reclaim_active x)"
        using ok x(1) y' refz by (simp add: effects_ok_def effects_marked_def)
      with mark_started_effects(3,4) [where x = x and stamp = stamp and kind = kind] show ?thesis by (auto simp: x(2))
    qed
  qed
  ultimately show ?thesis ..
qed

lemma finish_obligation_effects:
  "kind \<notin> {Status, Collect} \<Longrightarrow> ob_collection (finish_obligation stamp kind v x) = ob_collection x"
  "kind \<notin> {Status, Reclaim} \<Longrightarrow> ob_reclaim (finish_obligation stamp kind v x) = ob_reclaim x"
  "ob_collection (finish_obligation stamp Status v x) = (if fv_status v = Some Escrow_Collected then Eff_Succeeded else ob_collection x)"
  "ob_reclaim (finish_obligation stamp Status v x) = (if fv_status v = Some Escrow_Reclaimed then Eff_Succeeded else ob_reclaim x)"
  by (auto simp: finish_obligation_def row_defs split: operation_kind.split)

lemma finish_effects:
  assumes ok: "effects_ok J" and honest: "honest_write (Finish stamp ref kind owner v) J"
    and g: "fv_state v \<noteq> Op_In_Progress" "held_operation J ref kind owner = Some h" "\<not> finish_collides ref kind v J"
  shows "effects_exclusive (fst (finish_settlement_operation stamp ref kind owner v J)) \<and>
    effects_marked (fst (finish_settlement_operation stamp ref kind owner v J))"
proof -
  let ?J = "fst (finish_settlement_operation stamp ref kind owner v J)"
  let ?f = "\<lambda>x. if ob_ref x = ref then finish_obligation stamp kind v x else x"
  let ?g = "\<lambda>y. if op_ref y = ref \<and> op_kind y = kind then finish_row v y else y"
  have obls: "obligations ?J = map ?f (obligations J)" and ops: "operations ?J = map ?g (operations J)"
    using g by (simp_all add: finish_settlement_operation_def update_obligation_def update_operation_def)
  have excl: "\<not> (collection_active x \<and> reclaim_active x)" if "x \<in> set (obligations J)" for x
    using ok that by (simp add: effects_ok_def effects_exclusive_def)
  have h: "h \<in> set (operations J)" "op_ref h = ref" "op_kind h = kind" "op_state h = Op_In_Progress"
    using held_operation_SomeD [OF g(2)] by (auto simp: held_row_def dest: find_operation_SomeD)
  have own: "(kind = Collect \<longrightarrow> collection_active x) \<and> (kind = Reclaim \<longrightarrow> reclaim_active x)" if "x \<in> set (obligations J)" "ob_ref x = ref" for x
    using ok that h by (auto simp: effects_ok_def effects_marked_def)
  have report: "(kind = Status \<longrightarrow> (fv_status v = Some Escrow_Collected \<longrightarrow> \<not> reclaim_active x) \<and>
      (fv_status v = Some Escrow_Reclaimed \<longrightarrow> \<not> collection_active x))" if "x \<in> set (obligations J)" "ob_ref x = ref" for x
    using honest that by (auto simp: honest_write_def)
  have "effects_exclusive ?J"
    unfolding effects_exclusive_def obls
  proof (intro ballI)
    fix z assume "z \<in> set (map ?f (obligations J))"
    then obtain x where x: "x \<in> set (obligations J)" "z = ?f x" by auto
    show "\<not> (collection_active z \<and> reclaim_active z)"
    proof (cases "ob_ref x = ref")
      case True
      note facts = excl [OF x(1)] own [OF x(1) True] report [OF x(1) True] finish_obligation_effects(1,2) [where kind = kind and stamp = stamp and v = v and x = x] finish_obligation_effects(3,4) [where stamp = stamp and v = v and x = x]
      show ?thesis
        by (cases "kind \<in> {Status, Collect, Reclaim}") (use True x(2) facts in \<open>auto simp: collection_active_def reclaim_active_def split: if_splits\<close>)
    next
      case False
      with x excl show ?thesis by simp
    qed
  qed
  moreover have "effects_marked ?J"
    unfolding effects_marked_def obls ops
  proof (intro ballI impI, elim conjE)
    fix z y' assume "z \<in> set (map ?f (obligations J))" "y' \<in> set (map ?g (operations J))"
      and y': "op_ref y' = ob_ref z" "op_state y' = Op_In_Progress"
    then obtain x y where x: "x \<in> set (obligations J)" "z = ?f x" and y: "y \<in> set (operations J)" "y' = ?g y"
      by auto
    have refz: "ob_ref z = ob_ref x" by (simp add: x(2))
    have other: "\<not> (op_ref y = ref \<and> op_kind y = kind)" using y'(2) y(2) g(1) by (auto simp: finish_row_def)
    then have "y' = y" using y(2) by auto
    with ok x(1) y(1) y' refz have marked: "(op_kind y' = Collect \<longrightarrow> collection_active x) \<and> (op_kind y' = Reclaim \<longrightarrow> reclaim_active x)"
      by (simp add: effects_ok_def effects_marked_def)
    show "(op_kind y' = Collect \<longrightarrow> collection_active z) \<and> (op_kind y' = Reclaim \<longrightarrow> reclaim_active z)"
    proof (cases "ob_ref x = ref")
      case True
      then have "op_kind y' \<noteq> kind" using other \<open>y' = y\<close> y'(1) refz by simp
      with marked True x(2) finish_obligation_effects(1,2) [where kind = kind and stamp = stamp and v = v and x = x] finish_obligation_effects(3,4) [where stamp = stamp and v = v and x = x] show ?thesis
        by (cases "kind = Status") (auto simp: collection_active_def reclaim_active_def split: if_splits)
    next
      case False
      with marked x(2) show ?thesis by simp
    qed
  qed
  ultimately show ?thesis ..
qed

lemma honest_write_keeps:
  assumes ok: "effects_ok J" and honest: "honest_write p J"
  shows "effects_ok (exec_op E p J)"
proof -
  from ok have wf: "journal_wf J" and unique: "rows_unique J" by (simp_all add: effects_ok_def journal_wf_def)
  from honest have "consistent_rows p J" by (simp add: honest_write_def)
  with wf have "journal_wf (exec_op E p J)" by (rule exec_keeps_wf)
  moreover have "effects_exclusive (exec_op E p J) \<and> effects_marked (exec_op E p J)"
  proof (cases "effect_write p")
    case False
    from ok this honest exec_shaped [OF unique] show ?thesis by (rule other_write_effects)
  next
    case True
    then show ?thesis
    proof (cases p rule: effect_write.cases)
      case (1 stamp ref kind hash owner now until)
      then show ?thesis
        using reserve_effects [OF ok] ok not_granted [of ref kind hash owner now until J stamp]
        by (cases "grantable ref kind hash owner now until J") (simp_all add: effects_ok_def)
    next
      case (2 stamp ref kind owner v)
      show ?thesis
      proof (cases "fv_state v = Op_In_Progress \<or> held_operation J ref kind owner = None \<or> finish_collides ref kind v J")
        case True
        then have "exec_op E p J = J" unfolding 2 by (auto simp: finish_settlement_operation_def split: option.split)
        with ok show ?thesis by (simp add: effects_ok_def)
      next
        case False
        then obtain h where "held_operation J ref kind owner = Some h" by auto
        with False honest finish_effects [OF ok, of stamp ref kind owner v h] show ?thesis unfolding 2 by simp
      qed
    qed simp_all
  qed
  ultimately show ?thesis by (simp add: effects_ok_def)
qed

interpretation effects: op_machine "exec_op E" honest_write effects_ok "\<lambda>_ _. True" for E
  by unfold_locales (auto intro: honest_write_keeps)

section \<open>An effect that has succeeded is final\<close>

definition effect_column :: "operation_kind \<Rightarrow> obligation_row \<Rightarrow> effect_state" where
  "effect_column kind x = (if kind = Collect then ob_collection x else ob_reclaim x)"

text \<open>The operation is finished and its column says so.\<close>

definition effect_settled :: "string \<Rightarrow> operation_kind \<Rightarrow> journal \<Rightarrow> bool" where
  "effect_settled ref kind J = (journal_wf J \<and> (\<exists>x \<in> set (obligations J). ob_ref x = ref \<and> effect_column kind x = Eff_Succeeded) \<and>
     (\<exists>y \<in> set (operations J). op_ref y = ref \<and> op_kind y = kind \<and> op_state y = Op_Succeeded))"

definition column_write :: "string \<Rightarrow> operation_kind \<Rightarrow> journal_op \<Rightarrow> journal \<Rightarrow> bool" where
  "column_write ref kind p J = (consistent_rows p J \<and> (case p of
     Save_Obligation _ row _ \<Rightarrow> ob_ref row = ref \<longrightarrow> effect_column kind row = Eff_Succeeded
   | _ \<Rightarrow> True))"

lemma settled_not_grantable:
  assumes "effect_settled ref kind J"
  shows "\<not> grantable ref kind hash owner now until J" and "held_operation J ref kind owner = None"
proof -
  from assms obtain y where "rows_unique J" "y \<in> set (operations J)" "op_ref y = ref" "op_kind y = kind" "op_state y = Op_Succeeded"
    by (auto simp: effect_settled_def journal_wf_def)
  with in_operations_find [of J y] have "find_operation J ref kind = Some y" "op_state y = Op_Succeeded" by auto
  then show "\<not> grantable ref kind hash owner now until J" "held_operation J ref kind owner = None"
    by (auto simp: grantable_def stored_operation_def held_operation_def Let_def)
qed

lemma settled_column_step:
  assumes J: "effect_settled ref kind J" and kind: "kind \<in> {Collect, Reclaim}" and p: "column_write ref kind p J"
    and step: "obligation_step J p x z" and x: "ob_ref x = ref" "effect_column kind x = Eff_Succeeded"
  shows "effect_column kind z = Eff_Succeeded"
  using step
proof (cases rule: obligation_step.cases)
  case (started ref' now kind' hash owner until stamp)
  with settled_not_grantable(1) [OF J] x have "kind' \<noteq> kind" by auto
  with started x kind mark_started_effects(1,2) [where x = x and stamp = stamp and kind = kind'] show ?thesis
    by (auto simp: effect_column_def)
next
  case (ended ref' kind' owner v stamp)
  with settled_not_grantable(2) [OF J] x have "kind' \<noteq> kind" by auto
  with ended x kind finish_obligation_effects(1,2) [where x = x and stamp = stamp and kind = kind' and v = v]
    finish_obligation_effects(3,4) [where x = x and stamp = stamp and v = v] show ?thesis
    by (cases "kind' = Status") (auto simp: effect_column_def)
qed (use p x in \<open>auto simp: column_write_def effect_column_def saved_row_def touch_def\<close>)

lemma column_write_keeps:
  assumes kind: "kind \<in> {Collect, Reclaim}" and J: "effect_settled ref kind J" and p: "column_write ref kind p J"
  shows "effect_settled ref kind (exec_op E p J)"
proof -
  from J have wf: "journal_wf J" by (simp add: effect_settled_def)
  then have s: "shaped J p (exec_op E p J)" by (auto simp: journal_wf_def intro: exec_shaped)
  from J obtain x y where x: "x \<in> set (obligations J)" "ob_ref x = ref" "effect_column kind x = Eff_Succeeded"
    and y: "y \<in> set (operations J)" "op_ref y = ref" "op_kind y = kind" "op_state y = Op_Succeeded"
    by (auto simp: effect_settled_def)
  from s x(1) obtain z where z: "z \<in> set (obligations (exec_op E p J))" "obligation_step J p x z" by (rule shaped_obligationE)
  have col: "effect_column kind z = Eff_Succeeded" by (rule settled_column_step [OF J kind p z(2) x(2,3)])
  have ref: "ob_ref z = ref" using z(2) x(2) by (simp add: obligation_step_ref)
  from shaped_moves [OF s] y(1) obtain w where w: "w \<in> set (operations (exec_op E p J))" "operation_moves y w"
    by (auto simp: journal_moves_def)
  with y have "w = y" by (simp add: operation_moves_def)
  from p have "consistent_rows p J" by (simp add: column_write_def)
  with wf have "journal_wf (exec_op E p J)" by (rule exec_keeps_wf)
  with z(1) ref col w(1) \<open>w = y\<close> y show ?thesis by (auto simp: effect_settled_def)
qed

interpretation collected: op_machine "exec_op E" "column_write ref Collect" "effect_settled ref Collect" "\<lambda>_ _. True" for E ref
  by unfold_locales (auto intro: column_write_keeps)

interpretation reclaimed: op_machine "exec_op E" "column_write ref Reclaim" "effect_settled ref Reclaim" "\<lambda>_ _. True" for E ref
  by unfold_locales (auto intro: column_write_keeps)

text \<open>Neither effect of a settled obligation is leased again.\<close>

lemma settled_blocks:
  assumes kinds: "kind \<in> {Collect, Reclaim}" "other \<in> {Collect, Reclaim}" and J: "effect_settled ref kind J"
  shows "\<not> grantable ref other hash owner now until J"
proof (cases "other = kind")
  case True
  then show ?thesis using settled_not_grantable(1) [OF J] by simp
next
  case False
  from J obtain x where x: "x \<in> set (obligations J)" "ob_ref x = ref" "effect_column kind x = Eff_Succeeded" and "rows_unique J"
    by (auto simp: effect_settled_def journal_wf_def)
  with in_obligations_find have "find_obligation J ref = Some x" by auto
  with False kinds x(3) show ?thesis
    by (auto simp: grantable_def reservation_blocked_def effect_column_def collection_active_def reclaim_active_def)
qed

lemma finish_settles:
  assumes ok: "effects_ok J" and kind: "kind \<in> {Collect, Reclaim}" and state: "fv_state v = Op_Succeeded"
    and run: "finish_settlement_operation stamp ref kind owner v J = (J', Return True)"
  shows "effect_settled ref kind J'"
proof -
  from run state obtain h where h: "held_operation J ref kind owner = Some h"
    by (auto simp: finish_settlement_operation_def split: option.splits if_splits)
  have free: "\<not> finish_collides ref kind v J" using kind by (auto simp: finish_collides_def)
  have J': "J' = update_obligation ref (finish_obligation stamp kind v) (update_operation ref kind (finish_row v) J)"
    using run state h free by (simp add: finish_settlement_operation_def)
  from ok have wf: "journal_wf J" by (simp add: effects_ok_def)
  have "J' = exec_op undefined (Finish stamp ref kind owner v) J" using run by simp
  with exec_keeps_wf [OF wf, of "Finish stamp ref kind owner v" undefined] have wf': "journal_wf J'" by (simp add: consistent_rows_def)
  have hh: "h \<in> set (operations J)" "op_ref h = ref" "op_kind h = kind" "op_state h = Op_In_Progress"
    using held_operation_SomeD [OF h] by (auto simp: held_row_def dest: find_operation_SomeD)
  with wf obtain x where x: "x \<in> set (obligations J)" "ob_ref x = ref" by (auto simp: journal_wf_def)
  from ok x hh have "(kind = Collect \<longrightarrow> \<not> reclaim_active x) \<and> (kind = Reclaim \<longrightarrow> \<not> collection_active x)"
    by (auto simp: effects_ok_def effects_marked_def effects_exclusive_def)
  then have col: "effect_column kind (finish_obligation stamp kind v x) = Eff_Succeeded"
    using kind state by (auto simp: effect_column_def finish_obligation_def finish_collect_def finish_reclaim_def effect_outcome_def
      collection_active_def reclaim_active_def)
  have "finish_obligation stamp kind v x \<in> set (obligations J')"
    using x by (force simp: J' update_obligation_def update_operation_def)
  moreover have "finish_row v h \<in> set (operations J')"
    using hh by (force simp: J' update_obligation_def update_operation_def)
  moreover have "op_ref (finish_row v h) = ref" "op_kind (finish_row v h) = kind" "op_state (finish_row v h) = Op_Succeeded"
    using hh state by (simp_all add: finish_row_def)
  moreover have "ob_ref (finish_obligation stamp kind v x) = ref" using x by simp
  ultimately show ?thesis using wf' col unfolding effect_settled_def by blast
qed

section \<open>What a fulfillment recorded\<close>

text \<open>The named receipt fields of the operation hold these values.\<close>

definition evidence :: "string \<Rightarrow> operation_kind \<Rightarrow> string \<Rightarrow> pyval \<Rightarrow> string \<Rightarrow> pyval \<Rightarrow> journal \<Rightarrow> bool" where
  "evidence ref kind key value mark marked J = (journal_wf J \<and> (\<exists>y \<in> set (operations J). op_ref y = ref \<and> op_kind y = kind \<and>
     map_of (receipt_of y) key = Some value \<and> map_of (receipt_of y) mark = Some marked))"

text \<open>No write replaces the receipt as a whole, and none withdraws a field but under the recorded mark.\<close>

definition evidence_write :: "string \<Rightarrow> operation_kind \<Rightarrow> string \<Rightarrow> string \<Rightarrow> journal_op \<Rightarrow> journal \<Rightarrow> bool" where
  "evidence_write ref kind key mark p J = (consistent_rows p J \<and> (case p of
     Finish _ r k _ v \<Rightarrow> r = ref \<and> k = kind \<longrightarrow> fv_receipt v = None
   | Clear_Field r k _ field unless \<Rightarrow> r = ref \<and> k = kind \<longrightarrow> field \<notin> {key, mark} \<or> unless = mark
   | _ \<Rightarrow> True))"

lemma receipt_cleared: "receipt_of (cleared_row key y) = AList.delete key (receipt_of y)"
  by (simp add: cleared_row_def receipt_of_def Let_def split: option.split)

lemma evidence_step:
  assumes "operation_step p y z" and "evidence_write ref kind key mark p J" and "op_ref y = ref" "op_kind y = kind"
    and "map_of (receipt_of y) key = Some value" "map_of (receipt_of y) mark = Some marked"
  shows "map_of (receipt_of z) key = Some value \<and> map_of (receipt_of z) mark = Some marked"
  using assms(1)
proof (cases rule: operation_step.cases)
  case (cleared ref' kind' owner unless field)
  with assms have "field \<notin> {key, mark}"
    by (auto simp: evidence_write_def held_row_def has_key_iff dest!: map_of_SomeD intro: rev_image_eqI)
  with assms show ?thesis by (auto simp: cleared(2) receipt_cleared delete_conv)
qed (use assms in \<open>auto simp: take_lease_def written_row_def finish_row_def awaiting_row_def retry_row_def receipt_of_def coalesce_def
    evidence_write_def held_row_def split: option.splits\<close>)

lemma evidence_kept:
  assumes J: "evidence ref kind key value mark marked J" and p: "evidence_write ref kind key mark p J"
  shows "evidence ref kind key value mark marked (exec_op E p J)"
proof -
  from J obtain y where wf: "journal_wf J" and y: "y \<in> set (operations J)" "op_ref y = ref" "op_kind y = kind"
    "map_of (receipt_of y) key = Some value" "map_of (receipt_of y) mark = Some marked"
    by (auto simp: evidence_def)
  then have s: "shaped J p (exec_op E p J)" by (auto simp: journal_wf_def intro: exec_shaped)
  from s y(1) obtain z where z: "z \<in> set (operations (exec_op E p J))" "operation_step p y z" by (rule shaped_operationE)
  from operation_step_moves [OF z(2)] y have "op_ref z = ref" "op_kind z = kind" by (auto simp: operation_moves_def)
  moreover from p have "consistent_rows p J" by (simp add: evidence_write_def)
  moreover note evidence_step [OF z(2) p y(2-5)]
  ultimately show ?thesis using z(1) exec_keeps_wf [OF wf] unfolding evidence_def by blast
qed

interpretation evidence: op_machine "exec_op E" "evidence_write ref kind key mark" "evidence ref kind key held mark marked" "\<lambda>_ _. True"
  for E ref kind key mark held marked
  by unfold_locales (auto intro: evidence_kept)

end
