(* ===== verification/Settlement_Runtime.thy ===== *)
theory Settlement_Runtime
  imports Settlement_Effects
begin

text \<open>
  \<open>SettlementRuntime\<close> of \<open>src/kit/settlement-runtime/src/market_settlement_runtime/runtime.py\<close>, one
  definition per method.  A method reads the journal, reserves an operation, calls the
  mechanism's client and writes the outcome; the client is a parameter.  \<open>ticks\<close> are the clock
  readings of one call: the runtime's clock and the stamps of its first and its last write.
\<close>

section \<open>Methods that may raise and change the journal\<close>

type_synonym 'a journal_method = "journal \<Rightarrow> journal \<times> (settle_error, 'a) result"

definition sbind :: "'a journal_method \<Rightarrow> ('a \<Rightarrow> 'b journal_method) \<Rightarrow> 'b journal_method" where
  "sbind m f J = (case m J of (J', r) \<Rightarrow> (case r of Inl e \<Rightarrow> (J', Inl e) | Inr x \<Rightarrow> f x J'))"

definition sreturn :: "'a \<Rightarrow> 'a journal_method" where
  "sreturn x J = (J, Return x)"

definition slift :: "(settle_error, 'a) result \<Rightarrow> 'a journal_method" where
  "slift r J = (J, r)"

definition sread :: "(journal \<Rightarrow> (settle_error, 'a) result) \<Rightarrow> 'a journal_method" where
  "sread f J = (J, f J)"

section \<open>Clients, clocks and outcomes\<close>

datatype 'a reply = Answered 'a | Needs_Operator string string | Failed string string

datatype materialization_status = Mech_Requires_Action | Mech_Pending | Mech_Ready | Mech_Manual

fun materialization_escrow :: "materialization_status \<Rightarrow> escrow_status" where
  "materialization_escrow Mech_Requires_Action = Requires_Action"
| "materialization_escrow Mech_Pending = Escrow_Pending"
| "materialization_escrow Mech_Ready = Escrow_Ready"
| "materialization_escrow Mech_Manual = Escrow_Manual"

record 's mechanism_report =
  mr_mechanism :: string
  mr_status :: 's
  mr_action :: "dict option"
  mr_anchor :: "string option"
  mr_receipt :: "dict option"
  mr_state :: dict
  mr_error :: "string option"

record condition_report =
  cr_decision :: condition_state
  cr_receipt :: "dict option"
  cr_state :: dict
  cr_error :: "string option"

record effect_report =
  er_receipt :: dict
  er_state :: dict

record escrow_client =
  c_materialize :: "dict \<Rightarrow> string \<Rightarrow> materialization_status mechanism_report reply"
  c_status :: "dict \<Rightarrow> string \<Rightarrow> string \<Rightarrow> dict \<Rightarrow> escrow_status mechanism_report reply"
  c_check :: "dict \<Rightarrow> string \<Rightarrow> string \<Rightarrow> string \<Rightarrow> dict \<Rightarrow> condition_report reply"
  c_collect :: "dict \<Rightarrow> string \<Rightarrow> string \<Rightarrow> string \<Rightarrow> dict \<Rightarrow> effect_report reply"
  c_reclaim :: "dict \<Rightarrow> string \<Rightarrow> string \<Rightarrow> dict \<Rightarrow> dict \<Rightarrow> effect_report reply"

record runtime =
  rt_env :: settle_env
  rt_clients :: "(string \<times> escrow_client) list"
  rt_lease :: rat
  rt_fulfillment_lease :: rat

definition new_runtime :: "settle_env \<Rightarrow> (string \<times> escrow_client) list \<Rightarrow> rat \<Rightarrow> rat option \<Rightarrow> (settle_error, runtime) result" where
  "new_runtime E clients lease fulfillment_lease =
     (if lease \<le> 0 then Raise (Refused_Value ''lease_seconds'')
      else if (case fulfillment_lease of None \<Rightarrow> False | Some f \<Rightarrow> f \<le> 0) then Raise (Refused_Value ''fulfillment_lease_seconds'')
      else Return \<lparr>rt_env = E, rt_clients = clients, rt_lease = lease,
        rt_fulfillment_lease = (case fulfillment_lease of None \<Rightarrow> lease | Some f \<Rightarrow> f)\<rparr>)"

record ticks =
  tk_now :: rat
  tk_first :: string
  tk_last :: string

datatype outcome_status = Done_Succeeded | Done_Pending | Done_Manual | Done_Busy | Done_Terminal

record operation_outcome =
  oc_ref :: string
  oc_kind :: operation_kind
  oc_status :: outcome_status
  oc_receipt :: "dict option"
  oc_action :: "dict option"
  oc_attempts :: "int option"

definition outcome_of :: "obligation_row \<Rightarrow> operation_kind \<Rightarrow> outcome_status \<Rightarrow> dict option \<Rightarrow> operation_outcome" where
  "outcome_of record kind status receipt = \<lparr>oc_ref = ob_ref record, oc_kind = kind, oc_status = status, oc_receipt = receipt,
     oc_action = None, oc_attempts = None\<rparr>"

section \<open>Guards\<close>

fun kind_text :: "operation_kind \<Rightarrow> string" where
  "kind_text Materialize = ''materialize''"
| "kind_text Status = ''status''"
| "kind_text Fulfill = ''fulfill''"
| "kind_text Cleanup = ''cleanup''"
| "kind_text Check = ''check''"
| "kind_text Collect = ''collect''"
| "kind_text Reclaim = ''reclaim''"

text \<open>\<open>_load\<close>\<close>

definition load_record :: "string \<Rightarrow> obligation_row journal_method" where
  "load_record ref = sread (\<lambda>J. case find_obligation J ref of None \<Rightarrow> Raise (Unknown_Obligation ref) | Some x \<Rightarrow> bind_principals x)"

definition require_participant :: "obligation_row \<Rightarrow> principal \<Rightarrow> (settle_error, unit) result" where
  "require_participant x p = (if p \<noteq> ob_payer x \<and> p \<noteq> ob_claimant x then Raise Not_Permitted else Return ())"

definition require_payer :: "obligation_row \<Rightarrow> principal \<Rightarrow> (settle_error, unit) result" where
  "require_payer x p = (if p \<noteq> ob_payer x then Raise Not_Permitted else Return ())"

definition require_claimant :: "obligation_row \<Rightarrow> principal \<Rightarrow> (settle_error, unit) result" where
  "require_claimant x p = (if p \<noteq> ob_claimant x then Raise Not_Permitted else Return ())"

text \<open>A column that holds a non-empty text.\<close>

definition given_text :: "string \<Rightarrow> string option \<Rightarrow> (settle_error, string) result" where
  "given_text what s = (case s of Some t \<Rightarrow> if t = [] then Raise (Refused_Value what) else Return t | None \<Rightarrow> Raise (Refused_Value what))"

definition require_mechanism_ref :: "obligation_row \<Rightarrow> (settle_error, string) result" where
  "require_mechanism_ref x = given_text ''mechanism_ref'' (ob_mechanism x)"

definition require_materialized :: "obligation_row \<Rightarrow> (settle_error, string) result" where
  "require_materialized x = (if ob_materialization x \<noteq> Materialized then Raise (Refused_Value ''not materialized'')
     else given_text ''not materialized'' (ob_mechanism x))"

definition require_fulfillment :: "obligation_row \<Rightarrow> (settle_error, string) result" where
  "require_fulfillment x = given_text ''fulfillment_ref'' (ob_fulfillment x)"

definition client_for :: "runtime \<Rightarrow> obligation_row \<Rightarrow> (settle_error, escrow_client) result" where
  "client_for R x = (let v = dict_get (ob_terms x) ''mechanism''; name = (if py_truthy v then py_str (se_repr (rt_env R)) v else []) in
     case map_of (rt_clients R) name of None \<Rightarrow> Raise (Refused_Value name) | Some c \<Rightarrow> Return c)"

section \<open>Requests\<close>

text \<open>Parameters bound after acceptance join the accepted ones and may not contradict them.\<close>

fun merge_params :: "dict \<Rightarrow> (pyval \<times> pyval) list \<Rightarrow> (string, (pyval \<times> pyval) list) result" where
  "merge_params [] params = Return params"
| "merge_params ((k, v) # rest) params =
     (if (case map_of params (PStr k) of None \<Rightarrow> False | Some w \<Rightarrow> \<not> py_eq w v)
      then Raise (''immutable mechanism parameter '' @ repr_str k @ '' conflicts with accepted terms'')
      else merge_params rest (dict_set (PStr k) v params))"

definition operation_obligation :: "obligation_row \<Rightarrow> (string, dict) result" where
  "operation_obligation x =
     (if ob_params x = [] then Return (ob_terms x)
      else (case dict_get (ob_terms x) ''params'' of
          PNone \<Rightarrow> res_bind (merge_params (ob_params x) []) (\<lambda>d. Return (dict_set ''params'' (PDict d) (ob_terms x)))
        | PDict d0 \<Rightarrow> res_bind (merge_params (ob_params x) d0) (\<lambda>d. Return (dict_set ''params'' (PDict d) (ob_terms x)))
        | _ \<Rightarrow> Raise ''settlement obligation params must be an object''))"

definition settlement_operation_ref :: "string \<Rightarrow> operation_kind \<Rightarrow> string" where
  "settlement_operation_ref ref kind = ''arkhai:settlement:'' @ ref @ '':'' @ kind_text kind"

definition operation_request_hash :: "settle_env \<Rightarrow> obligation_row \<Rightarrow> operation_kind \<Rightarrow> principal \<Rightarrow> dict \<Rightarrow> string" where
  "operation_request_hash E x kind p request =
     (let principal = (if kind = Status then obj [(''payer'', identity_json (ob_payer x)), (''claimant'', identity_json (ob_claimant x))]
          else identity_json p) in
      se_sha256 E (se_json E (obj [(''protocol'', PStr ''arkhai.settlement-operation.v2''), (''obligation_ref'', PStr (ob_ref x)),
        (''obligation_hash'', PStr (ob_hash x)), (''operation'', PStr (kind_text kind)), (''principal'', principal),
        (''request'', obj request), (''mechanism_params'', obj (ob_params x))])))"

text \<open>What a projection may show of a buyer action: its kind and its deadline.\<close>

definition safe_buyer_action :: "dict option \<Rightarrow> dict option" where
  "safe_buyer_action action = (case action of None \<Rightarrow> None | Some d \<Rightarrow>
     (let safe = filter (\<lambda>(k, v). v \<noteq> PNone)
          (List.map_filter (\<lambda>k. map_option (Pair k) (map_of d k)) [''kind'', ''expires_at_unix'']) in
      if safe = [] then None else Some safe))"

text \<open>A reservation: busy, already finished, or the leased row.\<close>

definition reserve_operation :: "runtime \<Rightarrow> ticks \<Rightarrow> obligation_row \<Rightarrow> operation_kind \<Rightarrow> string \<Rightarrow> principal \<Rightarrow> dict \<Rightarrow> operation_row option journal_method" where
  "reserve_operation R T x kind worker p request =
     reserve_settlement_operation (tk_first T) (ob_ref x) kind (operation_request_hash (rt_env R) x kind p request) worker (tk_now T)
       (se_float (rt_env R) (tk_now T + (if kind = Fulfill then rt_fulfillment_lease R else rt_lease R)))"

definition with_reservation ::
    "runtime \<Rightarrow> ticks \<Rightarrow> obligation_row \<Rightarrow> operation_kind \<Rightarrow> string \<Rightarrow> principal \<Rightarrow> dict \<Rightarrow> (operation_row \<Rightarrow> operation_outcome journal_method) \<Rightarrow> operation_outcome journal_method" where
  "with_reservation R T x kind worker p request act = sbind (reserve_operation R T x kind worker p request) (\<lambda>reserved. case reserved of
       None \<Rightarrow> sreturn (outcome_of x kind Done_Busy None)
     | Some y \<Rightarrow> (case op_state y of
           Op_Succeeded \<Rightarrow> sreturn (outcome_of x kind Done_Succeeded (op_receipt y))
         | Op_Manual \<Rightarrow> sreturn (outcome_of x kind Done_Manual (op_receipt y))
         | _ \<Rightarrow> act y))"

section \<open>Finishing\<close>

definition keep_parked_reason :: "obligation_row \<Rightarrow> dict option \<Rightarrow> bool \<Rightarrow> dict option" where
  "keep_parked_reason x mstate fulfillment_parked = (case mstate of None \<Rightarrow> None | Some d \<Rightarrow>
     if has_key d ''manual_reason'' then Some d
     else (let reason = dict_get (ob_mstate x) ''manual_reason'' in
       if \<not> (fulfillment_parked \<or> obligation_manual x) \<or> \<not> py_truthy reason then Some d
       else Some (dict_set ''manual_reason'' reason d)))"

definition fulfillment_parked :: "obligation_row \<Rightarrow> operation_kind \<Rightarrow> dict option \<Rightarrow> journal \<Rightarrow> bool" where
  "fulfillment_parked x kind mstate J =
     (kind \<noteq> Fulfill \<and> py_truthy (dict_get (ob_mstate x) ''manual_reason'') \<and>
      (case mstate of None \<Rightarrow> False | Some d \<Rightarrow> \<not> has_key d ''manual_reason'') \<and>
      (case find_operation J (ob_ref x) Fulfill of None \<Rightarrow> False | Some y \<Rightarrow> op_state y = Op_Manual))"

definition finish_op :: "ticks \<Rightarrow> obligation_row \<Rightarrow> operation_kind \<Rightarrow> string \<Rightarrow> finish_values \<Rightarrow> unit journal_method" where
  "finish_op T x kind worker v J =
     (let v' = v\<lparr>fv_mstate := keep_parked_reason x (fv_mstate v) (fulfillment_parked x kind (fv_mstate v) J)\<rparr> in
      case finish_settlement_operation (tk_last T) (ob_ref x) kind worker v' J of
        (J', Inl e) \<Rightarrow> (J', Raise e)
      | (J', Inr saved) \<Rightarrow> (J', if saved then Return () else Raise Lease_Lost))"

definition finish_retry :: "ticks \<Rightarrow> obligation_row \<Rightarrow> operation_kind \<Rightarrow> string \<Rightarrow> string \<Rightarrow> string \<Rightarrow> bool \<Rightarrow> unit journal_method" where
  "finish_retry T x kind worker name msg uncertain =
     finish_op T x kind worker ((finish_defaults Op_Pending)\<lparr>fv_error := Some (name @ '': '' @ msg), fv_uncertain := uncertain\<rparr>)"

definition finish_manual :: "ticks \<Rightarrow> obligation_row \<Rightarrow> operation_kind \<Rightarrow> string \<Rightarrow> string \<Rightarrow> string \<Rightarrow> operation_outcome journal_method" where
  "finish_manual T x kind worker msg code =
     sbind (finish_op T x kind worker ((finish_defaults Op_Manual)\<lparr>fv_error := Some msg,
         fv_mstate := (if code = [] then None else Some (dict_set ''manual_reason'' (PStr code) (ob_mstate x)))\<rparr>))
       (\<lambda>_. sreturn (outcome_of x kind Done_Manual None))"

text \<open>The three ways a client call ends; building the request is part of the call.\<close>

definition call_client :: "obligation_row \<Rightarrow> (dict \<Rightarrow> 'a reply) \<Rightarrow> 'a reply" where
  "call_client x call = (case operation_obligation x of Inl msg \<Rightarrow> Failed ''ValueError'' msg | Inr snapshot \<Rightarrow> call snapshot)"

definition settle_reply ::
    "ticks \<Rightarrow> obligation_row \<Rightarrow> operation_kind \<Rightarrow> string \<Rightarrow> bool \<Rightarrow> 'a reply \<Rightarrow> ('a \<Rightarrow> operation_outcome journal_method) \<Rightarrow> operation_outcome journal_method" where
  "settle_reply T x kind worker uncertain reply answered = (case reply of
     Needs_Operator msg code \<Rightarrow> finish_manual T x kind worker msg code
   | Failed name msg \<Rightarrow> sbind (finish_retry T x kind worker name msg uncertain) (\<lambda>_. slift (Raise (Adapter_Error (name @ '': '' @ msg))))
   | Answered a \<Rightarrow> answered a)"

fun outcome_done :: "operation_state \<Rightarrow> outcome_status" where
  "outcome_done Op_Succeeded = Done_Succeeded"
| "outcome_done Op_Manual = Done_Manual"
| "outcome_done _ = Done_Pending"

section \<open>Plans\<close>

text \<open>\<open>stamps i\<close> is the write stamp of the \<open>i\<close>-th obligation.\<close>

fun register_obligations :: "settle_env \<Rightarrow> (nat \<Rightarrow> string) \<Rightarrow> string \<Rightarrow> nat \<Rightarrow> dict list \<Rightarrow> obligation_row list journal_method" where
  "register_obligations E stamps agreement i [] = sreturn []"
| "register_obligations E stamps agreement i (terms # rest) =
     sbind (slift (from_obligation E agreement (int i) terms)) (\<lambda>row.
       sbind (upsert_settlement_obligation (stamps i) row) (\<lambda>stored.
         sbind (slift (bind_principals stored)) (\<lambda>x.
           sbind (register_obligations E stamps agreement (Suc i) rest) (\<lambda>xs. sreturn (x # xs)))))"

definition register_plan :: "runtime \<Rightarrow> (nat \<Rightarrow> string) \<Rightarrow> string \<Rightarrow> dict list \<Rightarrow> obligation_row list journal_method" where
  "register_plan R stamps agreement plan = register_obligations (rt_env R) stamps agreement 0 plan"

definition get_status :: "journal \<Rightarrow> string \<Rightarrow> (settle_error, plan_status \<times> obligation_row list) result" where
  "get_status J agreement = res_bind (res_map bind_principals (list_settlement_obligations J agreement))
     (\<lambda>os. Return (aggregate_settlement_status os, os))"

section \<open>Fulfillment\<close>

definition adopt ::
    "runtime \<Rightarrow> ticks \<Rightarrow> string \<Rightarrow> principal \<Rightarrow> string \<Rightarrow> dict option \<Rightarrow> string option \<Rightarrow> dict option \<Rightarrow> string \<Rightarrow> operation_outcome journal_method" where
  "adopt R T ref p mechanism receipt anchor mstate worker =
     (if mechanism = [] then slift (Raise (Refused_Value ''mechanism_ref'')) else
      sbind (load_record ref) (\<lambda>x.
      sbind (slift (require_participant x p)) (\<lambda>_.
      with_reservation R T x Materialize worker p [(''adopted_mechanism_ref'', PStr mechanism)] (\<lambda>_.
        sbind (finish_op T x Materialize worker ((finish_defaults Op_Succeeded)\<lparr>fv_receipt := receipt, fv_mechanism := Some mechanism,
            fv_status := Some Escrow_Ready, fv_mstate := Some (case mstate of None \<Rightarrow> [] | Some d \<Rightarrow> d), fv_anchor := anchor\<rparr>))
          (\<lambda>_. sreturn (outcome_of x Materialize Done_Succeeded receipt))))))"

definition bind_mechanism_params :: "runtime \<Rightarrow> ticks \<Rightarrow> string \<Rightarrow> dict \<Rightarrow> principal \<Rightarrow> obligation_row journal_method" where
  "bind_mechanism_params R T ref params p =
     sbind (load_record ref) (\<lambda>x.
     sbind (slift (require_payer x p)) (\<lambda>_.
     if params = [] then slift (Raise (Refused_Value ''mechanism_params'')) else
     sbind (bind_settlement_mechanism_params (rt_env R) (tk_first T) ref params) (\<lambda>row. slift (bind_principals row))))"

definition bind_fulfillment :: "ticks \<Rightarrow> string \<Rightarrow> string \<Rightarrow> principal \<Rightarrow> obligation_row journal_method" where
  "bind_fulfillment T ref fulfillment p =
     sbind (load_record ref) (\<lambda>x.
     sbind (slift (require_claimant x p)) (\<lambda>_.
     if fulfillment = [] then slift (Raise (Refused_Value ''fulfillment_ref'')) else
     sbind (bind_settlement_fulfillment (tk_first T) ref fulfillment) (\<lambda>row. slift (bind_principals row))))"

definition fulfillment_receipt :: "string \<Rightarrow> dict" where
  "fulfillment_receipt fulfillment = [(''fulfillment_ref'', PStr fulfillment)]"

definition reserve_fulfillment :: "runtime \<Rightarrow> ticks \<Rightarrow> string \<Rightarrow> principal \<Rightarrow> string \<Rightarrow> operation_outcome journal_method" where
  "reserve_fulfillment R T ref p worker =
     sbind (load_record ref) (\<lambda>x.
     sbind (slift (require_claimant x p)) (\<lambda>_.
     with_reservation R T x Fulfill worker p [] (\<lambda>reserved.
       case require_fulfillment x of
         Inr fulfillment \<Rightarrow>
           sbind (finish_op T x Fulfill worker ((finish_defaults Op_Succeeded)\<lparr>fv_receipt := Some (fulfillment_receipt fulfillment)\<rparr>))
             (\<lambda>_. sreturn (outcome_of x Fulfill Done_Succeeded (Some (fulfillment_receipt fulfillment))))
       | Inl _ \<Rightarrow> sreturn ((outcome_of x Fulfill Done_Pending (op_receipt reserved))\<lparr>oc_attempts := Some (op_attempts reserved)\<rparr>))))"

definition complete_fulfillment :: "ticks \<Rightarrow> string \<Rightarrow> string \<Rightarrow> principal \<Rightarrow> string \<Rightarrow> obligation_row journal_method" where
  "complete_fulfillment T ref fulfillment p worker =
     sbind (bind_fulfillment T ref fulfillment p) (\<lambda>x.
     sbind (finish_op T x Fulfill worker ((finish_defaults Op_Succeeded)\<lparr>fv_receipt := Some (fulfillment_receipt fulfillment)\<rparr>)) (\<lambda>_.
     load_record ref))"

definition claimed_record :: "string \<Rightarrow> principal \<Rightarrow> obligation_row journal_method" where
  "claimed_record ref p = sbind (load_record ref) (\<lambda>x. sbind (slift (require_claimant x p)) (\<lambda>_. sreturn x))"

definition defer_fulfillment :: "ticks \<Rightarrow> string \<Rightarrow> principal \<Rightarrow> string \<Rightarrow> unit journal_method" where
  "defer_fulfillment T ref p worker = sbind (claimed_record ref p) (\<lambda>x J.
     case mark_fulfillment_awaiting_delivery (ob_ref x) worker (tk_now T) J of (J', marked) \<Rightarrow>
       (J', if marked then Return () else Raise Lease_Lost))"

definition retry_fulfillment :: "ticks \<Rightarrow> string \<Rightarrow> string \<Rightarrow> string \<Rightarrow> principal \<Rightarrow> string \<Rightarrow> unit journal_method" where
  "retry_fulfillment T ref name msg p worker = sbind (claimed_record ref p) (\<lambda>x. finish_retry T x Fulfill worker name msg True)"

definition write_fulfillment_field :: "runtime \<Rightarrow> string \<Rightarrow> string \<Rightarrow> pyval \<Rightarrow> principal \<Rightarrow> string \<Rightarrow> unit journal_method" where
  "write_fulfillment_field R ref key value p worker = sbind (claimed_record ref p) (\<lambda>_ J.
     case write_operation_receipt_field (rt_env R) ref Fulfill worker key value True J of (J', res) \<Rightarrow>
       (J', case res of Write_Lost \<Rightarrow> Raise Lease_Lost | Conflict \<Rightarrow> Raise (Recorded_Otherwise key) | _ \<Rightarrow> Return ()))"

definition record_fulfillment_submission :: "runtime \<Rightarrow> string \<Rightarrow> dict \<Rightarrow> principal \<Rightarrow> string \<Rightarrow> unit journal_method" where
  "record_fulfillment_submission R ref submission p worker = write_fulfillment_field R ref ''submission'' (obj submission) p worker"

definition record_fulfillment_publication :: "runtime \<Rightarrow> string \<Rightarrow> string \<Rightarrow> principal \<Rightarrow> string \<Rightarrow> unit journal_method" where
  "record_fulfillment_publication R ref reference p worker =
     (if py_strip reference = [] then slift (Raise (Refused_Value ''reference''))
      else write_fulfillment_field R ref ''reference'' (PStr reference) p worker)"

definition clear_fulfillment_submission :: "string \<Rightarrow> principal \<Rightarrow> string \<Rightarrow> unit journal_method" where
  "clear_fulfillment_submission ref p worker = sbind (claimed_record ref p) (\<lambda>_ J.
     case clear_operation_receipt_field ref Fulfill worker ''submission'' ''reference'' J of (J', res) \<Rightarrow>
       (J', case res of Clear_Lost \<Rightarrow> Raise Lease_Lost | Clear_Refused \<Rightarrow> Raise (Recorded_Otherwise ''reference'') | Cleared \<Rightarrow> Return ()))"

definition park_fulfillment :: "ticks \<Rightarrow> string \<Rightarrow> string \<Rightarrow> string \<Rightarrow> principal \<Rightarrow> string \<Rightarrow> operation_outcome journal_method" where
  "park_fulfillment T ref msg code p worker = sbind (claimed_record ref p) (\<lambda>x. finish_manual T x Fulfill worker msg code)"

section \<open>Cleanup\<close>

definition reserve_cleanup :: "runtime \<Rightarrow> ticks \<Rightarrow> string \<Rightarrow> principal \<Rightarrow> string \<Rightarrow> operation_outcome journal_method" where
  "reserve_cleanup R T ref p worker = sbind (claimed_record ref p) (\<lambda>x.
     sbind (slift (require_fulfillment x)) (\<lambda>_.
     with_reservation R T x Cleanup worker p [] (\<lambda>_. sreturn (outcome_of x Cleanup Done_Pending None))))"

definition complete_cleanup :: "ticks \<Rightarrow> string \<Rightarrow> principal \<Rightarrow> string \<Rightarrow> operation_outcome journal_method" where
  "complete_cleanup T ref p worker = sbind (claimed_record ref p) (\<lambda>x.
     let receipt = [(''cleanup'', PStr ''complete'')] in
     sbind (finish_op T x Cleanup worker ((finish_defaults Op_Succeeded)\<lparr>fv_receipt := Some receipt\<rparr>))
       (\<lambda>_. sreturn (outcome_of x Cleanup Done_Succeeded (Some receipt))))"

definition retry_cleanup :: "ticks \<Rightarrow> string \<Rightarrow> string \<Rightarrow> string \<Rightarrow> principal \<Rightarrow> string \<Rightarrow> unit journal_method" where
  "retry_cleanup T ref name msg p worker = sbind (claimed_record ref p) (\<lambda>x. finish_retry T x Cleanup worker name msg False)"

section \<open>Dispatched operations\<close>

definition report_values :: "operation_state \<Rightarrow> escrow_status \<Rightarrow> 's mechanism_report \<Rightarrow> finish_values" where
  "report_values state status r = (finish_defaults state)\<lparr>fv_receipt := mr_receipt r, fv_error := mr_error r, fv_mechanism := Some (mr_mechanism r),
     fv_status := Some status, fv_mstate := Some (mr_state r), fv_action := safe_buyer_action (mr_action r), fv_anchor := mr_anchor r\<rparr>"

definition materialize :: "runtime \<Rightarrow> ticks \<Rightarrow> string \<Rightarrow> principal \<Rightarrow> string \<Rightarrow> operation_outcome journal_method" where
  "materialize R T ref p worker = sbind (load_record ref) (\<lambda>x.
     sbind (slift (require_payer x p)) (\<lambda>_.
     sbind (slift (client_for R x)) (\<lambda>client.
     with_reservation R T x Materialize worker p [] (\<lambda>_.
     settle_reply T x Materialize worker True
       (call_client x (\<lambda>d. c_materialize client d (settlement_operation_ref (ob_ref x) Materialize)))
       (\<lambda>r. let state = (case mr_status r of Mech_Manual \<Rightarrow> Op_Manual | Mech_Ready \<Rightarrow> Op_Succeeded | _ \<Rightarrow> Op_Pending) in
         sbind (finish_op T x Materialize worker (report_values state (materialization_escrow (mr_status r)) r))
           (\<lambda>_. sreturn ((outcome_of x Materialize (outcome_done state) (mr_receipt r))\<lparr>oc_action := mr_action r\<rparr>)))))))"

definition monitored_state :: "dict \<Rightarrow> bool" where
  "monitored_state d = py_truthy (dict_get d ''terminal_risk_monitoring'')"

definition status_outcome :: "escrow_status mechanism_report \<Rightarrow> operation_state" where
  "status_outcome r =
     (if mr_status r = Escrow_Manual then Op_Manual
      else if mr_status r \<in> {Escrow_Reclaimed, Escrow_Expired, Escrow_Failed} \<or>
         (mr_status r = Escrow_Collected \<and> \<not> monitored_state (mr_state r)) then Op_Succeeded
      else Op_Pending)"

definition reconcile_status :: "runtime \<Rightarrow> ticks \<Rightarrow> string \<Rightarrow> principal \<Rightarrow> string \<Rightarrow> operation_outcome journal_method" where
  "reconcile_status R T ref p worker = sbind (load_record ref) (\<lambda>x.
     sbind (slift (require_participant x p)) (\<lambda>_.
     if ob_collection x = Eff_Succeeded \<and> \<not> monitored_state (ob_mstate x)
     then sreturn (outcome_of x Status Done_Terminal (ob_collection_receipt x))
     else if ob_reclaim x = Eff_Succeeded then sreturn (outcome_of x Status Done_Terminal (ob_reclaim_receipt x))
     else
     sbind (slift (require_mechanism_ref x)) (\<lambda>mechanism.
     sbind (slift (client_for R x)) (\<lambda>client.
     with_reservation R T x Status worker p [] (\<lambda>_.
     settle_reply T x Status worker False
       (call_client x (\<lambda>d. c_status client d mechanism (settlement_operation_ref (ob_ref x) Status) (ob_mstate x)))
       (\<lambda>r. sbind (finish_op T x Status worker (report_values (status_outcome r) (mr_status r) r))
           (\<lambda>_. sreturn ((outcome_of x Status (outcome_done (status_outcome r)) (mr_receipt r))\<lparr>oc_action := mr_action r\<rparr>))))))))"

definition check_outcome :: "condition_state \<Rightarrow> operation_state" where
  "check_outcome d = (case d of Cond_Pending \<Rightarrow> Op_Pending | Cond_Manual \<Rightarrow> Op_Manual | _ \<Rightarrow> Op_Succeeded)"

definition check :: "runtime \<Rightarrow> ticks \<Rightarrow> string \<Rightarrow> principal \<Rightarrow> string \<Rightarrow> operation_outcome journal_method" where
  "check R T ref p worker = sbind (claimed_record ref p) (\<lambda>x.
     sbind (slift (require_materialized x)) (\<lambda>mechanism.
     sbind (slift (require_fulfillment x)) (\<lambda>fulfillment.
     sbind (slift (client_for R x)) (\<lambda>client.
     with_reservation R T x Check worker p [(''fulfillment_ref'', PStr fulfillment)] (\<lambda>_.
     settle_reply T x Check worker False
       (call_client x (\<lambda>d. c_check client d mechanism fulfillment (settlement_operation_ref (ob_ref x) Check) (ob_mstate x)))
       (\<lambda>r. sbind (finish_op T x Check worker ((finish_defaults (check_outcome (cr_decision r)))\<lparr>fv_receipt := cr_receipt r,
             fv_error := cr_error r, fv_mstate := Some (cr_state r), fv_condition := Some (cr_decision r)\<rparr>))
           (\<lambda>_. sreturn (outcome_of x Check (if cr_decision r = Cond_Failed then Done_Terminal else outcome_done (check_outcome (cr_decision r)))
             (cr_receipt r)))))))))"

definition effect_values :: "effect_report \<Rightarrow> finish_values" where
  "effect_values r = (finish_defaults Op_Succeeded)\<lparr>fv_receipt := Some (er_receipt r), fv_mstate := Some (er_state r)\<rparr>"

definition settle_effect :: "ticks \<Rightarrow> obligation_row \<Rightarrow> operation_kind \<Rightarrow> string \<Rightarrow> effect_report reply \<Rightarrow> operation_outcome journal_method" where
  "settle_effect T x kind worker reply = settle_reply T x kind worker True reply (\<lambda>r.
     sbind (finish_op T x kind worker (effect_values r)) (\<lambda>_. sreturn (outcome_of x kind Done_Succeeded (Some (er_receipt r)))))"

definition collect :: "runtime \<Rightarrow> ticks \<Rightarrow> string \<Rightarrow> principal \<Rightarrow> string \<Rightarrow> operation_outcome journal_method" where
  "collect R T ref p worker = sbind (claimed_record ref p) (\<lambda>x.
     sbind (slift (require_materialized x)) (\<lambda>mechanism.
     if ob_condition x \<noteq> Cond_Ready then slift (Raise (Refused_Value ''conditions are not ready'')) else
     sbind (slift (require_fulfillment x)) (\<lambda>fulfillment.
     sbind (slift (client_for R x)) (\<lambda>client.
     with_reservation R T x Collect worker p [] (\<lambda>_.
       settle_effect T x Collect worker
         (call_client x (\<lambda>d. c_collect client d mechanism fulfillment (settlement_operation_ref (ob_ref x) Collect) (ob_mstate x))))))))"

text \<open>\<open>float(value)\<close>, and \<open>clock < value\<close>; nothing is less than \<open>nan\<close>.\<close>

fun read_float :: "settle_env \<Rightarrow> pyval \<Rightarrow> (settle_error, pyfloat) result" where
  "read_float E (PBool b) = Return (FFin (if b then 1 else 0))"
| "read_float E (PInt n) = Return (FFin (se_float E (of_int n)))"
| "read_float E (PFloat f) = Return f"
| "read_float E (PStr s) = (case se_parse_float E s of None \<Rightarrow> Raise (Refused_Value ''float'') | Some f \<Rightarrow> Return f)"
| "read_float E _ = Raise (Refused_Value ''float'')"

fun before :: "rat \<Rightarrow> pyfloat \<Rightarrow> bool" where
  "before now (FFin q) = (now < q)"
| "before now (FInf negative) = (\<not> negative)"
| "before now FNaN = False"

definition require_expired :: "runtime \<Rightarrow> ticks \<Rightarrow> obligation_row \<Rightarrow> (settle_error, unit) result" where
  "require_expired R T x = (case map_of (ob_terms x) ''expiration_unix'' of
     None \<Rightarrow> Raise (Refused_Value ''expiration_unix'')
   | Some v \<Rightarrow> res_bind (read_float (rt_env R) v) (\<lambda>f.
       if before (tk_now T) f then Raise (Refused_Value ''obligation has not expired'') else Return ()))"

definition cleanup_outstanding :: "obligation_row \<Rightarrow> journal \<Rightarrow> bool" where
  "cleanup_outstanding x J = (ob_status x = Some Escrow_Failed \<and> ob_fulfillment x \<noteq> None \<and> ob_collection x \<noteq> Eff_Succeeded \<and>
     (case find_operation J (ob_ref x) Cleanup of None \<Rightarrow> True | Some y \<Rightarrow> op_state y \<noteq> Op_Succeeded))"

definition reclaim :: "runtime \<Rightarrow> ticks \<Rightarrow> string \<Rightarrow> principal \<Rightarrow> string \<Rightarrow> dict \<Rightarrow> operation_outcome journal_method" where
  "reclaim R T ref p worker options = sbind (load_record ref) (\<lambda>x.
     sbind (slift (require_payer x p)) (\<lambda>_.
     sbind (slift (require_materialized x)) (\<lambda>mechanism.
     sbind (slift (require_expired R T x)) (\<lambda>_.
     sbind (sread (\<lambda>J. if cleanup_outstanding x J then Raise (Refused_Value ''domain cleanup'') else Return ())) (\<lambda>_.
     sbind (slift (client_for R x)) (\<lambda>client.
     with_reservation R T x Reclaim worker p [(''mechanism_options'', obj options)] (\<lambda>_.
       settle_effect T x Reclaim worker
         (call_client x (\<lambda>d. c_reclaim client d mechanism (settlement_operation_ref (ob_ref x) Reclaim) (ob_mstate x) options)))))))))"

end
