(* ===== verification/Settlement_Servicing.thy ===== *)
theory Settlement_Servicing
  imports Settlement_Runtime
begin

text \<open>
  \<open>SettlementServicingWorker\<close> of \<open>servicing.py\<close>: one pass over the due obligations, the steps it
  takes for each, and its retry schedule.  The domain's hooks \<open>on_ready\<close> and \<open>on_terminal\<close> are
  parameters that may change the journal and may raise; events are a trace.  \<open>clock kind\<close> are
  the ticks of the runtime call of that kind, \<open>now\<close> is the pass's one reading of \<open>time.time()\<close>.
\<close>

section \<open>The worker\<close>

type_synonym hook_result = "journal \<times> (string \<times> string) option"

record worker =
  wk_runtime :: runtime
  wk_id :: string
  wk_ready :: "(obligation_row \<Rightarrow> string \<Rightarrow> journal \<Rightarrow> hook_result) option"
  wk_terminal :: "(obligation_row \<Rightarrow> string \<Rightarrow> string option \<Rightarrow> journal \<Rightarrow> hook_result) option"
  wk_error :: "settle_error \<Rightarrow> string \<times> string"

text \<open>\<open>f"{type(exc).__name__}: {exc}"\<close>\<close>

definition error_text :: "worker \<Rightarrow> settle_error \<Rightarrow> string" where
  "error_text W e = fst (wk_error W e) @ '': '' @ snd (wk_error W e)"

type_synonym event = "string \<times> dict"

type_synonym service_state = "journal \<times> event list"

datatype service_error = Step_Failed operation_kind string | Rejected string

type_synonym 'a service = "service_state \<Rightarrow> service_state \<times> (service_error, 'a) result"

definition sv_bind :: "'a service \<Rightarrow> ('a \<Rightarrow> 'b service) \<Rightarrow> 'b service" where
  "sv_bind m f S = (case m S of (S', r) \<Rightarrow> (case r of Inl e \<Rightarrow> (S', Inl e) | Inr x \<Rightarrow> f x S'))"

definition sv_return :: "'a \<Rightarrow> 'a service" where
  "sv_return x S = (S, Return x)"

definition sv_fail :: "service_error \<Rightarrow> 'a service" where
  "sv_fail e S = (S, Raise e)"

text \<open>A journal method whose exception becomes \<open>err\<close> of its text.\<close>

definition sv_call :: "worker \<Rightarrow> (string \<Rightarrow> service_error) \<Rightarrow> 'a journal_method \<Rightarrow> 'a service" where
  "sv_call W err m S = (case m (fst S) of (J', r) \<Rightarrow> ((J', snd S), case r of Inl e \<Rightarrow> Raise (err (error_text W e)) | Inr x \<Rightarrow> Return x))"

definition emit :: "string \<Rightarrow> dict \<Rightarrow> unit service" where
  "emit event payload S = ((fst S, snd S @ [(event, payload)]), Return ())"

definition emit_ref :: "string \<Rightarrow> string \<Rightarrow> unit service" where
  "emit_ref event ref = emit event [(''obligation_ref'', PStr ref)]"

definition reload :: "worker \<Rightarrow> string \<Rightarrow> obligation_row service" where
  "reload W ref = sv_call W Rejected (load_record ref)"

text \<open>\<open>_terminal\<close>: what the hook raises is only logged.\<close>

definition terminal :: "worker \<Rightarrow> obligation_row \<Rightarrow> string \<Rightarrow> string option \<Rightarrow> unit service" where
  "terminal W x result reason S = (case wk_terminal W of None \<Rightarrow> (S, Return ())
     | Some hook \<Rightarrow> ((fst (hook x result reason (fst S)), snd S), Return ()))"

fun escrow_text :: "escrow_status \<Rightarrow> string" where
  "escrow_text Requires_Action = ''requires_action''"
| "escrow_text Escrow_Pending = ''pending''"
| "escrow_text Escrow_Ready = ''ready''"
| "escrow_text Escrow_Collected = ''collected''"
| "escrow_text Escrow_Reclaimed = ''reclaimed''"
| "escrow_text Escrow_Expired = ''expired''"
| "escrow_text Escrow_Failed = ''failed''"
| "escrow_text Escrow_Manual = ''manual_required''"

fun condition_text :: "condition_state \<Rightarrow> string" where
  "condition_text Cond_Pending = ''pending''"
| "condition_text Cond_Ready = ''ready''"
| "condition_text Cond_Failed = ''failed''"
| "condition_text Cond_Manual = ''manual_required''"

section \<open>The retry schedule\<close>

text \<open>\<open>min(30.0 * 2 ** (attempts - 1), 1800.0)\<close>: the power is an unbounded integer, and its
  conversion to a float raises from \<open>2 ^ 1024\<close> on.  The product may be infinite before that,
  and the minimum is then the cap.\<close>

definition retry_backoff :: "int \<Rightarrow> (settle_error, rat) result" where
  "retry_backoff attempts = (let n = nat (max 1 (if attempts = 0 then 1 else attempts) - 1) in
     if (2::int) ^ 1024 \<le> 2 ^ n then Raise Number_Overflow else Return (min (30 * 2 ^ n) 1800))"

definition schedule :: "worker \<Rightarrow> string \<Rightarrow> operation_kind \<Rightarrow> rat \<Rightarrow> string option \<Rightarrow> unit journal_method" where
  "schedule W ref kind now error J = (case find_operation J ref kind of
     None \<Rightarrow> (J, Return ())
   | Some y \<Rightarrow>
       if op_state y \<noteq> Op_Pending then (J, Return ())
       else (case retry_backoff (op_attempts y) of
           Inl e \<Rightarrow> (J, Raise e)
         | Inr backoff \<Rightarrow> schedule_settlement_retry ref kind (se_float (rt_env (wk_runtime W)) (now + backoff)) error J))"

definition sv_schedule :: "worker \<Rightarrow> string \<Rightarrow> operation_kind \<Rightarrow> rat \<Rightarrow> unit service" where
  "sv_schedule W ref kind now = sv_call W Rejected (schedule W ref kind now None)"

definition after_ready_step :: "worker \<Rightarrow> string \<Rightarrow> rat \<Rightarrow> unit journal_method" where
  "after_ready_step W ref now J = (case find_operation J ref Fulfill of
     None \<Rightarrow> schedule W ref Fulfill now None J
   | Some y \<Rightarrow>
       if op_state y = Op_Pending \<and> op_awaiting y
       then schedule_settlement_retry ref Fulfill (case op_next y of None \<Rightarrow> now | Some t \<Rightarrow> if t = 0 then now else t) None J
       else schedule W ref Fulfill now None J)"

section \<open>The steps\<close>

definition run_terminal_hook :: "worker \<Rightarrow> obligation_row \<Rightarrow> string option \<Rightarrow> service_state \<Rightarrow> service_state \<times> (string \<times> string) option" where
  "run_terminal_hook W x reason S = (case wk_terminal W of None \<Rightarrow> (S, None)
     | Some hook \<Rightarrow> (case hook x ''failed'' reason (fst S) of (J', raised) \<Rightarrow> ((J', snd S), raised)))"

text \<open>What is raised while cleaning up is journaled as a retry and raised again.\<close>

definition cleanup_failed :: "worker \<Rightarrow> ticks \<Rightarrow> obligation_row \<Rightarrow> string \<Rightarrow> string \<Rightarrow> string \<Rightarrow> unit service" where
  "cleanup_failed W T x name msg text =
     sv_bind (sv_call W Rejected (retry_cleanup T (ob_ref x) name msg (ob_claimant x) (wk_id W)))
       (\<lambda>_. sv_fail (Step_Failed Cleanup text))"

definition cleanup :: "worker \<Rightarrow> (operation_kind \<Rightarrow> ticks) \<Rightarrow> obligation_row \<Rightarrow> string option \<Rightarrow> unit service" where
  "cleanup W clock x reason =
     sv_bind (sv_call W Rejected (reserve_cleanup (wk_runtime W) (clock Cleanup) (ob_ref x) (ob_claimant x) (wk_id W))) (\<lambda>reserved S.
       if oc_status reserved \<in> {Done_Busy, Done_Succeeded} then (S, Return ())
       else (case run_terminal_hook W x reason S of
           (S1, Some (name, msg)) \<Rightarrow> cleanup_failed W (clock Cleanup) x name msg (name @ '': '' @ msg) S1
         | (S1, None) \<Rightarrow>
             (case complete_cleanup (clock Cleanup) (ob_ref x) (ob_claimant x) (wk_id W) (fst S1) of
                (J2, Inr _) \<Rightarrow> emit_ref ''settlement_cleanup_complete'' (ob_ref x) (J2, snd S1)
              | (J2, Inl e) \<Rightarrow> cleanup_failed W (clock Cleanup) x (fst (wk_error W e)) (snd (wk_error W e)) (error_text W e) (J2, snd S1))))"

definition collect_step :: "worker \<Rightarrow> (operation_kind \<Rightarrow> ticks) \<Rightarrow> obligation_row \<Rightarrow> unit service" where
  "collect_step W clock x =
     (if ob_condition x \<noteq> Cond_Ready then sv_return () else
      sv_bind (sv_call W (Step_Failed Collect) (collect (wk_runtime W) (clock Collect) (ob_ref x) (ob_claimant x) (wk_id W))) (\<lambda>collected.
      sv_bind (reload W (ob_ref x)) (\<lambda>y.
        case oc_status collected of
          Done_Succeeded \<Rightarrow> sv_bind (emit_ref ''settlement_collected'' (ob_ref y)) (\<lambda>_. terminal W y ''collected'' None)
        | Done_Manual \<Rightarrow> terminal W y ''manual_required'' (ob_error y)
        | _ \<Rightarrow> sv_return ())))"

definition check_step :: "worker \<Rightarrow> (operation_kind \<Rightarrow> ticks) \<Rightarrow> rat \<Rightarrow> obligation_row \<Rightarrow> unit service" where
  "check_step W clock now x =
     (if ob_condition x \<noteq> Cond_Pending then collect_step W clock x else
      sv_bind (sv_call W (Step_Failed Check) (check (wk_runtime W) (clock Check) (ob_ref x) (ob_claimant x) (wk_id W))) (\<lambda>checked.
      sv_bind (reload W (ob_ref x)) (\<lambda>y.
        case oc_status checked of
          Done_Busy \<Rightarrow> sv_return ()
        | Done_Pending \<Rightarrow> sv_bind (sv_schedule W (ob_ref y) Check now) (\<lambda>_. emit_ref ''settlement_conditions_pending'' (ob_ref y))
        | Done_Succeeded \<Rightarrow> collect_step W clock y
        | _ \<Rightarrow> terminal W y (condition_text (ob_condition y)) (ob_error y))))"

definition run_ready_hook :: "worker \<Rightarrow> (obligation_row \<Rightarrow> string \<Rightarrow> journal \<Rightarrow> hook_result) \<Rightarrow> obligation_row \<Rightarrow> unit service" where
  "run_ready_hook W hook x S = (case hook x (wk_id W) (fst S) of
     (J', None) \<Rightarrow> ((J', snd S), Return ())
   | (J', Some (name, msg)) \<Rightarrow> ((J', snd S), Raise (Step_Failed Fulfill (name @ '': '' @ msg))))"

definition ready_step :: "worker \<Rightarrow> (operation_kind \<Rightarrow> ticks) \<Rightarrow> rat \<Rightarrow> obligation_row \<Rightarrow> unit service" where
  "ready_step W clock now x =
     (if ob_fulfillment x \<noteq> None then check_step W clock now x
      else (case wk_ready W of
          None \<Rightarrow> sv_schedule W (ob_ref x) Fulfill now
        | Some hook \<Rightarrow>
            sv_bind (run_ready_hook W hook x) (\<lambda>_.
            sv_bind (reload W (ob_ref x)) (\<lambda>y.
              if ob_fulfillment y = None then sv_call W Rejected (after_ready_step W (ob_ref y) now)
              else check_step W clock now y))))"

definition status_step :: "worker \<Rightarrow> (operation_kind \<Rightarrow> ticks) \<Rightarrow> rat \<Rightarrow> outcome_status \<Rightarrow> obligation_row \<Rightarrow> unit service" where
  "status_step W clock now status x =
     (if ob_status x = Some Escrow_Failed \<and> ob_fulfillment x \<noteq> None \<and> ob_collection x \<noteq> Eff_Succeeded
      then cleanup W clock x (ob_error x)
      else if ob_status x \<in> Some ` {Escrow_Reclaimed, Escrow_Expired, Escrow_Failed, Escrow_Manual}
      then terminal W x (escrow_text (the (ob_status x))) (ob_error x)
      else if status = Done_Terminal
      then terminal W x (case ob_status x of None \<Rightarrow> ''terminal'' | Some s \<Rightarrow> escrow_text s) (ob_error x)
      else if ob_collection x = Eff_Succeeded
      then (if \<not> monitored_state (ob_mstate x) then terminal W x ''collected'' None
        else sv_bind (sv_schedule W (ob_ref x) Status now) (\<lambda>_. emit_ref ''settlement_terminal_risk_monitored'' (ob_ref x)))
      else if ob_status x \<noteq> Some Escrow_Ready
      then sv_bind (sv_schedule W (ob_ref x) Status now) (\<lambda>_. emit_ref ''settlement_status_pending'' (ob_ref x))
      else ready_step W clock now x)"

definition service :: "worker \<Rightarrow> (operation_kind \<Rightarrow> ticks) \<Rightarrow> rat \<Rightarrow> obligation_row \<Rightarrow> unit service" where
  "service W clock now x =
     sv_bind (sv_call W (Step_Failed Status) (reconcile_status (wk_runtime W) (clock Status) (ob_ref x) (ob_claimant x) (wk_id W))) (\<lambda>status.
     if oc_status status = Done_Busy then sv_return () else
     sv_bind (reload W (ob_ref x)) (\<lambda>y. status_step W clock now (oc_status status) y))"

section \<open>A pass\<close>

definition retry_failed_step :: "worker \<Rightarrow> obligation_row \<Rightarrow> operation_kind \<Rightarrow> string \<Rightarrow> rat \<Rightarrow> service_state \<Rightarrow> service_state" where
  "retry_failed_step W x kind text now S =
     (let note = ''_ServicingStepError: '' @ text;
          J' = fst (schedule W (ob_ref x) kind now (Some note) (fst S)) in
      fst (emit ''settlement_retry'' [(''obligation_ref'', PStr (ob_ref x)), (''operation'', PStr (kind_text kind)), (''error'', PStr note)]
        (J', snd S)))"

definition service_record :: "worker \<Rightarrow> (operation_kind \<Rightarrow> ticks) \<Rightarrow> rat \<Rightarrow> obligation_row \<Rightarrow> service_state \<Rightarrow> service_state" where
  "service_record W clock now x S = (case service W clock now x S of
     (S', Inr _) \<Rightarrow> S'
   | (S', Inl (Step_Failed kind text)) \<Rightarrow> retry_failed_step W x kind text now S'
   | (S', Inl (Rejected text)) \<Rightarrow> fst (terminal W x ''manual_required'' (Some text) S'))"

text \<open>\<open>clocks i\<close> are the readings for the \<open>i\<close>-th obligation of the pass.\<close>

fun service_rows :: "worker \<Rightarrow> (nat \<Rightarrow> operation_kind \<Rightarrow> ticks) \<Rightarrow> rat \<Rightarrow> nat \<Rightarrow> obligation_row list \<Rightarrow> service_state \<Rightarrow> service_state \<times> (settle_error, unit) result" where
  "service_rows W clocks now i [] S = (S, Return ())"
| "service_rows W clocks now i (row # rows) S = (case bind_principals row of
     Inl e \<Rightarrow> (S, Raise e)
   | Inr x \<Rightarrow> service_rows W clocks now (Suc i) rows (service_record W (clocks i) now x S))"

definition run_once :: "worker \<Rightarrow> (nat \<Rightarrow> operation_kind \<Rightarrow> ticks) \<Rightarrow> rat \<Rightarrow> int \<Rightarrow> service_state \<Rightarrow> service_state \<times> (settle_error, nat) result" where
  "run_once W clocks now limit S =
     (let rows = list_due_settlement_obligations now limit (fst S) in
      case service_rows W clocks now 0 rows S of (S', r) \<Rightarrow> (S', res_bind r (\<lambda>_. Return (length rows))))"

definition service_obligation :: "worker \<Rightarrow> (operation_kind \<Rightarrow> ticks) \<Rightarrow> rat \<Rightarrow> string \<Rightarrow> service_state \<Rightarrow> service_state \<times> (settle_error, unit) result" where
  "service_obligation W clock now ref S = (case load_record ref (fst S) of
     (_, Inl e) \<Rightarrow> (S, Raise e)
   | (_, Inr x) \<Rightarrow> (service_record W clock now x S, Return ()))"

definition wake :: "string \<Rightarrow> service_state \<Rightarrow> service_state \<times> (settle_error, unit) result" where
  "wake ref S = (case wake_settlement_obligation ref (fst S) of
     (J', Inl e) \<Rightarrow> ((J', snd S), Raise e)
   | (J', Inr _) \<Rightarrow> (fst (emit_ref ''settlement_woken'' ref (J', snd S)), Return ()))"

end
