(* ===== verification/Settlement_Guarantees.thy ===== *)
theory Settlement_Guarantees
  imports Settlement_Servicing
begin

text \<open>
  What the settlement runtime promises, with a witness for each property on a journal of one
  obligation (\<open>j_ready\<close>).  The first lemmas read a runtime method as its guards followed by one
  reservation; a reservation that is not granted leaves the journal alone and never reaches the
  client.
\<close>

section \<open>Methods as guards and a reservation\<close>

lemma sbind_slift: "sbind (slift r) f J = (case r of Inl e \<Rightarrow> (J, Inl e) | Inr x \<Rightarrow> f x J)"
  by (simp add: sbind_def slift_def split: sum.split)

lemma sbind_sreturn: "sbind (sreturn x) f J = f x J"
  by (simp add: sbind_def sreturn_def)

lemma sbind_sread: "sbind (sread g) f J = (case g J of Inl e \<Rightarrow> (J, Inl e) | Inr x \<Rightarrow> f x J)"
  by (simp add: sbind_def sread_def split: sum.split)

lemma sbind_load: "sbind (load_record ref) f J = (case snd (load_record ref J) of Inl e \<Rightarrow> (J, Inl e) | Inr x \<Rightarrow> f x J)"
  by (simp add: load_record_def sbind_sread sread_def)

lemma sbind_assoc: "sbind (sbind m f) g = sbind m (\<lambda>x. sbind (f x) g)"
  by (rule ext) (simp add: sbind_def split: prod.split sum.split)

lemmas guard_simps = sbind_slift sbind_sreturn sbind_sread sbind_load sbind_assoc

text \<open>Reading a row rewrites its principals' text at most.\<close>

lemma canonical_principals_terms:
  assumes "canonical_principals d = Inr (d', payer, claimant)" and "k \<notin> {''payer_principal'', ''claimant_principal''}"
  shows "map_of d' k = map_of d k"
  using assms by (auto simp: canonical_principals_def res_bind_Inr_iff split: if_splits)

lemma load_record_row:
  assumes "snd (load_record ref J) = Inr x"
  obtains x0 terms where "find_obligation J ref = Some x0" and "x = x0\<lparr>ob_terms := terms\<rparr>"
    and "\<And>k. k \<notin> {''payer_principal'', ''claimant_principal''} \<Longrightarrow> map_of terms k = map_of (ob_terms x0) k"
proof -
  from assms obtain x0 where x0: "find_obligation J ref = Some x0" "bind_principals x0 = Inr x"
    by (auto simp: load_record_def sread_def split: option.splits)
  show thesis
  proof (cases "has_key (ob_terms x0) ''payer_principal'' \<or> has_key (ob_terms x0) ''claimant_principal''")
    case True
    with x0(2) obtain d payer claimant where d: "canonical_principals (ob_terms x0) = Inr (d, payer, claimant)" "x = x0\<lparr>ob_terms := d\<rparr>"
      by (auto simp: bind_principals_def res_bind_Inr_iff split: if_splits)
    from that [OF x0(1) d(2)] canonical_principals_terms [OF d(1)] show thesis by blast
  next
    case False
    with x0(2) have "x = x0\<lparr>ob_terms := ob_terms x0\<rparr>" by (simp add: bind_principals_def)
    from that [OF x0(1) this] show thesis by blast
  qed
qed

text \<open>What a method's reservation asks for, and whether it is granted.\<close>

definition asks :: "runtime \<Rightarrow> ticks \<Rightarrow> obligation_row \<Rightarrow> operation_kind \<Rightarrow> string \<Rightarrow> principal \<Rightarrow> dict \<Rightarrow> journal \<Rightarrow> bool" where
  "asks R T x kind worker p request J =
     grantable (ob_ref x) kind (operation_request_hash (rt_env R) x kind p request) worker (tk_now T)
       (se_float (rt_env R) (tk_now T + (if kind = Fulfill then rt_fulfillment_lease R else rt_lease R))) J"

lemma with_reservation_idle:
  assumes "\<not> asks R T x kind worker p request J"
  shows "\<exists>r. \<forall>act. with_reservation R T x kind worker p request act J = (J, r)"
proof -
  let ?hash = "operation_request_hash (rt_env R) x kind p request"
    and ?until = "se_float (rt_env R) (tk_now T + (if kind = Fulfill then rt_fulfillment_lease R else rt_lease R))"
  let ?r = "snd (reserve_settlement_operation (tk_first T) (ob_ref x) kind ?hash worker (tk_now T) ?until J)"
  have not: "\<not> grantable (ob_ref x) kind ?hash worker (tk_now T) ?until J" using assms by (simp add: asks_def)
  have res: "reserve_operation R T x kind worker p request J = (J, ?r)"
    unfolding reserve_operation_def by (subst reserve_by_cases) (simp add: not)
  have terminal: "op_state y \<in> {Op_Succeeded, Op_Manual}" if "?r = Return (Some y)" for y
    using reserve_answer [OF that] not by blast
  show ?thesis
  proof (cases ?r)
    case (Inl e)
    then show ?thesis by (simp add: with_reservation_def sbind_def res)
  next
    case (Inr reserved)
    show ?thesis
    proof (cases reserved)
      case None
      then show ?thesis using Inr by (simp add: with_reservation_def sbind_def res sreturn_def)
    next
      case (Some y)
      with terminal [of y] Inr show ?thesis by (auto simp: with_reservation_def sbind_def res sreturn_def)
    qed
  qed
qed

lemma with_reservation_granted:
  assumes "asks R T x kind worker p request J"
  shows "\<exists>y. with_reservation R T x kind worker p request act J = act y (fst (reserve_operation R T x kind worker p request J))"
proof -
  let ?hash = "operation_request_hash (rt_env R) x kind p request"
    and ?until = "se_float (rt_env R) (tk_now T + (if kind = Fulfill then rt_fulfillment_lease R else rt_lease R))"
  have g: "grantable (ob_ref x) kind ?hash worker (tk_now T) ?until J" using assms by (simp add: asks_def)
  let ?y = "take_lease worker ?until (stored_operation J (ob_ref x) kind ?hash)"
  have "snd (reserve_operation R T x kind worker p request J) = Return (Some ?y)"
    unfolding reserve_operation_def by (subst reserve_by_cases) (simp add: g)
  moreover have "op_state ?y = Op_In_Progress" by (simp add: take_lease_def)
  ultimately obtain J1 y where "reserve_operation R T x kind worker p request J = (J1, Return (Some y))" "op_state y = Op_In_Progress"
    by (metis prod.collapse)
  then show ?thesis by (intro exI [of _ y]) (simp add: with_reservation_def sbind_def)
qed

lemma asks_found: "asks R T x kind worker p request J \<Longrightarrow> \<exists>x0. find_obligation J (ob_ref x) = Some x0 \<and> \<not> reservation_blocked (tk_now T) kind x0 J"
  by (auto simp: asks_def grantable_def split: option.splits)

lemma asks_leased:
  assumes "journal_wf J" and "asks R T x kind worker p request J"
  shows "\<exists>until. leased_to (ob_ref x) kind worker until (fst (reserve_operation R T x kind worker p request J))"
  using assms(2) unfolding asks_def reserve_operation_def by (intro exI) (rule granted_is_leased [OF assms(1)])

section \<open>The journal\<close>

definition empty_journal :: journal where
  "empty_journal = \<lparr>obligations = [], operations = []\<rparr>"

lemma empty_journal_wf: "journal_wf empty_journal"
  by (simp add: empty_journal_def journal_wf_def rows_unique_def mechanisms_unique_def)

lemma empty_journal_effects: "effects_ok empty_journal"
  using empty_journal_wf by (simp add: effects_ok_def effects_exclusive_def effects_marked_def) (simp add: empty_journal_def)

text \<open>C14: Every journal that any sequence of repository writes by any workers builds from an empty
  one is well formed: references, positions in an agreement and mechanism references are unique,
  an operation belongs to an obligation and is unique of its kind there, and an operation is in
  progress exactly when it is leased.\<close>

theorem reachable_journal_wellformed:
  assumes "all_along (exec_op E) consistent_rows ps empty_journal"
  shows "journal_wf (run_ops (exec_op E) ps empty_journal)"
  by (rule writes.run_keeps [OF empty_journal_wf assms])

text \<open>C15: Over every sequence of writes an obligation keeps its identity, terms and principals,
  parameters once bound stay, an operation keeps its request and is final once it succeeded or
  was parked; and a compare-and-set against the version a worker read succeeds only if the row
  is still the one it read.\<close>

theorem rows_keep_identity_and_version:
  assumes wf: "journal_wf J" and run: "all_along (exec_op E) consistent_rows ps J"
    and x: "x \<in> set (obligations J)" and y: "y \<in> set (operations J)"
  shows "(\<exists>z \<in> set (obligations (run_ops (exec_op E) ps J)). obligation_moves x z) \<and>
    (\<exists>z \<in> set (operations (run_ops (exec_op E) ps J)). operation_moves y z) \<and>
    (ob_ref row = ob_ref x \<and> snd (save_settlement_obligation stamp row (ob_version x) (run_ops (exec_op E) ps J)) = Return True \<longrightarrow>
       x \<in> set (obligations (run_ops (exec_op E) ps J)))"
proof -
  let ?J = "run_ops (exec_op E) ps J"
  have moves: "journal_moves J ?J" and wf': "journal_wf ?J"
    by (rule writes.run_moves [OF wf run], rule writes.run_keeps [OF wf run])
  from moves x obtain z where z: "z \<in> set (obligations ?J)" "obligation_moves x z" unfolding journal_moves_def by blast
  from moves y obtain w where w: "w \<in> set (operations ?J)" "operation_moves y w" unfolding journal_moves_def by blast
  have "x \<in> set (obligations ?J)" if saved: "ob_ref row = ob_ref x" "snd (save_settlement_obligation stamp row (ob_version x) ?J) = Return True"
  proof -
    from saved(2) obtain u where "find (\<lambda>u. ob_ref u = ob_ref row \<and> ob_version u = ob_version x) (obligations ?J) = Some u"
      by (auto simp: save_settlement_obligation_def split: option.splits if_splits)
    then have u: "u \<in> set (obligations ?J)" "ob_ref u = ob_ref row" "ob_version u = ob_version x" by (auto simp: find_Some_iff)
    with z saved(1) wf' have "u = z"
      by (auto simp: journal_wf_def rows_unique_def distinct_map inj_on_def obligation_moves_def same_obligation_def)
    with z u show ?thesis by (auto simp: obligation_moves_def)
  qed
  with z w show ?thesis by blast
qed

text \<open>C13: A granted lease is exclusive: until it runs out no other worker is given the operation,
  whatever the others write meanwhile, and the holder still holds it.\<close>

theorem lease_is_exclusive:
  assumes wf: "journal_wf J" and grant: "reserve_settlement_operation stamp ref kind hash owner now until J = (J1, Return (Some y))"
    and fresh: "op_state y = Op_In_Progress"
    and run: "all_along (exec_op E) (foreign_write ref kind owner until) ps J1"
    and other: "other \<noteq> owner" "later \<le> until"
  shows "(\<exists>h. held_operation (run_ops (exec_op E) ps J1) ref kind owner = Some h) \<and>
    (\<exists>r. reserve_settlement_operation stamp' ref kind hash' other later until' (run_ops (exec_op E) ps J1) = (run_ops (exec_op E) ps J1, r) \<and>
      (\<forall>z. r \<noteq> Return (Some z)))"
proof -
  let ?J = "run_ops (exec_op E) ps J1"
  have "snd (reserve_settlement_operation stamp ref kind hash owner now until J) = Return (Some y)" using grant by simp
  then have "grantable ref kind hash owner now until J" using fresh reserve_answer by fastforce
  with granted_is_leased [OF wf, of ref kind hash owner now until stamp] have "leased_to ref kind owner until J1" by (simp add: grant)
  then have leased: "leased_to ref kind owner until ?J" by (rule leases.run_keeps [OF _ run])
  then obtain h where "find_operation ?J ref kind = Some h" "held_row ref kind owner h" by (rule leased_find)
  then have "held_operation ?J ref kind owner = Some h" by (simp add: held_operation_def held_row_def)
  moreover have "fst (reserve_settlement_operation stamp' ref kind hash' other later until' ?J) = ?J"
    by (rule not_granted) (rule leased_not_grantable [OF leased other])
  ultimately show ?thesis using leased_no_answer [OF leased other] by (metis prod.collapse)
qed

section \<open>Effects\<close>

text \<open>C11: A collection and a reclaim of one obligation are never both under way, both done, or one
  under way while the other is done, in any schedule of the workers in which the escrow
  authority does not itself report the opposite effect.\<close>

theorem effects_exclude_each_other:
  assumes "all_along (exec_op E) honest_write ps empty_journal" and "x \<in> set (obligations (run_ops (exec_op E) ps empty_journal))"
  shows "\<not> ((ob_collection x = Eff_In_Progress \<or> ob_collection x = Eff_Succeeded) \<and>
    (ob_reclaim x = Eff_In_Progress \<or> ob_reclaim x = Eff_Succeeded))"
  using effects.run_keeps [OF empty_journal_effects assms(1)] assms(2)
  by (auto simp: effects_ok_def effects_exclusive_def collection_active_def reclaim_active_def)

text \<open>C12: Once a collection or a reclaim has succeeded, no later attempt at either, by any worker at
  any time, reaches the mechanism: the reservation answers without changing the journal, whatever
  the attempt would have done with it.\<close>

theorem settled_effect_never_dispatched_again:
  assumes ok: "effects_ok J" and state: "fv_state v = Op_Succeeded"
    and finish: "finish_settlement_operation stamp ref kind owner v J = (J1, Return True)"
    and kinds: "kind \<in> {Collect, Reclaim}" "other \<in> {Collect, Reclaim}"
    and run: "all_along (exec_op E) (column_write ref kind) ps J1" and x: "ob_ref x = ref"
  shows "\<exists>r. \<forall>act. with_reservation R T x other worker p request act (run_ops (exec_op E) ps J1) = (run_ops (exec_op E) ps J1, r)"
proof -
  have "effect_settled ref kind J1" by (rule finish_settles [OF ok kinds(1) state finish])
  then have "effect_settled ref kind (run_ops (exec_op E) ps J1)"
    using kinds(1) run collected.run_keeps reclaimed.run_keeps by blast
  with settled_blocks [OF kinds] x show ?thesis by (intro with_reservation_idle) (simp add: asks_def)
qed

lemma collect_dispatches:
  assumes "fst (collect R T ref p worker J) \<noteq> J"
  shows "\<exists>x. snd (load_record ref J) = Inr x \<and> p = ob_claimant x \<and> ob_materialization x = Materialized \<and> ob_mechanism x \<noteq> None \<and>
    ob_condition x = Cond_Ready \<and> ob_fulfillment x \<noteq> None \<and> asks R T x Collect worker p [] J"
proof -
  from assms obtain x act where x: "snd (load_record ref J) = Inr x" "p = ob_claimant x" "ob_materialization x = Materialized"
      "ob_mechanism x \<noteq> None" "ob_condition x = Cond_Ready" "ob_fulfillment x \<noteq> None"
    and run: "collect R T ref p worker J = with_reservation R T x Collect worker p [] act J"
    by (auto simp: collect_def claimed_record_def guard_simps slift_def require_claimant_def require_materialized_def require_fulfillment_def
      given_text_def split: sum.splits if_splits option.splits)
  have "asks R T x Collect worker p [] J"
    using assms with_reservation_idle [of R T x Collect worker p "[]" J] by (force simp: run)
  with x show ?thesis by blast
qed

lemma reclaim_dispatches:
  assumes "fst (reclaim R T ref p worker options J) \<noteq> J"
  shows "\<exists>x. snd (load_record ref J) = Inr x \<and> p = ob_payer x \<and> ob_materialization x = Materialized \<and> ob_mechanism x \<noteq> None \<and>
    require_expired R T x = Return () \<and> asks R T x Reclaim worker p [(''mechanism_options'', obj options)] J"
proof -
  from assms obtain x act where x: "snd (load_record ref J) = Inr x" "p = ob_payer x" "ob_materialization x = Materialized"
      "ob_mechanism x \<noteq> None" "require_expired R T x = Return ()"
    and run: "reclaim R T ref p worker options J = with_reservation R T x Reclaim worker p [(''mechanism_options'', obj options)] act J"
    by (auto simp: reclaim_def guard_simps slift_def require_payer_def require_materialized_def
      given_text_def split: sum.splits if_splits option.splits)
  have "asks R T x Reclaim worker p [(''mechanism_options'', obj options)] J"
    using assms with_reservation_idle [of R T x Reclaim worker p "[(''mechanism_options'', obj options)]" J] by (force simp: run)
  with x show ?thesis by blast
qed

text \<open>C16: A collection changes anything (and so reaches the mechanism) only for the claimant of a
  materialized obligation with a bound fulfillment and ready conditions that no reclaim has
  touched; a reclaim only for the payer of a materialized, expired one that no collection has
  touched and whose fulfillment never started, or was cleaned up after the escrow failed.\<close>

theorem effects_need_their_guards:
  "(fst (collect R T ref p worker J) \<noteq> J \<longrightarrow> (\<exists>x. find_obligation J ref = Some x \<and> p = ob_claimant x \<and> ob_materialization x = Materialized \<and>
       ob_mechanism x \<noteq> None \<and> ob_condition x = Cond_Ready \<and> ob_fulfillment x \<noteq> None \<and> \<not> reclaim_active x)) \<and>
   (fst (reclaim R T ref p worker options J) \<noteq> J \<longrightarrow> (\<exists>x. find_obligation J ref = Some x \<and> p = ob_payer x \<and> ob_materialization x = Materialized \<and>
       ob_mechanism x \<noteq> None \<and> require_expired R T x = Return () \<and> \<not> collection_active x \<and>
       ((ob_fulfillment x = None \<and> ob_condition x \<noteq> Cond_Ready) \<or> returned_cleanup J x)))"
proof (intro conjI impI)
  assume "fst (collect R T ref p worker J) \<noteq> J"
  from collect_dispatches [OF this] obtain x where x: "snd (load_record ref J) = Inr x" "p = ob_claimant x" "ob_materialization x = Materialized"
    "ob_mechanism x \<noteq> None" "ob_condition x = Cond_Ready" "ob_fulfillment x \<noteq> None" "asks R T x Collect worker p [] J" by blast
  from x(1) obtain x0 terms where x0: "find_obligation J ref = Some x0" "x = x0\<lparr>ob_terms := terms\<rparr>" by (rule load_record_row)
  with asks_found [OF x(7)] find_obligation_SomeD [OF x0(1)] have "\<not> reclaim_active x0" by (auto simp: reservation_blocked_def)
  with x x0 show "\<exists>x. find_obligation J ref = Some x \<and> p = ob_claimant x \<and> ob_materialization x = Materialized \<and>
       ob_mechanism x \<noteq> None \<and> ob_condition x = Cond_Ready \<and> ob_fulfillment x \<noteq> None \<and> \<not> reclaim_active x" by simp
next
  assume "fst (reclaim R T ref p worker options J) \<noteq> J"
  from reclaim_dispatches [OF this] obtain x where x: "snd (load_record ref J) = Inr x" "p = ob_payer x" "ob_materialization x = Materialized"
    "ob_mechanism x \<noteq> None" "require_expired R T x = Return ()" "asks R T x Reclaim worker p [(''mechanism_options'', obj options)] J" by blast
  obtain x0 terms where x0: "find_obligation J ref = Some x0" "x = x0\<lparr>ob_terms := terms\<rparr>"
    and same: "\<And>k. k \<notin> {''payer_principal'', ''claimant_principal''} \<Longrightarrow> map_of terms k = map_of (ob_terms x0) k"
    using load_record_row [OF x(1)] by blast
  with asks_found [OF x(6)] find_obligation_SomeD [OF x0(1)] have "\<not> reservation_blocked (tk_now T) Reclaim x0 J" by auto
  moreover have "map_of terms ''expiration_unix'' = map_of (ob_terms x0) ''expiration_unix''" by (rule same) simp
  then have "require_expired R T x = require_expired R T x0" by (simp add: require_expired_def x0(2))
  ultimately show "\<exists>x. find_obligation J ref = Some x \<and> p = ob_payer x \<and> ob_materialization x = Materialized \<and>
       ob_mechanism x \<noteq> None \<and> require_expired R T x = Return () \<and> \<not> collection_active x \<and>
       ((ob_fulfillment x = None \<and> ob_condition x \<noteq> Cond_Ready) \<or> returned_cleanup J x)"
    using reclaim_guard_repeats [of "tk_now T" x0 J] x x0(1,2) by simp
qed

section \<open>Outcomes\<close>

lemma find_update_obligation:
  assumes "\<And>x. ob_ref (f x) = ob_ref x"
  shows "find_obligation (update_obligation ref f J) ref = map_option f (find_obligation J ref)"
proof -
  have "find (\<lambda>x. ob_ref x = ref) (map (\<lambda>x. if ob_ref x = ref then f x else x) xs) = map_option f (find (\<lambda>x. ob_ref x = ref) xs)" for xs
    by (induction xs) (simp_all add: assms)
  then show ?thesis by (simp add: find_obligation_def update_obligation_def)
qed

lemma find_update_operation:
  assumes "\<And>y. op_ref (g y) = op_ref y" and "\<And>y. op_kind (g y) = op_kind y"
  shows "find_operation (update_operation ref kind g J) ref kind = map_option g (find_operation J ref kind)"
proof -
  have "find (\<lambda>y. op_ref y = ref \<and> op_kind y = kind) (map (\<lambda>y. if op_ref y = ref \<and> op_kind y = kind then g y else y) ys) =
      map_option g (find (\<lambda>y. op_ref y = ref \<and> op_kind y = kind) ys)" for ys
    by (induction ys) (auto simp: assms)
  then show ?thesis by (simp add: find_operation_def update_operation_def)
qed

lemma find_update_simps [simp]:
  "find_obligation (update_operation ref kind g J) r = find_obligation J r"
  "find_operation (update_obligation ref f J) r k = find_operation J r k"
  by (simp_all add: find_obligation_def find_operation_def update_operation_def update_obligation_def)

text \<open>The journal a granted reservation leaves.\<close>

lemma asks_journal:
  assumes "asks R T x kind worker p request J" and "find_obligation J (ob_ref x) = Some x0"
  shows "find_obligation (fst (reserve_operation R T x kind worker p request J)) (ob_ref x) = Some (mark_started (tk_first T) kind x0)"
proof -
  have g: "grantable (ob_ref x) kind (operation_request_hash (rt_env R) x kind p request) worker (tk_now T)
       (se_float (rt_env R) (tk_now T + (if kind = Fulfill then rt_fulfillment_lease R else rt_lease R))) J"
    using assms(1) by (simp add: asks_def)
  have "find_obligation (with_operation J (ob_ref x) kind h) (ob_ref x) = Some x0" for h
    using assms(2) by (simp add: find_obligation_def)
  then show ?thesis
    unfolding reserve_operation_def
    by (subst reserve_by_cases) (simp add: g find_update_obligation)
qed

text \<open>Finishing an operation under one's own lease.\<close>

lemma finish_op_held:
  assumes leased: "leased_to (ob_ref x) kind worker until J" and kind: "kind \<notin> {Materialize, Status}" and state: "fv_state v \<noteq> Op_In_Progress"
    and z: "find_obligation J (ob_ref x) = Some z"
  shows "\<exists>m w. snd (finish_op T x kind worker v J) = Return () \<and>
    find_obligation (fst (finish_op T x kind worker v J)) (ob_ref x) = Some (finish_obligation (tk_last T) kind (v\<lparr>fv_mstate := m\<rparr>) z) \<and>
    find_operation (fst (finish_op T x kind worker v J)) (ob_ref x) kind = Some (finish_row (v\<lparr>fv_mstate := m\<rparr>) w)"
proof -
  define v' where "v' = v\<lparr>fv_mstate := keep_parked_reason x (fv_mstate v) (fulfillment_parked x kind (fv_mstate v) J)\<rparr>"
  from leased obtain w where w: "find_operation J (ob_ref x) kind = Some w" "held_row (ob_ref x) kind worker w" by (rule leased_find)
  then have held: "held_operation J (ob_ref x) kind worker = Some w" by (simp add: held_operation_def held_row_def)
  have "finish_settlement_operation (tk_last T) (ob_ref x) kind worker v' J =
      (update_obligation (ob_ref x) (finish_obligation (tk_last T) kind v') (update_operation (ob_ref x) kind (finish_row v') J), Return True)"
    using kind state held by (simp add: finish_settlement_operation_def finish_collides_def v'_def)
  then have run: "finish_op T x kind worker v J =
      (update_obligation (ob_ref x) (finish_obligation (tk_last T) kind v') (update_operation (ob_ref x) kind (finish_row v') J), Return ())"
    by (simp add: finish_op_def v'_def Let_def)
  have "find_operation (update_operation (ob_ref x) kind (finish_row v') J) (ob_ref x) kind = Some (finish_row v' w)"
    by (subst find_update_operation) (simp_all add: finish_row_def w)
  with z show ?thesis
    by (intro exI [of _ "fv_mstate v'"] exI [of _ w]) (simp add: run find_update_obligation, simp add: v'_def)
qed

text \<open>C17: A collection that is granted its lease follows the mechanism's reply: an answer settles the
  obligation with the mechanism's receipt, a call that needs an operator parks it with the
  message, and any other exception is recorded for retry as uncertain and raised again.  In each
  case the lease is released.\<close>

theorem collect_follows_reply:
  assumes wf: "journal_wf J" and x: "snd (load_record ref J) = Return x"
    and guards: "p = ob_claimant x" "ob_materialization x = Materialized" "ob_mechanism x = Some m" "m \<noteq> []" "ob_condition x = Cond_Ready"
      "ob_fulfillment x = Some f" "f \<noteq> []" "client_for R x = Return c"
    and lease: "asks R T x Collect worker p [] J"
    and reply: "call_client x (\<lambda>d. c_collect c d m f (settlement_operation_ref (ob_ref x) Collect) (ob_mstate x)) = reply"
  shows "\<exists>z w. find_obligation (fst (collect R T ref p worker J)) ref = Some z \<and>
    find_operation (fst (collect R T ref p worker J)) ref Collect = Some w \<and> op_owner w = None \<and>
    (case reply of
       Answered e \<Rightarrow> snd (collect R T ref p worker J) = Return (outcome_of x Collect Done_Succeeded (Some (er_receipt e))) \<and>
         ob_collection z = Eff_Succeeded \<and> ob_collection_receipt z = Some (er_receipt e) \<and> op_state w = Op_Succeeded
     | Needs_Operator msg code \<Rightarrow> snd (collect R T ref p worker J) = Return (outcome_of x Collect Done_Manual None) \<and>
         ob_collection z = Eff_Manual \<and> ob_error z = Some msg \<and> op_state w = Op_Manual
     | Failed name msg \<Rightarrow> snd (collect R T ref p worker J) = Raise (Adapter_Error (name @ '': '' @ msg)) \<and>
         ob_collection z = Eff_Pending \<and> op_state w = Op_Pending \<and> op_uncertain w)"
proof -
  let ?J = "fst (reserve_operation R T x Collect worker p [] J)"
  from x obtain x0 terms where x0: "find_obligation J ref = Some x0" "x = x0\<lparr>ob_terms := terms\<rparr>" by (rule load_record_row)
  have ref: "ob_ref x = ref" using x0 find_obligation_SomeD [OF x0(1)] by simp
  have run: "collect R T ref p worker J = settle_effect T x Collect worker reply ?J"
    using with_reservation_granted [OF lease] guards
    by (auto simp: collect_def claimed_record_def guard_simps x require_claimant_def require_materialized_def require_fulfillment_def given_text_def reply)
  from asks_leased [OF wf lease] obtain until where leased: "leased_to (ob_ref x) Collect worker until ?J" by blast
  have "\<not> reclaim_active x0" using asks_found [OF lease] x0(1) by (auto simp: ref reservation_blocked_def)
  define z0 where "z0 = mark_started (tk_first T) Collect x0"
  have z0: "find_obligation ?J (ob_ref x) = Some z0" "ob_reclaim z0 \<noteq> Eff_Succeeded"
    using asks_journal [OF lease, of x0] x0(1) \<open>\<not> reclaim_active x0\<close> by (auto simp: z0_def ref reclaim_active_def mark_started_def touch_def)
  note finished = finish_op_held [OF leased _ _ z0(1), of _ T]
  note columns = finish_obligation_def finish_collect_def park_columns_def touch_def finish_row_def finish_defaults_def effect_outcome_def coalesce_def
  show ?thesis
  proof (cases reply)
    case (Answered e)
    from finished [of "effect_values e"] show ?thesis
      by (simp add: effect_values_def finish_defaults_def)
        (auto simp: run Answered settle_effect_def settle_reply_def sbind_def sreturn_def ref z0(2) effect_values_def columns split: prod.splits)
  next
    case (Needs_Operator msg code)
    from finished [of "(finish_defaults Op_Manual)\<lparr>fv_error := Some msg,
         fv_mstate := (if code = [] then None else Some (dict_set ''manual_reason'' (PStr code) (ob_mstate x)))\<rparr>"] show ?thesis
      by (simp add: finish_defaults_def)
        (auto simp: run Needs_Operator settle_effect_def settle_reply_def finish_manual_def sbind_def sreturn_def ref z0(2) columns split: prod.splits)
  next
    case (Failed name msg)
    from finished [of "(finish_defaults Op_Pending)\<lparr>fv_error := Some (name @ '': '' @ msg), fv_uncertain := True\<rparr>"] show ?thesis
      by (simp add: finish_defaults_def)
        (auto simp: run Failed settle_effect_def settle_reply_def finish_retry_def sbind_def slift_def ref z0(2) columns split: prod.splits)
  qed
qed

section \<open>Evidence\<close>

text \<open>A write of a receipt field that is already there changes nothing and reports a conflict or the
  same value.\<close>

lemma write_recorded:
  assumes "find_operation J ref Fulfill = Some y" and "map_of (receipt_of y) key = Some v"
  shows "\<exists>res. write_operation_receipt_field E ref Fulfill owner key value uncertain J = (J, res) \<and>
    (se_json E v \<noteq> se_json E value \<longrightarrow> res \<in> {Conflict, Write_Lost})"
  using assms by (auto simp: write_operation_receipt_field_def held_operation_def)

lemma clear_recorded:
  assumes "find_operation J ref Fulfill = Some y" and "map_of (receipt_of y) mark = Some v"
  shows "\<exists>res. clear_operation_receipt_field ref Fulfill owner key mark J = (J, res) \<and> res \<noteq> Cleared"
  using assms by (auto simp: clear_operation_receipt_field_def held_operation_def has_key_def)

lemma sbind_claimed:
  "sbind (claimed_record ref p) f J = (case snd (claimed_record ref p J) of Inl e \<Rightarrow> (J, Inl e) | Inr x \<Rightarrow> f x J)"
proof -
  have "load_record ref J = (J, snd (load_record ref J))" by (simp add: load_record_def sread_def)
  then obtain l where l: "load_record ref J = (J, l)" ..
  show ?thesis
  proof (cases l)
    case (Inl e)
    then show ?thesis by (simp add: claimed_record_def sbind_def l)
  next
    case (Inr x)
    then show ?thesis by (cases "require_claimant x p") (simp_all add: claimed_record_def sbind_def slift_def sreturn_def l)
  qed
qed

lemma publication_written:
  assumes "record_fulfillment_publication R ref reference p worker J = (J1, Return ())"
  shows "\<exists>y. find_operation J1 ref Fulfill = Some y \<and> (\<exists>v. map_of (receipt_of y) ''reference'' = Some v \<and>
      se_json (rt_env R) v = se_json (rt_env R) (PStr reference)) \<and>
    (\<exists>y0. find_operation J ref Fulfill = Some y0 \<and> (\<forall>k. k \<noteq> ''reference'' \<longrightarrow> map_of (receipt_of y) k = map_of (receipt_of y0) k))"
proof -
  let ?w = "write_operation_receipt_field (rt_env R) ref Fulfill worker ''reference'' (PStr reference) True J"
  have wrote: "J1 = fst ?w" "snd ?w \<in> {Written, Unchanged}"
    using assms by (auto simp: record_fulfillment_publication_def write_fulfillment_field_def claimed_record_def guard_simps slift_def
      split: if_splits sum.splits prod.splits write_result.splits)
  then obtain y where y: "held_operation J ref Fulfill worker = Some y"
    by (auto simp: write_operation_receipt_field_def split: option.splits)
  then have found: "find_operation J ref Fulfill = Some y" by (auto dest: held_operation_SomeD)
  show ?thesis
  proof (cases "map_of (receipt_of y) ''reference''")
    case None
    then have "find_operation J1 ref Fulfill = Some (written_row ''reference'' (PStr reference) True y)"
      by (simp add: wrote(1) write_operation_receipt_field_def y find_update_operation found written_row_def)
    with found show ?thesis by (auto simp: written_row_def receipt_of_def)
  next
    case (Some v)
    with wrote y found show ?thesis by (auto simp: write_operation_receipt_field_def split: if_splits)
  qed
qed

lemma publication_keeps_wf:
  assumes "journal_wf J" and "record_fulfillment_publication R ref reference p worker J = (J1, Return ())"
  shows "journal_wf J1"
proof -
  have "J1 = exec_op (rt_env R) (Write_Field ref Fulfill worker ''reference'' (PStr reference) True) J"
    using assms(2) by (auto simp: record_fulfillment_publication_def write_fulfillment_field_def claimed_record_def guard_simps slift_def
      split: if_splits sum.splits prod.splits)
  with exec_keeps_wf [OF assms(1)] show ?thesis by (simp add: consistent_rows_def del: exec_op.simps)
qed

text \<open>C20: Once a fulfillment's publication is recorded, its reference and the submission recorded
  before it stay what they are until the operation ends, through takeovers and retries by any
  worker: a different reference is refused and the submission cannot be withdrawn.\<close>

theorem publication_recorded_once:
  assumes wf: "journal_wf J" and submitted: "find_operation J ref Fulfill = Some y" "map_of (receipt_of y) ''submission'' = Some s"
    and publish: "record_fulfillment_publication R ref reference p worker J = (J1, Return ())"
    and run: "all_along (exec_op E) (evidence_write ref Fulfill ''submission'' ''reference'') ps J1"
    and other: "se_json (rt_env R) (PStr other) \<noteq> se_json (rt_env R) (PStr reference)"
  shows "(\<exists>z v. find_operation (run_ops (exec_op E) ps J1) ref Fulfill = Some z \<and> map_of (receipt_of z) ''submission'' = Some s \<and>
      map_of (receipt_of z) ''reference'' = Some v \<and> se_json (rt_env R) v = se_json (rt_env R) (PStr reference)) \<and>
    fst (record_fulfillment_publication R ref other q worker' (run_ops (exec_op E) ps J1)) = run_ops (exec_op E) ps J1 \<and>
    snd (record_fulfillment_publication R ref other q worker' (run_ops (exec_op E) ps J1)) \<noteq> Return () \<and>
    fst (clear_fulfillment_submission ref q worker' (run_ops (exec_op E) ps J1)) = run_ops (exec_op E) ps J1"
proof -
  let ?J = "run_ops (exec_op E) ps J1"
  from publication_written [OF publish] submitted obtain y1 v where y1: "find_operation J1 ref Fulfill = Some y1"
    "map_of (receipt_of y1) ''submission'' = Some s" "map_of (receipt_of y1) ''reference'' = Some v"
    "se_json (rt_env R) v = se_json (rt_env R) (PStr reference)" by auto
  with publication_keeps_wf [OF wf publish] find_operation_SomeD [OF y1(1)]
  have "evidence ref Fulfill ''submission'' s ''reference'' v J1" unfolding evidence_def by blast
  then have kept: "evidence ref Fulfill ''submission'' s ''reference'' v ?J" by (rule evidence.run_keeps [OF _ run])
  then obtain z where "rows_unique ?J" "z \<in> set (operations ?J)" "op_ref z = ref" "op_kind z = Fulfill"
      and z: "map_of (receipt_of z) ''submission'' = Some s" "map_of (receipt_of z) ''reference'' = Some v"
    by (auto simp: evidence_def journal_wf_def)
  with in_operations_find [of ?J z] have found: "find_operation ?J ref Fulfill = Some z" by simp
  obtain res where res: "write_operation_receipt_field (rt_env R) ref Fulfill worker' ''reference'' (PStr other) True ?J = (?J, res)"
      "res \<in> {Conflict, Write_Lost}"
    using write_recorded [OF found z(2), of "rt_env R" worker' "PStr other" True] y1(4) other by auto
  obtain res' where res': "clear_operation_receipt_field ref Fulfill worker' ''submission'' ''reference'' ?J = (?J, res')"
    using clear_recorded [OF found z(2)] by blast
  have "fst (record_fulfillment_publication R ref other q worker' ?J) = ?J \<and> snd (record_fulfillment_publication R ref other q worker' ?J) \<noteq> Return ()"
    using res by (auto simp: record_fulfillment_publication_def write_fulfillment_field_def sbind_claimed slift_def split: sum.split)
  moreover have "fst (clear_fulfillment_submission ref q worker' ?J) = ?J"
    by (simp add: clear_fulfillment_submission_def sbind_claimed res' split: sum.split)
  ultimately show ?thesis using found z y1(4) by blast
qed

section \<open>The retry schedule\<close>

text \<open>The wait before attempt \<open>n + 1\<close>, with Python's float conversion left out.\<close>

definition retry_wait :: "int \<Rightarrow> rat" where
  "retry_wait n = (if n \<le> 1 then 30 else if n \<le> 6 then 30 * 2 ^ nat (n - 1) else 1800)"

lemma retry_wait_bounds: "30 \<le> retry_wait n \<and> retry_wait n \<le> 1800"
proof (cases "1 < n \<and> n \<le> 6")
  case True
  then have "n \<in> {2, 3, 4, 5, 6}" by auto
  then show ?thesis by (auto simp: retry_wait_def)
qed (auto simp: retry_wait_def)

lemma retry_backoff_wait:
  assumes "0 \<le> n"
  shows "retry_backoff n = (if n \<le> 1024 then Return (retry_wait n) else Raise Number_Overflow)"
proof -
  define k where "k = nat (max 1 (if n = 0 then 1 else n) - 1)"
  have k: "k = nat (n - 1)" using assms by (auto simp: k_def)
  have over: "(2::int) ^ 1024 \<le> 2 ^ k \<longleftrightarrow> \<not> n \<le> 1024"
    using power_increasing_iff [of "2::int" 1024 k] by (auto simp: k)
  have wait: "min (30 * 2 ^ k) 1800 = retry_wait n"
  proof (cases "n \<le> 6")
    case True
    with assms have "n \<in> {0, 1, 2, 3, 4, 5, 6}" by auto
    then show ?thesis by (auto simp: k retry_wait_def)
  next
    case False
    then have "(2::rat) ^ 6 \<le> 2 ^ k" by (intro power_increasing) (auto simp: k)
    with False show ?thesis by (simp add: retry_wait_def)
  qed
  show ?thesis unfolding retry_backoff_def by (simp only: Let_def k_def [symmetric] over wait) simp
qed

text \<open>A failed or pending step is retried after 30 seconds, doubling to at most 1800, and the
  schedule only moves the due time; after more than 1024 attempts scheduling raises instead and
  changes nothing.\<close>

theorem retry_schedule:
  assumes "find_operation J ref kind = Some y" and "op_state y = Op_Pending" and "0 \<le> op_attempts y"
  shows "30 \<le> retry_wait (op_attempts y) \<and> retry_wait (op_attempts y) \<le> 1800 \<and>
    schedule W ref kind now e J = (if op_attempts y \<le> 1024
      then (update_operation ref kind (retry_row (se_float (rt_env (wk_runtime W)) (now + retry_wait (op_attempts y))) e) J, Return ())
      else (J, Raise Number_Overflow))"
  using assms retry_wait_bounds [of "op_attempts y"]
  by (simp add: schedule_def retry_backoff_wait schedule_settlement_retry_def)

lemma schedule_overflow:
  assumes "find_operation J ref kind = Some y" and "op_state y = Op_Pending" and "1024 < op_attempts y"
  shows "schedule W ref kind now e J = (J, Raise Number_Overflow)"
  using assms by (simp add: schedule_def retry_backoff_wait)

text \<open>C37: An escrow that stays pending is polled without end: once its status has been reserved more
  than 1024 times, servicing it reports \<open>manual_required\<close> to the domain and schedules nothing.\<close>

theorem endless_polling_is_rejected:
  assumes status: "reconcile_status (wk_runtime W) (clock Status) (ob_ref x) (ob_claimant x) (wk_id W) J = (J1, Return r)"
      "oc_status r = Done_Pending"
    and row: "snd (load_record (ob_ref x) J1) = Return z" "ob_status z \<in> {Some Requires_Action, Some Escrow_Pending}" "ob_collection z \<noteq> Eff_Succeeded"
    and polled: "find_operation J1 (ob_ref x) Status = Some y" "op_state y = Op_Pending" "1024 < op_attempts y"
  shows "service_record W clock now x (J, es) = fst (terminal W x ''manual_required'' (Some (error_text W Number_Overflow)) (J1, es))"
proof -
  have ref: "ob_ref z = ob_ref x"
    using row(1) by (rule load_record_row) (auto dest: find_obligation_SomeD)
  have reload: "reload W (ob_ref x) (J1, es) = ((J1, es), Return z)"
    using row(1) by (simp add: reload_def sv_call_def load_record_def sread_def)
  have "status_step W clock now Done_Pending z = sv_bind (sv_schedule W (ob_ref z) Status now) (\<lambda>_. emit_ref ''settlement_status_pending'' (ob_ref z))"
    using row(2,3) by (auto simp: status_step_def)
  then have "status_step W clock now Done_Pending z (J1, es) = ((J1, es), Raise (Rejected (error_text W Number_Overflow)))"
    using schedule_overflow [OF polled] by (simp add: ref sv_bind_def sv_schedule_def sv_call_def)
  then have "service W clock now x (J, es) = ((J1, es), Raise (Rejected (error_text W Number_Overflow)))"
    using status reload by (simp add: service_def sv_bind_def sv_call_def)
  then show ?thesis by (simp add: service_record_def)
qed

text \<open>After a retry is scheduled for the step an obligation is due for, the obligation is due
  exactly when it is serviceable, the scheduled time has come and no status operation holds it
  off, and it is then among the obligations a pass takes if the limit allows.\<close>

theorem due_when_scheduled:
  assumes wf: "journal_wf J" and x: "x \<in> set (obligations J)"
    and scheduled: "schedule_settlement_retry (ob_ref x) (due_operation x) when e J = (J1, Return ())"
  shows "(obligation_due now J1 x \<longleftrightarrow> serviceable x \<and> when \<le> now \<and> \<not> status_holds_off now J1 (ob_ref x)) \<and>
    (obligation_due now J1 x \<and> int (length (obligations J1)) \<le> limit \<longrightarrow> x \<in> set (list_due_settlement_obligations now limit J1))"
proof
  from scheduled obtain y where y: "find_operation J (ob_ref x) (due_operation x) = Some y" "op_state y = Op_Pending"
      and J1: "J1 = update_operation (ob_ref x) (due_operation x) (retry_row when e) J"
    by (auto simp: schedule_settlement_retry_def split: option.splits if_splits)
  have "find_operation J1 (ob_ref x) (due_operation x) = Some (retry_row when e y)"
    unfolding J1 by (subst find_update_operation) (simp_all add: retry_row_def y)
  then show "obligation_due now J1 x \<longleftrightarrow> serviceable x \<and> when \<le> now \<and> \<not> status_holds_off now J1 (ob_ref x)"
    using y(2) by (auto simp: obligation_due_def operation_due_def retry_row_def)
  show "obligation_due now J1 x \<and> int (length (obligations J1)) \<le> limit \<longrightarrow> x \<in> set (list_due_settlement_obligations now limit J1)"
  proof
    assume due: "obligation_due now J1 x \<and> int (length (obligations J1)) \<le> limit"
    have mem: "x \<in> set (obligations J1)" using x by (simp add: J1 update_operation_def)
    then have "0 < length (obligations J1)" by (rule length_pos_if_in_set)
    with due have "0 < limit" "length (filter (obligation_due now J1) (obligations J1)) \<le> nat limit"
      using length_filter_le [of "obligation_due now J1" "obligations J1"] by linarith+
    with due mem show "x \<in> set (list_due_settlement_obligations now limit J1)"
      by (simp add: list_due_settlement_obligations_def)
  qed
qed

section \<open>Plans\<close>

lemma sbind_Return:
  assumes "sbind m f J = (J', Return y)"
  obtains J0 x where "m J = (J0, Return x)" and "f x J0 = (J', Return y)"
proof -
  obtain J0 r where m: "m J = (J0, r)" by fastforce
  with assms obtain x where "r = Inr x" by (cases r) (auto simp: sbind_def)
  with m assms that show thesis by (simp add: sbind_def)
qed

lemma find_append_Some: "find P xs = Some y \<Longrightarrow> find P (xs @ ys) = Some y"
  by (induction xs) (auto split: if_splits)

text \<open>A stored obligation is found again, whatever else is stored after it.\<close>

lemma upsert_again:
  assumes up: "upsert_settlement_obligation stamp row J = (J', Return stored)" and more: "obligations K = obligations J' @ news"
  shows "upsert_settlement_obligation stamp' row K = (K, Return stored)"
    and "ob_agreement stored = ob_agreement row" and "ob_index stored = ob_index row"
    and "\<exists>new. obligations J' = obligations J @ new"
proof -
  let ?P = "\<lambda>x. ob_agreement x = ob_agreement row \<and> ob_index x = ob_index row"
  from up have stored: "find ?P (obligations J') = Some stored" "ob_ref stored = ob_ref row" "ob_hash stored = ob_hash row"
      "ob_payer stored = ob_payer row" "ob_claimant stored = ob_claimant row"
    and J': "\<exists>new. obligations J' = obligations J @ new"
    by (auto simp: upsert_settlement_obligation_def Let_def split: option.splits if_splits)
  from J' show "\<exists>new. obligations J' = obligations J @ new" .
  from stored(1) have mem: "stored \<in> set (obligations J')" "?P stored" by (auto simp: find_Some_iff)
  then show "ob_agreement stored = ob_agreement row" "ob_index stored = ob_index row" by auto
  have "\<not> insertable K row" using mem more by (auto simp: insertable_def list_ex_iff)
  moreover have "find ?P (obligations K) = Some stored" unfolding more by (rule find_append_Some [OF stored(1)])
  ultimately show "upsert_settlement_obligation stamp' row K = (K, Return stored)"
    using stored(2-5) by (simp add: upsert_settlement_obligation_def)
qed

lemma bind_principals_index: "bind_principals o1 = Inr x \<Longrightarrow> ob_index x = ob_index o1 \<and> ob_agreement x = ob_agreement o1"
  by (auto simp: bind_principals_def res_bind_Inr_iff split: if_splits)

lemma from_obligation_index: "from_obligation E agreement i terms = Inr row \<Longrightarrow> ob_index row = i \<and> ob_agreement row = agreement"
  by (auto simp: from_obligation_def new_obligation_def res_bind_Inr_iff)

lemma register_obligations_again:
  assumes "register_obligations E stamps agreement i plan J = (J1, Return xs)"
  shows "register_obligations E stamps' agreement i plan J1 = (J1, Return xs) \<and> (\<exists>news. obligations J1 = obligations J @ news) \<and>
    map ob_index xs = map int [i..<i + length plan] \<and> (\<forall>x \<in> set xs. ob_agreement x = agreement)"
  using assms
proof (induction plan arbitrary: i J xs)
  case Nil
  then show ?case by (simp add: sreturn_def)
next
  case (Cons terms rest)
  from Cons.prems obtain row J0 stored x xs' where row: "from_obligation E agreement (int i) terms = Inr row"
      and up: "upsert_settlement_obligation (stamps i) row J = (J0, Return stored)" and x: "bind_principals stored = Inr x"
      and rest: "register_obligations E stamps agreement (Suc i) rest J0 = (J1, Return xs')" and xs: "xs = x # xs'"
    by (auto simp: slift_def sreturn_def elim!: sbind_Return)
  from Cons.IH [OF rest] obtain news where again: "register_obligations E stamps' agreement (Suc i) rest J1 = (J1, Return xs')"
      "obligations J1 = obligations J0 @ news" "map ob_index xs' = map int [Suc i..<Suc i + length rest]" "\<forall>x \<in> set xs'. ob_agreement x = agreement"
    by blast
  note up' = upsert_again [OF up again(2)]
  have "register_obligations E stamps' agreement i (terms # rest) J1 = (J1, Return xs)"
    by (simp add: sbind_def slift_def sreturn_def row up'(1) x again(1) xs)
  moreover have "\<exists>news. obligations J1 = obligations J @ news" using up'(4) again(2) by auto
  moreover have "ob_index x = int i" "ob_agreement x = agreement"
    using bind_principals_index [OF x] up'(2,3) from_obligation_index [OF row] by auto
  moreover have "[i..<i + length (terms # rest)] = i # [Suc i..<Suc i + length rest]" by (simp add: upt_conv_Cons del: upt_Suc)
  ultimately show ?case using again(3,4) by (simp add: xs del: register_obligations.simps upt_Suc)
qed

text \<open>A plan that registered is registered: registering it again, at any later time stamp,
  changes nothing and returns the same obligations, one per entry of the plan, in its order.\<close>

theorem plan_registration_idempotent:
  assumes "register_plan R stamps agreement plan J = (J1, Return xs)"
  shows "register_plan R stamps' agreement plan J1 = (J1, Return xs) \<and> map ob_index xs = map int [0..<length plan] \<and>
    (\<forall>x \<in> set xs. ob_agreement x = agreement)"
  using register_obligations_again [of "rt_env R" stamps agreement 0 plan J J1 xs] assms by (simp add: register_plan_def)

section \<open>Witnesses\<close>

text \<open>A journal with one obligation, ready to collect, whose fulfillment has succeeded, and a client
  that settles everything.\<close>

definition w_env :: settle_env where
  "w_env = \<lparr>se_sha256 = (\<lambda>s. s), se_json = (\<lambda>v. case v of PStr s \<Rightarrow> s | _ \<Rightarrow> ''j''), se_float = (\<lambda>q. q), se_parse_float = (\<lambda>_. None),
     se_repr = (\<lambda>_. [])\<rparr>"

definition w_payer :: principal where
  "w_payer = \<lparr>pr_scheme = EIP191, pr_identifier = ''p''\<rparr>"

definition w_claimant :: principal where
  "w_claimant = \<lparr>pr_scheme = EIP191, pr_identifier = ''c''\<rparr>"

definition w_obligation :: obligation_row where
  "w_obligation = (new_obligation ''o'' ''a'' 0 ''h'' [(''mechanism'', PStr ''x''), (''expiration_unix'', PInt 9)] w_payer w_claimant)
     \<lparr>ob_mechanism := Some ''m'', ob_status := Some Escrow_Ready, ob_fulfillment := Some ''f'', ob_materialization := Materialized,
      ob_condition := Cond_Ready\<rparr>"

definition w_fulfill :: operation_row where
  "w_fulfill = (new_operation ''o'' Fulfill ''q'')\<lparr>op_state := Op_Succeeded, op_attempts := 1\<rparr>"

definition w_journal :: journal where
  "w_journal = \<lparr>obligations = [w_obligation], operations = [w_fulfill]\<rparr>"

definition w_client :: escrow_client where
  "w_client = \<lparr>c_materialize = (\<lambda>_ _. Needs_Operator ''n'' []), c_status = (\<lambda>_ _ _ _. Needs_Operator ''n'' []),
     c_check = (\<lambda>_ _ _ _ _. Needs_Operator ''n'' []), c_collect = (\<lambda>_ _ _ _ _. Answered \<lparr>er_receipt = [(''tx'', PStr ''1'')], er_state = []\<rparr>),
     c_reclaim = (\<lambda>_ _ _ _ _. Failed ''E'' ''no'')\<rparr>"

definition w_runtime :: runtime where
  "w_runtime = \<lparr>rt_env = w_env, rt_clients = [(''x'', w_client)], rt_lease = 30, rt_fulfillment_lease = 60\<rparr>"

definition w_ticks :: ticks where
  "w_ticks = \<lparr>tk_now = 10, tk_first = ''1'', tk_last = ''2''\<rparr>"

lemmas w_defs = w_env_def w_payer_def w_claimant_def w_obligation_def w_fulfill_def w_journal_def w_client_def w_runtime_def w_ticks_def
  new_obligation_def new_operation_def

lemma w_journal_wf: "journal_wf w_journal"
  by (simp add: journal_wf_def rows_unique_def op_key_def mechanisms_unique_def lease_ok_def w_defs)

lemma w_journal_effects: "effects_ok w_journal"
  using w_journal_wf by (auto simp: effects_ok_def effects_exclusive_def effects_marked_def w_defs collection_active_def reclaim_active_def)

definition w_writes :: "journal_op list" where
  "w_writes = [Upsert_Obligation ''1'' w_obligation, Reserve ''2'' ''o'' Collect ''q'' ''w1'' 10 40, Reserve ''3'' ''o'' Reclaim ''r'' ''w2'' 20 50,
     Finish ''4'' ''o'' Collect ''w1'' (finish_defaults Op_Succeeded)]"

lemma w_writes_run:
  "map (\<lambda>x. (ob_collection x, ob_reclaim x)) (obligations (run_ops (exec_op w_env) w_writes empty_journal)) = [(Eff_Succeeded, Eff_Pending)]"
  by code_simp

theorem reachable_journal_wellformed_witness: "journal_wf (run_ops (exec_op w_env) w_writes empty_journal)"
  by (rule reachable_journal_wellformed) (simp add: w_writes_def consistent_rows_def)

theorem rows_keep_identity_and_version_witness:
  "\<exists>z \<in> set (obligations (run_ops (exec_op w_env) w_writes w_journal)). obligation_moves w_obligation z"
  using rows_keep_identity_and_version [OF w_journal_wf, of w_env w_writes w_obligation w_fulfill w_obligation "''5''"]
  by (simp add: w_writes_def consistent_rows_def) (simp add: w_journal_def)

definition w_leased :: journal where
  "w_leased = fst (reserve_settlement_operation ''2'' ''o'' Collect ''q'' ''w1'' 10 40 w_journal)"

lemma w_leased_grant:
  "reserve_settlement_operation ''2'' ''o'' Collect ''q'' ''w1'' 10 40 w_journal =
     (w_leased, Return (Some (take_lease ''w1'' 40 (new_operation ''o'' Collect ''q''))))"
proof -
  have "snd (reserve_settlement_operation ''2'' ''o'' Collect ''q'' ''w1'' 10 40 w_journal) =
      Return (Some (take_lease ''w1'' 40 (new_operation ''o'' Collect ''q'')))" by code_simp
  then show ?thesis by (simp add: w_leased_def prod_eq_iff)
qed

lemma w_leased_effects: "effects_ok w_leased"
  using honest_write_keeps [OF w_journal_effects, of "Reserve ''2'' ''o'' Collect ''q'' ''w1'' 10 40" w_env]
  by (simp add: honest_write_def consistent_rows_def w_leased_def)

theorem lease_is_exclusive_witness:
  "\<exists>h. held_operation (run_ops (exec_op w_env) [Reserve ''3'' ''o'' Collect ''q'' ''w2'' 20 50, Wake ''o''] w_leased) ''o'' Collect ''w1'' = Some h"
  using lease_is_exclusive [OF w_journal_wf w_leased_grant, of w_env "[Reserve ''3'' ''o'' Collect ''q'' ''w2'' 20 50, Wake ''o'']" "''w2''" 30]
  by (simp add: take_lease_def foreign_write_def consistent_rows_def)

theorem effects_exclude_each_other_witness:
  "\<exists>x. obligations (run_ops (exec_op w_env) w_writes empty_journal) = [x] \<and> ob_collection x = Eff_Succeeded \<and> ob_reclaim x \<noteq> Eff_Succeeded"
proof -
  obtain x where x: "obligations (run_ops (exec_op w_env) w_writes empty_journal) = [x]" "ob_collection x = Eff_Succeeded"
    using w_writes_run by (auto simp: map_eq_Cons_conv)
  moreover have "all_along (exec_op w_env) honest_write w_writes empty_journal"
    by (simp add: w_writes_def honest_write_def consistent_rows_def) (simp add: w_defs collection_active_def)
  ultimately show ?thesis using effects_exclude_each_other [of w_env w_writes x] by auto
qed

definition w_collected :: journal where
  "w_collected = fst (finish_settlement_operation ''4'' ''o'' Collect ''w1'' (finish_defaults Op_Succeeded) w_leased)"

lemma w_collected_finish:
  "finish_settlement_operation ''4'' ''o'' Collect ''w1'' (finish_defaults Op_Succeeded) w_leased = (w_collected, Return True)"
proof -
  have "snd (finish_settlement_operation ''4'' ''o'' Collect ''w1'' (finish_defaults Op_Succeeded) w_leased) = Return True" by code_simp
  then show ?thesis by (simp add: w_collected_def prod_eq_iff)
qed

theorem settled_effect_never_dispatched_again_witness:
  "\<exists>r. \<forall>act. with_reservation w_runtime w_ticks w_obligation Reclaim ''w3'' w_payer [] act
     (run_ops (exec_op w_env) [Reserve ''5'' ''o'' Reclaim ''r'' ''w2'' 100 200, Wake ''o''] w_collected) =
     (run_ops (exec_op w_env) [Reserve ''5'' ''o'' Reclaim ''r'' ''w2'' 100 200, Wake ''o''] w_collected, r)"
  by (rule settled_effect_never_dispatched_again [OF w_leased_effects _ w_collected_finish])
    (simp_all add: finish_defaults_def column_write_def consistent_rows_def w_obligation_def new_obligation_def)

theorem effects_need_their_guards_witness:
  "\<exists>x. find_obligation w_journal ''o'' = Some x \<and> w_claimant = ob_claimant x \<and> ob_condition x = Cond_Ready \<and> \<not> reclaim_active x"
proof -
  have "map ob_collection (obligations (fst (collect w_runtime w_ticks ''o'' w_claimant ''w1'' w_journal))) = [Eff_Succeeded]" by code_simp
  then have "fst (collect w_runtime w_ticks ''o'' w_claimant ''w1'' w_journal) \<noteq> w_journal"
    by (auto simp: w_journal_def w_obligation_def new_obligation_def)
  with effects_need_their_guards [of w_runtime w_ticks "''o''" w_claimant "''w1''" w_journal] show ?thesis by blast
qed

lemma w_load: "snd (load_record ''o'' w_journal) = Return w_obligation"
  by (simp add: load_record_def sread_def find_obligation_def bind_principals_def has_key_def w_defs)

lemma w_asks: "asks w_runtime w_ticks w_obligation Collect ''w1'' w_claimant [] w_journal"
  by (simp add: asks_def grantable_def find_obligation_def stored_operation_def find_operation_def reservation_blocked_def reclaim_active_def
    lease_live_def w_defs)

theorem collect_follows_reply_witness:
  "\<exists>z. find_obligation (fst (collect w_runtime w_ticks ''o'' w_claimant ''w1'' w_journal)) ''o'' = Some z \<and> ob_collection z = Eff_Succeeded \<and>
    ob_collection_receipt z = Some [(''tx'', PStr ''1'')]"
proof -
  have "call_client w_obligation (\<lambda>d. c_collect w_client d ''m'' ''f'' (settlement_operation_ref (ob_ref w_obligation) Collect) (ob_mstate w_obligation)) =
      Answered \<lparr>er_receipt = [(''tx'', PStr ''1'')], er_state = []\<rparr>"
    by (simp add: call_client_def operation_obligation_def w_defs)
  moreover have "client_for w_runtime w_obligation = Return w_client"
    by (simp add: client_for_def Let_def dict_get_def py_str_def w_defs)
  ultimately show ?thesis
    using collect_follows_reply [OF w_journal_wf w_load _ _ _ _ _ _ _ _ w_asks, of "''m''" "''f''" w_client]
    by (simp add: w_obligation_def new_obligation_def) blast
qed

text \<open>A fulfillment in flight that has recorded its submission.\<close>

definition w_publishing :: journal where
  "w_publishing = \<lparr>obligations = [w_obligation\<lparr>ob_fulfillment := None, ob_condition := Cond_Pending\<rparr>],
     operations = [(take_lease ''w1'' 40 (new_operation ''o'' Fulfill ''q''))\<lparr>op_receipt := Some [(''submission'', PStr ''s'')]\<rparr>]\<rparr>"

lemma w_publishing_wf: "journal_wf w_publishing"
  by (simp add: journal_wf_def rows_unique_def mechanisms_unique_def lease_ok_def w_publishing_def take_lease_def w_defs)

definition w_published :: journal where
  "w_published = fst (record_fulfillment_publication w_runtime ''o'' ''uid'' w_claimant ''w1'' w_publishing)"

lemma w_published_record: "record_fulfillment_publication w_runtime ''o'' ''uid'' w_claimant ''w1'' w_publishing = (w_published, Return ())"
proof -
  have "snd (record_fulfillment_publication w_runtime ''o'' ''uid'' w_claimant ''w1'' w_publishing) = Return ()" by code_simp
  then show ?thesis by (simp add: w_published_def prod_eq_iff)
qed

theorem publication_recorded_once_witness:
  "\<exists>z. find_operation (run_ops (exec_op w_env) [Reserve ''3'' ''o'' Fulfill ''q'' ''w2'' 50 90] w_published) ''o'' Fulfill = Some z \<and>
     map_of (receipt_of z) ''submission'' = Some (PStr ''s'')"
proof -
  have row: "find_operation w_publishing ''o'' Fulfill =
      Some ((take_lease ''w1'' 40 (new_operation ''o'' Fulfill ''q''))\<lparr>op_receipt := Some [(''submission'', PStr ''s'')]\<rparr>)"
    by (simp add: w_publishing_def find_operation_def take_lease_def new_operation_def)
  show ?thesis
    using publication_recorded_once [OF w_publishing_wf row _ w_published_record, of "PStr ''s''" w_env
        "[Reserve ''3'' ''o'' Fulfill ''q'' ''w2'' 50 90]" "''other''"]
    by (auto simp: receipt_of_def evidence_write_def consistent_rows_def w_runtime_def w_env_def)
qed

text \<open>An escrow whose client keeps answering \<open>pending\<close>.\<close>

definition w_polling_client :: escrow_client where
  "w_polling_client = w_client\<lparr>c_status := (\<lambda>_ m _ _. Answered \<lparr>mr_mechanism = m, mr_status = Escrow_Pending, mr_action = None, mr_anchor = None,
     mr_receipt = None, mr_state = [], mr_error = None\<rparr>)\<rparr>"

definition w_worker :: worker where
  "w_worker = \<lparr>wk_runtime = w_runtime\<lparr>rt_clients := [(''x'', w_polling_client)]\<rparr>, wk_id = ''w1'', wk_ready = None,
     wk_terminal = Some (\<lambda>_ _ _ J. (J, None)), wk_error = (\<lambda>_. (''OverflowError'', ''too large''))\<rparr>"

definition w_polled :: journal where
  "w_polled = \<lparr>obligations = [w_obligation\<lparr>ob_status := Some Escrow_Pending\<rparr>],
     operations = [(new_operation ''o'' Status ''j'')\<lparr>op_attempts := 1024\<rparr>]\<rparr>"

definition w_polled_again :: journal where
  "w_polled_again = fst (reconcile_status (wk_runtime w_worker) w_ticks ''o'' w_claimant ''w1'' w_polled)"

theorem endless_polling_is_rejected_witness:
  "service_record w_worker (\<lambda>_. w_ticks) 10 (w_obligation\<lparr>ob_status := Some Escrow_Pending\<rparr>) (w_polled, []) =
     fst (terminal w_worker (w_obligation\<lparr>ob_status := Some Escrow_Pending\<rparr>) ''manual_required'' (Some ''OverflowError: too large'') (w_polled_again, []))"
proof -
  obtain r where r: "snd (reconcile_status (wk_runtime w_worker) w_ticks ''o'' w_claimant ''w1'' w_polled) = Return r" "oc_status r = Done_Pending"
  proof -
    have "(case snd (reconcile_status (wk_runtime w_worker) w_ticks ''o'' w_claimant ''w1'' w_polled) of Inl _ \<Rightarrow> False
        | Inr r \<Rightarrow> oc_status r = Done_Pending)" by code_simp
    then show thesis using that by (auto split: sum.splits)
  qed
  then have run: "reconcile_status (wk_runtime w_worker) w_ticks ''o'' w_claimant ''w1'' w_polled = (w_polled_again, Return r)"
    by (simp add: w_polled_again_def prod_eq_iff)
  obtain z where z: "snd (load_record ''o'' w_polled_again) = Return z" "ob_status z = Some Escrow_Pending" "ob_collection z = Eff_Pending"
  proof -
    have "(case snd (load_record ''o'' w_polled_again) of Inl _ \<Rightarrow> False
        | Inr z \<Rightarrow> ob_status z = Some Escrow_Pending \<and> ob_collection z = Eff_Pending)" by code_simp
    then show thesis using that by (auto split: sum.splits)
  qed
  obtain y where y: "find_operation w_polled_again ''o'' Status = Some y" "op_state y = Op_Pending" "op_attempts y = 1025"
  proof -
    have "(case find_operation w_polled_again ''o'' Status of None \<Rightarrow> False
        | Some y \<Rightarrow> op_state y = Op_Pending \<and> op_attempts y = 1025)" by code_simp
    then show thesis using that by (auto split: option.splits)
  qed
  have "ob_ref (w_obligation\<lparr>ob_status := Some Escrow_Pending\<rparr>) = ''o''" "ob_claimant (w_obligation\<lparr>ob_status := Some Escrow_Pending\<rparr>) = w_claimant"
    "wk_id w_worker = ''w1''" "error_text w_worker Number_Overflow = ''OverflowError: too large''"
    by (simp_all add: w_defs w_worker_def error_text_def)
  then show ?thesis
    using endless_polling_is_rejected [of w_worker "\<lambda>_. w_ticks" "w_obligation\<lparr>ob_status := Some Escrow_Pending\<rparr>" w_polled w_polled_again r z y 10 "[]"]
      run r(2) z y by simp
qed

theorem retry_schedule_witness:
  "schedule w_worker ''o'' Status 10 None w_polled = (update_operation ''o'' Status (retry_row 1810 None) w_polled, Return ())"
proof -
  have "find_operation w_polled ''o'' Status = Some ((new_operation ''o'' Status ''j'')\<lparr>op_attempts := 1024\<rparr>)"
    by (simp add: w_polled_def find_operation_def new_operation_def)
  from retry_schedule [OF this, of w_worker 10 None] show ?thesis
    by (simp add: retry_wait_def w_worker_def w_runtime_def w_env_def new_operation_def)
qed

text \<open>A collection that waits for its retry.\<close>

definition w_waiting :: journal where
  "w_waiting = \<lparr>obligations = [w_obligation], operations = [new_operation ''o'' Collect ''q'']\<rparr>"

lemma w_waiting_wf: "journal_wf w_waiting"
  by (simp add: w_waiting_def journal_wf_def rows_unique_def mechanisms_unique_def lease_ok_def w_defs)

theorem due_when_scheduled_witness:
  "w_obligation \<in> set (list_due_settlement_obligations 50 5 (update_operation ''o'' Collect (retry_row 40 None) w_waiting))"
proof -
  let ?J = "update_operation ''o'' Collect (retry_row 40 None) w_waiting"
  have "due_operation w_obligation = Collect" "ob_ref w_obligation = ''o''" "serviceable w_obligation"
    by (simp_all add: due_operation_def serviceable_def w_defs)
  moreover have "schedule_settlement_retry ''o'' Collect 40 None w_waiting = (?J, Return ())"
    by (simp add: schedule_settlement_retry_def find_operation_def w_waiting_def new_operation_def)
  moreover have "\<not> status_holds_off 50 ?J ''o''" "length (obligations ?J) = 1"
    by (simp_all add: status_holds_off_def find_operation_def update_operation_def w_waiting_def new_operation_def retry_row_def)
  moreover have "w_obligation \<in> set (obligations w_waiting)" by (simp add: w_waiting_def)
  ultimately show ?thesis using due_when_scheduled [OF w_waiting_wf, of w_obligation 40 None ?J 50 5] by simp
qed

definition w_terms :: dict where
  "w_terms = (let who = obj [(''scheme'', PStr ''eip191''), (''identifier'', PStr (''0x'' @ replicate 40 (CHR ''a'')))] in
     [(''payer_principal'', who), (''claimant_principal'', who)])"

definition w_registered :: "journal \<times> (settle_error, obligation_row list) result" where
  "w_registered = register_plan w_runtime (\<lambda>_. ''1'') ''a'' [w_terms] empty_journal"

theorem plan_registration_idempotent_witness:
  "\<exists>x. register_plan w_runtime (\<lambda>_. ''2'') ''a'' [w_terms] (fst w_registered) = (fst w_registered, Return [x]) \<and> ob_index x = 0"
proof -
  have "(case snd w_registered of Inl _ \<Rightarrow> False | Inr xs \<Rightarrow> length xs = 1)" by code_simp
  then obtain x where "snd w_registered = Return [x]" by (auto simp: length_Suc_conv split: sum.splits)
  then have "register_plan w_runtime (\<lambda>_. ''1'') ''a'' [w_terms] empty_journal = (fst w_registered, Return [x])"
    by (simp add: w_registered_def prod_eq_iff)
  from plan_registration_idempotent [OF this, of "\<lambda>_. ''2''"] show ?thesis by simp
qed

end
