(* ===== verification/Settlement_Jobs.thy ===== *)
theory Settlement_Jobs
  imports Settlement_Servicing
begin

text \<open>
  The two coordinators around the settlement runtime.  \<open>jobs.py\<close>: \<open>SettlementJobCoordinator\<close> verifies,
  adopts, fulfills and projects one obligation; its domain hooks are parameters over the journal
  and a domain state \<open>'d\<close>.  \<open>policy.py\<close>: \<open>FailurePolicy\<close> dispatches configured actions in order; the
  handlers are parameters over a store.
\<close>

section \<open>Jobs\<close>

record prepared_settlement =
  ps_agreement :: string
  ps_obligations :: "dict list"
  ps_selected :: int
  ps_principal :: principal
  ps_mechanism :: string
  ps_receipt :: "dict option"

definition prepared_ok :: "prepared_settlement \<Rightarrow> (settle_error, prepared_settlement) result" where
  "prepared_ok q =
     (if ps_agreement q = [] then Raise (Refused_Value ''agreement_ref'')
      else if ps_obligations q = [] then Raise (Refused_Value ''obligations'')
      else if \<not> (0 \<le> ps_selected q \<and> ps_selected q < int (length (ps_obligations q))) then Raise (Refused_Value ''selected_obligation_index'')
      else if ps_mechanism q = [] then Raise (Refused_Value ''mechanism_ref'')
      else Return q)"

datatype fulfillment_status = Fulfilled | Fulfillment_Failed | Fulfillment_Deferred

record fulfillment_outcome =
  fo_status :: fulfillment_status
  fo_ref :: "string option"
  fo_public :: dict
  fo_private :: pyval
  fo_reason :: "string option"

definition fulfillment_outcome_ok :: "fulfillment_outcome \<Rightarrow> (settle_error, fulfillment_outcome) result" where
  "fulfillment_outcome_ok r =
     (if fo_status r = Fulfilled \<and> (fo_ref r = None \<or> fo_ref r = Some []) then Raise (Refused_Value ''fulfillment_ref'') else Return r)"

record 'd job_hooks =
  jh_prepare :: "string \<Rightarrow> string \<Rightarrow> journal \<times> 'd \<Rightarrow> (journal \<times> 'd) \<times> (settle_error, prepared_settlement) result"
  jh_reserve_start :: "prepared_settlement \<Rightarrow> string \<Rightarrow> string \<Rightarrow> journal \<times> 'd \<Rightarrow> (journal \<times> 'd) \<times> (settle_error, dict option) result"
  jh_fulfill :: "prepared_settlement \<Rightarrow> journal \<times> 'd \<Rightarrow> (journal \<times> 'd) \<times> (settle_error, fulfillment_outcome) result"
  jh_persist :: "prepared_settlement \<Rightarrow> fulfillment_outcome \<Rightarrow> journal \<times> 'd \<Rightarrow> journal \<times> 'd"
  jh_wake :: "string \<Rightarrow> journal \<times> 'd \<Rightarrow> journal \<times> 'd"
  jh_error :: "settle_error \<Rightarrow> string"

definition failed_outcome :: "dict \<Rightarrow> pyval \<Rightarrow> string \<Rightarrow> fulfillment_outcome" where
  "failed_outcome public private reason = \<lparr>fo_status = Fulfillment_Failed, fo_ref = None, fo_public = public, fo_private = private, fo_reason = Some reason\<rparr>"

text \<open>What the domain's attempt came to; what it raises is a failed outcome.\<close>

definition attempt :: "'d job_hooks \<Rightarrow> prepared_settlement \<Rightarrow> journal \<times> 'd \<Rightarrow> (journal \<times> 'd) \<times> fulfillment_outcome" where
  "attempt H q S = (case jh_fulfill H q S of (S1, r) \<Rightarrow>
     (S1, case r of Inl e \<Rightarrow> failed_outcome [] PNone (jh_error H e)
        | Inr f \<Rightarrow> (case fulfillment_outcome_ok f of Inl e \<Rightarrow> failed_outcome [] PNone (jh_error H e) | Inr f \<Rightarrow> f)))"

text \<open>A fulfilled outcome is bound before it is believed.\<close>

definition bind_outcome :: "'d job_hooks \<Rightarrow> ticks \<Rightarrow> prepared_settlement \<Rightarrow> string \<Rightarrow> fulfillment_outcome \<Rightarrow> journal \<times> 'd \<Rightarrow> (journal \<times> 'd) \<times> fulfillment_outcome" where
  "bind_outcome H T q ref f S =
     (if fo_status f \<noteq> Fulfilled then (S, f)
      else (case bind_fulfillment T ref (the (fo_ref f)) (ps_principal q) (fst S) of
          (J', Inr _) \<Rightarrow> ((J', snd S), f)
        | (J', Inl e) \<Rightarrow> ((J', snd S), failed_outcome (fo_public f) (fo_private f) (''fulfillment_binding_error: '' @ jh_error H e))))"

definition run_job :: "'d job_hooks \<Rightarrow> ticks \<Rightarrow> prepared_settlement \<Rightarrow> string \<Rightarrow> journal \<times> 'd \<Rightarrow> (journal \<times> 'd) \<times> fulfillment_outcome" where
  "run_job H T q ref S =
     (let (S1, f) = attempt H q S; (S2, g) = bind_outcome H T q ref f S1; S3 = jh_persist H q g S2 in
      (if fo_status g = Fulfilled then jh_wake H ref S3 else S3, g))"

datatype job_start = Already_Started dict | Provisioning string string prepared_settlement string

text \<open>\<open>start\<close>: the task it spawns is the pending \<open>run_job\<close> that \<open>Provisioning\<close> carries.\<close>

definition lift_method :: "'a journal_method \<Rightarrow> ('a \<Rightarrow> journal \<times> 'd \<Rightarrow> (journal \<times> 'd) \<times> (settle_error, 'b) result) \<Rightarrow> journal \<times> 'd \<Rightarrow> (journal \<times> 'd) \<times> (settle_error, 'b) result" where
  "lift_method m f S = (case m (fst S) of (J', Inl e) \<Rightarrow> ((J', snd S), Inl e) | (J', Inr x) \<Rightarrow> f x (J', snd S))"

definition start_job ::
    "'d job_hooks \<Rightarrow> runtime \<Rightarrow> (nat \<Rightarrow> string) \<Rightarrow> ticks \<Rightarrow> string \<Rightarrow> string \<Rightarrow> journal \<times> 'd \<Rightarrow> (journal \<times> 'd) \<times> (settle_error, job_start) result" where
  "start_job H R stamps T escrow negotiation S = (case jh_prepare H escrow negotiation S of
     (S1, Inl e) \<Rightarrow> (S1, Inl e)
   | (S1, Inr offered) \<Rightarrow> (case prepared_ok offered of Inl e \<Rightarrow> (S1, Inl e) | Inr q \<Rightarrow>
       lift_method (register_plan R stamps (ps_agreement q) (ps_obligations q)) (\<lambda>records.
       lift_method (adopt R T (ob_ref (records ! nat (ps_selected q))) (ps_principal q) (ps_mechanism q) (ps_receipt q) None None ''adopt'') (\<lambda>_ S2.
         case jh_reserve_start H q escrow negotiation S2 of
           (S3, Inl e) \<Rightarrow> (S3, Inl e)
         | (S3, Inr (Some existing)) \<Rightarrow> (S3, Return (Already_Started existing))
         | (S3, Inr None) \<Rightarrow> (S3, Return (Provisioning escrow negotiation q (ob_ref (records ! nat (ps_selected q))))))) S1))"

section \<open>Failure actions\<close>

datatype action_config = No_Actions | One_Action string | Many_Actions "pyval list"

definition configured_actions :: "settle_env \<Rightarrow> action_config \<Rightarrow> string list" where
  "configured_actions E c = filter (\<lambda>a. a \<noteq> []) (case c of
     No_Actions \<Rightarrow> []
   | One_Action a \<Rightarrow> [py_strip a]
   | Many_Actions vs \<Rightarrow> map (\<lambda>v. py_strip (py_str (se_repr E) v)) vs)"

datatype handler_reply = Handled "dict option" | Handler_Raised string

definition failed_action :: "string \<Rightarrow> string \<Rightarrow> dict" where
  "failed_action action msg = [(''action'', PStr action), (''status'', PStr ''failed''), (''error'', PStr msg)]"

text \<open>A handler's own result must state a status; it may name the action itself.\<close>

definition action_result :: "string \<Rightarrow> handler_reply \<Rightarrow> dict" where
  "action_result action reply = (case reply of
     Handler_Raised msg \<Rightarrow> failed_action action msg
   | Handled None \<Rightarrow> [(''action'', PStr action), (''status'', PStr ''succeeded'')]
   | Handled (Some d) \<Rightarrow>
       (let projected = (if has_key d ''action'' then d else dict_set ''action'' (PStr action) d) in
        case dict_get projected ''status'' of
          PStr s \<Rightarrow> if s = [] then failed_action action ''failure action result must include a non-empty status'' else projected
        | _ \<Rightarrow> failed_action action ''failure action result must include a non-empty status''))"

definition apply_action ::
    "(string \<times> ('s \<Rightarrow> dict \<Rightarrow> 's \<times> handler_reply)) list \<Rightarrow> dict \<Rightarrow> string \<Rightarrow> 's \<times> dict list \<Rightarrow> 's \<times> dict list" where
  "apply_action handlers ctx action S = (case map_of handlers action of
     None \<Rightarrow> (fst S, snd S @ [failed_action action ''unknown action''])
   | Some handler \<Rightarrow> (case handler (fst S) ctx of (store, reply) \<Rightarrow> (store, snd S @ [action_result action reply])))"

definition apply_policy ::
    "settle_env \<Rightarrow> (string \<times> ('s \<Rightarrow> dict \<Rightarrow> 's \<times> handler_reply)) list \<Rightarrow> action_config \<Rightarrow> dict \<Rightarrow> 's \<Rightarrow> 's \<times> dict list" where
  "apply_policy E handlers c ctx store = fold (apply_action handlers ctx) (configured_actions E c) (store, [])"

section \<open>What they promise\<close>

text \<open>A job that comes out fulfilled has bound its reference to the obligation, for its claimant.\<close>

lemma bound_outcome:
  assumes "bind_outcome H T q ref f S = (S', g)" and "fo_status g = Fulfilled"
  shows "f = g \<and> snd S' = snd S \<and> (\<exists>x. bind_fulfillment T ref (the (fo_ref g)) (ps_principal q) (fst S) = (fst S', Return x))"
  using assms by (auto simp: bind_outcome_def failed_outcome_def split: if_splits prod.splits sum.splits)

lemma status_reported: "\<exists>s. s \<noteq> [] \<and> dict_get (action_result action reply) ''status'' = PStr s"
proof (cases reply)
  case (Handled r)
  show ?thesis
  proof (cases r)
    case (Some d)
    define projected where "projected = (if has_key d ''action'' then d else dict_set ''action'' (PStr action) d)"
    have "action_result action reply = projected \<and> (\<exists>s. s \<noteq> [] \<and> dict_get projected ''status'' = PStr s) \<or>
        action_result action reply = failed_action action ''failure action result must include a non-empty status''"
      by (simp add: action_result_def Handled Some projected_def [symmetric] split: pyval.split)
    then show ?thesis by (auto simp: failed_action_def dict_get_def)
  qed (simp add: action_result_def Handled dict_get_def)
qed (simp add: action_result_def failed_action_def dict_get_def)

lemma policy_reports_fold:
  "\<exists>rs. snd (fold (apply_action handlers ctx) actions (store, acc)) = acc @ rs \<and>
    list_all2 (\<lambda>a r. (\<exists>s. s \<noteq> [] \<and> dict_get r ''status'' = PStr s) \<and>
      (map_of handlers a = None \<longrightarrow> r = failed_action a ''unknown action'')) actions rs"
proof (induction actions arbitrary: store acc)
  case (Cons a actions)
  obtain store' r where r: "apply_action handlers ctx a (store, acc) = (store', acc @ [r])"
    "\<exists>s. s \<noteq> [] \<and> dict_get r ''status'' = PStr s" "map_of handlers a = None \<longrightarrow> r = failed_action a ''unknown action''"
  proof (cases "map_of handlers a")
    case None
    then show thesis using that by (auto simp: apply_action_def failed_action_def dict_get_def)
  next
    case (Some h)
    obtain store' reply where "h store ctx = (store', reply)" by fastforce
    with Some that [of store' "action_result a reply"] status_reported show thesis by (auto simp: apply_action_def)
  qed
  from Cons.IH [of store' "acc @ [r]"] obtain rs where rs: "snd (fold (apply_action handlers ctx) actions (store', acc @ [r])) = acc @ r # rs"
    "list_all2 (\<lambda>a r. (\<exists>s. s \<noteq> [] \<and> dict_get r ''status'' = PStr s) \<and> (map_of handlers a = None \<longrightarrow> r = failed_action a ''unknown action'')) actions rs"
    by auto
  with r show ?case by (intro exI [of _ "r # rs"]) auto
qed simp

end
