(* ===== verification/Negotiation_Rounds.thy ===== *)
theory Negotiation_Rounds
  imports Prelude
begin

text \<open>
  The negotiation framework of the policy kit:
  \<open>src/kit/policy/src/market_policy/negotiation_middleware.py\<close> (rounds, decisions, the context
  carrier, the chain runner, the registry and the configuration of chains) and
  \<open>listing_source.py\<close> (what the check of a listing against its source refuses).

  A middleware maps the transcript and the context to an optional decision and the context it
  leaves; the code's middlewares write \<open>context.intermediate\<close> in place, so the context a chain
  leaves is the one its last middleware returned.  Proposals are JSON objects, with text keys.
\<close>

section \<open>Errors and parameters\<close>

datatype nego_error =
    Amount_Error string
  | Value_Error string
  | State_Error string
  | Type_Error string
  | Attribute_Error
  | Overflow_Error
  | Decimal_Error
  | Key_Error string
  | Unknown_Middleware string
  | Runtime_Error string
  | Chain_Exhausted
  | Unavailable string string
  | Unfulfillable string "string option"
  | Paused string

text \<open>\<open>except ValueError\<close>, and the text of one.\<close>

fun value_error :: "nego_error \<Rightarrow> string option" where
  "value_error (Amount_Error m) = Some m"
| "value_error (Value_Error m) = Some m"
| "value_error (State_Error m) = Some m"
| "value_error _ = None"

record nego_env =
  ne_frepr :: "rat \<Rightarrow> string"
  ne_loads :: "string \<Rightarrow> pyval option"
  ne_slot :: "string \<Rightarrow> string \<Rightarrow> string option \<Rightarrow> string option"

abbreviation reprv :: "nego_env \<Rightarrow> pyval \<Rightarrow> string" where
  "reprv E \<equiv> py_repr (ne_frepr E)"

text \<open>\<open>k in s\<close> of two texts.\<close>

fun infix_of :: "string \<Rightarrow> string \<Rightarrow> bool" where
  "infix_of k [] = (k = [])"
| "infix_of k (c # s) = (take (length k) (c # s) = k \<or> infix_of k s)"

section \<open>JSON objects\<close>

type_synonym jobj = "(pyval \<times> pyval) list"

definition jget :: "jobj \<Rightarrow> string \<Rightarrow> pyval" where
  "jget d k = (case map_of d (PStr k) of None \<Rightarrow> PNone | Some v \<Rightarrow> v)"

definition jhas :: "jobj \<Rightarrow> string \<Rightarrow> bool" where
  "jhas d k = has_key d (PStr k)"

definition jset :: "string \<Rightarrow> pyval \<Rightarrow> jobj \<Rightarrow> jobj" where
  "jset k v d = dict_set (PStr k) v d"

lemma jget_jset [simp]: "jget (jset k v d) k' = (if k' = k then v else jget d k')"
  by (simp add: jget_def jset_def)

lemma jhas_jset [simp]: "jhas (jset k v d) k' \<longleftrightarrow> k' = k \<or> jhas d k'"
  by (auto simp: jhas_def jset_def has_key_def)

text \<open>\<open>v or {}\<close>, read as a dictionary when it is one.\<close>

definition or_empty :: "pyval \<Rightarrow> pyval" where
  "or_empty v = (if py_truthy v then v else PDict [])"

definition as_dict :: "pyval \<Rightarrow> jobj option" where
  "as_dict v = (case v of PDict d \<Rightarrow> Some d | _ \<Rightarrow> None)"

lemma as_dict_Some [simp]: "as_dict v = Some d \<longleftrightarrow> v = PDict d"
  by (cases v) (auto simp: as_dict_def)

lemma as_dict_simps [simp]: "as_dict (PDict d) = Some d" "as_dict PNone = None"
  by (simp_all add: as_dict_def)

section \<open>Transcript, decisions and the context\<close>

datatype sender = Us | Them

record nego_round =
  nr_number :: int
  nr_sender :: sender
  nr_action :: string
  nr_proposal :: "jobj option"

record nego_decision =
  nd_action :: string
  nd_proposal :: "jobj option"
  nd_reason :: "string option"

definition decide :: "string \<Rightarrow> jobj option \<Rightarrow> string option \<Rightarrow> nego_decision" where
  "decide action proposal reason = \<lparr>nd_action = action, nd_proposal = proposal, nd_reason = reason\<rparr>"

lemma decide_simps [simp]:
  "nd_action (decide a p r) = a" "nd_proposal (decide a p r) = p" "nd_reason (decide a p r) = r"
  by (simp_all add: decide_def)

definition decision_dict :: "nego_decision \<Rightarrow> jobj" where
  "decision_dict d = [(PStr ''action'', PStr (nd_action d))]
     @ (case nd_proposal d of None \<Rightarrow> [] | Some p \<Rightarrow> [(PStr ''proposal'', PDict p)])
     @ (case nd_reason d of None \<Rightarrow> [] | Some r \<Rightarrow> [(PStr ''reason'', PStr r)])"

datatype source_outcome = Src_Matches | Src_Declared_Mismatch | Src_Unavailable | Src_Unverifiable

record source_verdict =
  sv_outcome :: source_outcome
  sv_reason :: "string option"
  sv_fields :: "string list"

record nego_context =
  nc_direction :: string
  nc_reference :: pyval
  nc_opening :: pyval
  nc_listing :: jobj
  nc_proposal :: "jobj option"
  nc_resources :: jobj
  nc_max_rounds :: int
  nc_source :: "source_verdict option"
  nc_intermediate :: jobj

definition note_in :: "string \<Rightarrow> pyval \<Rightarrow> nego_context \<Rightarrow> nego_context" where
  "note_in k v c = c\<lparr>nc_intermediate := jset k v (nc_intermediate c)\<rparr>"

type_synonym middleware = "nego_round list \<Rightarrow> nego_context \<Rightarrow> (nego_error, nego_decision option \<times> nego_context) result"

text \<open>A middleware's two outcomes: it passes, or it decides and ends the chain.\<close>

abbreviation pass :: "nego_context \<Rightarrow> (nego_error, nego_decision option \<times> nego_context) result" where
  "pass c \<equiv> Return (None, c)"

abbreviation conclude :: "nego_context \<Rightarrow> string \<Rightarrow> jobj option \<Rightarrow> string option \<Rightarrow> (nego_error, nego_decision option \<times> nego_context) result" where
  "conclude c action proposal reason \<equiv> Return (Some (decide action proposal reason), c)"

definition reject :: "nego_context \<Rightarrow> string \<Rightarrow> (nego_error, nego_decision option \<times> nego_context) result" where
  "reject c reason = conclude c ''reject'' None (Some reason)"

section \<open>Reading the transcript\<close>

definition from_them :: "nego_round list \<Rightarrow> jobj list" where
  "from_them h = List.map_filter (\<lambda>r. if nr_sender r = Them then nr_proposal r else None) h"

definition their_last_proposal :: "nego_round list \<Rightarrow> jobj option" where
  "their_last_proposal h = (case rev (from_them h) of [] \<Rightarrow> None | p # _ \<Rightarrow> Some p)"

definition our_first_proposal :: "nego_round list \<Rightarrow> jobj option" where
  "our_first_proposal h =
     (case List.map_filter (\<lambda>r. if nr_sender r = Us then nr_proposal r else None) h of [] \<Rightarrow> None | p # _ \<Rightarrow> Some p)"

text \<open>The rounds in which we countered.\<close>

definition is_our_counter :: "nego_round \<Rightarrow> bool" where
  "is_our_counter r = (nr_sender r = Us \<and> nr_action r = ''counter'')"

definition our_counters :: "nego_round list \<Rightarrow> nego_round list" where
  "our_counters h = filter is_our_counter h"

section \<open>Running a chain\<close>

fun run_chain_with_context ::
    "middleware list \<Rightarrow> nego_round list \<Rightarrow> nego_context \<Rightarrow> (nego_error, nego_decision \<times> nego_context) result" where
  "run_chain_with_context [] h c = Raise Chain_Exhausted"
| "run_chain_with_context (m # ms) h c = res_bind (m h c) (\<lambda>(d, c').
     case d of Some x \<Rightarrow> Return (x, c') | None \<Rightarrow> run_chain_with_context ms h c')"

definition run_chain :: "middleware list \<Rightarrow> nego_round list \<Rightarrow> nego_context \<Rightarrow> (nego_error, nego_decision) result" where
  "run_chain ms h c = res_bind (run_chain_with_context ms h c) (\<lambda>(d, _). Return d)"

text \<open>\<open>load_negotiation_chain\<close>: a name is looked up in the registry, then among the installed
  entry points; one found there is registered.  The registry keeps what was registered before a
  failure.\<close>

type_synonym registry = "(string \<times> middleware) list"

definition resolve_name :: "(string \<Rightarrow> middleware option) \<Rightarrow> string \<Rightarrow> registry \<Rightarrow> registry \<times> (nego_error, middleware) result" where
  "resolve_name entry_points name R = (case map_of R name of
     Some m \<Rightarrow> (R, Return m)
   | None \<Rightarrow> (case entry_points name of
        Some m \<Rightarrow> (dict_set name m R, Return m)
      | None \<Rightarrow> (R, Raise (Unknown_Middleware name))))"

fun resolve_names :: "(string \<Rightarrow> middleware option) \<Rightarrow> string list \<Rightarrow> registry \<Rightarrow> registry \<times> (nego_error, middleware list) result" where
  "resolve_names ep [] R = (R, Return [])"
| "resolve_names ep (n # ns) R = (case resolve_name ep n R of
     (R', Inl e) \<Rightarrow> (R', Inl e)
   | (R', Inr m) \<Rightarrow> (case resolve_names ep ns R' of
        (R'', Inl e) \<Rightarrow> (R'', Inl e)
      | (R'', Inr ms) \<Rightarrow> (R'', Inr (m # ms))))"

definition load_negotiation_chain ::
    "(string \<Rightarrow> middleware option) \<Rightarrow> string list \<Rightarrow> registry \<Rightarrow> registry \<times> (nego_error, middleware list) result" where
  "load_negotiation_chain ep names R =
     (if names = [] then (R, Raise (Value_Error ''load_negotiation_chain requires a non-empty list of middleware names.''))
      else resolve_names ep names R)"

section \<open>Configured chains\<close>

lemma size_map_of: "map_of d k = Some w \<Longrightarrow> size w < Suc (size_list (size_prod size size) d)"
proof (induction d)
  case (Cons p d)
  then show ?case by (cases p) (auto split: if_splits)
qed simp

function normalize_policy_chain_config :: "nego_env \<Rightarrow> pyval \<Rightarrow> string list" where
  "normalize_policy_chain_config E v = (case v of
     PStr s \<Rightarrow> (if py_strip s \<noteq> [] then [py_strip s] else [])
   | PList xs \<Rightarrow> filter (\<lambda>n. n \<noteq> []) (map (\<lambda>x. py_strip (py_str (ne_frepr E) x)) xs)
   | PDict d \<Rightarrow>
       (case map_of d (PStr ''chain'') of
          Some w \<Rightarrow> normalize_policy_chain_config E w
        | None \<Rightarrow> (case map_of d (PStr ''policies'') of
             Some w \<Rightarrow> normalize_policy_chain_config E w
           | None \<Rightarrow> (case map_of d (PStr ''policy'') of
                Some w \<Rightarrow> normalize_policy_chain_config E w
              | None \<Rightarrow> [])))
   | _ \<Rightarrow> [])"
  by pat_completeness auto

termination
  by (relation "measure (\<lambda>(E, v). size v)") (auto dest: size_map_of)

declare normalize_policy_chain_config.simps [simp del]

definition normalize_policies_by_escrow_kind_config :: "nego_env \<Rightarrow> pyval \<Rightarrow> (string \<times> string list) list option" where
  "normalize_policies_by_escrow_kind_config E v = (case v of
     PDict d \<Rightarrow> Some (fold (\<lambda>(kind, raw) out.
         let chain = normalize_policy_chain_config E raw in
         if chain = [] then out else dict_set (py_strip (py_str (ne_frepr E) kind)) chain out) d [])
   | _ \<Rightarrow> None)"

section \<open>The round bound\<close>

definition max_rounds_guard :: middleware where
  "max_rounds_guard h c =
     (if nc_max_rounds c \<le> int (length (our_counters h)) then conclude c ''exit'' None (Some ''max_rounds'') else pass c)"

section \<open>A listing checked against its source\<close>

definition mk_source_verdict :: "string \<Rightarrow> string option \<Rightarrow> string list \<Rightarrow> (nego_error, source_verdict) result" where
  "mk_source_verdict outcome reason differing =
     (let verdict = (\<lambda>x. Return \<lparr>sv_outcome = x, sv_reason = reason, sv_fields = differing\<rparr>) in
      if outcome = ''matches'' then verdict Src_Matches
      else if outcome = ''declared_mismatch'' then verdict Src_Declared_Mismatch
      else if outcome = ''unavailable'' then verdict Src_Unavailable
      else if outcome = ''unverifiable'' then verdict Src_Unverifiable
      else Raise (Value_Error (''unknown listing-source outcome '' @ repr_str outcome)))"

record source_refusal =
  sr_reason :: string
  sr_retryable :: bool

definition NO_MATCHING_DECLARATION :: string where "NO_MATCHING_DECLARATION = ''no_matching_declaration''"

definition NO_MATCHING_INVENTORY :: string where "NO_MATCHING_INVENTORY = ''no_matching_inventory''"

definition LISTING_SOURCE_UNVERIFIABLE :: string where "LISTING_SOURCE_UNVERIFIABLE = ''listing_source_unverifiable''"

definition classify_listing_source :: "source_verdict option \<Rightarrow> source_refusal option" where
  "classify_listing_source v = (case v of
     None \<Rightarrow> Some \<lparr>sr_reason = NO_MATCHING_DECLARATION, sr_retryable = False\<rparr>
   | Some x \<Rightarrow> (case sv_outcome x of
        Src_Matches \<Rightarrow> None
      | Src_Declared_Mismatch \<Rightarrow> Some \<lparr>sr_reason = NO_MATCHING_DECLARATION, sr_retryable = False\<rparr>
      | Src_Unavailable \<Rightarrow> Some \<lparr>sr_reason = NO_MATCHING_INVENTORY, sr_retryable = False\<rparr>
      | Src_Unverifiable \<Rightarrow> Some \<lparr>sr_reason = LISTING_SOURCE_UNVERIFIABLE, sr_retryable = True\<rparr>))"

definition has_matching_inventory_guard :: middleware where
  "has_matching_inventory_guard h c = (case classify_listing_source (nc_source c) of
     None \<Rightarrow> pass c
   | Some r \<Rightarrow> if sr_retryable r then pass c else reject c (sr_reason r))"

lemma classify_None_iff: "classify_listing_source v = None \<longleftrightarrow> (\<exists>x. v = Some x \<and> sv_outcome x = Src_Matches)"
  by (auto simp: classify_listing_source_def split: option.splits source_outcome.splits)

section \<open>Guards that can only veto\<close>

text \<open>The keys a guard of the kit may write in \<open>context.intermediate\<close>; every other key, and every
  other part of the context, is the round's input.\<close>

definition GUARD_NOTES :: "string list" where
  "GUARD_NOTES = [''uses_scalar_amount'', ''buyer_amount'', ''buyer_counter_proposal'']"

definition same_frame :: "nego_context \<Rightarrow> nego_context \<Rightarrow> bool" where
  "same_frame c c' = (c\<lparr>nc_intermediate := []\<rparr> = c'\<lparr>nc_intermediate := []\<rparr> \<and>
     (\<forall>k. k \<notin> set GUARD_NOTES \<longrightarrow> jget (nc_intermediate c') k = jget (nc_intermediate c) k))"

lemma same_frame_refl [simp]: "same_frame c c"
  by (simp add: same_frame_def)

lemma same_frame_trans: "same_frame a b \<Longrightarrow> same_frame b c \<Longrightarrow> same_frame a c"
  by (simp add: same_frame_def)

lemma same_frame_note [simp]: "k \<in> set GUARD_NOTES \<Longrightarrow> same_frame c (note_in k v c') \<longleftrightarrow> same_frame c c'"
  by (auto simp: same_frame_def note_in_def)

lemma guard_notes [simp]:
  "''uses_scalar_amount'' \<in> set GUARD_NOTES" "''buyer_amount'' \<in> set GUARD_NOTES" "''buyer_counter_proposal'' \<in> set GUARD_NOTES"
  by (simp_all add: GUARD_NOTES_def)

lemma same_frameD:
  assumes "same_frame c c'"
  shows "nc_direction c' = nc_direction c" "nc_reference c' = nc_reference c" "nc_opening c' = nc_opening c"
    "nc_listing c' = nc_listing c" "nc_proposal c' = nc_proposal c" "nc_resources c' = nc_resources c"
    "nc_max_rounds c' = nc_max_rounds c" "nc_source c' = nc_source c"
  using assms by (cases c; cases c'; simp add: same_frame_def)+

text \<open>A decision that ends the negotiation without a deal.\<close>

definition closing :: "nego_decision \<Rightarrow> bool" where
  "closing d = (nd_action d \<noteq> ''accept'' \<and> nd_action d \<noteq> ''counter'')"

text \<open>A middleware that decides nothing but to close, and hands on a context \<open>R\<close>-related to its own.\<close>

definition vetoing :: "(nego_context \<Rightarrow> nego_context \<Rightarrow> bool) \<Rightarrow> middleware \<Rightarrow> bool" where
  "vetoing R m = (\<forall>h c x c'. m h c = Return (x, c') \<longrightarrow> (case x of None \<Rightarrow> R c c' | Some d \<Rightarrow> closing d))"

lemma vetoingI:
  "(\<And>h c c'. m h c = Return (None, c') \<Longrightarrow> R c c') \<Longrightarrow>
   (\<And>h c d c'. m h c = Return (Some d, c') \<Longrightarrow> closing d) \<Longrightarrow> vetoing R m"
  by (auto simp: vetoing_def split: option.splits)

lemma vetoing_mono: "vetoing R m \<Longrightarrow> (\<And>c c'. R c c' \<Longrightarrow> R' c c') \<Longrightarrow> vetoing R' m"
  by (fastforce simp: vetoing_def split: option.splits)

lemma reject_simps [simp]:
  "reject c r = Return (x, c') \<longleftrightarrow> x = Some (decide ''reject'' None (Some r)) \<and> c' = c"
  "closing (decide a p why) \<longleftrightarrow> a \<noteq> ''accept'' \<and> a \<noteq> ''counter''"
  by (auto simp: reject_def closing_def)

text \<open>What the guard \<open>g\<close> demands of a round before it lets the chain go on.  A chain in which only
  vetoing middlewares precede \<open>g\<close> makes no offer and accepts none unless \<open>g\<close> is satisfied,
  whatever follows it.  \<open>R\<close> is how far the middlewares before it may change the context.\<close>

locale veto =
  fixes R :: "nego_context \<Rightarrow> nego_context \<Rightarrow> bool" and g :: middleware
    and ok :: "nego_round list \<Rightarrow> nego_context \<Rightarrow> bool"
  assumes vetoing: "vetoing R g"
    and passed: "g h c = Return (None, c') \<Longrightarrow> ok h c"
    and frame: "R c c' \<Longrightarrow> ok h c' \<Longrightarrow> ok h c"
begin

lemma enforced:
  assumes "list_all (vetoing R) before" "run_chain_with_context (before @ g # after) h c = Return (d, c')" "\<not> closing d"
  shows "ok h c"
  using assms
proof (induction before arbitrary: c)
  case Nil
  then obtain x c1 where g: "g h c = Return (x, c1)" by (auto simp: res_bind_Inr_iff)
  with Nil vetoing show ?case by (auto simp: vetoing_def split: option.splits intro: passed)
next
  case (Cons m before)
  then obtain x c1 where m: "m h c = Return (x, c1)" by (auto simp: res_bind_Inr_iff)
  with Cons have x: "x = None" by (auto simp: vetoing_def split: option.splits)
  with m Cons.prems have "R c c1" by (auto simp: vetoing_def split: option.splits)
  moreover have "ok h c1" using Cons m x by auto
  ultimately show ?case by (rule frame)
qed

end

lemma vetoing_max_rounds: "vetoing same_frame max_rounds_guard"
  by (rule vetoingI) (auto simp: max_rounds_guard_def split: if_splits)

lemma vetoing_inventory: "vetoing same_frame has_matching_inventory_guard"
  by (rule vetoingI) (auto simp: has_matching_inventory_guard_def split: option.splits if_splits)

definition rounds_left :: "nego_round list \<Rightarrow> nego_context \<Rightarrow> bool" where
  "rounds_left h c = (int (length (our_counters h)) < nc_max_rounds c)"

interpretation round_bound: veto same_frame max_rounds_guard rounds_left
  by unfold_locales
    (auto simp: vetoing_max_rounds max_rounds_guard_def rounds_left_def dest: same_frameD split: if_splits)

definition source_supports :: "nego_round list \<Rightarrow> nego_context \<Rightarrow> bool" where
  "source_supports h c = (\<exists>v. nc_source c = Some v \<and> sv_outcome v \<in> {Src_Matches, Src_Unverifiable})"

interpretation inventory: veto same_frame has_matching_inventory_guard source_supports
  by unfold_locales
    (auto simp: vetoing_inventory has_matching_inventory_guard_def source_supports_def classify_listing_source_def
      dest: same_frameD split: option.splits source_outcome.splits if_splits)

end
