(* ===== verification/Negotiation_Threads.thy ===== *)
theory Negotiation_Threads
  imports Negotiation_Rounds Market_Identity
begin

text \<open>
  Where negotiations are stored: the tables \<open>negotiation_threads\<close>, \<open>negotiation_messages\<close> and
  \<open>negotiation_local_state\<close> of the storefront and the methods of
  \<open>src/core/storefront/src/core_storefront/sqlite_client.py\<close> that read and write them, and the two
  classes of \<open>src/kit/policy/src/market_policy/negotiation_thread.py\<close> that sit on top.

  A method that writes is a transaction: it maps the store to the store it commits, or raises and
  leaves it.  A stamp is the text the caller or \<open>datetime.now().isoformat()\<close> supplies.  JSON text,
  decimal text and the tables of the domain packages are parameters (\<open>thread_env\<close>).
\<close>

section \<open>Rows\<close>

datatype decimal_text = Dec_Finite rat | Dec_Infinite | Dec_NaN

record thread_env =
  te_dumps :: "pyval \<Rightarrow> string"
  te_canonical :: "pyval \<Rightarrow> string"
  te_loads :: "string \<Rightarrow> pyval option"
  te_decimal :: "string \<Rightarrow> decimal_text option"
  te_frepr :: "rat \<Rightarrow> string"
  te_iso :: "int \<Rightarrow> string"
  te_local :: "int \<Rightarrow> string"
  te_fromiso :: "string \<Rightarrow> int option"
  te_b64decode :: "string \<Rightarrow> string option"
  te_domain :: "pyval \<Rightarrow> pyval \<Rightarrow> (nego_error, pyval) result"

record thread_binding =
  tb_listing :: string
  tb_site :: string
  tb_mode :: string
  tb_domain :: string
  tb_major :: int
  tb_minor :: int

record thread_row =
  tr_id :: string
  tr_our_listing :: string
  tr_their_listing :: string
  tr_our_agent :: string
  tr_their_agent :: string
  tr_status :: string
  tr_created :: string
  tr_updated :: string
  tr_terminal :: "string option"
  tr_duration :: "int option"
  tr_start :: "string option"
  tr_proposal :: "string option"
  tr_terms :: "string option"
  tr_plan :: "string option"
  tr_price :: "string option"
  tr_agreed_duration :: "int option"
  tr_agreed_at :: "string option"
  tr_agreement :: "string option"
  tr_settlement :: "string option"
  tr_buyer :: "(string \<times> string) option"
  tr_seller :: "(string \<times> string) option"
  tr_offer :: "string option"
  tr_binding :: "thread_binding option"

record message_row =
  mg_thread :: string
  mg_round :: int
  mg_role :: string
  mg_sender :: "string \<times> string"
  mg_ours :: "string option"
  mg_theirs :: "string option"
  mg_proposed :: "string option"
  mg_action :: string
  mg_type :: string
  mg_stamp :: string

record local_row =
  lo_thread :: string
  lo_owner :: string
  lo_price :: "string option"
  lo_strategy :: "string option"

record nego_store =
  threads :: "thread_row list"
  messages :: "message_row list"
  locals :: "local_row list"
  domain_tables :: pyval

section \<open>Columns\<close>

definition principal_columns :: "principal \<Rightarrow> string \<times> string" where
  "principal_columns p = (scheme_value (pr_scheme p), pr_identifier p)"

definition principal_value :: "(string \<times> string) option \<Rightarrow> (nego_error, principal option) result" where
  "principal_value columns = (case columns of
     None \<Rightarrow> Return None
   | Some (scheme, identifier) \<Rightarrow> (case parse_scheme scheme of
        None \<Rightarrow> Raise (Runtime_Error ''durable principal is malformed'')
      | Some s \<Rightarrow> (case mk_identity s identifier of
           Inl _ \<Rightarrow> Raise (Runtime_Error ''durable principal is malformed'')
         | Inr p \<Rightarrow> Return (Some p))))"

definition decimal_integer :: "decimal_text \<Rightarrow> (nego_error, int option) result" where
  "decimal_integer d = (case d of
     Dec_Finite q \<Rightarrow> Return (if of_int \<lfloor>q\<rfloor> = q then Some \<lfloor>q\<rfloor> else None)
   | Dec_Infinite \<Rightarrow> Raise Overflow_Error
   | Dec_NaN \<Rightarrow> Return None)"

definition nat_text :: "nat \<Rightarrow> (nego_error, string) result" where
  "nat_text n = (if 4300 < length (nat_str n) then Raise (Value_Error ''Exceeds the limit (4300 digits) for integer string conversion'')
     else Return (nat_str n))"

definition amount_to_db_text :: "thread_env \<Rightarrow> pyval \<Rightarrow> (nego_error, string option) result" where
  "amount_to_db_text E v = (case v of
     PNone \<Rightarrow> Return None
   | PBool _ \<Rightarrow> Raise (Value_Error ''raw token amounts must be numeric, not boolean'')
   | PInt n \<Rightarrow> if n < 0 then Raise (Value_Error ''raw token amounts must be non-negative'')
       else res_bind (nat_text (nat n)) (\<lambda>t. Return (Some t))
   | _ \<Rightarrow> (let text = py_strip (py_str (te_frepr E) v) in
       if text = [] then Return None
       else (case te_decimal E text of
         None \<Rightarrow> Raise (Value_Error ''raw token amount is not numeric'')
       | Some Dec_NaN \<Rightarrow> Raise Decimal_Error
       | Some Dec_Infinite \<Rightarrow> Raise Overflow_Error
       | Some (Dec_Finite q) \<Rightarrow>
           if q < 0 then Raise (Value_Error ''raw token amounts must be non-negative'')
           else if of_int \<lfloor>q\<rfloor> \<noteq> q then Raise (Value_Error ''raw token amount is not an integer'')
           else res_bind (nat_text (nat \<lfloor>q\<rfloor>)) (\<lambda>t. Return (Some t)))))"

definition amount_from_db_text :: "thread_env \<Rightarrow> string option \<Rightarrow> (nego_error, int option) result" where
  "amount_from_db_text E column = (case column of
     None \<Rightarrow> Return None
   | Some t \<Rightarrow>
       if py_strip t = [] then Return None
       else (case te_decimal E (py_strip t) of
         None \<Rightarrow> Return None
       | Some d \<Rightarrow> res_bind (decimal_integer d) (\<lambda>amount. Return (case amount of
           Some n \<Rightarrow> if 0 \<le> n then Some n else None | None \<Rightarrow> None))))"

definition int_pyval :: "int option \<Rightarrow> pyval" where
  "int_pyval x = (case x of None \<Rightarrow> PNone | Some n \<Rightarrow> PInt n)"

text \<open>A JSON column as the reader returns it: text that does not parse stays text.\<close>

definition json_column :: "thread_env \<Rightarrow> string option \<Rightarrow> pyval" where
  "json_column E column = (case column of
     None \<Rightarrow> PNone
   | Some t \<Rightarrow> if t = [] then PStr t else (case te_loads E t of Some v \<Rightarrow> v | None \<Rightarrow> PStr t))"

section \<open>Threads\<close>

definition find_thread :: "nego_store \<Rightarrow> string \<Rightarrow> thread_row option" where
  "find_thread S nid = find (\<lambda>t. tr_id t = nid) (threads S)"

definition update_thread :: "string \<Rightarrow> (thread_row \<Rightarrow> thread_row) \<Rightarrow> nego_store \<Rightarrow> nego_store" where
  "update_thread nid f S = S\<lparr>threads := map (\<lambda>t. if tr_id t = nid then f t else t) (threads S)\<rparr>"

definition stored_object :: "(pyval \<Rightarrow> string) \<Rightarrow> jobj option \<Rightarrow> string option" where
  "stored_object dumps d = map_option (\<lambda>x. dumps (PDict x)) d"

definition upsert_local :: "local_row \<Rightarrow> nego_store \<Rightarrow> nego_store" where
  "upsert_local l S =
     (if list_ex (\<lambda>x. lo_thread x = lo_thread l \<and> lo_owner x = lo_owner l) (locals S)
      then S\<lparr>locals := map (\<lambda>x. if lo_thread x = lo_thread l \<and> lo_owner x = lo_owner l then l else x) (locals S)\<rparr>
      else S\<lparr>locals := locals S @ [l]\<rparr>)"

text \<open>A new thread's row, before anything is agreed.\<close>

definition opened_thread ::
    "string \<Rightarrow> string \<Rightarrow> string \<Rightarrow> string \<Rightarrow> string \<Rightarrow> string \<Rightarrow> string \<Rightarrow> int option \<Rightarrow> string option \<Rightarrow> string option \<Rightarrow>
     string option \<Rightarrow> principal \<Rightarrow> principal \<Rightarrow> thread_binding option \<Rightarrow> thread_row" where
  "opened_thread nid ours theirs our_agent their_agent status stamp duration start proposal terms buyer seller binding =
     \<lparr>tr_id = nid, tr_our_listing = ours, tr_their_listing = theirs, tr_our_agent = our_agent, tr_their_agent = their_agent,
      tr_status = status, tr_created = stamp, tr_updated = stamp, tr_terminal = None, tr_duration = duration, tr_start = start,
      tr_proposal = proposal, tr_terms = terms, tr_plan = None, tr_price = None, tr_agreed_duration = None, tr_agreed_at = None,
      tr_agreement = None, tr_settlement = None, tr_buyer = Some (principal_columns buyer), tr_seller = Some (principal_columns seller),
      tr_offer = None, tr_binding = binding\<rparr>"

definition same_parties :: "thread_row \<Rightarrow> thread_row \<Rightarrow> bool" where
  "same_parties a b = (tr_buyer a = tr_buyer b \<and> tr_seller a = tr_seller b \<and> tr_binding a = tr_binding b)"

text \<open>\<open>create_negotiation_thread\<close>: the row is inserted unless one is there, which must then be bound to
  the same parties; the owner's local state is written over.\<close>

definition create_negotiation_thread ::
    "thread_env \<Rightarrow> thread_row \<Rightarrow> string \<Rightarrow> pyval \<Rightarrow> string option \<Rightarrow> nego_store \<Rightarrow> (nego_error, nego_store) result" where
  "create_negotiation_thread E row owner initial_price strategy S =
     (if (case tr_binding row of None \<Rightarrow> False | Some b \<Rightarrow> tb_listing b \<noteq> tr_our_listing row)
      then Raise (Runtime_Error ''thread binding must name the negotiation and authoritative listing'')
      else res_bind (amount_to_db_text E initial_price) (\<lambda>price.
        let S' = (if find_thread S (tr_id row) = None then S\<lparr>threads := threads S @ [row]\<rparr> else S) in
        if (case find_thread S' (tr_id row) of None \<Rightarrow> True | Some durable \<Rightarrow> \<not> same_parties durable row)
        then Raise (Value_Error ''negotiation identifier is already bound to different principals or domain binding'')
        else Return (upsert_local \<lparr>lo_thread = tr_id row, lo_owner = owner, lo_price = price, lo_strategy = strategy\<rparr> S')))"

definition set_negotiation_thread_parties ::
    "string \<Rightarrow> principal option \<Rightarrow> principal option \<Rightarrow> string option \<Rightarrow> string \<Rightarrow> nego_store \<Rightarrow> nego_store" where
  "set_negotiation_thread_parties nid buyer seller offer stamp S =
     (if buyer = None \<and> seller = None \<and> offer = None then S
      else update_thread nid (\<lambda>t. t\<lparr>
        tr_buyer := (case buyer of None \<Rightarrow> tr_buyer t | Some p \<Rightarrow> Some (principal_columns p)),
        tr_seller := (case seller of None \<Rightarrow> tr_seller t | Some p \<Rightarrow> Some (principal_columns p)),
        tr_offer := (case offer of None \<Rightarrow> tr_offer t | Some x \<Rightarrow> Some x), tr_updated := stamp\<rparr>) S)"

definition delete_negotiation_thread :: "string \<Rightarrow> nego_store \<Rightarrow> nego_store" where
  "delete_negotiation_thread nid S = S\<lparr>messages := filter (\<lambda>m. mg_thread m \<noteq> nid) (messages S),
     locals := filter (\<lambda>l. lo_thread l \<noteq> nid) (locals S), threads := filter (\<lambda>t. tr_id t \<noteq> nid) (threads S)\<rparr>"

definition update_negotiation_thread_terminal :: "string \<Rightarrow> string option \<Rightarrow> string \<Rightarrow> nego_store \<Rightarrow> nego_store" where
  "update_negotiation_thread_terminal nid terminal stamp S =
     update_thread nid (\<lambda>t. t\<lparr>tr_terminal := terminal, tr_status := ''terminated'', tr_updated := stamp\<rparr>) S"

definition coalesced :: "'a option \<Rightarrow> 'a option \<Rightarrow> 'a option" where
  "coalesced a b = (case a of None \<Rightarrow> b | Some x \<Rightarrow> Some x)"

record agreed_terms =
  at_price :: pyval
  at_duration :: int
  at_start :: "string option"
  at_accepted :: "string option"
  at_agreement :: "string option"
  at_settlement :: "jobj option"

definition commit_agreed_terms :: "thread_env \<Rightarrow> string \<Rightarrow> agreed_terms \<Rightarrow> string \<Rightarrow> nego_store \<Rightarrow> (nego_error, nego_store) result" where
  "commit_agreed_terms E nid terms stamp S =
     res_bind (amount_to_db_text E (at_price terms)) (\<lambda>price.
       Return (update_thread nid (\<lambda>t. t\<lparr>tr_price := price, tr_agreed_duration := Some (at_duration terms),
         tr_start := coalesced (tr_start t) (at_start terms),
         tr_agreed_at := Some (case at_accepted terms of None \<Rightarrow> stamp | Some a \<Rightarrow> if a = [] then stamp else a),
         tr_agreement := coalesced (at_agreement terms) (tr_agreement t),
         tr_settlement := coalesced (stored_object (te_canonical E) (at_settlement terms)) (tr_settlement t),
         tr_updated := stamp\<rparr>) S))"

definition principal_json :: "principal \<Rightarrow> pyval" where
  "principal_json p = PDict [(PStr ''scheme'', PStr (scheme_value (pr_scheme p))), (PStr ''identifier'', PStr (pr_identifier p))]"

definition commit_settlement_plan ::
    "thread_env \<Rightarrow> string \<Rightarrow> jobj \<Rightarrow> principal \<Rightarrow> principal \<Rightarrow> string \<Rightarrow> nego_store \<Rightarrow> (nego_error, nego_store) result" where
  "commit_settlement_plan E nid plan buyer seller stamp S =
     (if \<not> py_eq (jget plan ''buyer_principal'') (principal_json buyer)
      then Raise (Value_Error ''settlement plan buyer principal does not match negotiation'')
      else if \<not> py_eq (jget plan ''seller_principal'') (principal_json seller)
      then Raise (Value_Error ''settlement plan seller principal does not match negotiation'')
      else (case find_thread S nid of
        None \<Rightarrow> Raise (Key_Error nid)
      | Some t \<Rightarrow>
          res_bind (principal_value (tr_buyer t)) (\<lambda>stored_buyer.
          if stored_buyer \<noteq> Some buyer then Raise (Value_Error ''settlement plan buyer principal does not match durable thread'')
          else res_bind (principal_value (tr_seller t)) (\<lambda>stored_seller.
          if stored_seller \<noteq> Some seller then Raise (Value_Error ''settlement plan seller principal does not match durable thread'')
          else
            let encoded = te_canonical E (PDict plan) in
            if tr_plan t \<noteq> None \<and> tr_plan t \<noteq> Some encoded then Raise (Value_Error ''accepted settlement plan is immutable'')
            else Return (update_thread nid (\<lambda>t. t\<lparr>tr_plan := Some encoded, tr_updated := stamp\<rparr>) S)))))"

section \<open>Messages\<close>

record nego_message =
  nm_thread :: string
  nm_role :: string
  nm_sender :: principal
  nm_ours :: pyval
  nm_theirs :: pyval
  nm_proposed :: pyval
  nm_action :: string
  nm_type :: string
  nm_stamp :: string

definition thread_messages :: "nego_store \<Rightarrow> string \<Rightarrow> message_row list" where
  "thread_messages S nid = filter (\<lambda>m. mg_thread m = nid) (messages S)"

text \<open>\<open>SELECT COALESCE(MAX(round), -1) + 1\<close>\<close>

definition next_round :: "nego_store \<Rightarrow> string \<Rightarrow> int" where
  "next_round S nid = fold max (map mg_round (thread_messages S nid)) (- 1) + 1"

definition SENDER_ROLES :: "string list" where
  "SENDER_ROLES = [''buyer'', ''seller'', ''admin'', ''service'']"

definition check_author :: "thread_row \<Rightarrow> nego_message \<Rightarrow> (nego_error, unit) result" where
  "check_author t m =
     (if nm_role m = ''buyer'' \<and> tr_buyer t \<noteq> Some (principal_columns (nm_sender m))
      then Raise (Value_Error ''buyer message author does not match negotiation'')
      else if nm_role m = ''seller'' \<and> tr_seller t \<noteq> Some (principal_columns (nm_sender m))
      then Raise (Value_Error ''seller message author does not match negotiation'')
      else if nm_role m \<notin> set SENDER_ROLES then Raise (Value_Error ''unsupported negotiation message sender role'')
      else Return ())"

definition message_of :: "thread_env \<Rightarrow> int \<Rightarrow> nego_message \<Rightarrow> (nego_error, message_row) result" where
  "message_of E n m =
     res_bind (amount_to_db_text E (nm_ours m)) (\<lambda>ours.
     res_bind (amount_to_db_text E (nm_theirs m)) (\<lambda>theirs.
     res_bind (amount_to_db_text E (nm_proposed m)) (\<lambda>proposed.
       Return \<lparr>mg_thread = nm_thread m, mg_round = n, mg_role = nm_role m, mg_sender = principal_columns (nm_sender m),
         mg_ours = ours, mg_theirs = theirs, mg_proposed = proposed, mg_action = nm_action m, mg_type = nm_type m,
         mg_stamp = nm_stamp m\<rparr>)))"

text \<open>\<open>INSERT \<dots> ON CONFLICT(negotiation_id, round) DO UPDATE\<close>: a message of the same round is written over.\<close>

definition upsert_message :: "message_row \<Rightarrow> nego_store \<Rightarrow> nego_store" where
  "upsert_message r S =
     (if list_ex (\<lambda>m. mg_thread m = mg_thread r \<and> mg_round m = mg_round r) (messages S)
      then S\<lparr>messages := map (\<lambda>m. if mg_thread m = mg_thread r \<and> mg_round m = mg_round r then r else m) (messages S)\<rparr>
      else S\<lparr>messages := messages S @ [r]\<rparr>)"

text \<open>\<open>save_negotiation_message\<close> reads the thread and the next round, and then opens its write
  transaction: the two halves are apart.\<close>

definition message_round :: "nego_message \<Rightarrow> nego_store \<Rightarrow> (nego_error, int) result" where
  "message_round m S = (case find_thread S (nm_thread m) of
     None \<Rightarrow> Raise (Key_Error (nm_thread m))
   | Some t \<Rightarrow> res_bind (check_author t m) (\<lambda>_. Return (next_round S (nm_thread m))))"

definition write_message :: "thread_env \<Rightarrow> int \<Rightarrow> nego_message \<Rightarrow> nego_store \<Rightarrow> (nego_error, nego_store) result" where
  "write_message E n m S = res_bind (message_of E n m) (\<lambda>r.
     Return (upsert_message r (update_thread (nm_thread m) (\<lambda>t. t\<lparr>tr_updated := nm_stamp m\<rparr>) S)))"

definition save_negotiation_message ::
    "thread_env \<Rightarrow> int option \<Rightarrow> nego_message \<Rightarrow> nego_store \<Rightarrow> (nego_error, nego_store \<times> int) result" where
  "save_negotiation_message E fixed m S = res_bind (message_of E 0 m) (\<lambda>_.
     res_bind (message_round m S) (\<lambda>computed.
       let n = (case fixed of None \<Rightarrow> computed | Some k \<Rightarrow> k) in
       res_bind (write_message E n m S) (\<lambda>S'. Return (S', n))))"

record message_view =
  mv_round :: int
  mv_role :: string
  mv_sender :: "principal option"
  mv_ours :: "int option"
  mv_theirs :: "int option"
  mv_proposed :: "int option"
  mv_action :: string
  mv_type :: string
  mv_stamp :: string

definition view_message :: "thread_env \<Rightarrow> message_row \<Rightarrow> (nego_error, message_view) result" where
  "view_message E m =
     res_bind (principal_value (Some (mg_sender m))) (\<lambda>sender.
     res_bind (amount_from_db_text E (mg_ours m)) (\<lambda>ours.
     res_bind (amount_from_db_text E (mg_theirs m)) (\<lambda>theirs.
     res_bind (amount_from_db_text E (mg_proposed m)) (\<lambda>proposed.
       Return \<lparr>mv_round = mg_round m, mv_role = mg_role m, mv_sender = sender, mv_ours = ours, mv_theirs = theirs,
         mv_proposed = proposed, mv_action = mg_action m, mv_type = mg_type m, mv_stamp = mg_stamp m\<rparr>))))"

definition load_negotiation_thread :: "thread_env \<Rightarrow> nego_store \<Rightarrow> string \<Rightarrow> (nego_error, message_view list) result" where
  "load_negotiation_thread E S nid = res_map (view_message E) (sort_key mg_round (thread_messages S nid))"

section \<open>Reading threads\<close>

record thread_view =
  tv_id :: string
  tv_our_listing :: string
  tv_their_listing :: string
  tv_our_agent :: string
  tv_their_agent :: string
  tv_status :: string
  tv_created :: string
  tv_updated :: string
  tv_terminal :: "string option"
  tv_duration :: "int option"
  tv_start :: "string option"
  tv_proposal :: pyval
  tv_terms :: pyval
  tv_plan :: pyval
  tv_price :: "int option"
  tv_agreed_duration :: "int option"
  tv_agreed_at :: "string option"
  tv_agreement :: "string option"
  tv_settlement :: pyval
  tv_buyer :: "principal option"
  tv_seller :: "principal option"
  tv_offer :: "string option"

definition view_thread :: "thread_env \<Rightarrow> thread_row \<Rightarrow> (nego_error, thread_view) result" where
  "view_thread E t =
     res_bind (principal_value (tr_buyer t)) (\<lambda>buyer.
     res_bind (principal_value (tr_seller t)) (\<lambda>seller.
     res_bind (amount_from_db_text E (tr_price t)) (\<lambda>price.
       Return \<lparr>tv_id = tr_id t, tv_our_listing = tr_our_listing t, tv_their_listing = tr_their_listing t,
         tv_our_agent = tr_our_agent t, tv_their_agent = tr_their_agent t, tv_status = tr_status t, tv_created = tr_created t,
         tv_updated = tr_updated t, tv_terminal = tr_terminal t, tv_duration = tr_duration t, tv_start = tr_start t,
         tv_proposal = json_column E (tr_proposal t), tv_terms = json_column E (tr_terms t), tv_plan = json_column E (tr_plan t),
         tv_price = price, tv_agreed_duration = tr_agreed_duration t, tv_agreed_at = tr_agreed_at t, tv_agreement = tr_agreement t,
         tv_settlement = json_column E (tr_settlement t), tv_buyer = buyer, tv_seller = seller, tv_offer = tr_offer t\<rparr>)))"

definition load_negotiation_thread_row :: "thread_env \<Rightarrow> nego_store \<Rightarrow> string \<Rightarrow> (nego_error, thread_view option) result" where
  "load_negotiation_thread_row E S nid = (case find_thread S nid of
     None \<Rightarrow> Return None
   | Some t \<Rightarrow> res_bind (view_thread E t) (\<lambda>v. Return (Some v)))"

record thread_info =
  ti_thread :: thread_row
  ti_buyer :: "principal option"
  ti_seller :: "principal option"
  ti_price :: "int option"
  ti_strategy :: "string option"

definition get_thread_info :: "thread_env \<Rightarrow> nego_store \<Rightarrow> string \<Rightarrow> string \<Rightarrow> (nego_error, thread_info option) result" where
  "get_thread_info E S nid owner = (case find_thread S nid of
     None \<Rightarrow> Return None
   | Some t \<Rightarrow>
       (let private = find (\<lambda>l. lo_thread l = nid \<and> lo_owner l = owner) (locals S) in
        res_bind (principal_value (tr_buyer t)) (\<lambda>buyer.
        res_bind (principal_value (tr_seller t)) (\<lambda>seller.
        res_bind (amount_from_db_text E (case private of None \<Rightarrow> None | Some l \<Rightarrow> lo_price l)) (\<lambda>price.
          Return (Some \<lparr>ti_thread = t, ti_buyer = buyer, ti_seller = seller, ti_price = price,
            ti_strategy = (case private of None \<Rightarrow> None | Some l \<Rightarrow> lo_strategy l)\<rparr>))))))"

definition involves :: "string \<Rightarrow> thread_row \<Rightarrow> bool" where
  "involves listing t = (tr_our_listing t = listing \<or> tr_their_listing t = listing)"

definition get_active_negotiations_for_listing :: "nego_store \<Rightarrow> string \<Rightarrow> thread_row list" where
  "get_active_negotiations_for_listing S listing = filter (\<lambda>t. involves listing t \<and> tr_status t = ''active'') (threads S)"

text \<open>A comparison with an argument that is \<open>None\<close> selects nothing.\<close>

definition sql_eq :: "string \<Rightarrow> string option \<Rightarrow> bool" where
  "sql_eq column x = (x = Some column)"

definition check_existing_negotiation ::
    "nego_store \<Rightarrow> string option \<Rightarrow> string option \<Rightarrow> string option \<Rightarrow> string option \<Rightarrow> thread_row option" where
  "check_existing_negotiation S ours theirs our_agent their_agent = find (\<lambda>t. tr_status t = ''active'' \<and>
     ((sql_eq (tr_our_listing t) ours \<and> sql_eq (tr_their_listing t) theirs) \<or>
      (sql_eq (tr_our_listing t) theirs \<and> sql_eq (tr_their_listing t) ours) \<or>
      (sql_eq (tr_our_agent t) our_agent \<and> sql_eq (tr_their_agent t) their_agent) \<or>
      (sql_eq (tr_our_agent t) their_agent \<and> sql_eq (tr_their_agent t) our_agent))) (threads S)"

definition competing :: "string \<Rightarrow> string option \<Rightarrow> thread_row \<Rightarrow> bool" where
  "competing listing spared t =
     (involves listing t \<and> tr_status t = ''active'' \<and> tr_id t \<noteq> (case spared of None \<Rightarrow> [] | Some x \<Rightarrow> x))"

definition cancel_negotiations_for_listing :: "string \<Rightarrow> string option \<Rightarrow> string \<Rightarrow> nego_store \<Rightarrow> nego_store \<times> thread_row list" where
  "cancel_negotiations_for_listing listing spared stamp S =
     (S\<lparr>threads := map (\<lambda>t. if competing listing spared t
        then t\<lparr>tr_status := ''superseded'', tr_terminal := Some ''superseded'', tr_updated := stamp\<rparr> else t) (threads S)\<rparr>,
      filter (competing listing spared) (threads S))"

section \<open>The thread store of the policy kit\<close>

text \<open>\<open>NegotiationThreadTransaction.cancel_competing\<close>: both listings, each negotiation once.\<close>

definition cancel_competing ::
    "string option \<Rightarrow> string option \<Rightarrow> string option \<Rightarrow> string \<Rightarrow> nego_store \<Rightarrow> nego_store \<times> thread_row list" where
  "cancel_competing order_id their_listing spared stamp S =
     fold (\<lambda>oid (T, out).
        if oid = None \<or> oid = Some [] then (T, out)
        else (case cancel_negotiations_for_listing (the oid) spared stamp T of (T', canceled) \<Rightarrow>
          (T', fold (\<lambda>t acc. if list_ex (\<lambda>x. tr_id x = tr_id t) acc then acc else acc @ [t]) canceled out)))
       [order_id, their_listing] (S, [])"

definition filter_active :: "nego_store \<Rightarrow> string \<Rightarrow> string set" where
  "filter_active S order_id = set (List.map_filter (\<lambda>t.
      if tr_our_listing t = order_id then Some (tr_their_listing t)
      else if tr_their_listing t = order_id then Some (tr_our_listing t) else None)
    (get_active_negotiations_for_listing S order_id))"

definition check_duplicate :: "nego_store \<Rightarrow> string \<Rightarrow> string \<Rightarrow> bool" where
  "check_duplicate S ours theirs = (check_existing_negotiation S (Some ours) (Some theirs) None None \<noteq> None)"

definition ensure_thread ::
    "thread_env \<Rightarrow> thread_row \<Rightarrow> string \<Rightarrow> pyval \<Rightarrow> string option \<Rightarrow> nego_store \<Rightarrow> (nego_error, nego_store) result" where
  "ensure_thread E row owner initial_price strategy S =
     res_bind (get_thread_info E S (tr_id row) owner) (\<lambda>info.
       if info = None then create_negotiation_thread E row owner initial_price strategy S else Return S)"

text \<open>\<open>NegotiationThreadStore.check_terminal\<close>\<close>

definition check_terminal :: "thread_env \<Rightarrow> string \<Rightarrow> string \<Rightarrow> nego_store \<Rightarrow> (nego_error, nego_store \<times> (bool \<times> string option)) result" where
  "check_terminal E nid stamp S = res_bind (load_negotiation_thread E S nid) (\<lambda>thread.
     let actions = map mv_action thread; last_two = take 2 (rev actions);
         finish = (\<lambda>state. Return (update_negotiation_thread_terminal nid (Some state) stamp S, (True, Some state))) in
     if thread = [] then Return (S, (False, None))
     else if last actions = ''EXIT_NEGOTIATION'' then finish ''timeout''
     else if last_two = [''ACCEPT_OFFER'', ''ACCEPT_OFFER''] then finish ''success''
     else if last_two = [''REJECT_OFFER'', ''REJECT_OFFER''] then finish ''failure''
     else Return (S, (False, None)))"

end
