(* ===== verification/Negotiation_Runtime.thy ===== *)
theory Negotiation_Runtime
  imports Negotiation_Threads
begin

text \<open>
  \<open>NegotiationRuntime\<close> of \<open>src/kit/negotiation-runtime/src/market_negotiation_runtime/runtime.py\<close> and
  the sweep of \<open>src/kit/storefront/src/market_storefront_kit/negotiation_watchdog.py\<close>.

  A request reads the store, calls the domain's hooks and then makes its writes one repository
  call at a time, each a transaction of its own.  A method is modelled by what it reads and the
  list of writes it makes; running the list stops at the first write that raises.  The domain's
  hooks and the resolvers are parameters; a hook that writes is given by the repository calls it
  makes, and what it does to the domain's own tables by \<open>te_domain\<close>.  \<open>clk i\<close> is the \<open>i\<close>-th reading of
  the clock in a call, in microseconds.  Stage events, which only log, are left out.
\<close>

section \<open>Carriers\<close>

record nego_terms =
  nt_decoded :: pyval
  nt_wire :: "jobj option"
  nt_duration :: "int option"
  nt_start :: "string option"

record agreement_terms =
  ag_duration :: int
  ag_start :: "string option"

record resolved =
  rv_listing_id :: string
  rv_listing :: pyval
  rv_record :: jobj
  rv_binding :: pyval

record round_request =
  rr_listing :: pyval
  rr_record :: jobj
  rr_history :: "nego_round list"
  rr_terms :: nego_terms
  rr_buyer :: principal
  rr_strategy :: "string option"
  rr_binding :: pyval
  rr_source :: "source_verdict option"

record evaluation =
  ev_our :: int
  ev_label :: string
  ev_decision :: nego_decision
  ev_pinned :: "jobj option"
  ev_scalar :: bool
  ev_buyer :: "int option"
  ev_state :: pyval

record acceptance =
  ac_id :: string
  ac_listing_id :: string
  ac_listing :: pyval
  ac_record :: jobj
  ac_terms :: nego_terms
  ac_pinned :: "jobj option"
  ac_amount :: int
  ac_agreement :: agreement_terms
  ac_scalar :: bool
  ac_buyer :: principal
  ac_seller :: principal
  ac_state :: pyval
  ac_binding :: pyval
  ac_accepted :: "int option"

record opening_record =
  op_acceptance :: acceptance
  op_evaluation :: evaluation

section \<open>Repository calls\<close>

datatype nego_write =
    Create_Thread thread_row string pyval "string option"
  | Append_Message nego_message
  | Append_At int nego_message
  | Commit_Terms string agreed_terms string
  | Commit_Plan string jobj principal principal string
  | Set_Terminal string string string
  | Domain_Call pyval
  | Abort nego_error

fun apply_write :: "thread_env \<Rightarrow> nego_write \<Rightarrow> nego_store \<Rightarrow> (nego_error, nego_store) result" where
  "apply_write E (Create_Thread row owner price strategy) S = create_negotiation_thread E row owner price strategy S"
| "apply_write E (Append_Message m) S = res_bind (save_negotiation_message E None m S) (\<lambda>(S', _). Return S')"
| "apply_write E (Append_At n m) S = write_message E n m S"
| "apply_write E (Commit_Terms nid terms stamp) S = commit_agreed_terms E nid terms stamp S"
| "apply_write E (Commit_Plan nid plan buyer seller stamp) S = commit_settlement_plan E nid plan buyer seller stamp S"
| "apply_write E (Set_Terminal nid state stamp) S = Return (update_negotiation_thread_terminal nid (Some state) stamp S)"
| "apply_write E (Domain_Call call) S = res_bind (te_domain E call (domain_tables S)) (\<lambda>d. Return (S\<lparr>domain_tables := d\<rparr>))"
| "apply_write E (Abort e) S = Raise e"

text \<open>The writes of one request: what was written before a failure stays written.\<close>

fun run_writes :: "thread_env \<Rightarrow> nego_write list \<Rightarrow> nego_store \<Rightarrow> nego_store \<times> nego_error option" where
  "run_writes E [] S = (S, None)"
| "run_writes E (w # ws) S = (case apply_write E w S of
     Inl e \<Rightarrow> (S, Some e)
   | Inr S' \<Rightarrow> run_writes E ws S')"

definition run_request :: "thread_env \<Rightarrow> (nego_error, nego_write list \<times> 'a) result \<Rightarrow> nego_store \<Rightarrow> nego_store \<times> (nego_error, 'a) result" where
  "run_request E plan S = (case plan of
     Inl e \<Rightarrow> (S, Inl e)
   | Inr (ws, response) \<Rightarrow> (case run_writes E ws S of
        (S', Some e) \<Rightarrow> (S', Inl e)
      | (S', None) \<Rightarrow> (S', Inr response)))"

section \<open>The domain's hooks\<close>

record domain_hooks =
  hk_decode :: "pyval \<Rightarrow> (nego_error, nego_terms) result"
  hk_validate_opening :: "pyval \<Rightarrow> jobj \<Rightarrow> nego_terms \<Rightarrow> (nego_error, unit) result"
  hk_validate_continuation :: "nego_store \<Rightarrow> pyval \<Rightarrow> jobj \<Rightarrow> nego_terms \<Rightarrow> thread_view \<Rightarrow> (nego_error, unit) result"
  hk_evaluate :: "nego_store \<Rightarrow> round_request \<Rightarrow> (nego_error, evaluation) result"
  hk_strategy :: "pyval \<Rightarrow> jobj \<Rightarrow> (nego_error, string option) result"
  hk_reference :: "pyval \<Rightarrow> jobj \<Rightarrow> nego_terms \<Rightarrow> bool \<Rightarrow> jobj option \<Rightarrow> (nego_error, int) result"
  hk_amount :: "jobj option \<Rightarrow> (nego_error, int option) result"
  hk_proposal :: "jobj option \<Rightarrow> int option \<Rightarrow> jobj option"
  hk_agreement :: "pyval \<Rightarrow> jobj \<Rightarrow> nego_terms \<Rightarrow> (nego_error, agreement_terms) result"
  hk_artifacts :: "acceptance \<Rightarrow> bool \<Rightarrow> (nego_error, jobj) result"
  hk_wire :: "nego_decision \<Rightarrow> jobj"
  hk_live :: "jobj \<Rightarrow> bool"
  hk_listing_paused :: "nego_store \<Rightarrow> string \<Rightarrow> bool"
  hk_paused :: bool
  hk_persist_opening :: "(opening_record \<Rightarrow> nego_write list) option"
  hk_place_hold :: "(acceptance \<Rightarrow> nego_write list) option"
  hk_persist_artifacts :: "(acceptance \<Rightarrow> jobj \<Rightarrow> nego_write list) option"
  hk_check_source :: "(nego_store \<Rightarrow> resolved \<Rightarrow> (nego_error, source_verdict) result) option"

record nego_runtime =
  nrt_env :: thread_env
  nrt_resolve_opening :: "nego_store \<Rightarrow> string \<Rightarrow> (nego_error, resolved \<times> domain_hooks) result"
  nrt_resolve_continuation :: "nego_store \<Rightarrow> thread_view \<Rightarrow> (nego_error, resolved \<times> domain_hooks) result"

definition hook_writes :: "('a \<Rightarrow> nego_write list) option \<Rightarrow> 'a \<Rightarrow> nego_write list" where
  "hook_writes hook x = (case hook of None \<Rightarrow> [] | Some f \<Rightarrow> f x)"

section \<open>Checks shared by the requests\<close>

definition require_listing_binding :: "resolved \<Rightarrow> string \<Rightarrow> (nego_error, unit) result" where
  "require_listing_binding r expected =
     (if rv_listing_id r \<noteq> expected then Raise (State_Error ''resolved listing does not match recorded negotiation listing'')
      else Return ())"

definition SELLER_ACTIONS :: "string list" where
  "SELLER_ACTIONS = [''counter'', ''accept'', ''exit'', ''reject'']"

definition validate_evaluation :: "evaluation \<Rightarrow> (nego_error, unit) result" where
  "validate_evaluation ev =
     (if nd_action (ev_decision ev) \<notin> set SELLER_ACTIONS
      then Raise (State_Error (''unsupported seller decision '' @ repr_str (nd_action (ev_decision ev))))
      else if ev_label ev = [] then Raise (State_Error ''domain policy returned no strategy label'')
      else Return ())"

definition read_source :: "domain_hooks \<Rightarrow> nego_store \<Rightarrow> resolved \<Rightarrow> (nego_error, source_verdict option) result" where
  "read_source H S r = (case hk_check_source H of
     None \<Rightarrow> Return None
   | Some check \<Rightarrow> res_bind (check S r) (\<lambda>v. Return (Some v)))"

definition enforce_on_decision :: "domain_hooks \<Rightarrow> source_verdict option \<Rightarrow> evaluation \<Rightarrow> string \<Rightarrow> (nego_error, evaluation) result" where
  "enforce_on_decision H source ev listing_id =
     (if hk_check_source H = None \<or> nd_action (ev_decision ev) \<in> {''reject'', ''exit''} then Return ev
      else (case classify_listing_source source of
        None \<Rightarrow> Return ev
      | Some r \<Rightarrow> if sr_retryable r then Raise (Unavailable (sr_reason r) listing_id)
          else Return (ev\<lparr>ev_decision := decide ''reject'' None (Some (sr_reason r))\<rparr>)))"

definition enforce_on_acceptance :: "domain_hooks \<Rightarrow> nego_store \<Rightarrow> resolved \<Rightarrow> string \<Rightarrow> (nego_error, unit) result" where
  "enforce_on_acceptance H S r listing_id =
     (if hk_check_source H = None then Return ()
      else res_bind (read_source H S r) (\<lambda>source. case classify_listing_source source of
        None \<Rightarrow> Return ()
      | Some refusal \<Rightarrow> if sr_retryable refusal then Raise (Unavailable (sr_reason refusal) listing_id)
          else Raise (Unfulfillable (sr_reason refusal) (Some listing_id))))"

definition replace_Z_offset :: "string \<Rightarrow> string" where
  "replace_Z_offset s = concat (map (\<lambda>c. if c = CHR ''Z'' then ''+00:00'' else [c]) s)"

definition ascii_lower_text :: "string \<Rightarrow> string" where
  "ascii_lower_text s = map (\<lambda>c. if 65 \<le> (of_char c :: nat) \<and> (of_char c :: nat) \<le> 90 then char_of ((of_char c :: nat) + 32) else c) s"

text \<open>\<open>isoformat().replace("+00:00", "Z")\<close>\<close>

definition iso_z :: "thread_env \<Rightarrow> int \<Rightarrow> string" where
  "iso_z E t = (let s = te_iso E t; n = length s - 6 in if drop n s = ''+00:00'' then take n s @ ''Z'' else s)"

text \<open>\<open>_fix_acceptance_time\<close>; a time without an offset is UTC.\<close>

definition fix_acceptance_time :: "thread_env \<Rightarrow> int \<Rightarrow> acceptance \<Rightarrow> (nego_error, acceptance) result" where
  "fix_acceptance_time E now a =
     res_bind (case ag_start (ac_agreement a) of
         None \<Rightarrow> Return now
       | Some requested \<Rightarrow>
           if ascii_lower_text (py_strip requested) \<in> {[], ''now''} then Return now
           else (case te_fromiso E (replace_Z_offset (py_strip requested)) of
               None \<Rightarrow> Raise (State_Error ''accepted start_utc is not ISO-8601'')
             | Some start \<Rightarrow> Return start))
       (\<lambda>start. Return (a\<lparr>ac_agreement := \<lparr>ag_duration = ag_duration (ac_agreement a), ag_start = Some (iso_z E start)\<rparr>,
          ac_accepted := Some now\<rparr>))"

section \<open>Writes of an acceptance and of a seller's decision\<close>

definition decoded_agreement :: "thread_env \<Rightarrow> jobj \<Rightarrow> (nego_error, string option) result" where
  "decoded_agreement E artifacts = (case jget artifacts ''agreement_bytes'' of
     PStr s \<Rightarrow> (case te_b64decode E s of None \<Rightarrow> Raise (Value_Error ''invalid base64'') | Some b \<Rightarrow> Return (Some b))
   | _ \<Rightarrow> Return None)"

definition commit_acceptance :: "thread_env \<Rightarrow> domain_hooks \<Rightarrow> acceptance \<Rightarrow> jobj \<Rightarrow> int \<Rightarrow> nego_write list" where
  "commit_acceptance E H a artifacts now = (case decoded_agreement E artifacts of
     Inl e \<Rightarrow> [Abort e]
   | Inr bytes \<Rightarrow>
       Commit_Terms (ac_id a) \<lparr>at_price = PInt (ac_amount a), at_duration = ag_duration (ac_agreement a),
         at_start = ag_start (ac_agreement a), at_accepted = map_option (iso_z E) (ac_accepted a), at_agreement = bytes,
         at_settlement = as_dict (jget artifacts ''settlement_data'')\<rparr> (te_local E now)
       # hook_writes (hk_place_hold H) a
       @ (case hk_persist_artifacts H of None \<Rightarrow> [] | Some f \<Rightarrow> f a artifacts))"

definition append_message ::
    "thread_env \<Rightarrow> string \<Rightarrow> principal \<Rightarrow> string \<Rightarrow> pyval \<Rightarrow> pyval \<Rightarrow> pyval \<Rightarrow> string \<Rightarrow> string \<Rightarrow> int \<Rightarrow> nego_write" where
  "append_message E nid sender role ours theirs proposed action type now =
     Append_Message \<lparr>nm_thread = nid, nm_role = role, nm_sender = sender, nm_ours = ours, nm_theirs = theirs,
       nm_proposed = proposed, nm_action = action, nm_type = type, nm_stamp = te_iso E now\<rparr>"

text \<open>What a seller's action is recorded as, and the terminal state it implies.\<close>

definition recorded_action :: "string \<Rightarrow> string \<times> string \<times> string option" where
  "recorded_action action =
     (if action = ''counter'' then (''counter_offer'', ''counter_proposal'', None)
      else if action = ''accept'' then (''accept_offer'', ''accepted'', Some ''success'')
      else (''exit_negotiation'', ''exit'', Some ''failure''))"

definition record_seller_decision ::
    "thread_env \<Rightarrow> string \<Rightarrow> principal \<Rightarrow> int \<Rightarrow> int \<Rightarrow> nego_decision \<Rightarrow> int option \<Rightarrow> int \<Rightarrow> nego_write \<times> string option" where
  "record_seller_decision E nid seller ours theirs d amount now =
     (case recorded_action (nd_action d) of (action, type, terminal) \<Rightarrow>
       (append_message E nid seller ''seller'' (PInt ours) (PInt theirs)
          (PInt (case amount of None \<Rightarrow> theirs | Some n \<Rightarrow> n)) action type now, terminal))"

definition record_terminal_state :: "thread_env \<Rightarrow> string \<Rightarrow> string option \<Rightarrow> int \<Rightarrow> nego_write list" where
  "record_terminal_state E nid terminal now = (case terminal of
     None \<Rightarrow> [] | Some state \<Rightarrow> [Set_Terminal nid state (te_local E now)])"

definition merge_dict :: "jobj \<Rightarrow> jobj \<Rightarrow> jobj" where
  "merge_dict d e = fold (\<lambda>(k, v). dict_set k v) e d"

section \<open>Reading a transcript\<close>

definition stored_action :: "string \<Rightarrow> (nego_error, string) result" where
  "stored_action v =
     (if v = ''make_offer'' then Return ''initial''
      else if v = ''counter_offer'' then Return ''counter''
      else if v = ''accept_offer'' then Return ''accept''
      else if v = ''exit_negotiation'' then Return ''exit''
      else Raise (State_Error (''unsupported persisted negotiation action '' @ repr_str v)))"

text \<open>\<open>int(Decimal(str(value)))\<close> of an integer that was read back.\<close>

definition stored_amount :: "int option \<Rightarrow> int option" where
  "stored_amount v = v"

definition stored_mapping :: "pyval \<Rightarrow> (nego_error, jobj option) result" where
  "stored_mapping v = (case v of
     PNone \<Rightarrow> Return None
   | PDict d \<Rightarrow> Return (Some d)
   | _ \<Rightarrow> Raise (State_Error ''persisted negotiation payload is not an object''))"

definition require_principal :: "principal option \<Rightarrow> (nego_error, principal) result" where
  "require_principal p = (case p of None \<Rightarrow> Raise (Value_Error ''Input should be a valid identity'') | Some x \<Rightarrow> Return x)"

definition round_sender :: "principal \<Rightarrow> principal \<Rightarrow> message_view \<Rightarrow> (nego_error, sender) result" where
  "round_sender seller buyer m = res_bind (require_principal (mv_sender m)) (\<lambda>p.
     if mv_role m = ''seller'' then
       (if p \<noteq> seller then Raise (State_Error ''seller transcript principal does not match negotiation'') else Return Us)
     else if mv_role m = ''buyer'' then
       (if p \<noteq> buyer then Raise (State_Error ''buyer transcript principal does not match negotiation'') else Return Them)
     else if mv_role m = ''admin'' then Return Them
     else Raise (State_Error (''unsupported transcript sender role '' @ repr_str (mv_role m))))"

fun history_from ::
    "domain_hooks \<Rightarrow> principal \<Rightarrow> principal \<Rightarrow> jobj option \<Rightarrow> int \<Rightarrow> message_view list \<Rightarrow> (nego_error, nego_round list) result" where
  "history_from H seller buyer pinned expected [] = Return []"
| "history_from H seller buyer pinned expected (m # ms) =
     (if mv_round m \<noteq> expected then Raise (State_Error ''negotiation transcript round sequence is not contiguous'')
      else res_bind (round_sender seller buyer m) (\<lambda>sender.
        res_bind (stored_action (mv_action m)) (\<lambda>action.
        res_bind (history_from H seller buyer pinned (expected + 1) ms) (\<lambda>rest.
          Return (\<lparr>nr_number = mv_round m, nr_sender = sender, nr_action = action,
            nr_proposal = hk_proposal H pinned (stored_amount (mv_proposed m))\<rparr> # rest)))))"

definition is_seller_offer :: "principal \<Rightarrow> message_view \<Rightarrow> bool" where
  "is_seller_offer seller m = (mv_action m = ''counter_offer'' \<and> mv_sender m = Some seller)"

definition last_seller_amount :: "message_view list \<Rightarrow> principal \<Rightarrow> int \<Rightarrow> (nego_error, int) result" where
  "last_seller_amount ms seller fallback = (case find (is_seller_offer seller) (rev ms) of
     None \<Rightarrow> Return fallback
   | Some m \<Rightarrow> (case stored_amount (mv_proposed m) of
        None \<Rightarrow> Raise (State_Error ''seller counter has no recoverable amount'')
      | Some n \<Rightarrow> Return n))"

text \<open>A thread open for another round ends with the seller's counter and has nothing agreed.\<close>

definition ends_with_seller_counter :: "message_view list \<Rightarrow> bool" where
  "ends_with_seller_counter ms = (ms \<noteq> [] \<and> mv_role (last ms) = ''seller'' \<and> mv_action (last ms) = ''counter_offer'')"

definition truthy_text :: "string option \<Rightarrow> bool" where
  "truthy_text s = (case s of None \<Rightarrow> False | Some t \<Rightarrow> t \<noteq> [])"

definition refuse_incomplete_thread :: "thread_view \<Rightarrow> message_view list \<Rightarrow> (nego_error, unit) result" where
  "refuse_incomplete_thread t ms =
     (if \<not> ends_with_seller_counter ms \<or> truthy_text (tv_agreed_at t) \<or> py_truthy (tv_plan t)
      then Raise (State_Error (''Negotiation '' @ tv_id t @ '' was interrupted before it was complete and cannot be resumed''))
      else Return ())"

section \<open>Openings\<close>

record opening_request =
  so_listing :: string
  so_buyer :: principal
  so_seller :: principal
  so_proposal :: "jobj option"
  so_terms :: pyval

record opening_plan =
  pl_hooks :: domain_hooks
  pl_evaluation :: evaluation
  pl_acceptance :: acceptance
  pl_accepted :: bool
  pl_artifacts :: jobj
  pl_theirs :: int
  pl_amount :: "int option"

definition amount_or :: "int option \<Rightarrow> int \<Rightarrow> int" where
  "amount_or a dflt = (case a of None \<Rightarrow> dflt | Some n \<Rightarrow> n)"

text \<open>A seller without a price is unfulfillable; another error of the policy is raised on.\<close>

definition evaluate_opening :: "domain_hooks \<Rightarrow> nego_store \<Rightarrow> round_request \<Rightarrow> string \<Rightarrow> (nego_error, evaluation) result" where
  "evaluate_opening H S request listing_id = (case hk_evaluate H S request of
     Inr ev \<Rightarrow> Return ev
   | Inl e \<Rightarrow> (case value_error e of
        Some m \<Rightarrow> if infix_of ''price-less'' m \<or> infix_of ''default_min_price'' m
          then Raise (Unfulfillable ''no_floor_price'' (Some listing_id)) else Raise e
      | None \<Rightarrow> Raise e))"

definition opening_gates :: "thread_env \<Rightarrow> domain_hooks \<Rightarrow> nego_store \<Rightarrow> resolved \<Rightarrow> string \<Rightarrow> nego_terms \<Rightarrow> (nego_error, unit) result" where
  "opening_gates E H S r listing_id terms =
     res_bind (hk_validate_opening H (rv_listing r) (rv_record r) terms) (\<lambda>_.
     if hk_paused H then Raise (Paused ''global'')
     else if hk_listing_paused H S listing_id then Raise (Paused (''order:'' @ listing_id))
     else if \<not> hk_live H (rv_record r) then Raise (Unfulfillable (''listing_not_open (status='' @ py_repr (te_frepr E) (jget (rv_record r) ''status'') @ '')'') (Some listing_id))
     else Return ())"

definition opening_evaluation ::
    "domain_hooks \<Rightarrow> nego_store \<Rightarrow> resolved \<Rightarrow> opening_request \<Rightarrow> nego_terms \<Rightarrow> (nego_error, evaluation) result" where
  "opening_evaluation H S r q terms =
     res_bind (read_source H S r) (\<lambda>source.
     res_bind (evaluate_opening H S \<lparr>rr_listing = rv_listing r, rr_record = rv_record r,
         rr_history = [\<lparr>nr_number = 0, nr_sender = Them, nr_action = ''initial'', nr_proposal = so_proposal q\<rparr>],
         rr_terms = terms, rr_buyer = so_buyer q, rr_strategy = None, rr_binding = rv_binding r, rr_source = source\<rparr> (so_listing q)) (\<lambda>ev.
     res_bind (validate_evaluation ev) (\<lambda>_.
     res_bind (enforce_on_decision H source ev (so_listing q)) (\<lambda>ev'.
     if nd_action (ev_decision ev') = ''reject''
     then Raise (Unfulfillable (case nd_reason (ev_decision ev') of Some (x # xs) \<Rightarrow> x # xs | _ \<Rightarrow> ''rejected'') (Some (so_listing q)))
     else Return ev'))))"

definition accepted_artifacts :: "thread_env \<Rightarrow> domain_hooks \<Rightarrow> acceptance \<Rightarrow> int \<Rightarrow> (nego_error, acceptance \<times> jobj) result" where
  "accepted_artifacts E H a now =
     res_bind (fix_acceptance_time E now a) (\<lambda>a'. res_bind (hk_artifacts H a' True) (\<lambda>arts. Return (a', arts)))"

definition opening_acceptance ::
    "string \<Rightarrow> opening_request \<Rightarrow> resolved \<Rightarrow> nego_terms \<Rightarrow> evaluation \<Rightarrow> agreement_terms \<Rightarrow> int \<Rightarrow> acceptance" where
  "opening_acceptance nid q r terms ev agreement amount =
     \<lparr>ac_id = nid, ac_listing_id = so_listing q, ac_listing = rv_listing r, ac_record = rv_record r, ac_terms = terms,
      ac_pinned = (case ev_pinned ev of Some p \<Rightarrow> Some p | None \<Rightarrow> so_proposal q), ac_amount = amount, ac_agreement = agreement,
      ac_scalar = ev_scalar ev, ac_buyer = so_buyer q, ac_seller = so_seller q, ac_state = ev_state ev,
      ac_binding = rv_binding r, ac_accepted = None\<rparr>"

definition plan_opening :: "nego_runtime \<Rightarrow> int \<Rightarrow> string \<Rightarrow> opening_request \<Rightarrow> nego_store \<Rightarrow> (nego_error, opening_plan) result" where
  "plan_opening R now nid q S =
     res_bind (nrt_resolve_opening R S (so_listing q)) (\<lambda>(r, H).
     res_bind (require_listing_binding r (so_listing q)) (\<lambda>_.
     res_bind (hk_decode H (so_terms q)) (\<lambda>terms.
     res_bind (opening_gates (nrt_env R) H S r (so_listing q) terms) (\<lambda>_.
     res_bind (opening_evaluation H S r q terms) (\<lambda>ev.
     res_bind (hk_amount H (so_proposal q)) (\<lambda>buyer_amount.
     res_bind (hk_agreement H (rv_listing r) (rv_record r) terms) (\<lambda>agreement.
     res_bind (hk_amount H (nd_proposal (ev_decision ev))) (\<lambda>decision_amount.
     let a = opening_acceptance nid q r terms ev agreement (amount_or decision_amount (ev_our ev));
         accepted = (nd_action (ev_decision ev) = ''accept'') in
     res_bind (if accepted then accepted_artifacts (nrt_env R) H a now
         else res_bind (hk_artifacts H a False) (\<lambda>arts. Return (a, arts))) (\<lambda>(a', arts).
       Return \<lparr>pl_hooks = H, pl_evaluation = ev, pl_acceptance = a', pl_accepted = accepted, pl_artifacts = arts,
         pl_theirs = amount_or buyer_amount 0, pl_amount = decision_amount\<rparr>)))))))))"

text \<open>The writes of \<open>start\<close>, in their order, and its response.\<close>

definition opening_writes :: "thread_env \<Rightarrow> (nat \<Rightarrow> int) \<Rightarrow> string \<Rightarrow> string \<Rightarrow> opening_plan \<Rightarrow> nego_write list" where
  "opening_writes E clk seller_url buyer_url p =
     (let a = pl_acceptance p; ev = pl_evaluation p; H = pl_hooks p; terms = ac_terms a;
          seller_move = record_seller_decision E (ac_id a) (ac_seller a) (ev_our ev) (pl_theirs p) (ev_decision ev) (pl_amount p) (clk 3) in
      Create_Thread (opened_thread (ac_id a) (ac_listing_id a) [] seller_url buyer_url ''active'' (te_local E (clk 1))
          (nt_duration terms) (nt_start terms) (stored_object (te_dumps E) (ac_pinned a)) (stored_object (te_dumps E) (nt_wire terms))
          (ac_buyer a) (ac_seller a) None) seller_url (PInt (ev_our ev)) (Some (ev_label ev))
      # append_message E (ac_id a) (ac_buyer a) ''buyer'' (PInt (ev_our ev)) (PInt (pl_theirs p)) (PInt (pl_theirs p))
          ''make_offer'' ''offer'' (clk 2)
      # hook_writes (hk_persist_opening H) \<lparr>op_acceptance = a, op_evaluation = ev\<rparr>
      @ fst seller_move
      # (if pl_accepted p then commit_acceptance E H a (pl_artifacts p) (clk 4) else [])
      @ record_terminal_state E (ac_id a) (snd seller_move) (clk 5))"

definition opening_response :: "opening_plan \<Rightarrow> jobj" where
  "opening_response p =
     (let a = pl_acceptance p;
          base = merge_dict (merge_dict
            [(PStr ''negotiation_id'', PStr (ac_id a)), (PStr ''buyer_principal'', principal_json (ac_buyer a)),
             (PStr ''seller_principal'', principal_json (ac_seller a))]
            (hk_wire (pl_hooks p) (ev_decision (pl_evaluation p)))) (pl_artifacts p) in
      case nt_wire (ac_terms a) of None \<Rightarrow> base | Some w \<Rightarrow> jset ''accepted_provision_terms'' (PDict w) base)"

definition start_plan ::
    "nego_runtime \<Rightarrow> (nat \<Rightarrow> int) \<Rightarrow> string \<Rightarrow> principal \<Rightarrow> string \<Rightarrow> string \<Rightarrow> opening_request \<Rightarrow> nego_store \<Rightarrow>
     (nego_error, nego_write list \<times> jobj) result" where
  "start_plan R clk nid actor seller_url buyer_url q S =
     (if actor \<noteq> so_buyer q then Raise (State_Error ''authenticated actor does not match opening buyer principal'')
      else res_bind (plan_opening R (clk 0) nid q S) (\<lambda>p.
        Return (opening_writes (nrt_env R) clk seller_url buyer_url p, opening_response p)))"

definition start ::
    "nego_runtime \<Rightarrow> (nat \<Rightarrow> int) \<Rightarrow> string \<Rightarrow> principal \<Rightarrow> string \<Rightarrow> string \<Rightarrow> opening_request \<Rightarrow> nego_store \<Rightarrow>
     nego_store \<times> (nego_error, jobj) result" where
  "start R clk nid actor seller_url buyer_url q S =
     run_request (nrt_env R) (start_plan R clk nid actor seller_url buyer_url q S) S"

text \<open>\<open>preview_opening\<close> reports the refusals \<open>start\<close> would raise and writes nothing.\<close>

fun refusal_text :: "nego_error \<Rightarrow> string option" where
  "refusal_text (State_Error m) = Some (''NegotiationStateError: '' @ m)"
| "refusal_text (Amount_Error m) = Some (''NegotiationAmountError: '' @ m)"
| "refusal_text (Value_Error m) = Some (''ValueError: '' @ m)"
| "refusal_text (Unavailable m _) = Some (''NegotiationUnavailableError: '' @ m)"
| "refusal_text (Unfulfillable m _) = Some (''OfferUnfulfillableError: '' @ m)"
| "refusal_text (Paused m) = Some (''StorefrontPausedError: '' @ m)"
| "refusal_text _ = None"

datatype opening_preview =
    Preview_Refused string
  | Preview_Decision int int string nego_decision "int option"

definition preview_of :: "opening_plan \<Rightarrow> opening_preview" where
  "preview_of p = Preview_Decision (ev_our (pl_evaluation p)) (pl_theirs p) (ev_label (pl_evaluation p))
     (ev_decision (pl_evaluation p)) (pl_amount p)"

definition preview_opening :: "nego_runtime \<Rightarrow> int \<Rightarrow> opening_request \<Rightarrow> nego_store \<Rightarrow> (nego_error, opening_preview) result" where
  "preview_opening R now q S = (case plan_opening R now ''preview'' q S of
     Inr p \<Rightarrow> Return (preview_of p)
   | Inl e \<Rightarrow> (case refusal_text e of Some m \<Rightarrow> Return (Preview_Refused m) | None \<Rightarrow> Raise e))"

section \<open>Continuations\<close>

definition load_open_thread :: "thread_env \<Rightarrow> nego_store \<Rightarrow> string \<Rightarrow> (nego_error, thread_view) result" where
  "load_open_thread E S nid = res_bind (load_negotiation_thread_row E S nid) (\<lambda>row. case row of
     None \<Rightarrow> Raise (State_Error (''Unknown negotiation '' @ nid))
   | Some t \<Rightarrow>
       if truthy_text (tv_terminal t)
       then Raise (State_Error (''Negotiation '' @ nid @ '' is already in terminal state '' @ repr_str (case tv_terminal t of Some s \<Rightarrow> s | None \<Rightarrow> [])))
       else Return t)"

record resumed_thread =
  rt_resolved :: resolved
  rt_hooks :: domain_hooks
  rt_terms :: nego_terms
  rt_pinned :: "jobj option"
  rt_messages :: "message_view list"
  rt_scalar :: bool
  rt_reference :: int
  rt_agreement :: agreement_terms

definition resume_thread :: "nego_runtime \<Rightarrow> nego_store \<Rightarrow> thread_view \<Rightarrow> (nego_error, resumed_thread) result" where
  "resume_thread R S t =
     (if tv_our_listing t = [] then Raise (State_Error (''Negotiation '' @ tv_id t @ '' has no recorded listing''))
      else res_bind (nrt_resolve_continuation R S t) (\<lambda>(r, H).
        res_bind (require_listing_binding r (tv_our_listing t)) (\<lambda>_.
        res_bind (hk_decode H (tv_terms t)) (\<lambda>terms.
        res_bind (hk_validate_continuation H S (rv_listing r) (rv_record r) terms t) (\<lambda>_.
        res_bind (stored_mapping (tv_proposal t)) (\<lambda>pinned.
        res_bind (load_negotiation_thread (nrt_env R) S (tv_id t)) (\<lambda>ms.
        res_bind (hk_amount H pinned) (\<lambda>amount.
        res_bind (hk_reference H (rv_listing r) (rv_record r) terms (amount \<noteq> None) pinned) (\<lambda>reference.
        res_bind (hk_agreement H (rv_listing r) (rv_record r) terms) (\<lambda>agreement.
          Return \<lparr>rt_resolved = r, rt_hooks = H, rt_terms = terms, rt_pinned = pinned, rt_messages = ms,
            rt_scalar = (amount \<noteq> None), rt_reference = reference, rt_agreement = agreement\<rparr>))))))))))"

definition resumed_acceptance ::
    "thread_view \<Rightarrow> resumed_thread \<Rightarrow> int \<Rightarrow> bool \<Rightarrow> principal \<Rightarrow> principal \<Rightarrow> pyval \<Rightarrow> acceptance" where
  "resumed_acceptance t x amount scalar buyer seller state =
     \<lparr>ac_id = tv_id t, ac_listing_id = tv_our_listing t, ac_listing = rv_listing (rt_resolved x), ac_record = rv_record (rt_resolved x),
      ac_terms = rt_terms x, ac_pinned = rt_pinned x, ac_amount = amount, ac_agreement = rt_agreement x, ac_scalar = scalar,
      ac_buyer = buyer, ac_seller = seller, ac_state = state, ac_binding = rv_binding (rt_resolved x), ac_accepted = None\<rparr>"

definition parties_json :: "principal \<Rightarrow> principal \<Rightarrow> jobj" where
  "parties_json buyer seller = [(PStr ''buyer_principal'', principal_json buyer), (PStr ''seller_principal'', principal_json seller)]"

text \<open>The writes that accept at an amount: the author's message, the terms, the domain's artifacts
  and the terminal state.\<close>

definition accepting_writes ::
    "thread_env \<Rightarrow> (nat \<Rightarrow> int) \<Rightarrow> domain_hooks \<Rightarrow> acceptance \<Rightarrow> jobj \<Rightarrow> principal \<Rightarrow> string \<Rightarrow> int \<Rightarrow> nego_write list" where
  "accepting_writes E clk H a arts actor role ours =
     append_message E (ac_id a) actor role (PInt ours) (PInt (ac_amount a)) (PInt (ac_amount a)) ''accept_offer'' ''accepted'' (clk 1)
     # commit_acceptance E H a arts (clk 2) @ record_terminal_state E (ac_id a) (Some ''success'') (clk 3)"

definition force_accept_plan ::
    "nego_runtime \<Rightarrow> (nat \<Rightarrow> int) \<Rightarrow> string \<Rightarrow> int \<Rightarrow> principal \<Rightarrow> thread_view \<Rightarrow> nego_store \<Rightarrow> (nego_error, nego_write list \<times> jobj) result" where
  "force_accept_plan R clk listing_id amount actor t S =
     (if tv_our_listing t \<noteq> listing_id
      then Raise (State_Error (''Negotiation '' @ tv_id t @ '' does not belong to listing '' @ listing_id))
      else res_bind (resume_thread R S t) (\<lambda>x.
        res_bind (refuse_incomplete_thread t (rt_messages x)) (\<lambda>_.
        res_bind (enforce_on_acceptance (rt_hooks x) S (rt_resolved x) listing_id) (\<lambda>_.
        res_bind (require_principal (tv_buyer t)) (\<lambda>buyer.
        res_bind (require_principal (tv_seller t)) (\<lambda>seller.
        res_bind (accepted_artifacts (nrt_env R) (rt_hooks x)
            (resumed_acceptance t x amount (rt_scalar x) buyer seller PNone) (clk 0)) (\<lambda>(a, arts).
          Return (accepting_writes (nrt_env R) clk (rt_hooks x) a arts actor ''admin'' amount,
            merge_dict [(PStr ''negotiation_id'', PStr (tv_id t)), (PStr ''listing_id'', PStr listing_id), (PStr ''action'', PStr ''accept''),
              (PStr ''amount'', PInt amount), (PStr ''source'', PStr ''admin_force_accept'')] arts))))))))"

record continuation_request =
  co_action :: string
  co_proposal :: "jobj option"
  co_buyer :: principal
  co_actor :: principal
  co_role :: string
  co_seller :: "principal option"

text \<open>The recorded parties, once the request is found to come from the thread's own buyer or an administrator.\<close>

definition authorize :: "continuation_request \<Rightarrow> thread_view \<Rightarrow> (nego_error, principal \<times> principal) result" where
  "authorize q t =
     res_bind (require_principal (tv_buyer t)) (\<lambda>buyer.
     res_bind (require_principal (tv_seller t)) (\<lambda>seller.
     if co_buyer q \<noteq> buyer then Raise (State_Error ''buyer principal does not own this negotiation'')
     else if (case co_seller q of None \<Rightarrow> False | Some s \<Rightarrow> s \<noteq> seller)
     then Raise (State_Error ''seller principal does not own this negotiation'')
     else if co_role q = ''buyer'' \<and> co_actor q \<noteq> buyer
     then Raise (State_Error ''authenticated actor does not match negotiation buyer'')
     else if co_role q \<notin> {''buyer'', ''admin''} then Raise (State_Error (''unsupported negotiation actor role '' @ repr_str (co_role q)))
     else Return (buyer, seller)))"

definition continue_accept ::
    "nego_runtime \<Rightarrow> (nat \<Rightarrow> int) \<Rightarrow> continuation_request \<Rightarrow> thread_view \<Rightarrow> resumed_thread \<Rightarrow> principal \<Rightarrow> principal \<Rightarrow> nego_store \<Rightarrow>
     (nego_error, nego_write list \<times> jobj) result" where
  "continue_accept R clk q t x buyer seller S =
     res_bind (enforce_on_acceptance (rt_hooks x) S (rt_resolved x) (tv_our_listing t)) (\<lambda>_.
     res_bind (last_seller_amount (rt_messages x) seller (rt_reference x)) (\<lambda>amount.
     res_bind (accepted_artifacts (nrt_env R) (rt_hooks x)
         (resumed_acceptance t x amount (rt_scalar x) buyer seller PNone) (clk 0)) (\<lambda>(a, arts).
       Return (accepting_writes (nrt_env R) clk (rt_hooks x) a arts (co_actor q) (co_role q) (rt_reference x),
         merge_dict ((PStr ''action'', PStr ''accept'') # parties_json buyer seller) arts))))"

definition continue_exit ::
    "nego_runtime \<Rightarrow> (nat \<Rightarrow> int) \<Rightarrow> continuation_request \<Rightarrow> thread_view \<Rightarrow> resumed_thread \<Rightarrow> principal \<Rightarrow> principal \<Rightarrow>
     nego_write list \<times> jobj" where
  "continue_exit R clk q t x buyer seller =
     ([append_message (nrt_env R) (tv_id t) (co_actor q) (co_role q) (PInt (rt_reference x)) PNone PNone ''exit_negotiation'' ''exit'' (clk 1)]
        @ record_terminal_state (nrt_env R) (tv_id t) (Some ''failure'') (clk 3),
      [(PStr ''action'', PStr ''exit''), (PStr ''reason'', PStr ''buyer_exit'')] @ parties_json buyer seller)"

text \<open>A round on a counter: the policy is asked over the recorded transcript and the buyer's new round.\<close>

definition counter_evaluation ::
    "nego_store \<Rightarrow> thread_view \<Rightarrow> resumed_thread \<Rightarrow> principal \<Rightarrow> nego_round list \<Rightarrow> jobj option \<Rightarrow> (nego_error, evaluation) result" where
  "counter_evaluation S t x buyer history proposal =
     (let H = rt_hooks x; r = rt_resolved x in
      res_bind (read_source H S r) (\<lambda>source.
      res_bind (hk_strategy H (rv_listing r) (rv_record r)) (\<lambda>strategy.
      res_bind (hk_evaluate H S \<lparr>rr_listing = rv_listing r, rr_record = rv_record r,
          rr_history = history @ [\<lparr>nr_number = int (length history), nr_sender = Them, nr_action = ''counter'', nr_proposal = proposal\<rparr>],
          rr_terms = rt_terms x, rr_buyer = buyer, rr_strategy = strategy, rr_binding = rv_binding r, rr_source = source\<rparr>) (\<lambda>ev.
      res_bind (validate_evaluation ev) (\<lambda>_.
        enforce_on_decision H source ev (tv_our_listing t))))))"

definition counter_writes ::
    "thread_env \<Rightarrow> (nat \<Rightarrow> int) \<Rightarrow> domain_hooks \<Rightarrow> continuation_request \<Rightarrow> evaluation \<Rightarrow> acceptance \<Rightarrow> jobj \<Rightarrow> int \<Rightarrow> int option \<Rightarrow> nego_write list" where
  "counter_writes E clk H q ev a arts theirs amount =
     (let seller_move = record_seller_decision E (ac_id a) (ac_seller a) (ev_our ev) theirs (ev_decision ev) amount (clk 2) in
      append_message E (ac_id a) (co_actor q) (co_role q) (PInt (ev_our ev)) (PInt theirs) (PInt theirs)
        ''counter_offer'' ''counter_proposal'' (clk 1)
      # fst seller_move
      # (if nd_action (ev_decision ev) = ''accept'' then commit_acceptance E H a arts (clk 3) else [])
      @ record_terminal_state E (ac_id a) (snd seller_move) (clk 4))"

definition continue_counter ::
    "nego_runtime \<Rightarrow> (nat \<Rightarrow> int) \<Rightarrow> continuation_request \<Rightarrow> thread_view \<Rightarrow> resumed_thread \<Rightarrow> principal \<Rightarrow> principal \<Rightarrow>
     nego_round list \<Rightarrow> nego_store \<Rightarrow> (nego_error, nego_write list \<times> jobj) result" where
  "continue_counter R clk q t x buyer seller history S =
     (let H = rt_hooks x; proposal = (case co_proposal q of Some p \<Rightarrow> Some p | None \<Rightarrow> rt_pinned x) in
      res_bind (counter_evaluation S t x buyer history proposal) (\<lambda>ev.
      res_bind (hk_amount H proposal) (\<lambda>fallback.
      res_bind (hk_amount H (nd_proposal (ev_decision ev))) (\<lambda>decision_amount.
      let theirs = (case ev_buyer ev of Some n \<Rightarrow> n | None \<Rightarrow> amount_or fallback 0);
          a = resumed_acceptance t x (amount_or decision_amount (ev_our ev)) (ev_scalar ev) buyer seller (ev_state ev) in
      res_bind (if nd_action (ev_decision ev) = ''accept'' then accepted_artifacts (nrt_env R) H a (clk 0) else Return (a, [])) (\<lambda>(a', arts).
        Return (counter_writes (nrt_env R) clk H q ev a' arts theirs decision_amount,
          merge_dict (merge_dict (hk_wire H (ev_decision ev)) (parties_json buyer seller)) arts))))))"

definition continue_plan ::
    "nego_runtime \<Rightarrow> (nat \<Rightarrow> int) \<Rightarrow> continuation_request \<Rightarrow> thread_view \<Rightarrow> nego_store \<Rightarrow> (nego_error, nego_write list \<times> jobj) result" where
  "continue_plan R clk q t S =
     res_bind (authorize q t) (\<lambda>(buyer, seller).
     res_bind (resume_thread R S t) (\<lambda>x.
     res_bind (history_from (rt_hooks x) seller buyer (rt_pinned x) 0 (rt_messages x)) (\<lambda>history.
     res_bind (if co_action q = ''exit'' then Return () else refuse_incomplete_thread t (rt_messages x)) (\<lambda>_.
     if co_action q = ''accept'' then continue_accept R clk q t x buyer seller S
     else if co_action q = ''exit'' then Return (continue_exit R clk q t x buyer seller)
     else if co_action q = ''counter'' then continue_counter R clk q t x buyer seller history S
     else Raise (State_Error (''Unsupported buyer action '' @ repr_str (co_action q)))))))"

definition continue_negotiation ::
    "nego_runtime \<Rightarrow> (nat \<Rightarrow> int) \<Rightarrow> string \<Rightarrow> continuation_request \<Rightarrow> nego_store \<Rightarrow> nego_store \<times> (nego_error, jobj) result" where
  "continue_negotiation R clk nid q S =
     run_request (nrt_env R) (res_bind (load_open_thread (nrt_env R) S nid) (\<lambda>t. continue_plan R clk q t S)) S"

definition accept_administratively ::
    "nego_runtime \<Rightarrow> (nat \<Rightarrow> int) \<Rightarrow> string \<Rightarrow> string \<Rightarrow> int \<Rightarrow> principal \<Rightarrow> nego_store \<Rightarrow> nego_store \<times> (nego_error, jobj) result" where
  "accept_administratively R clk listing_id nid amount actor S =
     run_request (nrt_env R) (res_bind (load_open_thread (nrt_env R) S nid) (\<lambda>t. force_accept_plan R clk listing_id amount actor t S)) S"

section \<open>The watchdog\<close>

record watchdog_policy =
  wp_timeout :: int
  wp_interval :: int
  wp_terminal :: string
  wp_delay :: int

definition mk_watchdog_policy :: "int \<Rightarrow> int \<Rightarrow> string \<Rightarrow> int \<Rightarrow> (nego_error, watchdog_policy) result" where
  "mk_watchdog_policy timeout interval terminal delay =
     (if timeout \<le> 0 then Raise (Value_Error ''negotiation timeout must be greater than zero'')
      else if interval \<le> 0 then Raise (Value_Error ''negotiation watchdog interval must be greater than zero'')
      else if delay < 0 then Raise (Value_Error ''negotiation watchdog initial delay cannot be negative'')
      else if terminal = [] then Raise (Value_Error ''negotiation watchdog terminal state is required'')
      else Return \<lparr>wp_timeout = timeout, wp_interval = interval, wp_terminal = terminal, wp_delay = delay\<rparr>)"

definition parse_timestamp :: "thread_env \<Rightarrow> string \<Rightarrow> int option" where
  "parse_timestamp E raw = (if raw = [] then None else te_fromiso E (rev (dropWhile (\<lambda>c. c = CHR ''Z'') (rev raw))))"

definition stale_negotiations :: "thread_env \<Rightarrow> nego_store \<Rightarrow> int \<Rightarrow> thread_row list" where
  "stale_negotiations E S cutoff = filter (\<lambda>t. tr_terminal t = None \<and>
     (case parse_timestamp E (tr_updated t) of None \<Rightarrow> False | Some u \<Rightarrow> u < cutoff)) (threads S)"

definition sweep_writes :: "thread_env \<Rightarrow> watchdog_policy \<Rightarrow> (nat \<Rightarrow> int) \<Rightarrow> nego_store \<Rightarrow> nego_write list" where
  "sweep_writes E W clk S = map (\<lambda>t. Set_Terminal (tr_id t) (wp_terminal W) (te_local E (clk 1)))
     (stale_negotiations E S (clk 0 - wp_timeout W))"

definition sweep_stale_negotiations :: "thread_env \<Rightarrow> watchdog_policy \<Rightarrow> (nat \<Rightarrow> int) \<Rightarrow> nego_store \<Rightarrow> nego_store \<times> nat" where
  "sweep_stale_negotiations E W clk S =
     (fst (run_writes E (sweep_writes E W clk S) S), length (sweep_writes E W clk S))"

end
