(* ===== verification/Negotiation_Runs.thy ===== *)
theory Negotiation_Runs
  imports Negotiation_Runtime
begin

text \<open>
  Negotiations as they run.  Requests of the runtime and sweeps of the watchdog interleave between
  repository calls, and a process may stop between any two of them: \<open>nego_step\<close>.  What the writes of
  the requests keep in every interleaving is proved here.  Requests that run one after the other are
  in \<open>Negotiation_Serial\<close>.
\<close>

section \<open>The store\<close>

lemma find_thread_update:
  assumes "\<And>t. tr_id (f t) = tr_id t"
  shows "find_thread (update_thread nid f S) k = (if k = nid then map_option f (find_thread S k) else find_thread S k)"
proof -
  have "find (\<lambda>t. tr_id t = k) (map (\<lambda>t. if tr_id t = nid then f t else t) ts) =
      (if k = nid then map_option f (find (\<lambda>t. tr_id t = k) ts) else find (\<lambda>t. tr_id t = k) ts)" for ts
    by (induction ts) (auto simp: assms)
  then show ?thesis by (simp add: find_thread_def update_thread_def)
qed

lemma find_thread_id: "find_thread S nid = Some t \<Longrightarrow> tr_id t = nid \<and> t \<in> set (threads S)"
  by (auto simp: find_thread_def find_Some_iff)

lemma find_thread_None: "find_thread S nid = None \<longleftrightarrow> nid \<notin> tr_id ` set (threads S)"
  by (auto simp: find_thread_def find_None_iff)

lemma find_thread_distinct:
  assumes "distinct (map tr_id (threads S))" "t \<in> set (threads S)"
  shows "find_thread S (tr_id t) = Some t"
proof -
  from assms(2) obtain u where u: "find_thread S (tr_id t) = Some u"
    by (metis find_thread_None image_eqI not_Some_eq)
  from find_thread_id [OF this] assms have "u = t" by (metis distinct_map inj_on_def)
  with u show ?thesis by simp
qed

lemma update_thread_frame [simp]:
  "messages (update_thread nid f S) = messages S" "locals (update_thread nid f S) = locals S"
  "domain_tables (update_thread nid f S) = domain_tables S"
  by (simp_all add: update_thread_def)

lemma thread_messages_frame [simp]: "thread_messages (update_thread nid f S) k = thread_messages S k"
  by (simp add: thread_messages_def)

lemma map_id_update: "(\<And>t. tr_id (f t) = tr_id t) \<Longrightarrow> map tr_id (threads (update_thread nid f S)) = map tr_id (threads S)"
  by (auto simp: update_thread_def)

section \<open>Transcripts\<close>

text \<open>The rounds of a thread are \<open>0, 1, \<dots>\<close> in the order they were written.\<close>

definition contiguous :: "message_row list \<Rightarrow> bool" where
  "contiguous ms = (map mg_round ms = map int [0..<length ms])"

lemma contiguous_snoc: "contiguous ms \<Longrightarrow> mg_round r = int (length ms) \<Longrightarrow> contiguous (ms @ [r])"
  by (simp add: contiguous_def)

lemma fold_max_upt: "fold max (map int [0..<n]) (- 1) = int n - 1"
  by (induction n) auto

lemma next_round_contiguous: "contiguous (thread_messages S nid) \<Longrightarrow> next_round S nid = int (length (thread_messages S nid))"
  by (simp add: next_round_def contiguous_def fold_max_upt)

lemma contiguous_round: "contiguous ms \<Longrightarrow> k < length ms \<Longrightarrow> mg_round (ms ! k) = int k"
  by (metis contiguous_def add_0 diff_zero length_map length_upt nth_map nth_upt)

lemma contiguous_mem:
  assumes "contiguous ms"
  shows "(\<exists>m \<in> set ms. mg_round m = n) \<longleftrightarrow> 0 \<le> n \<and> n < int (length ms)"
proof -
  have "mg_round ` set ms = set (map int [0..<length ms])" using assms by (metis contiguous_def set_map)
  then have "n \<in> mg_round ` set ms \<longleftrightarrow> n \<in> int ` {0..<length ms}" by simp
  moreover have "n \<in> int ` {0..<length ms} \<longleftrightarrow> 0 \<le> n \<and> n < int (length ms)"
    by (auto simp: image_iff intro!: bexI [of _ "nat n"])
  ultimately show ?thesis by auto
qed

lemma sort_key_sorted: "sorted (map f xs) \<Longrightarrow> sort_key f xs = xs"
  by (induction xs) (auto simp: insort_is_Cons)

lemma sort_contiguous: "contiguous ms \<Longrightarrow> sort_key mg_round ms = ms"
  by (rule sort_key_sorted) (simp add: contiguous_def sorted_map sorted_wrt_upt)

text \<open>Writing a message at a round not beyond the next one keeps the transcript contiguous.\<close>

lemma thread_messages_upsert:
  "thread_messages (upsert_message r S) nid =
     (if nid \<noteq> mg_thread r then thread_messages S nid
      else if \<exists>m \<in> set (thread_messages S nid). mg_round m = mg_round r
      then map (\<lambda>m. if mg_round m = mg_round r then r else m) (thread_messages S nid)
      else thread_messages S nid @ [r])"
proof -
  have other: "filter (\<lambda>m. mg_thread m = k) (map (\<lambda>m. if mg_thread m = mg_thread r \<and> mg_round m = mg_round r then r else m) ms) =
      (if k = mg_thread r then map (\<lambda>m. if mg_round m = mg_round r then r else m) (filter (\<lambda>m. mg_thread m = k) ms)
       else filter (\<lambda>m. mg_thread m = k) ms)" for k ms
    by (induction ms) auto
  show ?thesis
    by (auto simp: upsert_message_def thread_messages_def other list_ex_iff)
qed

lemma contiguous_upsert:
  assumes "contiguous (thread_messages S nid)" "mg_thread r = nid \<Longrightarrow> 0 \<le> mg_round r \<and> mg_round r \<le> int (length (thread_messages S nid))"
  shows "contiguous (thread_messages (upsert_message r S) nid)"
proof (cases "mg_thread r = nid")
  case True
  let ?ms = "thread_messages S nid"
  show ?thesis
  proof (cases "\<exists>m \<in> set ?ms. mg_round m = mg_round r")
    case present: True
    have "map mg_round (map (\<lambda>m. if mg_round m = mg_round r then r else m) ?ms) = map mg_round ?ms" by simp
    with assms(1) True present show ?thesis by (simp add: thread_messages_upsert contiguous_def)
  next
    case False
    with assms contiguous_mem [OF assms(1), of "mg_round r"] True have "mg_round r = int (length ?ms)" by auto
    with assms(1) True False show ?thesis by (simp add: thread_messages_upsert contiguous_snoc)
  qed
qed (use assms in \<open>simp add: thread_messages_upsert\<close>)

lemma length_upsert: "length (thread_messages S nid) \<le> length (thread_messages (upsert_message r S) nid)"
  by (auto simp: thread_messages_upsert)

lemma upsert_frame [simp]:
  "threads (upsert_message r S) = threads S" "find_thread (upsert_message r S) k = find_thread S k"
  by (auto simp: upsert_message_def find_thread_def)

lemma set_upsert: "m \<in> set (messages (upsert_message r S)) \<Longrightarrow> m = r \<or> m \<in> set (messages S)"
  by (auto simp: upsert_message_def split: if_splits)

section \<open>Requests and their interleaving\<close>

datatype nego_request =
    Start_Negotiation "nat \<Rightarrow> int" string principal string string opening_request
  | Continue_Negotiation "nat \<Rightarrow> int" string continuation_request
  | Force_Accept "nat \<Rightarrow> int" string string int principal
  | Sweep watchdog_policy "nat \<Rightarrow> int"

text \<open>What a request reads first: the thread it is about.\<close>

fun subject :: "nego_request \<Rightarrow> string option" where
  "subject (Continue_Negotiation clk nid q) = Some nid"
| "subject (Force_Accept clk listing nid amount actor) = Some nid"
| "subject (Start_Negotiation clk nid actor su bu q) = None"
| "subject (Sweep W clk) = None"

fun request_writes :: "nego_runtime \<Rightarrow> nego_request \<Rightarrow> thread_view option \<Rightarrow> nego_store \<Rightarrow> (nego_error, nego_write list) result" where
  "request_writes R (Start_Negotiation clk nid actor su bu q) t S =
     res_bind (start_plan R clk nid actor su bu q S) (\<lambda>(ws, _). Return ws)"
| "request_writes R (Sweep W clk) t S = Return (sweep_writes (nrt_env R) W clk S)"
| "request_writes R (Continue_Negotiation clk nid q) t S = (case t of
     None \<Rightarrow> Return [] | Some v \<Rightarrow> res_bind (continue_plan R clk q v S) (\<lambda>(ws, _). Return ws))"
| "request_writes R (Force_Accept clk listing nid amount actor) t S = (case t of
     None \<Rightarrow> Return [] | Some v \<Rightarrow> res_bind (force_accept_plan R clk listing amount actor v S) (\<lambda>(ws, _). Return ws))"

fun watchdog_ok :: "nego_request \<Rightarrow> bool" where
  "watchdog_ok (Sweep W clk) = (wp_terminal W \<noteq> ''success'' \<and> wp_terminal W \<noteq> [])"
| "watchdog_ok _ = True"

text \<open>The principals a request carries are valid ones.\<close>

fun parties_valid :: "nego_request \<Rightarrow> bool" where
  "parties_valid (Start_Negotiation clk nid actor su bu q) = (principal_ok (so_buyer q) \<and> principal_ok (so_seller q))"
| "parties_valid (Continue_Negotiation clk nid q) = principal_ok (co_actor q)"
| "parties_valid (Force_Accept clk listing nid amount actor) = principal_ok actor"
| "parties_valid (Sweep W clk) = True"

definition admissible :: "nego_request \<Rightarrow> bool" where
  "admissible q = (watchdog_ok q \<and> parties_valid q)"

datatype task = Reading nego_request thread_view | Writing "nego_write list"

definition is_append :: "nego_write \<Rightarrow> bool" where
  "is_append w = (case w of Append_Message m \<Rightarrow> True | _ \<Rightarrow> False)"

inductive nego_step :: "nego_runtime \<Rightarrow> nego_store \<times> task list \<Rightarrow> nego_store \<times> task list \<Rightarrow> bool" for R where
  direct: "subject q = None \<Longrightarrow> admissible q \<Longrightarrow> request_writes R q None S = Return ws \<Longrightarrow>
     nego_step R (S, P) (S, P @ [Writing ws])"
| read_thread: "subject q = Some nid \<Longrightarrow> admissible q \<Longrightarrow> load_open_thread (nrt_env R) S nid = Return t \<Longrightarrow>
     nego_step R (S, P) (S, P @ [Reading q t])"
| decided: "i < length P \<Longrightarrow> P ! i = Reading q t \<Longrightarrow> request_writes R q (Some t) S = Return ws \<Longrightarrow>
     nego_step R (S, P) (S, P[i := Writing ws])"
| choose_round: "i < length P \<Longrightarrow> P ! i = Writing (Append_Message m # ws) \<Longrightarrow> message_round m S = Return n \<Longrightarrow>
     nego_step R (S, P) (S, P[i := Writing (Append_At n m # ws)])"
| performed: "i < length P \<Longrightarrow> P ! i = Writing (w # ws) \<Longrightarrow> \<not> is_append w \<Longrightarrow> apply_write (nrt_env R) w S = Return S' \<Longrightarrow>
     nego_step R (S, P) (S', P[i := Writing ws])"
| abandoned: "i < length P \<Longrightarrow> nego_step R (S, P) (S, P[i := Writing []])"

definition empty_store :: "pyval \<Rightarrow> nego_store" where
  "empty_store tables = \<lparr>threads = [], messages = [], locals = [], domain_tables = tables\<rparr>"

definition reachable :: "nego_runtime \<Rightarrow> nego_store \<times> task list \<Rightarrow> bool" where
  "reachable R x = (\<exists>tables. (nego_step R)\<^sup>*\<^sup>* (empty_store tables, []) x)"

section \<open>What every write keeps\<close>

definition parties_ok :: "thread_row \<Rightarrow> bool" where
  "parties_ok t = (\<exists>buyer seller. principal_ok buyer \<and> principal_ok seller \<and>
     tr_buyer t = Some (principal_columns buyer) \<and> tr_seller t = Some (principal_columns seller))"

definition author_ok :: "thread_row \<Rightarrow> message_row \<Rightarrow> bool" where
  "author_ok t m = (mg_role m \<in> set SENDER_ROLES \<and> (mg_role m = ''buyer'' \<longrightarrow> tr_buyer t = Some (mg_sender m)) \<and>
     (mg_role m = ''seller'' \<longrightarrow> tr_seller t = Some (mg_sender m)))"

definition agreed :: "thread_row \<Rightarrow> bool" where
  "agreed t = (tr_agreed_at t \<noteq> None)"

definition store_ok :: "nego_store \<Rightarrow> bool" where
  "store_ok S = (distinct (map tr_id (threads S)) \<and> (\<forall>t \<in> set (threads S). parties_ok t) \<and>
     (\<forall>nid. contiguous (thread_messages S nid)) \<and>
     (\<forall>m \<in> set (messages S). \<exists>t. find_thread S (mg_thread m) = Some t \<and> author_ok t m) \<and>
     (\<forall>t \<in> set (threads S). tr_terminal t = Some ''success'' \<longrightarrow> agreed t))"

definition known :: "nego_store \<Rightarrow> string set" where
  "known S = tr_id ` set (threads S)"

definition agreed_ids :: "nego_store \<Rightarrow> string set" where
  "agreed_ids S = {nid. \<exists>t. find_thread S nid = Some t \<and> agreed t}"

text \<open>A list of writes that marks a thread successful only after its terms are recorded; \<open>K\<close> are
  the threads known to exist, \<open>A\<close> those with recorded terms.\<close>

definition fresh_row :: "thread_row \<Rightarrow> bool" where
  "fresh_row t = (parties_ok t \<and> tr_terminal t = None \<and> tr_agreed_at t = None)"

fun sound_writes :: "string set \<Rightarrow> string set \<Rightarrow> nego_write list \<Rightarrow> bool" where
  "sound_writes K A [] = True"
| "sound_writes K A (Create_Thread row owner price strategy # ws) =
     (fresh_row row \<and> sound_writes (insert (tr_id row) K) (A - {tr_id row}) ws)"
| "sound_writes K A (Append_Message m # ws) = sound_writes K A ws"
| "sound_writes K A (Append_At n m # ws) = sound_writes K A ws"
| "sound_writes K A (Commit_Terms nid terms stamp # ws) = (nid \<in> K \<and> sound_writes K (insert nid A) ws)"
| "sound_writes K A (Commit_Plan nid plan b s stamp # ws) = sound_writes K A ws"
| "sound_writes K A (Set_Terminal nid state stamp # ws) =
     ((state = ''success'' \<longrightarrow> nid \<in> A) \<and> state \<noteq> [] \<and> sound_writes K A ws)"
| "sound_writes K A (Domain_Call c # ws) = sound_writes K A ws"
| "sound_writes K A (Abort e # ws) = True"

lemma sound_writes_mono: "sound_writes K A ws \<Longrightarrow> K \<subseteq> K' \<Longrightarrow> A \<subseteq> A' \<Longrightarrow> sound_writes K' A' ws"
proof (induction K A ws arbitrary: K' A' rule: sound_writes.induct)
  case (2 K A row owner price strategy ws)
  have "insert (tr_id row) K \<subseteq> insert (tr_id row) K'" "A - {tr_id row} \<subseteq> A' - {tr_id row}" using 2 by auto
  with "2.IH" "2.prems"(1) show ?case by simp
next
  case (5 K A nid terms stamp ws)
  then have "insert nid A \<subseteq> insert nid A'" by auto
  with 5 show ?case by auto
next
  case (7 K A nid state stamp ws)
  then show ?case by auto
qed auto

text \<open>A message whose round was chosen names an existing thread, its own author and a round that is
  not beyond the next.\<close>

definition append_fits :: "nego_store \<Rightarrow> nego_write list \<Rightarrow> bool" where
  "append_fits S ws = (case ws of
     Append_At n m # _ \<Rightarrow> (\<exists>t. find_thread S (nm_thread m) = Some t \<and> check_author t m = Return ()) \<and>
        0 \<le> n \<and> n \<le> int (length (thread_messages S (nm_thread m)))
   | _ \<Rightarrow> True)"

definition no_chosen_round :: "nego_write list \<Rightarrow> bool" where
  "no_chosen_round ws = list_all (\<lambda>w. case w of Append_At n m \<Rightarrow> False | _ \<Rightarrow> True) ws"

definition task_ok :: "nego_store \<Rightarrow> task \<Rightarrow> bool" where
  "task_ok S k = (case k of
     Reading q t \<Rightarrow> admissible q \<and> tv_id t \<in> known S
   | Writing ws \<Rightarrow> sound_writes (known S) (agreed_ids S) ws \<and> append_fits S ws \<and> no_chosen_round (tl ws))"

text \<open>How a write moves the store: threads stay, with their parties and their terms recorded once
  recorded, and transcripts do not shrink.\<close>

definition grows :: "nego_store \<Rightarrow> nego_store \<Rightarrow> bool" where
  "grows S S' = ((\<forall>nid t. find_thread S nid = Some t \<longrightarrow>
        (\<exists>t'. find_thread S' nid = Some t' \<and> tr_buyer t' = tr_buyer t \<and> tr_seller t' = tr_seller t \<and> (agreed t \<longrightarrow> agreed t'))) \<and>
     (\<forall>nid. length (thread_messages S nid) \<le> length (thread_messages S' nid)))"

lemma grows_refl [simp]: "grows S S"
  by (simp add: grows_def)

lemma growsE:
  assumes "grows S S'" "find_thread S nid = Some t"
  obtains t' where "find_thread S' nid = Some t'" "tr_buyer t' = tr_buyer t" "tr_seller t' = tr_seller t" "agreed t \<longrightarrow> agreed t'"
  using assms unfolding grows_def by blast

lemma known_iff: "nid \<in> known S \<longleftrightarrow> (\<exists>t. find_thread S nid = Some t)"
  by (metis find_thread_None known_def not_None_eq)

lemma grows_known: "grows S S' \<Longrightarrow> known S \<subseteq> known S'"
  by (auto simp: known_iff) (erule (1) growsE, blast)

lemma grows_agreed: "grows S S' \<Longrightarrow> agreed_ids S \<subseteq> agreed_ids S'"
  by (auto simp: agreed_ids_def) (erule (1) growsE, blast)

lemma check_author_parties: "tr_buyer t' = tr_buyer t \<Longrightarrow> tr_seller t' = tr_seller t \<Longrightarrow> check_author t' m = check_author t m"
  by (simp add: check_author_def)

lemma grows_sound:
  "grows S S' \<Longrightarrow> sound_writes (known S) (agreed_ids S) ws \<Longrightarrow> sound_writes (known S') (agreed_ids S') ws"
  by (rule sound_writes_mono [OF _ grows_known grows_agreed])

lemma grows_append_fits: "grows S S' \<Longrightarrow> append_fits S ws \<Longrightarrow> append_fits S' ws"
proof (cases ws)
  case (Cons w vs)
  assume g: "grows S S'" and f: "append_fits S ws"
  show ?thesis
  proof (cases "\<exists>n m. w = Append_At n m")
    case True
    then obtain n m where w: "w = Append_At n m" by blast
    with f Cons obtain t where t: "find_thread S (nm_thread m) = Some t" "check_author t m = Return ()"
      and n: "0 \<le> n" "n \<le> int (length (thread_messages S (nm_thread m)))" by (auto simp: append_fits_def)
    from g t(1) obtain t' where t': "find_thread S' (nm_thread m) = Some t'" "tr_buyer t' = tr_buyer t" "tr_seller t' = tr_seller t"
      by (rule growsE)
    from check_author_parties [OF t'(2,3)] t(2) have "check_author t' m = Return ()" by simp
    moreover have "length (thread_messages S (nm_thread m)) \<le> length (thread_messages S' (nm_thread m))"
      using g by (simp add: grows_def)
    then have "n \<le> int (length (thread_messages S' (nm_thread m)))" using n(2) by simp
    ultimately show ?thesis using t'(1) n(1) Cons w by (simp add: append_fits_def)
  next
    case False
    with Cons show ?thesis by (cases w) (auto simp: append_fits_def)
  qed
qed (simp add: append_fits_def)

lemma grows_task: "grows S S' \<Longrightarrow> task_ok S k \<Longrightarrow> task_ok S' k"
  using grows_known [of S S'] grows_agreed [of S S']
  by (cases k) (auto simp: task_ok_def grows_append_fits intro: sound_writes_mono)

section \<open>One write\<close>

lemma grows_trans: "grows A B \<Longrightarrow> grows B C \<Longrightarrow> grows A C"
proof -
  assume ab: "grows A B" and bc: "grows B C"
  have "\<exists>t''. find_thread C nid = Some t'' \<and> tr_buyer t'' = tr_buyer t \<and> tr_seller t'' = tr_seller t \<and> (agreed t \<longrightarrow> agreed t'')"
    if t: "find_thread A nid = Some t" for nid t
  proof -
    obtain u where u: "find_thread B nid = Some u" "tr_buyer u = tr_buyer t" "tr_seller u = tr_seller t" "agreed t \<longrightarrow> agreed u"
      by (rule growsE [OF ab t])
    from growsE [OF bc u(1)] u(2-) show ?thesis by metis
  qed
  moreover have "length (thread_messages A nid) \<le> length (thread_messages C nid)" for nid
    using ab bc by (auto simp: grows_def intro: order_trans)
  ultimately show ?thesis by (simp add: grows_def)
qed

text \<open>A change of one thread's row that keeps its identity, its parties and its terms.\<close>

lemma update_thread_keeps:
  assumes ok: "store_ok S"
    and f: "\<And>t. tr_id (f t) = tr_id t \<and> tr_buyer (f t) = tr_buyer t \<and> tr_seller (f t) = tr_seller t \<and> (agreed t \<longrightarrow> agreed (f t))"
    and s: "\<And>t. find_thread S nid = Some t \<Longrightarrow> tr_terminal (f t) = Some ''success'' \<Longrightarrow> agreed (f t)"
  shows "store_ok (update_thread nid f S)" "grows S (update_thread nid f S)"
proof -
  let ?S = "update_thread nid f S"
  have find: "find_thread ?S k = (if k = nid then map_option f (find_thread S k) else find_thread S k)" for k
    using f by (intro find_thread_update) blast
  show "grows S ?S" using f by (auto simp: grows_def find)
  have mem: "\<exists>u. find_thread S (tr_id u) = Some u \<and> t = (if tr_id u = nid then f u else u)" if "t \<in> set (threads ?S)" for t
    using that ok find_thread_distinct [of S] by (auto simp: update_thread_def store_ok_def)
  have "distinct (map tr_id (threads ?S))" using ok f by (simp add: map_id_update store_ok_def)
  moreover have "parties_ok t \<and> (tr_terminal t = Some ''success'' \<longrightarrow> agreed t)" if t: "t \<in> set (threads ?S)" for t
  proof -
    obtain u where u: "find_thread S (tr_id u) = Some u" "t = (if tr_id u = nid then f u else u)"
      using mem [OF t] by blast
    from find_thread_id [OF u(1)] have "u \<in> set (threads S)" by simp
    with ok have "parties_ok u" "tr_terminal u = Some ''success'' \<longrightarrow> agreed u" by (auto simp: store_ok_def)
    with u s f show ?thesis by (auto simp: parties_ok_def)
  qed
  moreover have "\<exists>t. find_thread ?S (mg_thread m) = Some t \<and> author_ok t m" if m: "m \<in> set (messages S)" for m
  proof -
    from ok m obtain t where t: "find_thread S (mg_thread m) = Some t" "author_ok t m" unfolding store_ok_def by blast
    then show ?thesis using f by (auto simp: find author_ok_def)
  qed
  ultimately show "store_ok ?S" using ok by (auto simp: store_ok_def)
qed

lemma upsert_message_keeps:
  assumes ok: "store_ok S" and t: "find_thread S (mg_thread r) = Some t" "author_ok t r"
    and n: "0 \<le> mg_round r" "mg_round r \<le> int (length (thread_messages S (mg_thread r)))"
  shows "store_ok (upsert_message r S)" "grows S (upsert_message r S)"
proof -
  have "contiguous (thread_messages (upsert_message r S) nid)" for nid
    using ok n by (intro contiguous_upsert) (auto simp: store_ok_def)
  moreover have "\<exists>t. find_thread S (mg_thread m) = Some t \<and> author_ok t m" if "m \<in> set (messages (upsert_message r S))" for m
    using set_upsert [OF that] ok t by (auto simp: store_ok_def)
  ultimately show "store_ok (upsert_message r S)" using ok by (simp add: store_ok_def)
  show "grows S (upsert_message r S)" by (auto simp: grows_def length_upsert)
qed

lemma upsert_local_frame [simp]:
  "threads (upsert_local l S) = threads S" "messages (upsert_local l S) = messages S"
  "find_thread (upsert_local l S) k = find_thread S k" "thread_messages (upsert_local l S) k = thread_messages S k"
  by (auto simp: upsert_local_def find_thread_def thread_messages_def)

lemma upsert_local_keeps: "store_ok (upsert_local l S) = store_ok S" "grows S (upsert_local l S) = grows S S"
  by (simp_all add: store_ok_def grows_def)

lemma find_snoc: "find P (xs @ [y]) = (case find P xs of Some x \<Rightarrow> Some x | None \<Rightarrow> if P y then Some y else None)"
  by (induction xs) auto

lemma find_thread_snoc: "find_thread (S\<lparr>threads := threads S @ [row]\<rparr>) k =
    (case find_thread S k of Some t \<Rightarrow> Some t | None \<Rightarrow> if tr_id row = k then Some row else None)"
  by (simp add: find_thread_def find_snoc)

lemma add_thread_keeps:
  assumes ok: "store_ok S" and row: "fresh_row row" and new: "find_thread S (tr_id row) = None"
  shows "store_ok (S\<lparr>threads := threads S @ [row]\<rparr>)" "grows S (S\<lparr>threads := threads S @ [row]\<rparr>)"
proof -
  let ?S = "S\<lparr>threads := threads S @ [row]\<rparr>"
  have find: "find_thread ?S k = Some t" if "find_thread S k = Some t" for k t
    using that by (simp add: find_thread_snoc)
  have msgs: "thread_messages ?S k = thread_messages S k" for k by (simp add: thread_messages_def)
  show "grows S ?S" by (auto simp: grows_def find msgs)
  have "tr_id row \<notin> tr_id ` set (threads S)" using new by (simp add: find_thread_None)
  with ok have "distinct (map tr_id (threads ?S))" by (auto simp: store_ok_def)
  moreover have "\<exists>t. find_thread ?S (mg_thread m) = Some t \<and> author_ok t m" if "m \<in> set (messages S)" for m
    using that ok find unfolding store_ok_def by blast
  ultimately show "store_ok ?S" using ok row by (auto simp: store_ok_def fresh_row_def msgs)
qed

lemma create_thread_keeps:
  assumes ok: "store_ok S" and row: "fresh_row row"
    and c: "create_negotiation_thread E row owner price strategy S = Return S'"
  shows "store_ok S'" "grows S S'" "tr_id row \<in> known S'"
    "agreed_ids S \<subseteq> agreed_ids S'"
proof -
  define T where "T = (if find_thread S (tr_id row) = None then S\<lparr>threads := threads S @ [row]\<rparr> else S)"
  have T: "store_ok T \<and> grows S T \<and> tr_id row \<in> known T"
  proof (cases "find_thread S (tr_id row)")
    case None
    with add_thread_keeps [OF ok row None] show ?thesis by (auto simp: T_def known_iff find_thread_snoc)
  next
    case (Some t)
    with ok show ?thesis by (auto simp: T_def known_iff)
  qed
  from c obtain l where S': "S' = upsert_local l T"
    by (auto simp: create_negotiation_thread_def res_bind_Inr_iff Let_def T_def split: if_splits)
  have g: "grows S S'" using T S' by (simp add: grows_def)
  with T S' show "store_ok S'" "grows S S'" "tr_id row \<in> known S'" by (auto simp: upsert_local_keeps known_iff)
  from grows_agreed [OF g] show "agreed_ids S \<subseteq> agreed_ids S'" .
qed

lemma message_of_fields:
  "message_of E n m = Return r \<Longrightarrow> mg_thread r = nm_thread m \<and> mg_round r = n \<and> mg_role r = nm_role m \<and>
     mg_sender r = principal_columns (nm_sender m) \<and> mg_action r = nm_action m"
  by (auto simp: message_of_def res_bind_Inr_iff)

lemma check_author_ok: "check_author t m = Return () \<Longrightarrow> mg_role r = nm_role m \<Longrightarrow> mg_sender r = principal_columns (nm_sender m) \<Longrightarrow>
    author_ok t r"
  by (auto simp: check_author_def author_ok_def split: if_splits)

lemma write_message_keeps:
  assumes ok: "store_ok S" and w: "write_message E n m S = Return S'"
    and t: "find_thread S (nm_thread m) = Some t" "check_author t m = Return ()"
    and n: "0 \<le> n" "n \<le> int (length (thread_messages S (nm_thread m)))"
  shows "store_ok S'" "grows S S'"
proof -
  let ?f = "\<lambda>t. t\<lparr>tr_updated := nm_stamp m\<rparr>" and ?nid = "nm_thread m"
  from w obtain r where r: "message_of E n m = Return r" and S': "S' = upsert_message r (update_thread ?nid ?f S)"
    by (auto simp: write_message_def res_bind_Inr_iff)
  note fields = message_of_fields [OF r]
  have sup: "tr_terminal (?f u) = Some ''success'' \<Longrightarrow> agreed (?f u)" if "find_thread S ?nid = Some u" for u
    using ok find_thread_id [OF that] by (auto simp: store_ok_def agreed_def)
  have k: "store_ok (update_thread ?nid ?f S)" "grows S (update_thread ?nid ?f S)"
    by (rule update_thread_keeps [OF ok]; use sup in \<open>auto simp: agreed_def\<close>)+
  have find: "find_thread (update_thread ?nid ?f S) ?nid = Some (?f t)"
    using t(1) by (subst find_thread_update) auto
  have author: "author_ok (?f t) r" using check_author_ok [OF t(2)] fields by (auto simp: author_ok_def)
  have "store_ok (upsert_message r (update_thread ?nid ?f S)) \<and> grows (update_thread ?nid ?f S) (upsert_message r (update_thread ?nid ?f S))"
    using upsert_message_keeps [OF k(1), of r "?f t"] find author fields n by simp
  with k(2) show "store_ok S'" "grows S S'" by (auto simp: S' intro: grows_trans)
qed

lemma unchanged_terms_keep:
  assumes ok: "store_ok S"
    and f: "\<And>t. tr_id (f t) = tr_id t \<and> tr_buyer (f t) = tr_buyer t \<and> tr_seller (f t) = tr_seller t \<and>
      tr_terminal (f t) = tr_terminal t \<and> (agreed t \<longrightarrow> agreed (f t))"
  shows "store_ok (update_thread nid f S)" "grows S (update_thread nid f S)"
proof -
  have "tr_terminal (f t) = Some ''success'' \<Longrightarrow> agreed (f t)" if "find_thread S nid = Some t" for t
    using ok f find_thread_id [OF that] by (auto simp: store_ok_def)
  then show "store_ok (update_thread nid f S)" "grows S (update_thread nid f S)"
    using update_thread_keeps [OF ok, of f nid] f by blast+
qed

lemma update_agreed_ids:
  assumes f: "\<And>t. tr_id (f t) = tr_id t" and a: "\<And>t. agreed (f t)" and k: "nid \<in> known S"
  shows "nid \<in> agreed_ids (update_thread nid f S)"
  using k a by (auto simp: agreed_ids_def known_iff find_thread_update [of f, OF f])

lemma domain_frame [simp]:
  "find_thread (S\<lparr>domain_tables := d\<rparr>) k = find_thread S k" "thread_messages (S\<lparr>domain_tables := d\<rparr>) k = thread_messages S k"
  by (simp_all add: find_thread_def thread_messages_def)

lemma domain_keeps: "store_ok (S\<lparr>domain_tables := d\<rparr>) = store_ok S" "grows S (S\<lparr>domain_tables := d\<rparr>)"
  by (simp_all add: store_ok_def grows_def)

text \<open>Every repository call keeps the store well formed; the appends need the round they were given to fit.\<close>

lemma apply_write_keeps:
  assumes ok: "store_ok S" and sound: "sound_writes (known S) (agreed_ids S) (w # ws)" and fits: "append_fits S (w # ws)"
    and w: "apply_write E w S = Return S'" and no_append: "\<not> is_append w"
  shows "store_ok S' \<and> grows S S' \<and> sound_writes (known S') (agreed_ids S') ws"
proof (cases w)
  case (Create_Thread row owner price strategy)
  with w sound have c: "create_negotiation_thread E row owner price strategy S = Return S'" and r: "fresh_row row"
    and s: "sound_writes (insert (tr_id row) (known S)) (agreed_ids S - {tr_id row}) ws" by simp_all
  note k = create_thread_keeps [OF ok r c]
  have "insert (tr_id row) (known S) \<subseteq> known S'" using k(3) grows_known [OF k(2)] by blast
  moreover have "agreed_ids S - {tr_id row} \<subseteq> agreed_ids S'" using k(4) by blast
  ultimately show ?thesis using k sound_writes_mono [OF s] by blast
next
  case (Append_Message m)
  with no_append show ?thesis by (simp add: is_append_def)
next
  case (Append_At n m)
  with w have c: "write_message E n m S = Return S'" by simp
  from fits Append_At obtain t where "find_thread S (nm_thread m) = Some t" "check_author t m = Return ()"
    "0 \<le> n" "n \<le> int (length (thread_messages S (nm_thread m)))" by (auto simp: append_fits_def)
  note k = write_message_keeps [OF ok c this]
  from sound Append_At have "sound_writes (known S) (agreed_ids S) ws" by simp
  with k show ?thesis by (simp add: grows_sound)
next
  case (Commit_Terms nid terms stamp)
  with w obtain price where S': "S' = update_thread nid (\<lambda>t. t\<lparr>tr_price := price, tr_agreed_duration := Some (at_duration terms),
       tr_start := coalesced (tr_start t) (at_start terms),
       tr_agreed_at := Some (case at_accepted terms of None \<Rightarrow> stamp | Some a \<Rightarrow> if a = [] then stamp else a),
       tr_agreement := coalesced (at_agreement terms) (tr_agreement t),
       tr_settlement := coalesced (stored_object (te_canonical E) (at_settlement terms)) (tr_settlement t),
       tr_updated := stamp\<rparr>) S" (is "S' = update_thread nid ?f S")
    by (auto simp: commit_agreed_terms_def res_bind_Inr_iff)
  have k: "store_ok S'" "grows S S'" unfolding S' by (rule unchanged_terms_keep [OF ok]; simp add: agreed_def)+
  from sound Commit_Terms have nid: "nid \<in> known S" and s: "sound_writes (known S) (insert nid (agreed_ids S)) ws" by simp_all
  have "nid \<in> agreed_ids S'" unfolding S' using nid by (intro update_agreed_ids) (simp_all add: agreed_def)
  then have "insert nid (agreed_ids S) \<subseteq> agreed_ids S'" using grows_agreed [OF k(2)] by blast
  with k sound_writes_mono [OF s grows_known [OF k(2)]] show ?thesis by blast
next
  case (Commit_Plan nid plan buyer seller stamp)
  with w obtain enc where S': "S' = update_thread nid (\<lambda>t. t\<lparr>tr_plan := enc, tr_updated := stamp\<rparr>) S"
    by (auto simp: commit_settlement_plan_def res_bind_Inr_iff Let_def split: if_splits option.splits)
  have k: "store_ok S'" "grows S S'" unfolding S' by (rule unchanged_terms_keep [OF ok]; simp add: agreed_def)+
  from sound Commit_Plan have "sound_writes (known S) (agreed_ids S) ws" by simp
  with k show ?thesis by (simp add: grows_sound)
next
  case (Set_Terminal nid state stamp)
  let ?f = "\<lambda>t. t\<lparr>tr_terminal := Some state, tr_status := ''terminated'', tr_updated := stamp\<rparr>"
  from w Set_Terminal have S': "S' = update_thread nid ?f S" by (simp add: update_negotiation_thread_terminal_def)
  from sound Set_Terminal have a: "state = ''success'' \<longrightarrow> nid \<in> agreed_ids S" and s: "sound_writes (known S) (agreed_ids S) ws" by simp_all
  have "tr_terminal (?f t) = Some ''success'' \<Longrightarrow> agreed (?f t)" if "find_thread S nid = Some t" for t
    using that a by (auto simp: agreed_ids_def agreed_def)
  then have k: "store_ok S'" "grows S S'" unfolding S' using update_thread_keeps [OF ok, of ?f nid] by (auto simp: agreed_def)
  with s show ?thesis by (simp add: grows_sound)
next
  case (Domain_Call call)
  with w obtain d where S': "S' = S\<lparr>domain_tables := d\<rparr>" by (auto simp: res_bind_Inr_iff)
  with ok have k: "store_ok S'" "grows S S'" by (simp_all add: domain_keeps)
  from sound Domain_Call have "sound_writes (known S) (agreed_ids S) ws" by simp
  with k show ?thesis by (simp add: grows_sound)
next
  case (Abort e)
  with w show ?thesis by simp
qed

section \<open>The writes of the requests\<close>

text \<open>A domain whose hooks write only to the accepted plan of the negotiation they are called for and
  to the domain's own tables.\<close>

definition side_write :: "string \<Rightarrow> nego_write \<Rightarrow> bool" where
  "side_write nid w = (case w of Commit_Plan n plan b s stamp \<Rightarrow> n = nid | Domain_Call c \<Rightarrow> True | Abort e \<Rightarrow> True | _ \<Rightarrow> False)"

definition confined_hooks :: "domain_hooks \<Rightarrow> bool" where
  "confined_hooks H = ((\<forall>f x. hk_persist_opening H = Some f \<longrightarrow> list_all (side_write (ac_id (op_acceptance x))) (f x)) \<and>
     (\<forall>f a. hk_place_hold H = Some f \<longrightarrow> list_all (side_write (ac_id a)) (f a)) \<and>
     (\<forall>f a d. hk_persist_artifacts H = Some f \<longrightarrow> list_all (side_write (ac_id a)) (f a d)))"

definition confined :: "nego_runtime \<Rightarrow> bool" where
  "confined R = ((\<forall>S l r H. nrt_resolve_opening R S l = Return (r, H) \<longrightarrow> confined_hooks H) \<and>
     (\<forall>S t r H. nrt_resolve_continuation R S t = Return (r, H) \<longrightarrow> confined_hooks H))"

lemma sound_side_writes: "list_all (side_write nid) hs \<Longrightarrow> sound_writes K A (hs @ ws) \<longleftrightarrow> (\<exists>e. Abort e \<in> set hs) \<or> sound_writes K A ws"
proof (induction hs)
  case (Cons h hs)
  then show ?case by (cases h) (auto simp: side_write_def)
qed simp

lemma no_chosen_round_simps [simp]:
  "no_chosen_round []" "no_chosen_round (ws @ vs) \<longleftrightarrow> no_chosen_round ws \<and> no_chosen_round vs"
  "no_chosen_round (w # ws) \<longleftrightarrow> (\<forall>n m. w \<noteq> Append_At n m) \<and> no_chosen_round ws"
  by (simp_all add: no_chosen_round_def split: nego_write.split)

lemma side_no_chosen: "list_all (side_write nid) hs \<Longrightarrow> no_chosen_round hs"
  by (induction hs) (auto simp: side_write_def)

lemma hook_writes_side:
  assumes "confined_hooks H"
  shows "list_all (side_write (ac_id a)) (hook_writes (hk_place_hold H) a)"
    "list_all (side_write (ac_id (op_acceptance x))) (hook_writes (hk_persist_opening H) x)"
    "list_all (side_write (ac_id a)) (case hk_persist_artifacts H of None \<Rightarrow> [] | Some f \<Rightarrow> f a arts)"
  using assms by (auto simp: confined_hooks_def hook_writes_def split: option.splits)

text \<open>A plan may be carried out: it marks success only after the terms, and gives no round of its own.\<close>

definition fit_plan :: "nego_store \<Rightarrow> nego_write list \<Rightarrow> bool" where
  "fit_plan S ws = (sound_writes (known S) (agreed_ids S) ws \<and> no_chosen_round ws)"

lemma fit_plan_task: "fit_plan S ws \<Longrightarrow> task_ok S (Writing ws)"
  by (cases ws) (auto simp: fit_plan_def task_ok_def append_fits_def split: nego_write.splits)

text \<open>The terms of an acceptance and then its end.\<close>

lemma commit_then_success:
  assumes H: "confined_hooks H" and K: "ac_id a \<in> K"
  shows "sound_writes K A (commit_acceptance E H a arts now @ record_terminal_state E (ac_id a) (Some ''success'') later) \<and>
    no_chosen_round (commit_acceptance E H a arts now)"
proof (cases "decoded_agreement E arts")
  case (Inr bytes)
  note h = hook_writes_side(1,3) [OF H, of a]
  from K Inr show ?thesis
    by (simp add: commit_acceptance_def sound_side_writes [OF h(1)] sound_side_writes [OF h(2)] record_terminal_state_def
        side_no_chosen [OF h(1)] side_no_chosen [OF h(2)])
qed (simp add: commit_acceptance_def)

lemma appended [simp]:
  "sound_writes K A (append_message E nid p role o' t pr ac ty now # ws) = sound_writes K A ws"
  "append_message E nid p role o' t pr ac ty now \<noteq> Append_At n m"
  "Append_At n m \<noteq> append_message E nid p role o' t pr ac ty now"
  by (simp_all add: append_message_def)

lemma record_terminal_no_chosen [simp]: "no_chosen_round (record_terminal_state E nid s now)"
  by (simp add: record_terminal_state_def split: option.splits)

lemma seller_terminal:
  "snd (record_seller_decision E nid seller ours theirs d amount now) =
     (if nd_action d = ''counter'' then None else if nd_action d = ''accept'' then Some ''success'' else Some ''failure'')"
  by (simp add: record_seller_decision_def recorded_action_def)

lemma seller_message:
  "\<exists>n ac ty. fst (record_seller_decision E nid seller ours theirs d amount now) =
    append_message E nid seller ''seller'' (PInt ours) (PInt theirs) n ac ty now"
  by (cases "recorded_action (nd_action d)") (auto simp: record_seller_decision_def)

lemma seller_message_simps [simp]:
  "sound_writes K A (fst (record_seller_decision E nid seller ours theirs d amount now) # ws) = sound_writes K A ws"
  "fst (record_seller_decision E nid seller ours theirs d amount now) \<noteq> Append_At n m"
  using seller_message [of E nid seller ours theirs d amount now] by auto

lemma accepted_artifacts_id: "accepted_artifacts E H a now = Return (a', arts) \<Longrightarrow> ac_id a' = ac_id a \<and> ac_buyer a' = ac_buyer a \<and>
    ac_seller a' = ac_seller a \<and> ac_amount a' = ac_amount a \<and> ac_listing_id a' = ac_listing_id a"
  by (auto simp: accepted_artifacts_def fix_acceptance_time_def res_bind_Inr_iff)

text \<open>The end of a decision: the terms when it accepts, then the terminal state it implies.\<close>

lemma decision_end:
  assumes H: "confined_hooks H" and K: "ac_id a \<in> K"
  shows "sound_writes K A ((if nd_action d = ''accept'' then commit_acceptance E H a arts now else [])
      @ record_terminal_state E (ac_id a) (snd (record_seller_decision E nid seller ours theirs d amount t)) later) \<and>
    no_chosen_round (if nd_action d = ''accept'' then commit_acceptance E H a arts now else [])"
  using commit_then_success [OF H K] by (simp add: seller_terminal record_terminal_state_def)

lemma plan_opening_fields:
  assumes "plan_opening R now nid q S = Return p" "confined R"
  shows "ac_id (pl_acceptance p) = nid" "ac_buyer (pl_acceptance p) = so_buyer q" "ac_seller (pl_acceptance p) = so_seller q"
    "confined_hooks (pl_hooks p)" "pl_accepted p \<longleftrightarrow> nd_action (ev_decision (pl_evaluation p)) = ''accept''"
  using assms by (auto simp: plan_opening_def opening_acceptance_def res_bind_Inr_iff Let_def confined_def dest!: accepted_artifacts_id split: if_splits)

lemma opened_row: "principal_ok buyer \<Longrightarrow> principal_ok seller \<Longrightarrow>
    fresh_row (opened_thread nid o' t oa ta st stamp d s p te buyer seller b) \<and> tr_id (opened_thread nid o' t oa ta st stamp d s p te buyer seller b) = nid"
  by (auto simp: fresh_row_def opened_thread_def parties_ok_def)

lemma start_fits:
  assumes R: "confined R" and parties: "principal_ok (so_buyer q)" "principal_ok (so_seller q)"
    and p: "start_plan R clk nid actor su bu q S = Return (ws, resp)"
  shows "fit_plan S ws"
proof -
  from p obtain p where plan: "plan_opening R (clk 0) nid q S = Return p" and ws: "ws = opening_writes (nrt_env R) clk su bu p"
    by (auto simp: start_plan_def res_bind_Inr_iff split: if_splits)
  note f = plan_opening_fields [OF plan R]
  let ?a = "pl_acceptance p" and ?K = "insert nid (known S)" and ?A = "agreed_ids S - {nid}"
  note hook = hook_writes_side(2) [OF f(4), of "\<lparr>op_acceptance = ?a, op_evaluation = pl_evaluation p\<rparr>"]
  note fin = decision_end [OF f(4), of ?a ?K ?A "ev_decision (pl_evaluation p)"]
  show ?thesis unfolding fit_plan_def ws opening_writes_def Let_def
    using opened_row [OF parties] f(1-3) f(5) fin
    by (simp add: sound_side_writes [OF hook] side_no_chosen [OF hook])
qed

lemma resume_fields:
  assumes "resume_thread R S t = Return x" "confined R"
  shows "confined_hooks (rt_hooks x)"
  using assms by (auto simp: resume_thread_def res_bind_Inr_iff confined_def split: if_splits)

lemma accepting_fits:
  assumes H: "confined_hooks H" and K: "ac_id a \<in> known S"
  shows "fit_plan S (accepting_writes E clk H a arts actor role ours)"
  using commit_then_success [OF H K, of "agreed_ids S" E arts "clk 2" "clk 3"] by (simp add: fit_plan_def accepting_writes_def)

lemma force_accept_fits:
  assumes R: "confined R" and K: "tv_id t \<in> known S"
    and p: "force_accept_plan R clk listing amount actor t S = Return (ws, resp)"
  shows "fit_plan S ws"
  using p R K
  by (auto simp: force_accept_plan_def res_bind_Inr_iff resumed_acceptance_def split: if_splits
      intro!: accepting_fits dest!: accepted_artifacts_id resume_fields)

lemma resumed_id [simp]: "ac_id (resumed_acceptance t x n sc b s st) = tv_id t"
  by (simp add: resumed_acceptance_def)

lemma counter_fits:
  assumes H: "confined_hooks H" and K: "ac_id a \<in> known S"
  shows "fit_plan S (counter_writes E clk H q ev a arts theirs amount)"
  using decision_end [OF H K, of "agreed_ids S" "ev_decision ev"]
  by (simp add: fit_plan_def counter_writes_def Let_def)

lemma continue_fits:
  assumes R: "confined R" and K: "tv_id t \<in> known S" and p: "continue_plan R clk q t S = Return (ws, resp)"
  shows "fit_plan S ws"
proof -
  from p obtain buyer seller x h where x: "resume_thread R S t = Return x" and
    c: "(co_action q = ''accept'' \<and> continue_accept R clk q t x buyer seller S = Return (ws, resp)) \<or>
      (ws, resp) = continue_exit R clk q t x buyer seller \<or> continue_counter R clk q t x buyer seller h S = Return (ws, resp)"
    by (auto simp: continue_plan_def res_bind_Inr_iff split: if_splits) metis+
  note H = resume_fields [OF x R]
  from c show ?thesis
  proof (elim disjE conjE)
    assume "continue_accept R clk q t x buyer seller S = Return (ws, resp)"
    then show ?thesis
      using K H by (auto simp: continue_accept_def res_bind_Inr_iff intro!: accepting_fits dest!: accepted_artifacts_id)
  next
    assume "(ws, resp) = continue_exit R clk q t x buyer seller"
    then show ?thesis by (simp add: continue_exit_def fit_plan_def record_terminal_state_def)
  next
    assume "continue_counter R clk q t x buyer seller h S = Return (ws, resp)"
    then show ?thesis
      using K H by (auto simp: continue_counter_def res_bind_Inr_iff Let_def intro!: counter_fits dest!: accepted_artifacts_id split: if_splits)
  qed
qed

lemma sweep_fits: "wp_terminal W \<noteq> ''success'' \<Longrightarrow> wp_terminal W \<noteq> [] \<Longrightarrow> fit_plan S (sweep_writes E W clk S')"
proof -
  assume w: "wp_terminal W \<noteq> ''success''" "wp_terminal W \<noteq> []"
  have "sound_writes K A (map (\<lambda>t. Set_Terminal (tr_id t) (wp_terminal W) z) ts) \<and>
      no_chosen_round (map (\<lambda>t. Set_Terminal (tr_id t) (wp_terminal W) z) ts)" for K A z ts
    using w by (induction ts) auto
  then show ?thesis by (simp add: fit_plan_def sweep_writes_def)
qed

lemma request_fits:
  assumes R: "confined R" and q: "admissible q" and ws: "request_writes R q t S = Return ws"
    and t: "\<And>v. t = Some v \<Longrightarrow> tv_id v \<in> known S"
  shows "fit_plan S ws"
proof (cases q)
  case (Start_Negotiation clk nid actor su bu r)
  with q ws R show ?thesis by (auto simp: admissible_def res_bind_Inr_iff intro: start_fits)
next
  case (Continue_Negotiation clk nid r)
  with ws R t show ?thesis
    by (cases t) (auto simp: res_bind_Inr_iff fit_plan_def [of S "[]"] intro: continue_fits)
next
  case (Force_Accept clk listing nid amount actor)
  with ws R t show ?thesis
    by (cases t) (auto simp: res_bind_Inr_iff fit_plan_def [of S "[]"] intro: force_accept_fits)
next
  case (Sweep W clk)
  with ws q show ?thesis by (auto simp: admissible_def intro: sweep_fits)
qed

section \<open>Every interleaving\<close>

definition runs_ok :: "nego_store \<times> task list \<Rightarrow> bool" where
  "runs_ok x = (store_ok (fst x) \<and> (\<forall>k \<in> set (snd x). task_ok (fst x) k))"

lemma view_thread_id: "view_thread E t = Return v \<Longrightarrow> tv_id v = tr_id t \<and> tv_terminal v = tr_terminal t \<and> tv_agreed_at v = tr_agreed_at t"
  by (auto simp: view_thread_def res_bind_Inr_iff)

lemma load_open_threadE:
  assumes "load_open_thread E S nid = Return v"
  obtains t where "find_thread S nid = Some t" "view_thread E t = Return v" "\<not> truthy_text (tr_terminal t)"
proof -
  from assms obtain row where row: "load_negotiation_thread_row E S nid = Return row" and v: "row = Some v" "\<not> truthy_text (tv_terminal v)"
    by (cases "load_negotiation_thread_row E S nid"; cases "projr (load_negotiation_thread_row E S nid)")
      (simp_all add: load_open_thread_def split: if_split_asm)
  from row v(1) obtain t where t: "find_thread S nid = Some t" "view_thread E t = Return v"
    by (auto simp: load_negotiation_thread_row_def res_bind_Inr_iff split: option.splits)
  from view_thread_id [OF t(2)] v(2) have "\<not> truthy_text (tr_terminal t)" by simp
  with t show thesis by (rule that)
qed

lemma load_open_thread_known: "load_open_thread E S nid = Return v \<Longrightarrow> tv_id v = nid \<and> nid \<in> known S"
  by (erule load_open_threadE) (auto simp: known_iff dest: find_thread_id view_thread_id)

lemma runs_ok_update: "runs_ok (S, P) \<Longrightarrow> task_ok S k \<Longrightarrow> runs_ok (S, P[i := k])"
  by (auto simp: runs_ok_def dest: set_update_subset_insert [THEN subsetD])

lemma runs_ok_nth: "runs_ok (S, P) \<Longrightarrow> i < length P \<Longrightarrow> task_ok S (P ! i)"
  by (simp add: runs_ok_def)

lemma message_round_fits:
  assumes "store_ok S" "message_round m S = Return n"
  shows "append_fits S (Append_At n m # ws)"
  using assms next_round_contiguous [of S "nm_thread m"]
  by (auto simp: message_round_def append_fits_def res_bind_Inr_iff store_ok_def split: option.splits)

lemma step_keeps_runs_ok:
  assumes R: "confined R" and step: "nego_step R (S, P) (S', P')" and ok: "runs_ok (S, P)"
  shows "runs_ok (S', P') \<and> grows S S'"
  using step
proof cases
  case (direct q ws)
  with request_fits [OF R direct(4,5)] ok show ?thesis by (auto simp: runs_ok_def fit_plan_task)
next
  case (read_thread q nid t)
  with load_open_thread_known [OF read_thread(5)] ok show ?thesis by (auto simp: runs_ok_def task_ok_def)
next
  case (decided i q t ws)
  with runs_ok_nth [OF ok decided(3)] have "admissible q" "tv_id t \<in> known S" by (simp_all add: task_ok_def)
  with request_fits [OF R _ decided(5)] have "fit_plan S ws" by simp
  with decided ok show ?thesis by (simp add: runs_ok_update fit_plan_task)
next
  case (choose_round i m ws n)
  with runs_ok_nth [OF ok choose_round(3)] have "sound_writes (known S) (agreed_ids S) ws" "no_chosen_round ws"
    by (simp_all add: task_ok_def)
  moreover have "append_fits S (Append_At n m # ws)"
    using ok choose_round(5) by (intro message_round_fits) (simp_all add: runs_ok_def)
  ultimately have "task_ok S (Writing (Append_At n m # ws))" by (simp add: task_ok_def)
  with choose_round ok show ?thesis by (simp add: runs_ok_update)
next
  case (performed i w ws)
  from runs_ok_nth [OF ok performed(2)] performed(3) have k: "sound_writes (known S) (agreed_ids S) (w # ws)"
    "append_fits S (w # ws)" "no_chosen_round ws" by (simp_all add: task_ok_def)
  from ok have s: "store_ok S" by (simp add: runs_ok_def)
  note a = apply_write_keeps [OF s k(1,2) performed(5,4)]
  from k(3) a have "fit_plan S' ws" by (simp add: fit_plan_def)
  moreover have "runs_ok (S', P)" using ok a by (auto simp: runs_ok_def intro: grows_task)
  ultimately show ?thesis using performed(1) a by (simp add: runs_ok_update fit_plan_task)
next
  case (abandoned i)
  with ok show ?thesis by (simp add: runs_ok_update fit_plan_task fit_plan_def)
qed

lemma empty_store_ok: "runs_ok (empty_store tables, [])"
  by (simp add: runs_ok_def empty_store_def store_ok_def thread_messages_def contiguous_def)

lemma reachable_ok:
  assumes "confined R" "reachable R (S, P)"
  shows "runs_ok (S, P)"
proof -
  from assms(2) obtain tables where "(nego_step R)\<^sup>*\<^sup>* (empty_store tables, []) (S, P)" by (auto simp: reachable_def)
  then have "runs_ok x \<Longrightarrow> runs_ok (S, P)" if "x = (empty_store tables, [])" for x
    using that
  proof (induction "(S, P)" arbitrary: S P rule: rtranclp_induct)
    case (step y)
    then show ?case using step_keeps_runs_ok [OF assms(1)] by (cases y) auto
  qed simp
  then show ?thesis using empty_store_ok by blast
qed

end
