(* ===== verification/Negotiation_Serial.thy ===== *)
theory Negotiation_Serial
  imports Negotiation_Runs
begin

text \<open>
  Requests of the negotiation runtime that run one after the other, each possibly cut short after
  some of its writes: transcripts only grow, recorded terms and closed threads are final, and a
  policy that stops countering makes every negotiation end.
\<close>

section \<open>What a write is about\<close>

definition about :: "string \<Rightarrow> nego_write \<Rightarrow> bool" where
  "about nid w = (case w of
     Create_Thread row owner price strategy \<Rightarrow> tr_id row = nid
   | Append_Message m \<Rightarrow> nm_thread m = nid
   | Append_At n m \<Rightarrow> nm_thread m = nid
   | Commit_Terms n terms stamp \<Rightarrow> n = nid
   | Commit_Plan n plan b s stamp \<Rightarrow> n = nid
   | Set_Terminal n state stamp \<Rightarrow> n = nid
   | Domain_Call c \<Rightarrow> True
   | Abort e \<Rightarrow> True)"

lemma update_elsewhere: "(\<And>t. tr_id (f t) = tr_id t) \<Longrightarrow> k \<noteq> nid \<Longrightarrow> find_thread (update_thread nid f S) k = find_thread S k"
  by (simp add: find_thread_update)

lemma create_elsewhere:
  assumes "create_negotiation_thread E row owner price strategy S = Return S'" "k \<noteq> tr_id row"
  shows "find_thread S' k = find_thread S k \<and> thread_messages S' k = thread_messages S k"
  using assms by (auto simp: create_negotiation_thread_def res_bind_Inr_iff Let_def find_thread_snoc thread_messages_def
      split: if_splits option.splits)

lemma write_message_elsewhere:
  assumes "write_message E n m S = Return S'" "k \<noteq> nm_thread m"
  shows "find_thread S' k = find_thread S k \<and> thread_messages S' k = thread_messages S k"
  using assms by (auto simp: write_message_def res_bind_Inr_iff update_elsewhere thread_messages_upsert dest: message_of_fields)

lemma apply_write_elsewhere:
  assumes "apply_write E w S = Return S'" "about nid w" "k \<noteq> nid"
  shows "find_thread S' k = find_thread S k \<and> thread_messages S' k = thread_messages S k"
proof (cases w)
  case (Create_Thread row owner price strategy)
  with assms show ?thesis by (intro create_elsewhere) (auto simp: about_def)
next
  case (Append_Message m)
  with assms show ?thesis
    by (auto simp: about_def save_negotiation_message_def res_bind_Inr_iff Let_def dest: write_message_elsewhere)
next
  case (Append_At n m)
  with assms show ?thesis by (auto simp: about_def dest: write_message_elsewhere)
next
  case (Commit_Terms n terms stamp)
  with assms show ?thesis by (auto simp: about_def commit_agreed_terms_def res_bind_Inr_iff update_elsewhere)
next
  case (Commit_Plan n plan b s stamp)
  with assms show ?thesis
    by (auto simp: about_def commit_settlement_plan_def res_bind_Inr_iff Let_def update_elsewhere split: if_splits option.splits)
next
  case (Set_Terminal n state stamp)
  with assms show ?thesis by (auto simp: about_def update_negotiation_thread_terminal_def update_elsewhere)
qed (use assms in \<open>auto simp: res_bind_Inr_iff\<close>)

lemma run_writes_elsewhere:
  assumes "list_all (about nid) ws" "k \<noteq> nid"
  shows "find_thread (fst (run_writes E ws S)) k = find_thread S k \<and> thread_messages (fst (run_writes E ws S)) k = thread_messages S k"
  using assms(1)
proof (induction ws arbitrary: S)
  case (Cons w ws)
  then show ?case using apply_write_elsewhere [of E w S _ nid k] assms(2) by (auto split: sum.splits)
qed simp

lemma side_about: "list_all (side_write nid) ws \<Longrightarrow> list_all (about nid) ws"
  by (auto simp: list_all_iff side_write_def about_def split: nego_write.splits)

section \<open>The terms a thread records\<close>

definition same_terms :: "thread_row \<Rightarrow> thread_row \<Rightarrow> bool" where
  "same_terms t u = (tr_price u = tr_price t \<and> tr_agreed_duration u = tr_agreed_duration t \<and> tr_start u = tr_start t \<and>
     tr_agreed_at u = tr_agreed_at t \<and> tr_agreement u = tr_agreement t \<and> tr_settlement u = tr_settlement t)"

definition writes_terms :: "string \<Rightarrow> nego_write \<Rightarrow> bool" where
  "writes_terms nid w = (case w of Commit_Terms n terms stamp \<Rightarrow> n = nid | _ \<Rightarrow> False)"

lemma apply_write_same_terms:
  assumes w: "apply_write E w S = Return S'" "\<not> writes_terms nid w" and t: "find_thread S nid = Some t"
  shows "\<exists>u. find_thread S' nid = Some u \<and> same_terms t u"
proof (cases w)
  case (Create_Thread row owner price strategy)
  with w t show ?thesis
    by (auto simp: create_negotiation_thread_def res_bind_Inr_iff Let_def find_thread_snoc same_terms_def split: if_splits)
next
  case (Append_Message m)
  with w obtain n where "write_message E n m S = Return S'"
    by (auto simp: save_negotiation_message_def res_bind_Inr_iff Let_def)
  with t show ?thesis by (auto simp: write_message_def res_bind_Inr_iff find_thread_update same_terms_def)
next
  case (Append_At n m)
  with w t show ?thesis by (auto simp: write_message_def res_bind_Inr_iff find_thread_update same_terms_def)
next
  case (Commit_Terms n terms stamp)
  with w t show ?thesis
    by (auto simp: writes_terms_def commit_agreed_terms_def res_bind_Inr_iff update_elsewhere same_terms_def)
next
  case (Commit_Plan n plan b s stamp)
  with w t show ?thesis
    by (auto simp: commit_settlement_plan_def res_bind_Inr_iff Let_def same_terms_def find_thread_update split: if_splits option.splits)
next
  case (Set_Terminal n state stamp)
  with w t show ?thesis by (auto simp: update_negotiation_thread_terminal_def same_terms_def find_thread_update)
qed (use w t in \<open>auto simp: res_bind_Inr_iff same_terms_def\<close>)

lemma same_terms_trans: "same_terms a b \<Longrightarrow> same_terms b c \<Longrightarrow> same_terms a c"
  by (simp add: same_terms_def)

lemma run_writes_same_terms:
  assumes "\<And>w. w \<in> set ws \<Longrightarrow> \<not> writes_terms nid w" "find_thread S nid = Some t"
  shows "\<exists>u. find_thread (fst (run_writes E ws S)) nid = Some u \<and> same_terms t u"
  using assms
proof (induction ws arbitrary: S t)
  case Nil
  then show ?case by (simp add: same_terms_def)
next
  case (Cons w ws)
  show ?case
  proof (cases "apply_write E w S")
    case (Inr S')
    with Cons.prems obtain u where u: "find_thread S' nid = Some u" "same_terms t u"
      using apply_write_same_terms [OF Inr, of nid t] by auto
    have "\<exists>v. find_thread (fst (run_writes E ws S')) nid = Some v \<and> same_terms u v"
      by (rule Cons.IH) (use Cons.prems u in auto)
    with u Inr show ?thesis by (auto intro: same_terms_trans)
  qed (use Cons.prems in \<open>simp add: same_terms_def\<close>)
qed

section \<open>Transcripts grow at the end\<close>

lemma save_message_appends:
  assumes ok: "store_ok S" and s: "save_negotiation_message E None m S = Return (S', n)"
  shows "\<exists>r. message_of E n m = Return r \<and> thread_messages S' (nm_thread m) = thread_messages S (nm_thread m) @ [r] \<and>
    store_ok S' \<and> grows S S'"
proof -
  from s have n: "message_round m S = Return n" and w: "write_message E n m S = Return S'"
    by (auto simp: save_negotiation_message_def res_bind_Inr_iff Let_def)
  from message_round_fits [OF ok n, of "[]"] obtain t where t: "find_thread S (nm_thread m) = Some t" "check_author t m = Return ()"
    and b: "0 \<le> n" "n \<le> int (length (thread_messages S (nm_thread m)))" by (auto simp: append_fits_def)
  from ok have c: "contiguous (thread_messages S (nm_thread m))" by (simp add: store_ok_def)
  from n t have "n = next_round S (nm_thread m)" by (auto simp: message_round_def res_bind_Inr_iff)
  with next_round_contiguous [OF c] have len: "n = int (length (thread_messages S (nm_thread m)))" by simp
  from w obtain r where r: "message_of E n m = Return r"
    and S': "S' = upsert_message r (update_thread (nm_thread m) (\<lambda>t. t\<lparr>tr_updated := nm_stamp m\<rparr>) S)"
    by (auto simp: write_message_def res_bind_Inr_iff)
  note fields = message_of_fields [OF r]
  have "\<not> (\<exists>x \<in> set (thread_messages S (nm_thread m)). mg_round x = n)" using contiguous_mem [OF c, of n] len by simp
  then have "thread_messages S' (nm_thread m) = thread_messages S (nm_thread m) @ [r]"
    using fields by (auto simp: S' thread_messages_upsert)
  with r write_message_keeps [OF ok w t b] show ?thesis by blast
qed

definition extends :: "nego_store \<Rightarrow> nego_store \<Rightarrow> bool" where
  "extends S S' = (\<forall>nid. \<exists>ms. thread_messages S' nid = thread_messages S nid @ ms)"

lemma extends_refl [simp]: "extends S S"
  by (simp add: extends_def)

lemma extends_trans: "extends A B \<Longrightarrow> extends B C \<Longrightarrow> extends A C"
  unfolding extends_def by (metis append.assoc)

lemma extends_same: "(\<And>nid. thread_messages S' nid = thread_messages S nid) \<Longrightarrow> extends S S'"
  by (simp add: extends_def)

definition whole_call :: "nego_write \<Rightarrow> bool" where
  "whole_call w = (case w of Append_At n m \<Rightarrow> False | _ \<Rightarrow> True)"

lemma no_chosen_round_whole: "no_chosen_round ws \<longleftrightarrow> list_all whole_call ws"
  by (simp add: no_chosen_round_def whole_call_def [abs_def])

lemma whole_call_fits: "whole_call w \<Longrightarrow> append_fits S (w # ws)"
  by (auto simp: whole_call_def append_fits_def split: nego_write.splits)

lemma apply_write_messages:
  assumes "apply_write E w S = Return S'" "\<not> is_append w" "whole_call w"
  shows "thread_messages S' nid = thread_messages S nid"
proof (cases w)
  case (Create_Thread row owner price strategy)
  with assms show ?thesis
    by (auto simp: create_negotiation_thread_def res_bind_Inr_iff Let_def thread_messages_def split: if_splits)
next
  case (Commit_Plan n plan b s stamp)
  with assms show ?thesis
    by (auto simp: commit_settlement_plan_def res_bind_Inr_iff Let_def split: if_splits option.splits)
qed (use assms in \<open>auto simp: is_append_def whole_call_def commit_agreed_terms_def res_bind_Inr_iff update_negotiation_thread_terminal_def\<close>)

text \<open>One whole repository call.\<close>

lemma apply_whole_keeps:
  assumes ok: "store_ok S" and sound: "sound_writes (known S) (agreed_ids S) (w # ws)" and call: "whole_call w"
    and w: "apply_write E w S = Return S'"
  shows "store_ok S' \<and> grows S S' \<and> sound_writes (known S') (agreed_ids S') ws \<and> extends S S'"
proof (cases "is_append w")
  case True
  then obtain m where m: "w = Append_Message m" by (cases w) (auto simp: is_append_def)
  with w obtain n where n: "save_negotiation_message E None m S = Return (S', n)" by (auto simp: res_bind_Inr_iff)
  from save_message_appends [OF ok n] obtain r where r: "thread_messages S' (nm_thread m) = thread_messages S (nm_thread m) @ [r]"
    "store_ok S'" "grows S S'" by blast
  have "\<exists>ms. thread_messages S' nid = thread_messages S nid @ ms" for nid
    using r(1) apply_write_elsewhere [OF w, of "nm_thread m" nid] m by (cases "nid = nm_thread m") (auto simp: about_def)
  then have "extends S S'" by (simp add: extends_def)
  with r(2,3) sound m show ?thesis by (simp add: grows_sound)
next
  case False
  with apply_write_keeps [OF ok sound whole_call_fits [OF call] w] apply_write_messages [OF w False call] show ?thesis
    by (simp add: extends_same)
qed

text \<open>A plan that is carried out, whole or cut short.\<close>

lemma run_writes_keeps:
  assumes "store_ok S" "fit_plan S ws"
  shows "store_ok (fst (run_writes E ws S)) \<and> grows S (fst (run_writes E ws S)) \<and> extends S (fst (run_writes E ws S))"
  using assms
proof (induction ws arbitrary: S)
  case (Cons w ws)
  show ?case
  proof (cases "apply_write E w S")
    case (Inr S')
    from Cons.prems(2) have s: "sound_writes (known S) (agreed_ids S) (w # ws)" and c: "whole_call w" and n: "no_chosen_round ws"
      by (simp_all add: fit_plan_def no_chosen_round_whole)
    note k = apply_whole_keeps [OF Cons.prems(1) s c Inr]
    with n have "fit_plan S' ws" by (simp add: fit_plan_def)
    with Cons.IH [of S'] k Inr show ?thesis by (auto intro: grows_trans extends_trans)
  qed (use Cons.prems in simp)
qed simp

lemma sound_writes_prefix: "sound_writes K A (ws @ vs) \<Longrightarrow> sound_writes K A ws"
  by (induction K A ws rule: sound_writes.induct) auto

lemma fit_plan_take: "fit_plan S ws \<Longrightarrow> fit_plan S (take k ws)"
  by (metis append_take_drop_id fit_plan_def no_chosen_round_simps(2) sound_writes_prefix)

section \<open>A request writes about its own negotiation\<close>

lemma commit_acceptance_about:
  assumes H: "confined_hooks H"
  shows "list_all (about (ac_id a)) (commit_acceptance E H a arts now)"
proof (cases "decoded_agreement E arts")
  case (Inr bytes)
  note h = hook_writes_side(1,3) [OF H, of a]
  from Inr show ?thesis using side_about [OF h(1)] side_about [OF h(2), of arts]
    by (simp add: commit_acceptance_def about_def [of _ "Commit_Terms _ _ _"])
qed (simp add: commit_acceptance_def about_def)

lemma about_simps [simp]:
  "about nid (append_message E nid p role o' t pr ac ty now)"
  "list_all (about nid) (record_terminal_state E nid s now)"
  "about nid (fst (record_seller_decision E nid seller ours theirs d amount now))"
  using seller_message [of E nid seller ours theirs d amount now]
  by (auto simp: append_message_def record_terminal_state_def about_def split: option.splits)

lemma accepting_about: "confined_hooks H \<Longrightarrow> list_all (about (ac_id a)) (accepting_writes E clk H a arts actor role ours)"
  by (simp add: accepting_writes_def commit_acceptance_about)

lemma counter_about: "confined_hooks H \<Longrightarrow> list_all (about (ac_id a)) (counter_writes E clk H q ev a arts theirs amount)"
  by (simp add: counter_writes_def Let_def commit_acceptance_about)

lemma start_about:
  assumes R: "confined R" and p: "start_plan R clk nid actor su bu q S = Return (ws, resp)"
  shows "list_all (about nid) ws"
proof -
  from p obtain p where plan: "plan_opening R (clk 0) nid q S = Return p" and ws: "ws = opening_writes (nrt_env R) clk su bu p"
    by (auto simp: start_plan_def res_bind_Inr_iff split: if_splits)
  note f = plan_opening_fields [OF plan R]
  note hook = side_about [OF hook_writes_side(2) [OF f(4), of "\<lparr>op_acceptance = pl_acceptance p, op_evaluation = pl_evaluation p\<rparr>"]]
  show ?thesis unfolding ws opening_writes_def Let_def using f(1) hook commit_acceptance_about [OF f(4), of "pl_acceptance p"]
    by (simp add: about_def [of _ "Create_Thread _ _ _ _"] opened_thread_def)
qed

lemma force_accept_about:
  assumes R: "confined R" and p: "force_accept_plan R clk listing amount actor t S = Return (ws, resp)"
  shows "list_all (about (tv_id t)) ws"
  using p R
  by (auto simp: force_accept_plan_def res_bind_Inr_iff split: if_splits
      dest!: accepted_artifacts_id resume_fields intro: accepting_about [THEN subst [of _ _ "\<lambda>n. list_all (about n) _", rotated]])

text \<open>What a continuation does, by the buyer's action.\<close>

lemma continue_planE:
  assumes "continue_plan R clk q t S = Return (ws, resp)"
  obtains buyer seller x h where "authorize q t = Return (buyer, seller)" "resume_thread R S t = Return x"
      "history_from (rt_hooks x) seller buyer (rt_pinned x) 0 (rt_messages x) = Return h"
      "refuse_incomplete_thread t (rt_messages x) = Return ()" "co_action q = ''accept''"
      "continue_accept R clk q t x buyer seller S = Return (ws, resp)"
  | buyer seller x where "authorize q t = Return (buyer, seller)" "resume_thread R S t = Return x" "co_action q = ''exit''"
      "(ws, resp) = continue_exit R clk q t x buyer seller"
  | buyer seller x h where "authorize q t = Return (buyer, seller)" "resume_thread R S t = Return x"
      "history_from (rt_hooks x) seller buyer (rt_pinned x) 0 (rt_messages x) = Return h"
      "refuse_incomplete_thread t (rt_messages x) = Return ()" "co_action q = ''counter''"
      "continue_counter R clk q t x buyer seller h S = Return (ws, resp)"
proof -
  obtain bs where "authorize q t = Return bs" using assms by (cases "authorize q t") (simp_all add: continue_plan_def)
  then obtain buyer seller where p1: "authorize q t = Return (buyer, seller)" by (cases bs) simp
  obtain x where p2: "resume_thread R S t = Return x"
    using assms p1 by (cases "resume_thread R S t") (simp_all add: continue_plan_def)
  obtain h where p3: "history_from (rt_hooks x) seller buyer (rt_pinned x) 0 (rt_messages x) = Return h"
    using assms p1 p2 by (cases "history_from (rt_hooks x) seller buyer (rt_pinned x) 0 (rt_messages x)") (simp_all add: continue_plan_def)
  note p = p1 p2 p3
  have c: "res_bind (if co_action q = ''exit'' then Return () else refuse_incomplete_thread t (rt_messages x)) (\<lambda>_.
       if co_action q = ''accept'' then continue_accept R clk q t x buyer seller S
       else if co_action q = ''exit'' then Return (continue_exit R clk q t x buyer seller)
       else if co_action q = ''counter'' then continue_counter R clk q t x buyer seller h S
       else Raise (State_Error (''Unsupported buyer action '' @ repr_str (co_action q)))) = Return (ws, resp)"
    using assms p by (simp add: continue_plan_def)
  consider "co_action q = ''exit''" | "co_action q = ''accept''" | "co_action q = ''counter''"
    using c by (auto simp: res_bind_Inr_iff split: if_splits)
  then show thesis
  proof cases
    case 1
    with c p show thesis by (intro that(2) [of buyer seller x]) auto
  next
    case 2
    with c p show thesis by (intro that(1) [of buyer seller x h]) (auto simp: res_bind_Inr_iff)
  next
    case 3
    with c p show thesis by (intro that(3) [of buyer seller x h]) (auto simp: res_bind_Inr_iff)
  qed
qed

lemma continue_counterE:
  assumes "continue_counter R clk q t x buyer seller h S = Return (ws, resp)"
  obtains ev a arts theirs amount where
    "counter_evaluation S t x buyer h (case co_proposal q of Some p \<Rightarrow> Some p | None \<Rightarrow> rt_pinned x) = Return ev"
    "ws = counter_writes (nrt_env R) clk (rt_hooks x) q ev a arts theirs amount" "ac_id a = tv_id t" "ac_seller a = seller"
proof -
  from assms obtain ev fallback amount a arts where e: "counter_evaluation S t x buyer h (case co_proposal q of Some p \<Rightarrow> Some p | None \<Rightarrow> rt_pinned x) = Return ev"
    and a: "(if nd_action (ev_decision ev) = ''accept''
        then accepted_artifacts (nrt_env R) (rt_hooks x) (resumed_acceptance t x (amount_or amount (ev_our ev)) (ev_scalar ev) buyer seller (ev_state ev)) (clk 0)
        else Return (resumed_acceptance t x (amount_or amount (ev_our ev)) (ev_scalar ev) buyer seller (ev_state ev), [])) = Return (a, arts)"
    and ws: "ws = counter_writes (nrt_env R) clk (rt_hooks x) q ev a arts (case ev_buyer ev of Some n \<Rightarrow> n | None \<Rightarrow> amount_or fallback 0) amount"
    unfolding continue_counter_def Let_def res_bind_Inr_iff by (auto simp only: prod.case split_paired_Ex Inr_inject prod.inject)
  from a have "ac_id a = tv_id t \<and> ac_seller a = seller"
    by (auto simp: resumed_acceptance_def dest!: accepted_artifacts_id split: if_splits)
  with e ws that show thesis by blast
qed

lemma continue_about:
  assumes R: "confined R" and p: "continue_plan R clk q t S = Return (ws, resp)"
  shows "list_all (about (tv_id t)) ws"
  using p
proof (cases rule: continue_planE)
  case (1 buyer seller x h)
  note H = resume_fields [OF 1(2) R]
  from 1(6) obtain a a' arts where "accepted_artifacts (nrt_env R) (rt_hooks x) a' (clk 0) = Return (a, arts)" "ac_id a' = tv_id t"
    "ws = accepting_writes (nrt_env R) clk (rt_hooks x) a arts (co_actor q) (co_role q) (rt_reference x)"
    by (auto simp: continue_accept_def res_bind_Inr_iff)
  with accepted_artifacts_id accepting_about [OF H, of a] show ?thesis by metis
next
  case (2 buyer seller x)
  then show ?thesis by (simp add: continue_exit_def)
next
  case (3 buyer seller x h)
  note H = resume_fields [OF 3(2) R]
  from 3(6) show ?thesis by (rule continue_counterE) (metis counter_about [OF H])
qed

section \<open>Requests one after the other\<close>

definition serial_plan :: "nego_runtime \<Rightarrow> nego_request \<Rightarrow> nego_store \<Rightarrow> (nego_error, nego_write list) result" where
  "serial_plan R q S = (case subject q of
     None \<Rightarrow> request_writes R q None S
   | Some nid \<Rightarrow> res_bind (load_open_thread (nrt_env R) S nid) (\<lambda>t. request_writes R q (Some t) S))"

text \<open>A request of which the first \<open>k\<close> writes are made.\<close>

definition perform :: "nego_runtime \<Rightarrow> nego_request \<times> nat \<Rightarrow> nego_store \<Rightarrow> nego_store" where
  "perform R x S = (case serial_plan R (fst x) S of Inl e \<Rightarrow> S | Inr ws \<Rightarrow> fst (run_writes (nrt_env R) (take (snd x) ws) S))"

definition perform_all :: "nego_runtime \<Rightarrow> (nego_request \<times> nat) list \<Rightarrow> nego_store \<Rightarrow> nego_store" where
  "perform_all R xs S = fold (perform R) xs S"

lemma run_request_store: "fst (run_request E plan S) = (case plan of Inl e \<Rightarrow> S | Inr (ws, r) \<Rightarrow> fst (run_writes E ws S))"
  by (auto simp: run_request_def split: sum.splits prod.splits option.splits)

text \<open>The runtime's methods are requests carried out whole.\<close>

lemma continue_is_perform:
  obtains k where "fst (continue_negotiation R clk nid q S) = perform R (Continue_Negotiation clk nid q, k) S"
proof (cases "res_bind (load_open_thread (nrt_env R) S nid) (\<lambda>t. continue_plan R clk q t S)")
  case (Inl e)
  then have "fst (continue_negotiation R clk nid q S) = perform R (Continue_Negotiation clk nid q, 0) S"
    by (cases "load_open_thread (nrt_env R) S nid") (simp_all add: continue_negotiation_def run_request_def perform_def serial_plan_def)
  then show thesis by (rule that)
next
  case (Inr p)
  then have "fst (continue_negotiation R clk nid q S) = perform R (Continue_Negotiation clk nid q, length (fst p)) S"
    by (cases "load_open_thread (nrt_env R) S nid"; cases p)
      (simp_all add: continue_negotiation_def run_request_store perform_def serial_plan_def)
  then show thesis by (rule that)
qed

lemma serial_plan_fits:
  assumes "confined R" "admissible q" "serial_plan R q S = Return ws"
  shows "fit_plan S ws"
proof (cases "subject q")
  case None
  with assms show ?thesis by (auto simp: serial_plan_def intro: request_fits)
next
  case (Some nid)
  with assms obtain t where t: "load_open_thread (nrt_env R) S nid = Return t" and ws: "request_writes R q (Some t) S = Return ws"
    by (auto simp: serial_plan_def res_bind_Inr_iff)
  from load_open_thread_known [OF t] show ?thesis by (intro request_fits [OF assms(1,2) ws]) auto
qed

lemma perform_keeps:
  assumes "confined R" "admissible (fst x)" "store_ok S"
  shows "store_ok (perform R x S) \<and> grows S (perform R x S) \<and> extends S (perform R x S)"
  using assms serial_plan_fits [OF assms(1,2)] run_writes_keeps [OF assms(3) fit_plan_take]
  by (auto simp: perform_def split: sum.splits)

text \<open>A property of a store that every request keeps holds after any number of them.\<close>

lemma perform_all_induct:
  assumes ok: "confined R" "store_ok S" "\<And>x. x \<in> set xs \<Longrightarrow> admissible (fst x)" and base: "P S"
    and step: "\<And>x S. x \<in> set xs \<Longrightarrow> store_ok S \<Longrightarrow> P S \<Longrightarrow> P (perform R x S)"
  shows "P (perform_all R xs S) \<and> store_ok (perform_all R xs S)"
  using ok(2,3) base step unfolding perform_all_def
proof (induction xs arbitrary: S)
  case (Cons x xs)
  have "store_ok (perform R x S)" using perform_keeps [OF ok(1), of x S] Cons.prems by simp
  then show ?case using Cons by simp
qed simp

section \<open>Recorded terms and closed threads are final\<close>

text \<open>A new negotiation has an identifier of its own.\<close>

fun opens :: "nego_request \<Rightarrow> string option" where
  "opens (Start_Negotiation clk nid actor su bu q) = Some nid"
| "opens _ = None"

definition has_terms :: "thread_row \<Rightarrow> bool" where
  "has_terms t = truthy_text (tr_agreed_at t)"

lemma commit_acceptance_terms: "ac_id a \<noteq> nid \<Longrightarrow> confined_hooks H \<Longrightarrow> w \<in> set (commit_acceptance E H a arts now) \<Longrightarrow> \<not> writes_terms nid w"
  using commit_acceptance_about [of H a E arts now] by (auto simp: list_all_iff about_def writes_terms_def split: nego_write.splits)

lemma about_no_terms: "list_all (about k) ws \<Longrightarrow> k \<noteq> nid \<Longrightarrow> w \<in> set ws \<Longrightarrow> \<not> writes_terms nid w"
  by (auto simp: list_all_iff about_def writes_terms_def split: nego_write.splits)

lemma refuse_agreed: "refuse_incomplete_thread t ms = Return () \<Longrightarrow> \<not> truthy_text (tv_agreed_at t)"
  by (auto simp: refuse_incomplete_thread_def split: if_splits)

lemma append_no_terms [simp]: "\<not> writes_terms nid (append_message E n p role o' t pr ac ty now)"
  by (simp add: append_message_def writes_terms_def)

lemma terminal_no_terms [simp]: "w \<in> set (record_terminal_state E n s now) \<Longrightarrow> \<not> writes_terms nid w"
  by (auto simp: record_terminal_state_def writes_terms_def split: option.splits)

text \<open>A plan made while the thread has terms does not record terms for it.\<close>

lemma agreed_plan_no_terms:
  assumes R: "confined R" and plan: "serial_plan R q S = Return ws" and new: "opens q \<noteq> Some nid"
    and t: "find_thread S nid = Some t" "has_terms t" and w: "w \<in> set ws"
  shows "\<not> writes_terms nid w"
proof (cases q)
  case (Start_Negotiation clk k actor su bu r)
  with plan new obtain resp where p: "start_plan R clk k actor su bu r S = Return (ws, resp)" and "k \<noteq> nid"
    by (auto simp: serial_plan_def res_bind_Inr_iff)
  from about_no_terms [OF start_about [OF R p] this(2) w] show ?thesis .
next
  case (Continue_Negotiation clk k r)
  with plan obtain v resp where v: "load_open_thread (nrt_env R) S k = Return v" and p: "continue_plan R clk r v S = Return (ws, resp)"
    by (auto simp: serial_plan_def res_bind_Inr_iff)
  from load_open_thread_known [OF v] have k: "tv_id v = k" by simp
  show ?thesis
  proof (cases "k = nid")
    case True
    from v obtain u where u: "find_thread S k = Some u" "view_thread (nrt_env R) u = Return v" by (rule load_open_threadE)
    with t True view_thread_id [OF u(2)] have agreed: "truthy_text (tv_agreed_at v)" by (simp add: has_terms_def)
    from p show ?thesis
    proof (cases rule: continue_planE)
      case (2 buyer seller x)
      with w show ?thesis by (auto simp: continue_exit_def)
    qed (use agreed in \<open>auto dest: refuse_agreed\<close>)
  next
    case False
    from about_no_terms [OF continue_about [OF R p] _ w] k False show ?thesis by simp
  qed
next
  case (Force_Accept clk listing k amount actor)
  with plan obtain v resp where v: "load_open_thread (nrt_env R) S k = Return v"
    and p: "force_accept_plan R clk listing amount actor v S = Return (ws, resp)"
    by (auto simp: serial_plan_def res_bind_Inr_iff)
  from load_open_thread_known [OF v] have k: "tv_id v = k" by simp
  show ?thesis
  proof (cases "k = nid")
    case True
    from v obtain u where u: "find_thread S k = Some u" "view_thread (nrt_env R) u = Return v" by (rule load_open_threadE)
    with t True view_thread_id [OF u(2)] have "truthy_text (tv_agreed_at v)" by (simp add: has_terms_def)
    with p show ?thesis by (auto simp: force_accept_plan_def res_bind_Inr_iff dest: refuse_agreed split: if_splits)
  next
    case False
    from about_no_terms [OF force_accept_about [OF R p] _ w] k False show ?thesis by simp
  qed
next
  case (Sweep W clk)
  with plan w show ?thesis by (auto simp: serial_plan_def sweep_writes_def writes_terms_def)
qed

lemma perform_same_terms:
  assumes "confined R" "opens (fst x) \<noteq> Some nid" "find_thread S nid = Some t" "has_terms t"
  shows "\<exists>u. find_thread (perform R x S) nid = Some u \<and> same_terms t u"
proof (cases "serial_plan R (fst x) S")
  case (Inr ws)
  have "\<not> writes_terms nid w" if "w \<in> set (take (snd x) ws)" for w
    using agreed_plan_no_terms [OF assms(1) Inr assms(2-4)] in_set_takeD [OF that] by blast
  from run_writes_same_terms [OF this assms(3)] Inr show ?thesis by (simp add: perform_def)
qed (use assms in \<open>simp add: perform_def same_terms_def\<close>)

lemma terms_are_final:
  assumes "confined R" "\<And>x. x \<in> set xs \<Longrightarrow> opens (fst x) \<noteq> Some nid" "find_thread S nid = Some t" "has_terms t"
  shows "\<exists>u. find_thread (perform_all R xs S) nid = Some u \<and> same_terms t u"
  using assms(2-) unfolding perform_all_def
proof (induction xs arbitrary: S t)
  case Nil
  then show ?case by (simp add: same_terms_def)
next
  case (Cons x xs)
  obtain u where u: "find_thread (perform R x S) nid = Some u" "same_terms t u"
    using perform_same_terms [OF assms(1) _ Cons.prems(2,3), of x] Cons.prems(1) by auto
  with Cons.prems(3) have "has_terms u" by (simp add: same_terms_def has_terms_def)
  from Cons.IH [OF _ u(1) this] Cons.prems(1) obtain v where
    "find_thread (fold (perform R) xs (perform R x S)) nid = Some v" "same_terms u v" by auto
  with u(2) show ?case by (auto intro: same_terms_trans)
qed

definition thread_closed :: "thread_row \<Rightarrow> bool" where
  "thread_closed t = truthy_text (tr_terminal t)"

lemma load_closed: "find_thread S nid = Some t \<Longrightarrow> thread_closed t \<Longrightarrow> load_open_thread E S nid \<noteq> Return v"
  by (auto simp: thread_closed_def elim: load_open_threadE)

lemma run_writes_untouched:
  assumes "\<And>w. w \<in> set ws \<Longrightarrow> \<exists>k. k \<noteq> nid \<and> about k w"
  shows "find_thread (fst (run_writes E ws S)) nid = find_thread S nid \<and>
    thread_messages (fst (run_writes E ws S)) nid = thread_messages S nid"
  using assms
proof (induction ws arbitrary: S)
  case (Cons w ws)
  from Cons.prems [of w] obtain k where k: "k \<noteq> nid" "about k w" by auto
  show ?case
  proof (cases "apply_write E w S")
    case (Inr S')
    with apply_write_elsewhere [OF Inr k(2), of nid] k(1) Cons.IH [of S'] Cons.prems show ?thesis by simp
  qed simp
qed simp

lemma closed_untouched:
  assumes R: "confined R" and ok: "store_ok S" and new: "opens (fst x) \<noteq> Some nid"
    and t: "find_thread S nid = Some t" "thread_closed t"
  shows "find_thread (perform R x S) nid = Some t \<and> thread_messages (perform R x S) nid = thread_messages S nid"
proof (cases "serial_plan R (fst x) S")
  case (Inr ws)
  have other: "\<exists>k. k \<noteq> nid \<and> about k w" if w: "w \<in> set ws" for w
  proof (cases "fst x")
    case (Start_Negotiation clk k actor su bu r)
    with Inr new start_about [OF R] w show ?thesis by (auto simp: serial_plan_def res_bind_Inr_iff list_all_iff)
  next
    case (Continue_Negotiation clk k r)
    with Inr obtain v resp where v: "load_open_thread (nrt_env R) S k = Return v" and p: "continue_plan R clk r v S = Return (ws, resp)"
      by (auto simp: serial_plan_def res_bind_Inr_iff)
    with load_closed [OF t] load_open_thread_known [OF v] continue_about [OF R p] w show ?thesis
      by (metis list_all_iff)
  next
    case (Force_Accept clk listing k amount actor)
    with Inr obtain v resp where v: "load_open_thread (nrt_env R) S k = Return v"
      and p: "force_accept_plan R clk listing amount actor v S = Return (ws, resp)"
      by (auto simp: serial_plan_def res_bind_Inr_iff)
    with load_closed [OF t] load_open_thread_known [OF v] force_accept_about [OF R p] w show ?thesis
      by (metis list_all_iff)
  next
    case (Sweep W clk)
    with Inr w obtain u where u: "u \<in> set (threads S)" "tr_terminal u = None" "w = Set_Terminal (tr_id u) (wp_terminal W) (te_local (nrt_env R) (clk 1))"
      by (auto simp: serial_plan_def sweep_writes_def stale_negotiations_def)
    from ok u(1) have "find_thread S (tr_id u) = Some u" by (intro find_thread_distinct) (simp_all add: store_ok_def)
    with t u(2) have "tr_id u \<noteq> nid" by (auto simp: thread_closed_def truthy_text_def)
    with u(3) show ?thesis by (auto simp: about_def)
  qed
  have "\<exists>k. k \<noteq> nid \<and> about k w" if "w \<in> set (take (snd x) ws)" for w
    using other [OF in_set_takeD [OF that]] .
  from run_writes_untouched [OF this] Inr t show ?thesis by (simp add: perform_def)
qed (use t in \<open>simp add: perform_def\<close>)

lemma closed_is_final:
  assumes "confined R" "store_ok S" "\<And>x. x \<in> set xs \<Longrightarrow> admissible (fst x) \<and> opens (fst x) \<noteq> Some nid"
    and "find_thread S nid = Some t" "thread_closed t"
  shows "find_thread (perform_all R xs S) nid = Some t \<and> thread_messages (perform_all R xs S) nid = thread_messages S nid"
proof -
  let ?P = "\<lambda>T. find_thread T nid = Some t \<and> thread_messages T nid = thread_messages S nid"
  have step: "?P (perform R x T)" if "x \<in> set xs" "store_ok T" "?P T" for x T
    using closed_untouched [OF assms(1) that(2), of x nid t] that assms(3) [OF that(1)] assms(5) by simp
  have "?P (perform_all R xs S) \<and> store_ok (perform_all R xs S)"
    by (rule perform_all_induct [where P = ?P, OF assms(1,2)]) (use assms(3,4) step in simp_all)
  then show ?thesis by blast
qed

section \<open>Bargaining ends\<close>

text \<open>A policy that counters fewer than \<open>M\<close> times: what \<open>max_rounds_guard\<close> in a chain makes it.\<close>

definition bounded_policy :: "nat \<Rightarrow> nego_runtime \<Rightarrow> bool" where
  "bounded_policy M R = (\<forall>S t r H T request ev. nrt_resolve_continuation R S t = Return (r, H) \<longrightarrow>
     hk_evaluate H T request = Return ev \<longrightarrow> nd_action (ev_decision ev) = ''counter'' \<longrightarrow>
     length (our_counters (rr_history request)) < M)"

definition is_seller_counter :: "message_row \<Rightarrow> bool" where
  "is_seller_counter m = (mg_role m = ''seller'' \<and> mg_action m = ''counter_offer'')"

definition seller_counters :: "nego_store \<Rightarrow> string \<Rightarrow> nat" where
  "seller_counters S nid = length (filter is_seller_counter (thread_messages S nid))"

lemma seller_counters_extends: "extends S S' \<Longrightarrow> seller_counters S nid \<le> seller_counters S' nid"
  unfolding extends_def seller_counters_def by (metis filter_append le_add1 length_append)

lemma res_map_length_filter:
  assumes "res_map f xs = Return ys" "\<And>x y. f x = Return y \<Longrightarrow> Q y = P x"
  shows "length (filter Q ys) = length (filter P xs)"
  using assms(1)
proof (induction xs arbitrary: ys)
  case (Cons x xs)
  then obtain y zs where "f x = Return y" "res_map f xs = Return zs" "ys = y # zs" by (auto simp: res_bind_Inr_iff)
  with Cons.IH assms(2) show ?case by simp
qed simp

lemma view_message_fields:
  "view_message E m = Return v \<Longrightarrow> mv_role v = mg_role m \<and> mv_action v = mg_action m \<and> mv_round v = mg_round m"
  by (auto simp: view_message_def res_bind_Inr_iff)

lemma history_counters:
  "history_from H seller buyer pinned n ms = Return h \<Longrightarrow>
     length (our_counters h) = length (filter (\<lambda>m. mv_role m = ''seller'' \<and> mv_action m = ''counter_offer'') ms)"
proof (induction H seller buyer pinned n ms arbitrary: h rule: history_from.induct)
  case (2 H seller buyer pinned n m ms)
  then obtain s a rest where "round_sender seller buyer m = Return s" "stored_action (mv_action m) = Return a"
    "history_from H seller buyer pinned (n + 1) ms = Return rest" and
    h: "h = \<lparr>nr_number = mv_round m, nr_sender = s, nr_action = a, nr_proposal = hk_proposal H pinned (stored_amount (mv_proposed m))\<rparr> # rest"
    and "length (our_counters rest) = length (filter (\<lambda>m. mv_role m = ''seller'' \<and> mv_action m = ''counter_offer'') ms)"
    by (auto simp: res_bind_Inr_iff split: if_splits)
  then show ?case
    by (auto simp: our_counters_def is_our_counter_def round_sender_def stored_action_def res_bind_Inr_iff split: if_splits)
qed (simp add: our_counters_def)

lemma transcript_counters:
  assumes "load_negotiation_thread E S nid = Return ms" "history_from H seller buyer pinned 0 ms = Return h" "store_ok S"
  shows "length (our_counters h) = seller_counters S nid"
proof -
  have s: "sort_key mg_round (thread_messages S nid) = thread_messages S nid"
    using assms(3) by (intro sort_contiguous) (simp add: store_ok_def)
  have "length (filter (\<lambda>m. mv_role m = ''seller'' \<and> mv_action m = ''counter_offer'') ms) = length (filter is_seller_counter (thread_messages S nid))"
    by (rule res_map_length_filter [where f = "view_message E"])
      (use assms(1) in \<open>auto simp: load_negotiation_thread_def s is_seller_counter_def dest: view_message_fields\<close>)
  with history_counters [OF assms(2)] show ?thesis by (simp add: seller_counters_def)
qed

text \<open>A plan carried out to its end.\<close>

lemma run_writes_append: "run_writes E (ws @ vs) S = (case run_writes E ws S of (S', Some e) \<Rightarrow> (S', Some e) | (S', None) \<Rightarrow> run_writes E vs S')"
  by (induction ws arbitrary: S) (auto split: sum.splits)

lemma run_writes_Cons_None:
  "run_writes E (w # ws) S = (S', None) \<longleftrightarrow> (\<exists>T. apply_write E w S = Return T \<and> run_writes E ws T = (S', None))"
  by (auto split: sum.splits)

lemma fit_plan_step:
  assumes "store_ok S" "fit_plan S (w # ws)" "apply_write E w S = Return T"
  shows "store_ok T" "fit_plan T ws" "extends S T" "grows S T"
  using apply_whole_keeps [OF assms(1) _ _ assms(3), of ws] assms(2) by (auto simp: fit_plan_def no_chosen_round_whole)

lemma seller_counter_written:
  assumes ok: "store_ok S" and fit: "fit_plan S (w # append_message E nid p ''seller'' o' t pr ''counter_offer'' ty now # ws)"
    and run: "run_writes E (w # append_message E nid p ''seller'' o' t pr ''counter_offer'' ty now # ws) S = (S', None)"
  shows "seller_counters S nid < seller_counters S' nid"
proof -
  from run obtain T U where T: "apply_write E w S = Return T"
    and U: "apply_write E (append_message E nid p ''seller'' o' t pr ''counter_offer'' ty now) T = Return U"
    and rest: "run_writes E ws U = (S', None)" by (auto simp only: run_writes_Cons_None)
  note a = fit_plan_step [OF ok fit T]
  note b = fit_plan_step [OF a(1,2) U]
  let ?m = "\<lparr>nm_thread = nid, nm_role = ''seller'', nm_sender = p, nm_ours = o', nm_theirs = t, nm_proposed = pr,
    nm_action = ''counter_offer'', nm_type = ty, nm_stamp = te_iso E now\<rparr>"
  from U obtain n where n: "save_negotiation_message E None ?m T = Return (U, n)" by (auto simp: append_message_def res_bind_Inr_iff)
  from save_message_appends [OF a(1) n] obtain r where r: "message_of E n ?m = Return r" "thread_messages U nid = thread_messages T nid @ [r]"
    by auto
  from message_of_fields [OF r(1)] have "is_seller_counter r" by (simp add: is_seller_counter_def)
  with r(2) have "seller_counters T nid < seller_counters U nid" by (simp add: seller_counters_def)
  moreover have "seller_counters S nid \<le> seller_counters T nid" using a(3) by (rule seller_counters_extends)
  moreover have "seller_counters U nid \<le> seller_counters S' nid"
    using run_writes_keeps [OF b(1,2), of E] rest by (intro seller_counters_extends) simp
  ultimately show ?thesis by simp
qed

lemma terminal_written:
  assumes "run_writes E (ws @ [Set_Terminal nid state stamp]) S = (S', None)" "state \<noteq> []" "find_thread S nid = Some t"
    and "store_ok S" "fit_plan S ws"
  shows "\<exists>u. find_thread S' nid = Some u \<and> thread_closed u"
proof -
  from assms(1) obtain T where T: "run_writes E ws S = (T, None)" and S': "S' = update_negotiation_thread_terminal nid (Some state) stamp T"
    by (auto simp: run_writes_append split: prod.splits option.splits)
  from run_writes_keeps [OF assms(4,5), of E] T have "grows S T" by simp
  from growsE [OF this assms(3)] obtain u where "find_thread T nid = Some u" .
  with assms(2) show ?thesis
    by (auto simp: S' update_negotiation_thread_terminal_def find_thread_update thread_closed_def truthy_text_def)
qed

lemma fit_plan_prefix: "fit_plan S (ws @ vs) \<Longrightarrow> fit_plan S ws"
  using fit_plan_take [of S "ws @ vs" "length ws"] by simp

lemma seller_write:
  "\<exists>n ty. fst (record_seller_decision E nid seller ours theirs d amount now) =
    append_message E nid seller ''seller'' (PInt ours) (PInt theirs) n (fst (recorded_action (nd_action d))) ty now"
  by (cases "recorded_action (nd_action d)") (auto simp: record_seller_decision_def)

text \<open>An answered counter either records the seller's counter or closes the thread.\<close>

lemma counter_progress:
  assumes ok: "store_ok S" and fit: "fit_plan S (counter_writes E clk H q ev a arts theirs amount)"
    and run: "run_writes E (counter_writes E clk H q ev a arts theirs amount) S = (S', None)"
    and t: "find_thread S (ac_id a) = Some t"
  shows "(nd_action (ev_decision ev) = ''counter'' \<and> seller_counters S (ac_id a) < seller_counters S' (ac_id a)) \<or>
    (\<exists>u. find_thread S' (ac_id a) = Some u \<and> thread_closed u)"
proof -
  let ?move = "record_seller_decision E (ac_id a) (ac_seller a) (ev_our ev) theirs (ev_decision ev) amount (clk 2)"
  let ?first = "append_message E (ac_id a) (co_actor q) (co_role q) (PInt (ev_our ev)) (PInt theirs) (PInt theirs) ''counter_offer'' ''counter_proposal'' (clk 1)"
  let ?terms = "if nd_action (ev_decision ev) = ''accept'' then commit_acceptance E H a arts (clk 3) else []"
  have ws: "counter_writes E clk H q ev a arts theirs amount =
      (?first # fst ?move # ?terms) @ record_terminal_state E (ac_id a) (snd ?move) (clk 4)"
    by (simp add: counter_writes_def Let_def)
  show ?thesis
  proof (cases "nd_action (ev_decision ev) = ''counter''")
    case True
    obtain n ty where m: "fst ?move = append_message E (ac_id a) (ac_seller a) ''seller'' (PInt (ev_our ev)) (PInt theirs) n ''counter_offer'' ty (clk 2)"
      using seller_write [of E "ac_id a" "ac_seller a" "ev_our ev" theirs "ev_decision ev" amount "clk 2"] True
      by (auto simp: recorded_action_def)
    from seller_counter_written [OF ok fit [unfolded ws append_Cons m] run [unfolded ws append_Cons m]] True show ?thesis by simp
  next
    case False
    then obtain state where s: "snd ?move = Some state" "state \<noteq> []"
      by (cases "nd_action (ev_decision ev) = ''accept''") (auto simp: seller_terminal)
    from run have "run_writes E ((?first # fst ?move # ?terms) @ [Set_Terminal (ac_id a) state (te_local E (clk 4))]) S = (S', None)"
      by (simp only: ws record_terminal_state_def s(1) option.case)
    from terminal_written [OF this s(2) t ok fit_plan_prefix [OF fit [unfolded ws]]] show ?thesis by blast
  qed
qed

text \<open>The buyer's counters, one after the other, and how each was answered.\<close>

fun bargain_on :: "nego_runtime \<Rightarrow> string \<Rightarrow> ((nat \<Rightarrow> int) \<times> continuation_request) list \<Rightarrow> nego_store \<Rightarrow>
    nego_store \<times> (nego_error, jobj) result list" where
  "bargain_on R nid [] S = (S, [])"
| "bargain_on R nid ((clk, q) # qs) S = (case continue_negotiation R clk nid q S of
     (S', r) \<Rightarrow> (case bargain_on R nid qs S' of (S'', rs) \<Rightarrow> (S'', r # rs)))"

definition answered :: "(nego_error, 'a) result list \<Rightarrow> nat" where
  "answered rs = length (filter (\<lambda>r. \<exists>x. r = Return x) rs)"

lemma counter_evaluation_bounded:
  assumes bounded: "bounded_policy M R" and x: "resume_thread R S t = Return x"
    and ev: "counter_evaluation S t x buyer h proposal = Return ev" and c: "nd_action (ev_decision ev) = ''counter''"
  shows "length (our_counters h) < M"
proof -
  from x obtain r where H: "nrt_resolve_continuation R S t = Return (r, rt_hooks x)"
    by (auto simp: resume_thread_def res_bind_Inr_iff split: if_splits)
  from ev obtain source request ev' where e: "hk_evaluate (rt_hooks x) S request = Return ev'"
      "rr_history request = h @ [\<lparr>nr_number = int (length h), nr_sender = Them, nr_action = ''counter'', nr_proposal = proposal\<rparr>]"
      "enforce_on_decision (rt_hooks x) source ev' (tv_our_listing t) = Return ev"
    by (auto simp: counter_evaluation_def Let_def res_bind_Inr_iff)
  from e(3) c have "nd_action (ev_decision ev') = ''counter''"
    by (auto simp: enforce_on_decision_def split: if_splits option.splits)
  with bounded H e(1) have "length (our_counters (rr_history request)) < M" by (auto simp: bounded_policy_def)
  then show ?thesis by (simp add: e(2) our_counters_def is_our_counter_def)
qed

lemma answered_counter:
  assumes R: "confined R" "bounded_policy M R" and ok: "store_ok S" and q: "co_action q = ''counter''"
    and run: "continue_negotiation R clk nid q S = (S', Return resp)"
  shows "(seller_counters S nid < M \<and> seller_counters S nid < seller_counters S' nid) \<or> (\<exists>u. find_thread S' nid = Some u \<and> thread_closed u)"
proof -
  from run obtain v ws where v: "load_open_thread (nrt_env R) S nid = Return v" and p: "continue_plan R clk q v S = Return (ws, resp)"
    and w: "run_writes (nrt_env R) ws S = (S', None)"
    by (auto simp: continue_negotiation_def run_request_def res_bind_Inr_iff split: sum.splits prod.splits option.splits)
  note id = load_open_thread_known [OF v]
  from id obtain t where t: "find_thread S nid = Some t" by (auto simp: known_iff)
  from id have fit: "fit_plan S ws" by (intro continue_fits [OF R(1) _ p]) simp
  from p show ?thesis
  proof (cases rule: continue_planE)
    case (3 buyer seller x h)
    from 3(6) obtain ev a arts theirs amount where ev: "counter_evaluation S v x buyer h (case co_proposal q of Some p \<Rightarrow> Some p | None \<Rightarrow> rt_pinned x) = Return ev"
      and ws: "ws = counter_writes (nrt_env R) clk (rt_hooks x) q ev a arts theirs amount" and a: "ac_id a = nid"
      using id by (auto elim: continue_counterE)
    from 3(2) have "load_negotiation_thread (nrt_env R) S nid = Return (rt_messages x)"
      using id by (auto simp: resume_thread_def res_bind_Inr_iff split: if_splits)
    from transcript_counters [OF this 3(3) ok] counter_evaluation_bounded [OF R(2) 3(2) ev]
    have "nd_action (ev_decision ev) = ''counter'' \<Longrightarrow> seller_counters S nid < M" by simp
    with counter_progress [OF ok fit [unfolded ws] w [unfolded ws]] t a show ?thesis by auto
  qed (use q in simp_all)
qed

lemma closed_unanswered:
  assumes "find_thread S nid = Some t" "thread_closed t"
  shows "answered (snd (bargain_on R nid qs S)) = 0"
proof (induction qs)
  case (Cons x qs)
  obtain clk q where x: "x = (clk, q)" by (cases x)
  have "\<nexists>v. load_open_thread (nrt_env R) S nid = Return v" using load_closed [OF assms] by blast
  then obtain e where "load_open_thread (nrt_env R) S nid = Raise e" by (cases "load_open_thread (nrt_env R) S nid") auto
  then have "continue_negotiation R clk nid q S = (S, Raise e)" by (simp add: continue_negotiation_def run_request_def)
  with Cons show ?case by (auto simp: x answered_def split: prod.splits)
qed (simp add: answered_def)

lemma bargaining_bounded:
  assumes R: "confined R" "bounded_policy M R" and "store_ok S" and "\<And>clk q. (clk, q) \<in> set qs \<Longrightarrow> co_action q = ''counter'' \<and> principal_ok (co_actor q)"
  shows "answered (snd (bargain_on R nid qs S)) \<le> Suc (M - seller_counters S nid)"
  using assms(3,4)
proof (induction qs arbitrary: S)
  case (Cons x qs)
  obtain clk q where x: "x = (clk, q)" by (cases x)
  obtain S' r where c: "continue_negotiation R clk nid q S = (S', r)" by (cases "continue_negotiation R clk nid q S")
  have q: "co_action q = ''counter''" "principal_ok (co_actor q)" using Cons.prems(2) [of clk q] x by simp_all
  obtain k where "S' = perform R (Continue_Negotiation clk nid q, k) S"
    using continue_is_perform [of R clk nid q S] c by auto
  with perform_keeps [OF R(1) _ Cons.prems(1), of "(Continue_Negotiation clk nid q, k)"] q(2)
  have ok: "store_ok S'" "extends S S'" by (auto simp: admissible_def)
  have IH: "answered (snd (bargain_on R nid qs S')) \<le> Suc (M - seller_counters S' nid)"
  proof (rule Cons.IH [OF ok(1)])
    fix clk' q'
    assume "(clk', q') \<in> set qs"
    then show "co_action q' = ''counter'' \<and> principal_ok (co_actor q')" using Cons.prems(2) [of clk' q'] by simp
  qed
  have rec: "answered (snd (bargain_on R nid (x # qs) S)) =
      (if \<exists>y. r = Return y then 1 else 0) + answered (snd (bargain_on R nid qs S'))"
    by (simp add: x c answered_def split: prod.splits)
  show ?case
  proof (cases "\<exists>y. r = Return y")
    case True
    then obtain y where "r = Return y" by blast
    from answered_counter [OF R Cons.prems(1) q(1) c [unfolded this]] closed_unanswered [of S' nid _ R qs] IH rec True
    show ?thesis by auto
  next
    case False
    with IH rec seller_counters_extends [OF ok(2), of nid] show ?thesis by simp
  qed
qed (simp add: answered_def)

end
