(* ===== verification/Negotiation_Overlap.thy ===== *)
theory Negotiation_Overlap
  imports Negotiation_Serial
begin

text \<open>
  Two requests that read one negotiation before either writes.  The runtime checks that a
  negotiation is open and free of terms when it reads the row, and not again when it writes, so an
  acceptance that was decided then still records its terms over those another has recorded since.
\<close>

section \<open>What an acceptance writes\<close>

lemma history_seller:
  "history_from H seller buyer pinned k ms = Return h \<Longrightarrow> m \<in> set ms \<Longrightarrow> mv_role m = ''seller'' \<Longrightarrow> mv_sender m = Some seller"
proof (induction H seller buyer pinned k ms arbitrary: h rule: history_from.induct)
  case (2 H seller buyer pinned k m' ms)
  then show ?case
    by (auto simp: res_bind_Inr_iff round_sender_def require_principal_def split: if_splits option.splits)
qed simp

lemma accepting_terms:
  assumes H: "confined_hooks H" and w: "Commit_Terms nid terms stamp \<in> set (accepting_writes E clk H a arts actor role ours)"
  shows "nid = ac_id a \<and> at_price terms = PInt (ac_amount a)"
proof (cases "decoded_agreement E arts")
  case (Inr bytes)
  have side: "Commit_Terms nid terms stamp \<notin> set ws" if "list_all (side_write k) ws" for ws k
    using that by (auto simp: list_all_iff side_write_def)
  note h = hook_writes_side(1,3) [OF H, of a]
  from w Inr side [OF h(1)] side [OF h(2), of arts] show ?thesis
    by (auto simp: accepting_writes_def commit_acceptance_def append_message_def record_terminal_state_def)
qed (use w in \<open>auto simp: accepting_writes_def commit_acceptance_def append_message_def record_terminal_state_def\<close>)

lemma buyer_accept_amount:
  assumes R: "confined R" and p: "continue_plan R clk q t S = Return (ws, resp)" and q: "co_action q = ''accept''"
    and w: "Commit_Terms nid terms stamp \<in> set ws"
  shows "nid = tv_id t \<and> (\<exists>ms n. load_negotiation_thread (nrt_env R) S (tv_id t) = Return ms \<and> ms \<noteq> [] \<and>
    mv_role (last ms) = ''seller'' \<and> mv_action (last ms) = ''counter_offer'' \<and> mv_proposed (last ms) = Some n \<and> at_price terms = PInt n)"
  using p
proof (cases rule: continue_planE)
  case (1 buyer seller x h)
  note H = resume_fields [OF 1(2) R]
  from 1(4) have e: "ends_with_seller_counter (rt_messages x)" by (auto simp: refuse_incomplete_thread_def split: if_splits)
  then obtain ms m where ms: "rt_messages x = ms @ [m]" "mv_role m = ''seller''" "mv_action m = ''counter_offer''"
    by (cases "rt_messages x" rule: rev_cases) (auto simp: ends_with_seller_counter_def)
  have sender: "mv_sender m = Some seller"
    using 1(3) ms by (intro history_seller [of "rt_hooks x" seller buyer "rt_pinned x" 0 "rt_messages x" h]) auto
  from 1(6) obtain n a arts b where n: "last_seller_amount (rt_messages x) seller (rt_reference x) = Return n"
    and a: "accepted_artifacts (nrt_env R) (rt_hooks x) b (clk 0) = Return (a, arts)" "ac_id b = tv_id t" "ac_amount b = n"
    and ws: "ws = accepting_writes (nrt_env R) clk (rt_hooks x) a arts (co_actor q) (co_role q) (rt_reference x)"
    by (auto simp: continue_accept_def res_bind_Inr_iff resumed_acceptance_def)
  from n ms sender have m: "mv_proposed m = Some n"
    by (auto simp: last_seller_amount_def is_seller_offer_def stored_amount_def split: option.splits)
  from accepting_terms [OF H w [unfolded ws]] accepted_artifacts_id [OF a(1)] a(2,3)
  have "nid = tv_id t" "at_price terms = PInt n" by simp_all
  moreover from 1(2) have "load_negotiation_thread (nrt_env R) S (tv_id t) = Return (rt_messages x)"
    by (auto simp: resume_thread_def res_bind_Inr_iff split: if_splits)
  ultimately show ?thesis using ms m by auto
qed (use q in simp_all)

text \<open>The writes of an acceptance, in order: its message, the terms, the hooks' own writes, success.\<close>

definition acceptance_order ::
    "thread_env \<Rightarrow> string \<Rightarrow> principal \<Rightarrow> string \<Rightarrow> int \<Rightarrow> int \<Rightarrow> agreed_terms \<Rightarrow> nego_write list \<Rightarrow> nego_write list \<Rightarrow> bool" where
  "acceptance_order E nid actor role ours n terms hs ws =
     ((\<exists>now stamp st. ws = append_message E nid actor role (PInt ours) (PInt n) (PInt n) ''accept_offer'' ''accepted'' now
        # Commit_Terms nid terms stamp # hs @ [Set_Terminal nid ''success'' st]) \<and>
      at_price terms = PInt n \<and> list_all (side_write nid) hs)"

lemma order_commits:
  "acceptance_order E nid actor role ours n terms hs ws \<Longrightarrow> at_price terms = PInt n \<and> (\<exists>stamp. Commit_Terms nid terms stamp \<in> set ws)"
  unfolding acceptance_order_def by (metis in_set_conv_decomp append_Cons append_Nil)

lemma accepting_order:
  assumes H: "confined_hooks H" and d: "decoded_agreement E arts = Return bytes"
  obtains terms hs where "acceptance_order E (ac_id a) actor role ours (ac_amount a) terms hs (accepting_writes E clk H a arts actor role ours)"
    "hk_place_hold H = None \<Longrightarrow> hk_persist_artifacts H = None \<Longrightarrow> hs = []"
proof -
  let ?hs = "hook_writes (hk_place_hold H) a @ (case hk_persist_artifacts H of None \<Rightarrow> [] | Some f \<Rightarrow> f a arts)"
  note h = hook_writes_side(1,3) [OF H, of a]
  have "acceptance_order E (ac_id a) actor role ours (ac_amount a)
      \<lparr>at_price = PInt (ac_amount a), at_duration = ag_duration (ac_agreement a), at_start = ag_start (ac_agreement a),
        at_accepted = map_option (iso_z E) (ac_accepted a), at_agreement = bytes, at_settlement = as_dict (jget arts ''settlement_data'')\<rparr>
      ?hs (accepting_writes E clk H a arts actor role ours)"
    using h(1) h(2) [of arts] d
    by (simp add: acceptance_order_def accepting_writes_def commit_acceptance_def record_terminal_state_def) blast
  with that show thesis by (simp add: hook_writes_def)
qed

lemma aborted_acceptance:
  assumes "decoded_agreement E arts = Raise e"
  shows "Commit_Terms nid terms stamp \<notin> set (accepting_writes E clk H a arts actor role ours)"
    "run_writes E (accepting_writes E clk H a arts actor role ours) S \<noteq> (S', None)"
  using assms by (auto simp: accepting_writes_def commit_acceptance_def append_message_def record_terminal_state_def split: sum.splits)

section \<open>What the row records\<close>

lemma find_thread_domain [simp]: "find_thread (S\<lparr>domain_tables := d\<rparr>) nid = find_thread S nid"
  by (simp add: find_thread_def)

text \<open>The hooks' writes leave the price and the terminal state alone.\<close>

lemma side_keeps_row:
  assumes "list_all (side_write nid) hs" "find_thread S nid = Some t"
  shows "\<exists>u. find_thread (fst (run_writes E hs S)) nid = Some u \<and> tr_price u = tr_price t \<and> tr_terminal u = tr_terminal t"
  using assms
proof (induction hs arbitrary: S t)
  case (Cons w hs)
  show ?case
  proof (cases "apply_write E w S")
    case (Inr T)
    with Cons.prems have "\<exists>u. find_thread T nid = Some u \<and> tr_price u = tr_price t \<and> tr_terminal u = tr_terminal t"
      by (cases w) (auto simp: side_write_def commit_settlement_plan_def res_bind_Inr_iff Let_def find_thread_update
          split: if_splits option.splits)
    then obtain u where "find_thread T nid = Some u" "tr_price u = tr_price t" "tr_terminal u = tr_terminal t" by blast
    with Cons.IH [of T u] Cons.prems Inr show ?thesis by auto
  qed (use Cons.prems in simp)
qed simp

lemma commit_terms_row:
  assumes "apply_write E (Commit_Terms nid terms stamp) S = Return T" "find_thread S nid = Some t"
  shows "\<exists>u. find_thread T nid = Some u \<and> amount_to_db_text E (at_price terms) = Return (tr_price u) \<and> tr_terminal u = tr_terminal t"
  using assms by (auto simp: commit_agreed_terms_def res_bind_Inr_iff find_thread_update)

lemma append_row:
  assumes "apply_write E (append_message E nid p role o' t pr ac ty now) S = Return T" "find_thread S nid = Some u"
  shows "\<exists>u'. find_thread T nid = Some u' \<and> tr_terminal u' = tr_terminal u"
  using assms by (auto simp: append_message_def save_negotiation_message_def write_message_def Let_def res_bind_Inr_iff find_thread_update)

text \<open>An acceptance that is carried out to its end closes the row at its amount.\<close>

lemma acceptance_recorded:
  assumes ws: "acceptance_order E nid actor role ours n terms hs ws" and run: "run_writes E ws S = (S', None)"
    and t: "find_thread S nid = Some t"
  shows "\<exists>u. find_thread S' nid = Some u \<and> tr_terminal u = Some ''success'' \<and> amount_to_db_text E (PInt n) = Return (tr_price u)"
proof -
  from ws obtain now stamp st where w: "ws = append_message E nid actor role (PInt ours) (PInt n) (PInt n) ''accept_offer'' ''accepted'' now
      # Commit_Terms nid terms stamp # hs @ [Set_Terminal nid ''success'' st]" and p: "at_price terms = PInt n" "list_all (side_write nid) hs"
    by (auto simp: acceptance_order_def)
  from run obtain T U where T: "apply_write E (append_message E nid actor role (PInt ours) (PInt n) (PInt n) ''accept_offer'' ''accepted'' now) S = Return T"
    and U: "apply_write E (Commit_Terms nid terms stamp) T = Return U" and rest: "run_writes E (hs @ [Set_Terminal nid ''success'' st]) U = (S', None)"
    by (auto simp only: w run_writes_Cons_None)
  from append_row [OF T t] obtain t1 where t1: "find_thread T nid = Some t1" by blast
  from commit_terms_row [OF U t1] p obtain t2 where t2: "find_thread U nid = Some t2" "amount_to_db_text E (PInt n) = Return (tr_price t2)" by auto
  from rest obtain V where V: "run_writes E hs U = (V, None)" and S': "S' = update_negotiation_thread_terminal nid (Some ''success'') st V"
    by (auto simp: run_writes_append split: prod.splits option.splits)
  from side_keeps_row [OF p(2) t2(1), of E] V t2(2) show ?thesis
    by (auto simp: S' update_negotiation_thread_terminal_def find_thread_update)
qed

text \<open>An administrator's acceptance writes its terms over whatever the row records.\<close>

lemma admin_message_written:
  assumes "find_thread S nid = Some t" "amount_to_db_text E (PInt n) = Return price"
  shows "\<exists>T. apply_write E (append_message E nid actor ''admin'' (PInt n) (PInt n) (PInt n) ac ty now) S = Return T"
  using assms by (auto simp: append_message_def save_negotiation_message_def write_message_def message_of_def message_round_def
      check_author_def SENDER_ROLES_def Let_def)

lemma acceptance_overwrites:
  assumes ws: "acceptance_order E nid actor ''admin'' n n terms hs ws" and run: "run_writes E ws S = (S', e)"
    and price: "amount_to_db_text E (PInt n) = Return price" and t: "find_thread S nid = Some t" "tr_terminal t = Some ''success''"
  shows "\<exists>u. find_thread S' nid = Some u \<and> tr_terminal u = Some ''success'' \<and> tr_price u = price \<and> (hs = [] \<longrightarrow> e = None)"
proof -
  from ws obtain now stamp st where w: "ws = append_message E nid actor ''admin'' (PInt n) (PInt n) (PInt n) ''accept_offer'' ''accepted'' now
      # Commit_Terms nid terms stamp # hs @ [Set_Terminal nid ''success'' st]" and p: "at_price terms = PInt n" "list_all (side_write nid) hs"
    by (auto simp: acceptance_order_def)
  from admin_message_written [OF t(1) price] obtain T where
    T: "apply_write E (append_message E nid actor ''admin'' (PInt n) (PInt n) (PInt n) ''accept_offer'' ''accepted'' now) S = Return T" by blast
  from append_row [OF T t(1)] t(2) obtain t1 where t1: "find_thread T nid = Some t1" "tr_terminal t1 = Some ''success''" by auto
  obtain U where U: "apply_write E (Commit_Terms nid terms stamp) T = Return U" using price p by (auto simp: commit_agreed_terms_def)
  from commit_terms_row [OF U t1(1)] p price t1(2) obtain t2 where t2: "find_thread U nid = Some t2" "tr_price t2 = price" "tr_terminal t2 = Some ''success''"
    by auto
  have rest: "run_writes E (hs @ [Set_Terminal nid ''success'' st]) U = (S', e)" using run T U by (simp add: w)
  obtain V f where V: "run_writes E hs U = (V, f)" by (cases "run_writes E hs U")
  from side_keeps_row [OF p(2) t2(1), of E] V t2 obtain u where u: "find_thread V nid = Some u" "tr_price u = price" "tr_terminal u = Some ''success''"
    by auto
  with V rest show ?thesis
    by (cases f) (auto simp: run_writes_append update_negotiation_thread_terminal_def find_thread_update)
qed

section \<open>The two acceptances\<close>

lemma buyer_acceptance_recorded:
  assumes R: "confined R" and v: "load_open_thread (nrt_env R) S nid = Return v" and q: "co_action q = ''accept''"
    and plan: "continue_plan R clk q v S = Return (ws, r)" and run: "run_writes (nrt_env R) ws S = (S', None)"
  shows "\<exists>ms m t. load_negotiation_thread (nrt_env R) S nid = Return ms \<and> mv_proposed (last ms) = Some m \<and>
     find_thread S' nid = Some t \<and> tr_terminal t = Some ''success'' \<and> amount_to_db_text (nrt_env R) (PInt m) = Return (tr_price t)"
proof -
  note id = load_open_thread_known [OF v]
  then obtain t where t: "find_thread S nid = Some t" by (auto simp: known_iff)
  from plan obtain x a arts where x: "resume_thread R S v = Return x" and a: "ac_id a = nid"
    and ws: "ws = accepting_writes (nrt_env R) clk (rt_hooks x) a arts (co_actor q) (co_role q) (rt_reference x)"
  proof (cases rule: continue_planE)
    case (1 buyer seller x h)
    from 1(6) obtain n a arts b where "accepted_artifacts (nrt_env R) (rt_hooks x) b (clk 0) = Return (a, arts)" "ac_id b = tv_id v"
      "ws = accepting_writes (nrt_env R) clk (rt_hooks x) a arts (co_actor q) (co_role q) (rt_reference x)"
      by (auto simp: continue_accept_def res_bind_Inr_iff)
    with that [OF 1(2), of a arts] accepted_artifacts_id [of "nrt_env R" "rt_hooks x" b "clk 0" a arts] id show thesis by simp
  qed (use q in simp_all)
  from run ws obtain bytes where "decoded_agreement (nrt_env R) arts = Return bytes"
    using aborted_acceptance(2) by (cases "decoded_agreement (nrt_env R) arts") blast+
  then obtain terms hs where o: "acceptance_order (nrt_env R) nid (co_actor q) (co_role q) (rt_reference x) (ac_amount a) terms hs ws"
    using accepting_order [OF resume_fields [OF x R], of "nrt_env R" arts _ a] unfolding ws a by metis
  then obtain stamp where c: "Commit_Terms nid terms stamp \<in> set ws" and p: "at_price terms = PInt (ac_amount a)"
    using order_commits by blast
  have "\<exists>ms. load_negotiation_thread (nrt_env R) S (tv_id v) = Return ms \<and> mv_proposed (last ms) = Some (ac_amount a)"
    using buyer_accept_amount [OF R plan q c, THEN conjunct2] p by auto
  then obtain ms where "load_negotiation_thread (nrt_env R) S nid = Return ms" "mv_proposed (last ms) = Some (ac_amount a)"
    using id by auto
  with acceptance_recorded [OF o run t] show ?thesis by blast
qed

lemma forced_acceptance_overwrites:
  assumes R: "confined R" and v: "load_open_thread (nrt_env R) S nid = Return v"
    and plan: "force_accept_plan R clk l n actor v S = Return (ws, r)" "Commit_Terms nid terms stamp \<in> set ws"
    and price: "amount_to_db_text (nrt_env R) (PInt n) = Return price"
    and t: "find_thread T nid = Some t" "tr_terminal t = Some ''success''" and run: "run_writes (nrt_env R) ws T = (T', e)"
  shows "\<exists>u. find_thread T' nid = Some u \<and> tr_terminal u = Some ''success'' \<and> tr_price u = price \<and>
     (\<forall>rs H. nrt_resolve_continuation R S v = Return (rs, H) \<and> hk_place_hold H = None \<and> hk_persist_artifacts H = None \<longrightarrow> e = None)"
proof -
  note id = load_open_thread_known [OF v]
  from plan(1) obtain x a arts b where x: "resume_thread R S v = Return x"
    and b: "accepted_artifacts (nrt_env R) (rt_hooks x) b (clk 0) = Return (a, arts)" "ac_id b = tv_id v" "ac_amount b = n"
    and ws: "ws = accepting_writes (nrt_env R) clk (rt_hooks x) a arts actor ''admin'' n"
    by (auto simp: force_accept_plan_def res_bind_Inr_iff resumed_acceptance_def split: if_splits)
  from accepted_artifacts_id [OF b(1)] b id have a: "ac_id a = nid" "ac_amount a = n" by simp_all
  from plan(2) ws obtain bytes where d: "decoded_agreement (nrt_env R) arts = Return bytes"
    using aborted_acceptance(1) by (cases "decoded_agreement (nrt_env R) arts") blast+
  from accepting_order [OF resume_fields [OF x R] d, of a actor "''admin''" n clk] obtain terms hs where
    o: "acceptance_order (nrt_env R) nid actor ''admin'' n n terms hs ws"
      "hk_place_hold (rt_hooks x) = None \<Longrightarrow> hk_persist_artifacts (rt_hooks x) = None \<Longrightarrow> hs = []"
    unfolding ws a by metis
  from x obtain rs where "nrt_resolve_continuation R S v = Return (rs, rt_hooks x)"
    by (auto simp: resume_thread_def res_bind_Inr_iff split: if_splits)
  with acceptance_overwrites [OF o(1) run price t] o(2) show ?thesis by auto
qed

text \<open>The same acceptance, had it read the row only now.\<close>

lemma closed_refuses_force:
  assumes "find_thread S nid = Some t" "tr_terminal t = Some ''success''"
  shows "\<exists>err. accept_administratively R clk l nid n actor S = (S, Raise err)"
proof (cases "load_open_thread (nrt_env R) S nid")
  case (Inl err)
  then show ?thesis by (simp add: accept_administratively_def run_request_def)
next
  case (Inr v)
  with load_closed [OF assms(1)] assms(2) show ?thesis by (simp add: thread_closed_def truthy_text_def)
qed

section \<open>As an interleaving\<close>

lemma task_runs:
  assumes "i < length P" "P ! i = Writing ws"
  shows "(nego_step R)\<^sup>*\<^sup>* (S, P) (fst (run_writes (nrt_env R) ws S), P[i := Writing []])"
  using assms
proof (induction ws arbitrary: S P)
  case Nil
  then show ?case by (metis fst_conv list_update_id run_writes.simps(1) rtranclp.rtrancl_refl)
next
  case (Cons w ws)
  show ?case
  proof (cases "apply_write (nrt_env R) w S")
    case (Inl e)
    with nego_step.abandoned [OF Cons.prems(1), of R S] show ?thesis by auto
  next
    case (Inr T)
    have reach: "(nego_step R)\<^sup>*\<^sup>* (S, P) (T, P[i := Writing ws])"
    proof (cases "is_append w")
      case True
      then obtain m where m: "w = Append_Message m" by (cases w) (simp_all add: is_append_def)
      with Inr obtain n where n: "message_round m S = Return n" "write_message (nrt_env R) n m S = Return T"
        by (auto simp: save_negotiation_message_def res_bind_Inr_iff Let_def)
      let ?P = "P[i := Writing (Append_At n m # ws)]"
      have "nego_step R (S, P) (S, ?P)" using Cons.prems m n(1) by (intro nego_step.choose_round) simp_all
      moreover have "nego_step R (S, ?P) (T, ?P[i := Writing ws])"
        using Cons.prems(1) n(2) by (intro nego_step.performed [where w = "Append_At n m"]) (simp_all add: is_append_def)
      ultimately show ?thesis by auto
    next
      case False
      have "nego_step R (S, P) (T, P[i := Writing ws])" by (rule nego_step.performed [OF Cons.prems False Inr])
      then show ?thesis by auto
    qed
    have "(nego_step R)\<^sup>*\<^sup>* (T, P[i := Writing ws]) (fst (run_writes (nrt_env R) ws T), (P[i := Writing ws])[i := Writing []])"
      using Cons.IH [of "P[i := Writing ws]" T] Cons.prems(1) by simp
    with reach Inr show ?thesis by simp
  qed
qed

text \<open>Both read, both decide, and then each makes its writes.\<close>

lemma overlapping_run:
  assumes v: "load_open_thread (nrt_env R) S nid = Return v" and q: "principal_ok (co_actor q)" "principal_ok actor"
    and buyer: "continue_plan R clk q v S = Return (ws, r)" and admin: "force_accept_plan R clk' l n actor v S = Return (ws', r')"
    and runs: "fst (run_writes (nrt_env R) ws S) = S1" "fst (run_writes (nrt_env R) ws' S1) = S2"
  shows "(nego_step R)\<^sup>*\<^sup>* (S, P) (S2, P @ [Writing [], Writing []])"
proof -
  let ?b = "Continue_Negotiation clk nid q" and ?a = "Force_Accept clk' l nid n actor"
  let ?i = "length P" and ?j = "Suc (length P)"
  have "nego_step R (S, P) (S, P @ [Reading ?b v])"
    using v q by (intro nego_step.read_thread) (simp_all add: admissible_def)
  moreover have "nego_step R (S, P @ [Reading ?b v]) (S, (P @ [Reading ?b v]) @ [Reading ?a v])"
    using v q by (intro nego_step.read_thread) (simp_all add: admissible_def)
  moreover have "nego_step R (S, P @ [Reading ?b v, Reading ?a v]) (S, (P @ [Reading ?b v, Reading ?a v])[?i := Writing ws])"
    using buyer by (intro nego_step.decided [where q = ?b and t = v]) simp_all
  moreover have "nego_step R (S, P @ [Writing ws, Reading ?a v]) (S, (P @ [Writing ws, Reading ?a v])[?j := Writing ws'])"
    using admin by (intro nego_step.decided [where q = ?a and t = v]) (simp_all add: nth_append)
  ultimately have "(nego_step R)\<^sup>*\<^sup>* (S, P) (S, P @ [Writing ws, Writing ws'])"
    by (simp add: list_update_append)
  also have "(nego_step R)\<^sup>*\<^sup>* (S, P @ [Writing ws, Writing ws']) (S1, P @ [Writing [], Writing ws'])"
    using task_runs [of ?i "P @ [Writing ws, Writing ws']" ws R S] runs by (simp add: list_update_append)
  also have "(nego_step R)\<^sup>*\<^sup>* (S1, P @ [Writing [], Writing ws']) (S2, P @ [Writing [], Writing []])"
    using task_runs [of ?j "P @ [Writing [], Writing ws']" ws' R S1] runs by (simp add: list_update_append nth_append)
  finally show ?thesis .
qed

end
