(* ===== verification/Scalar_Policies.thy ===== *)
theory Scalar_Policies
  imports Negotiation_Rounds
begin

text \<open>
  The scalar negotiation policies, \<open>src/kit/policy/src/market_policy/scalar_policies.py\<close>, with the
  readers of settlement options they use (\<open>src/core/src/market_core/schemas.py\<close>): wire amounts,
  the shapes a proposal may have, and one definition per registered middleware.

  The Alkahest address book (\<open>address_to_slot\<close>) and the JSON reader are parameters
  (\<open>ne_slot\<close>, \<open>ne_loads\<close>).  Logging is left out.
\<close>

section \<open>Text and numbers\<close>

text \<open>\<open>str.isdigit()\<close> on code points below 256: the superscripts two, three and one are digits too.\<close>

definition py_isdigit :: "string \<Rightarrow> bool" where
  "py_isdigit s = (s \<noteq> [] \<and> list_all (\<lambda>c. is_digit c \<or> (of_char c :: nat) \<in> {178, 179, 185}) s)"

definition lower_latin1 :: "char \<Rightarrow> char" where
  "lower_latin1 c = (let n = (of_char c :: nat) in
     if (65 \<le> n \<and> n \<le> 90) \<or> (192 \<le> n \<and> n \<le> 222 \<and> n \<noteq> 215) then char_of (n + 32) else c)"

definition py_lower :: "string \<Rightarrow> string" where
  "py_lower s = map lower_latin1 s"

text \<open>Python refuses to convert between text and integers of more than 4300 digits.\<close>

definition INT_MAX_STR_DIGITS :: nat where "INT_MAX_STR_DIGITS = 4300"

definition digits_limit_error :: "nat \<Rightarrow> nego_error" where
  "digits_limit_error n = Value_Error (''Exceeds the limit (4300 digits) for integer string conversion: value has ''
     @ nat_str n @ '' digits; use sys.set_int_max_str_digits() to increase the limit'')"

definition int_literal_error :: "string \<Rightarrow> nego_error" where
  "int_literal_error s = Value_Error (''invalid literal for int() with base 10: '' @ repr_str s)"

text \<open>\<open>int(text)\<close> of text that \<open>isdigit\<close> accepts.\<close>

definition int_of_digits :: "string \<Rightarrow> (nego_error, int) result" where
  "int_of_digits s = (let n = length (takeWhile is_digit s) in
     if INT_MAX_STR_DIGITS < n then Raise (digits_limit_error n)
     else if n < length s then Raise (int_literal_error s)
     else Return (int (digits_val s)))"

text \<open>\<open>str(n)\<close> of a non-negative integer.\<close>

definition text_of_int :: "nat \<Rightarrow> (nego_error, string) result" where
  "text_of_int n = (let s = nat_str n in
     if INT_MAX_STR_DIGITS < length s then Raise (digits_limit_error (length s)) else Return s)"

fun type_name :: "pyval \<Rightarrow> string" where
  "type_name PNone = ''NoneType''"
| "type_name (PBool _) = ''bool''"
| "type_name (PInt _) = ''int''"
| "type_name (PFloat _) = ''float''"
| "type_name (PStr _) = ''str''"
| "type_name (PList _) = ''list''"
| "type_name (PDict _) = ''dict''"

text \<open>\<open>int(v)\<close>\<close>

definition py_int :: "pyval \<Rightarrow> (nego_error, int) result" where
  "py_int v = (case v of
     PBool b \<Rightarrow> Return (if b then 1 else 0)
   | PInt n \<Rightarrow> Return n
   | PFloat (FFin q) \<Rightarrow> Return (if 0 \<le> q then \<lfloor>q\<rfloor> else \<lceil>q\<rceil>)
   | PFloat (FInf _) \<Rightarrow> Raise Overflow_Error
   | PFloat FNaN \<Rightarrow> Raise (Value_Error ''cannot convert float NaN to integer'')
   | PStr s \<Rightarrow> (let n = length (filter is_digit s) in
        case py_int_text s of
          None \<Rightarrow> Raise (int_literal_error s)
        | Some z \<Rightarrow> if INT_MAX_STR_DIGITS < n then Raise (digits_limit_error n) else Return z)
   | _ \<Rightarrow> Raise (Type_Error (''int() argument must be a string, a bytes-like object or a real number, not ''
        @ repr_str (type_name v))))"

text \<open>\<open>for x in v\<close>, \<open>k in v\<close> and \<open>dict(v)\<close>.\<close>

definition py_iter :: "pyval \<Rightarrow> (nego_error, pyval list) result" where
  "py_iter v = (case v of
     PList xs \<Rightarrow> Return xs
   | PStr s \<Rightarrow> Return (map (\<lambda>c. PStr [c]) s)
   | PDict d \<Rightarrow> Return (map fst d)
   | _ \<Rightarrow> Raise (Type_Error (repr_str (type_name v) @ '' object is not iterable'')))"

definition py_in :: "string \<Rightarrow> pyval \<Rightarrow> (nego_error, bool) result" where
  "py_in k v = (case v of
     PDict d \<Rightarrow> Return (jhas d k)
   | PList xs \<Rightarrow> Return (list_ex (py_eq (PStr k)) xs)
   | PStr s \<Rightarrow> Return (infix_of k s)
   | _ \<Rightarrow> Raise (Type_Error (''argument of type '' @ repr_str (type_name v) @ '' is not iterable'')))"

definition item_pair :: "pyval \<Rightarrow> (nego_error, pyval \<times> pyval) result" where
  "item_pair v = res_bind (py_iter v) (\<lambda>xs. case xs of
     [k, w] \<Rightarrow> (case k of
        PList _ \<Rightarrow> Raise (Type_Error ''unhashable type'')
      | PDict _ \<Rightarrow> Raise (Type_Error ''unhashable type'')
      | _ \<Rightarrow> Return (k, w))
   | _ \<Rightarrow> Raise (Value_Error ''dictionary update sequence element has the wrong length''))"

definition py_dict :: "pyval \<Rightarrow> (nego_error, jobj) result" where
  "py_dict v = (case v of
     PDict d \<Rightarrow> Return d
   | _ \<Rightarrow> res_bind (py_iter v) (\<lambda>xs. res_bind (res_map item_pair xs) (\<lambda>ps.
       Return (fold (\<lambda>(k, w). dict_set k w) ps []))))"

section \<open>Wire amounts\<close>

definition parse_wire_amount :: "nego_env \<Rightarrow> pyval \<Rightarrow> (nego_error, int option) result" where
  "parse_wire_amount E raw = (case raw of
     PNone \<Rightarrow> Return None
   | PBool _ \<Rightarrow> Raise (Amount_Error ''amount must not be a boolean'')
   | PInt n \<Rightarrow> if n < 0 then Raise (Amount_Error ''amount must be non-negative'') else Return (Some n)
   | PFloat _ \<Rightarrow> Raise (Amount_Error ''amount must not be a floating-point value: uint256 amounts travel as decimal-digit strings and a float cannot hold them'')
   | PStr s \<Rightarrow> (let text = py_strip s in
        if text = [] then Return None
        else if \<not> py_isdigit text
        then Raise (Amount_Error (''amount must be a non-negative decimal-digit string, got '' @ repr_str s))
        else res_bind (int_of_digits text) (\<lambda>n. Return (Some n)))
   | _ \<Rightarrow> Raise (Amount_Error (''amount has no uint256 reading: '' @ reprv E raw)))"

definition format_wire_amount :: "nego_env \<Rightarrow> pyval \<Rightarrow> (nego_error, string) result" where
  "format_wire_amount E amount = (case amount of
     PInt n \<Rightarrow> if n < 0 then Raise (Amount_Error ''amount must be non-negative'') else text_of_int (nat n)
   | _ \<Rightarrow> Raise (Amount_Error (''wire amounts must be Python integers, got '' @ reprv E amount)))"

definition exact_amount :: "nego_env \<Rightarrow> string \<Rightarrow> pyval \<Rightarrow> (nego_error, int) result" where
  "exact_amount E label v = (case v of
     PBool _ \<Rightarrow> Raise (Amount_Error (label @ '' must not be a boolean''))
   | PInt n \<Rightarrow> Return n
   | PFloat f \<Rightarrow> (case f of
        FFin q \<Rightarrow> if of_int \<lfloor>q\<rfloor> = q then Return \<lfloor>q\<rfloor>
          else Raise (Amount_Error (label @ '' must be a whole number of base units, got '' @ reprv E v))
      | _ \<Rightarrow> Raise (Amount_Error (label @ '' must be a whole number of base units, got '' @ reprv E v)))
   | _ \<Rightarrow> res_bind (parse_wire_amount E v) (\<lambda>parsed. case parsed of
        None \<Rightarrow> Raise (Amount_Error (label @ '' is required''))
      | Some n \<Rightarrow> Return n))"

definition amount_from_proposal :: "nego_env \<Rightarrow> jobj option \<Rightarrow> (nego_error, int option) result" where
  "amount_from_proposal E proposal = (case proposal of
     None \<Rightarrow> Return None
   | Some p \<Rightarrow> (case or_empty (jget p ''fields'') of
        PDict fs \<Rightarrow> parse_wire_amount E (jget fs ''amount'')
      | _ \<Rightarrow> Return None))"

text \<open>The most recent amount of the other side: the transcript is read backwards.\<close>

fun first_amount :: "nego_env \<Rightarrow> nego_round list \<Rightarrow> (nego_error, int option) result" where
  "first_amount E [] = Return None"
| "first_amount E (r # rs) =
     (if nr_sender r = Them then res_bind (amount_from_proposal E (nr_proposal r)) (\<lambda>a.
        case a of Some n \<Rightarrow> Return (Some n) | None \<Rightarrow> first_amount E rs)
      else first_amount E rs)"

definition their_proposed_amount :: "nego_env \<Rightarrow> nego_round list \<Rightarrow> (nego_error, int option) result" where
  "their_proposed_amount E h = first_amount E (rev h)"

definition our_previous_counters :: "nego_env \<Rightarrow> nego_round list \<Rightarrow> (nego_error, int list) result" where
  "our_previous_counters E h = res_bind (res_map (\<lambda>r. amount_from_proposal E (nr_proposal r)) (our_counters h))
     (\<lambda>as. Return (List.map_filter id as))"

definition set_proposal_amount :: "nego_env \<Rightarrow> jobj \<Rightarrow> int \<Rightarrow> (nego_error, jobj) result" where
  "set_proposal_amount E proposal amount =
     res_bind (py_dict (or_empty (jget proposal ''fields''))) (\<lambda>fs.
     res_bind (format_wire_amount E (PInt amount)) (\<lambda>text.
       Return (jset ''fields'' (PDict (jset ''amount'' (PStr text) fs)) proposal)))"

section \<open>What a proposal or an option bargains\<close>

text \<open>Readers of settlement options, \<open>market_core/schemas.py\<close>.\<close>

definition settlement_envelope :: "jobj \<Rightarrow> jobj" where
  "settlement_envelope option = (case jget option ''settlement'' of PDict d \<Rightarrow> d | _ \<Rightarrow> [])"

definition settlement_option_schema :: "jobj \<Rightarrow> pyval" where
  "settlement_option_schema option = jget (settlement_envelope option) ''schema''"

definition settlement_option_rates :: "jobj \<Rightarrow> (nego_error, pyval list) result" where
  "settlement_option_rates option =
     (let rates = (case jget option ''price'' of PDict d \<Rightarrow> jget d ''rates'' | _ \<Rightarrow> PNone) in
      if py_truthy rates then py_iter rates else Return [])"

definition rate_field :: "pyval \<Rightarrow> pyval" where
  "rate_field r = (case r of PDict d \<Rightarrow> jget d ''field'' | _ \<Rightarrow> PNone)"

definition amount_rate :: "pyval list \<Rightarrow> bool" where
  "amount_rate rates = list_ex (\<lambda>r. rate_field r = PStr ''amount'') rates"

definition rates_of :: "jobj \<Rightarrow> (nego_error, pyval list) result" where
  "rates_of d = py_iter (if py_truthy (jget d ''rates'') then jget d ''rates'' else PList [])"

definition escrow_shape_uses_scalar_amount :: "jobj option \<Rightarrow> (nego_error, bool) result" where
  "escrow_shape_uses_scalar_amount proposal = (case proposal of
     None \<Rightarrow> Return False
   | Some p \<Rightarrow> (let fs = or_empty (jget p ''fields'') in
       res_bind (py_in ''amount'' fs) (\<lambda>amount. if amount then Return True else
       res_bind (py_in ''token'' fs) (\<lambda>token.
       res_bind (if token then py_in ''tokenId'' fs else Return False) (\<lambda>token_id.
       res_bind (if token \<and> \<not> token_id then py_in ''token_id'' fs else Return False) (\<lambda>token_id'.
         if token \<and> \<not> token_id \<and> \<not> token_id' then Return True
         else res_bind (rates_of p) (\<lambda>rates. Return (amount_rate rates))))))))"

definition loads_json_list :: "nego_env \<Rightarrow> pyval \<Rightarrow> pyval list" where
  "loads_json_list E v = (case v of
     PList xs \<Rightarrow> xs
   | PStr s \<Rightarrow> if py_strip s = [] then [] else (case ne_loads E s of Some (PList xs) \<Rightarrow> xs | _ \<Rightarrow> [])
   | _ \<Rightarrow> [])"

definition find_dict :: "(jobj \<Rightarrow> bool) \<Rightarrow> pyval list \<Rightarrow> jobj option" where
  "find_dict P xs = find P (List.map_filter as_dict xs)"

definition accepted_escrow_for_proposal :: "nego_env \<Rightarrow> jobj \<Rightarrow> jobj \<Rightarrow> jobj option" where
  "accepted_escrow_for_proposal E listing proposal = (case jget proposal ''escrow_address'' of
     PStr address \<Rightarrow> if address = [] then None else
       find_dict (\<lambda>entry. py_eq (jget entry ''chain_name'') (jget proposal ''chain_name'') \<and>
           (case jget entry ''escrow_address'' of PStr a \<Rightarrow> py_lower a = py_lower address | _ \<Rightarrow> False))
         (loads_json_list E (jget listing ''accepted_escrows''))
   | _ \<Rightarrow> None)"

definition settlement_option_for_selection :: "nego_env \<Rightarrow> jobj \<Rightarrow> jobj \<Rightarrow> (nego_error, jobj option) result" where
  "settlement_option_for_selection E listing proposal = (case jget proposal ''settlement_selection'' of
     PDict selection \<Rightarrow>
       res_bind (case map_of selection (PStr ''settlement'') of
           None \<Rightarrow> Return PNone | Some (PDict d) \<Rightarrow> Return (jget d ''schema'') | Some _ \<Rightarrow> Raise Attribute_Error) (\<lambda>mechanism.
         Return (find_dict (\<lambda>option. py_eq (jget option ''option_id'') (jget selection ''option_id'') \<and>
             py_eq (settlement_option_schema option) mechanism)
           (loads_json_list E (jget listing ''settlement_options''))))
   | _ \<Rightarrow> Return None)"

definition is_escrow_proposal :: "jobj option \<Rightarrow> bool" where
  "is_escrow_proposal proposal = (case proposal of
     None \<Rightarrow> False | Some p \<Rightarrow> jhas p ''chain_name'' \<or> jhas p ''escrow_address'')"

definition remove_0x :: "string \<Rightarrow> string" where
  "remove_0x s = (if take 2 s = ''0x'' then drop 2 s else s)"

definition escrow_contract_unpinned :: "jobj \<Rightarrow> bool" where
  "escrow_contract_unpinned proposal =
     (let digits = (case jget proposal ''escrow_address'' of PStr a \<Rightarrow> remove_0x (py_lower a) | _ \<Rightarrow> []) in
      list_all (\<lambda>c. c = CHR ''0'') digits)"

definition pinned_proposal :: "nego_round list \<Rightarrow> jobj option" where
  "pinned_proposal h = (case find (\<lambda>r. nr_sender r = Them) h of None \<Rightarrow> None | Some r \<Rightarrow> nr_proposal r)"

definition selected_settlement_artifact :: "nego_env \<Rightarrow> jobj \<Rightarrow> jobj option \<Rightarrow> (nego_error, jobj option) result" where
  "selected_settlement_artifact E listing proposal = (case proposal of
     None \<Rightarrow> Return None
   | Some p \<Rightarrow> if is_mapping (jget p ''settlement_selection'') then settlement_option_for_selection E listing p
       else Return (accepted_escrow_for_proposal E listing p))"

definition option_uses_scalar_amount :: "jobj option \<Rightarrow> (nego_error, bool) result" where
  "option_uses_scalar_amount option = (case option of
     None \<Rightarrow> Return True
   | Some d \<Rightarrow> res_bind (settlement_option_rates d) (\<lambda>rates. Return (amount_rate rates)))"

definition literal_amount :: "jobj \<Rightarrow> bool" where
  "literal_amount entry = (case or_empty (jget entry ''literal_fields'') of PDict d \<Rightarrow> jhas d ''amount'' | _ \<Rightarrow> False)"

definition proposal_requires_exact_amount :: "jobj \<Rightarrow> (nego_error, bool) result" where
  "proposal_requires_exact_amount matched =
     (if literal_amount matched then Return True else res_bind (rates_of matched) (\<lambda>rates. Return (amount_rate rates)))"

definition accepted_entry_uses_scalar_amount :: "jobj option \<Rightarrow> (nego_error, bool) result" where
  "accepted_entry_uses_scalar_amount entry = (case entry of
     None \<Rightarrow> Return True
   | Some d \<Rightarrow> if literal_amount d then Return True else res_bind (rates_of d) (\<lambda>rates. Return (amount_rate rates)))"

definition proposal_uses_scalar_amount :: "nego_env \<Rightarrow> jobj \<Rightarrow> jobj option \<Rightarrow> (nego_error, bool) result" where
  "proposal_uses_scalar_amount E listing proposal = (case proposal of
     None \<Rightarrow> Return True
   | Some p \<Rightarrow>
       if (case or_empty (jget p ''fields'') of PDict fs \<Rightarrow> jhas fs ''amount'' | _ \<Rightarrow> False) then Return True
       else if is_mapping (jget p ''settlement_selection'') then
         res_bind (settlement_option_for_selection E listing p) (\<lambda>matched.
           if matched = None then Return True else option_uses_scalar_amount matched)
       else accepted_entry_uses_scalar_amount (accepted_escrow_for_proposal E listing p))"

definition selects_scalar_option :: "nego_env \<Rightarrow> jobj \<Rightarrow> jobj \<Rightarrow> (nego_error, bool) result" where
  "selects_scalar_option E listing proposal =
     (if \<not> is_mapping (jget proposal ''settlement_selection'') then Return False
      else res_bind (settlement_option_for_selection E listing proposal) (\<lambda>option.
        if option = None then Return False else option_uses_scalar_amount option))"

section \<open>Openings\<close>

definition opening_amount :: "nego_env \<Rightarrow> nego_context \<Rightarrow> (nego_error, int) result" where
  "opening_amount E c = exact_amount E ''our_opening_amount'' (if nc_opening c \<noteq> PNone then nc_opening c else nc_reference c)"

definition opening_proposal :: "nego_env \<Rightarrow> nego_context \<Rightarrow> (nego_error, jobj) result" where
  "opening_proposal E c =
     (let base = (case nc_proposal c of None \<Rightarrow> [] | Some p \<Rightarrow> p) in
      res_bind (escrow_shape_uses_scalar_amount (Some base)) (\<lambda>shape.
      res_bind (if shape then Return True else selects_scalar_option E (nc_listing c) base) (\<lambda>scalar.
        if scalar then res_bind (opening_amount E c) (set_proposal_amount E base) else Return base)))"

section \<open>Deciders\<close>

text \<open>The integer ratios of the bounds: convergence 1.01, shortfall 0.99, reasonable 1.5.\<close>

definition CONVERGENCE_NUM :: int where "CONVERGENCE_NUM = 101"
definition CONVERGENCE_DEN :: int where "CONVERGENCE_DEN = 100"
definition SHORTFALL_NUM :: int where "SHORTFALL_NUM = 99"
definition SHORTFALL_DEN :: int where "SHORTFALL_DEN = 100"
definition REASONABLE_NUM :: int where "REASONABLE_NUM = 3"
definition REASONABLE_DEN :: int where "REASONABLE_DEN = 2"

definition last_two_equal :: "int list \<Rightarrow> bool" where
  "last_two_equal xs = (case rev xs of a # b # _ \<Rightarrow> a = b | _ \<Rightarrow> False)"

definition conclude_at :: "nego_env \<Rightarrow> nego_context \<Rightarrow> string \<Rightarrow> jobj \<Rightarrow> int \<Rightarrow> string option \<Rightarrow>
    (nego_error, nego_decision option \<times> nego_context) result" where
  "conclude_at E c action skeleton amount reason =
     res_bind (set_proposal_amount E skeleton amount) (\<lambda>p. conclude c action (Some p) reason)"

definition bisection :: "nego_env \<Rightarrow> middleware" where
  "bisection E h c =
     res_bind (our_previous_counters E h) (\<lambda>counters.
     if nc_max_rounds c \<le> int (length counters) then conclude c ''exit'' None (Some ''max_rounds'')
     else if last_two_equal counters then conclude c ''exit'' None (Some ''stale_negotiation'')
     else
     res_bind (exact_amount E ''our_reference_amount'' (nc_reference c)) (\<lambda>ours.
     res_bind (their_proposed_amount E h) (\<lambda>theirs_opt. case theirs_opt of
       None \<Rightarrow> res_bind (opening_proposal E c) (\<lambda>p. conclude c ''counter'' (Some p) None)
     | Some theirs \<Rightarrow>
         let skeleton = (case their_last_proposal h of
               Some (x # xs) \<Rightarrow> x # xs
             | _ \<Rightarrow> (case nc_proposal c of None \<Rightarrow> [] | Some p \<Rightarrow> p)) in
         if nc_direction c = ''minimize'' then
           if theirs * CONVERGENCE_DEN \<le> ours * CONVERGENCE_NUM
           then conclude_at E c ''accept'' skeleton theirs (Some ''convergence'')
           else if theirs * REASONABLE_DEN \<le> ours * REASONABLE_NUM
           then conclude_at E c ''counter'' skeleton (min ((ours + theirs) div 2) ours) None
           else conclude c ''exit'' None (Some ''price_unreasonable'')
         else if nc_direction c = ''maximize'' then
           if ours * SHORTFALL_NUM \<le> theirs * SHORTFALL_DEN
           then conclude_at E c ''accept'' skeleton theirs (Some ''convergence'')
           else if ours * REASONABLE_DEN \<le> theirs * REASONABLE_NUM
           then conclude_at E c ''counter'' skeleton ((ours + theirs) div 2) None
           else conclude c ''exit'' None (Some ''price_unreasonable'')
         else reject c (''unknown_direction:'' @ repr_str (nc_direction c)))))"

definition listed_price :: "nego_env \<Rightarrow> middleware" where
  "listed_price E h c = (case their_last_proposal h of
     None \<Rightarrow> res_bind (opening_proposal E c) (\<lambda>p. conclude c ''counter'' (Some p) None)
   | Some p \<Rightarrow> res_bind (their_proposed_amount E h) (\<lambda>theirs_opt. case theirs_opt of
       None \<Rightarrow> conclude c ''accept'' (Some p) (Some ''listed_price_amountless'')
     | Some theirs \<Rightarrow> res_bind (exact_amount E ''our_reference_amount'' (nc_reference c)) (\<lambda>bound.
         if (if nc_direction c = ''minimize'' then theirs \<le> bound else bound \<le> theirs)
         then conclude_at E c ''accept'' p theirs (Some ''listed_price'')
         else conclude c ''exit'' None (Some ''price_above_bound''))))"

section \<open>Dispatch by escrow kind\<close>

definition proposal_escrow_kind :: "nego_env \<Rightarrow> (string \<times> string option) list \<Rightarrow> jobj option \<Rightarrow> string option" where
  "proposal_escrow_kind E chain_config_paths proposal = (case proposal of
     None \<Rightarrow> None
   | Some p \<Rightarrow> (case (jget p ''chain_name'', jget p ''escrow_address'') of
        (PStr chain, PStr address) \<Rightarrow>
          if chain = [] \<or> address = [] then None
          else ne_slot E chain address (case map_of chain_config_paths chain of None \<Rightarrow> None | Some path \<Rightarrow> path)
      | _ \<Rightarrow> None))"

definition ESCROW_KIND_PREFIXES :: "string list" where
  "ESCROW_KIND_PREFIXES = [''erc20'', ''native_token'', ''erc1155'', ''erc721'', ''token_bundle'', ''attestation'']"

definition escrow_kind_lookup_keys :: "string \<Rightarrow> string list" where
  "escrow_kind_lookup_keys kind =
     fold (\<lambda>key out. if key \<in> set out then out else out @ [key])
       ([kind] @ (case find (\<lambda>prefix. take (length prefix) kind = prefix) ESCROW_KIND_PREFIXES of None \<Rightarrow> [] | Some p \<Rightarrow> [p])
        @ [''default'']) []"

definition normalized_policies :: "(string \<times> string list) list \<Rightarrow> (string \<times> string list) list" where
  "normalized_policies policies_by_kind = fold (\<lambda>(kind, chain) out.
       if py_strip kind = [] then out
       else dict_set (py_strip kind) (filter (\<lambda>n. n \<noteq> []) (map py_strip chain)) out) policies_by_kind []"

text \<open>The first key of the kind that has a chain; \<open>load\<close> resolves its names.\<close>

fun chain_for :: "(string list \<Rightarrow> (nego_error, middleware list) result) \<Rightarrow> (string \<times> string list) list \<Rightarrow> string list \<Rightarrow>
    (nego_error, (string \<times> middleware list) option) result" where
  "chain_for load policies [] = Return None"
| "chain_for load policies (key # keys) = (case map_of policies key of
     None \<Rightarrow> chain_for load policies keys
   | Some names \<Rightarrow>
       if names = [] then chain_for load policies keys
       else if ''escrow_kind_dispatch'' \<in> set names
       then Raise (Runtime_Error ''escrow_kind_dispatch cannot dispatch to itself'')
       else res_bind (load names) (\<lambda>chain. Return (Some (key, chain))))"

definition escrow_kind_dispatch ::
    "nego_env \<Rightarrow> (string list \<Rightarrow> (nego_error, middleware list) result) \<Rightarrow> (string \<times> string list) list \<Rightarrow>
     (string \<times> string option) list \<Rightarrow> middleware" where
  "escrow_kind_dispatch E load policies_by_kind chain_config_paths h c =
     (let proposal = (case their_last_proposal h of Some (x # xs) \<Rightarrow> Some (x # xs) | _ \<Rightarrow> nc_proposal c) in
      case proposal_escrow_kind E chain_config_paths proposal of
        None \<Rightarrow> reject c ''escrow_kind_dispatch:unknown_escrow_kind''
      | Some kind \<Rightarrow>
          if kind = [] then reject c ''escrow_kind_dispatch:unknown_escrow_kind''
          else res_bind (chain_for load (normalized_policies policies_by_kind) (escrow_kind_lookup_keys kind)) (\<lambda>selected.
            case selected of
              None \<Rightarrow> reject c (''escrow_kind_dispatch:no_policy_for:'' @ kind)
            | Some (key, chain) \<Rightarrow>
                let c' = note_in ''escrow_kind_policy_key'' (PStr key) (note_in ''escrow_kind'' (PStr kind) c) in
                res_bind (run_chain_with_context chain h c') (\<lambda>(d, c''). Return (Some d, c''))))"

section \<open>Normal forms compared by the guards\<close>

definition normalize_escrow_field :: "pyval \<Rightarrow> pyval" where
  "normalize_escrow_field v = (case v of
     PStr s \<Rightarrow> if take 2 s = ''0x'' \<and> length s = 42 then PStr (py_lower s) else v
   | _ \<Rightarrow> v)"

lemma res_map_cong [fundef_cong]:
  assumes "xs = ys" "\<And>x. x \<in> set ys \<Longrightarrow> f x = g x"
  shows "res_map f xs = res_map g ys"
proof -
  have "res_map f ys = res_map g ys" using assms(2) by (induction ys) auto
  with assms(1) show ?thesis by simp
qed

definition key_text :: "pyval \<times> pyval \<Rightarrow> string" where
  "key_text p = (case fst p of PStr s \<Rightarrow> s | _ \<Rightarrow> [])"

lemma size_item: "p \<in> set d \<Longrightarrow> size (snd p) < Suc (size_list (size_prod size size) d)"
proof (induction d)
  case (Cons q d)
  then show ?case by (cases q) auto
qed simp

text \<open>Keys are sorted as text; a JSON object has no others.\<close>

function normalize_exact_value :: "pyval \<Rightarrow> (nego_error, pyval) result" where
  "normalize_exact_value v = (case v of
     PDict d \<Rightarrow>
       if list_all (\<lambda>p. is_str (fst p)) d
       then res_bind (res_map (\<lambda>p. res_bind (normalize_exact_value (snd p)) (\<lambda>w. Return (fst p, w))) (sort_key key_text d))
         (\<lambda>d'. Return (PDict d'))
       else Raise (Type_Error ''keys are not text'')
   | PList xs \<Rightarrow> res_bind (res_map normalize_exact_value xs) (\<lambda>ys. Return (PList ys))
   | PStr s \<Rightarrow> (let stripped = py_strip s in
        if take 2 stripped = ''0x'' then Return (PStr (py_lower stripped))
        else if py_isdigit stripped then res_bind (int_of_digits stripped) (\<lambda>n. Return (PInt n))
        else Return v)
   | _ \<Rightarrow> Return v)"
  by pat_completeness auto

termination
  by (relation "measure size") (auto dest: size_item simp: less_Suc_eq_le size_list_estimation')

declare normalize_exact_value.simps [simp del]

definition normalize_rate :: "pyval \<Rightarrow> (nego_error, pyval) result" where
  "normalize_rate v =
     (let d = (case v of PDict d \<Rightarrow> d | _ \<Rightarrow> []) in
      if jget d ''field'' = PNone \<or> jget d ''value'' = PNone then Raise (Value_Error ''rate requires field and value'')
      else res_bind (py_int (jget d ''value'')) (\<lambda>n. Return (PDict [(PStr ''field'', jget d ''field''),
        (PStr ''per'', if jhas d ''per'' then jget d ''per'' else PStr ''hour''), (PStr ''value'', PInt n)])))"

definition normalize_demands_for_chain :: "nego_env \<Rightarrow> pyval \<Rightarrow> pyval \<Rightarrow> (nego_error, pyval list) result" where
  "normalize_demands_for_chain E demands chain_name =
     res_map normalize_exact_value (filter (\<lambda>v. case v of
         PDict d \<Rightarrow> \<not> (py_truthy (jget d ''chain_name'') \<and> \<not> py_eq (jget d ''chain_name'') chain_name)
       | _ \<Rightarrow> False) (loads_json_list E demands))"

definition normalize_selected_demand :: "nego_env \<Rightarrow> jobj \<Rightarrow> (nego_error, pyval) result" where
  "normalize_selected_demand E proposal = (case jget proposal ''demand'' of
     PDict d \<Rightarrow> normalize_exact_value (PDict d)
   | _ \<Rightarrow>
       if jget proposal ''demands'' = PNone then Return PNone
       else (case loads_json_list E (jget proposal ''demands'') of
           [] \<Rightarrow> Return PNone
         | [x] \<Rightarrow> (case x of PDict d \<Rightarrow> normalize_exact_value x | _ \<Rightarrow> Return PNone)
         | _ \<Rightarrow> Raise (Value_Error ''deprecated proposal demands[] may contain at most one selected demand'')))"

text \<open>\<open>try: \<dots> except ValueError\<close>: the handler gets the text of the error, another error is raised on.\<close>

definition catching :: "('e \<Rightarrow> string option) \<Rightarrow> ('e, 'a) result \<Rightarrow> (string \<Rightarrow> ('e, 'b) result) \<Rightarrow> ('a \<Rightarrow> ('e, 'b) result) \<Rightarrow> ('e, 'b) result" where
  "catching caught r handler k = (case r of
     Inr x \<Rightarrow> k x
   | Inl e \<Rightarrow> (case caught e of Some m \<Rightarrow> handler m | None \<Rightarrow> Raise e))"

fun value_or_type_error :: "nego_error \<Rightarrow> string option" where
  "value_or_type_error (Type_Error m) = Some m"
| "value_or_type_error e = value_error e"

section \<open>The guards\<close>

definition buyer_counter_guard :: "nego_env \<Rightarrow> middleware" where
  "buyer_counter_guard E h c =
     (if h = [] then pass c
      else let latest = last h in
      if nr_sender latest \<noteq> Them \<or> nr_action latest \<noteq> ''counter'' then pass c
      else
        let pinned = nc_proposal c; proposal = nr_proposal latest;
            for_scalar = (case proposal of Some (x # xs) \<Rightarrow> Some (x # xs) | _ \<Rightarrow> pinned) in
        res_bind (proposal_uses_scalar_amount E (nc_listing c)
            (case pinned_proposal h of Some p \<Rightarrow> Some p | None \<Rightarrow> for_scalar)) (\<lambda>scalar.
        let c1 = note_in ''uses_scalar_amount'' (PBool scalar) c in
        res_bind (amount_from_proposal E for_scalar) (\<lambda>raw.
        if raw = None \<and> scalar then reject c1 ''counter_missing_amount''
        else
          let amount = (case raw of None \<Rightarrow> 0 | Some n \<Rightarrow> n); c2 = note_in ''buyer_amount'' (PInt amount) c1 in
          if scalar then
            res_bind (set_proposal_amount E (case pinned of Some p \<Rightarrow> p | None \<Rightarrow> (case proposal of Some p \<Rightarrow> p | None \<Rightarrow> [])) amount)
              (\<lambda>p. pass (note_in ''buyer_counter_proposal'' (PDict p) c2))
          else (case proposal of
              Some p \<Rightarrow> pass (note_in ''buyer_counter_proposal'' (PDict p) c2)
            | None \<Rightarrow> (case pinned of
                 Some p \<Rightarrow> pass (note_in ''buyer_counter_proposal'' (PDict p) c2)
               | None \<Rightarrow> pass c2)))))"

text \<open>The first literal field of the listing's entry that the proposal does not repeat.\<close>

definition lookup_in :: "pyval \<Rightarrow> pyval \<Rightarrow> pyval" where
  "lookup_in v key = (case v of PDict d \<Rightarrow> (case map_of d key of None \<Rightarrow> PNone | Some w \<Rightarrow> w) | _ \<Rightarrow> PNone)"

definition literal_mismatch :: "pyval \<Rightarrow> jobj \<Rightarrow> (pyval \<times> pyval) option" where
  "literal_mismatch proposed required = find (\<lambda>(key, required_value).
     \<not> py_eq (normalize_escrow_field (lookup_in proposed key)) (normalize_escrow_field required_value)) required"

definition escrow_shape_guard :: "nego_env \<Rightarrow> middleware" where
  "escrow_shape_guard E h c = (case their_last_proposal h of
     None \<Rightarrow> pass c
   | Some p \<Rightarrow>
       if \<not> is_escrow_proposal (Some p) then pass c
       else if escrow_contract_unpinned p
       then reject c (''escrow_contract_unpinned: the escrow proposal names no escrow contract on chain '' @ reprv E (jget p ''chain_name''))
       else (case accepted_escrow_for_proposal E (nc_listing c) p of
           None \<Rightarrow> reject c (''escrow_not_in_accepted_set: (chain='' @ reprv E (jget p ''chain_name'') @ '', address=''
             @ reprv E (jget p ''escrow_address'') @ '') not in listing's accepted_escrows'')
         | Some matched \<Rightarrow> (case or_empty (jget matched ''literal_fields'') of
              PDict required \<Rightarrow> (case literal_mismatch (or_empty (jget p ''literal_fields'')) required of
                 Some (key, required_value) \<Rightarrow> reject c (''escrow_field_mismatch: field '' @ reprv E key @ '' - buyer proposed ''
                   @ reprv E (lookup_in (or_empty (jget p ''literal_fields'')) key) @ '', listing requires '' @ reprv E required_value)
               | None \<Rightarrow>
                   res_bind (normalize_demands_for_chain E (jget (nc_listing c) ''demands'') (jget p ''chain_name'')) (\<lambda>demands.
                   if demands = [] then reject c (''release_condition_not_advertised: the listing advertises no release condition on chain ''
                     @ reprv E (jget p ''chain_name''))
                   else catching value_error (normalize_selected_demand E p)
                     (\<lambda>m. reject c (''invalid_selected_demand:'' @ m))
                     (\<lambda>selected. if list_ex (py_eq selected) demands then pass c
                       else reject c (''selected_demand_not_allowed:'' @ reprv E selected @ '' not in '' @ reprv E (PList demands)))))
            | _ \<Rightarrow> pass c)))"

definition accept_unpriced_selection :: "nego_env \<Rightarrow> middleware" where
  "accept_unpriced_selection E h c = (case pinned_proposal h of
     None \<Rightarrow> pass c
   | Some opening \<Rightarrow>
       if \<not> is_mapping (jget opening ''settlement_selection'') then pass c
       else res_bind (settlement_option_for_selection E (nc_listing c) opening) (\<lambda>option.
         if option = None then pass c
         else res_bind (option_uses_scalar_amount option) (\<lambda>scalar.
           if scalar then pass c else conclude c ''accept'' (Some opening) (Some ''unpriced_selection''))))"

definition amount_mismatch :: "nego_env \<Rightarrow> int option \<Rightarrow> int \<Rightarrow> string" where
  "amount_mismatch E proposed expected = ''exact_listing:amount_mismatch:''
     @ (case proposed of None \<Rightarrow> ''None'' | Some n \<Rightarrow> int_str n) @ ''!='' @ int_str expected"

text \<open>A selection is judged and accepted as the peer's opening made it.\<close>

definition accept_exact_selection :: "nego_env \<Rightarrow> jobj \<Rightarrow> jobj \<Rightarrow> nego_context \<Rightarrow> (nego_error, nego_decision option \<times> nego_context) result" where
  "accept_exact_selection E proposal basis c =
     res_bind (settlement_option_for_selection E (nc_listing c) basis) (\<lambda>option.
     if option = None then reject c ''exact_listing:selection_not_in_options''
     else res_bind (option_uses_scalar_amount option) (\<lambda>scalar.
       if scalar then
         res_bind (exact_amount E ''our_reference_amount'' (nc_reference c)) (\<lambda>expected.
         res_bind (amount_from_proposal E (Some proposal)) (\<lambda>proposed.
           if proposed \<noteq> Some expected then reject c (amount_mismatch E proposed expected)
           else conclude_at E c ''accept'' basis expected (Some ''exact_listing'')))
       else conclude c ''accept'' (Some basis) (Some ''exact_listing'')))"

text \<open>The first field of the proposal that is not the listing's literal.\<close>

fun field_mismatch :: "nego_env \<Rightarrow> bool \<Rightarrow> pyval \<Rightarrow> jobj \<Rightarrow> (nego_error, string option) result" where
  "field_mismatch E requires_amount expected_literal [] = Return None"
| "field_mismatch E requires_amount expected_literal ((key, v) # fs) =
     (if key = PStr ''amount'' \<and> requires_amount then field_mismatch E requires_amount expected_literal fs
      else res_bind (normalize_exact_value v) (\<lambda>actual.
        if py_eq actual (lookup_in expected_literal key) then field_mismatch E requires_amount expected_literal fs
        else Return (Some (''exact_listing:field_mismatch:'' @ reprv E key @ '':'' @ reprv E actual @ ''!=''
          @ reprv E (lookup_in expected_literal key)))))"

definition normalized_rates :: "jobj \<Rightarrow> (nego_error, pyval list) result" where
  "normalized_rates d = res_bind (rates_of d) (res_map normalize_rate)"

definition accept_exact_escrow :: "nego_env \<Rightarrow> jobj \<Rightarrow> nego_context \<Rightarrow> (nego_error, nego_decision option \<times> nego_context) result" where
  "accept_exact_escrow E p c = (case accepted_escrow_for_proposal E (nc_listing c) p of
     None \<Rightarrow> reject c ''exact_listing:escrow_not_in_accepted_set''
   | Some matched \<Rightarrow>
       res_bind (normalize_exact_value (or_empty (jget matched ''literal_fields''))) (\<lambda>expected_literal.
       res_bind (normalize_exact_value (or_empty (jget p ''literal_fields''))) (\<lambda>literal.
       if \<not> py_eq literal expected_literal
       then reject c (''exact_listing:literal_fields_mismatch:'' @ reprv E literal @ ''!='' @ reprv E expected_literal)
       else (case or_empty (jget p ''fields'') of
         PDict fs \<Rightarrow>
           res_bind (exact_amount E ''our_reference_amount'' (nc_reference c)) (\<lambda>expected.
           res_bind (proposal_requires_exact_amount matched) (\<lambda>requires_amount.
           res_bind (if requires_amount then amount_from_proposal E (Some p) else Return (Some expected)) (\<lambda>proposed.
           if proposed \<noteq> Some expected then reject c (amount_mismatch E proposed expected)
           else if fs \<noteq> [] \<and> \<not> is_mapping expected_literal \<and> \<not> (requires_amount \<and> list_all (\<lambda>x. fst x = PStr ''amount'') fs)
           then Raise Attribute_Error
           else res_bind (field_mismatch E requires_amount expected_literal fs) (\<lambda>mismatch. case mismatch of
             Some m \<Rightarrow> reject c m
           | None \<Rightarrow>
               catching value_or_type_error (res_bind (normalized_rates matched) (\<lambda>a. res_bind (normalized_rates p) (\<lambda>b. Return (a, b))))
                 (\<lambda>m. reject c (''exact_listing:invalid_rates:'' @ m))
                 (\<lambda>(expected_rates, rates).
               if \<not> py_eq (PList rates) (PList expected_rates)
               then reject c (''exact_listing:rates_mismatch:'' @ reprv E (PList rates) @ ''!='' @ reprv E (PList expected_rates))
               else
               res_bind (normalize_demands_for_chain E (jget (nc_listing c) ''demands'') (jget p ''chain_name'')) (\<lambda>demands.
               catching value_error (normalize_selected_demand E p)
                 (\<lambda>m. reject c (''exact_listing:invalid_selected_demand:'' @ m))
                 (\<lambda>selected.
               if demands = [] then reject c ''exact_listing:release_condition_not_advertised''
               else if \<not> list_ex (py_eq selected) demands
               then reject c (''exact_listing:demands_mismatch:'' @ reprv E selected @ '' not in '' @ reprv E (PList demands))
               else if requires_amount then conclude_at E c ''accept'' p expected (Some ''exact_listing'')
               else conclude c ''accept'' (Some p) (Some ''exact_listing''))))))))
       | _ \<Rightarrow> reject c ''exact_listing:fields_not_object''))))"

definition accept_exact_listing :: "nego_env \<Rightarrow> middleware" where
  "accept_exact_listing E h c = (case their_last_proposal h of
     None \<Rightarrow> (case nc_proposal c of
        Some p \<Rightarrow> conclude c ''counter'' (Some p) None
      | None \<Rightarrow> reject c ''exact_listing:no_proposal'')
   | Some p \<Rightarrow>
       let basis = (case pinned_proposal h of Some opening \<Rightarrow> opening | None \<Rightarrow> p) in
       if is_mapping (jget basis ''settlement_selection'') then accept_exact_selection E p basis c
       else accept_exact_escrow E p c)"

text \<open>\<open>(v or \<open>""\<close>).lower()\<close>\<close>

definition lower_or_empty :: "pyval \<Rightarrow> (nego_error, string) result" where
  "lower_or_empty v = (if \<not> py_truthy v then Return [] else case v of PStr s \<Rightarrow> Return (py_lower s) | _ \<Rightarrow> Raise Attribute_Error)"

definition pinned_field_mismatch :: "pyval \<Rightarrow> jobj \<Rightarrow> (pyval \<times> pyval) option" where
  "pinned_field_mismatch theirs pinned = find (\<lambda>(key, pinned_value). key \<noteq> PStr ''amount'' \<and>
     \<not> py_eq (normalize_escrow_field pinned_value) (normalize_escrow_field (lookup_in theirs key))) pinned"

definition selection_changed :: "jobj \<Rightarrow> jobj \<Rightarrow> (nego_error, bool) result" where
  "selection_changed pinned theirs =
     (let a = jget pinned ''settlement_selection''; b = jget theirs ''settlement_selection'' in
      if a = PNone \<and> b = PNone then Return False
      else res_bind (normalize_exact_value a) (\<lambda>x. res_bind (normalize_exact_value b) (\<lambda>y. Return (\<not> py_eq x y))))"

definition expiration_changed :: "jobj \<Rightarrow> jobj \<Rightarrow> (nego_error, bool) result" where
  "expiration_changed pinned theirs =
     (let a = jget pinned ''expiration_unix''; b = jget theirs ''expiration_unix'' in
      if a = PNone \<or> b = PNone then Return False
      else res_bind (py_int a) (\<lambda>x. res_bind (py_int b) (\<lambda>y. Return (x \<noteq> y))))"

definition buyer_escrow_shape_guard :: "nego_env \<Rightarrow> middleware" where
  "buyer_escrow_shape_guard E h c = (case (their_last_proposal h, nc_proposal c) of
     (Some theirs, Some pinned) \<Rightarrow>
       res_bind (selection_changed pinned theirs) (\<lambda>changed.
       if changed then reject c ''settlement_selection_changed''
       else if \<not> py_eq (jget pinned ''chain_name'') (jget theirs ''chain_name'')
       then reject c (''chain_name_changed:'' @ reprv E (jget pinned ''chain_name'') @ ''->'' @ reprv E (jget theirs ''chain_name''))
       else
       res_bind (lower_or_empty (jget pinned ''escrow_address'')) (\<lambda>pinned_address.
       res_bind (lower_or_empty (jget theirs ''escrow_address'')) (\<lambda>their_address.
       if pinned_address \<noteq> [] \<and> their_address \<noteq> [] \<and> pinned_address \<noteq> their_address
       then reject c (''escrow_address_changed:'' @ reprv E (jget pinned ''escrow_address'') @ ''->'' @ reprv E (jget theirs ''escrow_address''))
       else
       res_bind (expiration_changed pinned theirs) (\<lambda>expiration.
       if expiration
       then reject c (''expiration_unix_changed:'' @ py_str (ne_frepr E) (jget pinned ''expiration_unix'') @ ''->''
         @ py_str (ne_frepr E) (jget theirs ''expiration_unix''))
       else (case or_empty (jget pinned ''fields'') of
         PDict fs \<Rightarrow>
           (let their_fields = or_empty (jget theirs ''fields'') in
            case pinned_field_mismatch their_fields fs of
              Some (key, v) \<Rightarrow> reject c (''escrow_field_changed:'' @ reprv E key @ '':'' @ reprv E v @ ''->'' @ reprv E (lookup_in their_fields key))
            | None \<Rightarrow>
                catching value_error (res_bind (normalize_selected_demand E pinned) (\<lambda>a.
                    res_bind (normalize_selected_demand E theirs) (\<lambda>b. Return (a, b))))
                  (\<lambda>m. reject c (''invalid_selected_demand:'' @ m))
                  (\<lambda>(a, b). if py_eq a b then pass c else reject c (''demand_changed:'' @ reprv E a @ ''->'' @ reprv E b)))
       | _ \<Rightarrow> Raise Attribute_Error)))))
   | _ \<Rightarrow> pass c)"

section \<open>The registered middlewares\<close>

definition builtin_middlewares :: "nego_env \<Rightarrow> registry" where
  "builtin_middlewares E =
     [(''max_rounds_guard'', max_rounds_guard), (''has_matching_inventory_guard'', has_matching_inventory_guard),
      (''bisection'', bisection E), (''erc1155_bisection'', bisection E), (''native_token_bisection'', bisection E),
      (''erc20_bisection'', bisection E), (''listed_price'', listed_price E), (''buyer_counter_guard'', buyer_counter_guard E),
      (''escrow_shape_guard'', escrow_shape_guard E), (''accept_unpriced_selection'', accept_unpriced_selection E),
      (''accept_exact_listing'', accept_exact_listing E), (''buyer_escrow_shape_guard'', buyer_escrow_shape_guard E)]"

section \<open>What the guards let pass\<close>

lemma catching_Inr_iff:
  "catching caught r handler k = Inr y \<longleftrightarrow>
     (\<exists>x. r = Inr x \<and> k x = Inr y) \<or> (\<exists>e m. r = Inl e \<and> caught e = Some m \<and> handler m = Inr y)"
  by (auto simp: catching_def split: sum.splits option.splits)

lemmas step_splits = option.splits if_splits prod.splits list.splits pyval.splits

lemma vetoing_buyer_counter_guard: "vetoing same_frame (buyer_counter_guard E)"
  by (rule vetoingI) (auto simp: buyer_counter_guard_def Let_def res_bind_Inr_iff split: step_splits)

lemma vetoing_escrow_shape_guard: "vetoing same_frame (escrow_shape_guard E)"
  by (rule vetoingI) (auto simp: escrow_shape_guard_def Let_def res_bind_Inr_iff catching_Inr_iff split: step_splits)

lemma vetoing_buyer_escrow_shape_guard: "vetoing same_frame (buyer_escrow_shape_guard E)"
  by (rule vetoingI) (auto simp: buyer_escrow_shape_guard_def Let_def res_bind_Inr_iff catching_Inr_iff split: step_splits)

text \<open>The release condition a proposal selects is one the listing advertises on its chain.\<close>

definition demand_advertised :: "nego_env \<Rightarrow> jobj \<Rightarrow> jobj \<Rightarrow> bool" where
  "demand_advertised E listing p = (\<exists>demands selected.
     normalize_demands_for_chain E (jget listing ''demands'') (jget p ''chain_name'') = Return demands \<and>
     normalize_selected_demand E p = Return selected \<and> list_ex (py_eq selected) demands)"

text \<open>An escrow proposal names a contract the listing accepts, repeats its literal fields and
  selects an advertised release condition.  An entry whose literal fields are not an object is
  let through unchecked.\<close>

definition escrow_admitted :: "nego_env \<Rightarrow> jobj \<Rightarrow> jobj \<Rightarrow> bool" where
  "escrow_admitted E listing p =
     (\<not> escrow_contract_unpinned p \<and>
      (\<exists>entry. accepted_escrow_for_proposal E listing p = Some entry \<and>
         (\<forall>required. or_empty (jget entry ''literal_fields'') = PDict required \<longrightarrow>
            literal_mismatch (or_empty (jget p ''literal_fields'')) required = None \<and> demand_advertised E listing p)))"

definition latest_escrow_admitted :: "nego_env \<Rightarrow> nego_round list \<Rightarrow> nego_context \<Rightarrow> bool" where
  "latest_escrow_admitted E h c = (\<forall>p. their_last_proposal h = Some p \<longrightarrow> is_escrow_proposal (Some p) \<longrightarrow>
     escrow_admitted E (nc_listing c) p)"

lemma escrow_shape_guard_passes: "escrow_shape_guard E h c = Return (None, c') \<Longrightarrow> latest_escrow_admitted E h c"
  by (auto simp: escrow_shape_guard_def latest_escrow_admitted_def escrow_admitted_def demand_advertised_def
      res_bind_Inr_iff catching_Inr_iff split: step_splits)

interpretation escrow_shape: veto same_frame "escrow_shape_guard E" "latest_escrow_admitted E" for E
  by unfold_locales
    (auto simp: vetoing_escrow_shape_guard latest_escrow_admitted_def escrow_shape_guard_passes[unfolded latest_escrow_admitted_def]
      dest: same_frameD)

text \<open>What the seller may not change of the proposal the buyer pinned.\<close>

definition pinned_kept :: "nego_env \<Rightarrow> jobj \<Rightarrow> jobj \<Rightarrow> bool" where
  "pinned_kept E pinned theirs =
     (selection_changed pinned theirs = Return False \<and>
      py_eq (jget pinned ''chain_name'') (jget theirs ''chain_name'') \<and>
      (\<exists>a b. lower_or_empty (jget pinned ''escrow_address'') = Return a \<and>
         lower_or_empty (jget theirs ''escrow_address'') = Return b \<and> (a = [] \<or> b = [] \<or> a = b)) \<and>
      expiration_changed pinned theirs = Return False \<and>
      (\<exists>fs. or_empty (jget pinned ''fields'') = PDict fs \<and> pinned_field_mismatch (or_empty (jget theirs ''fields'')) fs = None) \<and>
      (\<exists>a b. normalize_selected_demand E pinned = Return a \<and> normalize_selected_demand E theirs = Return b \<and> py_eq a b))"

definition seller_keeps_pinned :: "nego_env \<Rightarrow> nego_round list \<Rightarrow> nego_context \<Rightarrow> bool" where
  "seller_keeps_pinned E h c = (\<forall>theirs pinned. their_last_proposal h = Some theirs \<longrightarrow> nc_proposal c = Some pinned \<longrightarrow>
     pinned_kept E pinned theirs)"

lemma buyer_escrow_shape_guard_passes: "buyer_escrow_shape_guard E h c = Return (None, c') \<Longrightarrow> seller_keeps_pinned E h c"
  by (auto simp: buyer_escrow_shape_guard_def seller_keeps_pinned_def pinned_kept_def Let_def
      res_bind_Inr_iff catching_Inr_iff split: step_splits)

interpretation pinned_shape: veto same_frame "buyer_escrow_shape_guard E" "seller_keeps_pinned E" for E
  by unfold_locales
    (auto simp: vetoing_buyer_escrow_shape_guard seller_keeps_pinned_def buyer_escrow_shape_guard_passes[unfolded seller_keeps_pinned_def]
      dest: same_frameD)

end
