(* ===== verification/Scalar_Bargains.thy ===== *)
theory Scalar_Bargains
  imports Scalar_Policies
begin

text \<open>
  What the scalar policies compute: amounts survive the wire, the integer tests of the bisection
  policy are its rational bounds, and every amount it accepts or offers lies within them.
\<close>

section \<open>Amounts on the wire\<close>

lemma digit_not_space: "is_digit c \<Longrightarrow> \<not> py_isspace c"
  by (auto simp: is_digit_def py_isspace_def Let_def)

lemma dropWhile_none: "(\<And>x. x \<in> set xs \<Longrightarrow> \<not> P x) \<Longrightarrow> dropWhile P xs = xs"
  by (cases xs) auto

lemma py_strip_digits: "list_all is_digit s \<Longrightarrow> py_strip s = s"
  using dropWhile_none [of s py_isspace] dropWhile_none [of "rev s" py_isspace]
  by (auto simp: py_strip_def digit_not_space list_all_iff)

lemma length_nat_str_le: "n < 10 ^ k \<Longrightarrow> 0 < k \<Longrightarrow> length (nat_str n) \<le> k"
proof (induction n arbitrary: k rule: nat_str.induct)
  case (1 n)
  show ?case
  proof (cases "n < 10")
    case True
    with 1 show ?thesis by (subst nat_str.simps) simp
  next
    case False
    with "1.prems" obtain j where k: "k = Suc j" and j: "0 < j"
      by (cases k; cases "k - 1") auto
    with "1.prems" have "n div 10 < 10 ^ j" by (simp add: less_mult_imp_div_less mult.commute)
    from "1.IH" [OF False this j] False k show ?thesis by (subst nat_str.simps) simp
  qed
qed

lemma INT_MAX_STR_DIGITS_pos: "0 < INT_MAX_STR_DIGITS"
  by (simp add: INT_MAX_STR_DIGITS_def)

lemma text_of_int_small: "n < 10 ^ INT_MAX_STR_DIGITS \<Longrightarrow> text_of_int n = Return (nat_str n)"
  using length_nat_str_le [of n INT_MAX_STR_DIGITS] INT_MAX_STR_DIGITS_pos by (simp add: text_of_int_def Let_def)

lemma uint256_printable: "n < 2 ^ 256 \<Longrightarrow> (n :: nat) < 10 ^ INT_MAX_STR_DIGITS"
proof -
  assume "n < 2 ^ 256"
  also have "(2 :: nat) ^ 256 \<le> 10 ^ 256" by (rule power_mono) simp_all
  also have "(10 :: nat) ^ 256 \<le> 10 ^ INT_MAX_STR_DIGITS" by (rule power_increasing) (simp_all add: INT_MAX_STR_DIGITS_def)
  finally show ?thesis .
qed

lemma text_of_int_iff: "text_of_int n = Return s \<longleftrightarrow> s = nat_str n \<and> length s \<le> INT_MAX_STR_DIGITS"
  by (auto simp: text_of_int_def Let_def not_less)

lemma takeWhile_all_digits: "list_all is_digit s \<Longrightarrow> takeWhile is_digit s = s"
  by (simp add: list_all_iff takeWhile_eq_all_conv)

lemma isdigit_digits: "s \<noteq> [] \<Longrightarrow> list_all is_digit s \<Longrightarrow> py_isdigit s"
  by (auto simp: py_isdigit_def list_all_iff)

lemma parse_digits:
  assumes "list_all is_digit s" "s \<noteq> []" "length s \<le> INT_MAX_STR_DIGITS"
  shows "parse_wire_amount E (PStr s) = Return (Some (int (digits_val s)))"
  using assms by (simp add: parse_wire_amount_def py_strip_digits isdigit_digits int_of_digits_def takeWhile_all_digits Let_def)

lemma format_wire_amount_iff:
  "format_wire_amount E (PInt n) = Return s \<longleftrightarrow> 0 \<le> n \<and> s = nat_str (nat n) \<and> length s \<le> INT_MAX_STR_DIGITS"
  by (auto simp: format_wire_amount_def text_of_int_iff)

lemma parse_formatted: "format_wire_amount E (PInt n) = Return s \<Longrightarrow> parse_wire_amount E (PStr s) = Return (Some n)"
  by (auto simp: format_wire_amount_iff parse_digits nat_str_digits)

text \<open>Only the superscript digits are taken for digits and then refused by \<open>int\<close>, with an error that
  is not a \<open>NegotiationAmountError\<close>; so is text beyond the conversion limit.\<close>

lemma parse_wire_amount_errors:
  assumes "parse_wire_amount E v = Raise e"
  shows "(\<exists>m. e = Amount_Error m) \<or> (\<exists>s m. v = PStr s \<and> py_isdigit (py_strip s) \<and> e = Value_Error m)"
  using assms
  by (auto simp: parse_wire_amount_def int_of_digits_def int_literal_error_def digits_limit_error_def Let_def
      split: pyval.splits if_splits)

lemma parse_wire_amount_nonneg: "parse_wire_amount E v = Return (Some n) \<Longrightarrow> 0 \<le> n"
  by (auto simp: parse_wire_amount_def int_of_digits_def Let_def split: pyval.splits if_splits)

lemma amount_from_proposal_nonneg: "amount_from_proposal E p = Return (Some n) \<Longrightarrow> 0 \<le> n"
  by (auto simp: amount_from_proposal_def parse_wire_amount_nonneg split: option.splits pyval.splits)

lemma first_amount_nonneg: "first_amount E h = Return (Some n) \<Longrightarrow> 0 \<le> n"
  by (induction h) (auto simp: res_bind_Inr_iff split: if_splits option.splits dest: amount_from_proposal_nonneg)

lemma their_proposed_amount_nonneg: "their_proposed_amount E h = Return (Some n) \<Longrightarrow> 0 \<le> n"
  unfolding their_proposed_amount_def by (rule first_amount_nonneg)

lemma jset_not_Nil [simp]: "jset k v d \<noteq> []"
  by (cases d) (auto simp: jset_def split: if_splits)

text \<open>The amount written into a proposal is the amount read back from it.\<close>

lemma amount_set_proposal:
  "set_proposal_amount E p n = Return q \<Longrightarrow> amount_from_proposal E (Some q) = Return (Some n) \<and> 0 \<le> n"
  by (auto simp: set_proposal_amount_def amount_from_proposal_def res_bind_Inr_iff or_empty_def parse_formatted
      format_wire_amount_iff parse_digits nat_str_digits)

text \<open>Nothing but the amount changes.\<close>

lemma set_proposal_amount_keeps: "set_proposal_amount E p n = Return q \<Longrightarrow> k \<noteq> ''fields'' \<Longrightarrow> jget q k = jget p k"
  by (auto simp: set_proposal_amount_def res_bind_Inr_iff)

section \<open>The bisection policy against its bounds\<close>

definition DEFAULT_CONVERGENCE_RATIO :: rat where "DEFAULT_CONVERGENCE_RATIO = 1 / 100"

definition DEFAULT_REASONABLE_MULTIPLIER :: rat where "DEFAULT_REASONABLE_MULTIPLIER = 3 / 2"

datatype bargain = Settle int | Propose int | Walk_Away

text \<open>The answer to an amount, in rational arithmetic.\<close>

definition answer_minimizing :: "int \<Rightarrow> int \<Rightarrow> bargain" where
  "answer_minimizing ours theirs =
     (if rat_of_int theirs \<le> rat_of_int ours * (1 + DEFAULT_CONVERGENCE_RATIO) then Settle theirs
      else if rat_of_int theirs \<le> rat_of_int ours * DEFAULT_REASONABLE_MULTIPLIER
      then Propose (min \<lfloor>(rat_of_int ours + rat_of_int theirs) / 2\<rfloor> ours)
      else Walk_Away)"

definition answer_maximizing :: "int \<Rightarrow> int \<Rightarrow> bargain" where
  "answer_maximizing ours theirs =
     (if rat_of_int ours * (1 - DEFAULT_CONVERGENCE_RATIO) \<le> rat_of_int theirs then Settle theirs
      else if rat_of_int ours / DEFAULT_REASONABLE_MULTIPLIER \<le> rat_of_int theirs
      then Propose \<lfloor>(rat_of_int ours + rat_of_int theirs) / 2\<rfloor>
      else Walk_Away)"

definition carry_out :: "nego_env \<Rightarrow> nego_context \<Rightarrow> jobj \<Rightarrow> bargain \<Rightarrow> (nego_error, nego_decision option \<times> nego_context) result" where
  "carry_out E c skeleton b = (case b of
     Settle n \<Rightarrow> conclude_at E c ''accept'' skeleton n (Some ''convergence'')
   | Propose n \<Rightarrow> conclude_at E c ''counter'' skeleton n None
   | Walk_Away \<Rightarrow> conclude c ''exit'' None (Some ''price_unreasonable''))"

definition skeleton_of :: "nego_round list \<Rightarrow> nego_context \<Rightarrow> jobj" where
  "skeleton_of h c = (case their_last_proposal h of
     Some (x # xs) \<Rightarrow> x # xs | _ \<Rightarrow> (case nc_proposal c of None \<Rightarrow> [] | Some p \<Rightarrow> p))"

definition bisection_reference :: "nego_env \<Rightarrow> middleware" where
  "bisection_reference E h c =
     res_bind (our_previous_counters E h) (\<lambda>counters.
     if nc_max_rounds c \<le> int (length counters) then conclude c ''exit'' None (Some ''max_rounds'')
     else if last_two_equal counters then conclude c ''exit'' None (Some ''stale_negotiation'')
     else
     res_bind (exact_amount E ''our_reference_amount'' (nc_reference c)) (\<lambda>ours.
     res_bind (their_proposed_amount E h) (\<lambda>theirs_opt. case theirs_opt of
       None \<Rightarrow> res_bind (opening_proposal E c) (\<lambda>p. conclude c ''counter'' (Some p) None)
     | Some theirs \<Rightarrow>
         if nc_direction c = ''minimize'' then carry_out E c (skeleton_of h c) (answer_minimizing ours theirs)
         else if nc_direction c = ''maximize'' then carry_out E c (skeleton_of h c) (answer_maximizing ours theirs)
         else reject c (''unknown_direction:'' @ repr_str (nc_direction c)))))"

lemma floor_half: "\<lfloor>(rat_of_int a + rat_of_int b) / 2\<rfloor> = (a + b) div 2"
  by (metis floor_divide_of_int_eq of_int_add of_int_numeral)

lemma rat_le_int: "of_int a \<le> (of_int b :: rat) * (of_int p / of_int q) \<longleftrightarrow> a * q \<le> b * p" if "0 < q"
proof -
  have "(of_int a :: rat) \<le> of_int b * (of_int p / of_int q) \<longleftrightarrow> of_int a * of_int q \<le> (of_int b * of_int p :: rat)"
    using that by (simp add: field_simps)
  also have "\<dots> \<longleftrightarrow> a * q \<le> b * p" by (metis of_int_le_iff of_int_mult)
  finally show ?thesis .
qed

lemma rat_ge_int: "(of_int b :: rat) * (of_int p / of_int q) \<le> of_int a \<longleftrightarrow> b * p \<le> a * q" if "0 < q"
proof -
  have "of_int b * (of_int p / of_int q) \<le> (of_int a :: rat) \<longleftrightarrow> of_int b * of_int p \<le> (of_int a * of_int q :: rat)"
    using that by (simp add: field_simps)
  also have "\<dots> \<longleftrightarrow> b * p \<le> a * q" by (metis of_int_le_iff of_int_mult)
  finally show ?thesis .
qed

lemma minimizing_tests:
  "rat_of_int t \<le> rat_of_int r * (1 + DEFAULT_CONVERGENCE_RATIO) \<longleftrightarrow> t * CONVERGENCE_DEN \<le> r * CONVERGENCE_NUM"
  "rat_of_int t \<le> rat_of_int r * DEFAULT_REASONABLE_MULTIPLIER \<longleftrightarrow> t * REASONABLE_DEN \<le> r * REASONABLE_NUM"
  using rat_le_int [of 100 t r 101] rat_le_int [of 2 t r 3]
  by (simp_all add: DEFAULT_CONVERGENCE_RATIO_def DEFAULT_REASONABLE_MULTIPLIER_def
      CONVERGENCE_DEN_def CONVERGENCE_NUM_def REASONABLE_DEN_def REASONABLE_NUM_def)

lemma maximizing_tests:
  "rat_of_int r * (1 - DEFAULT_CONVERGENCE_RATIO) \<le> rat_of_int t \<longleftrightarrow> r * SHORTFALL_NUM \<le> t * SHORTFALL_DEN"
  "rat_of_int r / DEFAULT_REASONABLE_MULTIPLIER \<le> rat_of_int t \<longleftrightarrow> r * REASONABLE_DEN \<le> t * REASONABLE_NUM"
  using rat_ge_int [of 100 r 99 t] rat_ge_int [of 3 r 2 t]
  by (simp_all add: DEFAULT_CONVERGENCE_RATIO_def DEFAULT_REASONABLE_MULTIPLIER_def
      SHORTFALL_DEN_def SHORTFALL_NUM_def REASONABLE_DEN_def REASONABLE_NUM_def)

lemma bisection_is_reference: "bisection E h c = bisection_reference E h c"
  unfolding bisection_def bisection_reference_def
  by (auto simp: carry_out_def answer_minimizing_def answer_maximizing_def minimizing_tests maximizing_tests floor_half
      skeleton_of_def Let_def intro!: arg_cong [where f="res_bind _"] ext split: option.splits)

end
