(* ===== verification/Negotiation_Guarantees.thy ===== *)
theory Negotiation_Guarantees
  imports Negotiation_Overlap Scalar_Bargains "HOL-Library.Word"
begin

text \<open>
  What negotiations promise, with a witness for each property that has hypotheses.  The examples run
  a small domain that asks 90 base units for its listing, answers a counter with a counter at most
  \<open>M\<close> times and whose listing matches its source.
\<close>

section \<open>A small domain\<close>

definition deal_env :: thread_env where
  "deal_env = \<lparr>te_dumps = (\<lambda>_. ''{}''), te_canonical = (\<lambda>_. ''{}''), te_loads = (\<lambda>_. Some (PDict [])),
     te_decimal = (\<lambda>s. Some (Dec_Finite (of_int (int (digits_val s))))), te_frepr = (\<lambda>_. ''0.0''),
     te_iso = (\<lambda>_. ''2026-01-01T00:00:00+00:00''), te_local = (\<lambda>_. ''2026-01-01T00:00:00''), te_fromiso = (\<lambda>_. Some 0),
     te_b64decode = (\<lambda>s. Some s), te_domain = (\<lambda>c d. Return d)\<rparr>"

definition deal_buyer :: principal where
  "deal_buyer = \<lparr>pr_scheme = EIP191, pr_identifier = ''0x'' @ replicate 40 (CHR ''a'')\<rparr>"

definition deal_seller :: principal where
  "deal_seller = \<lparr>pr_scheme = EIP191, pr_identifier = ''0x'' @ replicate 40 (CHR ''b'')\<rparr>"

definition deal_evaluation :: "nego_decision \<Rightarrow> evaluation" where
  "deal_evaluation d = \<lparr>ev_our = 100, ev_label = ''maximize'', ev_decision = d, ev_pinned = None, ev_scalar = True,
     ev_buyer = Some 80, ev_state = PNone\<rparr>"

definition deal_hooks :: "nat \<Rightarrow> domain_hooks" where
  "deal_hooks M = \<lparr>hk_decode = (\<lambda>v. Return \<lparr>nt_decoded = v, nt_wire = None, nt_duration = None, nt_start = None\<rparr>),
     hk_validate_opening = (\<lambda>_ _ _. Return ()), hk_validate_continuation = (\<lambda>_ _ _ _ _. Return ()),
     hk_evaluate = (\<lambda>_ request. Return (deal_evaluation
        (if length (our_counters (rr_history request)) < M then decide ''counter'' (Some [(PStr ''amount'', PInt 90)]) None
         else decide ''exit'' None (Some ''max_rounds'')))),
     hk_strategy = (\<lambda>_ _. Return (Some ''maximize'')), hk_reference = (\<lambda>_ _ _ _ _. Return 100),
     hk_amount = (\<lambda>p. Return (case p of None \<Rightarrow> None | Some d \<Rightarrow> (case jget d ''amount'' of PInt n \<Rightarrow> Some n | _ \<Rightarrow> None))),
     hk_proposal = (\<lambda>p _. p), hk_agreement = (\<lambda>_ _ _. Return \<lparr>ag_duration = 0, ag_start = None\<rparr>),
     hk_artifacts = (\<lambda>_ _. Return []), hk_wire = decision_dict, hk_live = (\<lambda>_. True), hk_listing_paused = (\<lambda>_ _. False),
     hk_paused = False, hk_persist_opening = None, hk_place_hold = None, hk_persist_artifacts = None,
     hk_check_source = Some (\<lambda>_ _. Return \<lparr>sv_outcome = Src_Matches, sv_reason = None, sv_fields = []\<rparr>)\<rparr>"

definition deal_runtime :: "nat \<Rightarrow> nego_runtime" where
  "deal_runtime M = \<lparr>nrt_env = deal_env,
     nrt_resolve_opening = (\<lambda>_ l. Return (\<lparr>rv_listing_id = l, rv_listing = PDict [], rv_record = [], rv_binding = PNone\<rparr>, deal_hooks M)),
     nrt_resolve_continuation = (\<lambda>_ t. Return (\<lparr>rv_listing_id = tv_our_listing t, rv_listing = PDict [], rv_record = [], rv_binding = PNone\<rparr>,
        deal_hooks M))\<rparr>"

definition deal_opening :: opening_request where
  "deal_opening = \<lparr>so_listing = ''l'', so_buyer = deal_buyer, so_seller = deal_seller,
     so_proposal = Some [(PStr ''amount'', PInt 80)], so_terms = PNone\<rparr>"

definition deal_start :: nego_request where
  "deal_start = Start_Negotiation (\<lambda>_. 0) ''n'' deal_buyer ''s'' ''b'' deal_opening"

definition deal_reply :: "string \<Rightarrow> continuation_request" where
  "deal_reply action = \<lparr>co_action = action, co_proposal = None, co_buyer = deal_buyer, co_actor = deal_buyer,
     co_role = ''buyer'', co_seller = None\<rparr>"

definition deal_say :: "string \<Rightarrow> nego_request" where
  "deal_say action = Continue_Negotiation (\<lambda>_. 0) ''n'' (deal_reply action)"

definition deal_store :: "(nego_request \<times> nat) list \<Rightarrow> nego_store" where
  "deal_store xs = perform_all (deal_runtime 2) ((deal_start, 9) # xs) (empty_store PNone)"

lemma deal_confined: "confined (deal_runtime M)"
  by (auto simp: confined_def deal_runtime_def confined_hooks_def deal_hooks_def)

lemma deal_bounded: "bounded_policy M (deal_runtime M)"
  by (auto simp: bounded_policy_def deal_runtime_def deal_hooks_def deal_evaluation_def split: if_splits)

lemma deal_parties: "principal_ok deal_buyer" "principal_ok deal_seller"
  by code_simp+

lemma deal_admissible: "admissible deal_start" "admissible (deal_say action)"
  by (simp_all add: admissible_def deal_start_def deal_say_def deal_opening_def deal_reply_def deal_parties)

lemma deal_store_ok:
  assumes "\<And>x. x \<in> set xs \<Longrightarrow> admissible (fst x)"
  shows "store_ok (deal_store xs)"
proof -
  have e: "store_ok (empty_store PNone)" using empty_store_ok [of PNone] by (simp add: runs_ok_def)
  have a: "admissible (fst x)" if "x \<in> set ((deal_start, 9) # xs)" for x
    using that assms [of x] by (auto simp: deal_admissible)
  from perform_all_induct [where P = "\<lambda>_. True" and xs = "(deal_start, 9) # xs", OF deal_confined e a] show ?thesis
    by (simp add: deal_store_def)
qed

text \<open>The thread once it is opened, and what its columns read as.\<close>

lemma principal_value_columns: "principal_ok p \<Longrightarrow> principal_value (Some (principal_columns p)) = Return (Some p)"
  by (cases "pr_scheme p") (simp_all add: principal_value_def principal_columns_def principal_ok_def parse_scheme_def scheme_value_def)

lemma deal_columns [simp]:
  "principal_value (Some (principal_columns deal_buyer)) = Return (Some deal_buyer)"
  "principal_value (Some (principal_columns deal_seller)) = Return (Some deal_seller)"
  "deal_buyer \<noteq> deal_seller" "deal_seller \<noteq> deal_buyer"
  "principal_columns deal_buyer \<noteq> principal_columns deal_seller" "principal_columns deal_seller \<noteq> principal_columns deal_buyer"
  using deal_parties by (simp_all add: principal_value_columns) (simp_all add: deal_buyer_def deal_seller_def principal_columns_def)

lemma deal_amounts [simp]:
  "amount_to_db_text deal_env (PInt 100) = Return (Some ''100'')" "amount_to_db_text deal_env (PInt 90) = Return (Some ''90'')"
  "amount_to_db_text deal_env (PInt 80) = Return (Some ''80'')" "amount_to_db_text deal_env PNone = Return None"
  "amount_from_db_text deal_env (Some ''100'') = Return (Some 100)" "amount_from_db_text deal_env (Some ''90'') = Return (Some 90)"
  "amount_from_db_text deal_env (Some ''80'') = Return (Some 80)" "amount_from_db_text deal_env None = Return None"
  by code_simp+

definition deal_row :: thread_row where
  "deal_row = opened_thread ''n'' ''l'' [] ''s'' ''b'' ''active'' ''2026-01-01T00:00:00'' None None (Some ''{}'') None deal_buyer deal_seller None"

definition deal_message :: "int \<Rightarrow> string \<Rightarrow> principal \<Rightarrow> string \<Rightarrow> string \<Rightarrow> string \<Rightarrow> message_row" where
  "deal_message n role p amount action type = \<lparr>mg_thread = ''n'', mg_round = n, mg_role = role, mg_sender = principal_columns p,
     mg_ours = Some ''100'', mg_theirs = Some ''80'', mg_proposed = Some amount, mg_action = action, mg_type = type,
     mg_stamp = ''2026-01-01T00:00:00+00:00''\<rparr>"

definition deal_open :: nego_store where
  "deal_open = \<lparr>threads = [deal_row\<lparr>tr_updated := ''2026-01-01T00:00:00+00:00''\<rparr>],
     messages = [deal_message 0 ''buyer'' deal_buyer ''80'' ''make_offer'' ''offer'',
       deal_message 1 ''seller'' deal_seller ''90'' ''counter_offer'' ''counter_proposal''],
     locals = [\<lparr>lo_thread = ''n'', lo_owner = ''s'', lo_price = Some ''100'', lo_strategy = Some ''maximize''\<rparr>], domain_tables = PNone\<rparr>"

lemma deal_store_open: "deal_store [] = deal_open"
  by code_simp

definition deal_thread :: thread_view where
  "deal_thread = \<lparr>tv_id = ''n'', tv_our_listing = ''l'', tv_their_listing = [], tv_our_agent = ''s'', tv_their_agent = ''b'',
     tv_status = ''active'', tv_created = ''2026-01-01T00:00:00'', tv_updated = ''2026-01-01T00:00:00+00:00'', tv_terminal = None,
     tv_duration = None, tv_start = None, tv_proposal = PDict [], tv_terms = PNone, tv_plan = PNone, tv_price = None,
     tv_agreed_duration = None, tv_agreed_at = None, tv_agreement = None, tv_settlement = PNone, tv_buyer = Some deal_buyer,
     tv_seller = Some deal_seller, tv_offer = None\<rparr>"

lemma deal_loads [simp]: "load_open_thread deal_env deal_open ''n'' = Return deal_thread"
  by (simp add: load_open_thread_def load_negotiation_thread_row_def deal_open_def find_thread_def deal_row_def opened_thread_def
      view_thread_def deal_thread_def json_column_def truthy_text_def) (simp add: deal_env_def)

lemma deal_transcript [simp]: "load_negotiation_thread deal_env deal_open ''n'' =
   Return [\<lparr>mv_round = 0, mv_role = ''buyer'', mv_sender = Some deal_buyer, mv_ours = Some 100, mv_theirs = Some 80,
      mv_proposed = Some 80, mv_action = ''make_offer'', mv_type = ''offer'', mv_stamp = ''2026-01-01T00:00:00+00:00''\<rparr>,
     \<lparr>mv_round = 1, mv_role = ''seller'', mv_sender = Some deal_seller, mv_ours = Some 100, mv_theirs = Some 80,
      mv_proposed = Some 90, mv_action = ''counter_offer'', mv_type = ''counter_proposal'', mv_stamp = ''2026-01-01T00:00:00+00:00''\<rparr>]"
  by (simp add: load_negotiation_thread_def deal_open_def thread_messages_def deal_message_def view_message_def)

definition deal_terms :: "int \<Rightarrow> agreed_terms" where
  "deal_terms n = \<lparr>at_price = PInt n, at_duration = 0, at_start = Some ''2026-01-01T00:00:00Z'',
     at_accepted = Some ''2026-01-01T00:00:00Z'', at_agreement = None, at_settlement = None\<rparr>"

lemma deal_env_simps [simp]:
  "nrt_env (deal_runtime M) = deal_env" "te_iso deal_env n = ''2026-01-01T00:00:00+00:00''"
  "te_local deal_env n = ''2026-01-01T00:00:00''"
  by (simp_all add: deal_runtime_def deal_env_def)

definition deal_resumed :: "nat \<Rightarrow> resumed_thread" where
  "deal_resumed M = \<lparr>rt_resolved = \<lparr>rv_listing_id = ''l'', rv_listing = PDict [], rv_record = [], rv_binding = PNone\<rparr>,
     rt_hooks = deal_hooks M, rt_terms = \<lparr>nt_decoded = PNone, nt_wire = None, nt_duration = None, nt_start = None\<rparr>,
     rt_pinned = Some [], rt_messages = projr (load_negotiation_thread deal_env deal_open ''n''), rt_scalar = False,
     rt_reference = 100, rt_agreement = \<lparr>ag_duration = 0, ag_start = None\<rparr>\<rparr>"

lemma deal_resumes [simp]: "resume_thread (deal_runtime M) deal_open deal_thread = Return (deal_resumed M)"
  by (simp add: resume_thread_def deal_thread_def deal_runtime_def deal_hooks_def require_listing_binding_def stored_mapping_def
      deal_resumed_def jget_def)

lemma deal_history [simp]: "\<exists>h. history_from (deal_hooks M) deal_seller deal_buyer p 0 (rt_messages (deal_resumed M')) = Return h"
  by (simp add: deal_resumed_def round_sender_def require_principal_def stored_action_def)

lemma deal_authorized [simp]: "authorize (deal_reply action) deal_thread = Return (deal_buyer, deal_seller)"
  by (simp add: authorize_def deal_reply_def deal_thread_def require_principal_def)

lemma deal_complete [simp]: "refuse_incomplete_thread deal_thread (rt_messages (deal_resumed M)) = Return ()"
  by (simp add: refuse_incomplete_thread_def deal_resumed_def ends_with_seller_counter_def deal_thread_def truthy_text_def)

lemma deal_artifacts [simp]:
  "accepted_artifacts deal_env (deal_hooks M) (resumed_acceptance deal_thread (deal_resumed K) n sc b s st) 0 = Return
     (resumed_acceptance deal_thread (deal_resumed K) n sc b s st
        \<lparr>ac_agreement := \<lparr>ag_duration = 0, ag_start = Some ''2026-01-01T00:00:00Z''\<rparr>, ac_accepted := Some 0\<rparr>, [])"
  by (simp add: accepted_artifacts_def fix_acceptance_time_def resumed_acceptance_def deal_resumed_def iso_z_def deal_hooks_def)

lemma deal_accepts:
  "accepting_writes deal_env (\<lambda>_. 0) (deal_hooks M) (resumed_acceptance deal_thread (deal_resumed K) n sc b s st
      \<lparr>ac_agreement := \<lparr>ag_duration = 0, ag_start = Some ''2026-01-01T00:00:00Z''\<rparr>, ac_accepted := Some 0\<rparr>) [] actor role ours =
   [append_message deal_env ''n'' actor role (PInt ours) (PInt n) (PInt n) ''accept_offer'' ''accepted'' 0,
    Commit_Terms ''n'' (deal_terms n) ''2026-01-01T00:00:00'', Set_Terminal ''n'' ''success'' ''2026-01-01T00:00:00'']"
  by (simp add: accepting_writes_def resumed_acceptance_def commit_acceptance_def decoded_agreement_def jget_def deal_hooks_def
      hook_writes_def record_terminal_state_def deal_terms_def iso_z_def deal_thread_def)

lemma deal_accept_plan:
  "\<exists>resp. continue_plan (deal_runtime M) (\<lambda>_. 0) (deal_reply ''accept'') deal_thread deal_open = Return
     ([append_message deal_env ''n'' deal_buyer ''buyer'' (PInt 100) (PInt 90) (PInt 90) ''accept_offer'' ''accepted'' 0,
      Commit_Terms ''n'' (deal_terms 90) ''2026-01-01T00:00:00'', Set_Terminal ''n'' ''success'' ''2026-01-01T00:00:00''], resp)"
proof -
  obtain h where h: "history_from (deal_hooks M) deal_seller deal_buyer (Some []) 0 (rt_messages (deal_resumed M)) = Return h"
    using deal_history by blast
  have hk: "rt_hooks (deal_resumed M) = deal_hooks M" "rt_pinned (deal_resumed M) = Some []" by (simp_all add: deal_resumed_def)
  have src: "enforce_on_acceptance (deal_hooks M) deal_open r l = Return ()" for r l
    by (simp add: enforce_on_acceptance_def deal_hooks_def read_source_def classify_listing_source_def)
  have amount: "last_seller_amount (rt_messages (deal_resumed M)) deal_seller n = Return 90" for n
    by (simp add: last_seller_amount_def deal_resumed_def is_seller_offer_def stored_amount_def)
  have q: "co_action (deal_reply ''accept'') = ''accept''" "co_actor (deal_reply ''accept'') = deal_buyer"
    "co_role (deal_reply ''accept'') = ''buyer''" "rt_reference (deal_resumed M) = 100" by (simp_all add: deal_reply_def deal_resumed_def)
  show ?thesis by (simp add: continue_plan_def hk h q continue_accept_def src amount deal_accepts)
qed

section \<open>Bargaining\<close>

text \<open>C25: \<open>bisection\<close>, whose tests and midpoints are integer cross-multiplications, answers every
  transcript exactly as the rational policy its constants stand for: converged within 1%, midpoint
  while the amount is within a factor of 1.5, walk away otherwise, after the round bound and the
  stale-counter test, error cases included.\<close>

theorem bisection_equals_rational_policy: "bisection E h c = bisection_reference E h c"
  by (rule bisection_is_reference)

lemma conclude_at_Return:
  "conclude_at E c action skeleton n reason = Return (Some d, c') \<longleftrightarrow>
     (\<exists>p. set_proposal_amount E skeleton n = Return p \<and> d = decide action (Some p) reason \<and> c' = c)"
  by (auto simp: conclude_at_def res_bind_Inr_iff)

text \<open>C26: the bounds of a bargain.  A buyer accepts only an amount at most 1% above its reference and a
  seller only one at most 1% below; a buyer's counter is its reference, and a seller's is at least
  the amount it answers, below its reference and at least five sixths of it, rounded down.\<close>

theorem bisection_stays_in_bounds:
  assumes b: "bisection E h c = Return (Some d, c')" and t: "their_proposed_amount E h = Return (Some theirs)"
    and o: "exact_amount E ''our_reference_amount'' (nc_reference c) = Return ours"
  shows "(nd_action d = ''accept'' \<longrightarrow> amount_from_proposal E (nd_proposal d) = Return (Some theirs) \<and>
      (nc_direction c = ''minimize'' \<longrightarrow> 100 * theirs \<le> 101 * ours) \<and> (nc_direction c = ''maximize'' \<longrightarrow> 99 * ours \<le> 100 * theirs)) \<and>
    (nd_action d = ''counter'' \<longrightarrow> (\<exists>n. amount_from_proposal E (nd_proposal d) = Return (Some n) \<and>
      (nc_direction c = ''minimize'' \<longrightarrow> n = ours \<and> n < theirs) \<and>
      (nc_direction c = ''maximize'' \<longrightarrow> theirs \<le> n \<and> n < ours \<and> 5 * ours \<le> 6 * n + 5)))"
proof -
  have read: "amount_from_proposal E (Some p) = Return (Some n)" if "set_proposal_amount E s n = Return p" for s n p
    using amount_set_proposal [OF that] by simp
  from b t o show ?thesis
    by (auto simp: bisection_def res_bind_Inr_iff Let_def conclude_at_Return reject_def CONVERGENCE_DEN_def CONVERGENCE_NUM_def
        REASONABLE_DEN_def REASONABLE_NUM_def SHORTFALL_DEN_def SHORTFALL_NUM_def dest!: read split: if_splits)
qed

text \<open>C27: every amount of 256 bits travels: it has a wire text, and the text reads back as the amount.\<close>

theorem wire_amount_roundtrip:
  "\<exists>s. format_wire_amount E (PInt (uint (w :: 256 word))) = Return s \<and> parse_wire_amount E (PStr s) = Return (Some (uint w))"
proof -
  have "nat (uint w) < 2 ^ 256" using unsigned_less [where ?'a = nat, of w] by simp
  then have "text_of_int (nat (uint w)) = Return (nat_str (nat (uint w)))" by (intro text_of_int_small uint256_printable)
  then have "format_wire_amount E (PInt (uint w)) = Return (nat_str (nat (uint w)))" by (simp add: format_wire_amount_def)
  with parse_formatted show ?thesis by blast
qed

section \<open>Openings\<close>

text \<open>Two plans of the same opening under different identifiers.\<close>

definition same_refusal :: "('e, 'a) result \<Rightarrow> ('e, 'a) result \<Rightarrow> bool" where
  "same_refusal x y = (case (x, y) of (Inl e, Inl f) \<Rightarrow> e = f | (Inr _, Inr _) \<Rightarrow> True | _ \<Rightarrow> False)"

text \<open>The domain refuses or builds artifacts whatever the negotiation's identifier is.\<close>

definition identifier_free :: "nego_runtime \<Rightarrow> bool" where
  "identifier_free R = (\<forall>S l r H a i acc. nrt_resolve_opening R S l = Return (r, H) \<longrightarrow>
     same_refusal (hk_artifacts H (a\<lparr>ac_id := i\<rparr>) acc) (hk_artifacts H a acc))"

definition same_plan :: "(nego_error, opening_plan) result \<Rightarrow> (nego_error, opening_plan) result \<Rightarrow> bool" where
  "same_plan x y = (case (x, y) of (Inl e, Inl f) \<Rightarrow> e = f | (Inr p, Inr q) \<Rightarrow> preview_of p = preview_of q | _ \<Rightarrow> False)"

lemma same_plan_bind: "(\<And>x. m = Return x \<Longrightarrow> same_plan (f x) (g x)) \<Longrightarrow> same_plan (res_bind m f) (res_bind m g)"
  by (cases m) (simp_all add: same_plan_def)

lemma same_plan_artifacts:
  assumes "same_refusal x y" "\<And>p q. preview_of (f p) = preview_of (g q)"
  shows "same_plan (res_bind x (\<lambda>p. Return (f p))) (res_bind y (\<lambda>q. Return (g q)))"
  using assms by (cases x; cases y) (auto simp: same_refusal_def same_plan_def)

lemma res_bind_assoc: "res_bind (res_bind m f) g = res_bind m (\<lambda>x. res_bind (f x) g)"
  by (cases m) simp_all

lemma fix_acceptance_time_id:
  "fix_acceptance_time E now (a\<lparr>ac_id := i\<rparr>) = res_bind (fix_acceptance_time E now a) (\<lambda>b. Return (b\<lparr>ac_id := i\<rparr>))"
  by (cases a) (simp add: fix_acceptance_time_def res_bind_assoc)

lemma accepted_artifacts_same:
  assumes "\<And>b. same_refusal (hk_artifacts H (b\<lparr>ac_id := i\<rparr>) True) (hk_artifacts H b True)"
  shows "same_refusal (accepted_artifacts E H (a\<lparr>ac_id := i\<rparr>) now) (accepted_artifacts E H a now)"
proof (cases "fix_acceptance_time E now a")
  case (Inr b)
  with assms [of b] show ?thesis
    by (cases "hk_artifacts H (b\<lparr>ac_id := i\<rparr>) True"; cases "hk_artifacts H b True")
      (auto simp: accepted_artifacts_def fix_acceptance_time_id same_refusal_def)
qed (simp add: accepted_artifacts_def fix_acceptance_time_id same_refusal_def)

lemma plain_artifacts_same:
  assumes "same_refusal (hk_artifacts H (a\<lparr>ac_id := i\<rparr>) False) (hk_artifacts H a False)"
  shows "same_refusal (res_bind (hk_artifacts H (a\<lparr>ac_id := i\<rparr>) False) (\<lambda>arts. Return (a\<lparr>ac_id := i\<rparr>, arts)))
      (res_bind (hk_artifacts H a False) (\<lambda>arts. Return (a, arts)))"
  using assms by (cases "hk_artifacts H (a\<lparr>ac_id := i\<rparr>) False"; cases "hk_artifacts H a False") (auto simp: same_refusal_def)

lemma opening_acceptance_id: "opening_acceptance i q r te ev ag n = (opening_acceptance j q r te ev ag n)\<lparr>ac_id := i\<rparr>"
  by (simp add: opening_acceptance_def)

lemma plan_opening_same:
  assumes "identifier_free R"
  shows "same_plan (plan_opening R now i q S) (plan_opening R now j q S)"
proof (cases "nrt_resolve_opening R S (so_listing q)")
  case (Inr p)
  obtain r H where p: "p = (r, H)" by (cases p)
  have free: "same_refusal (hk_artifacts H (a\<lparr>ac_id := i\<rparr>) acc) (hk_artifacts H a acc)" for a acc
    using assms Inr p by (auto simp: identifier_free_def)
  have fin: "same_plan
      (res_bind (if c then accepted_artifacts E H (opening_acceptance i q r te ev ag n) now
         else res_bind (hk_artifacts H (opening_acceptance i q r te ev ag n) False) (\<lambda>arts. Return (opening_acceptance i q r te ev ag n, arts)))
        (\<lambda>(a', arts). Return (\<lparr>pl_hooks = H, pl_evaluation = ev, pl_acceptance = a', pl_accepted = c, pl_artifacts = arts,
           pl_theirs = th, pl_amount = am\<rparr>)))
      (res_bind (if c then accepted_artifacts E H (opening_acceptance j q r te ev ag n) now
         else res_bind (hk_artifacts H (opening_acceptance j q r te ev ag n) False) (\<lambda>arts. Return (opening_acceptance j q r te ev ag n, arts)))
        (\<lambda>(a', arts). Return (\<lparr>pl_hooks = H, pl_evaluation = ev, pl_acceptance = a', pl_accepted = c, pl_artifacts = arts,
           pl_theirs = th, pl_amount = am\<rparr>)))" for c E te ev ag n th am
    unfolding opening_acceptance_id [of i q r te ev ag n j] case_prod_unfold
    by (rule same_plan_artifacts)
      (auto simp: preview_of_def intro: accepted_artifacts_same plain_artifacts_same free)
  show ?thesis unfolding plan_opening_def Inr p res_bind_simps prod.case Let_def
    by (intro same_plan_bind fin)
qed (simp add: plan_opening_def same_plan_def)

text \<open>C24: a preview refuses exactly what an opening would refuse, with the same reason, and otherwise
  reports the decision the opening records.  The hypothesis is that the domain refuses or builds
  artifacts whatever the negotiation's identifier is.\<close>

theorem preview_agrees_with_start:
  assumes "identifier_free R"
  shows "case start_plan R clk nid (so_buyer q) su bu q S of
      Inl e \<Rightarrow> preview_opening R (clk 0) q S = (case refusal_text e of Some m \<Rightarrow> Return (Preview_Refused m) | None \<Rightarrow> Raise e)
    | Inr (ws, resp) \<Rightarrow> (\<exists>p. ws = opening_writes (nrt_env R) clk su bu p \<and> resp = opening_response p \<and>
        preview_opening R (clk 0) q S = Return (preview_of p))"
  using plan_opening_same [OF assms, of "clk 0" nid q S "''preview''"]
  by (auto simp: start_plan_def preview_opening_def same_plan_def split: sum.splits)

section \<open>Agreements\<close>

text \<open>The listing's source was asked in this state and matches, where the domain has a check.\<close>

definition source_matches :: "domain_hooks \<Rightarrow> nego_store \<Rightarrow> resolved \<Rightarrow> bool" where
  "source_matches H S r = (case hk_check_source H of
     None \<Rightarrow> True
   | Some check \<Rightarrow> (case check S r of Inl e \<Rightarrow> False | Inr v \<Rightarrow> sv_outcome v = Src_Matches))"

fun decided_on_source :: "nego_runtime \<Rightarrow> nego_request \<Rightarrow> thread_view option \<Rightarrow> nego_store \<Rightarrow> bool" where
  "decided_on_source R (Start_Negotiation clk nid actor su bu q) t S = (case nrt_resolve_opening R S (so_listing q) of
     Inl e \<Rightarrow> False | Inr (r, H) \<Rightarrow> source_matches H S r)"
| "decided_on_source R (Sweep W clk) t S = False"
| "decided_on_source R q None S = False"
| "decided_on_source R q (Some t) S = (case nrt_resolve_continuation R S t of
     Inl e \<Rightarrow> False | Inr (r, H) \<Rightarrow> source_matches H S r)"

lemma enforced_acceptance:
  assumes "enforce_on_acceptance H S r l = Return ()"
  shows "source_matches H S r"
proof (cases "hk_check_source H")
  case (Some check)
  with assms obtain v where v: "check S r = Return v"
    by (cases "check S r") (simp_all add: enforce_on_acceptance_def read_source_def)
  with Some assms have "classify_listing_source (Some v) = None"
    by (cases "classify_listing_source (Some v)") (simp_all add: enforce_on_acceptance_def read_source_def split: if_splits)
  with Some v show ?thesis by (simp add: source_matches_def classify_None_iff)
qed (simp add: source_matches_def)

lemma enforced_decision:
  assumes "read_source H S r = Return source" "enforce_on_decision H source ev l = Return ev'" "nd_action (ev_decision ev') = ''accept''"
  shows "source_matches H S r"
  using assms
  by (auto simp: enforce_on_decision_def source_matches_def read_source_def res_bind_Inr_iff classify_None_iff
      split: if_splits option.splits sum.splits)

lemma resume_source:
  assumes "resume_thread R S t = Return x" "source_matches (rt_hooks x) S (rt_resolved x)"
  shows "case nrt_resolve_continuation R S t of Inl e \<Rightarrow> False | Inr (r, H) \<Rightarrow> source_matches H S r"
  using assms by (auto simp: resume_thread_def res_bind_Inr_iff split: if_splits)

lemma side_no_terms: "list_all (side_write k) ws \<Longrightarrow> w \<in> set ws \<Longrightarrow> \<not> writes_terms nid w"
  by (auto simp: list_all_iff side_write_def writes_terms_def split: nego_write.splits)

lemma seller_no_terms [simp]: "\<not> writes_terms nid (fst (record_seller_decision E n seller ours theirs d amount now))"
  using seller_write [of E n seller ours theirs d amount now] by auto

lemma opening_terms_accept:
  assumes "plan_opening R now n q S = Return p" "confined R" "w \<in> set (opening_writes E clk su bu p)" "writes_terms nid w"
  shows "nd_action (ev_decision (pl_evaluation p)) = ''accept''"
proof -
  note f = plan_opening_fields [OF assms(1,2)]
  note hook = side_no_terms [OF hook_writes_side(2) [OF f(4), of "\<lparr>op_acceptance = pl_acceptance p, op_evaluation = pl_evaluation p\<rparr>"]]
  show ?thesis
  proof (rule ccontr)
    assume n: "nd_action (ev_decision (pl_evaluation p)) \<noteq> ''accept''"
    with assms(3,4) f(1,5) show False
      by (auto simp: opening_writes_def Let_def writes_terms_def [of _ "Create_Thread _ _ _ _"] dest: hook)
  qed
qed

lemma counter_terms_accept:
  assumes "w \<in> set (counter_writes E clk H q ev a arts theirs amount)" "writes_terms nid w"
  shows "nd_action (ev_decision ev) = ''accept''"
  using assms by (auto simp: counter_writes_def Let_def split: if_splits)

text \<open>C18: no deal on a listing its source does not support.  Whatever request records terms --- an
  opening the seller accepts, a counter it accepts, the buyer's acceptance or an administrator's ---
  the domain's check was made in the state the decision was made in, and reported that the listing
  matches its source.\<close>

theorem no_deal_without_source:
  assumes R: "confined R" and ws: "request_writes R q t S = Return ws" and w: "w \<in> set ws" "writes_terms nid w"
  shows "decided_on_source R q t S"
proof (cases q)
  case (Start_Negotiation clk n actor su bu r)
  with ws obtain p where plan: "plan_opening R (clk 0) n r S = Return p" and p: "ws = opening_writes (nrt_env R) clk su bu p"
    by (auto simp: start_plan_def res_bind_Inr_iff split: if_splits)
  from opening_terms_accept [OF plan R w(1) [unfolded p] w(2)] have a: "nd_action (ev_decision (pl_evaluation p)) = ''accept''" .
  from plan obtain rv H te where H: "nrt_resolve_opening R S (so_listing r) = Return (rv, H)"
    and e: "opening_evaluation H S rv r te = Return (pl_evaluation p)"
    by (auto simp: plan_opening_def res_bind_Inr_iff Let_def)
  from e a have "source_matches H S rv"
    by (auto simp: opening_evaluation_def res_bind_Inr_iff intro: enforced_decision split: if_splits)
  with H Start_Negotiation show ?thesis by simp
next
  case (Continue_Negotiation clk n r)
  with ws w obtain v resp where t: "t = Some v" and p: "continue_plan R clk r v S = Return (ws, resp)"
    by (cases t) (auto simp: res_bind_Inr_iff)
  from p have "\<exists>x. resume_thread R S v = Return x \<and> source_matches (rt_hooks x) S (rt_resolved x)"
  proof (cases rule: continue_planE)
    case (1 buyer seller x h)
    from 1(6) have "source_matches (rt_hooks x) S (rt_resolved x)"
      by (auto simp: continue_accept_def res_bind_Inr_iff intro: enforced_acceptance)
    with 1(2) show ?thesis by blast
  next
    case (2 buyer seller x)
    with w show ?thesis by (auto simp: continue_exit_def)
  next
    case (3 buyer seller x h)
    from 3(6) obtain ev a arts theirs amount where ev: "counter_evaluation S v x buyer h (case co_proposal r of Some p \<Rightarrow> Some p | None \<Rightarrow> rt_pinned x) = Return ev"
      and c: "ws = counter_writes (nrt_env R) clk (rt_hooks x) r ev a arts theirs amount" by (rule continue_counterE)
    from counter_terms_accept [OF w(1) [unfolded c] w(2)] ev have "source_matches (rt_hooks x) S (rt_resolved x)"
      by (auto simp: counter_evaluation_def Let_def res_bind_Inr_iff intro: enforced_decision)
    with 3(2) show ?thesis by blast
  qed
  with resume_source [of R S v] t Continue_Negotiation show ?thesis by auto
next
  case (Force_Accept clk listing n amount actor)
  with ws w obtain v resp where t: "t = Some v" and p: "force_accept_plan R clk listing amount actor v S = Return (ws, resp)"
    by (cases t) (auto simp: res_bind_Inr_iff)
  from p obtain x where x: "resume_thread R S v = Return x" "enforce_on_acceptance (rt_hooks x) S (rt_resolved x) listing = Return ()"
    by (auto simp: force_accept_plan_def res_bind_Inr_iff split: if_splits)
  with resume_source [OF x(1)] enforced_acceptance [OF x(2)] t Force_Accept show ?thesis by auto
next
  case (Sweep W clk)
  with ws w show ?thesis by (auto simp: sweep_writes_def writes_terms_def)
qed

text \<open>C23: the buyer's acceptance takes exactly the seller's last counter: the agreed amount is the one
  the transcript ends with, whatever the request says, and the terms are recorded for the thread
  the request is about.\<close>

theorem buyer_accept_takes_last_offer:
  assumes R: "confined R" and p: "continue_plan R clk q t S = Return (ws, resp)" and q: "co_action q = ''accept''"
    and w: "Commit_Terms nid terms stamp \<in> set ws"
  shows "nid = tv_id t \<and> (\<exists>ms n. load_negotiation_thread (nrt_env R) S (tv_id t) = Return ms \<and> ms \<noteq> [] \<and>
    mv_role (last ms) = ''seller'' \<and> mv_action (last ms) = ''counter_offer'' \<and> mv_proposed (last ms) = Some n \<and> at_price terms = PInt n)"
  by (rule buyer_accept_amount [OF assms])

section \<open>Threads and transcripts\<close>

text \<open>C21: however requests and sweeps interleave, repository call by repository call, and wherever they
  stop, a reached store has one row per negotiation, bound to a valid buyer and seller; each
  transcript is numbered from 0 without a gap; a message signed as buyer's or seller's carries that
  party's principal; and a negotiation marked successful has recorded terms.  The hypothesis is
  that the domain's hooks write only the plan of their own negotiation and the domain's tables.\<close>

theorem reachable_negotiations_wellformed:
  assumes "confined R" "reachable R (S, P)"
  shows "distinct (map tr_id (threads S)) \<and>
    (\<forall>t \<in> set (threads S). parties_ok t \<and> (tr_terminal t = Some ''success'' \<longrightarrow> tr_agreed_at t \<noteq> None) \<and>
       map mg_round (thread_messages S (tr_id t)) = map int [0..<length (thread_messages S (tr_id t))]) \<and>
    (\<forall>m \<in> set (messages S). \<exists>t. find_thread S (mg_thread m) = Some t \<and> author_ok t m)"
  using reachable_ok [OF assms] by (auto simp: runs_ok_def store_ok_def agreed_def contiguous_def)

text \<open>C19: terms are final.  Once a negotiation has recorded its terms, no sequence of requests and
  sweeps, one after the other and each cut short after any of its writes, changes its price,
  duration, start, acceptance time, agreement or settlement data.\<close>

theorem agreed_terms_are_final:
  assumes "confined R" "\<forall>x \<in> set xs. opens (fst x) \<noteq> Some nid" "find_thread S nid = Some t" "has_terms t"
  shows "\<exists>u. find_thread (perform_all R xs S) nid = Some u \<and> same_terms t u"
  using terms_are_final [OF assms(1) _ assms(3,4)] assms(2) by blast

text \<open>C20: a closed negotiation is final.  No later request or sweep changes its row or its transcript.\<close>

theorem closed_negotiation_is_final:
  assumes "confined R" "store_ok S" "\<forall>x \<in> set xs. admissible (fst x) \<and> opens (fst x) \<noteq> Some nid"
    and "find_thread S nid = Some t" "thread_closed t"
  shows "find_thread (perform_all R xs S) nid = Some t \<and> thread_messages (perform_all R xs S) nid = thread_messages S nid"
  using closed_is_final [OF assms(1,2) _ assms(4,5)] assms(3) by blast

text \<open>C22: bargaining terminates.  Where the seller's policy counters fewer than \<open>M\<close> times, of any number
  of counters the buyer sends at most \<open>M + 1\<close> less the seller's counters already in the transcript
  are answered; every other one is refused.\<close>

theorem bargaining_terminates:
  assumes "confined R" "bounded_policy M R" "store_ok S" "\<forall>(clk, q) \<in> set qs. co_action q = ''counter'' \<and> principal_ok (co_actor q)"
  shows "answered (snd (bargain_on R nid qs S)) \<le> Suc (M - seller_counters S nid)"
  by (rule bargaining_bounded [OF assms(1-3)]) (use assms(4) in auto)

section \<open>Two acceptances at once\<close>

lemma deal_amount_150 [simp]: "amount_to_db_text deal_env (PInt 150) = Return (Some ''150'')"
  by code_simp


definition deal_accepting :: "principal \<Rightarrow> string \<Rightarrow> int \<Rightarrow> int \<Rightarrow> nego_write list" where
  "deal_accepting actor role ours n =
    [append_message deal_env ''n'' actor role (PInt ours) (PInt n) (PInt n) ''accept_offer'' ''accepted'' 0,
     Commit_Terms ''n'' (deal_terms n) ''2026-01-01T00:00:00'', Set_Terminal ''n'' ''success'' ''2026-01-01T00:00:00'']"

definition deal_prices :: "nego_store \<Rightarrow> (string option \<times> string option) list" where
  "deal_prices S = map (\<lambda>t. (tr_terminal t, tr_price t)) (threads S)"

text \<open>The watchdog's snapshot of the open negotiation; the clock has passed its timeout.\<close>

definition deal_watchdog :: watchdog_policy where
  "deal_watchdog = \<lparr>wp_timeout = 5, wp_interval = 1, wp_terminal = ''failure'', wp_delay = 0\<rparr>"

definition deal_done :: nego_store where
  "deal_done = deal_open\<lparr>threads := map (\<lambda>t. t\<lparr>tr_status := ''terminated'', tr_updated := ''2026-01-01T00:00:00'',
       tr_terminal := Some ''success'', tr_price := Some ''90'', tr_agreed_duration := Some 0, tr_start := Some ''2026-01-01T00:00:00Z'',
       tr_agreed_at := Some ''2026-01-01T00:00:00Z''\<rparr>) (threads deal_open),
     messages := messages deal_open @ [(deal_message 2 ''buyer'' deal_buyer ''90'' ''accept_offer'' ''accepted'')\<lparr>mg_theirs := Some ''90''\<rparr>]\<rparr>"

lemma deal_once: "run_writes deal_env (deal_accepting deal_buyer ''buyer'' 100 90) deal_open = (deal_done, None)"
  by code_simp

lemma deal_done_price: "deal_prices deal_done = [(Some ''success'', Some ''90'')]"
  by code_simp

lemma deal_swept:
  "sweep_writes deal_env deal_watchdog (\<lambda>_. 10) deal_open = [Set_Terminal ''n'' ''failure'' ''2026-01-01T00:00:00''] \<and>
   deal_prices (fst (run_writes deal_env [Set_Terminal ''n'' ''failure'' ''2026-01-01T00:00:00''] deal_done)) = [(Some ''failure'', Some ''90'')]"
  by code_simp


text \<open>The watchdog closes as failed a negotiation that succeeded after it was listed.\<close>

lemma sweep_overwrites_success:
  "deal_prices deal_done = [(Some ''success'', Some ''90'')] \<and>
   deal_prices (fst (run_writes deal_env (sweep_writes deal_env deal_watchdog (\<lambda>_. 10) deal_open) deal_done)) = [(Some ''failure'', Some ''90'')]"
  using deal_swept deal_done_price by simp

text \<open>Two messages that are appended at once are given the same round, and the later write replaces
  the earlier one.\<close>

definition deal_note :: "principal \<Rightarrow> string \<Rightarrow> string \<Rightarrow> nego_message" where
  "deal_note p role action = \<lparr>nm_thread = ''n'', nm_role = role, nm_sender = p, nm_ours = PNone, nm_theirs = PNone,
     nm_proposed = PNone, nm_action = action, nm_type = action, nm_stamp = ''2026-01-01T00:00:00''\<rparr>"

lemma overlapping_messages_overwrite:
  "message_round (deal_note deal_buyer ''buyer'' ''counter_offer'') deal_open = Return 2 \<and>
   message_round (deal_note deal_buyer ''buyer'' ''exit_negotiation'') deal_open = Return 2 \<and>
   map_sum id (\<lambda>S. map mg_action (messages S))
     (res_bind (write_message deal_env 2 (deal_note deal_buyer ''buyer'' ''counter_offer'') deal_open)
        (write_message deal_env 2 (deal_note deal_buyer ''buyer'' ''exit_negotiation''))) =
   Return [''make_offer'', ''counter_offer'', ''exit_negotiation'']"
  by code_simp

section \<open>Witnesses\<close>

definition small_env :: nego_env where
  "small_env = \<lparr>ne_frepr = (\<lambda>_. ''0.0''), ne_loads = (\<lambda>_. None), ne_slot = (\<lambda>_ _ _. None)\<rparr>"

definition small_context :: nego_context where
  "small_context = \<lparr>nc_direction = ''maximize'', nc_reference = PInt 100, nc_opening = PNone, nc_listing = [], nc_proposal = None,
     nc_resources = [], nc_max_rounds = 5, nc_source = None, nc_intermediate = []\<rparr>"

definition small_history :: "nego_round list" where
  "small_history = [\<lparr>nr_number = 0, nr_sender = Them, nr_action = ''initial'',
     nr_proposal = Some [(PStr ''fields'', PDict [(PStr ''amount'', PStr ''80'')])]\<rparr>]"

theorem bisection_stays_in_bounds_witness:
  "\<exists>d n. bisection small_env small_history small_context = Return (Some d, small_context) \<and>
     nd_action d = ''counter'' \<and> amount_from_proposal small_env (nd_proposal d) = Return (Some n) \<and> 80 \<le> n \<and> n < 100 \<and> 500 \<le> 6 * n + 5"
proof -
  let ?d = "decide ''counter'' (Some [(PStr ''fields'', PDict [(PStr ''amount'', PStr ''90'')])]) None"
  have b: "bisection small_env small_history small_context = Return (Some ?d, small_context)" by code_simp
  have t: "their_proposed_amount small_env small_history = Return (Some 80)" by code_simp
  have o: "exact_amount small_env ''our_reference_amount'' (nc_reference small_context) = Return 100" by code_simp
  from bisection_stays_in_bounds [OF b t o] b show ?thesis by (auto simp: small_context_def)
qed

lemma deal_identifier_free: "identifier_free (deal_runtime M)"
  by (auto simp: identifier_free_def deal_runtime_def deal_hooks_def same_refusal_def)

lemma deal_opens: "\<exists>ws resp. start_plan (deal_runtime 2) (\<lambda>_. 0) ''n'' deal_buyer ''s'' ''b'' deal_opening (empty_store PNone) = Return (ws, resp)"
proof -
  have "\<not> isl (start_plan (deal_runtime 2) (\<lambda>_. 0) ''n'' deal_buyer ''s'' ''b'' deal_opening (empty_store PNone))" by code_simp
  then show ?thesis by (cases "start_plan (deal_runtime 2) (\<lambda>_. 0) ''n'' deal_buyer ''s'' ''b'' deal_opening (empty_store PNone)") auto
qed

theorem preview_agrees_with_start_witness:
  "\<exists>p. preview_opening (deal_runtime 2) 0 deal_opening (empty_store PNone) = Return (preview_of p)"
proof -
  have b: "so_buyer deal_opening = deal_buyer" by (simp add: deal_opening_def)
  from preview_agrees_with_start [OF deal_identifier_free [of 2], where clk = "\<lambda>_. 0" and nid = "''n''" and q = deal_opening and
      su = "''s''" and bu = "''b''" and S = "empty_store PNone"]
    deal_opens show ?thesis by (auto simp: b)
qed

lemma deal_say_writes:
  "request_writes (deal_runtime M) (deal_say ''accept'') (Some deal_thread) deal_open = Return (deal_accepting deal_buyer ''buyer'' 100 90)"
  using deal_accept_plan [of M] by (auto simp: deal_say_def deal_accepting_def)

theorem no_deal_without_source_witness: "decided_on_source (deal_runtime 2) (deal_say ''accept'') (Some deal_thread) deal_open"
  by (rule no_deal_without_source [OF deal_confined deal_say_writes, of "Commit_Terms ''n'' (deal_terms 90) ''2026-01-01T00:00:00''" "''n''"])
    (simp_all add: deal_accepting_def writes_terms_def)

theorem buyer_accept_takes_last_offer_witness:
  "\<exists>ms. load_negotiation_thread deal_env deal_open ''n'' = Return ms \<and> mv_proposed (last ms) = Some 90"
proof -
  obtain r where p: "continue_plan (deal_runtime 2) (\<lambda>_. 0) (deal_reply ''accept'') deal_thread deal_open =
      Return (deal_accepting deal_buyer ''buyer'' 100 90, r)"
    using deal_accept_plan [of 2] by (auto simp: deal_accepting_def)
  have "Commit_Terms ''n'' (deal_terms 90) ''2026-01-01T00:00:00'' \<in> set (deal_accepting deal_buyer ''buyer'' 100 90)"
    by (simp add: deal_accepting_def)
  from buyer_accept_takes_last_offer [OF deal_confined p _ this] show ?thesis
    by (auto simp: deal_reply_def deal_terms_def deal_thread_def)
qed


text \<open>The opening's first write, reached by two steps.\<close>

definition deal_plan :: "nego_write list" where
  "deal_plan = projr (request_writes (deal_runtime 2) deal_start None (empty_store PNone))"

definition deal_created :: nego_store where
  "deal_created = projr (apply_write deal_env (hd deal_plan) (empty_store PNone))"

lemma deal_created_reachable: "reachable (deal_runtime 2) (deal_created, [Writing (tl deal_plan)])"
proof -
  let ?R = "deal_runtime 2" and ?S = "empty_store PNone"
  have "\<not> isl (request_writes ?R deal_start None ?S)" by code_simp
  then have p: "request_writes ?R deal_start None ?S = Return deal_plan"
    by (cases "request_writes ?R deal_start None ?S") (auto simp: deal_plan_def)
  have "deal_plan \<noteq> []" "\<not> is_append (hd deal_plan)" "\<not> isl (apply_write deal_env (hd deal_plan) ?S)" by code_simp+
  then have w: "deal_plan = hd deal_plan # tl deal_plan" "\<not> is_append (hd deal_plan)"
    "apply_write (nrt_env ?R) (hd deal_plan) ?S = Return deal_created"
    by (auto simp: deal_created_def split: sum.splits)
  have "subject deal_start = None" by (simp add: deal_start_def)
  then have 1: "nego_step ?R (?S, []) (?S, [] @ [Writing deal_plan])" using deal_admissible(1) p by (rule nego_step.direct)
  have "nego_step ?R (?S, [Writing deal_plan]) (deal_created, [Writing deal_plan][0 := Writing (tl deal_plan)])"
    by (rule nego_step.performed [where w = "hd deal_plan"]) (use w in simp_all)
  with 1 have "(nego_step ?R)\<^sup>*\<^sup>* (?S, []) (deal_created, [Writing (tl deal_plan)])"
    by (intro rtranclp.rtrancl_into_rtrancl [OF rtranclp.rtrancl_into_rtrancl [OF rtranclp.rtrancl_refl]]) simp_all
  then show ?thesis by (auto simp: reachable_def)
qed

theorem reachable_negotiations_wellformed_witness:
  "map tr_id (threads deal_created) = [''n''] \<and> list_all parties_ok (threads deal_created)"
proof -
  have "map tr_id (threads deal_created) = [''n'']" by code_simp
  with reachable_negotiations_wellformed [OF deal_confined deal_created_reachable] show ?thesis by (simp add: list_all_iff)
qed

definition deal_later :: "(nego_request \<times> nat) list" where
  "deal_later = [(deal_say ''accept'', 9), (deal_say ''exit'', 9)]"

definition deal_closed_row :: thread_row where
  "deal_closed_row = hd (threads deal_done)"

lemma deal_done_row: "find_thread deal_done ''n'' = Some deal_closed_row" "has_terms deal_closed_row" "thread_closed deal_closed_row"
  by code_simp+

theorem agreed_terms_are_final_witness:
  "\<exists>u. find_thread (perform_all (deal_runtime 2) deal_later deal_done) ''n'' = Some u \<and> tr_price u = Some ''90''"
proof -
  have "tr_price deal_closed_row = Some ''90''" by code_simp
  with agreed_terms_are_final [OF deal_confined _ deal_done_row(1,2), of deal_later 2] show ?thesis
    by (auto simp: deal_later_def deal_say_def same_terms_def)
qed

lemma deal_done_ok: "store_ok deal_done"
proof -
  have p: "serial_plan (deal_runtime 2) (deal_say ''accept'') deal_open = Return (deal_accepting deal_buyer ''buyer'' 100 90)"
    using deal_say_writes [of 2] by (simp add: serial_plan_def deal_say_def)
  have "take 9 (deal_accepting deal_buyer ''buyer'' 100 90) = deal_accepting deal_buyer ''buyer'' 100 90"
    by (simp add: deal_accepting_def)
  then have "perform (deal_runtime 2) (deal_say ''accept'', 9) deal_open = deal_done"
    by (simp add: perform_def p deal_once)
  moreover have "deal_store [(deal_say ''accept'', 9)] = perform (deal_runtime 2) (deal_say ''accept'', 9) (deal_store [])"
    by (simp add: deal_store_def perform_all_def)
  ultimately have "deal_store [(deal_say ''accept'', 9)] = deal_done" by (simp add: deal_store_open)
  with deal_store_ok [of "[(deal_say ''accept'', 9)]"] show ?thesis by (simp add: deal_admissible)
qed

theorem closed_negotiation_is_final_witness:
  "find_thread (perform_all (deal_runtime 2) deal_later deal_done) ''n'' = Some deal_closed_row"
  using closed_negotiation_is_final [OF deal_confined deal_done_ok _ deal_done_row(1,3), of deal_later 2]
  by (simp add: deal_later_def deal_admissible) (simp add: deal_say_def)

theorem bargaining_terminates_witness:
  "answered (snd (bargain_on (deal_runtime 2) ''n'' (replicate 5 (\<lambda>_. 0, deal_reply ''counter'')) deal_open)) \<le> 2"
proof -
  have ok: "store_ok deal_open" using deal_store_ok [of "[]"] by (simp add: deal_store_open)
  have one: "seller_counters deal_open ''n'' = 1" by code_simp
  have "\<forall>(clk, q) \<in> set (replicate 5 (\<lambda>_. 0 :: int, deal_reply ''counter'')). co_action q = ''counter'' \<and> principal_ok (co_actor q)"
    by (auto simp: deal_reply_def deal_parties)
  from bargaining_terminates [OF deal_confined [of 2] deal_bounded ok this, where nid = "''n''"] one show ?thesis by simp
qed

end
