(* ===== verification/Credit_Pricing.thy ===== *)
theory Credit_Pricing
  imports Scalar_Bargains Capability_Pricing Market_Identity
begin

text \<open>
  What an API-credit listing asks for a quantity of credits: the escrow proposals of
  \<open>src/kit/alkahest/src/market_alkahest/schemas.py\<close> and their normalisation against a listing, the
  settlement options of \<open>src/core/src/market_core/schemas.py\<close>, and
  \<open>src/domains/apicredits/src/arkhai_apicredits/listings\<close> (\<open>models.py\<close>, \<open>pricing.py\<close>).

  A pydantic model is its dump, a JSON object with every field; a constructor either returns the
  dump or raises the \<open>ValidationError\<close>, whose text is the parameter \<open>ce_invalid\<close>.  The lax
  reading of an integer field (\<open>ce_int\<close>) and the digest of a settlement option
  (\<open>ce_option_id\<close>) come from other packages too.

  \<open>normalize_proposal_against_accepted_escrows\<close> writes the proposal's literal fields into the
  dictionary of the listing's own entry; the model returns the entries as the call leaves them.
\<close>

section \<open>Parameters\<close>

record credit_env =
  ce_nego :: nego_env
  ce_invalid :: "string \<Rightarrow> pyval \<Rightarrow> string"
  ce_int :: "pyval \<Rightarrow> int option"
  ce_option_id :: "jobj \<Rightarrow> string"

definition validated :: "credit_env \<Rightarrow> string \<Rightarrow> pyval \<Rightarrow> 'a option \<Rightarrow> (nego_error, 'a) result" where
  "validated C model v r = (case r of None \<Rightarrow> Raise (Value_Error (ce_invalid C model v)) | Some x \<Rightarrow> Return x)"

text \<open>The fields of a model: text, an object with text keys, a list of models, or nothing.\<close>

definition text_field :: "pyval \<Rightarrow> string option" where
  "text_field v = (case v of PStr s \<Rightarrow> Some s | _ \<Rightarrow> None)"

definition object_field :: "pyval \<Rightarrow> jobj option" where
  "object_field v = (case v of PDict d \<Rightarrow> if list_all (\<lambda>p. is_str (fst p)) d then Some d else None | _ \<Rightarrow> None)"

definition field_or :: "jobj \<Rightarrow> string \<Rightarrow> pyval \<Rightarrow> pyval" where
  "field_or d k v = (if jhas d k then jget d k else v)"

definition optional_field :: "(pyval \<Rightarrow> pyval option) \<Rightarrow> pyval \<Rightarrow> pyval option" where
  "optional_field f v = (if v = PNone then Some PNone else f v)"

fun all_of :: "(pyval \<Rightarrow> 'a option) \<Rightarrow> pyval list \<Rightarrow> 'a list option" where
  "all_of f [] = Some []"
| "all_of f (v # vs) = Option.bind (f v) (\<lambda>x. map_option (Cons x) (all_of f vs))"

definition list_field :: "(pyval \<Rightarrow> 'a option) \<Rightarrow> pyval \<Rightarrow> 'a list option" where
  "list_field f v = (case v of PList xs \<Rightarrow> all_of f xs | _ \<Rightarrow> None)"

section \<open>Rates\<close>

text \<open>\<open>_parse_uint256_str\<close>: the outer option is the \<open>ValueError\<close>.\<close>

definition parse_uint256 :: "pyval \<Rightarrow> int option option" where
  "parse_uint256 v = (case v of
     PNone \<Rightarrow> Some None
   | PInt n \<Rightarrow> if n < 0 then None else Some (Some n)
   | PStr s \<Rightarrow> (let t = py_strip s in
        if t = [] then Some None
        else if \<not> py_isdigit t then None
        else (case int_of_digits t of Inl _ \<Rightarrow> None | Inr n \<Rightarrow> Some (Some n)))
   | _ \<Rightarrow> None)"

record rate_slot =
  rt_field :: string
  rt_per :: string
  rt_value :: int

definition rate_slot_of :: "pyval \<Rightarrow> rate_slot option" where
  "rate_slot_of v = (case v of
     PDict d \<Rightarrow>
       Option.bind (text_field (jget d ''field'')) (\<lambda>f.
       Option.bind (text_field (field_or d ''per'' (PStr ''hour''))) (\<lambda>per.
       case parse_uint256 (jget d ''value'') of
         Some (Some n) \<Rightarrow> Some \<lparr>rt_field = f, rt_per = per, rt_value = n\<rparr>
       | _ \<Rightarrow> None))
   | _ \<Rightarrow> None)"

definition rate_dump :: "rate_slot \<Rightarrow> (nego_error, pyval) result" where
  "rate_dump r = res_bind (text_of_int (nat (rt_value r))) (\<lambda>s.
     Return (PDict [(PStr ''field'', PStr (rt_field r)), (PStr ''per'', PStr (rt_per r)), (PStr ''value'', PStr s)]))"

section \<open>Escrow proposals\<close>

definition escrow_demand_of :: "pyval \<Rightarrow> pyval option" where
  "escrow_demand_of v = (case v of
     PDict d \<Rightarrow>
       Option.bind (optional_field (\<lambda>x. map_option PStr (text_field x)) (jget d ''chain_name'')) (\<lambda>chain.
       Option.bind (text_field (jget d ''arbiter'')) (\<lambda>arbiter.
       Option.bind (object_field (field_or d ''demand_data'' (PDict []))) (\<lambda>data.
         Some (PDict [(PStr ''chain_name'', chain), (PStr ''arbiter'', PStr arbiter), (PStr ''demand_data'', PDict data)]))))
   | _ \<Rightarrow> None)"

text \<open>The model's fields, its rates still to be dumped.\<close>

record escrow_proposal =
  ep_chain :: string
  ep_address :: string
  ep_fields :: jobj
  ep_literals :: "jobj option"
  ep_rates :: "rate_slot list option"
  ep_demand :: pyval
  ep_demands :: pyval
  ep_expiration :: int

text \<open>The deprecated \<open>demands\<close> of a proposal become its \<open>demand\<close>.\<close>

definition coerce_legacy_demands :: "jobj \<Rightarrow> jobj option" where
  "coerce_legacy_demands d =
     (if jget d ''demand'' \<noteq> PNone then Some d
      else (case jget d ''demands'' of
          PNone \<Rightarrow> Some d
        | PList [] \<Rightarrow> Some d
        | PList [x] \<Rightarrow> Some (jset ''demand'' x d)
        | _ \<Rightarrow> None))"

definition escrow_proposal_fields :: "credit_env \<Rightarrow> jobj \<Rightarrow> escrow_proposal option" where
  "escrow_proposal_fields C d =
     Option.bind (text_field (jget d ''chain_name'')) (\<lambda>chain.
     Option.bind (text_field (jget d ''escrow_address'')) (\<lambda>address.
     Option.bind (object_field (field_or d ''fields'' (PDict []))) (\<lambda>fs.
     Option.bind (if jget d ''literal_fields'' = PNone then Some None else map_option Some (object_field (jget d ''literal_fields''))) (\<lambda>literals.
     Option.bind (if jget d ''rates'' = PNone then Some None else map_option Some (list_field rate_slot_of (jget d ''rates''))) (\<lambda>rates.
     Option.bind (optional_field escrow_demand_of (jget d ''demand'')) (\<lambda>demand.
     Option.bind (optional_field (\<lambda>x. map_option PList (list_field escrow_demand_of x)) (jget d ''demands'')) (\<lambda>demands.
     Option.bind (ce_int C (jget d ''expiration_unix'')) (\<lambda>expiration.
       if expiration \<le> 0 then None
       else Some \<lparr>ep_chain = chain, ep_address = address, ep_fields = fs, ep_literals = literals, ep_rates = rates,
          ep_demand = demand, ep_demands = demands, ep_expiration = expiration\<rparr>))))))))"

definition mk_escrow_proposal :: "credit_env \<Rightarrow> jobj \<Rightarrow> (nego_error, escrow_proposal) result" where
  "mk_escrow_proposal C d = validated C ''EscrowProposal'' (PDict d) (Option.bind (coerce_legacy_demands d) (escrow_proposal_fields C))"

definition proposal_dump :: "escrow_proposal \<Rightarrow> (nego_error, jobj) result" where
  "proposal_dump p =
     res_bind (case ep_rates p of None \<Rightarrow> Return PNone | Some rs \<Rightarrow> res_bind (res_map rate_dump rs) (\<lambda>xs. Return (PList xs))) (\<lambda>rates.
     Return [(PStr ''chain_name'', PStr (ep_chain p)), (PStr ''escrow_address'', PStr (ep_address p)),
       (PStr ''fields'', PDict (ep_fields p)),
       (PStr ''literal_fields'', case ep_literals p of None \<Rightarrow> PNone | Some d \<Rightarrow> PDict d),
       (PStr ''rates'', rates), (PStr ''demand'', ep_demand p), (PStr ''demands'', ep_demands p),
       (PStr ''expiration_unix'', PInt (ep_expiration p))])"

section \<open>A proposal against the escrows a listing accepts\<close>

text \<open>\<open>_rates_of\<close> and \<open>_literal_fields_of\<close> of a listing's entry.\<close>

definition entry_rates :: "jobj \<Rightarrow> (nego_error, pyval list) result" where
  "entry_rates entry =
     (if jhas entry ''option_id'' then settlement_option_rates entry
      else Return (case jget entry ''rates'' of PList xs \<Rightarrow> xs | _ \<Rightarrow> []))"

definition literal_fields_of :: "jobj \<Rightarrow> jobj" where
  "literal_fields_of entry = (case jget entry ''literal_fields'' of PDict d \<Rightarrow> d | _ \<Rightarrow> [])"

definition entry_matches :: "credit_env \<Rightarrow> escrow_proposal \<Rightarrow> pyval \<Rightarrow> bool" where
  "entry_matches C p v = (case v of
     PDict entry \<Rightarrow> jget entry ''chain_name'' = PStr (ep_chain p) \<and>
       py_lower (if py_truthy (jget entry ''escrow_address'')
         then py_str (ne_frepr (ce_nego C)) (jget entry ''escrow_address'') else []) = py_lower (ep_address p)
   | _ \<Rightarrow> False)"

text \<open>The first matching entry and what comes before and after it.\<close>

fun match_accepted_escrow :: "credit_env \<Rightarrow> escrow_proposal \<Rightarrow> pyval list \<Rightarrow> (pyval list \<times> jobj \<times> pyval list) option" where
  "match_accepted_escrow C p [] = None"
| "match_accepted_escrow C p (v # vs) =
     (if entry_matches C p v then (case v of PDict entry \<Rightarrow> Some ([], entry, vs) | _ \<Rightarrow> None)
      else map_option (\<lambda>(before, entry, after). (v # before, entry, after)) (match_accepted_escrow C p vs))"

text \<open>\<open>d.update(e)\<close>\<close>

definition dict_update :: "jobj \<Rightarrow> jobj \<Rightarrow> jobj" where
  "dict_update d e = fold (\<lambda>(k, v). dict_set k v) e d"

definition merged_literals :: "escrow_proposal \<Rightarrow> jobj \<Rightarrow> jobj" where
  "merged_literals p entry = dict_update (literal_fields_of entry) (case ep_literals p of None \<Rightarrow> [] | Some d \<Rightarrow> d)"

text \<open>The entry shares its literal fields with the merge, when it has any of the right type.\<close>

definition entry_after_merge :: "escrow_proposal \<Rightarrow> jobj \<Rightarrow> jobj" where
  "entry_after_merge p entry = (case jget entry ''literal_fields'' of
     PDict _ \<Rightarrow> jset ''literal_fields'' (PDict (merged_literals p entry)) entry
   | _ \<Rightarrow> entry)"

text \<open>Returns the entries as the call leaves them, and the proposal or the error.\<close>

definition normalize_proposal ::
    "credit_env \<Rightarrow> escrow_proposal \<Rightarrow> pyval list \<Rightarrow> pyval list \<times> (nego_error, escrow_proposal) result" where
  "normalize_proposal C p entries = (case match_accepted_escrow C p entries of
     None \<Rightarrow> (entries, Return p)
   | Some (before, entry, after) \<Rightarrow>
       (before @ PDict (entry_after_merge p entry) # after,
        res_bind (case ep_rates p of
            Some rs \<Rightarrow> res_map rate_dump rs
          | None \<Rightarrow> entry_rates entry) (\<lambda>rates.
        mk_escrow_proposal C
          [(PStr ''chain_name'', PStr (ep_chain p)), (PStr ''escrow_address'', PStr (ep_address p)),
           (PStr ''fields'', PDict (ep_fields p)), (PStr ''literal_fields'', PDict (merged_literals p entry)),
           (PStr ''rates'', PList rates), (PStr ''demand'', ep_demand p), (PStr ''expiration_unix'', PInt (ep_expiration p))])))"

section \<open>Settlement options\<close>

record settlement_price =
  pc_asset :: string
  pc_rates :: "rate_slot list"

definition settlement_price_of :: "pyval \<Rightarrow> settlement_price option" where
  "settlement_price_of v = (case v of
     PDict d \<Rightarrow>
       if \<not> list_all (\<lambda>p. fst p \<in> {PStr ''asset'', PStr ''rates''}) d then None
       else Option.bind (text_field (jget d ''asset'')) (\<lambda>asset.
         Option.bind (list_field rate_slot_of (field_or d ''rates'' (PList []))) (\<lambda>rates.
           if asset = [] then None else Some \<lparr>pc_asset = asset, pc_rates = rates\<rparr>))
   | _ \<Rightarrow> None)"

definition price_dump :: "settlement_price \<Rightarrow> (nego_error, pyval) result" where
  "price_dump p = res_bind (res_map rate_dump (pc_rates p)) (\<lambda>rates.
     Return (PDict [(PStr ''asset'', PStr (pc_asset p)), (PStr ''rates'', PList rates)]))"

text \<open>\<open>derive_settlement_option_id\<close>: what is digested.\<close>

definition option_payload :: "jobj \<Rightarrow> settlement_price option \<Rightarrow> jobj option \<Rightarrow> (nego_error, jobj) result" where
  "option_payload settlement price lifecycle =
     res_bind (case price of None \<Rightarrow> Return [] | Some p \<Rightarrow> res_bind (price_dump p) (\<lambda>v. Return [(PStr ''price'', v)])) (\<lambda>priced.
     Return ([(PStr ''settlement'', PDict settlement)] @ priced
       @ (case lifecycle of None \<Rightarrow> [] | Some l \<Rightarrow> [(PStr ''lifecycle'', PDict l)])))"

record settlement_option =
  op_id :: string
  op_price :: "settlement_price option"
  op_settlement :: jobj
  op_lifecycle :: "jobj option"

definition is_option_id :: "string \<Rightarrow> bool" where
  "is_option_id s = (length s = 64 \<and> list_all is_lower_hex s)"

definition settlement_option_of :: "credit_env \<Rightarrow> jobj \<Rightarrow> settlement_option option" where
  "settlement_option_of C d =
     (if \<not> list_all (\<lambda>p. fst p \<in> {PStr ''option_id'', PStr ''price'', PStr ''settlement'', PStr ''lifecycle''}) d then None
      else
        Option.bind (text_field (jget d ''option_id'')) (\<lambda>oid.
        Option.bind (if jget d ''price'' = PNone then Some None else map_option Some (settlement_price_of (jget d ''price''))) (\<lambda>price.
        Option.bind (object_field (jget d ''settlement'')) (\<lambda>settlement.
        Option.bind (if jget d ''lifecycle'' = PNone then Some None else map_option Some (object_field (jget d ''lifecycle''))) (\<lambda>lifecycle.
          if (case jget settlement ''schema'' of PStr s \<Rightarrow> py_strip s = [] | _ \<Rightarrow> True) then None
          else if \<not> is_option_id oid then None
          else (case option_payload settlement price lifecycle of
              Inl _ \<Rightarrow> None
            | Inr payload \<Rightarrow> if oid \<noteq> ce_option_id C payload then None
                else Some \<lparr>op_id = oid, op_price = price, op_settlement = settlement, op_lifecycle = lifecycle\<rparr>))))))"

definition price_rates :: "settlement_option \<Rightarrow> rate_slot list" where
  "price_rates option = (case op_price option of None \<Rightarrow> [] | Some p \<Rightarrow> pc_rates p)"

section \<open>Listing resources\<close>

definition API_CREDITS_KIND :: string where "API_CREDITS_KIND = ''api_credits.v1''"

definition coerce_resource_dict :: "nego_env \<Rightarrow> pyval \<Rightarrow> jobj" where
  "coerce_resource_dict E v = (case v of
     PDict d \<Rightarrow> d
   | PStr s \<Rightarrow> if py_strip s = [] then [] else (case ne_loads E s of Some (PDict d) \<Rightarrow> d | _ \<Rightarrow> [])
   | _ \<Rightarrow> [])"

definition resource_is_api_credits :: "nego_env \<Rightarrow> pyval \<Rightarrow> bool" where
  "resource_is_api_credits E v = (jget (coerce_resource_dict E v) ''kind'' = PStr API_CREDITS_KIND)"

section \<open>Unit prices\<close>

definition MAX_BASE_UNIT_AMOUNT :: int where "MAX_BASE_UNIT_AMOUNT = 2 ^ 256 - 1"

definition is_bool :: "pyval \<Rightarrow> bool" where
  "is_bool v = (case v of PBool _ \<Rightarrow> True | _ \<Rightarrow> False)"

definition checked_credit_total :: "pyval \<Rightarrow> pyval \<Rightarrow> (nego_error, int) result" where
  "checked_credit_total unit_rate quantity =
     (if is_bool unit_rate \<or> is_bool quantity then Raise (Value_Error ''API-credit rate and quantity must be integers'')
      else catching value_or_type_error (res_bind (py_int unit_rate) (\<lambda>rate. res_bind (py_int quantity) (\<lambda>count. Return (rate, count))))
        (\<lambda>_. Raise (Value_Error ''API-credit rate and quantity must be integers''))
        (\<lambda>(rate, count).
          if \<not> py_eq (PInt rate) unit_rate \<or> \<not> py_eq (PInt count) quantity
          then Raise (Value_Error ''API-credit pricing does not admit fractional base units'')
          else if rate < 0 \<or> count < 1 then Raise (Value_Error ''API-credit rate must be non-negative and quantity positive'')
          else if MAX_BASE_UNIT_AMOUNT < rate * count
          then Raise (Value_Error ''API-credit quantity-scaled amount exceeds uint256'')
          else Return (rate * count)))"

definition primary_rate_value :: "jobj \<Rightarrow> (nego_error, int option) result" where
  "primary_rate_value entry =
     res_bind (if jhas entry ''option_id'' then res_bind (settlement_option_rates entry) (\<lambda>xs. Return (PList xs))
       else Return (jget entry ''rates'')) (\<lambda>rates.
     case rates of
       PList (PDict first # _) \<Rightarrow> (case jget first ''value'' of
           PStr s \<Rightarrow> if py_isdigit (py_strip s) then res_bind (int_of_digits (py_strip s)) (\<lambda>n. Return (Some n)) else Return None
         | PInt n \<Rightarrow> Return (Some n)
         | _ \<Rightarrow> Return None)
     | _ \<Rightarrow> Return None)"

definition selected_option_rate :: "credit_env \<Rightarrow> jobj \<Rightarrow> (nego_error, int option) result" where
  "selected_option_rate C option =
     res_bind (validated C ''SettlementOption'' (PDict option) (settlement_option_of C option)) (\<lambda>parsed.
     case filter (\<lambda>r. rt_field r = ''amount'') (price_rates parsed) of
       [] \<Rightarrow> Return None
     | [rate] \<Rightarrow>
         if rt_per rate \<notin> {''credit'', ''token'', ''request''} then Raise (Value_Error ''selected API-credit option rate is not per credit'')
         else res_bind (checked_credit_total (PInt (rt_value rate)) (PInt 1)) (\<lambda>n. Return (Some n))
     | _ \<Rightarrow> Raise (Value_Error ''selected API-credit option has more than one amount rate''))"

text \<open>The buyer's reading of the same rate: the option is named by its identifier and mechanism.\<close>

definition settlement_options :: "credit_env \<Rightarrow> jobj \<Rightarrow> (nego_error, settlement_option list) result" where
  "settlement_options C order =
     (let raw = (case jget order ''settlement_options'' of
          PStr s \<Rightarrow> (case ne_loads (ce_nego C) s of Some v \<Rightarrow> v | None \<Rightarrow> PNone) | v \<Rightarrow> v) in
      res_bind (if py_truthy raw then py_iter raw else Return []) (res_map (\<lambda>entry. validated C ''SettlementOption'' entry
        (case entry of PDict d \<Rightarrow> settlement_option_of C d | _ \<Rightarrow> None))))"

definition selected_unit_price :: "credit_env \<Rightarrow> jobj \<Rightarrow> string \<Rightarrow> string \<Rightarrow> (nego_error, int) result" where
  "selected_unit_price C order oid mechanism =
     res_bind (settlement_options C order) (\<lambda>options.
     case filter (\<lambda>option. op_id option = oid \<and> jget (op_settlement option) ''schema'' = PStr mechanism) options of
       [option] \<Rightarrow> (case filter (\<lambda>r. rt_field r = ''amount'') (price_rates option) of
           [rate] \<Rightarrow> if rt_per rate \<notin> {''credit'', ''token'', ''request''}
             then Raise (Value_Error ''selected API-credit option rate is not per credit'')
             else checked_credit_total (PInt (rt_value rate)) (PInt 1)
         | _ \<Rightarrow> Raise (Value_Error ''selected API-credit option requires one amount rate''))
     | _ \<Rightarrow> Raise (Value_Error ''settlement selection does not exact-match one listing option''))"

text \<open>\<open>Fraction(text)\<close> of decimal text: each run of digits is converted by \<open>int\<close>.\<close>

definition fraction_of :: "string \<Rightarrow> (nego_error, rat) result" where
  "fraction_of txt = (let (whole, fraction) = py_partition (CHR ''.'') txt in
     if INT_MAX_STR_DIGITS < length whole then Raise (digits_limit_error (length whole))
     else if INT_MAX_STR_DIGITS < length fraction then Raise (digits_limit_error (length fraction))
     else Return (of_nat (digits_val (whole @ fraction)) / 10 ^ length fraction))"

definition exact_floor :: "credit_env \<Rightarrow> pyval \<Rightarrow> pyval \<Rightarrow> (nego_error, rat option) result" where
  "exact_floor C v listing_id =
     (let E = ce_nego C; shown = ''[seller.pricing].default_min_price='' @ reprv E v; lid = py_str (ne_frepr E) listing_id;
          refuse_number = Raise (Value_Error (shown @ '' is not a valid number for an exact floor; state it as decimal text. Hidden-reserve listing ''
            @ lid @ '' has no usable floor.''));
          read_text = (\<lambda>raw. let txt = py_strip raw in
            if txt = [] then Return None
            else if \<not> DECIMAL_TEXT txt
            then Raise (Value_Error (shown @ '' is not a valid number; hidden-reserve listing '' @ lid @ '' has no usable floor.''))
            else res_bind (fraction_of txt) (\<lambda>q. Return (Some q)))
      in case v of
        PNone \<Rightarrow> Return None
      | PBool _ \<Rightarrow> refuse_number
      | PFloat _ \<Rightarrow> refuse_number
      | _ \<Rightarrow> read_text (py_str (ne_frepr E) v))"

text \<open>\<open>int | Fraction\<close>\<close>

datatype unit_price = Rate int | Floor rat

definition extract_unit_price :: "credit_env \<Rightarrow> jobj \<Rightarrow> pyval \<Rightarrow> jobj option \<Rightarrow> (nego_error, unit_price) result" where
  "extract_unit_price C order default_min_price proposal =
     (let E = ce_nego C; lid = py_str (ne_frepr E) (jget order ''listing_id'') in
      res_bind (selected_settlement_artifact E order proposal) (\<lambda>selected.
      res_bind (case selected of
          None \<Rightarrow>
            if (case proposal of None \<Rightarrow> False | Some p \<Rightarrow> is_mapping (jget p ''settlement_selection''))
            then Raise (Value_Error ''settlement selection does not exact-match one listing option'')
            else Raise (Value_Error (''Listing '' @ lid @ '': the proposal selects no settlement option the listing offers, so nothing prices it.''))
        | Some artifact \<Rightarrow>
            if (case proposal of None \<Rightarrow> False | Some p \<Rightarrow> is_mapping (jget p ''settlement_selection''))
            then selected_option_rate C artifact else primary_rate_value artifact) (\<lambda>advertised.
      case advertised of
        Some n \<Rightarrow> Return (Rate n)
      | None \<Rightarrow> res_bind (exact_floor C default_min_price (jget order ''listing_id'')) (\<lambda>reserve. case reserve of
          Some q \<Rightarrow> if 0 < q then Return (Floor q) else Raise (Value_Error (''Listing '' @ lid
            @ '' has hidden reserve (the selected settlement artifact advertises no rate) and [seller.pricing].default_min_price is not configured. The seller has no floor to negotiate against; refusing the negotiation.''))
        | None \<Rightarrow> Raise (Value_Error (''Listing '' @ lid
            @ '' has hidden reserve (the selected settlement artifact advertises no rate) and [seller.pricing].default_min_price is not configured. The seller has no floor to negotiate against; refusing the negotiation.''))))))"

definition determine_strategy :: "nego_env \<Rightarrow> jobj \<Rightarrow> string option" where
  "determine_strategy E order =
     (if order = [] then None
      else if resource_is_api_credits E (jget order ''listing_resource'') then Some ''maximize'' else None)"

end
