(* ===== verification/Credit_Rounds.thy ===== *)
theory Credit_Rounds
  imports Credit_Pricing Settlement_Journal
begin

text \<open>
  The seller's round of the API-credits domain,
  \<open>src/domains/apicredits/src/arkhai_apicredits/negotiation\<close>: the guards of \<open>policies.py\<close> and the
  hook of \<open>storefront_round.py\<close> (its chain, its reference amount, its context).

  A guard returns the context it leaves.  The opening guard also changes the listing: the entry the
  proposal matches is the listing's own, when the listing holds its accepted escrows as a list.
  The chain's label and logging are left out.
\<close>

section \<open>The opening guard\<close>

definition is_round_zero :: "nego_round list \<Rightarrow> bool" where
  "is_round_zero h = (case h of [r] \<Rightarrow> nr_number r = 0 \<and> nr_sender r = Them \<and> nr_action r = ''initial'' | _ \<Rightarrow> False)"

definition noted :: "nego_context \<Rightarrow> string \<Rightarrow> pyval" where
  "noted c k = jget (nc_intermediate c) k"

definition SELECTION_KEYS :: "string list" where
  "SELECTION_KEYS = [''settlement'', ''option_id'', ''expiration_unix'']"

definition selection_shape :: "pyval \<Rightarrow> (jobj \<times> jobj) option" where
  "selection_shape v = (case v of
     PDict selection \<Rightarrow>
       if list_all (jhas selection) SELECTION_KEYS \<and> list_all (\<lambda>p. fst p \<in> PStr ` set SELECTION_KEYS) selection
       then (case jget selection ''settlement'' of PDict envelope \<Rightarrow> Some (selection, envelope) | _ \<Rightarrow> None)
       else None
   | _ \<Rightarrow> None)"

definition option_matches :: "string \<Rightarrow> string \<Rightarrow> jobj \<Rightarrow> bool" where
  "option_matches oid mechanism option = (jget option ''option_id'' = PStr oid \<and> settlement_option_schema option = PStr mechanism)"

text \<open>A settlement selection and the one option of the listing it names.\<close>

definition exact_selection :: "nego_env \<Rightarrow> jobj \<Rightarrow> pyval \<Rightarrow> (nego_error, jobj \<times> jobj) result" where
  "exact_selection E listing v = (case selection_shape v of
     None \<Rightarrow> Raise (Value_Error ''selection has invalid fields'')
   | Some (selection, envelope) \<Rightarrow> (case jget envelope ''schema'' of
        PStr mechanism \<Rightarrow>
          if mechanism = [] then Raise (Value_Error ''selection mechanism is required'')
          else (case jget selection ''option_id'' of
              PStr oid \<Rightarrow>
                if \<not> is_option_id oid then Raise (Value_Error ''selection option_id is invalid'')
                else (case jget selection ''expiration_unix'' of
                    PInt expiration \<Rightarrow>
                      if expiration \<le> 0 then Raise (Value_Error ''selection expiration is invalid'')
                      else (case filter (option_matches oid mechanism)
                                  (List.map_filter as_dict (loads_json_list E (jget listing ''settlement_options''))) of
                          [option] \<Rightarrow> Return (selection, option)
                        | _ \<Rightarrow> Raise (Value_Error ''selection does not exact-match one listing option''))
                  | _ \<Rightarrow> Raise (Value_Error ''selection expiration is invalid''))
            | _ \<Rightarrow> Raise (Value_Error ''selection option_id is invalid''))
      | _ \<Rightarrow> Raise (Value_Error ''selection mechanism is required'')))"

text \<open>The listing after its decoded entries were changed in place; text is decoded afresh each time.\<close>

definition store_entries :: "pyval list \<Rightarrow> jobj \<Rightarrow> jobj" where
  "store_entries entries listing = (case jget listing ''accepted_escrows'' of
     PList _ \<Rightarrow> jset ''accepted_escrows'' (PList entries) listing
   | _ \<Rightarrow> listing)"

text \<open>The canonical escrow proposal, and the context with the listing as the call leaves it.\<close>

definition canonical_escrow :: "credit_env \<Rightarrow> jobj \<Rightarrow> nego_context \<Rightarrow> nego_context \<times> (nego_error, jobj) result" where
  "canonical_escrow C p c = (case mk_escrow_proposal C p of
     Inl e \<Rightarrow> (c, Inl e)
   | Inr proposal \<Rightarrow>
       let (entries, r) = normalize_proposal C proposal (loads_json_list (ce_nego C) (jget (nc_listing c) ''accepted_escrows'')) in
       (c\<lparr>nc_listing := store_entries entries (nc_listing c)\<rparr>, res_bind r proposal_dump))"

text \<open>The terms of the request: a quantity and a key disposition.\<close>

definition key_mode_of :: "nego_context \<Rightarrow> pyval" where
  "key_mode_of c = (if py_truthy (noted c ''key_mode'') then noted c ''key_mode'' else PStr ''new'')"

definition opening_refusal :: "nego_env \<Rightarrow> nego_context \<Rightarrow> (nego_error, string option) result" where
  "opening_refusal E c =
     (if noted c ''requested_quantity'' = PNone
      then Return (Some ''credit_quantity_missing: provision_terms.payload.quantity is required'')
      else res_bind (py_int (noted c ''requested_quantity'')) (\<lambda>quantity. Return (
        if quantity < 1 then Some ''credit_quantity_invalid: quantity must be >= 1''
        else if key_mode_of c \<notin> {PStr ''new'', PStr ''existing''}
        then Some (''key_disposition_invalid: mode '' @ reprv E (key_mode_of c))
        else if key_mode_of c = PStr ''existing'' \<and> \<not> py_truthy (noted c ''key_id'')
        then Some ''key_disposition_invalid: existing mode requires key_id''
        else None)))"

text \<open>The end of the guard, common to a selection, an escrow and neither.\<close>

definition note_scalar :: "nego_env \<Rightarrow> jobj option \<Rightarrow> nego_context \<Rightarrow> (nego_error, nego_decision option \<times> nego_context) result" where
  "note_scalar E proposal c =
     res_bind (proposal_uses_scalar_amount E (nc_listing c) proposal) (\<lambda>scalar.
     let c' = note_in ''uses_scalar_amount'' (PBool scalar) c in
     if scalar then res_bind (amount_from_proposal E proposal) (\<lambda>amount.
       if amount = None then reject c' ''missing_amount: buyer's escrow proposal has no fields.amount'' else pass c')
     else pass c')"

definition api_credits_round_zero_guard :: "credit_env \<Rightarrow> middleware" where
  "api_credits_round_zero_guard C h c =
     (let E = ce_nego C; proposal = their_last_proposal h in
      if \<not> is_round_zero h then pass c
      else res_bind (opening_refusal E c) (\<lambda>refusal. case refusal of
        Some reason \<Rightarrow> reject c reason
      | None \<Rightarrow> (case proposal of
          None \<Rightarrow> note_scalar E None c
        | Some p \<Rightarrow>
            if jget p ''settlement_selection'' \<noteq> PNone then
              catching value_or_type_error (exact_selection E (nc_listing c) (jget p ''settlement_selection''))
                (\<lambda>m. reject c (''invalid_settlement_selection:'' @ m))
                (\<lambda>(selection, option). note_scalar E (Some p)
                  (note_in ''accepted_settlement_option'' (PDict option) (note_in ''accepted_settlement_selection'' (PDict selection) c)))
            else
              let (c1, r) = canonical_escrow C p c in
              catching value_or_type_error r
                (\<lambda>m. reject c1 (''invalid_escrow_proposal:'' @ m))
                (\<lambda>canonical.
                  note_scalar E (Some (if noted c ''accepted_settlement_selection'' \<noteq> PNone then p else canonical))
                    (note_in ''accepted_escrow_proposal'' (PDict canonical) c1)))))"

section \<open>The quota guard\<close>

text \<open>Whether a row of the snapshot covers the quantity.\<close>

fun quota_rows :: "nego_env \<Rightarrow> pyval \<Rightarrow> int \<Rightarrow> pyval list \<Rightarrow> (nego_error, bool) result" where
  "quota_rows E resource_id quantity [] = Return False"
| "quota_rows E resource_id quantity (row # rows) = (case row of
     PDict d \<Rightarrow>
       if py_truthy resource_id \<and> py_str (ne_frepr E) (jget d ''resource_id'') \<noteq> py_str (ne_frepr E) resource_id
       then quota_rows E resource_id quantity rows
       else if jget d ''available_units'' = PNone then quota_rows E resource_id quantity rows
       else res_bind (py_int (jget d ''available_units'')) (\<lambda>available.
         if quantity \<le> available then Return True else quota_rows E resource_id quantity rows)
   | _ \<Rightarrow> Raise Attribute_Error)"

definition credit_quota_guard :: "nego_env \<Rightarrow> middleware" where
  "credit_quota_guard E h c =
     (let resource = coerce_resource_dict E (jget (nc_listing c) ''listing_resource'') in
      if jget resource ''kind'' \<noteq> PStr ''api_credits.v1'' then pass c
      else if noted c ''requested_quantity'' = PNone then pass c
      else res_bind (py_int (noted c ''requested_quantity'')) (\<lambda>quantity.
        if \<not> jhas (nc_resources c) ''resources'' then pass c
        else res_bind (if py_truthy (jget (nc_resources c) ''resources'') then py_iter (jget (nc_resources c) ''resources'') else Return [])
          (\<lambda>rows. res_bind (quota_rows E (jget resource ''resource_id'') quantity rows) (\<lambda>covered.
            if covered then pass c
            else reject c (''quota_exhausted: requested '' @ int_str quantity @ '' token(s), quota resource ''
              @ reprv E (jget resource ''resource_id'') @ '' cannot cover it'')))))"

section \<open>The ownership guard\<close>

definition owner_of_record :: "nego_env \<Rightarrow> jobj \<Rightarrow> principal option" where
  "owner_of_record E rec = (case parse_scheme (py_str (ne_frepr E) (jget rec ''owner_scheme'')) of
     None \<Rightarrow> None
   | Some scheme \<Rightarrow> (case mk_identity scheme (py_str (ne_frepr E) (jget rec ''owner_id'')) of Inl _ \<Rightarrow> None | Inr p \<Rightarrow> Some p))"

definition key_owned_by_buyer_principal :: "nego_env \<Rightarrow> middleware" where
  "key_owned_by_buyer_principal E h c =
     (let kid = reprv E (noted c ''key_id'') in
      if key_mode_of c \<noteq> PStr ''existing'' then pass c
      else (case noted c ''key_record'' of
          PDict rec \<Rightarrow>
            if py_truthy (jget rec ''status'') \<and> jget rec ''status'' \<noteq> PStr ''active''
            then reject c (''key_revoked: key '' @ kid @ '' is '' @ reprv E (jget rec ''status''))
            else if jget rec ''owner_scheme'' = PNone \<and> jget rec ''owner_id'' = PNone then pass c
            else (case (owner_of_record E rec, read_identity (noted c ''buyer_principal'')) of
                (Some owner, Inr buyer) \<Rightarrow>
                  if owner = buyer then pass c
                  else reject c (''key_not_owned: key '' @ kid @ '' is bound to a different marketplace principal'')
              | _ \<Rightarrow> reject c (''key_not_owned: key '' @ kid @ '' has no matching principal''))
        | _ \<Rightarrow> reject c (''key_not_found: key '' @ kid @ '' is not known to this seller'')))"

section \<open>The chain\<close>

definition DEFAULT_GUARDS :: "string list" where
  "DEFAULT_GUARDS = [''api_credits_round_zero_guard'', ''buyer_counter_guard'', ''credit_quota_guard'',
     ''key_owned_by_buyer_principal'', ''escrow_shape_guard'']"

definition DEFAULT_TERMINAL :: string where "DEFAULT_TERMINAL = ''listed_price''"

text \<open>What importing the domain's modules registers.\<close>

definition credit_middlewares :: "credit_env \<Rightarrow> registry" where
  "credit_middlewares C = builtin_middlewares (ce_nego C) @
     [(''api_credits_round_zero_guard'', api_credits_round_zero_guard C), (''credit_quota_guard'', credit_quota_guard (ce_nego C)),
      (''key_owned_by_buyer_principal'', key_owned_by_buyer_principal (ce_nego C))]"

record chain_config =
  cc_policies :: pyval
  cc_policy_mode :: string
  cc_chain_paths :: "(string \<times> string option) list"

definition policy_name :: "nego_env \<Rightarrow> pyval \<Rightarrow> (nego_error, string) result" where
  "policy_name E v = (case v of PStr s \<Rightarrow> Return s | _ \<Rightarrow> Raise (Unknown_Middleware (reprv E v)))"

definition policy_names :: "nego_env \<Rightarrow> chain_config \<Rightarrow> (nego_error, string list) result" where
  "policy_names E G =
     res_bind (if py_truthy (cc_policies G) then py_iter (cc_policies G) else Return []) (\<lambda>vs.
     res_bind (res_map (policy_name E) vs) (\<lambda>names. Return (
       if names \<noteq> [] then names
       else [if py_strip (cc_policy_mode G) = [] then DEFAULT_TERMINAL else py_strip (cc_policy_mode G)])))"

text \<open>\<open>load\<close> resolves a list of names in the registry and among the installed entry points.\<close>

definition load_chain :: "credit_env \<Rightarrow> (string list \<Rightarrow> (nego_error, middleware list) result) \<Rightarrow> chain_config \<Rightarrow>
    (nego_error, middleware list) result" where
  "load_chain C load G = (case normalize_policies_by_escrow_kind_config (ce_nego C) (cc_policies G) of
     Some (k # ks) \<Rightarrow> res_bind (load DEFAULT_GUARDS) (\<lambda>guards.
       Return (guards @ [escrow_kind_dispatch (ce_nego C) load (k # ks) (cc_chain_paths G)]))
   | _ \<Rightarrow> res_bind (policy_names (ce_nego C) G) (\<lambda>names. load (DEFAULT_GUARDS @ filter (\<lambda>n. n \<notin> set DEFAULT_GUARDS) names)))"

definition credit_load :: "credit_env \<Rightarrow> (string \<Rightarrow> middleware option) \<Rightarrow> string list \<Rightarrow> (nego_error, middleware list) result" where
  "credit_load C entry_points names = snd (load_negotiation_chain entry_points names (credit_middlewares C))"

section \<open>The seller's round\<close>

definition asked :: "int option \<Rightarrow> int" where
  "asked quantity = (case quantity of None \<Rightarrow> 1 | Some n \<Rightarrow> n)"

definition seller_reference_amount :: "credit_env \<Rightarrow> jobj \<Rightarrow> int option \<Rightarrow> pyval \<Rightarrow> jobj option \<Rightarrow> (nego_error, int) result" where
  "seller_reference_amount C listing quantity default_min_price proposal =
     res_bind (selected_settlement_artifact (ce_nego C) listing proposal) (\<lambda>artifact.
     if (case proposal of None \<Rightarrow> True | Some p \<Rightarrow> \<not> is_mapping (jget p ''settlement_selection'')) \<and> artifact = None then Return 0
     else res_bind (extract_unit_price C listing default_min_price proposal) (\<lambda>unit.
       case unit of
         Rate n \<Rightarrow> checked_credit_total (PInt n) (PInt (asked quantity))
       | Floor q \<Rightarrow> Return \<lfloor>q * of_int (asked quantity)\<rfloor>))"

record seller_request =
  sq_listing :: jobj
  sq_history :: "nego_round list"
  sq_quantity :: "int option"
  sq_key_mode :: "string option"
  sq_key_id :: "string option"
  sq_buyer :: principal
  sq_label :: "string option"

definition or_none :: "('a \<Rightarrow> pyval) \<Rightarrow> 'a option \<Rightarrow> pyval" where
  "or_none f x = (case x of None \<Rightarrow> PNone | Some y \<Rightarrow> f y)"

text \<open>What the hook captures for the round: the quota snapshot and the key's record.\<close>

record policy_inputs =
  pi_resources :: "pyval list option"
  pi_key_record :: pyval

definition seller_context :: "seller_request \<Rightarrow> policy_inputs \<Rightarrow> int \<Rightarrow> bool \<Rightarrow> nego_context" where
  "seller_context q inputs reference scalar =
     \<lparr>nc_direction = ''maximize'', nc_reference = PInt reference, nc_opening = PNone, nc_listing = sq_listing q,
      nc_proposal = (case find (\<lambda>r. nr_sender r = Them) (rev (sq_history q)) of None \<Rightarrow> None | Some r \<Rightarrow> nr_proposal r),
      nc_resources = (case pi_resources inputs of None \<Rightarrow> [] | Some rows \<Rightarrow> [(PStr ''resources'', PList rows)]),
      nc_max_rounds = 10, nc_source = None,
      nc_intermediate = [(PStr ''requested_quantity'', or_none PInt (sq_quantity q)),
        (PStr ''key_mode'', PStr (case sq_key_mode q of Some (x # xs) \<Rightarrow> x # xs | _ \<Rightarrow> ''new'')),
        (PStr ''key_id'', or_none PStr (sq_key_id q)), (PStr ''key_record'', pi_key_record inputs),
        (PStr ''buyer_principal'', identity_json (sq_buyer q)), (PStr ''seller_reference_amount'', PInt reference),
        (PStr ''uses_scalar_amount'', PBool scalar)]\<rparr>"

record seller_result =
  sl_amount :: int
  sl_label :: string
  sl_decision :: nego_decision
  sl_intermediate :: jobj

definition usable_label :: "nego_env \<Rightarrow> seller_request \<Rightarrow> (nego_error, string) result" where
  "usable_label E q = (case sq_label q of
     Some (x # xs) \<Rightarrow> Return (x # xs)
   | _ \<Rightarrow> (case determine_strategy E (sq_listing q) of
        Some label \<Rightarrow> Return label
      | None \<Rightarrow> Raise (Value_Error (''Listing '' @ reprv E (jget (sq_listing q) ''listing_id'') @ '' has no usable strategy for negotiation''))))"

text \<open>Returns the result and the context the chain left, whose listing shares its entries with the
  caller's.\<close>

definition run_seller_round ::
    "credit_env \<Rightarrow> (string list \<Rightarrow> (nego_error, middleware list) result) \<Rightarrow> chain_config \<Rightarrow> pyval \<Rightarrow> policy_inputs \<Rightarrow>
     seller_request \<Rightarrow> (nego_error, seller_result \<times> nego_context) result" where
  "run_seller_round C load G default_min_price inputs q =
     res_bind (usable_label (ce_nego C) q) (\<lambda>label.
     let pinned = pinned_proposal (sq_history q) in
     res_bind (proposal_uses_scalar_amount (ce_nego C) (sq_listing q) pinned) (\<lambda>scalar.
     res_bind (if scalar then seller_reference_amount C (sq_listing q) (sq_quantity q) default_min_price pinned else Return 0) (\<lambda>reference.
     res_bind (load_chain C load G) (\<lambda>chain.
     res_bind (run_chain_with_context chain (sq_history q) (seller_context q inputs reference scalar)) (\<lambda>(decision, c').
     Return (\<lparr>sl_amount = (if py_truthy (field_or (nc_intermediate c') ''uses_scalar_amount'' (PBool True)) then reference else 0),
         sl_label = label, sl_decision = decision, sl_intermediate = nc_intermediate c'\<rparr>, c'))))))"

text \<open>The hook: a key's record is looked up for a claim on an existing key; a lookup that fails leaves
  no record.\<close>

definition seller_round ::
    "credit_env \<Rightarrow> (string list \<Rightarrow> (nego_error, middleware list) result) \<Rightarrow> chain_config \<Rightarrow> pyval \<Rightarrow>
     (nego_error, pyval list option) result \<Rightarrow> (string \<Rightarrow> (nego_error, pyval) result) option \<Rightarrow>
     seller_request \<Rightarrow> (nego_error, seller_result \<times> nego_context) result" where
  "seller_round C load G default_min_price snapshot key_lookup q =
     res_bind snapshot (\<lambda>rows.
     let rec = (case (sq_key_mode q, sq_key_id q, key_lookup) of
          (Some mode, Some (x # xs), Some lookup) \<Rightarrow>
            if mode = ''existing'' then (case lookup (x # xs) of Inl _ \<Rightarrow> PNone | Inr v \<Rightarrow> v) else PNone
        | _ \<Rightarrow> PNone)
     in run_seller_round C load G default_min_price \<lparr>pi_resources = rows, pi_key_record = rec\<rparr> q)"

end
