(* ===== verification/Credit_Deals.thy ===== *)
theory Credit_Deals
  imports Credit_Rounds
begin

text \<open>
  What the seller's round of the API-credits domain promises: whatever policy an operator
  configures, an offer or an acceptance has passed the domain's guards.
\<close>

section \<open>How far the guards change the context\<close>

definition credit_notes :: "string list" where
  "credit_notes = GUARD_NOTES @ [''accepted_settlement_selection'', ''accepted_settlement_option'', ''accepted_escrow_proposal'']"

text \<open>Two entries that differ in their literal fields only.\<close>

definition has_literals :: "jobj \<Rightarrow> bool" where
  "has_literals d = is_mapping (or_empty (jget d ''literal_fields''))"

definition entry_alike :: "pyval \<Rightarrow> pyval \<Rightarrow> bool" where
  "entry_alike a b = (a = b \<or> (\<exists>d d'. a = PDict d \<and> b = PDict d' \<and>
     (\<forall>k. k \<noteq> ''literal_fields'' \<longrightarrow> jget d' k = jget d k) \<and> has_literals d' = has_literals d))"

definition entries_of :: "nego_env \<Rightarrow> nego_context \<Rightarrow> pyval list" where
  "entries_of E c = loads_json_list E (jget (nc_listing c) ''accepted_escrows'')"

definition credit_frame :: "nego_env \<Rightarrow> nego_context \<Rightarrow> nego_context \<Rightarrow> bool" where
  "credit_frame E c c' = (nc_resources c' = nc_resources c \<and>
     (\<forall>k. k \<notin> set credit_notes \<longrightarrow> noted c' k = noted c k) \<and>
     (\<forall>k. k \<noteq> ''accepted_escrows'' \<longrightarrow> jget (nc_listing c') k = jget (nc_listing c) k) \<and>
     list_all2 entry_alike (entries_of E c) (entries_of E c'))"

lemma entry_alike_refl [simp]: "entry_alike v v"
  by (simp add: entry_alike_def)

lemma entries_alike_refl [simp]: "list_all2 entry_alike vs vs"
  by (simp add: list_all2_refl)

lemma credit_frame_same: "same_frame c c' \<Longrightarrow> credit_frame E c c'"
  using same_frameD [of c c']
  by (auto simp: credit_frame_def entries_of_def same_frame_def credit_notes_def noted_def)

lemma credit_frame_refl [simp]: "credit_frame E c c"
  by (simp add: credit_frame_def)

lemma credit_frame_note [simp]: "k \<in> set credit_notes \<Longrightarrow> credit_frame E c (note_in k v c') \<longleftrightarrow> credit_frame E c c'"
  by (auto simp: credit_frame_def note_in_def noted_def entries_of_def)

lemma credit_notes_mem [simp]:
  "''accepted_settlement_selection'' \<in> set credit_notes" "''accepted_settlement_option'' \<in> set credit_notes"
  "''accepted_escrow_proposal'' \<in> set credit_notes" "''uses_scalar_amount'' \<in> set credit_notes"
  by (simp_all add: credit_notes_def)

lemma match_accepted_escrow_Some:
  "match_accepted_escrow C p vs = Some (before, entry, after) \<Longrightarrow> vs = before @ PDict entry # after \<and> entry_matches C p (PDict entry)"
  by (induction vs arbitrary: before) (auto split: if_splits pyval.splits)

lemma jset_literals_alike: "jget entry ''literal_fields'' = PDict d \<Longrightarrow> has_literals entry"
  by (simp add: has_literals_def or_empty_def)

lemma entry_after_merge_alike: "entry_alike (PDict entry) (PDict (entry_after_merge p entry))"
proof (cases "jget entry ''literal_fields''")
  case (PDict d)
  then show ?thesis
    by (auto simp: entry_after_merge_def entry_alike_def has_literals_def or_empty_def)
qed (simp_all add: entry_after_merge_def)

lemma normalize_alike: "normalize_proposal C p vs = (vs', r) \<Longrightarrow> list_all2 entry_alike vs vs'"
  by (auto simp: normalize_proposal_def list_all2_append1 list_all2_Cons1 entry_after_merge_alike
      split: option.splits dest!: match_accepted_escrow_Some intro!: list_all2_appendI)

lemma canonical_escrow_frame: "canonical_escrow C p c = (c', r) \<Longrightarrow> credit_frame (ce_nego C) c c'"
proof -
  assume a: "canonical_escrow C p c = (c', r)"
  show ?thesis
  proof (cases "mk_escrow_proposal C p")
    case (Inr ep)
    obtain vs r' where n: "normalize_proposal C ep (loads_json_list (ce_nego C) (jget (nc_listing c) ''accepted_escrows'')) = (vs, r')"
      by fastforce
    have "c' = c\<lparr>nc_listing := store_entries vs (nc_listing c)\<rparr>" using a Inr n by (simp add: canonical_escrow_def)
    then show ?thesis using normalize_alike [OF n]
      by (auto simp: credit_frame_def noted_def entries_of_def store_entries_def loads_json_list_def split: pyval.splits)
  qed (use a in \<open>simp add: canonical_escrow_def\<close>)
qed

lemma note_scalar_None: "note_scalar E p c = Return (None, c') \<Longrightarrow> \<exists>b. c' = note_in ''uses_scalar_amount'' (PBool b) c"
  by (auto simp: note_scalar_def Let_def res_bind_Inr_iff split: if_splits)

lemma note_scalar_Some: "note_scalar E p c = Return (Some d, c') \<Longrightarrow> closing d"
  by (auto simp: note_scalar_def Let_def res_bind_Inr_iff split: if_splits)

text \<open>The ways the opening guard passes and refuses.\<close>

lemma round_zero_cases:
  assumes "api_credits_round_zero_guard C h c = Return (x, c')"
  obtains (later) "\<not> is_round_zero h" "x = None" "c' = c"
  | (refused) d where "x = Some d" "closing d"
  | (scalar) c1 p where "is_round_zero h" "opening_refusal (ce_nego C) c = Return None" "credit_frame (ce_nego C) c c1"
      "note_scalar (ce_nego C) p c1 = Return (x, c')"
proof (cases "is_round_zero h")
  case False
  with assms later show thesis by (simp add: api_credits_round_zero_guard_def Let_def)
next
  case True
  with assms obtain r where r: "opening_refusal (ce_nego C) c = Return r"
    by (auto simp: api_credits_round_zero_guard_def Let_def res_bind_Inr_iff)
  show thesis
  proof (cases r)
    case (Some m)
    with assms True r have "x = Some (decide ''reject'' None (Some m))" by (simp add: api_credits_round_zero_guard_def Let_def)
    then show thesis using refused by simp
  next
    case None
    note r = r [unfolded None]
    show thesis
    proof (cases "their_last_proposal h")
      case None
      with assms True r have "note_scalar (ce_nego C) None c = Return (x, c')" by (simp add: api_credits_round_zero_guard_def Let_def)
      from scalar [OF True r credit_frame_refl this] show thesis .
    next
      case (Some p)
      show thesis
      proof (cases "jget p ''settlement_selection'' = PNone")
        case False
        consider (bad) "\<exists>d. x = Some d \<and> closing d"
          | (good) v w where "note_scalar (ce_nego C) (Some p) (note_in ''accepted_settlement_option'' v
               (note_in ''accepted_settlement_selection'' w c)) = Return (x, c')"
          using assms True r Some False by (auto simp: api_credits_round_zero_guard_def Let_def catching_Inr_iff)
        then show thesis
        proof cases
          case bad
          then show thesis using refused by blast
        next
          case (good v w)
          from scalar [OF True r _ good] show thesis by simp
        qed
      next
        case none: True
        obtain c1 e where e: "canonical_escrow C p c = (c1, e)" by fastforce
        consider (bad) "\<exists>d. x = Some d \<and> closing d"
          | (good) v q where "note_scalar (ce_nego C) q (note_in ''accepted_escrow_proposal'' v c1) = Return (x, c')"
          using assms True r Some none e by (auto simp: api_credits_round_zero_guard_def Let_def catching_Inr_iff)
        then show thesis
        proof cases
          case bad
          then show thesis using refused by blast
        next
          case (good v q)
          from scalar [OF True r _ good] canonical_escrow_frame [OF e] show thesis by simp
        qed
      qed
    qed
  qed
qed

lemma vetoing_round_zero: "vetoing (credit_frame (ce_nego C)) (api_credits_round_zero_guard C)"
  by (rule vetoingI) (auto elim!: round_zero_cases dest: note_scalar_None note_scalar_Some)

lemma vetoing_quota: "vetoing (credit_frame F) (credit_quota_guard E)"
  by (rule vetoingI) (auto simp: credit_quota_guard_def Let_def res_bind_Inr_iff split: if_splits)

lemma vetoing_ownership: "vetoing (credit_frame F) (key_owned_by_buyer_principal E)"
  by (rule vetoingI) (auto simp: key_owned_by_buyer_principal_def Let_def split: if_splits pyval.splits option.splits sum.splits)

lemma vetoing_counter: "vetoing (credit_frame F) (buyer_counter_guard E)"
  by (rule vetoing_mono [OF vetoing_buyer_counter_guard]) (rule credit_frame_same)

lemma vetoing_shape: "vetoing (credit_frame F) (escrow_shape_guard E)"
  by (rule vetoing_mono [OF vetoing_escrow_shape_guard]) (rule credit_frame_same)

section \<open>What the guards demand\<close>

text \<open>The opening names at least one credit and a key disposition the domain knows.\<close>

definition opening_wellformed :: "nego_round list \<Rightarrow> nego_context \<Rightarrow> bool" where
  "opening_wellformed h c = (is_round_zero h \<longrightarrow> (\<exists>quantity. py_int (noted c ''requested_quantity'') = Return quantity \<and> 1 \<le> quantity \<and>
     (key_mode_of c = PStr ''new'' \<or> key_mode_of c = PStr ''existing'' \<and> py_truthy (noted c ''key_id''))))"

text \<open>A captured snapshot has a row of the listing's quota resource that covers the quantity.\<close>

definition quota_row :: "nego_env \<Rightarrow> pyval \<Rightarrow> int \<Rightarrow> pyval \<Rightarrow> bool" where
  "quota_row E resource_id quantity row = (\<exists>d available. row = PDict d \<and>
     (py_truthy resource_id \<longrightarrow> py_str (ne_frepr E) (jget d ''resource_id'') = py_str (ne_frepr E) resource_id) \<and>
     py_int (jget d ''available_units'') = Return available \<and> quantity \<le> available)"

definition quota_covers :: "nego_env \<Rightarrow> nego_round list \<Rightarrow> nego_context \<Rightarrow> bool" where
  "quota_covers E h c = (\<forall>rows.
     resource_is_api_credits E (jget (nc_listing c) ''listing_resource'') \<longrightarrow> noted c ''requested_quantity'' \<noteq> PNone \<longrightarrow>
     jget (nc_resources c) ''resources'' = PList rows \<longrightarrow>
     (\<exists>quantity. py_int (noted c ''requested_quantity'') = Return quantity \<and>
       (\<exists>row \<in> set rows. quota_row E (jget (coerce_resource_dict E (jget (nc_listing c) ''listing_resource'')) ''resource_id'') quantity row)))"

text \<open>A claim on an existing key: the key is known, not revoked, and unowned or the buyer's.\<close>

definition key_entitled :: "nego_env \<Rightarrow> nego_round list \<Rightarrow> nego_context \<Rightarrow> bool" where
  "key_entitled E h c = (key_mode_of c = PStr ''existing'' \<longrightarrow> (\<exists>rec. noted c ''key_record'' = PDict rec \<and>
     (\<not> py_truthy (jget rec ''status'') \<or> jget rec ''status'' = PStr ''active'') \<and>
     (jget rec ''owner_scheme'' = PNone \<and> jget rec ''owner_id'' = PNone \<or>
      (\<exists>buyer. read_identity (noted c ''buyer_principal'') = Return buyer \<and> owner_of_record E rec = Some buyer))))"

text \<open>The escrow contract is one the listing accepts on that chain, under an advertised release
  condition.\<close>

definition names_contract :: "jobj \<Rightarrow> pyval \<Rightarrow> bool" where
  "names_contract p v = (\<exists>entry address. v = PDict entry \<and> jget p ''escrow_address'' = PStr address \<and>
     py_eq (jget entry ''chain_name'') (jget p ''chain_name'') \<and>
     (\<exists>a. jget entry ''escrow_address'' = PStr a \<and> py_lower a = py_lower address))"

definition contract_admitted :: "nego_env \<Rightarrow> nego_round list \<Rightarrow> nego_context \<Rightarrow> bool" where
  "contract_admitted E h c = (\<forall>p. their_last_proposal h = Some p \<longrightarrow> is_escrow_proposal (Some p) \<longrightarrow>
     \<not> escrow_contract_unpinned p \<and>
     (\<exists>v \<in> set (entries_of E c). names_contract p v \<and>
       (\<forall>entry. v = PDict entry \<longrightarrow> has_literals entry \<longrightarrow> demand_advertised E (nc_listing c) p)))"

lemma opening_refusal_None:
  "opening_refusal E c = Return None \<Longrightarrow> \<exists>quantity. py_int (noted c ''requested_quantity'') = Return quantity \<and> 1 \<le> quantity \<and>
     (key_mode_of c = PStr ''new'' \<or> key_mode_of c = PStr ''existing'' \<and> py_truthy (noted c ''key_id''))"
  by (auto simp: opening_refusal_def res_bind_Inr_iff split: if_splits)

lemma quota_rows_True: "quota_rows E rid n rows = Return True \<Longrightarrow> \<exists>row \<in> set rows. quota_row E rid n row"
  by (induction rows) (auto simp: quota_row_def res_bind_Inr_iff split: pyval.splits if_splits)

lemma credit_frameD:
  assumes "credit_frame E c c'"
  shows "nc_resources c' = nc_resources c" "noted c' ''requested_quantity'' = noted c ''requested_quantity''"
    "noted c' ''key_id'' = noted c ''key_id''" "noted c' ''key_record'' = noted c ''key_record''"
    "noted c' ''buyer_principal'' = noted c ''buyer_principal''" "key_mode_of c' = key_mode_of c"
    "jget (nc_listing c') ''listing_resource'' = jget (nc_listing c) ''listing_resource''"
    "jget (nc_listing c') ''demands'' = jget (nc_listing c) ''demands''"
    "list_all2 entry_alike (entries_of E c) (entries_of E c')"
  using assms by (simp_all add: credit_frame_def credit_notes_def GUARD_NOTES_def key_mode_of_def)

interpretation first_round: veto "credit_frame (ce_nego C)" "api_credits_round_zero_guard C" opening_wellformed for C
proof
  show "vetoing (credit_frame (ce_nego C)) (api_credits_round_zero_guard C)" by (rule vetoing_round_zero)
  show "opening_wellformed h c" if "api_credits_round_zero_guard C h c = Return (None, c')" for h c c'
    using that by (rule round_zero_cases) (auto simp: opening_wellformed_def opening_refusal_None)
  show "opening_wellformed h c" if "credit_frame (ce_nego C) c c'" "opening_wellformed h c'" for c c' h
    using that credit_frameD [OF that(1)] by (simp add: opening_wellformed_def)
qed

interpretation quota: veto "credit_frame E" "credit_quota_guard E" "quota_covers E" for E
proof
  show "vetoing (credit_frame E) (credit_quota_guard E)" by (rule vetoing_quota)
  show "quota_covers E h c" if "credit_quota_guard E h c = Return (None, c')" for h c c'
    using that
    by (auto simp: credit_quota_guard_def quota_covers_def resource_is_api_credits_def API_CREDITS_KIND_def Let_def res_bind_Inr_iff
        jhas_def jget_def has_key_def py_iter_def dest!: quota_rows_True split: if_splits option.splits)
  show "quota_covers E h c" if "credit_frame E c c'" "quota_covers E h c'" for c c' h
    using that credit_frameD [OF that(1)] by (simp add: quota_covers_def)
qed

interpretation ownership: veto "credit_frame E" "key_owned_by_buyer_principal E" "key_entitled E" for E
proof
  show "vetoing (credit_frame E) (key_owned_by_buyer_principal E)" by (rule vetoing_ownership)
  show "key_entitled E h c" if "key_owned_by_buyer_principal E h c = Return (None, c')" for h c c'
    using that
    by (auto simp: key_owned_by_buyer_principal_def key_entitled_def Let_def split: if_splits pyval.splits option.splits sum.splits)
  show "key_entitled E h c" if "credit_frame E c c'" "key_entitled E h c'" for c c' h
    using that credit_frameD [OF that(1)] by (simp add: key_entitled_def)
qed

lemma py_eq_text [simp]: "py_eq v (PStr s) \<longleftrightarrow> v = PStr s"
  by (cases v) (auto simp: eq_number_def)

lemma find_SomeD: "find P xs = Some x \<Longrightarrow> x \<in> set xs \<and> P x"
  by (induction xs) (auto split: if_splits)

lemma find_dict_Some: "find_dict P vs = Some d \<Longrightarrow> PDict d \<in> set vs \<and> P d"
  by (auto simp: find_dict_def List.map_filter_def dest!: find_SomeD)

lemma case_text: "(case v of PStr a \<Rightarrow> f a | _ \<Rightarrow> False) \<longleftrightarrow> (\<exists>a. v = PStr a \<and> f a)"
  by (cases v) auto

lemma accepted_names_contract:
  "accepted_escrow_for_proposal E listing p = Some entry \<Longrightarrow>
     PDict entry \<in> set (loads_json_list E (jget listing ''accepted_escrows'')) \<and> names_contract p (PDict entry)"
  by (cases "jget p ''escrow_address''")
    (auto simp: accepted_escrow_for_proposal_def names_contract_def case_text split: if_splits dest!: find_dict_Some)

lemma has_literalsE: "has_literals d \<Longrightarrow> (\<And>required. or_empty (jget d ''literal_fields'') = PDict required \<Longrightarrow> P) \<Longrightarrow> P"
  by (cases "or_empty (jget d ''literal_fields'')") (auto simp: has_literals_def)

lemma demand_advertised_cong: "jget l' ''demands'' = jget l ''demands'' \<Longrightarrow> demand_advertised E l' p = demand_advertised E l p"
  by (simp add: demand_advertised_def)

lemma names_contract_alike: "entry_alike v v' \<Longrightarrow> names_contract p v' \<Longrightarrow> names_contract p v"
  by (auto simp: entry_alike_def names_contract_def)

interpretation contract: veto "credit_frame E" "escrow_shape_guard E" "contract_admitted E" for E
proof
  show "vetoing (credit_frame E) (escrow_shape_guard E)" by (rule vetoing_shape)
  show "contract_admitted E h c" if "escrow_shape_guard E h c = Return (None, c')" for h c c'
    using escrow_shape_guard_passes [OF that]
    by (fastforce simp: contract_admitted_def latest_escrow_admitted_def escrow_admitted_def entries_of_def
        dest!: accepted_names_contract elim!: has_literalsE)
next
  fix c c' h assume f: "credit_frame E c c'" and ok: "contract_admitted E h c'"
  show "contract_admitted E h c"
    unfolding contract_admitted_def
  proof (intro allI impI conjI)
    fix p assume p: "their_last_proposal h = Some p" "is_escrow_proposal (Some p)"
    with ok show "\<not> escrow_contract_unpinned p" by (simp add: contract_admitted_def)
    from ok p obtain v' where v': "v' \<in> set (entries_of E c')" "names_contract p v'"
      "\<And>entry. v' = PDict entry \<Longrightarrow> has_literals entry \<Longrightarrow> demand_advertised E (nc_listing c') p"
      by (auto simp: contract_admitted_def)
    then obtain v where v: "v \<in> set (entries_of E c)" "entry_alike v v'"
      using credit_frameD(9) [OF f] by (metis in_set_conv_nth list_all2_conv_all_nth)
    have "demand_advertised E (nc_listing c) p" if "v = PDict entry" "has_literals entry" for entry
      using v(2) v'(3) that demand_advertised_cong [OF credit_frameD(8) [OF f]] by (auto simp: entry_alike_def)
    with v v' show "\<exists>v \<in> set (entries_of E c). names_contract p v \<and>
        (\<forall>entry. v = PDict entry \<longrightarrow> has_literals entry \<longrightarrow> demand_advertised E (nc_listing c) p)"
      using names_contract_alike by blast
  qed
qed

section \<open>Every configured chain starts with the guards\<close>

definition default_guards :: "credit_env \<Rightarrow> middleware list" where
  "default_guards C = [api_credits_round_zero_guard C, buyer_counter_guard (ce_nego C), credit_quota_guard (ce_nego C),
     key_owned_by_buyer_principal (ce_nego C), escrow_shape_guard (ce_nego C)]"

lemma resolve_names_registered:
  "list_all2 (\<lambda>n m. map_of R n = Some m) ns ms \<Longrightarrow> resolve_names ep (ns @ rest) R =
     (case resolve_names ep rest R of (R', Inl e) \<Rightarrow> (R', Inl e) | (R', Inr xs) \<Rightarrow> (R', Inr (ms @ xs)))"
  by (induction ns ms rule: list_all2_induct) (auto simp: resolve_name_def split: prod.splits sum.splits)

lemma guards_registered: "list_all2 (\<lambda>n m. map_of (credit_middlewares C) n = Some m) DEFAULT_GUARDS (default_guards C)"
  by (simp add: DEFAULT_GUARDS_def default_guards_def credit_middlewares_def builtin_middlewares_def)

lemma credit_load_guards: "credit_load C ep (DEFAULT_GUARDS @ names) = Return ms \<Longrightarrow> \<exists>rest. ms = default_guards C @ rest"
  using resolve_names_registered [OF guards_registered, of ep names C]
  by (auto simp: credit_load_def load_negotiation_chain_def split: prod.splits sum.splits if_splits)

lemma load_chain_guards: "load_chain C (credit_load C ep) G = Return ms \<Longrightarrow> \<exists>rest. ms = default_guards C @ rest"
  using credit_load_guards [of C ep "[]"] credit_load_guards [of C ep]
  by (fastforce simp: load_chain_def res_bind_Inr_iff split: option.splits list.splits)

text \<open>What a round that makes an offer or accepts one has established.\<close>

lemma guards_enforced:
  assumes "run_chain_with_context (default_guards C @ rest) h c = Return (d, c')" "\<not> closing d"
  shows "opening_wellformed h c" "quota_covers (ce_nego C) h c" "key_entitled (ce_nego C) h c" "contract_admitted (ce_nego C) h c"
proof -
  let ?E = "ce_nego C"
  let ?a = "api_credits_round_zero_guard C" and ?b = "buyer_counter_guard ?E" and ?q = "credit_quota_guard ?E"
    and ?k = "key_owned_by_buyer_principal ?E" and ?s = "escrow_shape_guard ?E"
  have chain: "default_guards C @ rest = [] @ ?a # [?b, ?q, ?k, ?s] @ rest" "default_guards C @ rest = [?a, ?b] @ ?q # [?k, ?s] @ rest"
    "default_guards C @ rest = [?a, ?b, ?q] @ ?k # [?s] @ rest" "default_guards C @ rest = [?a, ?b, ?q, ?k] @ ?s # rest"
    by (simp_all add: default_guards_def)
  note v = vetoing_round_zero vetoing_counter vetoing_quota vetoing_ownership
  show "opening_wellformed h c" using first_round.enforced [OF _ assms(1) [unfolded chain(1)] assms(2)] by simp
  show "quota_covers ?E h c" using quota.enforced [OF _ assms(1) [unfolded chain(2)] assms(2)] v by simp
  show "key_entitled ?E h c" using ownership.enforced [OF _ assms(1) [unfolded chain(3)] assms(2)] v by simp
  show "contract_admitted ?E h c" using contract.enforced [OF _ assms(1) [unfolded chain(4)] assms(2)] v by simp
qed

lemma read_identity_json: "principal_ok b \<Longrightarrow> read_identity (identity_json b) = Return b"
  by (cases "pr_scheme b") (auto simp: read_identity_def identity_json_def obj_def principal_ok_def parse_scheme_def scheme_value_def)

lemma seller_context_inputs:
  "noted (seller_context q inputs n b) ''requested_quantity'' = or_none PInt (sq_quantity q)"
  "noted (seller_context q inputs n b) ''key_id'' = or_none PStr (sq_key_id q)"
  "noted (seller_context q inputs n b) ''key_record'' = pi_key_record inputs"
  "noted (seller_context q inputs n b) ''buyer_principal'' = identity_json (sq_buyer q)"
  "key_mode_of (seller_context q inputs n b) = PStr (case sq_key_mode q of Some (x # xs) \<Rightarrow> x # xs | _ \<Rightarrow> ''new'')"
  "nc_listing (seller_context q inputs n b) = sq_listing q"
  "jget (nc_resources (seller_context q inputs n b)) ''resources'' = or_none PList (pi_resources inputs)"
  "entries_of E (seller_context q inputs n b) = loads_json_list E (jget (sq_listing q) ''accepted_escrows'')"
  by (auto simp: seller_context_def noted_def jget_def key_mode_of_def or_none_def entries_of_def split: option.splits list.splits)

lemma run_seller_round_guards:
  assumes "run_seller_round C (credit_load C ep) G reserve inputs q = Return (r, c')" "\<not> closing (sl_decision r)"
  obtains n b where "opening_wellformed (sq_history q) (seller_context q inputs n b)"
    "quota_covers (ce_nego C) (sq_history q) (seller_context q inputs n b)"
    "key_entitled (ce_nego C) (sq_history q) (seller_context q inputs n b)"
    "contract_admitted (ce_nego C) (sq_history q) (seller_context q inputs n b)"
proof -
  from assms(1) obtain n b chain where c: "load_chain C (credit_load C ep) G = Return chain"
    "run_chain_with_context chain (sq_history q) (seller_context q inputs n b) = Return (sl_decision r, c')"
    by (auto simp: run_seller_round_def Let_def res_bind_Inr_iff)
  from load_chain_guards [OF c(1)] obtain rest where "chain = default_guards C @ rest" by blast
  with guards_enforced [OF c(2) [unfolded this] assms(2)] that show thesis by simp
qed

text \<open>The round as the hook runs it.\<close>

lemma seller_round_obtain:
  assumes "seller_round C load G reserve snapshot lookup q = Return (r, c')"
  obtains rows rec where "snapshot = Return rows"
    "run_seller_round C load G reserve \<lparr>pi_resources = rows, pi_key_record = rec\<rparr> q = Return (r, c')"
    "\<And>d. rec = PDict d \<Longrightarrow> \<exists>kid f. sq_key_id q = Some kid \<and> kid \<noteq> [] \<and> lookup = Some f \<and> f kid = Return (PDict d)"
proof -
  let ?rec = "case (sq_key_mode q, sq_key_id q, lookup) of
          (Some mode, Some (x # xs), Some f) \<Rightarrow> if mode = ''existing'' then (case f (x # xs) of Inl _ \<Rightarrow> PNone | Inr v \<Rightarrow> v) else PNone
        | _ \<Rightarrow> PNone"
  from assms obtain rows where "snapshot = Return rows"
    "run_seller_round C load G reserve \<lparr>pi_resources = rows, pi_key_record = ?rec\<rparr> q = Return (r, c')"
    by (auto simp: seller_round_def Let_def res_bind_Inr_iff)
  moreover have "\<exists>kid f. sq_key_id q = Some kid \<and> kid \<noteq> [] \<and> lookup = Some f \<and> f kid = Return (PDict d)" if "?rec = PDict d" for d
    using that by (auto split: option.splits list.splits if_splits sum.splits)
  ultimately show thesis by (rule that)
qed

lemma checked_credit_total_iff:
  "checked_credit_total (PInt r) (PInt k) = Return n \<longleftrightarrow> 0 \<le> r \<and> 1 \<le> k \<and> n = r * k \<and> n < 2 ^ 256"
  by (auto simp: checked_credit_total_def is_bool_def py_int_def catching_def MAX_BASE_UNIT_AMOUNT_def eq_number_def number_eq_def)

text \<open>In any round a positive quantity is priced at the rate the selected option advertises, or the
  round has no answer.\<close>

lemma priced_quantity:
  assumes run: "run_seller_round C load G reserve inputs q = Return (r, c')"
    and scalar: "proposal_uses_scalar_amount (ce_nego C) (sq_listing q) (pinned_proposal (sq_history q)) = Return True"
    and rate: "extract_unit_price C (sq_listing q) reserve (pinned_proposal (sq_history q)) = Return (Rate rate)"
  shows "1 \<le> asked (sq_quantity q)"
proof -
  let ?p = "pinned_proposal (sq_history q)"
  from run scalar obtain n where n: "seller_reference_amount C (sq_listing q) (sq_quantity q) reserve ?p = Return n"
    by (auto simp: run_seller_round_def Let_def res_bind_Inr_iff)
  from rate obtain a where a: "selected_settlement_artifact (ce_nego C) (sq_listing q) ?p = Return a"
    by (auto simp: extract_unit_price_def Let_def res_bind_Inr_iff)
  with rate have "a \<noteq> None" by (auto simp: extract_unit_price_def Let_def split: if_splits option.splits)
  with a n rate have "checked_credit_total (PInt rate) (PInt (asked (sq_quantity q))) = Return n"
    by (simp add: seller_reference_amount_def)
  then show ?thesis by (simp add: checked_credit_total_iff)
qed

text \<open>C29: whatever policy an operator configures, an API-credit seller makes an offer or accepts one
  only when these hold.  An opening asked for at least one credit; in a later round too the quantity,
  if one is stated, is at least one whenever the option the buyer selected at first is priced by the
  scalar amount at an advertised rate.  A captured quota snapshot has a row of the listing's quota
  resource that covers the stated quantity.  An escrow proposal names a contract that the listing
  accepts on that chain.\<close>

theorem credit_offers_are_covered:
  assumes "seller_round C (credit_load C ep) G reserve snapshot lookup q = Return (r, c')" "\<not> closing (sl_decision r)"
  shows "(is_round_zero (sq_history q) \<longrightarrow> (\<exists>n. sq_quantity q = Some n \<and> 1 \<le> n)) \<and>
    (\<forall>n rate. sq_quantity q = Some n \<longrightarrow>
      proposal_uses_scalar_amount (ce_nego C) (sq_listing q) (pinned_proposal (sq_history q)) = Return True \<longrightarrow>
      extract_unit_price C (sq_listing q) reserve (pinned_proposal (sq_history q)) = Return (Rate rate) \<longrightarrow> 1 \<le> n) \<and>
    (\<forall>rows n. snapshot = Return (Some rows) \<longrightarrow> sq_quantity q = Some n \<longrightarrow>
      resource_is_api_credits (ce_nego C) (jget (sq_listing q) ''listing_resource'') \<longrightarrow>
      (\<exists>row \<in> set rows. quota_row (ce_nego C)
        (jget (coerce_resource_dict (ce_nego C) (jget (sq_listing q) ''listing_resource'')) ''resource_id'') n row)) \<and>
    (\<forall>p. their_last_proposal (sq_history q) = Some p \<longrightarrow> is_escrow_proposal (Some p) \<longrightarrow> \<not> escrow_contract_unpinned p \<and>
      (\<exists>v \<in> set (loads_json_list (ce_nego C) (jget (sq_listing q) ''accepted_escrows'')). names_contract p v))"
proof -
  from seller_round_obtain [OF assms(1)] obtain rows rec where s: "snapshot = Return rows"
    and run: "run_seller_round C (credit_load C ep) G reserve \<lparr>pi_resources = rows, pi_key_record = rec\<rparr> q = Return (r, c')" by metis
  from run_seller_round_guards [OF run assms(2)] obtain m b where
    g: "opening_wellformed (sq_history q) (seller_context q \<lparr>pi_resources = rows, pi_key_record = rec\<rparr> m b)"
    "quota_covers (ce_nego C) (sq_history q) (seller_context q \<lparr>pi_resources = rows, pi_key_record = rec\<rparr> m b)"
    "contract_admitted (ce_nego C) (sq_history q) (seller_context q \<lparr>pi_resources = rows, pi_key_record = rec\<rparr> m b)" by metis
  have "\<exists>n. sq_quantity q = Some n \<and> 1 \<le> n" if "is_round_zero (sq_history q)"
    using g(1) that by (cases "sq_quantity q") (auto simp: opening_wellformed_def seller_context_inputs or_none_def py_int_def)
  moreover have "1 \<le> n" if "sq_quantity q = Some n"
    "proposal_uses_scalar_amount (ce_nego C) (sq_listing q) (pinned_proposal (sq_history q)) = Return True"
    "extract_unit_price C (sq_listing q) reserve (pinned_proposal (sq_history q)) = Return (Rate rate)" for n rate
    using priced_quantity [OF run that(2,3)] that(1) by (simp add: asked_def)
  moreover have "\<exists>row \<in> set xs. quota_row (ce_nego C)
        (jget (coerce_resource_dict (ce_nego C) (jget (sq_listing q) ''listing_resource'')) ''resource_id'') n row"
    if "snapshot = Return (Some xs)" "sq_quantity q = Some n" "resource_is_api_credits (ce_nego C) (jget (sq_listing q) ''listing_resource'')" for xs n
    using g(2) s that by (auto simp: quota_covers_def seller_context_inputs or_none_def py_int_def)
  moreover have "\<not> escrow_contract_unpinned p \<and>
      (\<exists>v \<in> set (loads_json_list (ce_nego C) (jget (sq_listing q) ''accepted_escrows'')). names_contract p v)"
    if "their_last_proposal (sq_history q) = Some p" "is_escrow_proposal (Some p)" for p
    using g(3) that by (auto simp: contract_admitted_def seller_context_inputs)
  ultimately show ?thesis by blast
qed

text \<open>C30: an API-credit seller bargains over an existing key only when the credits service knows the
  key, has not revoked it, and records no owner or exactly the authenticated buyer.\<close>

theorem existing_key_is_the_buyers:
  assumes "seller_round C (credit_load C ep) G reserve snapshot lookup q = Return (r, c')" "\<not> closing (sl_decision r)"
    and "sq_key_mode q = Some ''existing''" "principal_ok (sq_buyer q)"
  shows "\<exists>kid f rec. sq_key_id q = Some kid \<and> lookup = Some f \<and> f kid = Return (PDict rec) \<and>
     (\<not> py_truthy (jget rec ''status'') \<or> jget rec ''status'' = PStr ''active'') \<and>
     (jget rec ''owner_scheme'' = PNone \<and> jget rec ''owner_id'' = PNone \<or> owner_of_record (ce_nego C) rec = Some (sq_buyer q))"
proof -
  from seller_round_obtain [OF assms(1)] obtain rows rec where
    run: "run_seller_round C (credit_load C ep) G reserve \<lparr>pi_resources = rows, pi_key_record = rec\<rparr> q = Return (r, c')"
    and rec: "\<And>d. rec = PDict d \<Longrightarrow> \<exists>kid f. sq_key_id q = Some kid \<and> kid \<noteq> [] \<and> lookup = Some f \<and> f kid = Return (PDict d)" by metis
  from run_seller_round_guards [OF run assms(2)] obtain m b where
    "key_entitled (ce_nego C) (sq_history q) (seller_context q \<lparr>pi_resources = rows, pi_key_record = rec\<rparr> m b)" by metis
  with assms(3) obtain d where d: "rec = PDict d" "\<not> py_truthy (jget d ''status'') \<or> jget d ''status'' = PStr ''active''"
    "jget d ''owner_scheme'' = PNone \<and> jget d ''owner_id'' = PNone \<or> owner_of_record (ce_nego C) d = Some (sq_buyer q)"
    by (auto simp: key_entitled_def seller_context_inputs read_identity_json [OF assms(4)])
  with rec [OF d(1)] show ?thesis by blast
qed

section \<open>An opening overwrites the literal fields the listing requires\<close>

lemma map_of_dict_update: "map_of (dict_update d e) = map_of d ++ map_of (rev e)"
  by (induction e arbitrary: d) (auto simp: dict_update_def fun_eq_iff map_add_def split: option.splits)

lemma dict_ok_update: "dict_ok d \<Longrightarrow> dict_ok (dict_update d e)"
  by (induction e arbitrary: d) (auto simp: dict_update_def)

lemma map_of_rev: "dict_ok d \<Longrightarrow> map_of (rev d) = map_of d"
  by (rule map_of_inject_set [THEN iffD2]) (simp_all add: rev_map [symmetric])

text \<open>Every value is the overriding one when every key is overridden.\<close>

lemma dict_update_overrides:
  assumes "dict_ok d" "dict_ok e" "fst ` set d \<subseteq> fst ` set e" "(k, v) \<in> set (dict_update d e)"
  shows "map_of e k = Some v"
proof -
  have "map_of (dict_update d e) k = Some v" using assms by (intro map_of_SomeI dict_ok_update)
  then have "map_of e k = Some v \<or> map_of e k = None \<and> map_of d k = Some v"
    by (auto simp: map_of_dict_update map_of_rev [OF assms(2)] map_add_Some_iff)
  moreover have "k \<in> fst ` set e" if "map_of d k = Some v" using map_of_SomeD [OF that] assms(3) by force
  ultimately show ?thesis by (metis map_of_eq_None_iff)
qed

text \<open>The entries whose addresses are text, as the listings of a storefront hold them.\<close>

definition text_address :: "pyval \<Rightarrow> bool" where
  "text_address v = (case v of PDict d \<Rightarrow> is_str (jget d ''escrow_address'') | _ \<Rightarrow> True)"

definition selects_entry :: "escrow_proposal \<Rightarrow> jobj \<Rightarrow> bool" where
  "selects_entry ep d = (jget d ''chain_name'' = PStr (ep_chain ep) \<and>
     (\<exists>a. jget d ''escrow_address'' = PStr a \<and> py_lower a = py_lower (ep_address ep)))"

lemma entry_matches_iff:
  "text_address v \<Longrightarrow> ep_address ep \<noteq> [] \<Longrightarrow> entry_matches C ep v \<longleftrightarrow> (\<exists>d. v = PDict d \<and> selects_entry ep d)"
proof (cases v)
  case (PDict d)
  assume "text_address v" "ep_address ep \<noteq> []"
  with PDict obtain a where "jget d ''escrow_address'' = PStr a"
    by (cases "jget d ''escrow_address''") (auto simp: text_address_def)
  with PDict \<open>ep_address ep \<noteq> []\<close> show ?thesis
    by (auto simp: entry_matches_def selects_entry_def py_str_def py_lower_def)
qed (simp_all add: entry_matches_def)

lemma accepted_selects:
  "jget p ''chain_name'' = PStr (ep_chain ep) \<Longrightarrow> jget p ''escrow_address'' = PStr (ep_address ep) \<Longrightarrow> ep_address ep \<noteq> [] \<Longrightarrow>
   accepted_escrow_for_proposal E l p = find_dict (selects_entry ep) (loads_json_list E (jget l ''accepted_escrows''))"
  by (simp add: accepted_escrow_for_proposal_def case_text selects_entry_def [abs_def])

lemma find_dict_simps [simp]:
  "find_dict P [] = None"
  "find_dict P (v # vs) = (case v of PDict d \<Rightarrow> if P d then Some d else find_dict P vs | _ \<Rightarrow> find_dict P vs)"
  by (auto simp: find_dict_def List.map_filter_def as_dict_def split: pyval.splits)

lemma same_entry:
  assumes "list_all text_address vs" "ep_address ep \<noteq> []" "find_dict (selects_entry ep) vs = Some entry"
  shows "\<exists>before after. match_accepted_escrow C ep vs = Some (before, entry, after) \<and>
     (\<forall>entry'. selects_entry ep entry' \<longrightarrow> find_dict (selects_entry ep) (before @ PDict entry' # after) = Some entry')"
  using assms(1,3)
proof (induction vs)
  case (Cons v vs)
  show ?case
  proof (cases "entry_matches C ep v")
    case True
    with Cons.prems entry_matches_iff [of v ep C] assms(2) show ?thesis by auto
  next
    case False
    with Cons.prems entry_matches_iff [of v ep C] assms(2) have "find_dict (selects_entry ep) vs = Some entry"
      by (auto split: pyval.splits if_splits)
    with Cons obtain before after where
      "match_accepted_escrow C ep vs = Some (before, entry, after)"
      "\<forall>entry'. selects_entry ep entry' \<longrightarrow> find_dict (selects_entry ep) (before @ PDict entry' # after) = Some entry'" by auto
    moreover have "\<not> selects_entry ep d" if "v = PDict d" for d
      using False that Cons.prems entry_matches_iff [of v ep C] assms(2) by auto
    ultimately show ?thesis using False by (intro exI [of _ "v # before"] exI [of _ after]) (auto split: pyval.splits)
  qed
qed simp

lemma mk_escrow_proposal_fields:
  assumes "mk_escrow_proposal C p = Return ep"
  shows "jget p ''chain_name'' = PStr (ep_chain ep)" "jget p ''escrow_address'' = PStr (ep_address ep)"
    "jget p ''literal_fields'' = (case ep_literals ep of None \<Rightarrow> PNone | Some d \<Rightarrow> PDict d)"
proof -
  from assms obtain d where d: "coerce_legacy_demands p = Some d" "escrow_proposal_fields C d = Some ep"
    by (auto simp: mk_escrow_proposal_def validated_def bind_eq_Some_conv split: option.splits)
  then have same: "jget d k = jget p k" if "k \<noteq> ''demand''" for k
    using that by (auto simp: coerce_legacy_demands_def split: if_splits pyval.splits list.splits)
  from d(2) show "jget p ''chain_name'' = PStr (ep_chain ep)" "jget p ''escrow_address'' = PStr (ep_address ep)"
    "jget p ''literal_fields'' = (case ep_literals ep of None \<Rightarrow> PNone | Some d \<Rightarrow> PDict d)"
    by (auto simp: escrow_proposal_fields_def bind_eq_Some_conv text_field_def object_field_def same
        split: pyval.splits if_splits)
qed

text \<open>The guard's own view of an escrow opening it lets pass.\<close>

lemma round_zero_escrow:
  assumes "api_credits_round_zero_guard C h c = Return (None, c')" "is_round_zero h" "their_last_proposal h = Some p"
    "jget p ''settlement_selection'' = PNone"
  obtains ep vs r where "mk_escrow_proposal C p = Return ep"
    "normalize_proposal C ep (entries_of (ce_nego C) c) = (vs, r)" "nc_listing c' = store_entries vs (nc_listing c)"
proof -
  from assms obtain c1 r b k v where e: "canonical_escrow C p c = (c1, Return r)"
    and c': "c' = note_in ''uses_scalar_amount'' (PBool b) (note_in k v c1)"
    by (auto simp: api_credits_round_zero_guard_def Let_def res_bind_Inr_iff catching_Inr_iff
        split: option.splits prod.splits dest!: note_scalar_None)
  from e obtain ep vs x where "mk_escrow_proposal C p = Return ep"
    "normalize_proposal C ep (entries_of (ce_nego C) c) = (vs, x)" "nc_listing c1 = store_entries vs (nc_listing c)"
    by (auto simp: canonical_escrow_def entries_of_def split: sum.splits prod.splits)
  with c' that show thesis by (auto simp: note_in_def)
qed

text \<open>C32: an opening overwrites what the listing requires.  The opening guard merges the proposal's
  literal fields into the listing's own entry when the listing holds its accepted escrows as a list
  (as the storefront loads it); after that the shape guard's comparison of the literal fields the
  listing requires with those the buyer proposed finds no mismatch, whatever the proposal says,
  provided it names every required field.\<close>

theorem opening_overrides_required_literals:
  assumes "api_credits_round_zero_guard C h c = Return (None, c')" "is_round_zero h" "their_last_proposal h = Some p"
    and "jget p ''settlement_selection'' = PNone"
    and "jget (nc_listing c) ''accepted_escrows'' = PList vs" "list_all text_address vs"
    and "accepted_escrow_for_proposal (ce_nego C) (nc_listing c) p = Some entry"
    and "jget entry ''literal_fields'' = PDict required" "dict_ok required"
    and "jget p ''literal_fields'' = PDict lits" "dict_ok lits" "list_all (\<lambda>x. is_str (snd x)) lits"
    and "fst ` set required \<subseteq> fst ` set lits"
  shows "\<exists>entry' required'. accepted_escrow_for_proposal (ce_nego C) (nc_listing c') p = Some entry' \<and>
     jget entry' ''literal_fields'' = PDict required' \<and> literal_mismatch (PDict lits) required' = None"
proof -
  have vs: "entries_of (ce_nego C) c = vs" by (simp add: entries_of_def loads_json_list_def assms(5))
  from round_zero_escrow [OF assms(1-4)] obtain ep us r where ep: "mk_escrow_proposal C p = Return ep"
    and n: "normalize_proposal C ep vs = (us, r)" and l: "nc_listing c' = store_entries us (nc_listing c)"
    unfolding vs by blast
  note fs = mk_escrow_proposal_fields [OF ep]
  have addr: "ep_address ep \<noteq> []" using assms(7) fs(2) by (auto simp: accepted_escrow_for_proposal_def)
  note sel = accepted_selects [OF fs(1,2) addr]
  have f: "find_dict (selects_entry ep) vs = Some entry" using assms(5,7) by (simp add: sel loads_json_list_def)
  then have "selects_entry ep entry" by (auto dest: find_dict_Some)
  then have s': "selects_entry ep (entry_after_merge ep entry)" by (simp add: selects_entry_def entry_after_merge_def assms(8))
  from same_entry [OF assms(6) addr f, of C] obtain before after where
    m: "match_accepted_escrow C ep vs = Some (before, entry, after)"
    and f': "find_dict (selects_entry ep) (before @ PDict (entry_after_merge ep entry) # after) = Some (entry_after_merge ep entry)"
    using s' by blast
  have us: "us = before @ PDict (entry_after_merge ep entry) # after" using n m by (simp add: normalize_proposal_def)
  have lits: "ep_literals ep = Some lits" using fs(3) assms(10) by (auto split: option.splits)
  define required' where "required' = dict_update required lits"
  have j: "jget (entry_after_merge ep entry) ''literal_fields'' = PDict required'"
    by (simp add: entry_after_merge_def assms(8) merged_literals_def literal_fields_of_def lits required'_def)
  have "literal_mismatch (PDict lits) required' = None"
  proof -
    have "py_eq (normalize_escrow_field (lookup_in (PDict lits) k)) (normalize_escrow_field v)" if kv: "(k, v) \<in> set required'" for k v
    proof -
      have v: "map_of lits k = Some v" using dict_update_overrides [OF assms(9,11,13)] kv by (simp add: required'_def)
      then have "is_str v" using map_of_SomeD [OF v] assms(12) by (auto simp: list_all_iff)
      with v show ?thesis by (cases v) (simp_all add: lookup_in_def normalize_escrow_field_def)
    qed
    then show ?thesis by (auto simp: literal_mismatch_def find_None_iff)
  qed
  moreover have "accepted_escrow_for_proposal (ce_nego C) (nc_listing c') p = Some (entry_after_merge ep entry)"
    using f' us l assms(5) by (simp add: sel store_entries_def loads_json_list_def)
  ultimately show ?thesis using j by blast
qed

section \<open>Reference amounts\<close>

lemma extract_unit_price_positive: "extract_unit_price C l reserve p = Return (Floor x) \<Longrightarrow> 0 < x"
  by (auto simp: extract_unit_price_def Let_def res_bind_Inr_iff split: option.splits if_splits)

text \<open>C33: the amount the seller bargains from is exactly the quantity times the unit price of the
  option the buyer's proposal selects: an advertised rate is multiplied in integers and stays within
  256 bits, a hidden reserve is multiplied as a rational and rounded down once, and a proposal that
  selects nothing has reference amount zero.\<close>

theorem reference_amount_is_exact:
  assumes "seller_reference_amount C listing quantity reserve proposal = Return n"
  shows "(selected_settlement_artifact (ce_nego C) listing proposal = Return None \<and> n = 0) \<or>
     (\<exists>rate. extract_unit_price C listing reserve proposal = Return (Rate rate) \<and> n = rate * asked quantity \<and> 1 \<le> asked quantity \<and> 0 \<le> n \<and> n < 2 ^ 256) \<or>
     (\<exists>unit. extract_unit_price C listing reserve proposal = Return (Floor unit) \<and> 0 < unit \<and>
        of_int n \<le> unit * of_int (asked quantity) \<and> unit * of_int (asked quantity) < of_int n + 1)"
proof -
  have "(selected_settlement_artifact (ce_nego C) listing proposal = Return None \<and> n = 0) \<or>
    (\<exists>price. extract_unit_price C listing reserve proposal = Return price \<and> (case price of
       Rate rate \<Rightarrow> checked_credit_total (PInt rate) (PInt (asked quantity))
     | Floor unit \<Rightarrow> Return \<lfloor>unit * of_int (asked quantity)\<rfloor>) = Return n)"
    using assms by (auto simp: seller_reference_amount_def res_bind_Inr_iff split: if_splits)
  then show ?thesis
  proof (elim disjE exE conjE)
    fix price
    assume p: "extract_unit_price C listing reserve proposal = Return price"
      "(case price of Rate rate \<Rightarrow> checked_credit_total (PInt rate) (PInt (asked quantity))
         | Floor unit \<Rightarrow> Return \<lfloor>unit * of_int (asked quantity)\<rfloor>) = Return n"
    show ?thesis
    proof (cases price)
      case (Rate rate)
      with p show ?thesis by (auto simp: checked_credit_total_iff)
    next
      case (Floor unit)
      with p have "extract_unit_price C listing reserve proposal = Return (Floor unit)" "n = \<lfloor>unit * of_int (asked quantity)\<rfloor>" by simp_all
      with extract_unit_price_positive floor_correct [of "unit * of_int (asked quantity)"] show ?thesis by auto
    qed
  qed simp
qed

section \<open>A sample listing\<close>

text \<open>A listing of credits at five base units each; the buyer claims an existing key that is hers and
  proposes another token than the one the listing requires.\<close>

definition shop_env :: credit_env where
  "shop_env = \<lparr>ce_nego = \<lparr>ne_frepr = (\<lambda>_. ''0.0''), ne_loads = (\<lambda>_. None), ne_slot = (\<lambda>_ _ _. None)\<rparr>,
     ce_invalid = (\<lambda>model _. model @ '' is invalid''), ce_int = (\<lambda>v. case v of PInt n \<Rightarrow> Some n | _ \<Rightarrow> None), ce_option_id = (\<lambda>_. '''')\<rparr>"

definition shop_address :: "char \<Rightarrow> string" where
  "shop_address d = ''0x'' @ replicate 40 d"

definition shop_buyer :: principal where
  "shop_buyer = \<lparr>pr_scheme = EIP191, pr_identifier = shop_address (CHR ''a'')\<rparr>"

definition shop_required :: jobj where
  "shop_required = [(PStr ''token'', PStr (shop_address (CHR ''c'')))]"

definition shop_literals :: jobj where
  "shop_literals = [(PStr ''token'', PStr (shop_address (CHR ''d'')))]"

definition shop_entry :: jobj where
  "shop_entry = [(PStr ''chain_name'', PStr ''base''), (PStr ''escrow_address'', PStr (shop_address (CHR ''1''))),
     (PStr ''literal_fields'', PDict shop_required),
     (PStr ''rates'', PList [PDict [(PStr ''field'', PStr ''amount''), (PStr ''per'', PStr ''token''), (PStr ''value'', PStr ''5'')]])]"

definition shop_demand :: pyval where
  "shop_demand = PDict [(PStr ''arbiter'', PStr (shop_address (CHR ''3'')))]"

definition shop_listing :: jobj where
  "shop_listing = [(PStr ''listing_id'', PStr ''l''),
     (PStr ''listing_resource'', PDict [(PStr ''kind'', PStr ''api_credits.v1''), (PStr ''resource_id'', PStr ''pool'')]),
     (PStr ''accepted_escrows'', PList [PDict shop_entry]), (PStr ''demands'', PList [shop_demand])]"

definition shop_proposal :: jobj where
  "shop_proposal = [(PStr ''chain_name'', PStr ''base''), (PStr ''escrow_address'', PStr (shop_address (CHR ''1''))),
     (PStr ''fields'', PDict [(PStr ''amount'', PStr ''50'')]), (PStr ''literal_fields'', PDict shop_literals),
     (PStr ''demand'', shop_demand), (PStr ''expiration_unix'', PInt 1800000000)]"

definition shop_rows :: "pyval list" where
  "shop_rows = [PDict [(PStr ''resource_id'', PStr ''pool''), (PStr ''available_units'', PInt 100)]]"

definition shop_record :: jobj where
  "shop_record = [(PStr ''status'', PStr ''active''), (PStr ''owner_scheme'', PStr ''eip191''),
     (PStr ''owner_id'', PStr (shop_address (CHR ''A'')))]"

definition shop_request :: seller_request where
  "shop_request = \<lparr>sq_listing = shop_listing,
     sq_history = [\<lparr>nr_number = 0, nr_sender = Them, nr_action = ''initial'', nr_proposal = Some shop_proposal\<rparr>],
     sq_quantity = Some 10, sq_key_mode = Some ''existing'', sq_key_id = Some ''ak_1'', sq_buyer = shop_buyer, sq_label = None\<rparr>"

definition shop_config :: chain_config where
  "shop_config = \<lparr>cc_policies = PNone, cc_policy_mode = [], cc_chain_paths = []\<rparr>"

definition shop_run :: "(nego_error, seller_result \<times> nego_context) result" where
  "shop_run = seller_round shop_env (credit_load shop_env (\<lambda>_. None)) shop_config PNone (Return (Some shop_rows))
     (Some (\<lambda>_. Return (PDict shop_record))) shop_request"

lemma shop_run_accepts: "(case shop_run of Inl _ \<Rightarrow> None | Inr (r, _) \<Rightarrow> Some (nd_action (sl_decision r), sl_amount r)) = Some (''accept'', 50)"
  by code_simp

definition shop_inputs :: policy_inputs where
  "shop_inputs = \<lparr>pi_resources = Some shop_rows, pi_key_record = PDict shop_record\<rparr>"

definition shop_context :: nego_context where
  "shop_context = seller_context shop_request shop_inputs 50 True"

definition shop_after :: nego_context where
  "shop_after = snd (projr (api_credits_round_zero_guard shop_env (sq_history shop_request) shop_context))"

lemma shop_guard_passes: "api_credits_round_zero_guard shop_env (sq_history shop_request) shop_context = Return (None, shop_after)"
proof -
  have "(case api_credits_round_zero_guard shop_env (sq_history shop_request) shop_context of Inl _ \<Rightarrow> False | Inr (d, _) \<Rightarrow> d = None)"
    by code_simp
  then show ?thesis by (auto simp: shop_after_def split: sum.splits)
qed

lemma shop_decided: "\<exists>r c'. shop_run = Return (r, c') \<and> nd_action (sl_decision r) = ''accept''"
  using shop_run_accepts by (auto split: sum.splits)

lemma shop_facts:
  "is_round_zero (sq_history shop_request)" "their_last_proposal (sq_history shop_request) = Some shop_proposal"
  "is_escrow_proposal (Some shop_proposal)" "jget shop_proposal ''settlement_selection'' = PNone"
  "resource_is_api_credits (ce_nego shop_env) (jget (sq_listing shop_request) ''listing_resource'')"
  "sq_quantity shop_request = Some 10" "sq_key_mode shop_request = Some ''existing''" "principal_ok (sq_buyer shop_request)"
  "accepted_escrow_for_proposal (ce_nego shop_env) (nc_listing shop_context) shop_proposal = Some shop_entry"
  "jget (nc_listing shop_context) ''accepted_escrows'' = PList [PDict shop_entry]" "text_address (PDict shop_entry)"
  "jget shop_entry ''literal_fields'' = PDict shop_required" "dict_ok shop_required"
  "jget shop_proposal ''literal_fields'' = PDict shop_literals" "dict_ok shop_literals"
  "list_all (\<lambda>x. is_str (snd x)) shop_literals"
  "literal_mismatch (PDict shop_literals) shop_required \<noteq> None"
  by code_simp+

theorem credit_offers_are_covered_witness:
  "\<exists>row. row \<in> set shop_rows \<and> quota_row (ce_nego shop_env)
     (jget (coerce_resource_dict (ce_nego shop_env) (jget (sq_listing shop_request) ''listing_resource'')) ''resource_id'') 10 row"
proof -
  obtain r c' where r: "shop_run = Return (r, c')" "nd_action (sl_decision r) = ''accept''" using shop_decided by blast
  from r(2) have "\<not> closing (sl_decision r)" by (simp add: closing_def)
  from credit_offers_are_covered [OF r(1) [unfolded shop_run_def] this] shop_facts show ?thesis by blast
qed

theorem existing_key_is_the_buyers_witness: "owner_of_record (ce_nego shop_env) shop_record = Some shop_buyer"
proof -
  obtain r c' where r: "shop_run = Return (r, c')" "nd_action (sl_decision r) = ''accept''" using shop_decided by blast
  from r(2) have "\<not> closing (sl_decision r)" by (simp add: closing_def)
  from existing_key_is_the_buyers [OF r(1) [unfolded shop_run_def] this shop_facts(7,8)]
  show ?thesis by (auto simp: shop_request_def shop_record_def jget_def)
qed

theorem opening_overrides_required_literals_witness:
  "(\<exists>r c'. shop_run = Return (r, c') \<and> nd_action (sl_decision r) = ''accept'') \<and>
   literal_mismatch (PDict shop_literals) shop_required \<noteq> None \<and>
   (\<exists>entry required'. accepted_escrow_for_proposal (ce_nego shop_env) (nc_listing shop_after) shop_proposal = Some entry \<and>
      jget entry ''literal_fields'' = PDict required' \<and> literal_mismatch (PDict shop_literals) required' = None)"
proof -
  have "fst ` set shop_required \<subseteq> fst ` set shop_literals" by (simp add: shop_required_def shop_literals_def)
  from opening_overrides_required_literals [OF shop_guard_passes shop_facts(1,2,4,10) _ shop_facts(9,12,13,14,15,16) this]
    shop_facts(11) shop_decided shop_facts(17) show ?thesis by simp
qed

theorem reference_amount_is_exact_witness:
  "\<exists>rate. extract_unit_price shop_env shop_listing PNone (Some shop_proposal) = Return (Rate rate) \<and> 50 = rate * 10"
proof -
  have n: "seller_reference_amount shop_env shop_listing (Some 10) PNone (Some shop_proposal) = Return 50" by code_simp
  have a: "selected_settlement_artifact (ce_nego shop_env) shop_listing (Some shop_proposal) \<noteq> Return None" by code_simp
  have u: "extract_unit_price shop_env shop_listing PNone (Some shop_proposal) = Return (Rate 5)" by code_simp
  from reference_amount_is_exact [OF n] a u show ?thesis by (auto simp: asked_def)
qed

end
