(* ===== verification/Credit_Hooks.thy ===== *)
theory Credit_Hooks
  imports Credit_Deals Negotiation_Runs
begin

text \<open>
  The API-credits domain as the negotiation runtime sees it: the readers of its provision terms
  (\<open>src/domains/apicredits/src/arkhai_apicredits/negotiation/terms.py\<close>) and the hooks and resolvers of
  \<open>src/domains/apicredits/storefront/src/apicredits_storefront/negotiation_runtime.py\<close>.

  The repository's readers, the message codec, the builder of the accepted artifacts, the stages of
  the settlement mechanisms and the check of the listing's source are fields of \<open>credit_domain\<close>.  The
  default seller round is the only one modelled.  A hook gets the listing by value: what the opening
  guard writes into the listing's entries is in the context \<open>run_seller_round\<close> returns and is not
  carried to the hooks that run after it in the same request.
\<close>

section \<open>Provision terms\<close>

definition provision_payload :: "pyval \<Rightarrow> jobj" where
  "provision_payload terms = (case terms of PDict d \<Rightarrow> (case jget d ''payload'' of PDict p \<Rightarrow> p | _ \<Rightarrow> []) | _ \<Rightarrow> [])"

definition provision_quantity :: "pyval \<Rightarrow> (nego_error, int option) result" where
  "provision_quantity terms =
     (let raw = jget (provision_payload terms) ''quantity'' in
      if raw = PNone then Return None
      else catching value_or_type_error (py_int raw) (\<lambda>_. Return None) (\<lambda>n. Return (Some n)))"

definition provision_key :: "pyval \<Rightarrow> jobj" where
  "provision_key terms = (case jget (provision_payload terms) ''key'' of PDict k \<Rightarrow> k | _ \<Rightarrow> [])"

definition provision_key_mode :: "pyval \<Rightarrow> string" where
  "provision_key_mode terms = (case jget (provision_key terms) ''mode'' of PStr (x # xs) \<Rightarrow> x # xs | _ \<Rightarrow> ''new'')"

definition provision_key_id :: "nego_env \<Rightarrow> pyval \<Rightarrow> string option" where
  "provision_key_id E terms = (let raw = jget (provision_key terms) ''key_id'' in
     if py_truthy raw then Some (py_str (ne_frepr E) raw) else None)"

section \<open>The settlement selection of a negotiation\<close>

definition schema_named :: "jobj \<Rightarrow> bool" where
  "schema_named settlement = (case jget settlement ''schema'' of PStr s \<Rightarrow> py_strip s \<noteq> [] | _ \<Rightarrow> False)"

text \<open>\<open>SettlementSelection.model_validate\<close> and its dump.\<close>

definition settlement_selection_of :: "credit_env \<Rightarrow> jobj \<Rightarrow> jobj option" where
  "settlement_selection_of C d =
     Option.bind (object_field (jget d ''settlement'')) (\<lambda>settlement.
     Option.bind (text_field (jget d ''option_id'')) (\<lambda>oid.
     Option.bind (if jget d ''expiration_unix'' = PNone then Some PNone
       else Option.bind (ce_int C (jget d ''expiration_unix'')) (\<lambda>n. if n \<le> 0 then None else Some (PInt n))) (\<lambda>expiration.
       if \<not> schema_named settlement \<or> \<not> is_option_id oid then None
       else Some [(PStr ''settlement'', PDict settlement), (PStr ''option_id'', PStr oid), (PStr ''expiration_unix'', expiration)])))"

definition option_dump :: "settlement_option \<Rightarrow> (nego_error, jobj) result" where
  "option_dump option =
     res_bind (case op_price option of None \<Rightarrow> Return [] | Some p \<Rightarrow> res_bind (price_dump p) (\<lambda>v. Return [(PStr ''price'', v)])) (\<lambda>priced.
     Return ([(PStr ''option_id'', PStr (op_id option))] @ priced @ [(PStr ''settlement'', PDict (op_settlement option))]
       @ (case op_lifecycle option of None \<Rightarrow> [] | Some l \<Rightarrow> [(PStr ''lifecycle'', PDict l)])))"

definition trusted_options :: "nego_env \<Rightarrow> jobj \<Rightarrow> (nego_error, pyval list) result" where
  "trusted_options E listing =
     (let raw = field_or listing ''settlement_options'' (PList []) in
      case (case raw of PStr s \<Rightarrow> ne_loads E s | _ \<Rightarrow> Some raw) of
        Some (PList xs) \<Rightarrow> Return xs
      | _ \<Rightarrow> Raise (State_Error ''trusted listing settlement options are invalid''))"

text \<open>The selection and the option a proposal pins, dumped; nothing when it selects none.\<close>

definition selected_policy_state ::
    "credit_env \<Rightarrow> string list \<Rightarrow> jobj \<Rightarrow> jobj option \<Rightarrow> (nego_error, (jobj \<times> jobj) option) result" where
  "selected_policy_state C admitted listing proposal =
     (case (case proposal of None \<Rightarrow> PNone | Some p \<Rightarrow> jget p ''settlement_selection'') of
        PNone \<Rightarrow> Return None
      | PDict raw \<Rightarrow>
          if \<not> (list_all (jhas raw) SELECTION_KEYS \<and> list_all (\<lambda>x. fst x \<in> PStr ` set SELECTION_KEYS) raw)
          then Raise (State_Error ''selected settlement selection is not exact'')
          else (case settlement_selection_of C raw of
              None \<Rightarrow> Raise (State_Error ''selected settlement selection is invalid'')
            | Some selection \<Rightarrow> (case (settlement_option_schema selection, jget selection ''option_id'') of
                (PStr mechanism, PStr oid) \<Rightarrow>
                  if mechanism \<notin> set admitted then Raise (State_Error ''exact settlement selection uses an unsupported mechanism'')
                  else res_bind (trusted_options (ce_nego C) listing) (\<lambda>options.
                    res_bind (res_map (\<lambda>d. case settlement_option_of C d of
                          None \<Rightarrow> Raise (State_Error ''selected trusted settlement option is invalid'')
                        | Some option \<Rightarrow> Return option)
                        (filter (option_matches oid mechanism) (List.map_filter as_dict options))) (\<lambda>found. case found of
                      [option] \<Rightarrow> res_bind (option_dump option) (\<lambda>d. Return (Some (selection, d)))
                    | _ \<Rightarrow> Raise (State_Error ''selected settlement selection no longer exact-matches the trusted listing'')))
              | _ \<Rightarrow> Raise (State_Error ''selected settlement selection is invalid'')))
      | _ \<Rightarrow> Raise (State_Error ''selected settlement selection is not exact''))"

definition state_of :: "(jobj \<times> jobj) option \<Rightarrow> pyval" where
  "state_of s = (case s of None \<Rightarrow> PNone
     | Some (selection, option) \<Rightarrow> PDict [(PStr ''accepted_settlement_selection'', PDict selection), (PStr ''accepted_settlement_option'', PDict option)])"

text \<open>A round of the buyer's with a proposal, and what its proposal selects.\<close>

definition buyer_round :: "nego_round \<Rightarrow> bool" where
  "buyer_round r = (nr_sender r = Them \<and> nr_proposal r \<noteq> None)"

definition round_selection :: "nego_round \<Rightarrow> pyval" where
  "round_selection r = (case nr_proposal r of None \<Rightarrow> PNone | Some p \<Rightarrow> jget p ''settlement_selection'')"

definition selection_unchanged :: "(jobj \<times> jobj) option \<Rightarrow> nego_round \<Rightarrow> (nego_error, unit) result" where
  "selection_unchanged state r =
     (if round_selection r = PNone then Return ()
      else (case state of
          None \<Rightarrow> Raise (State_Error ''opening settlement selection cannot change during negotiation'')
        | Some (pinned, _) \<Rightarrow> res_bind (py_dict (round_selection r)) (\<lambda>d.
            if py_eq (PDict d) (PDict pinned) then Return ()
            else Raise (State_Error ''opening settlement selection cannot change during negotiation''))))"

text \<open>A last proposal of the buyer's that selects nothing is given the opening's selection.\<close>

definition fill_last_selection :: "jobj \<Rightarrow> nego_round list \<Rightarrow> (nego_error, nego_round list) result" where
  "fill_last_selection pinned h = (case List.extract buyer_round (rev h) of
     None \<Rightarrow> Return h
   | Some (later, r, earlier) \<Rightarrow> (case nr_proposal r of
       None \<Rightarrow> Return h
     | Some p \<Rightarrow>
         if jget p ''settlement_selection'' \<noteq> PNone then Return h
         else if jhas p ''chain_name'' \<or> jhas p ''escrow_address''
         then Raise (State_Error ''opening settlement mechanism cannot change during negotiation'')
         else Return (rev earlier @ r\<lparr>nr_proposal := Some (jset ''settlement_selection'' (PDict pinned) p)\<rparr> # rev later)))"

definition preserve_selected_round_selection ::
    "credit_env \<Rightarrow> string list \<Rightarrow> jobj \<Rightarrow> nego_round list \<Rightarrow> (nego_error, nego_round list \<times> (jobj \<times> jobj) option) result" where
  "preserve_selected_round_selection C admitted listing h =
     res_bind (selected_policy_state C admitted listing (case h of [] \<Rightarrow> None | r # _ \<Rightarrow> nr_proposal r)) (\<lambda>state.
     res_bind (res_map (selection_unchanged state) (filter buyer_round h)) (\<lambda>_.
     res_bind (case state of None \<Rightarrow> Return h | Some (pinned, _) \<Rightarrow> fill_last_selection pinned h) (\<lambda>h'. Return (h', state))))"

section \<open>The hooks\<close>

record credit_domain =
  cd_env :: credit_env
  cd_load :: "string list \<Rightarrow> (nego_error, middleware list) result"
  cd_config :: chain_config
  cd_reserve :: pyval
  cd_admitted :: "string list"
  cd_decode :: "pyval \<Rightarrow> (nego_error, nego_terms) result"
  cd_listing :: "nego_store \<Rightarrow> string \<Rightarrow> jobj option"
  cd_terms :: "nego_store \<Rightarrow> string \<Rightarrow> jobj option"
  cd_snapshot :: "nego_store \<Rightarrow> string \<Rightarrow> (nego_error, pyval list option) result"
  cd_lookup :: "(string \<Rightarrow> (nego_error, pyval) result) option"
  cd_stages :: "string \<Rightarrow> (acceptance \<Rightarrow> nego_write list) option"
  cd_artifacts :: "acceptance \<Rightarrow> bool \<Rightarrow> (nego_error, jobj) result"
  cd_paused :: bool
  cd_listing_paused :: "nego_store \<Rightarrow> string \<Rightarrow> bool"
  cd_source :: "nego_store \<Rightarrow> resolved \<Rightarrow> (nego_error, source_verdict) result"
  cd_stamp :: string

definition terms_required :: string where
  "terms_required = ''API-credit negotiation requires domain-valid provision terms''"

definition validate_credit_opening :: "nego_terms \<Rightarrow> (nego_error, unit) result" where
  "validate_credit_opening terms =
     (if nt_decoded terms = PNone then Raise (State_Error terms_required)
      else res_bind (provision_quantity (nt_decoded terms)) (\<lambda>quantity.
        if quantity = None then Raise (State_Error terms_required) else Return ()))"

definition transcript_mismatch :: "(nego_error, unit) result" where
  "transcript_mismatch = Raise (State_Error ''recorded API-credit terms do not match the negotiation transcript'')"

definition validate_credit_continuation :: "credit_domain \<Rightarrow> nego_store \<Rightarrow> nego_terms \<Rightarrow> thread_view \<Rightarrow> (nego_error, unit) result" where
  "validate_credit_continuation D S terms t =
     (let E = ce_nego (cd_env D); mode = provision_key_mode (nt_decoded terms); kid = provision_key_id E (nt_decoded terms) in
      if tv_id t = [] then Raise (State_Error ''API-credit thread has no negotiation identity'')
      else res_bind (provision_quantity (nt_decoded terms)) (\<lambda>quantity. case quantity of
          None \<Rightarrow> if cd_terms D S (tv_id t) \<noteq> None then transcript_mismatch else Return ()
        | Some n \<Rightarrow> (case cd_terms D S (tv_id t) of
            Some (x # xs) \<Rightarrow>
              let recorded = x # xs;
                  recorded_mode = (if py_truthy (jget recorded ''key_mode'') then py_str (ne_frepr E) (jget recorded ''key_mode'') else []) in
              res_bind (py_int (field_or recorded ''quantity'' (PInt (- 1)))) (\<lambda>m.
                if m = n \<and> recorded_mode = mode \<and> jget recorded ''key_id'' = or_none PStr kid then Return () else transcript_mismatch)
          | _ \<Rightarrow> transcript_mismatch)))"

definition proposal_from_amount :: "jobj option \<Rightarrow> int option \<Rightarrow> jobj option" where
  "proposal_from_amount pinned amount =
     (if pinned = None \<and> amount = None then None
      else let base = (case pinned of None \<Rightarrow> [] | Some p \<Rightarrow> p);
               fs = (case jget base ''fields'' of PDict d \<Rightarrow> d | _ \<Rightarrow> []) in
        Some (jset ''fields'' (PDict (case amount of None \<Rightarrow> fs | Some n \<Rightarrow> jset ''amount'' (PInt n) fs)) base))"

definition credit_reference_amount :: "credit_domain \<Rightarrow> pyval \<Rightarrow> nego_terms \<Rightarrow> bool \<Rightarrow> jobj option \<Rightarrow> (nego_error, int) result" where
  "credit_reference_amount D listing terms scalar pinned =
     (if \<not> scalar then Return 0
      else res_bind (provision_quantity (nt_decoded terms)) (\<lambda>quantity.
        res_bind (py_dict listing) (\<lambda>l. seller_reference_amount (cd_env D) l quantity (cd_reserve D) pinned)))"

definition text_or_empty :: "nego_env \<Rightarrow> pyval \<Rightarrow> string" where
  "text_or_empty E v = (if py_truthy v then py_str (ne_frepr E) v else [])"

definition credit_evaluate :: "credit_domain \<Rightarrow> nego_store \<Rightarrow> round_request \<Rightarrow> (nego_error, evaluation) result" where
  "credit_evaluate D S request =
     (let C = cd_env D; decoded = nt_decoded (rr_terms request) in
      res_bind (preserve_selected_round_selection C (cd_admitted D) (rr_record request) (rr_history request)) (\<lambda>(history, selected).
      res_bind (provision_quantity decoded) (\<lambda>quantity.
      res_bind (py_dict (rr_listing request)) (\<lambda>listing.
      res_bind (seller_round C (cd_load D) (cd_config D) (cd_reserve D)
          (cd_snapshot D S (text_or_empty (ce_nego C) (jget (rr_record request) ''listing_id''))) (cd_lookup D)
          \<lparr>sq_listing = listing, sq_history = history, sq_quantity = quantity, sq_key_mode = Some (provision_key_mode decoded),
           sq_key_id = provision_key_id (ce_nego C) decoded, sq_buyer = rr_buyer request, sq_label = rr_strategy request\<rparr>) (\<lambda>(r, _).
      let state = merge_dict (sl_intermediate r) (case state_of selected of PDict d \<Rightarrow> d | _ \<Rightarrow> []) in
      res_bind (if jget state ''buyer_amount'' = PNone then Return None
          else res_bind (py_int (jget state ''buyer_amount'')) (\<lambda>n. Return (Some n))) (\<lambda>buyer_amount.
      Return \<lparr>ev_our = sl_amount r, ev_label = sl_label r, ev_decision = sl_decision r,
        ev_pinned = as_dict (jget state ''accepted_escrow_proposal''),
        ev_scalar = py_truthy (field_or state ''uses_scalar_amount'' (PBool True)), ev_buyer = buyer_amount, ev_state = PDict state\<rparr>))))))"

text \<open>The policy state an acceptance is settled from: the pinned selection, which neither the round
  nor the resumed thread may contradict.\<close>

definition contradicts :: "jobj \<Rightarrow> pyval \<Rightarrow> bool" where
  "contradicts selection candidate = (case candidate of
     PDict d \<Rightarrow> jget d ''accepted_settlement_selection'' \<noteq> PNone \<and> \<not> py_eq (jget d ''accepted_settlement_selection'') (PDict selection)
   | _ \<Rightarrow> False)"

definition acceptance_policy_state :: "credit_domain \<Rightarrow> acceptance \<Rightarrow> (nego_error, jobj) result" where
  "acceptance_policy_state D a =
     res_bind (selected_policy_state (cd_env D) (cd_admitted D) (ac_record a) (ac_pinned a)) (\<lambda>pinned. case pinned of
       None \<Rightarrow> Return (case ac_state a of PDict d \<Rightarrow> d | _ \<Rightarrow> [])
     | Some (selection, option) \<Rightarrow>
         if contradicts selection (ac_state a) \<or> contradicts selection (ac_binding a)
         then Raise (State_Error ''selected settlement policy state changed after opening'')
         else Return (case state_of pinned of PDict d \<Rightarrow> d | _ \<Rightarrow> []))"

text \<open>The repository calls of the hooks that write.\<close>

definition place_quota_hold :: "credit_domain \<Rightarrow> acceptance \<Rightarrow> nego_write list" where
  "place_quota_hold D a = (case acceptance_policy_state D a of
     Inl e \<Rightarrow> [Abort e]
   | Inr state \<Rightarrow> (case jget state ''accepted_settlement_selection'' of
        PDict selection \<Rightarrow> (case settlement_option_schema selection of
            PStr mechanism \<Rightarrow> (case cd_stages D mechanism of
                None \<Rightarrow> [Abort (Unfulfillable ''settlement_mechanism_unsupported'' None)]
              | Some hold \<Rightarrow> hold a)
          | _ \<Rightarrow> [Abort (Unfulfillable ''settlement_mechanism_unsupported'' None)])
      | _ \<Rightarrow> []))"

definition persist_credit_terms :: "nego_env \<Rightarrow> opening_record \<Rightarrow> nego_write list" where
  "persist_credit_terms E x =
     (let a = op_acceptance x; decoded = nt_decoded (ac_terms a) in
      case provision_quantity decoded of
        Inl e \<Rightarrow> [Abort e]
      | Inr None \<Rightarrow> []
      | Inr (Some n) \<Rightarrow> [Domain_Call (PDict [(PStr ''save_credit_terms'', PStr (ac_id a)), (PStr ''quantity'', PInt n),
          (PStr ''key_mode'', PStr (provision_key_mode decoded)), (PStr ''key_id'', or_none PStr (provision_key_id E decoded))])])"

definition persist_plan :: "credit_domain \<Rightarrow> acceptance \<Rightarrow> jobj \<Rightarrow> nego_write list" where
  "persist_plan D a artifacts = (case jget artifacts ''settlement_plan'' of
     PDict plan \<Rightarrow> [Commit_Plan (ac_id a) plan (ac_buyer a) (ac_seller a) (cd_stamp D)]
   | _ \<Rightarrow> [])"

definition credit_hooks :: "credit_domain \<Rightarrow> domain_hooks" where
  "credit_hooks D = (let E = ce_nego (cd_env D) in
     \<lparr>hk_decode = (\<lambda>raw. if raw = PNone then Return \<lparr>nt_decoded = PNone, nt_wire = None, nt_duration = None, nt_start = None\<rparr> else cd_decode D raw),
      hk_validate_opening = (\<lambda>_ _ terms. validate_credit_opening terms),
      hk_validate_continuation = (\<lambda>S _ _ terms t. validate_credit_continuation D S terms t),
      hk_evaluate = credit_evaluate D,
      hk_strategy = (\<lambda>listing _. res_bind (py_dict listing) (\<lambda>l. Return (determine_strategy E l))),
      hk_reference = (\<lambda>listing _ terms scalar pinned. credit_reference_amount D listing terms scalar pinned),
      hk_amount = amount_from_proposal E, hk_proposal = proposal_from_amount,
      hk_agreement = (\<lambda>_ _ _. Return \<lparr>ag_duration = 0, ag_start = None\<rparr>),
      hk_artifacts = cd_artifacts D, hk_wire = decision_dict,
      hk_live = (\<lambda>rec. py_strip (text_or_empty E (jget rec ''status'')) = ''open''),
      hk_listing_paused = cd_listing_paused D, hk_paused = cd_paused D,
      hk_persist_opening = Some (persist_credit_terms E), hk_place_hold = Some (place_quota_hold D),
      hk_persist_artifacts = Some (persist_plan D), hk_check_source = Some (cd_source D)\<rparr>)"

section \<open>The runtime\<close>

definition resolved_listing :: "string \<Rightarrow> jobj \<Rightarrow> pyval \<Rightarrow> resolved" where
  "resolved_listing l rec binding = \<lparr>rv_listing_id = l, rv_listing = PDict rec, rv_record = rec, rv_binding = binding\<rparr>"

definition resolve_credit_opening :: "credit_domain \<Rightarrow> nego_store \<Rightarrow> string \<Rightarrow> (nego_error, resolved \<times> domain_hooks) result" where
  "resolve_credit_opening D S l = (case cd_listing D S l of
     Some (x # xs) \<Rightarrow> Return (resolved_listing l (x # xs) PNone, credit_hooks D)
   | _ \<Rightarrow> Raise (State_Error (''Order '' @ l @ '' not found locally; seller has no matching listing'')))"

definition resolve_credit_continuation :: "credit_domain \<Rightarrow> nego_store \<Rightarrow> thread_view \<Rightarrow> (nego_error, resolved \<times> domain_hooks) result" where
  "resolve_credit_continuation D S t =
     (if tv_our_listing t = [] then Raise (State_Error ''negotiation has no recorded API-credit listing'')
      else (case cd_listing D S (tv_our_listing t) of
        Some (x # xs) \<Rightarrow>
          res_bind (selected_policy_state (cd_env D) (cd_admitted D) (x # xs) (as_dict (tv_proposal t))) (\<lambda>binding.
            Return (resolved_listing (tv_our_listing t) (x # xs) (state_of binding), credit_hooks D))
      | _ \<Rightarrow> Raise (State_Error (''Seller's order '' @ tv_our_listing t @ '' is gone from local DB''))))"

definition credit_runtime :: "thread_env \<Rightarrow> credit_domain \<Rightarrow> nego_runtime" where
  "credit_runtime T D = \<lparr>nrt_env = T, nrt_resolve_opening = resolve_credit_opening D,
     nrt_resolve_continuation = resolve_credit_continuation D\<rparr>"

section \<open>The domain is confined to its own negotiation\<close>

definition holds_confined :: "credit_domain \<Rightarrow> bool" where
  "holds_confined D = (\<forall>m f a. cd_stages D m = Some f \<longrightarrow> list_all (side_write (ac_id a)) (f a))"

lemma place_quota_hold_side: "holds_confined D \<Longrightarrow> list_all (side_write (ac_id a)) (place_quota_hold D a)"
  by (auto simp: place_quota_hold_def holds_confined_def side_write_def split: sum.splits pyval.splits option.splits)

lemma persist_side:
  "list_all (side_write (ac_id (op_acceptance x))) (persist_credit_terms E x)"
  "list_all (side_write (ac_id a)) (persist_plan D a arts)"
  by (auto simp: persist_credit_terms_def persist_plan_def Let_def side_write_def split: sum.splits option.splits pyval.splits)

lemma credit_hooks_confined: "holds_confined D \<Longrightarrow> confined_hooks (credit_hooks D)"
  by (simp add: confined_hooks_def credit_hooks_def Let_def place_quota_hold_side persist_side)

lemma credit_confined: "holds_confined D \<Longrightarrow> confined (credit_runtime T D)"
  using credit_hooks_confined [of D]
  by (auto simp: confined_def credit_runtime_def resolve_credit_opening_def resolve_credit_continuation_def res_bind_Inr_iff
      split: option.splits list.splits if_splits)

section \<open>The selection of the opening is kept\<close>

text \<open>The proposal of a round selects what the opening selected, or nothing.\<close>

definition keeps_selection :: "jobj \<Rightarrow> nego_round \<Rightarrow> bool" where
  "keeps_selection pinned r = (round_selection r = PNone \<or> round_selection r = PDict pinned \<or>
     (\<exists>d. py_dict (round_selection r) = Return d \<and> py_eq (PDict d) (PDict pinned)))"

lemma res_map_all: "res_map f xs = Return ys \<Longrightarrow> x \<in> set xs \<Longrightarrow> \<exists>y. f x = Return y"
  by (induction xs arbitrary: ys) (auto simp: res_bind_Inr_iff)

lemma extract_rev:
  assumes "List.extract P (rev h) = Some (later, r, earlier)"
  shows "h = rev earlier @ r # rev later" "P r" "list_all (\<lambda>x. \<not> P x) later"
proof -
  from assms have "rev h = later @ r # earlier \<and> P r \<and> (\<forall>y \<in> set later. \<not> P y)" by (simp add: extract_Some_iff)
  then show "h = rev earlier @ r # rev later" "P r" "list_all (\<lambda>x. \<not> P x) later"
    using rev_swap [of h "later @ r # earlier"] by (auto simp: list_all_iff)
qed

lemma selection_unchanged_keeps: "selection_unchanged (Some (pinned, option)) r = Return u \<Longrightarrow> keeps_selection pinned r"
  by (auto simp: selection_unchanged_def keeps_selection_def res_bind_Inr_iff split: if_splits)

lemma selection_unchanged_none: "selection_unchanged None r = Return u \<Longrightarrow> round_selection r = PNone"
  by (auto simp: selection_unchanged_def split: if_splits)

lemma not_buyer_selects: "\<not> buyer_round r \<Longrightarrow> nr_sender r = Them \<Longrightarrow> round_selection r = PNone"
  by (simp add: buyer_round_def round_selection_def)

lemma from_them_append: "from_them (a @ b) = from_them a @ from_them b"
  by (simp add: from_them_def List.map_filter_def)

lemma from_them_none: "list_all (\<lambda>r. \<not> buyer_round r) h \<Longrightarrow> from_them h = []"
  by (induction h) (auto simp: from_them_def buyer_round_def List.map_filter_simps)

lemma last_proposal_at:
  "buyer_round r \<Longrightarrow> list_all (\<lambda>x. \<not> buyer_round x) later \<Longrightarrow> their_last_proposal (earlier @ r # later) = nr_proposal r"
  using from_them_none [of later] from_them_append [of earlier "r # later"]
  by (auto simp: their_last_proposal_def buyer_round_def from_them_def List.map_filter_simps)

text \<open>The transcript is kept, or the selection is filled in where the buyer's last proposal has none.\<close>

lemma fill_cases:
  assumes "fill_last_selection pinned h = Return h'"
  obtains (same) "h' = h" "\<forall>p. their_last_proposal h = Some p \<longrightarrow> jget p ''settlement_selection'' \<noteq> PNone"
  | (filled) earlier r later p where "h = earlier @ r # later"
      "nr_sender r = Them" "nr_proposal r = Some p" "jget p ''settlement_selection'' = PNone" "list_all (\<lambda>x. \<not> buyer_round x) later"
      "\<not> jhas p ''chain_name''" "\<not> jhas p ''escrow_address''"
      "h' = earlier @ r\<lparr>nr_proposal := Some (jset ''settlement_selection'' (PDict pinned) p)\<rparr> # later"
proof (cases "List.extract buyer_round (rev h)")
  case None
  then have "list_all (\<lambda>r. \<not> buyer_round r) h" by (auto simp: extract_None_iff list_all_iff)
  then have "their_last_proposal h = None" by (simp add: from_them_none their_last_proposal_def)
  with assms None same show thesis by (simp add: fill_last_selection_def)
next
  case (Some e)
  obtain later' r earlier' where e: "e = (later', r, earlier')" by (cases e)
  note x = extract_rev [OF Some [unfolded e]]
  from x(2) obtain p where p: "nr_sender r = Them" "nr_proposal r = Some p" by (auto simp: buyer_round_def)
  have l: "list_all (\<lambda>x. \<not> buyer_round x) (rev later')" using x(3) by (simp add: list_all_iff)
  have last: "their_last_proposal h = Some p" using last_proposal_at [OF x(2) l, of "rev earlier'"] x(1) p by simp
  show thesis
  proof (cases "jget p ''settlement_selection'' = PNone")
    case True
    with assms Some e p have "\<not> jhas p ''chain_name''" "\<not> jhas p ''escrow_address''"
      "h' = rev earlier' @ r\<lparr>nr_proposal := Some (jset ''settlement_selection'' (PDict pinned) p)\<rparr> # rev later'"
      by (simp_all add: fill_last_selection_def split: if_splits)
    then show thesis using filled [OF x(1) p True l] by blast
  next
    case False
    with assms Some e p have "h' = h" by (simp add: fill_last_selection_def)
    then show thesis using same last False by simp
  qed
qed

lemma preserve_cases:
  assumes "preserve_selected_round_selection C admitted listing h = Return (h', state)"
  obtains (none) "state = None" "h' = h" | (some) pinned option where "state = Some (pinned, option)" "fill_last_selection pinned h = Return h'"
  using assms by (cases state) (auto simp: preserve_selected_round_selection_def res_bind_Inr_iff)

lemma one_found: "(case xs of [x] \<Rightarrow> f x | _ \<Rightarrow> Raise e) = Return y \<longleftrightarrow> (\<exists>x. xs = [x] \<and> f x = Return y)"
  by (auto split: list.splits)

lemma state_of_opening:
  assumes "preserve_selected_round_selection C admitted listing h = Return (h', state)"
  shows "case state of None \<Rightarrow> h = [] \<or> round_selection (hd h) = PNone
    | Some (pinned, _) \<Rightarrow> h \<noteq> [] \<and> (\<exists>raw. round_selection (hd h) = PDict raw \<and> settlement_selection_of C raw = Some pinned)"
proof -
  from assms have "selected_policy_state C admitted listing (case h of [] \<Rightarrow> None | r # _ \<Rightarrow> nr_proposal r) = Return state"
    by (auto simp: preserve_selected_round_selection_def res_bind_Inr_iff)
  then show ?thesis
    by (cases h) (auto simp: selected_policy_state_def round_selection_def res_bind_Inr_iff one_found split: option.splits pyval.splits if_splits)
qed

text \<open>C31: the settlement option of a negotiation is fixed by its opening.  The pinned selection is the
  one the opening names.  The transcript a policy is given names, in every round of the buyer's, that
  selection or none, and the buyer's last proposal names one when the opening did.  The transcript is
  otherwise the recorded one: it is unchanged, or exactly one round differs, the last one in which
  the buyer proposes, whose proposal named no selection and no escrow and now names the pinned one.\<close>

theorem selection_is_pinned:
  assumes "preserve_selected_round_selection C admitted listing h = Return (h', state)"
  shows "(case state of None \<Rightarrow> h = [] \<or> round_selection (hd h) = PNone
      | Some (pinned, _) \<Rightarrow> h \<noteq> [] \<and> (\<exists>raw. round_selection (hd h) = PDict raw \<and> settlement_selection_of C raw = Some pinned)) \<and>
    (\<forall>r \<in> set h'. nr_sender r = Them \<longrightarrow> (case state of None \<Rightarrow> round_selection r = PNone | Some (pinned, _) \<Rightarrow> keeps_selection pinned r)) \<and>
    (state \<noteq> None \<longrightarrow> (\<forall>p. their_last_proposal h' = Some p \<longrightarrow> jget p ''settlement_selection'' \<noteq> PNone)) \<and>
    (h' = h \<or> (\<exists>earlier r later p pinned option. state = Some (pinned, option) \<and> h = earlier @ r # later \<and>
       nr_sender r = Them \<and> nr_proposal r = Some p \<and> list_all (\<lambda>x. \<not> buyer_round x) later \<and>
       jget p ''settlement_selection'' = PNone \<and> \<not> jhas p ''chain_name'' \<and> \<not> jhas p ''escrow_address'' \<and>
       h' = earlier @ r\<lparr>nr_proposal := Some (jset ''settlement_selection'' (PDict pinned) p)\<rparr> # later))"
proof -
  from assms obtain us where us: "res_map (selection_unchanged state) (filter buyer_round h) = Return us"
    by (auto simp: preserve_selected_round_selection_def Let_def res_bind_Inr_iff split: option.splits prod.splits if_splits)
  have keep: "case state of None \<Rightarrow> round_selection r = PNone | Some (pinned, _) \<Rightarrow> keeps_selection pinned r"
    if "r \<in> set h" "nr_sender r = Them" for r
  proof (cases "buyer_round r")
    case True
    with res_map_all [OF us, of r] that show ?thesis
      by (auto split: option.splits prod.splits dest: selection_unchanged_keeps selection_unchanged_none)
  next
    case False
    with not_buyer_selects that show ?thesis by (auto simp: keeps_selection_def split: option.splits)
  qed
  consider (same) "h' = h" "state \<noteq> None \<longrightarrow> (\<forall>p. their_last_proposal h = Some p \<longrightarrow> jget p ''settlement_selection'' \<noteq> PNone)"
    | (filled) earlier r later p pinned option where "state = Some (pinned, option)" "h = earlier @ r # later"
      "nr_sender r = Them" "nr_proposal r = Some p" "jget p ''settlement_selection'' = PNone" "list_all (\<lambda>x. \<not> buyer_round x) later"
      "\<not> jhas p ''chain_name''" "\<not> jhas p ''escrow_address''"
      "h' = earlier @ r\<lparr>nr_proposal := Some (jset ''settlement_selection'' (PDict pinned) p)\<rparr> # later"
    using assms by (cases rule: preserve_cases) (auto elim: fill_cases)
  then have "(\<forall>r \<in> set h'. nr_sender r = Them \<longrightarrow> (case state of None \<Rightarrow> round_selection r = PNone | Some (pinned, _) \<Rightarrow> keeps_selection pinned r)) \<and>
    (state \<noteq> None \<longrightarrow> (\<forall>p. their_last_proposal h' = Some p \<longrightarrow> jget p ''settlement_selection'' \<noteq> PNone)) \<and>
    (h' = h \<or> (\<exists>earlier r later p pinned option. state = Some (pinned, option) \<and> h = earlier @ r # later \<and>
       nr_sender r = Them \<and> nr_proposal r = Some p \<and> list_all (\<lambda>x. \<not> buyer_round x) later \<and>
       jget p ''settlement_selection'' = PNone \<and> \<not> jhas p ''chain_name'' \<and> \<not> jhas p ''escrow_address'' \<and>
       h' = earlier @ r\<lparr>nr_proposal := Some (jset ''settlement_selection'' (PDict pinned) p)\<rparr> # later))"
  proof cases
    case (filled earlier r later p pinned option)
    let ?r' = "r\<lparr>nr_proposal := Some (jset ''settlement_selection'' (PDict pinned) p)\<rparr>"
    have "keeps_selection pinned ?r'" by (simp add: keeps_selection_def round_selection_def)
    with filled keep have "\<forall>r \<in> set h'. nr_sender r = Them \<longrightarrow> (case state of None \<Rightarrow> round_selection r = PNone | Some (pinned, _) \<Rightarrow> keeps_selection pinned r)"
      by auto
    moreover have "their_last_proposal h' = Some (jset ''settlement_selection'' (PDict pinned) p)"
      using last_proposal_at [of ?r' later earlier] filled by (simp add: buyer_round_def)
    then have "state \<noteq> None \<longrightarrow> (\<forall>p. their_last_proposal h' = Some p \<longrightarrow> jget p ''settlement_selection'' \<noteq> PNone)" by simp
    ultimately show ?thesis using filled by blast
  qed (use keep in auto)
  with state_of_opening [OF assms] show ?thesis by blast
qed

section \<open>A sample transcript\<close>

text \<open>The buyer's opening selects the listing's option; her counter names an amount only.\<close>

definition pin_env :: credit_env where
  "pin_env = shop_env\<lparr>ce_option_id := (\<lambda>_. replicate 64 (CHR ''0''))\<rparr>"

definition pin_settlement :: jobj where
  "pin_settlement = [(PStr ''schema'', PStr ''alkahest.escrow'')]"

definition pin_listing :: jobj where
  "pin_listing = jset ''settlement_options'' (PList [PDict [(PStr ''option_id'', PStr (replicate 64 (CHR ''0''))),
     (PStr ''settlement'', PDict pin_settlement)]]) shop_listing"

definition pin_opening :: jobj where
  "pin_opening = [(PStr ''settlement_selection'', PDict [(PStr ''settlement'', PDict pin_settlement),
     (PStr ''option_id'', PStr (replicate 64 (CHR ''0''))), (PStr ''expiration_unix'', PInt 1800000000)])]"

definition pin_history :: "nego_round list" where
  "pin_history = [\<lparr>nr_number = 0, nr_sender = Them, nr_action = ''initial'', nr_proposal = Some pin_opening\<rparr>,
     \<lparr>nr_number = 1, nr_sender = Us, nr_action = ''counter'', nr_proposal = None\<rparr>,
     \<lparr>nr_number = 2, nr_sender = Them, nr_action = ''counter'', nr_proposal = Some [(PStr ''fields'', PDict [(PStr ''amount'', PStr ''40'')])]\<rparr>]"

definition pin_result :: "nego_round list \<times> (jobj \<times> jobj) option" where
  "pin_result = projr (preserve_selected_round_selection pin_env [''alkahest.escrow''] pin_listing pin_history)"

lemma pin_result_eq: "preserve_selected_round_selection pin_env [''alkahest.escrow''] pin_listing pin_history = Return (fst pin_result, snd pin_result)"
proof -
  have "\<not> isl (preserve_selected_round_selection pin_env [''alkahest.escrow''] pin_listing pin_history)" by code_simp
  then show ?thesis unfolding pin_result_def
    by (cases "preserve_selected_round_selection pin_env [''alkahest.escrow''] pin_listing pin_history") auto
qed

lemma pin_result_facts: "snd pin_result \<noteq> None" "their_last_proposal (fst pin_result) \<noteq> None" "their_last_proposal pin_history =
    Some [(PStr ''fields'', PDict [(PStr ''amount'', PStr ''40'')])]"
  by code_simp+

theorem selection_is_pinned_witness:
  "\<exists>p. their_last_proposal (fst pin_result) = Some p \<and> jget p ''settlement_selection'' \<noteq> PNone"
  using selection_is_pinned [OF pin_result_eq] pin_result_facts(1,2) by auto

end
